(* ===== verification/Js_Number.thy ===== *)
theory Js_Number
  imports Complex_Main "HOL-Library.Log_Nat"
begin

text \<open>
  JavaScript numbers. A finite double is represented by the rational number it denotes, and every
  operation is the exact rational operation followed by rounding to nearest, ties to even, at 53
  significant bits (\<open>fl\<close>). Outside the model: overflow to infinity, subnormal numbers, negative
  zero and NaN; code that can divide by zero tests the divisor in its own definition.

  The theory then proves when the two-decimal and three-decimal rounding idiom of the source,
  \<open>Math.round((v + Number.EPSILON) * k) / k\<close>, undoes the rounding errors of the computation
  before it: if \<open>v\<close> is close to \<open>n / k\<close> the result is exactly the double nearest to \<open>n / k\<close>.
\<close>

type_synonym num = rat

section \<open>Rounding to 53 bits\<close>

text \<open>The exponent of a positive rational: \<open>2 powi e \<le> x < 2 powi (e + 1)\<close>.\<close>

definition expo :: "rat \<Rightarrow> int" where
  "expo x = (if 1 \<le> x then int (floorlog 2 (nat \<lfloor>x\<rfloor>)) - 1
             else - int (ceillog2 (nat \<lceil>1 / x\<rceil>)))"

definition round_half_even :: "rat \<Rightarrow> int" where
  "round_half_even y =
     (let f = \<lfloor>y\<rfloor>; d = y - of_int f
      in if d < 1 / 2 then f else if 1 / 2 < d then f + 1 else if even f then f else f + 1)"

definition ulp :: "rat \<Rightarrow> rat" where
  "ulp x = 2 powi (expo \<bar>x\<bar> - 52)"

definition fl :: "rat \<Rightarrow> num" where
  "fl x = (if x = 0 then 0 else sgn x * (of_int (round_half_even (\<bar>x\<bar> / ulp x)) * ulp x))"

definition fadd :: "num \<Rightarrow> num \<Rightarrow> num" where "fadd x y = fl (x + y)"
definition fsub :: "num \<Rightarrow> num \<Rightarrow> num" where "fsub x y = fl (x - y)"
definition fmul :: "num \<Rightarrow> num \<Rightarrow> num" where "fmul x y = fl (x * y)"
definition fdiv :: "num \<Rightarrow> num \<Rightarrow> num" where "fdiv x y = fl (x / y)"

text \<open>\<open>Math.round\<close> rounds half up, towards plus infinity; \<open>Math.floor\<close> and \<open>Math.ceil\<close> are exact.\<close>

definition js_round :: "num \<Rightarrow> int" where "js_round x = \<lfloor>x + 1 / 2\<rfloor>"

text \<open>\<open>xs.reduce((sum, x) => sum + x, 0)\<close>\<close>

definition fsum :: "num list \<Rightarrow> num" where "fsum xs = foldl fadd 0 xs"

definition epsilon :: num where "epsilon = 1 / 2 ^ 52"

section \<open>Error bound of one operation\<close>

lemma expo_bounds:
  assumes "0 < x"
  shows "2 powi expo x \<le> x \<and> x < 2 powi (expo x + 1)"
proof (cases "1 \<le> x")
  case True
  define n where "n = nat \<lfloor>x\<rfloor>"
  have n: "0 < n" using True by (simp add: n_def)
  have b: "2 ^ (floorlog 2 n - 1) \<le> n" "n < 2 ^ floorlog 2 n"
    using floorlog_bounds[of n 2] n by auto
  have fl1: "1 \<le> floorlog 2 n" using b(2) n by (cases "floorlog 2 n") auto
  have rn: "rat_of_nat n \<le> x" "x < rat_of_nat n + 1"
    using True by (auto simp: n_def of_nat_nat) linarith+
  have e: "expo x = int (floorlog 2 n) - 1" using True by (simp add: expo_def n_def)
  have p1: "(2::rat) powi expo x = 2 ^ (floorlog 2 n - 1)"
    using fl1 by (simp add: e power_int_def nat_diff_distrib)
  have p2: "(2::rat) powi (expo x + 1) = 2 ^ floorlog 2 n"
    by (simp add: e power_int_def)
  have "(2::rat) ^ (floorlog 2 n - 1) \<le> of_nat n"
    using b(1) by (metis of_nat_le_iff of_nat_numeral of_nat_power)
  moreover have "rat_of_nat n + 1 \<le> 2 ^ floorlog 2 n"
    using b(2) by (metis Suc_leI of_nat_Suc of_nat_le_iff of_nat_numeral of_nat_power add.commute)
  ultimately show ?thesis using rn p1 p2 by linarith
next
  case False
  define n where "n = nat \<lceil>1 / x\<rceil>"
  have x1: "1 < 1 / x" using False assms by (simp add: field_simps)
  have rn: "1 / x \<le> rat_of_nat n" "rat_of_nat n < 1 / x + 1"
    using x1 by (auto simp: n_def of_nat_nat) linarith+
  have n: "1 < n" using rn x1 by (metis (no_types, lifting) less_le_trans of_nat_1 of_nat_less_iff)
  define k where "k = ceillog2 n"
  have u: "n \<le> 2 ^ k" by (simp add: k_def le_two_power_ceillog2)
  have l: "2 ^ k < 2 * n" using two_power_ceillog2_gt[of n] n by (simp add: k_def)
  have k1: "1 \<le> k" using u n by (cases k) auto
  have l': "2 ^ (k - 1) < n" using l k1 by (cases k) auto
  have e: "expo x = - int k" using False by (simp add: expo_def n_def k_def)
  have p1: "(2::rat) powi expo x = 1 / 2 ^ k"
    by (simp add: e power_int_minus inverse_eq_divide)
  have p2: "(2::rat) powi (expo x + 1) = 1 / 2 ^ (k - 1)"
  proof -
    have "expo x + 1 = - int (k - 1)" using k1 by (simp add: e)
    then show ?thesis by (simp add: power_int_minus inverse_eq_divide)
  qed
  have "rat_of_nat n \<le> 2 ^ k" using u by (metis of_nat_le_iff of_nat_numeral of_nat_power)
  then have "1 / x \<le> 2 ^ k" using rn by linarith
  then have "1 / 2 ^ k \<le> x" using assms by (simp add: field_simps)
  moreover have "x < 1 / 2 ^ (k - 1)"
  proof -
    have "2 ^ (k - 1) + 1 \<le> n" using l' by simp
    then have "rat_of_nat (2 ^ (k - 1) + 1) \<le> of_nat n" by (rule of_nat_mono)
    then have "(2::rat) ^ (k - 1) < 1 / x" using rn by simp
    then show ?thesis using assms by (simp add: field_simps)
  qed
  ultimately show ?thesis using p1 p2 by simp
qed

lemma round_half_even_err: "\<bar>of_int (round_half_even y) - y\<bar> \<le> 1 / 2"
proof -
  have "of_int \<lfloor>y\<rfloor> \<le> y" "y < of_int \<lfloor>y\<rfloor> + 1" by linarith+
  then show ?thesis by (auto simp: round_half_even_def Let_def abs_le_iff)
qed

lemma round_half_even_int [simp]: "round_half_even (of_int n) = n"
  by (simp add: round_half_even_def)

lemma round_half_even_mono:
  assumes "y \<le> z"
  shows "round_half_even y \<le> round_half_even z"
proof (cases "\<lfloor>y\<rfloor> = \<lfloor>z\<rfloor>")
  case True
  then show ?thesis using assms by (auto simp: round_half_even_def Let_def)
next
  case False
  then have "\<lfloor>y\<rfloor> + 1 \<le> \<lfloor>z\<rfloor>" using floor_mono[OF assms] by linarith
  moreover have "round_half_even y \<le> \<lfloor>y\<rfloor> + 1" by (simp add: round_half_even_def Let_def)
  moreover have "\<lfloor>z\<rfloor> \<le> round_half_even z" by (simp add: round_half_even_def Let_def)
  ultimately show ?thesis by linarith
qed

lemma ulp_pos [simp]: "0 < ulp x" by (simp add: ulp_def)

lemma ulp_le: "x \<noteq> 0 \<Longrightarrow> ulp x \<le> \<bar>x\<bar> / 2 ^ 52"
proof -
  assume "x \<noteq> 0"
  then have "2 powi expo \<bar>x\<bar> \<le> \<bar>x\<bar>" using expo_bounds[of "\<bar>x\<bar>"] by simp
  moreover have "ulp x = 2 powi expo \<bar>x\<bar> / 2 ^ 52"
    by (simp add: ulp_def power_int_diff)
  ultimately show ?thesis by (simp add: field_simps)
qed

lemma fl_0 [simp]: "fl 0 = 0" by (simp add: fl_def)

lemma fl_minus: "fl (- x) = - fl x" by (simp add: fl_def ulp_def)

theorem fl_err: "\<bar>fl x - x\<bar> \<le> \<bar>x\<bar> / 2 ^ 53"
proof (cases "x = 0")
  case False
  let ?y = "\<bar>x\<bar> / ulp x"
  have "fl x - x = sgn x * (of_int (round_half_even ?y) * ulp x - \<bar>x\<bar>)"
    using False by (simp add: fl_def algebra_simps) (metis mult.commute sgn_mult_abs)
  also have "\<dots> = sgn x * ((of_int (round_half_even ?y) - ?y) * ulp x)"
    using less_imp_neq[OF ulp_pos[of x]] by (simp add: left_diff_distrib)
  finally have "\<bar>fl x - x\<bar> = \<bar>of_int (round_half_even ?y) - ?y\<bar> * ulp x"
    using False by (simp add: abs_mult abs_sgn_eq less_imp_le[OF ulp_pos[of x]] abs_of_pos)
  also have "\<dots> \<le> 1 / 2 * ulp x"
    by (rule mult_right_mono[OF round_half_even_err]) (simp add: less_imp_le)
  also have "\<dots> \<le> \<bar>x\<bar> / 2 ^ 53" using ulp_le[OF False] by (simp add: field_simps)
  finally show ?thesis .
qed simp

section \<open>Monotonicity and exact values\<close>

lemma expo_mono:
  assumes "0 < x" "x \<le> y"
  shows "expo x \<le> expo y"
proof (rule ccontr)
  assume "\<not> expo x \<le> expo y"
  then have "expo y + 1 \<le> expo x" by simp
  then have "(2::rat) powi (expo y + 1) \<le> 2 powi expo x"
    by (rule power_int_increasing) simp
  also have "\<dots> \<le> x" using expo_bounds[OF assms(1)] by simp
  also have "x < 2 powi (expo y + 1)" using expo_bounds[of y] assms by simp
  finally show False by simp
qed

text \<open>Within one binade the rounded significand stays between \<open>2 ^ 52\<close> and \<open>2 ^ 53\<close>.\<close>

lemma signif_bounds:
  assumes "0 < x"
  shows "2 ^ 52 \<le> x / ulp x" "x / ulp x < 2 ^ 53"
proof -
  have u: "ulp x = 2 powi expo x / 2 ^ 52" using assms by (simp add: ulp_def power_int_diff)
  have s: "(2::rat) powi (expo x + 1) = 2 * 2 powi expo x" by (simp add: power_int_add)
  show "2 ^ 52 \<le> x / ulp x" "x / ulp x < 2 ^ 53"
    using expo_bounds[OF assms] unfolding u s by (simp_all add: field_simps)
qed

lemma fl_pos_eq: "0 < x \<Longrightarrow> fl x = of_int (round_half_even (x / ulp x)) * ulp x"
  by (simp add: fl_def)

lemma fl_mono_pos:
  assumes "0 < x" "x \<le> y"
  shows "fl x \<le> fl y"
proof (cases "expo x = expo y")
  case True
  then have u: "ulp y = ulp x" using assms by (simp add: ulp_def)
  have "x / ulp x \<le> y / ulp x" using assms by (simp add: divide_right_mono less_imp_le)
  then show ?thesis using assms
    by (simp add: fl_pos_eq u mult_right_mono less_imp_le round_half_even_mono)
next
  case False
  then have lt: "expo x + 1 \<le> expo y" using expo_mono[OF assms] by simp
  have y: "0 < y" using assms by simp
  have "round_half_even (x / ulp x) \<le> round_half_even (of_int (2 ^ 53))"
    using signif_bounds(2)[OF assms(1)] by (intro round_half_even_mono) simp
  then have a: "rat_of_int (round_half_even (x / ulp x)) \<le> 2 ^ 53"
    by (metis of_int_le_iff of_int_numeral of_int_power round_half_even_int)
  have "round_half_even (of_int (2 ^ 52)) \<le> round_half_even (y / ulp y)"
    using signif_bounds(1)[OF y] by (intro round_half_even_mono) simp
  then have b: "2 ^ 52 \<le> rat_of_int (round_half_even (y / ulp y))"
    by (metis of_int_le_iff of_int_numeral of_int_power round_half_even_int)
  have "2 * ulp x \<le> ulp y"
  proof -
    have "2 * ulp x = 2 powi (expo x - 52 + 1)"
      using assms power_int_add[of "2::rat" "expo x - 52" 1] by (simp add: ulp_def)
    also have "\<dots> \<le> 2 powi (expo y - 52)" using lt by (intro power_int_increasing) simp_all
    finally show ?thesis using y by (simp add: ulp_def)
  qed
  then have "2 ^ 53 * ulp x \<le> 2 ^ 52 * ulp y" by simp
  moreover have "fl x \<le> 2 ^ 53 * ulp x"
    using a assms by (simp add: fl_pos_eq mult_right_mono less_imp_le del: mult_le_cancel_right)
  moreover have "2 ^ 52 * ulp y \<le> fl y"
    using b y by (simp add: fl_pos_eq mult_right_mono less_imp_le del: mult_le_cancel_right)
  ultimately show ?thesis by linarith
qed

lemma fl_nonneg: "0 \<le> x \<Longrightarrow> 0 \<le> fl x"
proof -
  assume "0 \<le> x"
  moreover have "x - x / 2 ^ 53 \<le> fl x"
  proof -
    have "\<bar>fl x - x\<bar> \<le> x / 2 ^ 53" using fl_err[of x] \<open>0 \<le> x\<close> by simp
    then show ?thesis by linarith
  qed
  ultimately show ?thesis by simp
qed

theorem fl_mono:
  assumes "x \<le> y"
  shows "fl x \<le> fl y"
proof -
  consider "0 < x" | "x \<le> 0" "0 \<le> y" | "y < 0" using assms by linarith
  then show ?thesis
  proof cases
    case 1
    then show ?thesis using assms by (rule fl_mono_pos)
  next
    case 2
    then have "fl x \<le> 0" using fl_nonneg[of "- x"] by (simp add: fl_minus)
    then show ?thesis using fl_nonneg[of y] 2 by simp
  next
    case 3
    then show ?thesis using fl_mono_pos[of "- y" "- x"] assms by (simp add: fl_minus)
  qed
qed

text \<open>A rational with a significand of at most 53 bits is a double already.\<close>

lemma fl_exact:
  assumes "x = of_int m * 2 powi k" "\<bar>m\<bar> \<le> 2 ^ 53"
  shows "fl x = x"
proof (cases "x = 0")
  case False
  define e where "e = expo \<bar>x\<bar>"
  have u: "ulp x = 2 powi (e - 52)" by (simp add: ulp_def e_def)
  have ax: "\<bar>x\<bar> = of_int \<bar>m\<bar> * 2 powi k" by (simp add: assms(1) abs_mult)
  have low: "2 powi e \<le> \<bar>x\<bar>" using expo_bounds[of "\<bar>x\<bar>"] False by (simp add: e_def)
  have "\<exists>n. \<bar>x\<bar> / ulp x = of_int n"
  proof (cases "e - 52 \<le> k")
    case True
    have "\<bar>x\<bar> / ulp x = of_int \<bar>m\<bar> * 2 powi (k - (e - 52))" by (simp add: ax u power_int_diff)
    also have "\<dots> = of_int (\<bar>m\<bar> * 2 ^ nat (k - (e - 52)))" using True by (simp add: power_int_def)
    finally show ?thesis by blast
  next
    case False
    have "rat_of_int \<bar>m\<bar> \<le> 2 ^ 53"
      using assms(2) by (metis of_int_le_iff of_int_numeral of_int_power)
    then have "\<bar>x\<bar> \<le> 2 ^ 53 * 2 powi k" by (simp add: ax mult_right_mono)
    moreover have "(2::rat) powi (53 + k) \<le> 2 powi e"
      using False by (intro power_int_increasing) simp_all
    moreover have "(2::rat) powi (53 + k) = 2 ^ 53 * 2 powi k" by (simp add: power_int_add)
    ultimately have eq: "\<bar>x\<bar> = 2 powi e" using low by linarith
    have "\<bar>x\<bar> / ulp x = of_int (2 ^ 52)" by (simp add: eq u power_int_diff)
    then show ?thesis by blast
  qed
  then obtain n where n: "\<bar>x\<bar> / ulp x = of_int n" by blast
  then have "of_int n * ulp x = \<bar>x\<bar>" by (metis less_irrefl nonzero_eq_divide_eq ulp_pos)
  then show ?thesis using False n by (simp add: fl_def) (metis sgn_mult_abs)
qed simp

lemma fl_int [simp]: "\<bar>n\<bar> \<le> 2 ^ 53 \<Longrightarrow> fl (of_int n) = of_int n"
  by (rule fl_exact[of _ n 0]) simp_all

lemma fl_fl [simp]: "fl (fl x) = fl x"
proof (cases "x = 0")
  case False
  let ?m = "round_half_even (\<bar>x\<bar> / ulp x)"
  have "\<bar>?m\<bar> \<le> 2 ^ 53"
  proof -
    have b: "0 \<le> \<bar>x\<bar> / ulp x" "\<bar>x\<bar> / ulp x \<le> 2 ^ 53"
      using signif_bounds[of "\<bar>x\<bar>"] False by (simp_all add: ulp_def less_imp_le)
    have "round_half_even (of_int 0) \<le> ?m" using b(1) by (intro round_half_even_mono) simp
    moreover have "?m \<le> round_half_even (of_int (2 ^ 53))"
      using b(2) by (intro round_half_even_mono) simp
    ultimately show ?thesis unfolding round_half_even_int by simp
  qed
  moreover define s where "s = (if 0 < x then 1 else - 1 :: int)"
  moreover have "fl x = of_int (s * ?m) * 2 powi (expo \<bar>x\<bar> - 52)"
    using False by (simp add: fl_def ulp_def s_def sgn_if)
  moreover have "\<bar>s * ?m\<bar> \<le> 2 ^ 53" 
  proof -
    have "\<bar>s\<bar> = 1" by (simp add: s_def)
    then show ?thesis using calculation(1) by (simp only: abs_mult mult_1)
  qed
  ultimately show ?thesis by (metis fl_exact)
qed simp

section \<open>Decimal values and the rounding idiom\<close>

text \<open>
  \<open>dec k n\<close> is the double nearest to \<open>n / k\<close>: what \<open>Number(...)\<close> makes of a database decimal
  column holding \<open>n\<close> units of \<open>1 / k\<close>, and what a decimal literal denotes. Money has \<open>k = 100\<close>
  (\<open>cents\<close>), stock quantities \<open>k = 1000\<close> (\<open>milli\<close>).
\<close>

definition dec :: "nat \<Rightarrow> int \<Rightarrow> num" where "dec k n = fl (of_int n / of_nat k)"
abbreviation cents :: "int \<Rightarrow> num" where "cents \<equiv> dec 100"
abbreviation milli :: "int \<Rightarrow> num" where "milli \<equiv> dec 1000"

lemma expo_eq:
  assumes "2 powi e \<le> x" "x < 2 powi (e + 1)"
  shows "expo x = e"
proof (rule antisym)
  have x: "0 < x" using assms(1) by (rule less_le_trans[rotated]) simp
  note b = expo_bounds[OF x]
  show "expo x \<le> e"
  proof (rule ccontr)
    assume "\<not> expo x \<le> e"
    then have "(2::rat) powi (e + 1) \<le> 2 powi expo x" by (intro power_int_increasing) simp_all
    then show False using b assms by simp
  qed
  show "e \<le> expo x"
  proof (rule ccontr)
    assume "\<not> e \<le> expo x"
    then have "(2::rat) powi (expo x + 1) \<le> 2 powi e" by (intro power_int_increasing) simp_all
    then show False using b assms by simp
  qed
qed

text \<open>Rounding a number whose binary exponent is known: the way concrete doubles are computed below.\<close>

lemma fl_at:
  assumes "2 powi e \<le> x" "x < 2 powi (e + 1)"
  shows "fl x = of_int (round_half_even (x * 2 powi (52 - e))) * 2 powi (e - 52)"
proof -
  have x: "0 < x" using assms(1) by (rule less_le_trans[rotated]) simp
  have u: "ulp x = 2 powi (e - 52)" using x expo_eq[OF assms] by (simp add: ulp_def)
  have "x / 2 powi (e - 52) = x * 2 powi (52 - e)"
    by (metis divide_inverse minus_diff_eq power_int_minus)
  then show ?thesis using fl_pos_eq[OF x] by (simp add: u)
qed

lemma round_half_even_near:
  assumes "of_int n - 1 / 2 < y" "y < of_int n + 1 / 2"
  shows "round_half_even y = n"
proof (cases "of_int n \<le> y")
  case True
  then have "\<lfloor>y\<rfloor> = n" using assms by (intro floor_unique) linarith+
  then show ?thesis using assms by (simp add: round_half_even_def)
next
  case False
  then have "\<lfloor>y\<rfloor> = n - 1" using assms by (intro floor_unique; simp; linarith)
  then show ?thesis using assms by (simp add: round_half_even_def)
qed

lemma fl_is:
  assumes "2 powi e \<le> x" "x < 2 powi (e + 1)"
    "of_int n - 1 / 2 < x * 2 powi (52 - e)" "x * 2 powi (52 - e) < of_int n + 1 / 2"
  shows "fl x = of_int n * 2 powi (e - 52)"
  using fl_at[OF assms(1,2)] round_half_even_near[OF assms(3,4)] by simp

lemma fl_whole [simp]: "fl (numeral n) = numeral n" if "numeral n \<le> (2 ^ 53 :: int)"
  using fl_int[of "numeral n"] that by simp

lemma fl_1 [simp]: "fl 1 = 1"
  using fl_int[of 1] by simp

lemma dec_whole: "0 < k \<Longrightarrow> \<bar>m\<bar> \<le> 2 ^ 53 \<Longrightarrow> dec k (int k * m) = of_int m"
  by (simp add: dec_def)

text \<open>The integer that the rounding idiom reaches before its final division.\<close>

definition units :: "nat \<Rightarrow> num \<Rightarrow> int" where
  "units k v = js_round (fmul (fadd v epsilon) (of_nat k))"

definition round_dp :: "nat \<Rightarrow> num \<Rightarrow> num" where
  "round_dp k v = fdiv (of_int (js_round (fmul (fadd v epsilon) (of_nat k)))) (of_nat k)"

text \<open>Storing a number into a \<open>Decimal(p, 2)\<close> column: PostgreSQL rounds half away from zero.\<close>

definition to_column :: "nat \<Rightarrow> num \<Rightarrow> int" where
  "to_column k x = (if 0 \<le> x then \<lfloor>of_nat k * x + 1 / 2\<rfloor> else - \<lfloor>of_nat k * (- x) + 1 / 2\<rfloor>)"

lemma round_dp_dec: "round_dp k v = dec k (units k v)"
  by (simp add: round_dp_def dec_def units_def fdiv_def)

lemma dec_0 [simp]: "dec k 0 = 0" by (simp add: dec_def)

lemma dec_minus: "dec k (- n) = - dec k n" by (simp add: dec_def fl_minus)

lemma dec_mono: "n \<le> m \<Longrightarrow> dec k n \<le> dec k m"
  by (simp add: dec_def fl_mono divide_right_mono)

lemma dec_nonneg [simp]: "0 \<le> n \<Longrightarrow> 0 \<le> dec k n" using dec_mono[of 0 n k] by simp

lemma fl_dec [simp]: "fl (dec k n) = dec k n" by (simp add: dec_def)

lemma fadd_0 [simp]: "fadd 0 (dec k n) = dec k n" "fadd (dec k n) 0 = dec k n"
  by (simp_all add: fadd_def)

lemma fsub_0 [simp]: "fsub (dec k n) 0 = dec k n" by (simp add: fsub_def)

lemma fdiv_of_int: "fdiv (of_int n) (of_nat k) = dec k n" by (simp add: fdiv_def dec_def)

lemma units_mono: "v \<le> w \<Longrightarrow> units k v \<le> units k w"
  unfolding units_def js_round_def fmul_def fadd_def
  by (intro floor_mono add_right_mono fl_mono mult_right_mono) simp_all

lemma round_dp_mono: "v \<le> w \<Longrightarrow> round_dp k v \<le> round_dp k w"
  by (simp add: round_dp_dec dec_mono units_mono)

text \<open>
  \<open>close k x n j\<close>: the double \<open>x\<close> is within \<open>j / 10 ^ 4\<close> of a unit from \<open>n\<close> units. The bound
  \<open>10 ^ 12\<close> on the units is the range of the \<open>Decimal(12, 2)\<close> columns.
\<close>

definition close :: "nat \<Rightarrow> num \<Rightarrow> int \<Rightarrow> rat \<Rightarrow> bool" where
  "close k x n j \<longleftrightarrow> \<bar>of_nat k * x - of_int n\<bar> \<le> j / 10 ^ 4"

definition in_range :: "int \<Rightarrow> bool" where "in_range n \<longleftrightarrow> \<bar>n\<bar> \<le> 10 ^ 12"

lemma in_rangeD: "in_range n \<Longrightarrow> \<bar>rat_of_int n\<bar> \<le> 10 ^ 12"
  unfolding in_range_def by (metis of_int_abs of_int_le_iff of_int_numeral of_int_power)

lemma close_mono: "close k x n i \<Longrightarrow> i \<le> j \<Longrightarrow> close k x n j"
  by (auto simp: close_def)

text \<open>One rounding of a value already close costs two more units of error.\<close>

lemma close_fl:
  assumes "close k x n j" "in_range n" "j \<le> 10 ^ 4" "0 < k"
  shows "close k (fl x) n (j + 2)"
proof -
  have k: "0 < rat_of_nat k" using assms(4) by simp
  have n: "\<bar>rat_of_int n\<bar> \<le> 10 ^ 12" by (rule in_rangeD[OF assms(2)])
  have kx: "\<bar>of_nat k * x\<bar> \<le> 10 ^ 12 + 1"
  proof -
    have "j / 10 ^ 4 \<le> 1" using assms(3) by simp
    then show ?thesis using assms(1) n unfolding close_def by linarith
  qed
  have "\<bar>of_nat k * fl x - of_nat k * x\<bar> = of_nat k * \<bar>fl x - x\<bar>"
    using k by (metis abs_mult abs_of_pos right_diff_distrib)
  also have "\<dots> \<le> of_nat k * (\<bar>x\<bar> / 2 ^ 53)" using k fl_err[of x] by (intro mult_left_mono) auto
  also have "\<dots> = \<bar>of_nat k * x\<bar> / 2 ^ 53" using k by (simp add: abs_mult)
  also have "\<dots> \<le> (10 ^ 12 + 1) / 2 ^ 53" using kx by (intro divide_right_mono) auto
  also have "\<dots> \<le> 2 / 10 ^ 4" by (simp add: field_simps)
  finally show ?thesis using assms(1) unfolding close_def add_divide_distrib by linarith
qed

text \<open>Combination rules: every operation of the source keeps values close to the exact result.\<close>

lemma close_dec [intro]: "in_range n \<Longrightarrow> 0 < k \<Longrightarrow> close k (dec k n) n 2"
  unfolding dec_def using close_fl[of k "of_int n / of_nat k" n 0] by (simp add: close_def)

lemma close_fadd:
  assumes "close k x n i" "close k y m j" "in_range (n + m)" "i + j \<le> 10 ^ 4" "0 < k"
  shows "close k (fadd x y) (n + m) (i + j + 2)"
proof -
  have "of_nat k * (x + y) - of_int (n + m) = (of_nat k * x - of_int n) + (of_nat k * y - of_int m)"
    by (simp add: algebra_simps)
  then have "close k (x + y) (n + m) (i + j)"
    using assms(1,2) unfolding close_def add_divide_distrib by linarith
  then show ?thesis unfolding fadd_def by (rule close_fl) (use assms in simp_all)
qed

lemma close_fsub:
  assumes "close k x n i" "close k y m j" "in_range (n - m)" "i + j \<le> 10 ^ 4" "0 < k"
  shows "close k (fsub x y) (n - m) (i + j + 2)"
proof -
  have "of_nat k * (x - y) - of_int (n - m) = (of_nat k * x - of_int n) - (of_nat k * y - of_int m)"
    by (simp add: algebra_simps)
  then have "close k (x - y) (n - m) (i + j)"
    using assms(1,2) unfolding close_def add_divide_distrib by linarith
  then show ?thesis unfolding fsub_def by (rule close_fl) (use assms in simp_all)
qed

lemma close_min:
  assumes "close k x n i" "close k y m i"
  shows "close k (min x y) (min n m) i"
proof -
  have gen: "\<bar>min a b - min c d\<bar> \<le> e" if "\<bar>a - c\<bar> \<le> e" "\<bar>b - d\<bar> \<le> e" for a b c d e :: rat
    using that by (simp add: min_def abs_le_iff)
  have "of_nat k * min x y = min (of_nat k * x) (of_nat k * y)" by (simp add: min_mult_distrib_left)
  moreover have "rat_of_int (min n m) = min (of_int n) (of_int m)" by (simp add: min_def)
  ultimately show ?thesis using gen[OF assms[unfolded close_def]] unfolding close_def by simp
qed

text \<open>The rounding idiom recovers the exact decimal from any value that is close to it.\<close>

theorem units_close:
  assumes "close k v n j" "in_range n" "j \<le> 4000" "k = 100 \<or> k = 1000"
  shows "units k v = n"
proof -
  have k: "0 < k" using assms(4) by auto
  have "close k (v + epsilon) n (j + 1)"
  proof -
    have "of_nat k * (v + epsilon) = of_nat k * v + of_nat k * epsilon" by (simp add: distrib_left)
    moreover have "0 \<le> of_nat k * epsilon" "of_nat k * epsilon \<le> 1 / 10 ^ 4"
      using assms(4) by (auto simp: epsilon_def)
    ultimately show ?thesis using assms(1) unfolding close_def add_divide_distrib by linarith
  qed
  then have "close k (fadd v epsilon) n (j + 1 + 2)"
    unfolding fadd_def by (rule close_fl) (use assms k in simp_all)
  then have "close 1 (of_nat k * fadd v epsilon) n (j + 3)" by (simp add: close_def)
  then have "close 1 (fl (of_nat k * fadd v epsilon)) n (j + 3 + 2)"
    by (rule close_fl) (use assms in simp_all)
  then have "\<bar>fmul (fadd v epsilon) (of_nat k) - of_int n\<bar> \<le> (j + 5) / 10 ^ 4"
    by (simp add: close_def fmul_def mult.commute add.assoc)
  also have "\<dots> < 1 / 2" using assms(3) by simp
  finally have "\<bar>fmul (fadd v epsilon) (of_nat k) - of_int n\<bar> < 1 / 2" .
  then show ?thesis unfolding units_def js_round_def by (intro floor_unique) linarith+
qed

lemma round_dp_close:
  "close k v n j \<Longrightarrow> in_range n \<Longrightarrow> j \<le> 4000 \<Longrightarrow> k = 100 \<or> k = 1000 \<Longrightarrow> round_dp k v = dec k n"
  by (simp add: round_dp_dec units_close)

lemma units_dec [simp]: "in_range n \<Longrightarrow> k = 100 \<or> k = 1000 \<Longrightarrow> units k (dec k n) = n"
  by (rule units_close[of k _ n 2]) auto

lemma units_0 [simp]: "k = 100 \<or> k = 1000 \<Longrightarrow> units k 0 = 0"
  using units_dec[of 0 k] by (simp add: in_range_def)

lemma round_dp_of_dec [simp]: "in_range n \<Longrightarrow> k = 100 \<or> k = 1000 \<Longrightarrow> round_dp k (dec k n) = dec k n"
  by (simp add: round_dp_dec)

lemma dec_less_iff:
  assumes "in_range n" "in_range m" "k = 100 \<or> k = 1000"
  shows "dec k n < dec k m \<longleftrightarrow> n < m"
  using dec_mono[of n m k] dec_mono[of m n k] assms units_dec
  by (metis linorder_not_less order.antisym order_less_imp_le)

lemma dec_le_iff:
  "in_range n \<Longrightarrow> in_range m \<Longrightarrow> k = 100 \<or> k = 1000 \<Longrightarrow> dec k n \<le> dec k m \<longleftrightarrow> n \<le> m"
  using dec_less_iff[of m n k] by (simp add: linorder_not_less[symmetric])

lemma dec_eq_iff:
  "in_range n \<Longrightarrow> in_range m \<Longrightarrow> k = 100 \<or> k = 1000 \<Longrightarrow> dec k n = dec k m \<longleftrightarrow> n = m"
  using units_dec by metis

lemma in_range_0 [simp]: "in_range 0" by (simp add: in_range_def)

lemma dec_pos_iff [simp]: "in_range n \<Longrightarrow> k = 100 \<or> k = 1000 \<Longrightarrow> 0 < dec k n \<longleftrightarrow> 0 < n"
  using dec_less_iff[of 0 n k] by simp

lemma dec_le_0_iff [simp]: "in_range n \<Longrightarrow> k = 100 \<or> k = 1000 \<Longrightarrow> dec k n \<le> 0 \<longleftrightarrow> n \<le> 0"
  using dec_le_iff[of n 0 k] by simp

lemma dec_less_0_iff [simp]: "in_range n \<Longrightarrow> k = 100 \<or> k = 1000 \<Longrightarrow> dec k n < 0 \<longleftrightarrow> n < 0"
  using dec_less_iff[of n 0 k] by simp

text \<open>Each rounding idiom moves its argument by at most half a unit, plus the rounding noise.\<close>

theorem units_bounds:
  assumes "\<bar>of_nat k * v\<bar> \<le> 10 ^ 12" "k = 100 \<or> k = 1000"
  shows "\<bar>of_int (units k v) - of_nat k * v\<bar> \<le> 1 / 2 + 1 / 10 ^ 3"
proof -
  let ?w = "fadd v epsilon" and ?z = "fmul (fadd v epsilon) (of_nat k)"
  have k: "0 < rat_of_nat k" "rat_of_nat k \<le> 1000" using assms(2) by auto
  have e: "0 < epsilon" "rat_of_nat k * epsilon \<le> 1 / 10 ^ 5"
    using assms(2) by (auto simp: epsilon_def)
  have "of_nat k * \<bar>?w - (v + epsilon)\<bar> \<le> of_nat k * (\<bar>v + epsilon\<bar> / 2 ^ 53)"
    unfolding fadd_def using k fl_err by (intro mult_left_mono) auto
  moreover have "of_nat k * \<bar>?w - (v + epsilon)\<bar> = \<bar>of_nat k * ?w - (of_nat k * v + of_nat k * epsilon)\<bar>"
    using k(1) by (metis abs_mult abs_of_pos distrib_left right_diff_distrib)
  moreover have "of_nat k * \<bar>v + epsilon\<bar> = \<bar>of_nat k * v + of_nat k * epsilon\<bar>"
    using k(1) by (metis abs_mult abs_of_pos distrib_left)
  ultimately have a: "\<bar>of_nat k * ?w - (of_nat k * v + of_nat k * epsilon)\<bar>
      \<le> \<bar>of_nat k * v + of_nat k * epsilon\<bar> / 2 ^ 53"
    by (metis times_divide_eq_right)
  have b: "\<bar>?z - of_nat k * ?w\<bar> \<le> \<bar>of_nat k * ?w\<bar> / 2 ^ 53"
    unfolding fmul_def mult.commute[of ?w] by (rule fl_err)
  have "\<bar>of_nat k * v + of_nat k * epsilon\<bar> / 2 ^ 53 \<le> (10 ^ 12 + 1) / 2 ^ 53"
  proof (rule divide_right_mono)
    have "0 \<le> of_nat k * epsilon" "of_nat k * epsilon \<le> 1" using e k(1) by simp_all
    then show "\<bar>of_nat k * v + of_nat k * epsilon\<bar> \<le> 10 ^ 12 + 1"
      using assms(1) by linarith
  qed simp
  also have "\<dots> \<le> 2 / 10 ^ 4" by simp
  finally have "\<bar>of_nat k * ?w - (of_nat k * v + of_nat k * epsilon)\<bar> \<le> 2 / 10 ^ 4" using a by linarith
  moreover have "0 \<le> of_nat k * epsilon" using e k(1) by simp
  ultimately have a': "\<bar>of_nat k * ?w - of_nat k * v\<bar> \<le> 1 / 10 ^ 5 + 2 / 10 ^ 4"
    using e(2) by linarith
  have "(1 / 10 ^ 5 + 2 / 10 ^ 4 :: rat) \<le> 1" by simp
  then have "\<bar>of_nat k * ?w\<bar> \<le> 10 ^ 12 + 1" using assms(1) a' by linarith
  then have "\<bar>of_nat k * ?w\<bar> / 2 ^ 53 \<le> (10 ^ 12 + 1) / 2 ^ 53" by (rule divide_right_mono) simp
  also have "\<dots> \<le> 2 / 10 ^ 4" by simp
  finally have "\<bar>?z - of_nat k * v\<bar> \<le> 1 / 10 ^ 5 + 2 / 10 ^ 4 + 2 / 10 ^ 4" using a' b by linarith
  also have "\<dots> \<le> 1 / 10 ^ 3" by simp
  finally have "\<bar>?z - of_nat k * v\<bar> \<le> 1 / 10 ^ 3" .
  moreover have "of_int (units k v) \<le> ?z + 1 / 2" "?z + 1 / 2 < of_int (units k v) + 1"
    unfolding units_def js_round_def by linarith+
  ultimately show ?thesis by linarith
qed

section \<open>Sums, products and stored columns\<close>

lemma dec_rel_err: "0 < k \<Longrightarrow> \<bar>of_nat k * dec k n - of_int n\<bar> \<le> \<bar>of_int n\<bar> / 2 ^ 53"
proof -
  assume "0 < k"
  then have k: "0 < rat_of_nat k" by simp
  have "of_nat k * dec k n - of_int n = of_nat k * (fl (of_int n / of_nat k) - of_int n / of_nat k)"
    using k by (simp add: dec_def right_diff_distrib)
  then have "\<bar>of_nat k * dec k n - of_int n\<bar> = of_nat k * \<bar>fl (of_int n / of_nat k) - of_int n / of_nat k\<bar>"
    using k by (simp add: abs_mult)
  also have "\<dots> \<le> of_nat k * (\<bar>of_int n / of_nat k\<bar> / 2 ^ 53)"
    by (rule mult_left_mono[OF fl_err]) simp
  also have "\<dots> = \<bar>of_int n\<bar> / 2 ^ 53" using k by simp
  finally show ?thesis .
qed

lemma range_div: "\<bar>x\<bar> \<le> 10 ^ 12 \<Longrightarrow> \<bar>x\<bar> / 2 ^ 53 \<le> 2 / 10 ^ 4" for x :: rat
proof -
  assume "\<bar>x\<bar> \<le> 10 ^ 12"
  then have "\<bar>x\<bar> / 2 ^ 53 \<le> 10 ^ 12 / 2 ^ 53" by (rule divide_right_mono) simp
  also have "\<dots> \<le> 2 / 10 ^ 4" by simp
  finally show ?thesis .
qed

text \<open>Price times quantity.\<close>

lemma close_mult_int:
  assumes "in_range (n * q)" "0 < k"
  shows "close k (fmul (dec k n) (of_int q)) (n * q) 4"
proof -
  have "\<bar>of_nat k * (dec k n * of_int q) - of_int (n * q)\<bar> = \<bar>of_nat k * dec k n - of_int n\<bar> * \<bar>of_int q\<bar>"
    by (simp add: abs_mult[symmetric] algebra_simps)
  also have "\<dots> \<le> \<bar>of_int n\<bar> / 2 ^ 53 * \<bar>of_int q\<bar>"
    by (rule mult_right_mono[OF dec_rel_err[OF assms(2)]]) simp
  also have "\<dots> = \<bar>of_int (n * q)\<bar> / 2 ^ 53" by (simp add: abs_mult)
  also have "\<dots> \<le> 2 / 10 ^ 4" by (rule range_div[OF in_rangeD[OF assms(1)]])
  finally have "close k (dec k n * of_int q) (n * q) 2" by (simp add: close_def)
  then show ?thesis unfolding fmul_def using close_fl[of k _ "n * q" 2] assms by simp
qed

text \<open>A line total divided by its quantity and multiplied back (the re-pricing of stored lines).\<close>

lemma close_div_mult:
  assumes "in_range n" "0 < q" "0 < k"
  shows "close k (fmul (fdiv (dec k n) (of_int q)) (of_int q)) n 6"
proof -
  let ?a = "dec k n" and ?q = "rat_of_int q"
  have q: "0 < ?q" using assms(2) by simp
  have k: "0 < rat_of_nat k" using assms(3) by simp
  have ka: "close k ?a n 2" using assms by auto
  then have ka': "\<bar>of_nat k * ?a\<bar> \<le> 10 ^ 12 + 1"
  proof -
    have "(2 / 10 ^ 4 :: rat) \<le> 1" by simp
    then show ?thesis using ka in_rangeD[OF assms(1)] unfolding close_def by linarith
  qed
  have "\<bar>of_nat k * (fdiv ?a ?q * ?q) - of_nat k * ?a\<bar> = of_nat k * (\<bar>fl (?a / ?q) - ?a / ?q\<bar> * ?q)"
  proof -
    have "of_nat k * (fdiv ?a ?q * ?q) - of_nat k * ?a = of_nat k * ((fl (?a / ?q) - ?a / ?q) * ?q)"
      using q by (simp add: fdiv_def left_diff_distrib right_diff_distrib)
    then show ?thesis using q k by (simp add: abs_mult)
  qed
  also have "\<dots> \<le> of_nat k * (\<bar>?a / ?q\<bar> / 2 ^ 53 * ?q)"
    using q k by (intro mult_left_mono mult_right_mono fl_err) auto
  also have "\<dots> = \<bar>of_nat k * ?a\<bar> / 2 ^ 53" using q k by (simp add: abs_mult abs_divide)
  also have "\<dots> \<le> (10 ^ 12 + 1) / 2 ^ 53" by (rule divide_right_mono[OF ka']) simp
  also have "\<dots> \<le> 2 / 10 ^ 4" by simp
  finally have "\<bar>of_nat k * (fdiv ?a ?q * ?q) - of_nat k * ?a\<bar> \<le> 2 / 10 ^ 4" .
  moreover have "(4 / 10 ^ 4 :: rat) = 2 / 10 ^ 4 + 2 / 10 ^ 4" by simp
  ultimately have "close k (fdiv ?a ?q * ?q) n 4"
    using ka unfolding close_def by linarith
  then show ?thesis unfolding fmul_def using close_fl[of k _ n 4] assms by simp
qed

lemma foldl_fadd_close:
  "close k a s i \<Longrightarrow> \<bar>s\<bar> + sum_list (map abs ns) \<le> 10 ^ 12 \<Longrightarrow> 0 \<le> i \<Longrightarrow>
   i + 4 * of_nat (length ns) \<le> 10 ^ 4 \<Longrightarrow> 0 < k \<Longrightarrow>
   close k (foldl fadd a (map (dec k) ns)) (s + sum_list ns) (i + 4 * of_nat (length ns))"
proof (induction ns arbitrary: a s i)
  case (Cons n ns)
  have nn: "0 \<le> sum_list (map abs ns)" by (rule sum_list_nonneg) auto
  then have r: "in_range n" "in_range (s + n)" using Cons.prems(2) by (auto simp: in_range_def)
  have "close k (fadd a (dec k n)) (s + n) (i + 2 + 2)"
    using close_fadd[OF Cons.prems(1) close_dec[OF r(1) Cons.prems(5)] r(2)] Cons.prems by simp
  then have "close k (fadd a (dec k n)) (s + n) (i + 4)" by (simp add: add.assoc)
  from Cons.IH[OF this] show ?case using Cons.prems by (simp add: algebra_simps abs_le_iff)
qed simp

text \<open>Totals: \<open>reduce\<close> followed by the rounding idiom is the exact sum of the columns.\<close>

definition sum_ok :: "int list \<Rightarrow> bool" where
  "sum_ok ns \<longleftrightarrow> length ns \<le> 1000 \<and> sum_list (map abs ns) \<le> 10 ^ 12"

lemma sum_ok_range: "sum_ok ns \<Longrightarrow> in_range (sum_list ns)"
proof -
  have "\<bar>sum_list ns\<bar> \<le> sum_list (map abs ns)" by (rule sum_list_abs)
  then show "sum_ok ns \<Longrightarrow> in_range (sum_list ns)" by (simp add: sum_ok_def in_range_def)
qed

lemma fsum_close:
  assumes "sum_ok ns" "0 < k"
  shows "close k (fsum (map (dec k) ns)) (sum_list ns) 4000"
proof -
  have "close k 0 0 0" by (simp add: close_def)
  from foldl_fadd_close[OF this, of ns]
  have "close k (fsum (map (dec k) ns)) (sum_list ns) (4 * of_nat (length ns))"
    using assms by (simp add: fsum_def sum_ok_def)
  then show ?thesis by (rule close_mono) (use assms(1) in \<open>simp add: sum_ok_def\<close>)
qed

theorem round_fsum:
  assumes "sum_ok ns" "k = 100 \<or> k = 1000"
  shows "round_dp k (fsum (map (dec k) ns)) = dec k (sum_list ns)"
  using assms by (intro round_dp_close[OF fsum_close sum_ok_range]) auto

lemma round_mult_int:
  "in_range (n * q) \<Longrightarrow> k = 100 \<or> k = 1000 \<Longrightarrow> round_dp k (fmul (dec k n) (of_int q)) = dec k (n * q)"
  by (rule round_dp_close[OF close_mult_int]) auto

lemma round_div_mult:
  "in_range n \<Longrightarrow> 0 < q \<Longrightarrow> k = 100 \<or> k = 1000 \<Longrightarrow>
   round_dp k (fmul (fdiv (dec k n) (of_int q)) (of_int q)) = dec k n"
  by (rule round_dp_close[OF close_div_mult]) auto

lemma round_fadd:
  assumes "in_range n" "in_range m" "in_range (n + m)" "k = 100 \<or> k = 1000"
  shows "round_dp k (fadd (dec k n) (dec k m)) = dec k (n + m)"
proof -
  have k: "0 < k" using assms(4) by auto
  show ?thesis
    using close_fadd[OF close_dec[OF assms(1) k] close_dec[OF assms(2) k] assms(3)] k
    by (intro round_dp_close[OF _ assms(3) _ assms(4)]) auto
qed

lemma round_fsub:
  assumes "in_range n" "in_range m" "in_range (n - m)" "k = 100 \<or> k = 1000"
  shows "round_dp k (fsub (dec k n) (dec k m)) = dec k (n - m)"
proof -
  have k: "0 < k" using assms(4) by auto
  show ?thesis
    using close_fsub[OF close_dec[OF assms(1) k] close_dec[OF assms(2) k] assms(3)] k
    by (intro round_dp_close[OF _ assms(3) _ assms(4)]) auto
qed

lemma to_column_dec [simp]: "in_range n \<Longrightarrow> 0 < k \<Longrightarrow> to_column k (dec k n) = n"
proof -
  have gen: "\<lfloor>of_nat k * dec k m + 1 / 2\<rfloor> = m" if "in_range m" "0 < k" for m
  proof (rule floor_unique)
    have "\<bar>of_nat k * dec k m - of_int m\<bar> \<le> 2 / 10 ^ 4" using close_dec[OF that] by (simp add: close_def)
    also have "(2 / 10 ^ 4 :: rat) < 1 / 2" by simp
    finally show "of_int m \<le> of_nat k * dec k m + 1 / 2" "of_nat k * dec k m + 1 / 2 < of_int m + 1"
      by linarith+
  qed
  assume a: "in_range n" "0 < k"
  then have "in_range (- n)" by (simp add: in_range_def)
  from gen[OF this a(2)] gen[OF a] show ?thesis by (simp add: to_column_def dec_minus)
qed

lemma to_column_mono: "x \<le> y \<Longrightarrow> 0 \<le> x \<Longrightarrow> to_column k x \<le> to_column k y"
  by (auto simp: to_column_def intro!: floor_mono add_right_mono mult_left_mono)

lemma to_column_nonneg [simp]: "0 \<le> x \<Longrightarrow> 0 \<le> to_column k x"
  by (simp add: to_column_def)

end
