(* ===== verification/Prelude.thy ===== *)
theory Prelude
  imports Js_Number "HOL-Library.Sublist"
begin

text \<open>
  Shared vocabulary of the development: failures as values (the HTTP exceptions the services throw
  and the two database errors they handle), sequencing of fallible steps, rows of a table selected
  and changed by a condition as the ORM's \<open>findFirst\<close>, \<open>updateMany\<close>, \<open>deleteMany\<close> and \<open>count\<close>
  do, and the string operations of the source (\<open>trim\<close>, \<open>toUpperCase\<close>, \<open>padStart\<close>, number
  printing and parsing).
\<close>

named_theorems row_simps "facts about rows selected and changed by a condition"

section \<open>Failures\<close>

text \<open>
  \<open>BadRequest\<close>, \<open>Conflict\<close>, \<open>NotFound\<close> and \<open>Forbidden\<close> are the framework's exceptions with their
  message; \<open>KitchenStarted\<close> is the coded 409 answer; \<open>RecordMissing\<close> and \<open>UniqueViolation\<close> are the
  database errors P2025 and P2002; \<open>PlainError\<close> is any other thrown \<open>Error\<close>.
\<close>

datatype exn =
    BadRequest string | Conflict string | NotFound string | Forbidden string
  | KitchenStarted string | RecordMissing | UniqueViolation | PlainError string

type_synonym 'a res = "exn + 'a"

fun ebind :: "'e + 'a \<Rightarrow> ('a \<Rightarrow> 'e + 'b) \<Rightarrow> 'e + 'b" where
  "ebind (Inl e) f = Inl e"
| "ebind (Inr x) f = f x"

lemma ebind_Inr_iff: "ebind m f = Inr y \<longleftrightarrow> (\<exists>x. m = Inr x \<and> f x = Inr y)"
  by (cases m) auto

lemma ebind_InrE: "ebind m f = Inr y \<Longrightarrow> (\<And>x. m = Inr x \<Longrightarrow> f x = Inr y \<Longrightarrow> P) \<Longrightarrow> P"
  by (auto simp: ebind_Inr_iff)

definition is_ok :: "'e + 'a \<Rightarrow> bool" where
  "is_ok m = (case m of Inl _ \<Rightarrow> False | Inr _ \<Rightarrow> True)"

lemma is_ok_simps [simp]: "is_ok (Inr x)" "\<not> is_ok (Inl e)"
  by (simp_all add: is_ok_def)

text \<open>A \<open>for\<close> loop over a list that threads a state and stops at the first failure.\<close>

fun foldE :: "('a \<Rightarrow> 's \<Rightarrow> 'e + 's) \<Rightarrow> 'a list \<Rightarrow> 's \<Rightarrow> 'e + 's" where
  "foldE f [] s = Inr s"
| "foldE f (x # xs) s = ebind (f x s) (foldE f xs)"

lemma foldE_invariant:
  assumes "foldE f xs s = Inr s'" "I s" "\<And>x s t. x \<in> set xs \<Longrightarrow> I s \<Longrightarrow> f x s = Inr t \<Longrightarrow> I t"
  shows "I s'"
  using assms by (induction xs arbitrary: s) (auto simp: ebind_Inr_iff)

lemma foldE_append: "foldE f (xs @ ys) s = ebind (foldE f xs s) (foldE f ys)"
proof (induction xs arbitrary: s)
  case (Cons x xs)
  then show ?case by (cases "f x s") simp_all
qed simp

text \<open>\<open>xs.map(f)\<close> where \<open>f\<close> may throw.\<close>

fun mapE :: "('a \<Rightarrow> 'e + 'b) \<Rightarrow> 'a list \<Rightarrow> 'e + 'b list" where
  "mapE f [] = Inr []"
| "mapE f (x # xs) = ebind (f x) (\<lambda>y. ebind (mapE f xs) (\<lambda>ys. Inr (y # ys)))"

lemma mapE_Inr: "mapE f xs = Inr ys \<Longrightarrow> list_all2 (\<lambda>x y. f x = Inr y) xs ys"
  by (induction xs arbitrary: ys) (auto simp: ebind_Inr_iff)

lemma mapE_Inr_length: "mapE f xs = Inr ys \<Longrightarrow> length ys = length xs"
  using mapE_Inr list_all2_lengthD by fastforce

section \<open>Rows of a table\<close>

definition upd_where :: "('r \<Rightarrow> bool) \<Rightarrow> ('r \<Rightarrow> 'r) \<Rightarrow> 'r list \<Rightarrow> 'r list" where
  "upd_where P f rs = map (\<lambda>r. if P r then f r else r) rs"

definition del_where :: "('r \<Rightarrow> bool) \<Rightarrow> 'r list \<Rightarrow> 'r list" where
  "del_where P rs = filter (\<lambda>r. \<not> P r) rs"

definition count_where :: "('r \<Rightarrow> bool) \<Rightarrow> 'r list \<Rightarrow> nat" where
  "count_where P rs = length (filter P rs)"

lemma upd_where_Nil [row_simps]: "upd_where P f [] = []"
  by (simp add: upd_where_def)

lemma upd_where_Cons [row_simps]: "upd_where P f (r # rs) = (if P r then f r else r) # upd_where P f rs"
  by (simp add: upd_where_def)

lemma set_upd_where [row_simps]: "set (upd_where P f rs) = f ` {r \<in> set rs. P r} \<union> {r \<in> set rs. \<not> P r}"
  by (auto simp: upd_where_def)

lemma map_upd_where [row_simps]: "(\<And>r. P r \<Longrightarrow> g (f r) = g r) \<Longrightarrow> map g (upd_where P f rs) = map g rs"
  by (simp add: upd_where_def)

lemma length_upd_where [simp]: "length (upd_where P f rs) = length rs"
  by (simp add: upd_where_def)

lemma filter_upd_where: "(\<And>r. P r \<Longrightarrow> Q (f r) = Q r) \<Longrightarrow>
    filter Q (upd_where P f rs) = upd_where P f (filter Q rs)"
  by (induction rs) (auto simp: row_simps)

lemma filter_upd_where_other:
  "(\<And>r. r \<in> set rs \<Longrightarrow> P r \<Longrightarrow> \<not> Q r \<and> \<not> Q (f r)) \<Longrightarrow> filter Q (upd_where P f rs) = filter Q rs"
  by (induction rs) (auto simp: row_simps)

lemma upd_where_none: "(\<And>r. r \<in> set rs \<Longrightarrow> \<not> P r) \<Longrightarrow> upd_where P f rs = rs"
  by (induction rs) (auto simp: row_simps)

lemma find_upd_where_other:
  "(\<And>r. P r \<Longrightarrow> \<not> Q r \<and> \<not> Q (f r)) \<Longrightarrow> find Q (upd_where P f rs) = find Q rs"
  by (induction rs) (auto simp: row_simps)

lemma find_upd_where:
  "(\<And>r. P r \<Longrightarrow> Q (f r) = Q r) \<Longrightarrow>
   find Q (upd_where P f rs) = map_option (\<lambda>r. if P r then f r else r) (find Q rs)"
  by (induction rs) (auto simp: row_simps)

lemma find_SomeD: "find P rs = Some r \<Longrightarrow> r \<in> set rs \<and> P r"
  by (induction rs) (auto split: if_splits)

lemma find_None_iff_ball: "find P rs = None \<longleftrightarrow> (\<forall>r \<in> set rs. \<not> P r)"
  by (auto simp: find_None_iff)

text \<open>Rows with a unique key: the row found is the only one with that key.\<close>

definition keyed :: "('r \<Rightarrow> 'k) \<Rightarrow> 'r list \<Rightarrow> bool" where
  "keyed k rs \<longleftrightarrow> distinct (map k rs)"

lemma keyed_unique: "keyed k rs \<Longrightarrow> r \<in> set rs \<Longrightarrow> s \<in> set rs \<Longrightarrow> k r = k s \<Longrightarrow> r = s"
  unfolding keyed_def by (metis distinct_map inj_on_def)

lemma keyed_find: "keyed k rs \<Longrightarrow> r \<in> set rs \<Longrightarrow> find (\<lambda>s. k s = k r) rs = Some r"
proof (induction rs)
  case (Cons t rs)
  then show ?case by (auto simp: keyed_def image_iff)
qed simp

lemma keyed_upd_where [row_simps]: "(\<And>r. P r \<Longrightarrow> k (f r) = k r) \<Longrightarrow> keyed k (upd_where P f rs) = keyed k rs"
  by (simp add: keyed_def map_upd_where)

lemma keyed_filter [intro]: "keyed k rs \<Longrightarrow> keyed k (filter P rs)"
  by (simp add: keyed_def distinct_map_filter)

lemma keyed_del_where [intro]: "keyed k rs \<Longrightarrow> keyed k (del_where P rs)"
  by (simp add: del_where_def keyed_filter)

lemma keyed_snoc [row_simps]: "keyed k (rs @ [r]) \<longleftrightarrow> keyed k rs \<and> k r \<notin> k ` set rs"
  by (auto simp: keyed_def)

section \<open>Strings\<close>

definition js_space :: "char \<Rightarrow> bool" where
  "js_space c \<longleftrightarrow> c = CHR '' '' \<or> (9 \<le> (of_char c :: nat) \<and> (of_char c :: nat) \<le> 13)"

definition trim :: "string \<Rightarrow> string" where
  "trim s = rev (dropWhile js_space (rev (dropWhile js_space s)))"

definition to_upper :: "string \<Rightarrow> string" where
  "to_upper s = map (\<lambda>c. if 97 \<le> (of_char c :: nat) \<and> (of_char c :: nat) \<le> 122
                         then char_of ((of_char c :: nat) - 32) else c) s"

definition pad_start :: "nat \<Rightarrow> char \<Rightarrow> string \<Rightarrow> string" where
  "pad_start w c s = replicate (w - length s) c @ s"

definition digit :: "nat \<Rightarrow> char" where "digit d = char_of (48 + d)"

definition digit_val :: "char \<Rightarrow> nat" where "digit_val c = of_char c - 48"

text \<open>\<open>String(n)\<close> for a natural number, and its inverse \<open>Number(s)\<close> on a string of digits.\<close>

fun nat_str :: "nat \<Rightarrow> string" where
  "nat_str n = (if n < 10 then [digit n] else nat_str (n div 10) @ [digit (n mod 10)])"

declare nat_str.simps [simp del]

definition str_nat :: "string \<Rightarrow> nat" where
  "str_nat s = foldl (\<lambda>a c. 10 * a + digit_val c) 0 s"

lemma digit_val_digit [simp]: "d < 10 \<Longrightarrow> digit_val (digit d) = d"
  by (simp add: digit_val_def digit_def)

lemma digit_inj: "d < 10 \<Longrightarrow> e < 10 \<Longrightarrow> digit d = digit e \<longleftrightarrow> d = e"
  by (metis digit_val_digit)

lemma str_nat_snoc: "str_nat (s @ [c]) = 10 * str_nat s + digit_val c"
  by (simp add: str_nat_def)

lemma str_nat_nat_str [simp]: "str_nat (nat_str n) = n"
proof (induction n rule: nat_str.induct)
  case (1 n)
  show ?case
  proof (cases "n < 10")
    case True
    then show ?thesis by (subst nat_str.simps) (simp add: str_nat_def)
  next
    case False
    with 1 show ?thesis by (subst nat_str.simps) (simp add: str_nat_snoc)
  qed
qed

lemma nat_str_inj: "nat_str n = nat_str m \<longleftrightarrow> n = m"
  by (metis str_nat_nat_str)

lemma str_nat_zeros [simp]: "str_nat (replicate k (digit 0) @ s) = str_nat s"
  by (induction k) (simp_all add: str_nat_def)

lemma str_nat_pad [simp]: "str_nat (pad_start w (digit 0) s) = str_nat s"
  by (simp add: pad_start_def)

lemma length_nat_str: "0 < w \<Longrightarrow> n < 10 ^ w \<Longrightarrow> length (nat_str n) \<le> w"
proof (induction w arbitrary: n)
  case (Suc w)
  show ?case
  proof (cases "n < 10")
    case True
    then show ?thesis by (subst nat_str.simps) simp
  next
    case False
    with Suc.prems have "n div 10 < 10 ^ w" and "0 < w" by (auto simp: div_less_iff_less_mult intro: gr0I)
    with Suc.IH False show ?thesis by (subst nat_str.simps) simp
  qed
qed simp

definition is_digit :: "char \<Rightarrow> bool" where
  "is_digit c \<longleftrightarrow> 48 \<le> (of_char c :: nat) \<and> (of_char c :: nat) \<le> 57"

lemma is_digit_digit [simp]: "d < 10 \<Longrightarrow> is_digit (digit d)"
  by (simp add: is_digit_def digit_def)

lemma nat_str_digits: "c \<in> set (nat_str n) \<Longrightarrow> is_digit c"
proof (induction n rule: nat_str.induct)
  case (1 n)
  then show ?case by (subst (asm) nat_str.simps) (auto split: if_splits)
qed

text \<open>\<open>new Set(xs)\<close> keeps the first occurrence of each element, in order.\<close>

fun uniq :: "'a list \<Rightarrow> 'a list" where
  "uniq [] = []"
| "uniq (x # xs) = x # filter (\<lambda>y. y \<noteq> x) (uniq xs)"

lemma set_uniq [simp]: "set (uniq xs) = set xs" by (induction xs) auto
lemma distinct_uniq [simp]: "distinct (uniq xs)" by (induction xs) auto

section \<open>Splitting a string, JavaScript's split\<close>

fun split_on :: "char \<Rightarrow> string \<Rightarrow> string list" where
  "split_on c [] = [[]]"
| "split_on c (x # xs) =
     (if x = c then [] # split_on c xs
      else case split_on c xs of [] \<Rightarrow> [[x]] | w # ws \<Rightarrow> (x # w) # ws)"

lemma split_on_ne [simp]: "split_on c s \<noteq> []"
  by (cases s) (auto split: list.splits)

lemma split_on_plain: "c \<notin> set s \<Longrightarrow> split_on c s = [s]"
  by (induction s) auto

lemma split_on_sep: "c \<notin> set s \<Longrightarrow> split_on c (s @ c # t) = s # split_on c t"
  by (induction s) auto

end
