(* ===== verification/Pricing.thy ===== *)
theory Pricing
  imports Prelude
begin

text \<open>
  Tax settings and line pricing: \<open>packages/types/src/tax.ts\<close>, \<open>modules/orders/pricing.ts\<close>,
  \<open>common/online-price.ts\<close> and the shared rounding helpers of \<open>common/money.ts\<close>. Amounts are
  doubles; a stored amount is \<open>cents n\<close>. The lemmas say that totals of stored amounts carry no
  rounding drift, that discounts never exceed the subtotal, and that re-pricing a stored line
  reproduces it.
\<close>

section \<open>Tax regimes\<close>

datatype tax_mode = INCLUSIVE | EXCLUSIVE

datatype tax_regime = INDIA_GST | US_SALES_TAX | EU_VAT | ES_IVA | CUSTOM

text \<open>The two display strings of a preset (\<open>displayName\<close>, \<open>exampleRates\<close>) are left out.\<close>

record tax_regime_preset =
  regime :: tax_regime
  defaultMode :: tax_mode
  taxLabel :: string
  taxIdLabel :: string
  splitCgstSgst :: bool
  defaultCountry :: string

fun tax_regime_presets :: "tax_regime \<Rightarrow> tax_regime_preset" where
  "tax_regime_presets INDIA_GST =
     \<lparr>regime = INDIA_GST, defaultMode = INCLUSIVE, taxLabel = ''GST'', taxIdLabel = ''GSTIN'',
      splitCgstSgst = True, defaultCountry = ''IN''\<rparr>"
| "tax_regime_presets US_SALES_TAX =
     \<lparr>regime = US_SALES_TAX, defaultMode = EXCLUSIVE, taxLabel = ''Sales Tax'',
      taxIdLabel = ''Sales Tax / EIN'', splitCgstSgst = False, defaultCountry = ''US''\<rparr>"
| "tax_regime_presets EU_VAT =
     \<lparr>regime = EU_VAT, defaultMode = INCLUSIVE, taxLabel = ''VAT'', taxIdLabel = ''VAT No.'',
      splitCgstSgst = False, defaultCountry = ''DE''\<rparr>"
| "tax_regime_presets ES_IVA =
     \<lparr>regime = ES_IVA, defaultMode = INCLUSIVE, taxLabel = ''IVA'', taxIdLabel = ''NIF/CIF'',
      splitCgstSgst = False, defaultCountry = ''ES''\<rparr>"
| "tax_regime_presets CUSTOM =
     \<lparr>regime = CUSTOM, defaultMode = INCLUSIVE, taxLabel = ''Tax'', taxIdLabel = ''Tax ID'',
      splitCgstSgst = False, defaultCountry = ''IN''\<rparr>"

definition resolveTaxLabel :: "tax_regime \<Rightarrow> string option \<Rightarrow> string" where
  "resolveTaxLabel r label =
     (case map_option trim label of
        Some t \<Rightarrow> if t \<noteq> '''' then t else taxLabel (tax_regime_presets r)
      | None \<Rightarrow> taxLabel (tax_regime_presets r))"

definition resolveTaxIdLabel :: "tax_regime \<Rightarrow> string" where
  "resolveTaxIdLabel r = taxIdLabel (tax_regime_presets r)"

section \<open>Line pricing\<close>

definition round2 :: "num \<Rightarrow> num" where
  "round2 v = fdiv (of_int (js_round (fmul (fadd v epsilon) 100))) 100"

definition round3 :: "num \<Rightarrow> num" where
  "round3 v = fdiv (of_int (js_round (fmul (fadd v epsilon) 1000))) 1000"

definition toEffectiveInclusiveUnitPrice :: "num \<Rightarrow> num \<Rightarrow> tax_mode \<Rightarrow> num" where
  "toEffectiveInclusiveUnitPrice rawUnitPrice taxRatePercent mode =
     (if mode = EXCLUSIVE \<and> 0 < taxRatePercent
      then round2 (fmul rawUnitPrice (fadd 1 (fdiv taxRatePercent 100)))
      else round2 rawUnitPrice)"

record priced_line_input =
  quantity :: int
  unitPriceInclusive :: num
  taxRatePercent :: num

record priced_line =
  lineTotal :: num
  taxAmount :: num

definition priceLine :: "priced_line_input \<Rightarrow> priced_line" where
  "priceLine input =
     (let total = round2 (fmul (unitPriceInclusive input) (of_int (quantity input)));
          rate = fdiv (taxRatePercent input) 100;
          tax = (if 0 < rate then round2 (fsub total (fdiv total (fadd 1 rate))) else 0)
      in \<lparr>lineTotal = total, taxAmount = tax\<rparr>)"

record order_totals =
  subtotal :: num
  totalTax :: num
  discountAmount :: num
  totalAmount :: num

definition computeOrderTotals :: "priced_line list \<Rightarrow> num \<Rightarrow> num \<Rightarrow> order_totals" where
  "computeOrderTotals lines discountPercent discountFlat =
     (let sub = round2 (fsum (map lineTotal lines));
          tax = round2 (fsum (map taxAmount lines));
          percentDiscount = round2 (fdiv (fmul sub discountPercent) 100);
          disc = round2 (min (fadd percentDiscount discountFlat) sub);
          total = round2 (fsub sub disc)
      in \<lparr>subtotal = sub, totalTax = tax, discountAmount = disc, totalAmount = total\<rparr>)"

section \<open>Website price adjustment\<close>

datatype adjust_kind = ADJ_PERCENT | ADJ_AMOUNT

record online_price_adjust =
  adj_kind :: adjust_kind
  adj_value :: num

definition adjustOnlinePrice :: "num \<Rightarrow> online_price_adjust option \<Rightarrow> num" where
  "adjustOnlinePrice price adj =
     (case adj of
        None \<Rightarrow> price
      | Some a \<Rightarrow>
          if adj_value a = 0 then price
          else (let next = (if adj_kind a = ADJ_PERCENT
                            then fmul price (fadd 1 (fdiv (adj_value a) 100))
                            else fadd price (adj_value a))
                in max (fdiv (of_int (js_round (fmul next 100))) 100) 0))"

definition onlinePriceAdjustOf :: "string \<Rightarrow> num \<Rightarrow> online_price_adjust option" where
  "onlinePriceAdjustOf kind value =
     (if value = 0 then None
      else Some \<lparr>adj_kind = (if kind = ''AMOUNT'' then ADJ_AMOUNT else ADJ_PERCENT), adj_value = value\<rparr>)"

section \<open>Facts about rounded amounts\<close>

lemma round2_dp: "round2 v = round_dp 100 v" by (simp add: round2_def round_dp_def)
lemma round3_dp: "round3 v = round_dp 1000 v" by (simp add: round3_def round_dp_def)

lemma round2_cents: "round2 v = cents (units 100 v)" by (simp add: round2_dp round_dp_dec)

lemma round2_of_cents [simp]: "in_range n \<Longrightarrow> round2 (cents n) = cents n"
  by (simp add: round2_dp)

lemma round2_mono: "v \<le> w \<Longrightarrow> round2 v \<le> round2 w"
  by (simp add: round2_dp round_dp_mono)

lemma units_nonneg: "0 \<le> v \<Longrightarrow> 0 \<le> units k v"
proof -
  assume "0 \<le> v"
  then have "0 \<le> fmul (fadd v epsilon) (of_nat k)"
    unfolding fmul_def fadd_def by (intro fl_nonneg mult_nonneg_nonneg fl_nonneg) (simp_all add: epsilon_def)
  then show ?thesis unfolding units_def js_round_def by simp
qed

lemma round2_nonneg [simp]: "0 \<le> v \<Longrightarrow> 0 \<le> round2 v"
  by (simp add: round2_cents units_nonneg)

lemma round2_0 [simp]: "round2 0 = 0"
  using round2_of_cents[of 0] by simp

lemma fadd_nonneg [simp]: "0 \<le> x \<Longrightarrow> 0 \<le> y \<Longrightarrow> 0 \<le> fadd x y"
  by (simp add: fadd_def fl_nonneg)
lemma fmul_nonneg [simp]: "0 \<le> x \<Longrightarrow> 0 \<le> y \<Longrightarrow> 0 \<le> fmul x y"
  by (simp add: fmul_def fl_nonneg)
lemma fdiv_nonneg [simp]: "0 \<le> x \<Longrightarrow> 0 \<le> y \<Longrightarrow> 0 \<le> fdiv x y"
  by (simp add: fdiv_def fl_nonneg)
lemma fsub_nonneg [simp]: "y \<le> x \<Longrightarrow> 0 \<le> fsub x y"
  by (simp add: fsub_def fl_nonneg)

lemma in_range_of_units:
  assumes "\<bar>units 100 (cents n)\<bar> < 10 ^ 12"
  shows "in_range n"
proof -
  have r: "in_range (10 ^ 12)" "in_range (- (10 ^ 12))" by (simp_all add: in_range_def)
  have "10 ^ 12 \<le> units 100 (cents n)" if "10 ^ 12 \<le> n"
    using units_mono[OF dec_mono[OF that, of 100], of 100] r by simp
  moreover have "units 100 (cents n) \<le> - (10 ^ 12)" if "n \<le> - (10 ^ 12)"
    using units_mono[OF dec_mono[OF that, of 100], of 100] r by simp
  ultimately show ?thesis using assms by (force simp: in_range_def)
qed

lemma round2_fsum_cents: "sum_ok ns \<Longrightarrow> round2 (fsum (map cents ns)) = cents (sum_list ns)"
  by (simp add: round2_dp round_fsum)

lemma round2_fsub_cents:
  "in_range n \<Longrightarrow> in_range m \<Longrightarrow> in_range (n - m) \<Longrightarrow> round2 (fsub (cents n) (cents m)) = cents (n - m)"
  by (simp add: round2_dp round_fsub)

lemma round2_fadd_cents:
  "in_range n \<Longrightarrow> in_range m \<Longrightarrow> in_range (n + m) \<Longrightarrow> round2 (fadd (cents n) (cents m)) = cents (n + m)"
  by (simp add: round2_dp round_fadd)

lemma cents_le_iff [simp]: "in_range n \<Longrightarrow> in_range m \<Longrightarrow> cents n \<le> cents m \<longleftrightarrow> n \<le> m"
  by (simp add: dec_le_iff)
lemma cents_less_iff [simp]: "in_range n \<Longrightarrow> in_range m \<Longrightarrow> cents n < cents m \<longleftrightarrow> n < m"
  by (simp add: dec_less_iff)
lemma cents_eq_iff [simp]: "in_range n \<Longrightarrow> in_range m \<Longrightarrow> cents n = cents m \<longleftrightarrow> n = m"
  by (simp add: dec_eq_iff)

lemma min_cents: "in_range n \<Longrightarrow> in_range m \<Longrightarrow> min (cents n) (cents m) = cents (min n m)"
  by (simp add: min_def)

lemma max_cents: "in_range n \<Longrightarrow> in_range m \<Longrightarrow> max (cents n) (cents m) = cents (max n m)"
  by (simp add: max_def)

text \<open>A rounded amount between two representable amounts is a representable amount between them.\<close>

lemma round2_between:
  assumes "0 \<le> v" "v \<le> cents n" "in_range n"
  obtains d where "round2 v = cents d" "0 \<le> d" "d \<le> n"
proof
  show "round2 v = cents (units 100 v)" by (rule round2_cents)
  show "0 \<le> units 100 v" using assms(1) by (rule units_nonneg)
  show "units 100 v \<le> n" using units_mono[OF assms(2), of 100] assms(3) by simp
qed

lemma in_range_between: "0 \<le> d \<Longrightarrow> d \<le> n \<Longrightarrow> in_range n \<Longrightarrow> in_range d \<and> in_range (n - d)"
  by (simp add: in_range_def)

section \<open>Totals\<close>

definition stored_lines :: "(int \<times> int) list \<Rightarrow> priced_line list" where
  "stored_lines = map (\<lambda>(n, t). \<lparr>lineTotal = cents n, taxAmount = cents t\<rparr>)"

lemma stored_lines_sel:
  "map lineTotal (stored_lines nts) = map cents (map fst nts)"
  "map taxAmount (stored_lines nts) = map cents (map snd nts)"
  by (induction nts) (auto simp: stored_lines_def)

lemma discount_within:
  assumes "0 \<le> s" "in_range s" "0 \<le> p" "0 \<le> f"
  obtains d where "round2 (min (fadd (round2 (fdiv (fmul (cents s) p) 100)) f) (cents s)) = cents d"
    "0 \<le> d" "d \<le> s"
proof (rule round2_between[of "min (fadd (round2 (fdiv (fmul (cents s) p) 100)) f) (cents s)" s])
  have "0 \<le> cents s" using assms(1) by simp
  then show "0 \<le> min (fadd (round2 (fdiv (fmul (cents s) p) 100)) f) (cents s)"
    using assms by simp
qed (use assms in auto)

theorem computeOrderTotals_exact:
  assumes "sum_ok (map fst nts)" "sum_ok (map snd nts)" "0 \<le> sum_list (map fst nts)"
    "0 \<le> p" "0 \<le> f"
  obtains d where "0 \<le> d" "d \<le> sum_list (map fst nts)"
    "computeOrderTotals (stored_lines nts) p f =
       \<lparr>subtotal = cents (sum_list (map fst nts)), totalTax = cents (sum_list (map snd nts)),
        discountAmount = cents d, totalAmount = cents (sum_list (map fst nts) - d)\<rparr>"
proof -
  let ?s = "sum_list (map fst nts)"
  have r: "in_range ?s" by (rule sum_ok_range[OF assms(1)])
  from discount_within[OF assms(3) r assms(4,5)] obtain d where
    d: "round2 (min (fadd (round2 (fdiv (fmul (cents ?s) p) 100)) f) (cents ?s)) = cents d"
       "0 \<le> d" "d \<le> ?s" by blast
  have "round2 (fsub (cents ?s) (cents d)) = cents (?s - d)"
    using in_range_between[OF d(2,3) r] r by (intro round2_fsub_cents) auto
  then show ?thesis using that d assms(1,2)
    by (simp add: computeOrderTotals_def Let_def stored_lines_sel round2_fsum_cents del: map_map)
qed

lemma computeOrderTotals_no_discount:
  assumes "sum_ok (map fst nts)" "sum_ok (map snd nts)" "0 \<le> sum_list (map fst nts)"
  shows "computeOrderTotals (stored_lines nts) 0 0 =
       \<lparr>subtotal = cents (sum_list (map fst nts)), totalTax = cents (sum_list (map snd nts)),
        discountAmount = 0, totalAmount = cents (sum_list (map fst nts))\<rparr>"
proof -
  have r: "in_range (sum_list (map fst nts))" by (rule sum_ok_range[OF assms(1)])
  have "fadd (round2 (fdiv (fmul x 0) 100)) 0 = 0" for x by (simp add: fmul_def fdiv_def fadd_def)
  moreover have "min 0 (cents (sum_list (map fst nts))) = 0" using assms(3) by (simp add: min_def)
  ultimately show ?thesis using assms r
    by (simp add: computeOrderTotals_def Let_def stored_lines_sel round2_fsum_cents del: map_map)
qed

lemma priceLine_tax_bounds:
  assumes "0 \<le> unitPriceInclusive i" "0 \<le> quantity i" "0 \<le> taxRatePercent i"
  shows "0 \<le> taxAmount (priceLine i)"
proof -
  let ?t = "round2 (fmul (unitPriceInclusive i) (of_int (quantity i)))"
  let ?r = "fdiv (taxRatePercent i) 100"
  have t: "0 \<le> ?t" using assms by simp
  have r: "0 \<le> ?r" using assms by simp
  have one: "1 \<le> fadd 1 ?r"
  proof -
    have "fl (of_int 1) \<le> fl (1 + ?r)" using r by (intro fl_mono) simp
    then show ?thesis using fl_int[of 1] by (simp add: fadd_def)
  qed
  have "?t / fadd 1 ?r \<le> ?t" using t one by (simp add: divide_le_eq mult_le_cancel_left1)
  then have "fl (?t / fadd 1 ?r) \<le> fl ?t" by (rule fl_mono)
  then have "fdiv ?t (fadd 1 ?r) \<le> ?t" by (simp add: fdiv_def round2_cents)
  then show ?thesis by (simp add: priceLine_def Let_def)
qed

text \<open>Re-pricing a stored line from its own total reproduces the total.\<close>

lemma priceLine_stored_total:
  "in_range n \<Longrightarrow> 0 < q \<Longrightarrow>
   lineTotal (priceLine \<lparr>quantity = q, unitPriceInclusive = fdiv (cents n) (of_int q), taxRatePercent = r\<rparr>) = cents n"
  by (simp add: priceLine_def Let_def round2_dp round_div_mult)

lemma priceLine_total_exact:
  "in_range (n * q) \<Longrightarrow>
   lineTotal (priceLine \<lparr>quantity = q, unitPriceInclusive = cents n, taxRatePercent = r\<rparr>) = cents (n * q)"
  by (simp add: priceLine_def Let_def round2_dp round_mult_int)

lemma priceLine_tax_cents: "\<exists>t. taxAmount (priceLine i) = cents t"
  by (simp add: priceLine_def Let_def round2_cents) (metis dec_0)

lemma inclusive_passthrough:
  "in_range n \<Longrightarrow> toEffectiveInclusiveUnitPrice (cents n) r INCLUSIVE = cents n"
  by (simp add: toEffectiveInclusiveUnitPrice_def)

lemma exclusive_gross_up:
  assumes "0 \<le> n" "0 \<le> r" "in_range n"
  shows "cents n \<le> toEffectiveInclusiveUnitPrice (cents n) r EXCLUSIVE"
proof -
  have "fl (of_int 1) \<le> fl (1 + fdiv r 100)" using assms by (intro fl_mono) simp
  moreover have "fl (of_int 1) = 1" using fl_int[of 1] by simp
  ultimately have one: "1 \<le> fadd 1 (fdiv r 100)" by (simp add: fadd_def)
  then have "cents n \<le> cents n * fadd 1 (fdiv r 100)" using mult_left_mono[OF one dec_nonneg[OF assms(1), of 100]] by simp
  then have "fl (cents n) \<le> fmul (cents n) (fadd 1 (fdiv r 100))" unfolding fmul_def by (rule fl_mono)
  then have "round2 (cents n) \<le> round2 (fmul (cents n) (fadd 1 (fdiv r 100)))" by (intro round2_mono) simp
  then show ?thesis using assms by (simp add: toEffectiveInclusiveUnitPrice_def)
qed

lemma adjustOnlinePrice_nonneg:
  "0 \<le> p \<Longrightarrow> 0 \<le> adjustOnlinePrice p a"
  by (simp add: adjustOnlinePrice_def Let_def split: option.splits)

text \<open>Whole amounts are fixed points of the rounding.\<close>

lemma cents_whole: "\<bar>m\<bar> \<le> 10 ^ 10 \<Longrightarrow> cents (100 * m) = of_int m"
  using dec_whole[of 100 m] by simp

lemma round2_whole: "\<bar>m\<bar> \<le> 10 ^ 10 \<Longrightarrow> round2 (of_int m) = of_int m"
  using round2_of_cents[of "100 * m"] cents_whole[of m] by (simp add: in_range_def)

lemma round2_numeral [simp]: "numeral n \<le> (10 ^ 10 :: int) \<Longrightarrow> round2 (numeral n) = numeral n"
  using round2_whole[of "numeral n"] by simp

lemma round2_1 [simp]: "round2 1 = 1"
  using round2_whole[of 1] by simp

end
