(* ===== verification/Settlement.thy ===== *)
theory Settlement
  imports Pricing
begin

text \<open>
  Bill and settlement arithmetic: \<open>modules/orders/settlement.ts\<close>. \<open>computeBill\<close> gives the figures
  of a bill, \<open>settlePayments\<close> validates a set of payments against what is owed (excess cash becomes
  change, taken from the last cash line first), \<open>assertManualDiscountAllowed\<close> is the discount
  guardrail. Absent optional fields are \<open>None\<close> and \<open>or0\<close> is the source's \<open>?? 0\<close>.
\<close>

definition or0 :: "num option \<Rightarrow> num" where
  "or0 v = (case v of None \<Rightarrow> 0 | Some x \<Rightarrow> x)"

lemma or0_simps [simp]: "or0 None = 0" "or0 (Some x) = x" by (simp_all add: or0_def)

section \<open>The bill\<close>

record bill_input =
  in_lines :: "priced_line list"
  in_discountPercent :: "num option"
  in_discountFlat :: "num option"
  in_autoDiscount :: "num option"
  in_loyaltyDiscountRequested :: "num option"
  in_tip :: "num option"
  in_deliveryFee :: "num option"

record bill =
  bill_subtotal :: num
  bill_discountAmount :: num
  bill_discountPercent :: num
  bill_taxAmount :: num
  bill_loyaltyDiscountAmount :: num
  bill_tipAmount :: num
  bill_deliveryFee :: num
  bill_totalDue :: num

definition discountPercentOf :: "num \<Rightarrow> num \<Rightarrow> num" where
  "discountPercentOf sub disc =
     (if sub \<le> 0 \<or> disc \<le> 0 then 0 else round2 (fmul (fdiv disc sub) 100))"

definition computeBill :: "bill_input \<Rightarrow> bill" where
  "computeBill i =
     (let totals = computeOrderTotals (in_lines i) (or0 (in_discountPercent i))
                     (fadd (or0 (in_discountFlat i)) (or0 (in_autoDiscount i)));
          loyalty = round2 (min (max (or0 (in_loyaltyDiscountRequested i)) 0) (totalAmount totals));
          tip = round2 (or0 (in_tip i));
          fee = round2 (or0 (in_deliveryFee i));
          tax = (if 0 < subtotal totals
                 then round2 (fdiv (fmul (totalTax totals)
                        (fsub (subtotal totals) (discountAmount totals))) (subtotal totals))
                 else 0)
      in \<lparr>bill_subtotal = subtotal totals,
          bill_discountAmount = discountAmount totals,
          bill_discountPercent = discountPercentOf (subtotal totals) (discountAmount totals),
          bill_taxAmount = tax,
          bill_loyaltyDiscountAmount = loyalty,
          bill_tipAmount = tip,
          bill_deliveryFee = fee,
          bill_totalDue = round2 (fadd (fadd (fsub (totalAmount totals) loyalty) tip) fee)\<rparr>)"

datatype discount_type = PERCENT_DISCOUNT | FIXED_DISCOUNT

definition manualDiscountEntry :: "num \<Rightarrow> num \<Rightarrow> (discount_type \<times> num) option" where
  "manualDiscountEntry percent flat =
     (if 0 < percent then Some (PERCENT_DISCOUNT, round2 percent)
      else if 0 < flat then Some (FIXED_DISCOUNT, round2 flat)
      else None)"

section \<open>Settling payments\<close>

datatype payment_method =
  CASH | CARD | UPI | WALLET | BANK_TRANSFER | GIFT_CARD | STORE_CREDIT | OTHER

record payment_line =
  pl_method :: payment_method
  pl_amount :: num
  pl_tendered :: "num option"
  pl_reference :: "string option"

record settled_payment =
  sp_method :: payment_method
  sp_amount :: num
  sp_tendered :: "num option"
  sp_changeGiven :: "num option"
  sp_reference :: "string option"

record settlement =
  st_payments :: "settled_payment list"
  st_paidNow :: num
  st_balanceAfter :: num
  st_changeDue :: num
  st_fullyPaid :: bool

definition normaliseLine :: "payment_line \<Rightarrow> settled_payment res" where
  "normaliseLine p =
     (let amount = round2 (pl_amount p) in
      if \<not> 0 < amount then Inl (BadRequest ''Each payment must be more than zero'')
      else case pl_tendered p of
        Some td \<Rightarrow>
          if pl_method p \<noteq> CASH then Inl (BadRequest ''Only a cash payment can have an amount received'')
          else (let tendered = round2 td in
                if tendered < amount
                then Inl (BadRequest ''The amount received cannot be less than the payment'')
                else Inr \<lparr>sp_method = pl_method p, sp_amount = amount, sp_tendered = Some tendered,
                          sp_changeGiven = Some (round2 (fsub tendered amount)),
                          sp_reference = pl_reference p\<rparr>)
      | None \<Rightarrow> Inr \<lparr>sp_method = pl_method p, sp_amount = amount, sp_tendered = None,
                     sp_changeGiven = None, sp_reference = pl_reference p\<rparr>)"

text \<open>
  The loop \<open>for (i = lines.length - 1; i >= 0 && excess > 0; i--)\<close>, over the reversed lines: the
  excess that is left and the lines, each changed in place.
\<close>

fun absorbExcess :: "num \<Rightarrow> settled_payment list \<Rightarrow> num \<times> settled_payment list" where
  "absorbExcess excess [] = (excess, [])"
| "absorbExcess excess (line # rest) =
     (if \<not> 0 < excess then (excess, line # rest)
      else if sp_method line \<noteq> CASH then
        (let (e, r) = absorbExcess excess rest in (e, line # r))
      else
        (let take = min excess (sp_amount line);
             handedOver = (case sp_tendered line of Some t \<Rightarrow> t | None \<Rightarrow> sp_amount line);
             amount = round2 (fsub (sp_amount line) take);
             line' = line\<lparr>sp_amount := amount, sp_tendered := Some handedOver,
                          sp_changeGiven := Some (round2 (fsub handedOver amount))\<rparr>;
             (e, r) = absorbExcess (round2 (fsub excess take)) rest
         in (e, line' # r)))"

text \<open>The part after the excess has been absorbed.\<close>

definition settleKept :: "num \<Rightarrow> num \<Rightarrow> bool \<Rightarrow> settled_payment list \<Rightarrow> settlement res" where
  "settleKept balance gift allowPartial lines =
     (let kept = filter (\<lambda>l. 0 < sp_amount l) lines;
          paidNow = round2 (fadd (fsum (map sp_amount kept)) gift);
          balanceAfter = round2 (fsub balance paidNow);
          fullyPaid = (balanceAfter \<le> 0)
      in if \<not> fullyPaid \<and> \<not> allowPartial
         then Inl (BadRequest ''Payments do not cover the total due'')
         else if \<not> fullyPaid \<and> paidNow \<le> 0
         then Inl (BadRequest ''Enter a payment to record'')
         else Inr \<lparr>st_payments = kept, st_paidNow = paidNow,
                   st_balanceAfter = max balanceAfter 0,
                   st_changeDue = round2 (fsum (map (\<lambda>l. or0 (sp_changeGiven l)) kept)),
                   st_fullyPaid = fullyPaid\<rparr>)"

definition settlePayments ::
  "num \<Rightarrow> payment_line list \<Rightarrow> num option \<Rightarrow> bool \<Rightarrow> settlement res" where
  "settlePayments balance0 payments giftCardApplied0 allowPartial =
     (let balance = round2 balance0; gift = round2 (or0 giftCardApplied0) in
      ebind (mapE normaliseLine payments) (\<lambda>lines.
      let excess0 = round2 (fsub (fadd (fsum (map sp_amount lines)) gift) balance);
          (excess, rlines) = (if 0 < excess0 then absorbExcess excess0 (rev lines)
                              else (excess0, rev lines))
      in if 0 < excess0 \<and> 0 < excess
         then Inl (BadRequest ''Payments exceed the amount due - only cash can be over-tendered'')
         else settleKept balance gift allowPartial (rev rlines)))"

section \<open>The discount guardrail\<close>

definition assertManualDiscountAllowed ::
  "num \<Rightarrow> num option \<Rightarrow> num option \<Rightarrow> num \<Rightarrow> bool \<Rightarrow> string option \<Rightarrow> bool \<Rightarrow> unit res" where
  "assertManualDiscountAllowed sub discountPercent discountFlat maxPercent requireReason reason mayExceedCap =
     (case manualDiscountEntry (or0 discountPercent) (or0 discountFlat) of
        None \<Rightarrow> Inr ()
      | Some (ty, v) \<Rightarrow>
          (let percent = (if ty = PERCENT_DISCOUNT then v else discountPercentOf sub v) in
           if \<not> mayExceedCap \<and> maxPercent < percent
           then Inl (BadRequest ''Discounts above the limit need a manager'')
           else if requireReason \<and> (case reason of None \<Rightarrow> True | Some r \<Rightarrow> trim r = '''')
           then Inl (BadRequest ''Enter a reason for the discount'')
           else Inr ()))"

section \<open>What the bill adds up to\<close>

text \<open>Scaling a stored amount by \<open>x / y\<close> with \<open>x \<le> y\<close> never increases it.\<close>

lemma scale_le:
  assumes "in_range t" "0 \<le> t" "0 \<le> x" "x \<le> y" "0 < y"
  shows "units 100 (fdiv (fmul (cents t) x) y) \<le> t"
proof -
  have c0: "0 \<le> cents t" using assms by simp
  have "cents t * x \<le> cents t * y" using assms c0 by (intro mult_left_mono) auto
  then have "fmul (cents t) x \<le> fl (cents t * y)" unfolding fmul_def by (rule fl_mono)
  then have le: "fdiv (fmul (cents t) x) y \<le> fl (fl (cents t * y) / y)"
    unfolding fdiv_def using assms(5) by (intro fl_mono divide_right_mono) auto
  have k: "close 100 (cents t) t 2" using assms(1) by auto
  have kt: "\<bar>100 * cents t\<bar> \<le> 10 ^ 12 + 1"
  proof -
    have "(2 / 10 ^ 4 :: rat) \<le> 1" by simp
    then show ?thesis using k in_rangeD[OF assms(1)] unfolding close_def of_nat_numeral by linarith
  qed
  have "\<bar>fl (cents t * y) / y - cents t\<bar> = \<bar>fl (cents t * y) - cents t * y\<bar> / y"
  proof -
    have "fl (cents t * y) / y - cents t = (fl (cents t * y) - cents t * y) / y"
      using assms(5) by (simp add: diff_divide_distrib)
    then show ?thesis using assms(5) by simp
  qed
  also have "\<dots> \<le> \<bar>cents t * y\<bar> / 2 ^ 53 / y"
    using assms(5) by (intro divide_right_mono fl_err) auto
  also have "\<dots> = \<bar>cents t\<bar> / 2 ^ 53" using assms(5) by (simp add: abs_mult)
  finally have d: "\<bar>fl (cents t * y) / y - cents t\<bar> \<le> \<bar>cents t\<bar> / 2 ^ 53" .
  have "\<bar>100 * (fl (cents t * y) / y) - 100 * cents t\<bar> = 100 * \<bar>fl (cents t * y) / y - cents t\<bar>"
    by (metis abs_mult abs_numeral right_diff_distrib)
  also have "\<dots> \<le> \<bar>100 * cents t\<bar> / 2 ^ 53" using d by (simp add: abs_mult)
  also have "\<dots> \<le> (10 ^ 12 + 1) / 2 ^ 53" using kt by (intro divide_right_mono) auto
  also have "\<dots> \<le> 2 / 10 ^ 4" by simp
  finally have e: "\<bar>100 * (fl (cents t * y) / y) - 100 * cents t\<bar> \<le> 2 / 10 ^ 4" .
  have "(4 / 10 ^ 4 :: rat) = 2 / 10 ^ 4 + 2 / 10 ^ 4" by simp
  then have "close 100 (fl (cents t * y) / y) t 4" using k e unfolding close_def of_nat_numeral by linarith
  then have "close 100 (fl (fl (cents t * y) / y)) t 6"
    using close_fl[of 100 "fl (cents t * y) / y" t 4] assms(1) by simp
  then have "units 100 (fl (fl (cents t * y) / y)) = t" using assms(1) by (intro units_close) auto
  then show ?thesis using units_mono[OF le, of 100] by simp
qed

text \<open>The figures of a bill over stored lines, in integer cents.\<close>

record bill_cents =
  c_subtotal :: int
  c_discount :: int
  c_tax :: int
  c_loyalty :: int
  c_tip :: int
  c_fee :: int

definition bill_cents_ok :: "int \<Rightarrow> int \<Rightarrow> bill_cents \<Rightarrow> bill \<Rightarrow> bool" where
  "bill_cents_ok tax_before sub c b \<longleftrightarrow>
     c_subtotal c = sub \<and> 0 \<le> c_discount c \<and> c_discount c \<le> sub \<and>
     0 \<le> c_loyalty c \<and> c_loyalty c \<le> sub - c_discount c \<and>
     0 \<le> c_tax c \<and> c_tax c \<le> tax_before \<and>
     bill_subtotal b = cents sub \<and> bill_discountAmount b = cents (c_discount c) \<and>
     bill_taxAmount b = cents (c_tax c) \<and> bill_loyaltyDiscountAmount b = cents (c_loyalty c) \<and>
     bill_tipAmount b = cents (c_tip c) \<and> bill_deliveryFee b = cents (c_fee c) \<and>
     bill_totalDue b = cents (sub - c_discount c - c_loyalty c + c_tip c + c_fee c)"

lemma round2_sum4:
  assumes "in_range a" "in_range l" "in_range t" "in_range f"
    "in_range (a - l)" "in_range (a - l + t)" "in_range (a - l + t + f)"
  shows "round2 (fadd (fadd (fsub (cents a) (cents l)) (cents t)) (cents f)) = cents (a - l + t + f)"
proof -
  have "close 100 (fsub (cents a) (cents l)) (a - l) (2 + 2 + 2)"
    by (rule close_fsub) (use assms in auto)
  then have "close 100 (fadd (fsub (cents a) (cents l)) (cents t)) (a - l + t) (2 + 2 + 2 + 2 + 2)"
    by (rule close_fadd) (use assms in auto)
  then have "close 100 (fadd (fadd (fsub (cents a) (cents l)) (cents t)) (cents f)) (a - l + t + f)
      (2 + 2 + 2 + 2 + 2 + 2 + 2)"
    by (rule close_fadd) (use assms in auto)
  then show ?thesis unfolding round2_dp by (rule round_dp_close) (use assms in auto)
qed

theorem computeBill_exact:
  assumes lines: "in_lines i = stored_lines nts"
    and ok: "sum_ok (map fst nts)" "sum_ok (map snd nts)"
    and pos: "0 \<le> sum_list (map fst nts)" "0 \<le> sum_list (map snd nts)"
    and adj: "0 \<le> or0 (in_discountPercent i)" "0 \<le> or0 (in_discountFlat i)" "0 \<le> or0 (in_autoDiscount i)"
    and tip: "round2 (or0 (in_tip i)) = cents tp" "0 \<le> tp" "in_range tp"
    and fee: "round2 (or0 (in_deliveryFee i)) = cents fe" "0 \<le> fe" "in_range fe"
    and room: "in_range (sum_list (map fst nts) + tp + fe)"
  obtains c where "bill_cents_ok (sum_list (map snd nts)) (sum_list (map fst nts)) c (computeBill i)"
    "c_tip c = tp" "c_fee c = fe"
proof -
  let ?s = "sum_list (map fst nts)" and ?t = "sum_list (map snd nts)"
  let ?f = "fadd (or0 (in_discountFlat i)) (or0 (in_autoDiscount i))"
  have rs: "in_range ?s" and rt: "in_range ?t" using ok by (auto intro: sum_ok_range)
  obtain d where d: "0 \<le> d" "d \<le> ?s"
    and tot: "computeOrderTotals (stored_lines nts) (or0 (in_discountPercent i)) ?f =
       \<lparr>subtotal = cents ?s, totalTax = cents ?t, discountAmount = cents d, totalAmount = cents (?s - d)\<rparr>"
    using computeOrderTotals_exact[OF ok pos(1) adj(1), of ?f] adj by auto
  have rd: "in_range d" "in_range (?s - d)" using in_range_between[OF d rs] by auto
  let ?lv = "min (max (or0 (in_loyaltyDiscountRequested i)) 0) (cents (?s - d))"
  obtain l where l: "round2 ?lv = cents l" "0 \<le> l" "l \<le> ?s - d"
    using round2_between[of ?lv "?s - d"] rd d by auto
  have rl: "in_range l" "in_range (?s - d - l)" using in_range_between[OF l(2,3) rd(2)] by auto
  have tax: "\<exists>x. 0 \<le> x \<and> x \<le> ?t \<and>
      (if 0 < cents ?s then round2 (fdiv (fmul (cents ?t) (fsub (cents ?s) (cents d))) (cents ?s)) else 0) = cents x"
  proof (cases "0 < cents ?s")
    case True
    have x: "0 \<le> fsub (cents ?s) (cents d)" "fsub (cents ?s) (cents d) \<le> cents ?s"
    proof -
      show "0 \<le> fsub (cents ?s) (cents d)" using d rs rd by simp
      have "fl (cents ?s - cents d) \<le> fl (cents ?s)" using d by (intro fl_mono) simp
      then show "fsub (cents ?s) (cents d) \<le> cents ?s" by (simp add: fsub_def)
    qed
    show ?thesis using True scale_le[OF rt pos(2) x True] x pos
      by (intro exI[of _ "units 100 (fdiv (fmul (cents ?t) (fsub (cents ?s) (cents d))) (cents ?s))"])
        (simp add: round2_cents units_nonneg)
  qed (use pos in \<open>auto intro: exI[of _ 0]\<close>)
  then obtain x where x: "0 \<le> x" "x \<le> ?t"
    "(if 0 < cents ?s then round2 (fdiv (fmul (cents ?t) (fsub (cents ?s) (cents d))) (cents ?s)) else 0) = cents x"
    by blast
  have r5: "in_range (?s - d - l + tp)" "in_range (?s - d - l + tp + fe)"
    using room d l pos tip fee by (auto simp: in_range_def)
  have due: "round2 (fadd (fadd (fsub (cents (?s - d)) (cents l)) (cents tp)) (cents fe))
      = cents (?s - d - l + tp + fe)"
    by (rule round2_sum4) (use rd rl tip fee r5 in auto)
  show ?thesis
  proof (rule that[of "\<lparr>c_subtotal = ?s, c_discount = d, c_tax = x, c_loyalty = l, c_tip = tp, c_fee = fe\<rparr>"])
    show "bill_cents_ok ?t ?s \<lparr>c_subtotal = ?s, c_discount = d, c_tax = x, c_loyalty = l, c_tip = tp, c_fee = fe\<rparr>
        (computeBill i)"
      unfolding bill_cents_ok_def computeBill_def Let_def lines tot
      using d l x tip fee due by (auto split: if_splits)
  qed simp_all
qed


section \<open>What a settlement conserves\<close>

definition received :: "settled_payment \<Rightarrow> num" where
  "received l = (case sp_tendered l of Some t \<Rightarrow> t | None \<Rightarrow> sp_amount l)"

text \<open>Integer cents applied to the bill, handed over, and handed back.\<close>

definition amt :: "settled_payment \<Rightarrow> int" where "amt l = units 100 (sp_amount l)"
definition recv :: "settled_payment \<Rightarrow> int" where "recv l = units 100 (received l)"
definition chg :: "settled_payment \<Rightarrow> int" where "chg l = units 100 (or0 (sp_changeGiven l))"

definition line_ok :: "settled_payment \<Rightarrow> bool" where
  "line_ok l \<longleftrightarrow> sp_amount l = cents (amt l) \<and> received l = cents (recv l) \<and>
     or0 (sp_changeGiven l) = cents (chg l) \<and> 0 \<le> amt l \<and> 0 \<le> chg l \<and>
     recv l = amt l + chg l \<and> in_range (recv l)"

lemma line_okI:
  assumes "sp_amount l = cents a" "received l = cents r" "or0 (sp_changeGiven l) = cents (r - a)"
    "0 \<le> a" "a \<le> r" "in_range r"
  shows "line_ok l" "amt l = a" "recv l = r" "chg l = r - a"
proof -
  have "in_range a" "in_range (r - a)" using in_range_between[OF assms(4,5,6)] by auto
  then show "amt l = a" "recv l = r" "chg l = r - a"
    using assms by (simp_all add: amt_def recv_def chg_def)
  then show "line_ok l" using assms by (simp add: line_ok_def)
qed

lemma line_ok_range: "line_ok l \<Longrightarrow> in_range (amt l) \<and> in_range (recv l) \<and> in_range (chg l)"
  by (auto simp: line_ok_def in_range_def)

lemma normaliseLine_ok:
  assumes "normaliseLine p = Inr l" "in_range (units 100 (pl_amount p))"
    "in_range (units 100 (or0 (pl_tendered p)))"
  shows "line_ok l \<and> 0 < amt l \<and> amt l = units 100 (pl_amount p) \<and> sp_method l = pl_method p"
proof -
  let ?a = "units 100 (pl_amount p)"
  have a: "0 < ?a" using assms(1,2) by (auto simp: normaliseLine_def Let_def round2_cents split: if_splits)
  show ?thesis
  proof (cases "pl_tendered p")
    case None
    then have l: "l = \<lparr>sp_method = pl_method p, sp_amount = cents ?a, sp_tendered = None,
        sp_changeGiven = None, sp_reference = pl_reference p\<rparr>"
      using assms(1) by (auto simp: normaliseLine_def Let_def round2_cents split: if_splits)
    show ?thesis using line_okI[of l ?a ?a] a assms(2) by (simp add: l received_def)
  next
    case (Some t)
    let ?t = "units 100 t"
    have rt: "in_range ?t" using assms(3) Some by simp
    have le: "?a \<le> ?t" and l: "l = \<lparr>sp_method = pl_method p, sp_amount = cents ?a, sp_tendered = Some (cents ?t),
        sp_changeGiven = Some (round2 (fsub (cents ?t) (cents ?a))), sp_reference = pl_reference p\<rparr>"
      using assms(1,2) rt Some by (auto simp: normaliseLine_def Let_def round2_cents not_less split: if_splits)
    have "round2 (fsub (cents ?t) (cents ?a)) = cents (?t - ?a)"
      using in_range_between[of ?a ?t] a le rt assms(2) by (intro round2_fsub_cents) auto
    then show ?thesis using line_okI[of l ?a ?t] a le rt by (simp add: l received_def)
  qed
qed

text \<open>One absorption step on a cash line.\<close>

lemma absorb_line:
  assumes "line_ok l" "0 \<le> e" "in_range e" "tkn = min (cents e) (sp_amount l)"
  defines "l' \<equiv> l\<lparr>sp_amount := round2 (fsub (sp_amount l) tkn), sp_tendered := Some (received l),
      sp_changeGiven := Some (round2 (fsub (received l) (round2 (fsub (sp_amount l) tkn))))\<rparr>"
  shows "line_ok l'" "amt l' = amt l - min e (amt l)" "recv l' = recv l"
    "round2 (fsub (cents e) tkn) = cents (e - min e (amt l))"
proof -
  let ?m = "min e (amt l)"
  note r = line_ok_range[OF assms(1)]
  have tk: "tkn = cents ?m" using assms r by (simp add: line_ok_def min_cents)
  have m: "0 \<le> ?m" "?m \<le> amt l" "?m \<le> e" using assms by (auto simp: line_ok_def)
  have rm: "in_range ?m" "in_range (amt l - ?m)" using in_range_between[OF m(1,2)] r by auto
  have re: "in_range (e - ?m)" using in_range_between[OF m(1,3) assms(3)] by auto
  have a: "round2 (fsub (sp_amount l) tkn) = cents (amt l - ?m)"
    unfolding tk using assms(1) r rm by (simp add: line_ok_def round2_fsub_cents)
  have le: "0 \<le> amt l - ?m" "amt l - ?m \<le> recv l" using m assms(1) by (auto simp: line_ok_def)
  have c: "round2 (fsub (received l) (cents (amt l - ?m))) = cents (recv l - (amt l - ?m))"
    using in_range_between[OF le] assms(1) r rm by (simp add: line_ok_def round2_fsub_cents)
  have rl: "received (l\<lparr>sp_amount := x, sp_tendered := Some t, sp_changeGiven := y\<rparr>) = t" for x t y
    by (simp add: received_def)
  have ar: "received l = cents (recv l)" using assms(1) by (simp add: line_ok_def)
  have l': "sp_amount l' = cents (amt l - ?m)" "received l' = cents (recv l)"
    "or0 (sp_changeGiven l') = cents (recv l - (amt l - ?m))"
    using c unfolding l'_def a rl by (simp_all add: ar)
  show "line_ok l'" "amt l' = amt l - ?m" "recv l' = recv l"
    using line_okI[OF l' le] r by auto
  show "round2 (fsub (cents e) tkn) = cents (e - ?m)"
    unfolding tk by (rule round2_fsub_cents[OF assms(3) rm(1) re])
qed

lemma absorbExcess_spec:
  assumes "absorbExcess (cents e) ls = (e', ls')" "\<forall>l \<in> set ls. line_ok l" "0 \<le> e" "in_range e"
  shows "\<exists>e2. e' = cents e2 \<and> 0 \<le> e2 \<and> e2 \<le> e \<and> sum_list (map amt ls') + (e - e2) = sum_list (map amt ls) \<and>
     (\<forall>l \<in> set ls'. line_ok l) \<and> map recv ls' = map recv ls \<and> map sp_method ls' = map sp_method ls \<and>
     (0 < e2 \<longrightarrow> (\<forall>l \<in> set ls'. sp_method l = CASH \<longrightarrow> amt l = 0)) \<and>
     filter (\<lambda>l. sp_method l \<noteq> CASH) ls' = filter (\<lambda>l. sp_method l \<noteq> CASH) ls"
  using assms
proof (induction ls arbitrary: e e' ls')
  case Nil
  then show ?case by auto
next
  case (Cons l ls)
  show ?case
  proof (cases "0 < e")
    case False
    then show ?thesis using Cons.prems by auto
  next
    case True
    then have pos: "0 < cents e" using Cons.prems by simp
    show ?thesis
    proof (cases "sp_method l = CASH")
      case False
      obtain e2 r where r: "absorbExcess (cents e) ls = (e2, r)" by fastforce
      have "e' = e2" "ls' = l # r" using Cons.prems(1) pos False r by simp_all
      then show ?thesis using Cons.IH[OF r] Cons.prems False by auto
    next
      case cash: True
      let ?take = "min (cents e) (sp_amount l)"
      let ?l = "l\<lparr>sp_amount := round2 (fsub (sp_amount l) ?take), sp_tendered := Some (received l),
        sp_changeGiven := Some (round2 (fsub (received l) (round2 (fsub (sp_amount l) ?take))))\<rparr>"
      have lk: "line_ok l" using Cons.prems(2) by simp
      note step = absorb_line[OF lk Cons.prems(3,4) refl]
      let ?e = "e - min e (amt l)"
      have re: "0 \<le> ?e" "in_range ?e" using Cons.prems(3,4) lk by (auto simp: in_range_def line_ok_def min_def)
      obtain e2 r where r: "absorbExcess (cents ?e) ls = (e2, r)" by fastforce
      have eq: "e' = e2" "ls' = ?l # r"
        using Cons.prems(1) pos cash r step(4) by (simp_all add: Let_def received_def)
      obtain x where x: "e2 = cents x" "0 \<le> x" "x \<le> ?e"
        "sum_list (map amt r) + (?e - x) = sum_list (map amt ls)" "\<forall>l \<in> set r. line_ok l"
        "map recv r = map recv ls" "map sp_method r = map sp_method ls"
        "0 < x \<longrightarrow> (\<forall>l \<in> set r. sp_method l = CASH \<longrightarrow> amt l = 0)"
        "filter (\<lambda>l. sp_method l \<noteq> CASH) r = filter (\<lambda>l. sp_method l \<noteq> CASH) ls"
        using Cons.IH[OF r _ re] Cons.prems(2) by auto
      have m: "0 \<le> min e (amt l)" using lk Cons.prems(3) by (simp add: line_ok_def)
      have z: "amt ?l = 0" if "0 < x"
        using step(2) x(3) that by (simp add: min_def split: if_splits)
      define l1 where "l1 = ?l"
      have l1: "line_ok l1" "amt l1 = amt l - min e (amt l)" "recv l1 = recv l" "sp_method l1 = CASH"
        using step(1,2,3) cash by (simp_all add: l1_def)
      show ?thesis
        using x l1 m cash z unfolding eq l1_def[symmetric] by (intro exI[of _ x]) auto
    qed
  qed
qed

definition handed :: "payment_line \<Rightarrow> int" where
  "handed p = units 100 (case pl_tendered p of Some t \<Rightarrow> t | None \<Rightarrow> pl_amount p)"

text \<open>The amounts fit the database columns: the range in which the arithmetic is exact.\<close>

definition settle_ok :: "num \<Rightarrow> payment_line list \<Rightarrow> num option \<Rightarrow> bool" where
  "settle_ok balance pays gift \<longleftrightarrow>
     0 \<le> units 100 balance \<and> in_range (units 100 balance) \<and> 0 \<le> units 100 (or0 gift) \<and>
     length pays \<le> 900 \<and> sum_list (map handed pays) + units 100 (or0 gift) \<le> 10 ^ 12 \<and>
     list_all (\<lambda>p. in_range (units 100 (pl_amount p)) \<and> in_range (units 100 (or0 (pl_tendered p)))) pays"

lemma normalised_lines:
  assumes "mapE normaliseLine pays = Inr ls"
    "list_all (\<lambda>p. in_range (units 100 (pl_amount p)) \<and> in_range (units 100 (or0 (pl_tendered p)))) pays"
  shows "(\<forall>l \<in> set ls. line_ok l \<and> 0 < amt l) \<and> map recv ls = map handed pays \<and>
     map amt ls = map (\<lambda>p. units 100 (pl_amount p)) pays \<and> map sp_method ls = map pl_method pays"
  using assms
proof (induction pays arbitrary: ls)
  case (Cons p pays)
  then obtain l ls' where l: "normaliseLine p = Inr l" "mapE normaliseLine pays = Inr ls'" "ls = l # ls'"
    by (auto simp: ebind_Inr_iff)
  have ok: "line_ok l \<and> 0 < amt l \<and> amt l = units 100 (pl_amount p) \<and> sp_method l = pl_method p"
    using normaliseLine_ok[OF l(1)] Cons.prems(2) by simp
  have "recv l = handed p"
    using l(1) Cons.prems(2)
    by (auto simp: normaliseLine_def Let_def recv_def received_def handed_def round2_cents
        split: if_splits option.splits)
  then show ?case using ok Cons.IH[OF l(2)] Cons.prems(2) l(3) by simp
qed simp

lemma line_ok_parts: "line_ok l \<Longrightarrow> recv l = amt l + chg l \<and> 0 \<le> amt l \<and> 0 \<le> chg l"
  by (simp add: line_ok_def)

lemma sum_amt_le_recv: "\<forall>l \<in> set ls. line_ok l \<Longrightarrow> sum_list (map amt ls) + sum_list (map chg ls) = sum_list (map recv ls)"
  by (induction ls) (auto dest: line_ok_parts)

lemma sum_amt_nonneg:
  "\<forall>l \<in> set ls. line_ok l \<Longrightarrow> 0 \<le> sum_list (map amt ls) \<and> 0 \<le> sum_list (map chg ls)"
  by (induction ls) (auto dest: line_ok_parts)

lemma sum_kept: "\<forall>l \<in> set ls. line_ok l \<Longrightarrow> sum_list (map amt (filter (\<lambda>l. 0 < amt l) ls)) = sum_list (map amt ls)"
  by (induction ls) (auto dest: line_ok_parts)

lemma sum_chg_kept: "\<forall>l \<in> set ls. line_ok l \<Longrightarrow> sum_list (map chg (filter P ls)) \<le> sum_list (map chg ls)"
  by (induction ls) (auto dest: line_ok_parts)

lemma fsum_sp_amount: "\<forall>l \<in> set ls. line_ok l \<Longrightarrow> map sp_amount ls = map cents (map amt ls)"
  by (auto simp: line_ok_def)

lemma fsum_change: "\<forall>l \<in> set ls. line_ok l \<Longrightarrow> map (\<lambda>l. or0 (sp_changeGiven l)) ls = map cents (map chg ls)"
  by (auto simp: line_ok_def)

lemma sum_ok_nonneg:
  "\<forall>n \<in> set ns. 0 \<le> n \<Longrightarrow> sum_list ns \<le> 10 ^ 12 \<Longrightarrow> length ns \<le> 1000 \<Longrightarrow> sum_ok ns"
proof -
  assume a: "\<forall>n \<in> set ns. 0 \<le> n" "sum_list ns \<le> 10 ^ 12" "length ns \<le> 1000"
  have "map abs ns = ns" using a(1) by (induction ns) auto
  then show "sum_ok ns" using a by (simp add: sum_ok_def)
qed

lemma fsum_plus_close:
  assumes "sum_ok ns" "length ns \<le> 900" "in_range g" "in_range (sum_list ns + g)"
  shows "close 100 (fadd (fsum (map cents ns)) (cents g)) (sum_list ns + g) 3604"
proof -
  have "close 100 0 0 0" by (simp add: close_def)
  from foldl_fadd_close[OF this, of ns]
  have "close 100 (fsum (map cents ns)) (sum_list ns) (4 * of_nat (length ns))"
    using assms by (simp add: fsum_def sum_ok_def)
  then have "close 100 (fsum (map cents ns)) (sum_list ns) 3600"
    by (rule close_mono) (use assms in simp)
  from close_fadd[OF this close_dec[OF assms(3)] assms(4)] show ?thesis by simp
qed

lemma round2_fsum_plus:
  assumes "sum_ok ns" "length ns \<le> 900" "in_range g" "in_range (sum_list ns + g)"
  shows "round2 (fadd (fsum (map cents ns)) (cents g)) = cents (sum_list ns + g)"
  using fsum_plus_close[OF assms] unfolding round2_dp by (rule round_dp_close[OF _ assms(4)]) auto

lemma round2_fsum_plus_minus:
  assumes "sum_ok ns" "length ns \<le> 900" "in_range g" "in_range (sum_list ns + g)" "in_range b"
    "in_range (sum_list ns + g - b)"
  shows "round2 (fsub (fadd (fsum (map cents ns)) (cents g)) (cents b)) = cents (sum_list ns + g - b)"
  using close_fsub[OF fsum_plus_close[OF assms(1-4)] close_dec[OF assms(5)] assms(6)]
  unfolding round2_dp by (rule round_dp_close[OF _ assms(6)]) auto

lemma sum_handed_nonneg: "mapE normaliseLine pays = Inr ls \<Longrightarrow>
    list_all (\<lambda>p. in_range (units 100 (pl_amount p)) \<and> in_range (units 100 (or0 (pl_tendered p)))) pays \<Longrightarrow>
    0 \<le> sum_list (map amt ls) \<and> sum_list (map amt ls) \<le> sum_list (map handed pays)"
  using normalised_lines[of pays ls] sum_amt_le_recv[of ls] sum_amt_nonneg[of ls] by auto

section \<open>A settlement accounts for every cent\<close>

text \<open>
  \<open>B\<close> is the balance and \<open>G\<close> the gift card amount in cents. What \<open>settlePayments\<close> answers, when it
  answers: the amounts kept add up to what was paid, never more than the balance; the balance left is
  the difference; a partial settlement is only made when allowed and then takes something.
\<close>

definition settlement_ok :: "int \<Rightarrow> int \<Rightarrow> bool \<Rightarrow> settlement \<Rightarrow> bool" where
  "settlement_ok B G allowPartial st \<longleftrightarrow>
     (let P = sum_list (map amt (st_payments st)) + G in
        (\<forall>l \<in> set (st_payments st). line_ok l \<and> 0 < amt l) \<and> P \<le> B \<and>
        st_paidNow st = cents P \<and> st_balanceAfter st = cents (B - P) \<and>
        st_changeDue st = cents (sum_list (map chg (st_payments st))) \<and>
        (st_fullyPaid st \<longleftrightarrow> P = B) \<and> (\<not> st_fullyPaid st \<longrightarrow> allowPartial \<and> 0 < P))"

lemma settle_finish:
  assumes ok: "\<forall>l \<in> set ls. line_ok l" and len: "length ls \<le> 900"
    and tot: "sum_list (map recv ls) + G \<le> 10 ^ 12" "0 \<le> G" "sum_list (map amt ls) + G \<le> B" "in_range B"
  defines "kept \<equiv> filter (\<lambda>l. 0 < sp_amount l) ls"
  defines "P \<equiv> sum_list (map amt kept) + G"
  shows "round2 (fadd (fsum (map sp_amount kept)) (cents G)) = cents P"
    "round2 (fsub (cents B) (cents P)) = cents (B - P)"
    "round2 (fsum (map (\<lambda>l. or0 (sp_changeGiven l)) kept)) = cents (sum_list (map chg kept))"
    "in_range P" "in_range (B - P)" "0 \<le> P" "P \<le> B" "\<forall>l \<in> set kept. line_ok l \<and> 0 < amt l"
    "kept = filter (\<lambda>l. 0 < amt l) ls"
proof -
  show kept: "kept = filter (\<lambda>l. 0 < amt l) ls"
    unfolding kept_def by (rule filter_cong) (use ok line_ok_range in \<open>auto simp: line_ok_def\<close>)
  then show k: "\<forall>l \<in> set kept. line_ok l \<and> 0 < amt l" using ok by auto
  then have k': "\<forall>l \<in> set kept. line_ok l" by blast
  have lk: "length kept \<le> 900" using len unfolding kept by (meson dual_order.trans length_filter_le)
  have sa: "sum_list (map amt kept) = sum_list (map amt ls)" unfolding kept by (rule sum_kept[OF ok])
  have sc: "sum_list (map chg kept) \<le> sum_list (map chg ls)" unfolding kept by (rule sum_chg_kept[OF ok])
  note nn = sum_amt_nonneg[OF ok] sum_amt_nonneg[OF k'] sum_amt_le_recv[OF ok]
  have a: "sum_ok (map amt kept)"
    by (rule sum_ok_nonneg) (use k lk nn sa tot in \<open>auto simp: less_imp_le\<close>)
  have c: "sum_ok (map chg kept)"
    by (rule sum_ok_nonneg) (use k' lk nn sc tot in \<open>auto dest: line_ok_parts\<close>)
  show P: "0 \<le> P" "P \<le> B" using nn sa tot unfolding P_def by auto
  show r: "in_range P" "in_range (B - P)" using in_range_between[OF P tot(4)] by auto
  have rG: "in_range G" using tot(1,2) nn by (auto simp: in_range_def)
  show "round2 (fadd (fsum (map sp_amount kept)) (cents G)) = cents P"
    unfolding fsum_sp_amount[OF k'] P_def using a lk rG r(1)
    by (intro round2_fsum_plus) (auto simp: P_def)
  show "round2 (fsub (cents B) (cents P)) = cents (B - P)"
    by (rule round2_fsub_cents[OF tot(4) r])
  show "round2 (fsum (map (\<lambda>l. or0 (sp_changeGiven l)) kept)) = cents (sum_list (map chg kept))"
    unfolding fsum_change[OF k'] by (rule round2_fsum_cents[OF c])
qed

lemma settleKept_cases:
  assumes ok: "\<forall>l \<in> set ls. line_ok l" and len: "length ls \<le> 900"
    and tot: "sum_list (map recv ls) + G \<le> 10 ^ 12" "0 \<le> G" "sum_list (map amt ls) + G \<le> B" "in_range B"
  defines "S \<equiv> sum_list (map amt ls) + G"
  shows "S < B \<and> \<not> ap \<Longrightarrow> settleKept (cents B) (cents G) ap ls = Inl (BadRequest ''Payments do not cover the total due'')"
    "S < B \<and> ap \<and> S \<le> 0 \<Longrightarrow> settleKept (cents B) (cents G) ap ls = Inl (BadRequest ''Enter a payment to record'')"
    "S = B \<or> (ap \<and> 0 < S) \<Longrightarrow> \<exists>st. settleKept (cents B) (cents G) ap ls = Inr st \<and> settlement_ok B G ap st \<and>
       st_paidNow st = cents S \<and> st_payments st = filter (\<lambda>l. 0 < amt l) ls"
proof -
  note f = settle_finish[OF ok len tot]
  have P: "sum_list (map amt (filter (\<lambda>l. 0 < amt l) ls)) + G = S"
    unfolding S_def using sum_kept[OF ok] by simp
  note g = f[unfolded f(9) P]
  have fp: "cents (B - S) \<le> 0 \<longleftrightarrow> B \<le> S" using g(5) by simp
  have p0: "cents S \<le> 0 \<longleftrightarrow> S \<le> 0" using g(4) by simp
  have mx: "max (cents (B - S)) 0 = cents (B - S)" using g(7) by (simp add: max_def order.antisym)
  show "S < B \<and> \<not> ap \<Longrightarrow> settleKept (cents B) (cents G) ap ls = Inl (BadRequest ''Payments do not cover the total due'')"
    "S < B \<and> ap \<and> S \<le> 0 \<Longrightarrow> settleKept (cents B) (cents G) ap ls = Inl (BadRequest ''Enter a payment to record'')"
    by (simp_all add: settleKept_def Let_def g(1,2) f(9) fp p0)
  show "S = B \<or> (ap \<and> 0 < S) \<Longrightarrow> \<exists>st. settleKept (cents B) (cents G) ap ls = Inr st \<and> settlement_ok B G ap st \<and>
       st_paidNow st = cents S \<and> st_payments st = filter (\<lambda>l. 0 < amt l) ls"
  proof -
    assume a: "S = B \<or> (ap \<and> 0 < S)"
    let ?k = "filter (\<lambda>l. 0 < amt l) ls"
    let ?st = "\<lparr>st_payments = ?k, st_paidNow = cents S, st_balanceAfter = cents (B - S),
       st_changeDue = cents (sum_list (map chg ?k)), st_fullyPaid = (B \<le> S)\<rparr>"
    have "settleKept (cents B) (cents G) ap ls = Inr ?st"
      unfolding settleKept_def Let_def f(9) g(1,2,3) fp p0 mx using a g(7) by auto
    moreover have "settlement_ok B G ap ?st"
      unfolding settlement_ok_def Let_def settlement.simps P using a g(7,8) by auto
    ultimately show ?thesis by simp
  qed
qed

text \<open>What is handed over without cash: the part that can never become change.\<close>

definition non_cash :: "payment_line list \<Rightarrow> int" where
  "non_cash pays = sum_list (map (\<lambda>p. units 100 (pl_amount p)) (filter (\<lambda>p. pl_method p \<noteq> CASH) pays))"

lemma non_cash_lines:
  "map amt ls = map (\<lambda>p. units 100 (pl_amount p)) pays \<Longrightarrow> map sp_method ls = map pl_method pays \<Longrightarrow>
   sum_list (map amt (filter (\<lambda>l. sp_method l \<noteq> CASH) ls)) = non_cash pays"
proof (induction ls arbitrary: pays)
  case (Cons l ls)
  then obtain p ps where "pays = p # ps" by (cases pays) auto
  with Cons show ?case by (auto simp: non_cash_def)
qed (simp add: non_cash_def)

lemma sum_filter_le:
  "\<forall>l \<in> set ls. line_ok l \<Longrightarrow> sum_list (map amt (filter P ls)) \<le> sum_list (map amt ls)"
  by (induction ls) (auto dest: line_ok_parts)

lemma sum_filter_eq:
  "\<forall>l \<in> set ls. sp_method l = CASH \<longrightarrow> amt l = 0 \<Longrightarrow>
   sum_list (map amt (filter (\<lambda>l. sp_method l \<noteq> CASH) ls)) = sum_list (map amt ls)"
  by (induction ls) auto

text \<open>The excess phase: over-tendering fails exactly when the non-cash part alone is too much.\<close>

lemma excess_phase:
  assumes ls: "\<forall>l \<in> set ls. line_ok l" and e: "0 < e" "in_range e"
    and B: "sum_list (map amt ls) + G - e = B"
  obtains e2 ls' where "absorbExcess (cents e) (rev ls) = (cents e2, rev ls')" "0 \<le> e2" "in_range e2"
    "\<forall>l \<in> set ls'. line_ok l" "map recv ls' = map recv ls" "sum_list (map amt ls') + G = B + e2"
    "0 < e2 \<longleftrightarrow> B < sum_list (map amt (filter (\<lambda>l. sp_method l \<noteq> CASH) ls)) + G"
proof -
  obtain x r where a: "absorbExcess (cents e) (rev ls) = (x, r)" by fastforce
  from absorbExcess_spec[OF this] ls e obtain e2 where x: "x = cents e2" "0 \<le> e2" "e2 \<le> e"
    "sum_list (map amt r) + (e - e2) = sum_list (map amt (rev ls))" "\<forall>l \<in> set r. line_ok l"
    "map recv r = map recv (rev ls)" "0 < e2 \<longrightarrow> (\<forall>l \<in> set r. sp_method l = CASH \<longrightarrow> amt l = 0)"
    "filter (\<lambda>l. sp_method l \<noteq> CASH) r = filter (\<lambda>l. sp_method l \<noteq> CASH) (rev ls)"
    by auto
  have rv: "sum_list (map amt (rev xs)) = sum_list (map amt xs)" for xs
    by (simp add: rev_map[symmetric])
  have s: "sum_list (map amt r) + G = B + e2" using x(4) B rv[of ls] by simp
  have nc: "sum_list (map amt (filter (\<lambda>l. sp_method l \<noteq> CASH) r)) =
      sum_list (map amt (filter (\<lambda>l. sp_method l \<noteq> CASH) ls))"
    using x(8) rv[of "filter (\<lambda>l. sp_method l \<noteq> CASH) ls"] by (simp add: rev_filter)
  have iff: "0 < e2 \<longleftrightarrow> B < sum_list (map amt (filter (\<lambda>l. sp_method l \<noteq> CASH) ls)) + G"
  proof (cases "0 < e2")
    case True
    then show ?thesis using sum_filter_eq[of r] x(7) nc s by simp
  next
    case False
    then show ?thesis using sum_filter_le[OF x(5)] nc s x(2) by (smt (verit))
  qed
  have "map recv (rev r) = map recv ls" using x(6) by (simp add: rev_map[symmetric])
  then show ?thesis
    using that[of e2 "rev r"] a x s iff rv[of r] in_range_between[OF x(2,3) e(2)] by simp
qed

text \<open>
  Every outcome of a settlement whose lines are all well formed, as a function of the cents handed
  over: too much without cash, too little, nothing at all, or a settlement that is exact.
\<close>

theorem settlePayments_cases:
  assumes ok: "settle_ok bal pays gift" and ls: "mapE normaliseLine pays = Inr ls"
  defines "B \<equiv> units 100 bal" and "G \<equiv> units 100 (or0 gift)"
    and "T \<equiv> sum_list (map (\<lambda>p. units 100 (pl_amount p)) pays) + units 100 (or0 gift)"
  shows "B < non_cash pays + G \<Longrightarrow> settlePayments bal pays gift ap =
      Inl (BadRequest ''Payments exceed the amount due - only cash can be over-tendered'')"
    "non_cash pays + G \<le> B \<Longrightarrow> T < B \<Longrightarrow> \<not> ap \<Longrightarrow> settlePayments bal pays gift ap =
      Inl (BadRequest ''Payments do not cover the total due'')"
    "non_cash pays + G \<le> B \<Longrightarrow> T < B \<Longrightarrow> ap \<Longrightarrow> T \<le> 0 \<Longrightarrow> settlePayments bal pays gift ap =
      Inl (BadRequest ''Enter a payment to record'')"
    "non_cash pays + G \<le> B \<Longrightarrow> B \<le> T \<or> (ap \<and> 0 < T) \<Longrightarrow>
      \<exists>st. settlePayments bal pays gift ap = Inr st \<and> settlement_ok B G ap st \<and> st_paidNow st = cents (min T B) \<and>
        (T \<le> B \<longrightarrow> st_payments st = ls)"
proof -
  note o = ok[unfolded settle_ok_def, folded B_def G_def]
  note n = normalised_lines[OF ls conjunct2[OF conjunct2[OF conjunct2[OF conjunct2[OF conjunct2[OF o]]]]]]
  have lk: "\<forall>l \<in> set ls. line_ok l" using n by blast
  have len: "length ls \<le> 900" using o mapE_Inr_length[OF ls] by simp
  have nc: "sum_list (map amt (filter (\<lambda>l. sp_method l \<noteq> CASH) ls)) = non_cash pays"
    using n by (intro non_cash_lines) auto
  have T: "T = sum_list (map amt ls) + G" using n by (simp add: T_def G_def)
  have tot: "sum_list (map recv ls) + G \<le> 10 ^ 12" "0 \<le> G" "in_range B" "0 \<le> B" using o n by auto
  note nn = sum_amt_le_recv[OF lk] sum_amt_nonneg[OF lk]
  have rT: "in_range G" "in_range (sum_list (map amt ls) + G)" "in_range (sum_list (map amt ls) + G - B)"
    using nn tot by (auto simp: in_range_def)
  have so: "sum_ok (map amt ls)"
    by (rule sum_ok_nonneg) (use lk len nn tot in \<open>auto dest: line_ok_parts\<close>)
  have ncle: "non_cash pays + G \<le> T" using sum_filter_le[OF lk] nc T by (metis add_right_mono)
  have ex0: "round2 (fsub (fadd (fsum (map sp_amount ls)) (cents G)) (cents B)) = cents (T - B)"
    unfolding fsum_sp_amount[OF lk] T
    by (rule round2_fsum_plus_minus) (use so len rT tot in auto)
  have rb: "round2 bal = cents B" "round2 (or0 gift) = cents G" by (simp_all add: round2_cents B_def G_def)
  have rTB: "in_range (T - B)" using rT(3) T by simp
  note unf = settlePayments_def Let_def rb ls ebind.simps ex0
  show "B < non_cash pays + G \<Longrightarrow> settlePayments bal pays gift ap =
      Inl (BadRequest ''Payments exceed the amount due - only cash can be over-tendered'')"
  proof -
    assume b: "B < non_cash pays + G"
    then have p: "0 < T - B" using ncle by simp
    obtain e2 ls' where a: "absorbExcess (cents (T - B)) (rev ls) = (cents e2, rev ls')" "0 < e2" "in_range e2"
      using excess_phase[OF lk p rTB, of G B] T b nc by (metis add_diff_cancel_left' diff_add_cancel diff_diff_eq2)
    show ?thesis using a p rTB unfolding unf by simp
  qed
  have less: "settlePayments bal pays gift ap = settleKept (cents B) (cents G) ap ls" if "T \<le> B"
    using that rTB unfolding unf by simp
  note k = settleKept_cases[OF lk len tot(1,2) _ tot(3), folded T]
  show "non_cash pays + G \<le> B \<Longrightarrow> T < B \<Longrightarrow> \<not> ap \<Longrightarrow> settlePayments bal pays gift ap =
      Inl (BadRequest ''Payments do not cover the total due'')"
    "non_cash pays + G \<le> B \<Longrightarrow> T < B \<Longrightarrow> ap \<Longrightarrow> T \<le> 0 \<Longrightarrow> settlePayments bal pays gift ap =
      Inl (BadRequest ''Enter a payment to record'')"
    using k(1,2)[of ap] less by simp_all
  assume b: "non_cash pays + G \<le> B" "B \<le> T \<or> (ap \<and> 0 < T)"
  show "\<exists>st. settlePayments bal pays gift ap = Inr st \<and> settlement_ok B G ap st \<and> st_paidNow st = cents (min T B) \<and>
        (T \<le> B \<longrightarrow> st_payments st = ls)"
  proof (cases "T \<le> B")
    case True
    have "filter (\<lambda>l. 0 < amt l) ls = ls" using n by (simp add: filter_id_conv)
    then show ?thesis using k(3)[of ap] less[OF True] b(2) True by (auto simp: min_def)
  next
    case False
    then have p: "0 < T - B" by simp
    obtain e2 ls' where a: "absorbExcess (cents (T - B)) (rev ls) = (cents e2, rev ls')" "0 \<le> e2" "in_range e2"
      "\<forall>l \<in> set ls'. line_ok l" "map recv ls' = map recv ls" "sum_list (map amt ls') + G = B + e2" "\<not> 0 < e2"
      by (rule excess_phase[OF lk p rTB, of G B]) (use T b nc in auto)
    then have e2: "e2 = 0" by simp
    have len': "length ls' \<le> 900" using len map_eq_imp_length_eq[OF a(5)] by simp
    have "settlePayments bal pays gift ap = settleKept (cents B) (cents G) ap ls'"
      using a p rTB e2 unfolding unf by simp
    then show ?thesis
      using settleKept_cases(3)[OF a(4) len', of G B ap] a(5,6) tot False e2 by (auto simp: min_def)
  qed
qed

section \<open>Properties\<close>


text \<open>A bill of 30.00 settled with a card payment of 10.00 and 50.00 in cash.\<close>

definition sample_payments :: "payment_line list" where
  "sample_payments =
     [\<lparr>pl_method = CARD, pl_amount = cents 1000, pl_tendered = None, pl_reference = None\<rparr>,
      \<lparr>pl_method = CASH, pl_amount = cents 2000, pl_tendered = Some (cents 5000), pl_reference = None\<rparr>]"

definition sample_settled :: "settled_payment list" where
  "sample_settled =
     [\<lparr>sp_method = CARD, sp_amount = cents 1000, sp_tendered = None, sp_changeGiven = None, sp_reference = None\<rparr>,
      \<lparr>sp_method = CASH, sp_amount = cents 2000, sp_tendered = Some (cents 5000),
       sp_changeGiven = Some (cents 3000), sp_reference = None\<rparr>]"

lemma sample_normalised: "mapE normaliseLine sample_payments = Inr sample_settled"
  by (simp add: sample_payments_def sample_settled_def normaliseLine_def Let_def in_range_def round2_fsub_cents)


text \<open>C2: the bill of stored lines is exact: discount and loyalty redemption never exceed what is being
  charged, the tax breakup shrinks with the discount, and the total due is subtotal minus discount minus
  loyalty plus tip plus delivery fee, to the cent.\<close>

theorem bill_adds_up:
  assumes "sum_ok (map fst nts)" "sum_ok (map snd nts)"
    "0 \<le> sum_list (map fst nts)" "0 \<le> sum_list (map snd nts)"
    "0 \<le> or0 dp" "0 \<le> or0 df" "0 \<le> or0 ad" "0 \<le> tp" "0 \<le> fe"
    "in_range tp" "in_range fe" "in_range (sum_list (map fst nts) + tp + fe)"
  shows "\<exists>c. bill_cents_ok (sum_list (map snd nts)) (sum_list (map fst nts)) c
      (computeBill \<lparr>in_lines = stored_lines nts, in_discountPercent = dp, in_discountFlat = df,
         in_autoDiscount = ad, in_loyaltyDiscountRequested = lr, in_tip = Some (cents tp),
         in_deliveryFee = Some (cents fe)\<rparr>) \<and> c_tip c = tp \<and> c_fee c = fe"
  by (rule computeBill_exact[where i = "\<lparr>in_lines = stored_lines nts, in_discountPercent = dp,
      in_discountFlat = df, in_autoDiscount = ad, in_loyaltyDiscountRequested = lr,
      in_tip = Some (cents tp), in_deliveryFee = Some (cents fe)\<rparr>" and nts = nts and tp = tp and fe = fe])
    (use assms in auto)

theorem bill_adds_up_witness:
  "\<exists>c. bill_cents_ok 190 1999 c
      (computeBill \<lparr>in_lines = stored_lines [(1000, 90), (999, 100)], in_discountPercent = Some 10,
         in_discountFlat = None, in_autoDiscount = Some 3, in_loyaltyDiscountRequested = Some 100,
         in_tip = Some (cents 150), in_deliveryFee = Some (cents 200)\<rparr>) \<and> c_tip c = 150 \<and> c_fee c = 200"
  using bill_adds_up[of "[(1000, 90), (999, 100)]" "Some 10" None "Some 3" 150 200 "Some 100"]
  by (simp add: sum_ok_def in_range_def)

text \<open>When the manual discount is a percentage only, or a flat amount only, and it passes the
  guardrail of somebody who may not exceed the cap, its percentage is within the cap, and when a reason
  is required the reason given is not blank.\<close>

theorem discount_guardrail:
  assumes "assertManualDiscountAllowed sub pct flat cap req reason False = Inr ()"
    "or0 pct \<le> 0 \<or> or0 flat \<le> 0"
  shows "(0 < or0 pct \<longrightarrow> round2 (or0 pct) \<le> cap) \<and>
     (0 < or0 flat \<longrightarrow> discountPercentOf sub (round2 (or0 flat)) \<le> cap) \<and>
     (req \<and> (0 < or0 pct \<or> 0 < or0 flat) \<longrightarrow> (\<exists>r. reason = Some r \<and> trim r \<noteq> []))"
  using assms
  by (auto simp: assertManualDiscountAllowed_def manualDiscountEntry_def Let_def
      split: if_splits option.splits)

theorem discount_guardrail_witness:
  "assertManualDiscountAllowed 100 (Some 10) None 15 True (Some ''regular'') False = Inr () \<and> round2 10 \<le> 15"
proof -
  have a: "assertManualDiscountAllowed 100 (Some 10) None 15 True (Some ''regular'') False = Inr ()"
    by code_simp
  show ?thesis using discount_guardrail[OF a] a by simp
qed

text \<open>
  The guardrail looks at the percentage alone when both are given, while the bill applies both: one
  percent and a flat 50.00 on a bill of 100.00 pass a cap of 10 percent and take off 51.00.
\<close>

lemma guardrail_ignores_flat_beside_percent:
  "assertManualDiscountAllowed 100 (Some 1) (Some 50) 10 False None False = Inr () \<and>
   bill_discountAmount (computeBill \<lparr>in_lines = [\<lparr>lineTotal = 100, taxAmount = 0\<rparr>],
     in_discountPercent = Some 1, in_discountFlat = Some 50, in_autoDiscount = None,
     in_loyaltyDiscountRequested = None, in_tip = None, in_deliveryFee = None\<rparr>) = 51"
proof -
  have r: "fsum [100] = 100" "fmul 100 1 = 100" "fdiv 100 100 = 1"
    "fadd 1 50 = 51" "fadd 50 0 = 50" "fsum [0] = 0"
    by (simp_all add: fsum_def fadd_def fmul_def fdiv_def)
  show ?thesis
    by (simp add: assertManualDiscountAllowed_def manualDiscountEntry_def computeBill_def
        computeOrderTotals_def Let_def r)
qed

text \<open>
  A cash line whose whole amount is excess is dropped together with its change: 10.00 due, paid with a
  card payment of 10.00 and 5.00 in cash, records no change to hand back for the 5.00.
\<close>

lemma absorbed_cash_line_loses_its_change:
  "settlePayments 10
     [\<lparr>pl_method = CARD, pl_amount = 10, pl_tendered = None, pl_reference = None\<rparr>,
      \<lparr>pl_method = CASH, pl_amount = 5, pl_tendered = None, pl_reference = None\<rparr>] None False =
   Inr \<lparr>st_payments = [\<lparr>sp_method = CARD, sp_amount = 10, sp_tendered = None, sp_changeGiven = None,
          sp_reference = None\<rparr>], st_paidNow = 10, st_balanceAfter = 0, st_changeDue = 0, st_fullyPaid = True\<rparr>"
proof -
  have r: "fsum [10, 5] = 15" "fsum [10] = 10" "fadd 15 0 = 15"
    "fadd 10 0 = 10" "fsub 15 10 = 5" "fsub 5 5 = 0" "fsub 10 10 = 0" "fsub 5 0 = 5" "fsum [0] = 0"
    by (simp_all add: fsum_def fadd_def fsub_def)
  show ?thesis
    by (simp add: settlePayments_def settleKept_def normaliseLine_def Let_def r)
qed

end
