(* ===== verification/Discounts.thy ===== *)
theory Discounts
  imports Pricing
begin

text \<open>
  Coupon and happy-hour rules: \<open>modules/marketing/discounts.ts\<close>. Money is a double, instants are
  milliseconds, a day is 0 (Sunday) to 6 and a time of day is minutes since midnight.
\<close>

datatype discount_kind = PERCENT | FLAT

record coupon_rule =
  cr_kind :: discount_kind
  cr_value :: num
  cr_minOrderAmount :: num
  cr_maxDiscount :: "num option"
  cr_validFrom :: "int option"
  cr_validUntil :: "int option"
  cr_usageLimit :: "int option"
  cr_usedCount :: int
  cr_isActive :: bool

record promotion_rule =
  pr_kind :: discount_kind
  pr_value :: num
  pr_daysOfWeek :: "nat list"
  pr_startMinute :: nat
  pr_endMinute :: nat
  pr_isActive :: bool

definition discountAmountOf :: "discount_kind \<Rightarrow> num \<Rightarrow> num \<Rightarrow> num option \<Rightarrow> num" where
  "discountAmountOf kind value sub maxDiscount =
     (let amount = (if kind = PERCENT then fdiv (fmul sub value) 100 else value);
          amount' = (case maxDiscount of None \<Rightarrow> amount | Some m \<Rightarrow> min amount m)
      in round2 (min amount' sub))"

definition evaluateCoupon :: "coupon_rule \<Rightarrow> num \<Rightarrow> int \<Rightarrow> string + num" where
  "evaluateCoupon c sub now =
     (if \<not> cr_isActive c then Inl ''This coupon is not active''
      else if (case cr_validFrom c of Some f \<Rightarrow> now < f | None \<Rightarrow> False)
      then Inl ''This coupon is not valid yet''
      else if (case cr_validUntil c of Some u \<Rightarrow> u < now | None \<Rightarrow> False)
      then Inl ''This coupon has expired''
      else if (case cr_usageLimit c of Some l \<Rightarrow> l \<le> cr_usedCount c | None \<Rightarrow> False)
      then Inl ''This coupon has been fully used''
      else if sub < cr_minOrderAmount c then Inl ''The order is below the minimum for this coupon''
      else (let amount = discountAmountOf (cr_kind c) (cr_value c) sub (cr_maxDiscount c) in
            if 0 < amount then Inr amount
            else Inl ''This coupon gives no discount on this order''))"

definition promotionActive :: "promotion_rule \<Rightarrow> nat \<Rightarrow> nat \<Rightarrow> bool" where
  "promotionActive p day minute \<longleftrightarrow>
     pr_isActive p \<and> day \<in> set (pr_daysOfWeek p) \<and> pr_startMinute p \<le> minute \<and> minute < pr_endMinute p"

section \<open>Times of day\<close>

text \<open>\<open>s.split(':')\<close>, and \<open>Number(s)\<close> on a string of digits (\<open>None\<close> is \<open>NaN\<close>).\<close>

definition js_number :: "string \<Rightarrow> nat option" where
  "js_number s = (if list_all is_digit s then Some (str_nat s) else None)"

definition toMinutes :: "string \<Rightarrow> nat option" where
  "toMinutes hhmm =
     (case map js_number (split_on (CHR '':'') hhmm) of
        Some h # Some m # _ \<Rightarrow> Some (h * 60 + m)
      | _ \<Rightarrow> None)"

definition fromMinutes :: "nat \<Rightarrow> string" where
  "fromMinutes m =
     pad_start 2 (digit 0) (nat_str (m div 60)) @ '':'' @ pad_start 2 (digit 0) (nat_str (m mod 60))"

section \<open>Facts\<close>

lemma padded_digits: "c \<in> set (pad_start w (digit 0) (nat_str n)) \<Longrightarrow> is_digit c"
  by (auto simp: pad_start_def dest: nat_str_digits)

lemma js_number_padded [simp]: "js_number (pad_start w (digit 0) (nat_str n)) = Some n"
  using padded_digits by (auto simp: js_number_def list_all_iff)

lemma colon_not_padded: "CHR '':'' \<notin> set (pad_start w (digit 0) (nat_str n))"
  using padded_digits[of "CHR '':''"] by (auto simp: is_digit_def)

lemma discountAmountOf_mono_bound:
  "discountAmountOf k v s m \<le> round2 s" "m = Some x \<Longrightarrow> discountAmountOf k v s m \<le> round2 x"
  by (auto simp: discountAmountOf_def Let_def intro!: round2_mono)

lemma discountAmountOf_nonneg:
  "0 \<le> v \<Longrightarrow> 0 \<le> s \<Longrightarrow> (\<And>x. m = Some x \<Longrightarrow> 0 \<le> x) \<Longrightarrow> 0 \<le> discountAmountOf k v s m"
  by (auto simp: discountAmountOf_def Let_def split: option.splits)

text \<open>A discount on a subtotal in cents is itself in cents and within it.\<close>

lemma discountAmountOf_cents:
  assumes "0 \<le> v" "0 \<le> n" "in_range n" "\<And>x. m = Some x \<Longrightarrow> 0 \<le> x"
  obtains d where "discountAmountOf k v (cents n) m = cents d" "0 \<le> d" "d \<le> n"
proof -
  let ?a = "if k = PERCENT then fdiv (fmul (cents n) v) 100 else v"
  let ?b = "case m of None \<Rightarrow> ?a | Some x \<Rightarrow> min ?a x"
  have "0 \<le> ?b" using assms by (auto split: option.splits)
  then obtain d where "round2 (min ?b (cents n)) = cents d" "0 \<le> d" "d \<le> n"
    using round2_between[of "min ?b (cents n)" n] assms by auto
  then show ?thesis using that by (simp add: discountAmountOf_def Let_def)
qed

lemma evaluateCoupon_ok:
  "evaluateCoupon c sub now = Inr a \<Longrightarrow>
     a = discountAmountOf (cr_kind c) (cr_value c) sub (cr_maxDiscount c) \<and> 0 < a \<and>
     cr_isActive c \<and> cr_minOrderAmount c \<le> sub \<and>
     (\<forall>l. cr_usageLimit c = Some l \<longrightarrow> cr_usedCount c < l) \<and>
     (\<forall>f. cr_validFrom c = Some f \<longrightarrow> f \<le> now) \<and> (\<forall>u. cr_validUntil c = Some u \<longrightarrow> now \<le> u)"
  unfolding evaluateCoupon_def Let_def
  by (auto simp: not_less not_le split: if_splits option.splits)

end
