(* ===== verification/Marketing.thy ===== *)
theory Marketing
  imports Discounts
begin

text \<open>
  The marketing service, \<open>modules/marketing/marketing.service.ts\<close>: coupons and promotions of a branch,
  the automatic discount of a bill, counting a coupon use, and sending a campaign at most once an hour.
  The rows keep money as integer cents. The local day and minute of an instant come from the platform's
  time-zone data and are an argument. Statements that the database executes atomically are single
  functions on the rows.
\<close>

record coupon =
  cp_id :: string
  cp_branchId :: string
  cp_code :: string
  cp_kind :: discount_kind
  cp_value :: int
  cp_minOrderAmount :: int
  cp_maxDiscount :: "int option"
  cp_validFrom :: "int option"
  cp_validUntil :: "int option"
  cp_usageLimit :: "int option"
  cp_usedCount :: int
  cp_isActive :: bool

record promotion =
  pm_id :: string
  pm_branchId :: string
  pm_name :: string
  pm_kind :: discount_kind
  pm_value :: int
  pm_daysOfWeek :: "nat list"
  pm_startMinute :: nat
  pm_endMinute :: nat
  pm_isActive :: bool

section \<open>Coupons\<close>

text \<open>\<open>couponSchema\<close>, on an already parsed body.\<close>

record coupon_dto =
  dc_code :: string
  dc_kind :: discount_kind
  dc_value :: num
  dc_minOrderAmount :: num
  dc_maxDiscount :: "num option"
  dc_validFrom :: "int option"
  dc_validUntil :: "int option"
  dc_usageLimit :: "int option"
  dc_isActive :: bool

definition code_char :: "char \<Rightarrow> bool" where
  "code_char c \<longleftrightarrow> is_digit c \<or> (65 \<le> (of_char c :: nat) \<and> (of_char c :: nat) \<le> 90) \<or>
     (97 \<le> (of_char c :: nat) \<and> (of_char c :: nat) \<le> 122) \<or> c = CHR ''_'' \<or> c = CHR ''-''"

definition discountValue :: "discount_kind \<Rightarrow> num \<Rightarrow> bool" where
  "discountValue kind value \<longleftrightarrow> kind = FLAT \<or> value \<le> 100"

definition couponSchema :: "coupon_dto \<Rightarrow> bool" where
  "couponSchema d \<longleftrightarrow>
     trim (dc_code d) = dc_code d \<and> 3 \<le> length (dc_code d) \<and> length (dc_code d) \<le> 24 \<and>
     list_all code_char (dc_code d) \<and> 0 < dc_value d \<and> 0 \<le> dc_minOrderAmount d \<and>
     (case dc_maxDiscount d of None \<Rightarrow> True | Some m \<Rightarrow> 0 < m) \<and>
     (case dc_usageLimit d of None \<Rightarrow> True | Some l \<Rightarrow> 0 < l) \<and>
     discountValue (dc_kind d) (dc_value d)"

definition findCouponByCode :: "string \<Rightarrow> string \<Rightarrow> coupon list \<Rightarrow> coupon option" where
  "findCouponByCode branchId code cs = find (\<lambda>c. cp_branchId c = branchId \<and> cp_code c = code) cs"

definition createCoupon :: "string \<Rightarrow> string \<Rightarrow> coupon_dto \<Rightarrow> coupon list \<Rightarrow> coupon list res" where
  "createCoupon newId branchId dto cs =
     (let code = to_upper (dc_code dto) in
      if findCouponByCode branchId code cs \<noteq> None
      then Inl (BadRequest ''That coupon code already exists'')
      else Inr (cs @ [\<lparr>cp_id = newId, cp_branchId = branchId, cp_code = code, cp_kind = dc_kind dto,
             cp_value = to_column 100 (dc_value dto),
             cp_minOrderAmount = to_column 100 (dc_minOrderAmount dto),
             cp_maxDiscount = map_option (to_column 100) (dc_maxDiscount dto),
             cp_validFrom = dc_validFrom dto, cp_validUntil = dc_validUntil dto,
             cp_usageLimit = dc_usageLimit dto, cp_usedCount = 0, cp_isActive = dc_isActive dto\<rparr>]))"

definition getCoupon :: "string \<Rightarrow> string \<Rightarrow> coupon list \<Rightarrow> coupon res" where
  "getCoupon branchId i cs =
     (case find (\<lambda>c. cp_id c = i \<and> cp_branchId c = branchId) cs of
        None \<Rightarrow> Inl (NotFound ''Coupon not found'') | Some c \<Rightarrow> Inr c)"

definition setCouponActive :: "string \<Rightarrow> string \<Rightarrow> bool \<Rightarrow> coupon list \<Rightarrow> coupon list res" where
  "setCouponActive branchId i b cs =
     ebind (getCoupon branchId i cs)
       (\<lambda>_. Inr (upd_where (\<lambda>c. cp_id c = i) (\<lambda>c. c\<lparr>cp_isActive := b\<rparr>) cs))"

definition deleteCoupon :: "string \<Rightarrow> string \<Rightarrow> coupon list \<Rightarrow> coupon list res" where
  "deleteCoupon branchId i cs =
     ebind (getCoupon branchId i cs) (\<lambda>_. Inr (del_where (\<lambda>c. cp_id c = i) cs))"

section \<open>Promotions\<close>

record promotion_dto =
  dp_name :: string
  dp_kind :: discount_kind
  dp_value :: num
  dp_daysOfWeek :: "nat list"
  dp_startTime :: string
  dp_endTime :: string
  dp_isActive :: bool

text \<open>The schema has checked both times as HH:MM, so they parse.\<close>

definition createPromotion :: "string \<Rightarrow> string \<Rightarrow> promotion_dto \<Rightarrow> promotion list \<Rightarrow> promotion list res" where
  "createPromotion newId branchId dto ps =
     (case (toMinutes (dp_startTime dto), toMinutes (dp_endTime dto)) of
        (Some st, Some en) \<Rightarrow>
          Inr (ps @ [\<lparr>pm_id = newId, pm_branchId = branchId, pm_name = dp_name dto,
             pm_kind = dp_kind dto, pm_value = to_column 100 (dp_value dto),
             pm_daysOfWeek = sort (uniq (dp_daysOfWeek dto)),
             pm_startMinute = st, pm_endMinute = en, pm_isActive = dp_isActive dto\<rparr>])
      | _ \<Rightarrow> Inl (PlainError ''not a number''))"

definition setPromotionActive :: "string \<Rightarrow> string \<Rightarrow> bool \<Rightarrow> promotion list \<Rightarrow> promotion list res" where
  "setPromotionActive branchId i b ps =
     (case find (\<lambda>p. pm_id p = i \<and> pm_branchId p = branchId) ps of
        None \<Rightarrow> Inl (NotFound ''Promotion not found'')
      | Some _ \<Rightarrow> Inr (upd_where (\<lambda>p. pm_id p = i) (\<lambda>p. p\<lparr>pm_isActive := b\<rparr>) ps))"

definition deletePromotion :: "string \<Rightarrow> string \<Rightarrow> promotion list \<Rightarrow> promotion list res" where
  "deletePromotion branchId i ps =
     (case find (\<lambda>p. pm_id p = i \<and> pm_branchId p = branchId) ps of
        None \<Rightarrow> Inl (NotFound ''Promotion not found'')
      | Some _ \<Rightarrow> Inr (del_where (\<lambda>p. pm_id p = i) ps))"

section \<open>The automatic discount of a bill\<close>

record checkout_discount =
  cd_amount :: num
  cd_couponId :: "string option"
  cd_couponCode :: "string option"
  cd_promotionName :: "string option"

definition promotionRuleOf :: "promotion \<Rightarrow> promotion_rule" where
  "promotionRuleOf p = \<lparr>pr_kind = pm_kind p, pr_value = cents (pm_value p), pr_daysOfWeek = pm_daysOfWeek p,
     pr_startMinute = pm_startMinute p, pr_endMinute = pm_endMinute p, pr_isActive = pm_isActive p\<rparr>"

definition couponRuleOf :: "coupon \<Rightarrow> coupon_rule" where
  "couponRuleOf c = \<lparr>cr_kind = cp_kind c, cr_value = cents (cp_value c),
     cr_minOrderAmount = cents (cp_minOrderAmount c),
     cr_maxDiscount = map_option cents (cp_maxDiscount c), cr_validFrom = cp_validFrom c,
     cr_validUntil = cp_validUntil c, cr_usageLimit = cp_usageLimit c,
     cr_usedCount = cp_usedCount c, cr_isActive = cp_isActive c\<rparr>"

fun bestPromotion ::
  "nat \<Rightarrow> nat \<Rightarrow> num \<Rightarrow> promotion list \<Rightarrow> checkout_discount \<Rightarrow> checkout_discount" where
  "bestPromotion day minute sub [] best = best"
| "bestPromotion day minute sub (p # ps) best =
     (if \<not> promotionActive (promotionRuleOf p) day minute
      then bestPromotion day minute sub ps best
      else (let amount = discountAmountOf (pm_kind p) (cents (pm_value p)) sub None in
            bestPromotion day minute sub ps
              (if cd_amount best < amount
               then \<lparr>cd_amount = amount, cd_couponId = None, cd_couponCode = None,
                     cd_promotionName = Some (pm_name p)\<rparr>
               else best)))"

definition resolveCheckoutDiscount ::
  "(int \<Rightarrow> nat \<times> nat) \<Rightarrow> promotion list \<Rightarrow> coupon list \<Rightarrow> string \<Rightarrow> num \<Rightarrow> string option \<Rightarrow> int \<Rightarrow> checkout_discount res" where
  "resolveCheckoutDiscount dayMinute promos coupons branchId sub couponCode now =
     (let (day, minute) = dayMinute now;
          rows = filter (\<lambda>p. pm_branchId p = branchId \<and> pm_isActive p) promos;
          best = bestPromotion day minute sub rows
                   \<lparr>cd_amount = 0, cd_couponId = None, cd_couponCode = None, cd_promotionName = None\<rparr>
      in ebind
          (if couponCode = None \<or> couponCode = Some '''' then Inr best
           else case findCouponByCode branchId (to_upper (trim (the couponCode))) coupons of
             None \<Rightarrow> Inl (BadRequest ''That coupon code is not valid'')
           | Some coupon \<Rightarrow>
               (case evaluateCoupon (couponRuleOf coupon) sub now of
                  Inl reason \<Rightarrow> Inl (BadRequest reason)
                | Inr amount \<Rightarrow>
                    Inr (if cd_amount best \<le> amount
                         then \<lparr>cd_amount = amount, cd_couponId = Some (cp_id coupon),
                               cd_couponCode = Some (cp_code coupon), cd_promotionName = None\<rparr>
                         else best)))
          (\<lambda>b. Inr (b\<lparr>cd_amount := round2 (cd_amount b)\<rparr>)))"

text \<open>The conditional \<open>UPDATE\<close> that counts one use.\<close>

definition redeemable :: "string \<Rightarrow> coupon \<Rightarrow> bool" where
  "redeemable i c \<longleftrightarrow> cp_id c = i \<and> cp_isActive c \<and>
     (case cp_usageLimit c of None \<Rightarrow> True | Some l \<Rightarrow> cp_usedCount c < l)"

definition redeemCoupon :: "string \<Rightarrow> coupon list \<Rightarrow> coupon list res" where
  "redeemCoupon i cs =
     (if count_where (redeemable i) cs = 0
      then Inl (Conflict ''This coupon has just been fully used'')
      else Inr (upd_where (redeemable i) (\<lambda>c. c\<lparr>cp_usedCount := cp_usedCount c + 1\<rparr>) cs))"

section \<open>Campaigns\<close>

datatype campaign_channel = SMS | EMAIL | WHATSAPP
datatype campaign_segment = ALL_CUSTOMERS | LOYAL | LAPSED | BIRTHDAY_MONTH

record campaign =
  cg_id :: string
  cg_branchId :: string
  cg_name :: string
  cg_channel :: campaign_channel
  cg_segment :: campaign_segment
  cg_message :: string
  cg_lastSentAt :: "int option"
  cg_lastSentCount :: "nat option"

text \<open>What the audience query reads of a customer: \<open>au_paidAt\<close> is \<open>billedAt\<close> of the paid orders, newest first.\<close>

record audience_row =
  au_branchId :: string
  au_name :: "string option"
  au_phone :: "string option"
  au_email :: "string option"
  au_birthdayMonth :: "nat option"
  au_marketingOptOut :: bool
  au_paidAt :: "int option list"

record recipient =
  rc_name :: string
  rc_contact :: string

definition contactOf :: "campaign_channel \<Rightarrow> audience_row \<Rightarrow> string option" where
  "contactOf ch r = (if ch = EMAIL then au_email r else au_phone r)"

definition picked :: "campaign_segment \<Rightarrow> nat \<Rightarrow> int \<Rightarrow> audience_row \<Rightarrow> bool" where
  "picked seg month now r =
     (case seg of
        ALL_CUSTOMERS \<Rightarrow> True
      | LOYAL \<Rightarrow> 5 \<le> length (au_paidAt r)
      | LAPSED \<Rightarrow> (case au_paidAt r of Some t # _ \<Rightarrow> t < now - 60 * 86400000 | _ \<Rightarrow> False)
      | BIRTHDAY_MONTH \<Rightarrow> au_birthdayMonth r = Some month)"

definition audience ::
  "(int \<Rightarrow> nat) \<Rightarrow> string \<Rightarrow> string \<Rightarrow> int \<Rightarrow> audience_row list \<Rightarrow> campaign list \<Rightarrow> (campaign \<times> recipient list) res" where
  "audience monthOf branchId i now custs cs =
     (case find (\<lambda>c. cg_id c = i \<and> cg_branchId c = branchId) cs of
        None \<Rightarrow> Inl (NotFound ''Campaign not found'')
      | Some c \<Rightarrow>
          Inr (c, map (\<lambda>r. \<lparr>rc_name = (case au_name r of Some n \<Rightarrow> n | None \<Rightarrow> ''''),
                            rc_contact = (case contactOf (cg_channel c) r of Some x \<Rightarrow> x | None \<Rightarrow> '''')\<rparr>)
                 (filter (picked (cg_segment c) (monthOf now) now)
                   (filter (\<lambda>r. au_branchId r = branchId \<and> \<not> au_marketingOptOut r \<and>
                                contactOf (cg_channel c) r \<noteq> None) custs))))"

text \<open>The check on the row read before, and the conditional \<open>updateMany\<close> that reserves the slot.\<close>

definition campaignGuard :: "int \<Rightarrow> campaign \<Rightarrow> recipient list \<Rightarrow> unit res" where
  "campaignGuard now c rs =
     (if (case cg_lastSentAt c of Some t \<Rightarrow> now - t < 3600000 | None \<Rightarrow> False)
      then Inl (BadRequest ''This campaign was sent less than an hour ago'')
      else if rs = [] then Inl (BadRequest ''No customers match this campaign yet'')
      else if 500 < length rs then Inl (BadRequest ''A campaign can reach at most 500 customers at once'')
      else Inr ())"

definition reservable :: "string \<Rightarrow> int \<Rightarrow> campaign \<Rightarrow> bool" where
  "reservable i now c \<longleftrightarrow> cg_id c = i \<and>
     (case cg_lastSentAt c of None \<Rightarrow> True | Some t \<Rightarrow> t < now - 3600000)"

definition reserveCampaign :: "string \<Rightarrow> int \<Rightarrow> campaign list \<Rightarrow> campaign list res" where
  "reserveCampaign i now cs =
     (if count_where (reservable i now) cs = 0
      then Inl (BadRequest ''This campaign is already being sent'')
      else Inr (upd_where (reservable i now)
                  (\<lambda>c. c\<lparr>cg_lastSentAt := Some now, cg_lastSentCount := Some 0\<rparr>) cs))"

definition releaseSlot :: "string \<Rightarrow> campaign list \<Rightarrow> campaign list" where
  "releaseSlot i cs = upd_where (\<lambda>c. cg_id c = i) (\<lambda>c. c\<lparr>cg_lastSentAt := None, cg_lastSentCount := None\<rparr>) cs"

text \<open>
  What \<open>send\<close> does: the answer, the rows after it and the messages handed out. The mail server's count
  of delivered messages (\<open>mailSent\<close>) and whether a webhook subscribes are arguments.
\<close>

record send_env =
  se_emailConfigured :: bool
  se_hasHook :: bool
  se_mailSent :: "recipient list \<Rightarrow> nat"

definition sendCampaign ::
  "send_env \<Rightarrow> (int \<Rightarrow> nat) \<Rightarrow> string \<Rightarrow> string \<Rightarrow> int \<Rightarrow> audience_row list \<Rightarrow> campaign list \<Rightarrow>
   nat res \<times> campaign list \<times> recipient list" where
  "sendCampaign env monthOf branchId i now custs cs =
     (case audience monthOf branchId i now custs cs of
        Inl e \<Rightarrow> (Inl e, cs, [])
      | Inr (c, rs) \<Rightarrow>
     (case campaignGuard now c rs of
        Inl e \<Rightarrow> (Inl e, cs, [])
      | Inr () \<Rightarrow>
     (case reserveCampaign (cg_id c) now cs of
        Inl e \<Rightarrow> (Inl e, cs, [])
      | Inr cs1 \<Rightarrow>
     (if cg_channel c = EMAIL \<and> \<not> se_emailConfigured env
      then (Inl (BadRequest ''Email is not set up on this server''), releaseSlot (cg_id c) cs1, [])
      else if cg_channel c \<noteq> EMAIL \<and> \<not> se_hasHook env
      then (Inl (BadRequest ''Sending needs a webhook''), releaseSlot (cg_id c) cs1, [])
      else (let n = (if cg_channel c = EMAIL then se_mailSent env rs else length rs) in
            (Inr n, upd_where (\<lambda>d. cg_id d = cg_id c) (\<lambda>d. d\<lparr>cg_lastSentCount := Some n\<rparr>) cs1, rs))))))"

section \<open>The discount that is given\<close>

definition promotionAmount :: "num \<Rightarrow> promotion \<Rightarrow> num" where
  "promotionAmount sub p = discountAmountOf (pm_kind p) (cents (pm_value p)) sub None"

definition marketing_ok :: "promotion list \<Rightarrow> coupon list \<Rightarrow> bool" where
  "marketing_ok ps cs \<longleftrightarrow> list_all (\<lambda>p. 0 \<le> pm_value p) ps \<and>
     list_all (\<lambda>c. 0 \<le> cp_value c \<and> (case cp_maxDiscount c of None \<Rightarrow> True | Some m \<Rightarrow> 0 \<le> m)) cs"

lemma promotionAmount_cents:
  assumes "0 \<le> pm_value p" "0 \<le> n" "in_range n"
  obtains d where "promotionAmount (cents n) p = cents d" "0 \<le> d" "d \<le> n"
  using discountAmountOf_cents[of "cents (pm_value p)" n None "pm_kind p"] assms
  by (auto simp: promotionAmount_def)

text \<open>The loop keeps the largest amount seen so far, in cents.\<close>

lemma bestPromotion_spec:
  assumes "list_all (\<lambda>p. 0 \<le> pm_value p) ps" "0 \<le> n" "in_range n" "cd_amount b = cents k" "0 \<le> k" "k \<le> n"
  shows "\<exists>d. cd_amount (bestPromotion day minute (cents n) ps b) = cents d \<and> k \<le> d \<and> d \<le> n \<and>
     (\<forall>p \<in> set ps. promotionActive (promotionRuleOf p) day minute \<longrightarrow> promotionAmount (cents n) p \<le> cents d) \<and>
     (bestPromotion day minute (cents n) ps b = b \<or>
      (\<exists>p \<in> set ps. promotionActive (promotionRuleOf p) day minute \<and> promotionAmount (cents n) p = cents d \<and>
         bestPromotion day minute (cents n) ps b =
           \<lparr>cd_amount = cents d, cd_couponId = None, cd_couponCode = None, cd_promotionName = Some (pm_name p)\<rparr>))"
  using assms
proof (induction ps arbitrary: b k)
  case (Cons p ps)
  show ?case
  proof (cases "promotionActive (promotionRuleOf p) day minute")
    case False
    then show ?thesis using Cons.IH[of b k] Cons.prems by auto
  next
    case True
    obtain a where a: "promotionAmount (cents n) p = cents a" "0 \<le> a" "a \<le> n"
      using promotionAmount_cents[of p n] Cons.prems by auto
    have rk: "in_range k" "in_range a" using Cons.prems a in_range_between by blast+
    let ?b = "\<lparr>cd_amount = cents a, cd_couponId = None, cd_couponCode = None, cd_promotionName = Some (pm_name p)\<rparr>"
    have step: "bestPromotion day minute (cents n) (p # ps) b =
        bestPromotion day minute (cents n) ps (if k < a then ?b else b)"
      using True a(1) Cons.prems(4) rk by (simp add: promotionAmount_def Let_def)
    show ?thesis
    proof (cases "k < a")
      case True
      from Cons.IH[of ?b a] Cons.prems a obtain d where
        d: "cd_amount (bestPromotion day minute (cents n) ps ?b) = cents d" "a \<le> d" "d \<le> n"
          "\<forall>q \<in> set ps. promotionActive (promotionRuleOf q) day minute \<longrightarrow> promotionAmount (cents n) q \<le> cents d"
          "bestPromotion day minute (cents n) ps ?b = ?b \<or>
           (\<exists>q \<in> set ps. promotionActive (promotionRuleOf q) day minute \<and> promotionAmount (cents n) q = cents d \<and>
             bestPromotion day minute (cents n) ps ?b =
             \<lparr>cd_amount = cents d, cd_couponId = None, cd_couponCode = None, cd_promotionName = Some (pm_name q)\<rparr>)"
        by auto
      have da: "cents a \<le> cents d" using d(2) by (rule dec_mono)
      have eq: "cents a = cents d" if "bestPromotion day minute (cents n) ps ?b = ?b"
        using d(1) that by simp
      show ?thesis unfolding step using True d da eq a(1) \<open>promotionActive _ day minute\<close>
        by (intro exI[of _ d]) auto
    next
      case False
      from Cons.IH[of b k] Cons.prems obtain d where
        d: "cd_amount (bestPromotion day minute (cents n) ps b) = cents d" "k \<le> d" "d \<le> n"
          "\<forall>q \<in> set ps. promotionActive (promotionRuleOf q) day minute \<longrightarrow> promotionAmount (cents n) q \<le> cents d"
          "bestPromotion day minute (cents n) ps b = b \<or>
           (\<exists>q \<in> set ps. promotionActive (promotionRuleOf q) day minute \<and> promotionAmount (cents n) q = cents d \<and>
             bestPromotion day minute (cents n) ps b =
             \<lparr>cd_amount = cents d, cd_couponId = None, cd_couponCode = None, cd_promotionName = Some (pm_name q)\<rparr>)"
        by auto
      have "cents a \<le> cents d" using False d(2) by (intro dec_mono) simp
      then show ?thesis unfolding step using False d a(1) by (intro exI[of _ d]) auto
    qed
  qed
qed (auto intro: exI[of _ 0])

definition no_discount :: checkout_discount where
  "no_discount = \<lparr>cd_amount = 0, cd_couponId = None, cd_couponCode = None, cd_promotionName = None\<rparr>"

lemma evaluateCoupon_cents:
  assumes "evaluateCoupon (couponRuleOf c) (cents n) now = Inr a" "0 \<le> n" "in_range n"
    "0 \<le> cp_value c" "\<And>m. cp_maxDiscount c = Some m \<Longrightarrow> 0 \<le> m"
  obtains d where "a = cents d" "0 < d" "d \<le> n"
proof -
  from evaluateCoupon_ok[OF assms(1)] have
    a: "a = discountAmountOf (cp_kind c) (cents (cp_value c)) (cents n) (map_option cents (cp_maxDiscount c))" "0 < a"
    by (simp_all add: couponRuleOf_def)
  have mx: "0 \<le> x" if "map_option cents (cp_maxDiscount c) = Some x" for x
    using assms(5) that by auto
  obtain d where d: "a = cents d" "0 \<le> d" "d \<le> n"
    using discountAmountOf_cents[OF dec_nonneg[OF assms(4)] assms(2,3) mx] a(1) by metis
  then have "0 < d" using a(2) assms in_range_between[OF d(2,3)] by simp
  then show ?thesis using that d by simp
qed

text \<open>Every way \<open>resolveCheckoutDiscount\<close> answers: the best promotion, or the coupon when it is at least as good.\<close>

lemma resolveCheckoutDiscount_InrE:
  assumes "resolveCheckoutDiscount dm ps cs br s code now = Inr b"
  defines "best \<equiv> bestPromotion (fst (dm now)) (snd (dm now)) s
      (filter (\<lambda>p. pm_branchId p = br \<and> pm_isActive p) ps) no_discount"
  shows "(b = best\<lparr>cd_amount := round2 (cd_amount best)\<rparr> \<and> (code = None \<or> code = Some '''' \<or>
           (\<exists>c a. findCouponByCode br (to_upper (trim (the code))) cs = Some c \<and>
              evaluateCoupon (couponRuleOf c) s now = Inr a \<and> a < cd_amount best))) \<or>
     (\<exists>c a. findCouponByCode br (to_upper (trim (the code))) cs = Some c \<and>
        evaluateCoupon (couponRuleOf c) s now = Inr a \<and> cd_amount best \<le> a \<and>
        b = \<lparr>cd_amount = round2 a, cd_couponId = Some (cp_id c), cd_couponCode = Some (cp_code c),
             cd_promotionName = None\<rparr>)"
  using assms
  by (auto simp: resolveCheckoutDiscount_def Let_def no_discount_def best_def ebind_Inr_iff not_le
      split: prod.splits if_splits option.splits sum.splits)

section \<open>Properties\<close>

text \<open>The best of the running promotions, in cents.\<close>

lemma bestPromotion_cents:
  assumes "marketing_ok ps cs" "0 \<le> n" "in_range n"
    "best = bestPromotion dy mi (cents n) (filter (\<lambda>p. pm_branchId p = br \<and> pm_isActive p) ps) no_discount"
  obtains e where "cd_amount best = cents e" "0 \<le> e" "e \<le> n" "cd_couponId best = None"
    "\<And>d. e \<le> d \<Longrightarrow> \<forall>p \<in> set ps. pm_branchId p = br \<and> promotionActive (promotionRuleOf p) dy mi \<longrightarrow>
       promotionAmount (cents n) p \<le> cents d"
proof -
  let ?rows = "filter (\<lambda>p. pm_branchId p = br \<and> pm_isActive p) ps"
  have rows: "list_all (\<lambda>p. 0 \<le> pm_value p) ?rows" using assms(1) by (auto simp: marketing_ok_def list_all_iff)
  from bestPromotion_spec[OF rows assms(2,3), of no_discount 0 dy mi] assms(2)
  obtain e where e: "cd_amount best = cents e" "0 \<le> e" "e \<le> n" "cd_couponId best = None"
    "\<forall>p \<in> set ?rows. promotionActive (promotionRuleOf p) dy mi \<longrightarrow> promotionAmount (cents n) p \<le> cents e"
    by (auto simp: no_discount_def assms(4))
  have act: "pm_isActive p" if "promotionActive (promotionRuleOf p) d m" for p d m
    using that by (simp add: promotionActive_def promotionRuleOf_def)
  show ?thesis
  proof (rule that[OF e(1-4)])
    fix d assume "e \<le> d"
    then show "\<forall>p \<in> set ps. pm_branchId p = br \<and> promotionActive (promotionRuleOf p) dy mi \<longrightarrow> promotionAmount (cents n) p \<le> cents d"
      using e(5) act dec_mono[of e d 100] by (auto intro: order_trans)
  qed
qed


definition sample_coupon :: coupon where
  "sample_coupon = \<lparr>cp_id = ''c1'', cp_branchId = ''b1'', cp_code = ''TEN'', cp_kind = FLAT, cp_value = 1000,
     cp_minOrderAmount = 0, cp_maxDiscount = None, cp_validFrom = None, cp_validUntil = None,
     cp_usageLimit = Some 1, cp_usedCount = 0, cp_isActive = True\<rparr>"


text \<open>C5: however often and in whatever order coupons are redeemed, a coupon with a usage limit is never
  counted beyond it, and each accepted redemption counts exactly one use of exactly that coupon.\<close>

theorem coupon_limit_respected:
  assumes "foldE redeemCoupon ids cs = Inr cs'" "keyed cp_id cs"
    "\<forall>c \<in> set cs. \<forall>l. cp_usageLimit c = Some l \<longrightarrow> cp_usedCount c \<le> l"
  shows "(\<forall>c \<in> set cs'. \<forall>l. cp_usageLimit c = Some l \<longrightarrow> cp_usedCount c \<le> l) \<and>
     map (\<lambda>c. (cp_id c, cp_usedCount c)) cs' =
     map (\<lambda>c. (cp_id c, cp_usedCount c + int (count_list ids (cp_id c)))) cs"
  using assms
proof (induction ids arbitrary: cs)
  case (Cons i ids)
  then obtain cs1 where r: "redeemCoupon i cs = Inr cs1" "foldE redeemCoupon ids cs1 = Inr cs'"
    by (auto simp: ebind_Inr_iff)
  then have cs1: "cs1 = upd_where (redeemable i) (\<lambda>c. c\<lparr>cp_usedCount := cp_usedCount c + 1\<rparr>) cs"
    and "filter (redeemable i) cs \<noteq> []"
    by (auto simp: redeemCoupon_def count_where_def split: if_splits)
  then obtain c0 where c0: "c0 \<in> set cs" "redeemable i c0" by (auto simp: filter_empty_conv)
  have iff: "redeemable i c \<longleftrightarrow> cp_id c = i" if "c \<in> set cs" for c
    using keyed_unique[OF Cons.prems(2) that c0(1)] c0(2) by (auto simp: redeemable_def)
  have k: "keyed cp_id cs1" using Cons.prems(2) by (simp add: cs1 row_simps)
  have l: "\<forall>c \<in> set cs1. \<forall>l. cp_usageLimit c = Some l \<longrightarrow> cp_usedCount c \<le> l"
    using Cons.prems(3) by (auto simp: cs1 row_simps redeemable_def)
  have m: "map (\<lambda>c. (cp_id c, cp_usedCount c + x (cp_id c))) cs1 =
     map (\<lambda>c. (cp_id c, cp_usedCount c + (if cp_id c = i then 1 else 0) + x (cp_id c))) cs" for x
    using iff by (auto simp: cs1 upd_where_def)
  show ?case using Cons.IH[OF r(2) k l] m[of "\<lambda>j. int (count_list ids j)"] by (auto intro!: map_cong)
qed auto

theorem coupon_limit_respected_witness:
  "\<exists>cs'. foldE redeemCoupon [''c1''] [sample_coupon] = Inr cs' \<and> map cp_usedCount cs' = [1] \<and>
     foldE redeemCoupon [''c1'', ''c1''] [sample_coupon] = Inl (Conflict ''This coupon has just been fully used'')"
proof -
  have r: "foldE redeemCoupon [''c1''] [sample_coupon] = Inr [sample_coupon\<lparr>cp_usedCount := 1\<rparr>]"
    "foldE redeemCoupon [''c1'', ''c1''] [sample_coupon] = Inl (Conflict ''This coupon has just been fully used'')"
    by code_simp+
  from coupon_limit_respected[OF r(1)] r show ?thesis by (simp add: keyed_def sample_coupon_def)
qed

text \<open>A campaign goes out at most once an hour: after a reservation at \<open>t\<close>, no reservation of it
  succeeds before a full hour has passed, whatever two requests have read before.\<close>

theorem campaign_once_an_hour:
  assumes "reserveCampaign i t cs = Inr cs1" "keyed cg_id cs" "t' \<le> t + 3600000"
  shows "reserveCampaign i t' cs1 = Inl (BadRequest ''This campaign is already being sent'')"
proof -
  from assms(1) have cs1: "cs1 = upd_where (reservable i t)
      (\<lambda>c. c\<lparr>cg_lastSentAt := Some t, cg_lastSentCount := Some 0\<rparr>) cs" and "filter (reservable i t) cs \<noteq> []"
    by (auto simp: reserveCampaign_def count_where_def split: if_splits)
  then obtain c0 where c0: "c0 \<in> set cs" "reservable i t c0" by (auto simp: filter_empty_conv)
  have "c = c0" if "c \<in> set cs" "cg_id c = i" for c
    using keyed_unique[OF assms(2) that(1) c0(1)] that(2) c0(2) by (auto simp: reservable_def)
  then have "\<not> reservable i t' c" if "c \<in> set cs1" for c
    using that c0(2) assms(3) by (auto simp: cs1 row_simps reservable_def)
  then show ?thesis by (simp add: reserveCampaign_def count_where_def filter_empty_conv)
qed

theorem campaign_once_an_hour_witness:
  "\<exists>cs1. reserveCampaign ''k'' 5000000 [\<lparr>cg_id = ''k'', cg_branchId = ''b'', cg_name = ''n'', cg_channel = SMS,
      cg_segment = LOYAL, cg_message = ''m'', cg_lastSentAt = Some 0, cg_lastSentCount = None\<rparr>] = Inr cs1 \<and>
     reserveCampaign ''k'' 5000001 cs1 = Inl (BadRequest ''This campaign is already being sent'')"
proof -
  let ?c = "\<lparr>cg_id = ''k'', cg_branchId = ''b'', cg_name = ''n'', cg_channel = SMS,
      cg_segment = LOYAL, cg_message = ''m'', cg_lastSentAt = Some 0, cg_lastSentCount = None\<rparr>"
  have r: "reserveCampaign ''k'' 5000000 [?c] = Inr [?c\<lparr>cg_lastSentAt := Some 5000000, cg_lastSentCount := Some 0\<rparr>]"
    by code_simp
  show ?thesis using campaign_once_an_hour[OF r, of 5000001] r by (simp add: keyed_def)
qed

text \<open>A time of day survives being stored as minutes and shown again.\<close>

theorem minutes_roundtrip: "toMinutes (fromMinutes m) = Some m"
proof -
  have "split_on (CHR '':'') (fromMinutes m) =
      [pad_start 2 (digit 0) (nat_str (m div 60)), pad_start 2 (digit 0) (nat_str (m mod 60))]"
    unfolding fromMinutes_def
    using split_on_sep[OF colon_not_padded, of 2 "m div 60" "pad_start 2 (digit 0) (nat_str (m mod 60))"]
      split_on_plain[OF colon_not_padded, of 2 "m mod 60"] by simp
  then show ?thesis by (simp add: toMinutes_def)
qed

end
