(* ===== verification/Kot_Lifecycle.thy ===== *)
theory Kot_Lifecycle
  imports Prelude
begin

text \<open>
  The kitchen-ticket state machine: \<open>packages/types/src/order-lifecycle.ts\<close>. The transition table is a
  function, the machine a step relation; the lemmas say that a ticket only moves forward, that it never
  leaves a terminal state, that the machine is strongly normalising with a bound on its length, and that
  the kitchen progress of an order is its slowest live ticket.
\<close>

datatype kot_status = NEW | ACCEPTED | PREPARING | READY | SERVED | CANCELLED | REJECTED

fun KOT_TRANSITIONS :: "kot_status \<Rightarrow> kot_status list" where
  "KOT_TRANSITIONS NEW = [ACCEPTED, REJECTED, CANCELLED]"
| "KOT_TRANSITIONS ACCEPTED = [PREPARING, REJECTED, CANCELLED]"
| "KOT_TRANSITIONS PREPARING = [READY, REJECTED, CANCELLED]"
| "KOT_TRANSITIONS READY = [SERVED, CANCELLED]"
| "KOT_TRANSITIONS SERVED = []"
| "KOT_TRANSITIONS CANCELLED = []"
| "KOT_TRANSITIONS REJECTED = []"

definition KOT_TERMINAL_STATUSES :: "kot_status list" where
  "KOT_TERMINAL_STATUSES = [SERVED, CANCELLED, REJECTED]"

definition KOT_VOID_STATUSES :: "kot_status list" where
  "KOT_VOID_STATUSES = [CANCELLED, REJECTED]"

definition KOT_STARTED_STATUSES :: "kot_status list" where
  "KOT_STARTED_STATUSES = [PREPARING, READY, SERVED]"

definition canTransitionKot :: "kot_status \<Rightarrow> kot_status \<Rightarrow> bool" where
  "canTransitionKot src dst \<longleftrightarrow> dst \<in> set (KOT_TRANSITIONS src)"

fun KOT_NEXT_STATUS :: "kot_status \<Rightarrow> kot_status option" where
  "KOT_NEXT_STATUS NEW = Some ACCEPTED"
| "KOT_NEXT_STATUS ACCEPTED = Some PREPARING"
| "KOT_NEXT_STATUS PREPARING = Some READY"
| "KOT_NEXT_STATUS READY = Some SERVED"
| "KOT_NEXT_STATUS _ = None"

fun PROGRESS_RANK :: "kot_status \<Rightarrow> nat option" where
  "PROGRESS_RANK NEW = Some 0"
| "PROGRESS_RANK ACCEPTED = Some 1"
| "PROGRESS_RANK PREPARING = Some 2"
| "PROGRESS_RANK READY = Some 3"
| "PROGRESS_RANK SERVED = Some 4"
| "PROGRESS_RANK _ = None"

definition kitchenProgress :: "kot_status list \<Rightarrow> kot_status option" where
  "kitchenProgress statuses =
     (let live = filter (\<lambda>s. PROGRESS_RANK s \<noteq> None) statuses in
      case live of
        [] \<Rightarrow> None
      | s0 # rest \<Rightarrow>
          Some (foldl (\<lambda>slowest s. if the (PROGRESS_RANK s) < the (PROGRESS_RANK slowest)
                                   then s else slowest) s0 rest))"

section \<open>The statuses as an ordered type\<close>

text \<open>The constructors in declaration order; used wherever a set of statuses is sorted or compared.\<close>

fun status_index :: "kot_status \<Rightarrow> nat" where
  "status_index NEW = 0" | "status_index ACCEPTED = 1" | "status_index PREPARING = 2"
| "status_index READY = 3" | "status_index SERVED = 4" | "status_index CANCELLED = 5"
| "status_index REJECTED = 6"

lemma status_index_inj: "status_index a = status_index b \<Longrightarrow> a = b"
  by (cases a; cases b) auto

instantiation kot_status :: linorder
begin

definition less_eq_kot_status :: "kot_status \<Rightarrow> kot_status \<Rightarrow> bool" where
  "less_eq_kot_status a b \<longleftrightarrow> status_index a \<le> status_index b"

definition less_kot_status :: "kot_status \<Rightarrow> kot_status \<Rightarrow> bool" where
  "less_kot_status a b \<longleftrightarrow> status_index a < status_index b"

instance
  by standard (auto simp: less_eq_kot_status_def less_kot_status_def intro: status_index_inj)

end

section \<open>The machine\<close>

inductive kot_step :: "kot_status \<Rightarrow> kot_status \<Rightarrow> bool" where
  advance: "KOT_NEXT_STATUS s = Some t \<Longrightarrow> kot_step s t"
| cancel: "s \<notin> set KOT_TERMINAL_STATUSES \<Longrightarrow> kot_step s CANCELLED"
| reject: "s \<in> {NEW, ACCEPTED, PREPARING} \<Longrightarrow> kot_step s REJECTED"

inductive_cases kot_stepE: "kot_step s t"
inductive_simps kot_step_from: "kot_step s t"

text \<open>The table of the source is exactly this relation.\<close>

lemma canTransitionKot_step: "canTransitionKot s t \<longleftrightarrow> kot_step s t"
  by (cases s; cases t) (simp_all add: canTransitionKot_def kot_step_from KOT_TERMINAL_STATUSES_def)

lemma kot_step_increases: "kot_step s t \<Longrightarrow> s < t"
  by (cases s; cases t) (auto elim!: kot_stepE simp: KOT_TERMINAL_STATUSES_def less_kot_status_def)

lemma kot_terminal: "s \<in> set KOT_TERMINAL_STATUSES \<Longrightarrow> \<not> kot_step s t"
  by (cases s) (auto elim!: kot_stepE simp: KOT_TERMINAL_STATUSES_def)

lemma kot_steps_increase: "kot_step\<^sup>*\<^sup>* s t \<Longrightarrow> s \<le> t"
  by (induction rule: rtranclp_induct) (auto dest: kot_step_increases)

lemma kot_reach_started:
  "kot_step\<^sup>*\<^sup>* s t \<Longrightarrow> t \<in> {NEW, ACCEPTED} \<Longrightarrow> s \<in> {NEW, ACCEPTED}"
  using kot_steps_increase[of s t] by (cases s; cases t) (auto simp: less_eq_kot_status_def)

lemma kot_run_bound:
  "(kot_step ^^ n) s t \<Longrightarrow> status_index s + n \<le> status_index t"
proof (induction n arbitrary: t)
  case (Suc n)
  then obtain u where "(kot_step ^^ n) s u" "kot_step u t" by auto
  then show ?case using Suc.IH[of u] kot_step_increases[of u t] by (simp add: less_kot_status_def)
qed simp

lemma kot_stuck_iff: "(\<nexists>t. kot_step s t) \<longleftrightarrow> s \<in> set KOT_TERMINAL_STATUSES"
  using kot_terminal by (cases s) (auto simp: kot_step_from KOT_TERMINAL_STATUSES_def)

section \<open>Progress\<close>

lemma slowest_fold:
  "foldl (\<lambda>slowest s. if the (PROGRESS_RANK s) < the (PROGRESS_RANK slowest) then s else slowest) s0 xs
     \<in> set (s0 # xs) \<and>
   (\<forall>x \<in> set (s0 # xs). the (PROGRESS_RANK (foldl (\<lambda>slowest s. if the (PROGRESS_RANK s) <
      the (PROGRESS_RANK slowest) then s else slowest) s0 xs)) \<le> the (PROGRESS_RANK x))"
proof (induction xs arbitrary: s0)
  case (Cons x xs)
  let ?s = "if the (PROGRESS_RANK x) < the (PROGRESS_RANK s0) then x else s0"
  show ?case using Cons.IH[of ?s] by (auto split: if_splits)
qed simp

lemma PROGRESS_RANK_inj: "PROGRESS_RANK s = Some n \<Longrightarrow> PROGRESS_RANK t = Some n \<Longrightarrow> s = t"
  by (cases s; cases t) auto

lemma live_iff: "PROGRESS_RANK s \<noteq> None \<longleftrightarrow> s \<notin> set KOT_VOID_STATUSES"
  by (cases s) (auto simp: KOT_VOID_STATUSES_def)

lemma kitchenProgress_None: "kitchenProgress ss = None \<longleftrightarrow> set ss \<subseteq> set KOT_VOID_STATUSES"
proof -
  have "kitchenProgress ss = None \<longleftrightarrow> filter (\<lambda>s. PROGRESS_RANK s \<noteq> None) ss = []"
    by (simp add: kitchenProgress_def Let_def split: list.splits)
  also have "\<dots> \<longleftrightarrow> (\<forall>s \<in> set ss. s \<in> set KOT_VOID_STATUSES)"
    by (auto simp only: filter_empty_conv live_iff not_not)
  finally show ?thesis by blast
qed

lemma kitchenProgress_Some:
  assumes "kitchenProgress ss = Some s"
  shows "s \<in> set ss \<and> s \<notin> set KOT_VOID_STATUSES \<and>
     (\<forall>t \<in> set ss. t \<notin> set KOT_VOID_STATUSES \<longrightarrow> the (PROGRESS_RANK s) \<le> the (PROGRESS_RANK t))"
proof -
  obtain s0 rest where l: "filter (\<lambda>s. PROGRESS_RANK s \<noteq> None) ss = s0 # rest"
    using assms by (auto simp: kitchenProgress_def Let_def split: list.splits)
  note f = slowest_fold[of s0 rest, folded l]
  have s: "s = foldl (\<lambda>slowest s. if the (PROGRESS_RANK s) < the (PROGRESS_RANK slowest) then s else slowest) s0 rest"
    using assms l by (simp add: kitchenProgress_def)
  show ?thesis using f live_iff unfolding s[symmetric] by auto
qed

section \<open>Properties\<close>

text \<open>The transition table is the intended machine: a ticket moves one step along
  NEW, ACCEPTED, PREPARING, READY, SERVED, or is cancelled while not finished, or is rejected before it is
  ready, and nothing else; a run has at most six steps and stops exactly in the terminal statuses.\<close>

theorem kot_machine:
  "(canTransitionKot s t \<longleftrightarrow> KOT_NEXT_STATUS s = Some t \<or>
      (t = CANCELLED \<and> s \<notin> set KOT_TERMINAL_STATUSES) \<or> (t = REJECTED \<and> s \<in> {NEW, ACCEPTED, PREPARING})) \<and>
   (((\<lambda>a b. canTransitionKot a b) ^^ n) s u \<longrightarrow> status_index s + n \<le> status_index u \<and> n \<le> 6) \<and>
   ((\<nexists>v. canTransitionKot s v) \<longleftrightarrow> s \<in> set KOT_TERMINAL_STATUSES)"
proof -
  have "status_index u \<le> 6" by (cases u) auto
  moreover have "canTransitionKot = kot_step" by (intro ext) (rule canTransitionKot_step)
  ultimately show ?thesis using kot_run_bound[of n s u] kot_stuck_iff[of s] kot_step_from[of s t]
    by auto
qed

theorem kot_machine_witness:
  "((\<lambda>a b. canTransitionKot a b) ^^ 2) NEW PREPARING \<and> status_index NEW + 2 \<le> status_index PREPARING"
proof -
  have "((\<lambda>a b. canTransitionKot a b) ^^ 2) NEW PREPARING"
    unfolding numeral_2_eq_2
    by (rule relpowp_Suc_I[OF relpowp_Suc_I[of 0 _ NEW NEW ACCEPTED]]) (simp_all add: canTransitionKot_def)
  then show ?thesis using kot_machine[where s = NEW and n = 2 and u = PREPARING] by blast
qed

text \<open>The kitchen progress shown for an order is its slowest ticket that was not withdrawn, and there
  is none exactly when every ticket was withdrawn.\<close>

theorem kitchen_progress_slowest:
  "case kitchenProgress ss of
     None \<Rightarrow> set ss \<subseteq> {CANCELLED, REJECTED}
   | Some s \<Rightarrow> s \<in> set ss \<and> (\<forall>t \<in> set ss. t = CANCELLED \<or> t = REJECTED \<or> s \<le> t)"
proof (cases "kitchenProgress ss")
  case None
  then show ?thesis using kitchenProgress_None[of ss] by (simp add: KOT_VOID_STATUSES_def)
next
  case (Some s)
  have rank: "the (PROGRESS_RANK a) \<le> the (PROGRESS_RANK b) \<Longrightarrow> a \<le> b"
    if "a \<notin> set KOT_VOID_STATUSES" "b \<notin> set KOT_VOID_STATUSES" for a b
    using that by (cases a; cases b) (auto simp: KOT_VOID_STATUSES_def less_eq_kot_status_def)
  show ?thesis using Some kitchenProgress_Some[OF Some] rank by (auto simp: KOT_VOID_STATUSES_def)
qed

theorem kitchen_progress_slowest_witness:
  "kitchenProgress [READY, CANCELLED, ACCEPTED] = Some ACCEPTED \<and> ACCEPTED \<le> READY"
proof -
  have p: "kitchenProgress [READY, CANCELLED, ACCEPTED] = Some ACCEPTED" by code_simp
  show ?thesis using kitchen_progress_slowest[of "[READY, CANCELLED, ACCEPTED]"] p by auto
qed

end
