(* ===== verification/Stock_Plan.thy ===== *)
theory Stock_Plan
  imports Pricing "HOL-Library.AList"
begin

text \<open>
  Planning which stock a sale moves: \<open>modules/inventory/stock-plan.ts\<close>. A JavaScript \<open>Map\<close> that is
  iterated is an association list in insertion order; setting a key updates it in place or appends it,
  as \<open>AList.update\<close> does. The lemmas give the exact quantity planned for every ingredient, in integer
  thousandths, as a sum over the lines.
\<close>

datatype inventory_tracking = TRACK_NONE | TRACK_RECIPE | TRACK_DIRECT

record plan_item =
  pi_id :: string
  pi_name :: string
  pi_isCombo :: bool
  pi_tracking :: inventory_tracking
  pi_stockIngredientId :: "string option"
  pi_stockQuantityPerSale :: num
  pi_recipe :: "(string \<times> num) list"

record plan_combo =
  pc_comboItemId :: string
  pc_componentItemId :: string
  pc_quantity :: int

datatype skip_reason = NO_RECIPE | NO_STOCK_ITEM | UNKNOWN_ITEM

record skipped_item =
  sk_menuItemId :: string
  sk_name :: string
  sk_reason :: skip_reason

record stock_plan =
  needs :: "(string \<times> num) list"
  skipped :: "skipped_item list"

type_synonym sale_line = "string \<times> int"

definition componentsByCombo :: "plan_combo list \<Rightarrow> string \<Rightarrow> plan_combo list" where
  "componentsByCombo combos i = filter (\<lambda>c. pc_comboItemId c = i) combos"

definition addUnits :: "'k \<Rightarrow> int \<Rightarrow> ('k \<times> int) list \<Rightarrow> ('k \<times> int) list" where
  "addUnits i q us = AList.update i ((case map_of us i of Some u \<Rightarrow> u | None \<Rightarrow> 0) + q) us"

definition addLine ::
  "(string \<Rightarrow> plan_item option) \<Rightarrow> plan_combo list \<Rightarrow> (string \<times> int) list \<Rightarrow> sale_line \<Rightarrow> (string \<times> int) list" where
  "addLine items combos us line =
     (let (menuItemId, qty) = line in
      if qty \<le> 0 then us
      else case items menuItemId of
        Some item \<Rightarrow>
          if pi_isCombo item
          then foldl (\<lambda>u c. addUnits (pc_componentItemId c) (pc_quantity c * qty) u) us
                 (componentsByCombo combos (pi_id item))
          else addUnits menuItemId qty us
      | None \<Rightarrow> addUnits menuItemId qty us)"

definition need :: "(string \<times> num) list \<Rightarrow> string \<Rightarrow> num \<Rightarrow> (string \<times> num) list" where
  "need ns i q = AList.update i (round3 (fadd (case map_of ns i of Some n \<Rightarrow> n | None \<Rightarrow> 0) q)) ns"

definition planUnit :: "(string \<Rightarrow> plan_item option) \<Rightarrow> stock_plan \<Rightarrow> string \<times> int \<Rightarrow> stock_plan" where
  "planUnit items p u =
     (let (i, sold) = u in
      case items i of
        None \<Rightarrow> p\<lparr>skipped := skipped p @ [\<lparr>sk_menuItemId = i, sk_name = i, sk_reason = UNKNOWN_ITEM\<rparr>]\<rparr>
      | Some item \<Rightarrow>
          (case pi_tracking item of
             TRACK_NONE \<Rightarrow> p
           | TRACK_DIRECT \<Rightarrow>
               if pi_stockIngredientId item = None \<or> pi_stockIngredientId item = Some '''' \<or>
                  pi_stockQuantityPerSale item \<le> 0
               then p\<lparr>skipped := skipped p @
                       [\<lparr>sk_menuItemId = i, sk_name = pi_name item, sk_reason = NO_STOCK_ITEM\<rparr>]\<rparr>
               else p\<lparr>needs := need (needs p) (the (pi_stockIngredientId item))
                       (fmul (pi_stockQuantityPerSale item) (of_int sold))\<rparr>
           | TRACK_RECIPE \<Rightarrow>
               if pi_recipe item = []
               then p\<lparr>skipped := skipped p @
                       [\<lparr>sk_menuItemId = i, sk_name = pi_name item, sk_reason = NO_RECIPE\<rparr>]\<rparr>
               else p\<lparr>needs := foldl (\<lambda>ns (g, q). need ns g (fmul q (of_int sold))) (needs p) (pi_recipe item)\<rparr>))"

definition planStockUsage ::
  "sale_line list \<Rightarrow> (string \<Rightarrow> plan_item option) \<Rightarrow> plan_combo list \<Rightarrow> stock_plan" where
  "planStockUsage lines items combos =
     foldl (planUnit items) \<lparr>needs = [], skipped = []\<rparr> (foldl (addLine items combos) [] lines)"

section \<open>What the plan means\<close>

text \<open>The units a line sells, combos expanded, and the thousandths one sold unit takes of an ingredient.\<close>

definition expand :: "(string \<Rightarrow> plan_item option) \<Rightarrow> plan_combo list \<Rightarrow> sale_line \<Rightarrow> (string \<times> int) list" where
  "expand items combos line =
     (if snd line \<le> 0 then []
      else case items (fst line) of
        Some item \<Rightarrow>
          if pi_isCombo item
          then map (\<lambda>c. (pc_componentItemId c, pc_quantity c * snd line)) (componentsByCombo combos (pi_id item))
          else [line]
      | None \<Rightarrow> [line])"

definition uses :: "plan_item \<Rightarrow> (string \<times> num) list" where
  "uses item = (case pi_tracking item of
      TRACK_NONE \<Rightarrow> []
    | TRACK_DIRECT \<Rightarrow>
        (if pi_stockIngredientId item = None \<or> pi_stockIngredientId item = Some '''' \<or>
            pi_stockQuantityPerSale item \<le> 0 then []
         else [(the (pi_stockIngredientId item), pi_stockQuantityPerSale item)])
    | TRACK_RECIPE \<Rightarrow> pi_recipe item)"

definition per_unit :: "(string \<Rightarrow> plan_item option) \<Rightarrow> string \<Rightarrow> string \<Rightarrow> int" where
  "per_unit items g i = (case items i of None \<Rightarrow> 0
     | Some item \<Rightarrow> sum_list (map (\<lambda>(h, q). if h = g then units 1000 q else 0) (uses item)))"

definition weighted :: "('a \<Rightarrow> int) \<Rightarrow> ('a \<times> int) list \<Rightarrow> int" where
  "weighted w us = sum_list (map (\<lambda>(i, s). w i * s) us)"

definition line_need :: "(string \<Rightarrow> plan_item option) \<Rightarrow> plan_combo list \<Rightarrow> string \<Rightarrow> sale_line \<Rightarrow> int" where
  "line_need items combos g line = weighted (per_unit items g) (expand items combos line)"

definition total_need :: "(string \<Rightarrow> plan_item option) \<Rightarrow> plan_combo list \<Rightarrow> string \<Rightarrow> sale_line list \<Rightarrow> int" where
  "total_need items combos g lines = sum_list (map (line_need items combos g) lines)"

text \<open>Catalogue rows hold non-negative quantities in thousandths.\<close>

definition use_ok :: "string \<times> num \<Rightarrow> bool" where
  "use_ok u \<longleftrightarrow> snd u = milli (units 1000 (snd u)) \<and> 0 \<le> units 1000 (snd u)"

definition catalogue_ok :: "(string \<Rightarrow> plan_item option) \<Rightarrow> plan_combo list \<Rightarrow> bool" where
  "catalogue_ok items combos \<longleftrightarrow> (\<forall>i item. items i = Some item \<longrightarrow> (\<forall>u \<in> set (uses item). use_ok u)) \<and>
     (\<forall>c \<in> set combos. 0 \<le> pc_quantity c)"

section \<open>Units sold\<close>

lemma weighted_append: "weighted w (us @ vs) = weighted w us + weighted w vs"
  by (simp add: weighted_def)

lemma weighted_addUnits:
  "distinct (map fst us) \<Longrightarrow> weighted w (addUnits i q us) = weighted w us + w i * q"
proof (induction us)
  case (Cons u us)
  then have "map_of us i = None" if "fst u = i" using that by (auto simp: map_of_eq_None_iff)
  with Cons show ?case
    by (cases u) (auto simp: weighted_def addUnits_def distrib_left split: option.splits)
qed (simp add: weighted_def addUnits_def)

lemma distinct_addUnits: "distinct (map fst us) \<Longrightarrow> distinct (map fst (addUnits i q us))"
  by (simp add: addUnits_def distinct_update)

lemma addLine_expand:
  "addLine items combos us line = foldl (\<lambda>u (i, q). addUnits i q u) us (expand items combos line)"
  by (cases line) (auto simp: addLine_def expand_def foldl_map split: option.splits)

lemma foldl_addUnits:
  "distinct (map fst us) \<Longrightarrow>
   distinct (map fst (foldl (\<lambda>u (i, q). addUnits i q u) us es)) \<and>
   weighted w (foldl (\<lambda>u (i, q). addUnits i q u) us es) = weighted w us + weighted w es"
proof (induction es arbitrary: us)
  case (Cons e es)
  obtain i q where e: "e = (i, q)" by fastforce
  have "weighted w (e # es) = w i * q + weighted w es" by (simp add: weighted_def e)
  then show ?case using Cons.IH[OF distinct_addUnits[OF Cons.prems, of i q]]
    by (simp add: weighted_addUnits[OF Cons.prems] e)
qed (simp add: weighted_def)

lemma addLine_weighted:
  "distinct (map fst us) \<Longrightarrow> distinct (map fst (addLine items combos us line)) \<and>
     weighted w (addLine items combos us line) = weighted w us + weighted w (expand items combos line)"
  unfolding addLine_expand by (rule foldl_addUnits)

lemma sold_weighted:
  "distinct (map fst us) \<Longrightarrow> distinct (map fst (foldl (addLine items combos) us lines)) \<and>
   weighted w (foldl (addLine items combos) us lines) =
   weighted w us + sum_list (map (\<lambda>l. weighted w (expand items combos l)) lines)"
proof (induction lines arbitrary: us)
  case (Cons l lines)
  then show ?case using addLine_weighted[OF Cons.prems, of items combos l] by fastforce
qed simp

lemma addUnits_nonneg:
  "\<forall>u \<in> set us. 0 \<le> snd u \<Longrightarrow> 0 \<le> q \<Longrightarrow> \<forall>u \<in> set (addUnits i q us). 0 \<le> snd u"
proof -
  assume a: "\<forall>u \<in> set us. 0 \<le> snd u" "0 \<le> q"
  have "0 \<le> (case map_of us i of Some u \<Rightarrow> u | None \<Rightarrow> 0) + q"
    using a by (auto split: option.splits dest!: map_of_SomeD)
  moreover have "set (AList.update i x us) \<subseteq> insert (i, x) (set us)" for x
    by (induction us) auto
  ultimately show ?thesis unfolding addUnits_def using a(1) by fastforce
qed

lemma foldl_addUnits_nonneg:
  "\<forall>u \<in> set us. 0 \<le> snd u \<Longrightarrow> \<forall>e \<in> set es. 0 \<le> snd e \<Longrightarrow>
   \<forall>u \<in> set (foldl (\<lambda>u (i, q). addUnits i q u) us es). 0 \<le> snd u"
proof (induction es arbitrary: us)
  case (Cons e es)
  obtain i q where e: "e = (i, q)" by fastforce
  have q: "0 \<le> q" and es: "\<forall>e \<in> set es. 0 \<le> snd e" using Cons.prems(2) e by simp_all
  show ?case using Cons.IH[OF addUnits_nonneg[OF Cons.prems(1) q] es] by (simp add: e)
qed simp

lemma expand_nonneg: "catalogue_ok items combos \<Longrightarrow> \<forall>e \<in> set (expand items combos line). 0 \<le> snd e"
  by (auto simp: expand_def catalogue_ok_def componentsByCombo_def split: option.splits)

lemma addLine_nonneg:
  "catalogue_ok items combos \<Longrightarrow> \<forall>u \<in> set us. 0 \<le> snd u \<Longrightarrow>
   \<forall>u \<in> set (addLine items combos us line). 0 \<le> snd u"
  unfolding addLine_expand by (rule foldl_addUnits_nonneg) (auto dest: expand_nonneg)

lemma sold_nonneg:
  "catalogue_ok items combos \<Longrightarrow> \<forall>u \<in> set us. 0 \<le> snd u \<Longrightarrow>
   \<forall>u \<in> set (foldl (addLine items combos) us lines). 0 \<le> snd u"
proof (induction lines arbitrary: us)
  case (Cons l lines)
  then show ?case using Cons.IH[OF _ addLine_nonneg[OF Cons.prems(1,2)]] by simp
qed simp

section \<open>Needs\<close>

text \<open>The needs found so far, per ingredient, in thousandths.\<close>

definition holds :: "(string \<times> num) list \<Rightarrow> (string \<Rightarrow> int) \<Rightarrow> bool" where
  "holds ns t \<longleftrightarrow> distinct (map fst ns) \<and>
     (\<forall>g. case map_of ns g of Some x \<Rightarrow> x = milli (t g) | None \<Rightarrow> t g = 0)"

lemma holds_Nil [simp]: "holds [] (\<lambda>_. 0)" by (simp add: holds_def)

lemma need_holds:
  assumes "holds ns t" "use_ok (g, q)" "0 \<le> sold" "0 \<le> t g" "t g + units 1000 q * sold \<le> 10 ^ 12"
  shows "holds (need ns g (fmul q (of_int sold))) (t(g := t g + units 1000 q * sold))"
proof -
  let ?k = "units 1000 q"
  have q: "q = milli ?k" "0 \<le> ?k" using assms(2) by (auto simp: use_ok_def)
  have p: "0 \<le> ?k * sold" using q assms by simp
  have r: "in_range (t g)" "in_range (?k * sold)" "in_range (t g + ?k * sold)"
    using assms(4,5) p by (auto simp: in_range_def)
  have cur: "(case map_of ns g of Some n \<Rightarrow> n | None \<Rightarrow> 0) = milli (t g)"
    using assms(1) by (auto simp: holds_def split: option.splits dest: spec[of _ g])
  have "close 1000 (fadd (milli (t g)) (fmul (milli ?k) (of_int sold))) (t g + ?k * sold) (2 + 4 + 2)"
    using r by (intro close_fadd close_mult_int) auto
  then have "round3 (fadd (milli (t g)) (fmul q (of_int sold))) = milli (t g + ?k * sold)"
    using q(1) r unfolding round3_dp by (intro round_dp_close) auto
  moreover have old: "case map_of ns h of Some x \<Rightarrow> x = milli (t h) | None \<Rightarrow> t h = 0" for h
    using assms(1) by (simp add: holds_def)
  ultimately have "case map_of (need ns g (fmul q (of_int sold))) h of
      Some x \<Rightarrow> x = milli ((t(g := t g + ?k * sold)) h)
    | None \<Rightarrow> (t(g := t g + ?k * sold)) h = 0" for h
    using old[of h] unfolding need_def cur by (cases "map_of ns h") (simp_all add: update_conv')
  then show ?thesis using assms(1) by (simp add: holds_def need_def distinct_update)
qed

lemma foldl_need_holds:
  assumes "holds ns t" "\<forall>u \<in> set us. use_ok u" "0 \<le> sold" "\<forall>g. 0 \<le> t g"
    "\<forall>g. t g + sum_list (map (\<lambda>(h, q). if h = g then units 1000 q else 0) us) * sold \<le> 10 ^ 12"
  shows "holds (foldl (\<lambda>ns (g, q). need ns g (fmul q (of_int sold))) ns us)
     (\<lambda>g. t g + sum_list (map (\<lambda>(h, q). if h = g then units 1000 q else 0) us) * sold)"
  using assms
proof (induction us arbitrary: ns t)
  case (Cons u us)
  obtain g q where u: "u = (g, q)" by fastforce
  let ?S = "\<lambda>g. sum_list (map (\<lambda>(h, q). if h = g then units 1000 q else 0) us)"
  let ?t = "t(g := t g + units 1000 q * sold)"
  have k: "0 \<le> units 1000 q" and ok: "use_ok (g, q)" using Cons.prems(2) u by (auto simp: use_ok_def)
  have S: "0 \<le> ?S h" for h
    using Cons.prems(2) by (intro sum_list_nonneg) (auto simp: use_ok_def split: if_splits)
  have tot: "t h + (if h = g then units 1000 q else 0) * sold + ?S h * sold \<le> 10 ^ 12" for h
    using Cons.prems(5)[rule_format, of h] u by (simp add: distrib_right split: if_splits)
  have "0 \<le> ?S g * sold" using S[of g] Cons.prems(3) by simp
  then have "t g + units 1000 q * sold \<le> 10 ^ 12" using tot[of g] by simp
  then have h: "holds (need ns g (fmul q (of_int sold))) ?t"
    using Cons.prems k by (intro need_holds ok) auto
  have pos: "\<forall>h. 0 \<le> ?t h" using Cons.prems(3,4) k by simp
  have bnd: "\<forall>h. ?t h + ?S h * sold \<le> 10 ^ 12"
  proof
    fix h show "?t h + ?S h * sold \<le> 10 ^ 12" using tot[of h] by (simp split: if_splits)
  qed
  have "(\<lambda>h. ?t h + ?S h * sold) =
      (\<lambda>h. t h + sum_list (map (\<lambda>(h', q). if h' = h then units 1000 q else 0) (u # us)) * sold)"
    by (auto simp: u distrib_right)
  then show ?case using Cons.IH[OF h _ Cons.prems(3) pos bnd] Cons.prems(2) by (simp add: u)
qed simp

lemma planUnit_needs:
  "needs (planUnit items p (i, sold)) =
     (case items i of None \<Rightarrow> needs p
      | Some item \<Rightarrow> foldl (\<lambda>ns (g, q). need ns g (fmul q (of_int sold))) (needs p) (uses item))"
  by (auto simp: planUnit_def uses_def split: option.splits inventory_tracking.splits)

lemma planUnit_holds:
  assumes "holds (needs p) t" "catalogue_ok items combos" "0 \<le> sold" "\<forall>g. 0 \<le> t g"
    "\<forall>g. t g + per_unit items g i * sold \<le> 10 ^ 12"
  shows "holds (needs (planUnit items p (i, sold))) (\<lambda>g. t g + per_unit items g i * sold)"
proof (cases "items i")
  case (Some item)
  then show ?thesis using foldl_need_holds[of "needs p" t "uses item" sold] assms
    by (auto simp: planUnit_needs per_unit_def catalogue_ok_def)
qed (use assms in \<open>simp add: planUnit_needs per_unit_def\<close>)

lemma per_unit_nonneg: "catalogue_ok items combos \<Longrightarrow> 0 \<le> per_unit items g i"
  unfolding per_unit_def catalogue_ok_def
  by (fastforce split: option.splits simp: use_ok_def intro!: sum_list_nonneg)

lemma weighted_nonneg: "(\<And>i. 0 \<le> w i) \<Longrightarrow> \<forall>u \<in> set us. 0 \<le> snd u \<Longrightarrow> 0 \<le> weighted w us"
  unfolding weighted_def by (rule sum_list_nonneg) auto

lemma plan_holds:
  assumes "holds (needs p) t" "catalogue_ok items combos" "\<forall>u \<in> set us. 0 \<le> snd u" "\<forall>g. 0 \<le> t g"
    "\<forall>g. t g + weighted (per_unit items g) us \<le> 10 ^ 12"
  shows "holds (needs (foldl (planUnit items) p us)) (\<lambda>g. t g + weighted (per_unit items g) us)"
  using assms
proof (induction us arbitrary: p t)
  case (Cons u us)
  obtain i s where u: "u = (i, s)" by fastforce
  have s: "0 \<le> s" using Cons.prems(3) u by simp
  note nn = per_unit_nonneg[OF Cons.prems(2)]
  have W: "0 \<le> weighted (per_unit items g) us" for g
    using Cons.prems(3) nn by (intro weighted_nonneg) auto
  have tot: "t g + per_unit items g i * s + weighted (per_unit items g) us \<le> 10 ^ 12" for g
    using Cons.prems(5)[rule_format, of g] u by (simp add: weighted_def)
  have "\<forall>g. t g + per_unit items g i * s \<le> 10 ^ 12" using tot W by (meson le_add_same_cancel1 order_trans)
  from planUnit_holds[OF Cons.prems(1,2) s Cons.prems(4) this]
  have h: "holds (needs (planUnit items p (i, s))) (\<lambda>g. t g + per_unit items g i * s)" .
  have "(\<lambda>g. t g + per_unit items g i * s + weighted (per_unit items g) us) =
     (\<lambda>g. t g + weighted (per_unit items g) (u # us))" by (simp add: u weighted_def add.assoc)
  then show ?case using Cons.IH[OF h Cons.prems(2)] Cons.prems(3,4) tot nn s u by simp
qed (simp add: weighted_def)

lemma planStockUsage_holds:
  assumes "catalogue_ok items combos" "\<forall>g. total_need items combos g lines \<le> 10 ^ 12"
  shows "holds (needs (planStockUsage lines items combos)) (\<lambda>g. total_need items combos g lines)"
proof -
  let ?us = "foldl (addLine items combos) [] lines"
  have w: "weighted (per_unit items g) ?us = total_need items combos g lines" for g
    using sold_weighted[of "[]" items combos lines] by (simp add: total_need_def weighted_def[of _ "[]"] line_need_def[abs_def])
  have nn: "\<forall>u \<in> set ?us. 0 \<le> snd u" using sold_nonneg[OF assms(1), of "[]"] by simp
  show ?thesis
    using plan_holds[of "\<lparr>needs = [], skipped = []\<rparr>" "\<lambda>_. 0" items combos ?us] assms nn
    by (simp add: planStockUsage_def w)
qed

section \<open>Properties\<close>

text \<open>C10: the plan of a sale moves, for every ingredient, exactly the sum over the sold lines of what their
  items use (recipe lines, or the directly tracked stock item, combos expanded into their components), to
  the thousandth; each ingredient appears once, and an ingredient without an entry needs nothing.\<close>

theorem stock_plan_exact:
  assumes "catalogue_ok items combos" "\<forall>g. total_need items combos g lines \<le> 10 ^ 12"
  shows "distinct (map fst (needs (planStockUsage lines items combos))) \<and>
     (case map_of (needs (planStockUsage lines items combos)) g of
        Some x \<Rightarrow> x = milli (total_need items combos g lines)
      | None \<Rightarrow> total_need items combos g lines = 0)"
  using planStockUsage_holds[OF assms] by (simp add: holds_def)

definition sample_menu :: "string \<Rightarrow> plan_item option" where
  "sample_menu i =
     (if i = ''tea'' then Some \<lparr>pi_id = ''tea'', pi_name = ''Tea'', pi_isCombo = False, pi_tracking = TRACK_RECIPE,
        pi_stockIngredientId = None, pi_stockQuantityPerSale = milli 1000,
        pi_recipe = [(''leaf'', milli 3), (''milk'', milli 150)]\<rparr>
      else if i = ''set'' then Some \<lparr>pi_id = ''set'', pi_name = ''Set'', pi_isCombo = True, pi_tracking = TRACK_NONE,
        pi_stockIngredientId = None, pi_stockQuantityPerSale = milli 1000, pi_recipe = []\<rparr>
      else None)"

definition sample_combos :: "plan_combo list" where
  "sample_combos = [\<lparr>pc_comboItemId = ''set'', pc_componentItemId = ''tea'', pc_quantity = 2\<rparr>]"

lemma sample_menu_ok: "catalogue_ok sample_menu sample_combos"
  by (auto simp: catalogue_ok_def sample_menu_def sample_combos_def uses_def use_ok_def in_range_def split: if_splits)

lemma sample_need:
  "total_need sample_menu sample_combos g [(''tea'', 1), (''set'', 3)] =
     (if g = ''leaf'' then 21 else if g = ''milk'' then 1050 else 0)"
  by (simp add: total_need_def line_need_def weighted_def expand_def sample_menu_def sample_combos_def
      componentsByCombo_def per_unit_def uses_def in_range_def)

theorem stock_plan_exact_witness:
  "map_of (needs (planStockUsage [(''tea'', 1), (''set'', 3)] sample_menu sample_combos)) ''leaf'' = Some (milli 21)"
proof -
  have "\<forall>g. total_need sample_menu sample_combos g [(''tea'', 1), (''set'', 3)] \<le> 10 ^ 12"
    by (simp add: sample_need)
  from stock_plan_exact[OF sample_menu_ok this, of "''leaf''"] show ?thesis
    unfolding sample_need by (simp split: option.splits del: map_of_eq_Some_iff)
qed

end
