(* ===== verification/Ledger.thy ===== *)
theory Ledger
  imports Main "HOL-Library.Sublist"
begin

text \<open>
  The contract between a balance and its journal. Several components keep a running balance beside an
  append-only journal that explains it: ingredient stock and stock movements, a gift card and its
  redemptions, loyalty points and the points ledger. \<open>ledger\<close> states that every operation books exactly
  what it moves; \<open>capped_ledger\<close> adds that no operation takes a balance below zero. The consequences for
  a whole run of operations are proved once here and used through the interpretations.
\<close>

locale ledger =
  fixes bal :: "'s \<Rightarrow> 'k \<Rightarrow> int"
    and booked :: "'s \<Rightarrow> 'k \<Rightarrow> int"
    and step :: "'s \<Rightarrow> 's \<Rightarrow> bool"
  assumes step_books: "step s t \<Longrightarrow> bal t k - bal s k = booked t k - booked s k"
begin

lemma run_books: "step\<^sup>*\<^sup>* s t \<Longrightarrow> bal t k - bal s k = booked t k - booked s k"
proof (induction rule: rtranclp_induct)
  case (step t u)
  then show ?case using step_books[of t u k] by simp
qed simp

text \<open>A balance that the journal explains from its opening value is explained ever after.\<close>

lemma run_explained:
  assumes "step\<^sup>*\<^sup>* s t" "bal s k = opening k + booked s k"
  shows "bal t k = opening k + booked t k"
  using run_books[OF assms(1), of k] assms(2) by simp

lemma run_unbooked: "step\<^sup>*\<^sup>* s t \<Longrightarrow> booked t k = booked s k \<Longrightarrow> bal t k = bal s k"
  using run_books[of s t k] by simp

end

locale capped_ledger = ledger +
  assumes step_floor: "step s t \<Longrightarrow> 0 \<le> bal s k \<Longrightarrow> 0 \<le> bal t k"
begin

lemma run_floor: "step\<^sup>*\<^sup>* s t \<Longrightarrow> 0 \<le> bal s k \<Longrightarrow> 0 \<le> bal t k"
  by (induction rule: rtranclp_induct) (auto intro: step_floor)

text \<open>What is taken out over a run never exceeds what was there.\<close>

lemma run_outflow: "step\<^sup>*\<^sup>* s t \<Longrightarrow> 0 \<le> bal s k \<Longrightarrow> booked s k - booked t k \<le> bal s k"
  using run_books[of s t k] run_floor[of s t k] by simp

end

text \<open>
  The contract of a log: an operation only adds rows at the end and never changes the lasting part
  (\<open>core\<close>) of a row that is there.
\<close>

locale append_only =
  fixes rows :: "'s \<Rightarrow> 'r list"
    and core :: "'r \<Rightarrow> 'c"
    and step :: "'s \<Rightarrow> 's \<Rightarrow> bool"
  assumes step_appends: "step s t \<Longrightarrow> prefix (map core (rows s)) (map core (rows t))"
begin

lemma run_appends: "step\<^sup>*\<^sup>* s t \<Longrightarrow> prefix (map core (rows s)) (map core (rows t))"
  by (induction rule: rtranclp_induct) (auto intro: step_appends prefix_order.trans)

lemma run_split: "step\<^sup>*\<^sup>* s t \<Longrightarrow> \<exists>us. map core (rows t) = map core (rows s) @ us"
  using run_appends by (simp add: prefix_def)

lemma run_grows: "step\<^sup>*\<^sup>* s t \<Longrightarrow> length (rows s) \<le> length (rows t)"
  using run_appends prefix_length_le by fastforce

lemma run_nth: "step\<^sup>*\<^sup>* s t \<Longrightarrow> i < length (rows s) \<Longrightarrow> core (rows t ! i) = core (rows s ! i)"
proof -
  assume "step\<^sup>*\<^sup>* s t" and i: "i < length (rows s)"
  then obtain us where u: "map core (rows t) = map core (rows s) @ us" using run_split by blast
  have "i < length (rows t)" using run_grows[OF \<open>step\<^sup>*\<^sup>* s t\<close>] i by simp
  then show ?thesis using u i by (metis length_map nth_append nth_map)
qed

lemma run_keeps: "step\<^sup>*\<^sup>* s t \<Longrightarrow> r \<in> set (rows s) \<Longrightarrow> \<exists>r' \<in> set (rows t). core r' = core r"
  by (metis in_set_conv_nth run_nth run_grows order.strict_trans2)

text \<open>The first row that satisfies a condition on the lasting part stays the first one.\<close>

lemma run_find:
  assumes "step\<^sup>*\<^sup>* s t" "find (P \<circ> core) (rows s) = Some r"
  shows "\<exists>r'. find (P \<circ> core) (rows t) = Some r' \<and> core r' = core r"
proof -
  have f: "map_option core (find (P \<circ> core) xs) = find P (map core xs)" for xs by (induction xs) auto
  have a: "find P ys = Some x \<Longrightarrow> find P (ys @ zs) = Some x" for ys zs x by (induction ys) auto
  obtain us where "map core (rows t) = map core (rows s) @ us" using run_split[OF assms(1)] by blast
  then have "find P (map core (rows t)) = Some (core r)"
    using a[of "map core (rows s)" "core r" us] f[of "rows s"] assms(2) by simp
  then show ?thesis using f[of "rows t"] by (cases "find (P \<circ> core) (rows t)") auto
qed

end

end
