(* ===== verification/Stock.thy ===== *)
theory Stock
  imports Stock_Plan Ledger
begin

text \<open>
  Stock of ingredients: \<open>modules/inventory/stock.service.ts\<close> (FIFO consumption, reversal of a sale,
  manual adjustment), \<open>waste.service.ts\<close> and the order hooks \<open>deductForOrder\<close>, \<open>restoreForReturn\<close> and
  \<open>planFor\<close> of \<open>inventory.service.ts\<close>. Quantities are integer thousandths in the rows (the
  \<open>Decimal(12, 3)\<close> columns) and doubles in the code; a unit cost is in ten-thousandths. Each operation
  runs in its caller's transaction with the ingredient row locked, so it is one function on the state.
  Rows in \<open>createdAt\<close> order are rows in list order.
\<close>

record ingredient =
  ig_id :: string
  ig_branchId :: string
  ig_name :: string
  ig_unit :: string
  ig_currentStock :: int
  ig_costPerUnit :: int

record stock_batch =
  sb_id :: string
  sb_branchId :: string
  sb_ingredientId :: string
  sb_quantityRemaining :: int
  sb_unitCost :: int
  sb_receivedAt :: int

datatype movement_type = RECEIPT | WASTE | ADJUSTMENT | CONSUMPTION | REVERSAL

record movement =
  mv_branchId :: string
  mv_ingredientId :: string
  mv_batchId :: "string option"
  mv_type :: movement_type
  mv_quantity :: int
  mv_orderId :: "string option"
  mv_createdById :: string

record stock_state =
  ss_ingredients :: "ingredient list"
  ss_batches :: "stock_batch list"
  ss_movements :: "movement list"

record portion =
  po_batchId :: "string option"
  po_quantity :: num
  po_unitCost :: num

text \<open>The options of a movement; the note is left out.\<close>

record move_opts =
  mo_type :: movement_type
  mo_userId :: string
  mo_allowNegative :: bool
  mo_orderId :: "string option"

definition findIngredient :: "string \<Rightarrow> string \<Rightarrow> stock_state \<Rightarrow> ingredient res" where
  "findIngredient branchId i s =
     (case find (\<lambda>g. ig_id g = i \<and> ig_branchId g = branchId) (ss_ingredients s) of
        None \<Rightarrow> Inl (NotFound ''Ingredient not found'') | Some g \<Rightarrow> Inr g)"

definition setStock :: "string \<Rightarrow> num \<Rightarrow> stock_state \<Rightarrow> stock_state" where
  "setStock i v s = s\<lparr>ss_ingredients := upd_where (\<lambda>g. ig_id g = i)
       (\<lambda>g. g\<lparr>ig_currentStock := to_column 1000 v\<rparr>) (ss_ingredients s)\<rparr>"

definition setRemaining :: "string \<Rightarrow> num \<Rightarrow> stock_state \<Rightarrow> stock_state" where
  "setRemaining i v s = s\<lparr>ss_batches := upd_where (\<lambda>b. sb_id b = i)
       (\<lambda>b. b\<lparr>sb_quantityRemaining := to_column 1000 v\<rparr>) (ss_batches s)\<rparr>"

definition addMovement ::
  "string \<Rightarrow> string \<Rightarrow> string option \<Rightarrow> movement_type \<Rightarrow> num \<Rightarrow> string option \<Rightarrow> string \<Rightarrow> stock_state \<Rightarrow> stock_state" where
  "addMovement branchId i batch ty q order user s = s\<lparr>ss_movements := ss_movements s @
      [\<lparr>mv_branchId = branchId, mv_ingredientId = i, mv_batchId = batch, mv_type = ty,
        mv_quantity = to_column 1000 q, mv_orderId = order, mv_createdById = user\<rparr>]\<rparr>"

section \<open>Consumption\<close>

text \<open>The loop over the batches read at the start: what is left to take, the portions and the state.\<close>

fun consumeBatches ::
  "string \<Rightarrow> string \<Rightarrow> move_opts \<Rightarrow> stock_batch list \<Rightarrow> num \<Rightarrow> stock_state \<Rightarrow> num \<times> portion list \<times> stock_state" where
  "consumeBatches branchId i opts [] remaining s = (remaining, [], s)"
| "consumeBatches branchId i opts (b # bs) remaining s =
     (if remaining \<le> 0 then (remaining, [], s)
      else (let consumeQty = min remaining (milli (sb_quantityRemaining b));
                s1 = setRemaining (sb_id b) (round3 (fsub (milli (sb_quantityRemaining b)) consumeQty)) s;
                s2 = addMovement branchId i (Some (sb_id b)) (mo_type opts) (- consumeQty)
                       (mo_orderId opts) (mo_userId opts) s1;
                (r, ps, s3) = consumeBatches branchId i opts bs (round3 (fsub remaining consumeQty)) s2
            in (r, \<lparr>po_batchId = Some (sb_id b), po_quantity = consumeQty,
                    po_unitCost = dec 10000 (sb_unitCost b)\<rparr> # ps, s3)))"

definition openBatches :: "string \<Rightarrow> string \<Rightarrow> stock_state \<Rightarrow> stock_batch list" where
  "openBatches branchId i s = sort_key sb_receivedAt
     (filter (\<lambda>b. sb_branchId b = branchId \<and> sb_ingredientId b = i \<and> 0 < sb_quantityRemaining b) (ss_batches s))"

definition availableStock :: "stock_batch list \<Rightarrow> ingredient \<Rightarrow> num" where
  "availableStock batches g =
     (if 0 < length batches then fsum (map (\<lambda>b. milli (sb_quantityRemaining b)) batches)
      else milli (ig_currentStock g))"

definition consumeStock ::
  "string \<Rightarrow> string \<Rightarrow> num \<Rightarrow> move_opts \<Rightarrow> stock_state \<Rightarrow> (portion list \<times> stock_state) res" where
  "consumeStock branchId i qty opts s =
     ebind (findIngredient branchId i s) (\<lambda>g.
     let batches = openBatches branchId i s in
     if availableStock batches g < qty \<and> \<not> mo_allowNegative opts
     then Inl (BadRequest ''Cannot consume more than is in stock'')
     else
       (let (remaining, ps, s1) = consumeBatches branchId i opts batches qty s;
            (ps', s2) =
              (if 0 < remaining
               then (ps @ [\<lparr>po_batchId = None, po_quantity = remaining, po_unitCost = dec 10000 (ig_costPerUnit g)\<rparr>],
                     addMovement branchId i None (mo_type opts) (- remaining) (mo_orderId opts) (mo_userId opts) s1)
               else (ps, s1))
        in Inr (ps', setStock i (round3 (fsub (milli (ig_currentStock g)) qty)) s2)))"

section \<open>Reversal\<close>

definition orderMoves :: "string \<Rightarrow> string \<Rightarrow> stock_state \<Rightarrow> movement list" where
  "orderMoves orderId i s =
     filter (\<lambda>m. mv_orderId m = Some orderId \<and> mv_ingredientId m = i) (ss_movements s)"

text \<open>What each batch gave up minus what earlier reversals returned to it.\<close>

definition addRoom :: "(string option \<times> num) list \<Rightarrow> movement \<Rightarrow> (string option \<times> num) list" where
  "addRoom room m =
     (let cur = (case map_of room (mv_batchId m) of Some x \<Rightarrow> x | None \<Rightarrow> 0) in
      if mv_type m = CONSUMPTION
      then AList.update (mv_batchId m) (round3 (fadd cur (- milli (mv_quantity m)))) room
      else if mv_type m = REVERSAL
      then AList.update (mv_batchId m) (round3 (fsub cur (milli (mv_quantity m)))) room
      else room)"

fun restoreBatches ::
  "string \<Rightarrow> string \<Rightarrow> string \<Rightarrow> string \<Rightarrow> (string option \<times> num) list \<Rightarrow> num \<Rightarrow> stock_state \<Rightarrow> stock_state" where
  "restoreBatches branchId i userId orderId [] remaining s = s"
| "restoreBatches branchId i userId orderId ((batchId, available) # rest) remaining s =
     (if remaining \<le> 0 then s
      else (let back = min remaining available in
            if back \<le> 0 then restoreBatches branchId i userId orderId rest remaining s
            else
              (let s1 = (case batchId of
                           None \<Rightarrow> s
                         | Some b \<Rightarrow>
                             (case find (\<lambda>x. sb_id x = b) (ss_batches s) of
                                None \<Rightarrow> s
                              | Some x \<Rightarrow> setRemaining (sb_id x)
                                           (round3 (fadd (milli (sb_quantityRemaining x)) back)) s));
                   s2 = addMovement branchId i batchId REVERSAL back (Some orderId) userId s1
               in restoreBatches branchId i userId orderId rest (round3 (fsub remaining back)) s2)))"

definition restoreStock ::
  "string \<Rightarrow> string \<Rightarrow> num \<Rightarrow> string \<Rightarrow> string \<Rightarrow> stock_state \<Rightarrow> (num \<times> stock_state) res" where
  "restoreStock branchId i qty userId orderId s =
     ebind (findIngredient branchId i s) (\<lambda>g.
     let moves = orderMoves orderId i s;
         consumed = fsum (map (\<lambda>m. - milli (mv_quantity m)) (filter (\<lambda>m. mv_type m = CONSUMPTION) moves));
         reversed = fsum (map (\<lambda>m. milli (mv_quantity m)) (filter (\<lambda>m. mv_type m = REVERSAL) moves));
         remaining = round3 (min qty (fsub consumed reversed))
     in if remaining \<le> 0 then Inr (0, s)
        else
          (let room = foldl addRoom [] moves;
               s1 = restoreBatches branchId i userId orderId (rev room) remaining s
           in Inr (remaining, setStock i (round3 (fadd (milli (ig_currentStock g)) remaining)) s1)))"

section \<open>Adjustment and waste\<close>

definition adjustStock :: "string \<Rightarrow> string \<Rightarrow> string \<Rightarrow> num \<Rightarrow> stock_state \<Rightarrow> stock_state res" where
  "adjustStock branchId userId i qty s =
     ebind (findIngredient branchId i s) (\<lambda>g.
     let newStock = round3 (fadd (milli (ig_currentStock g)) qty) in
     if newStock < 0 then Inl (BadRequest ''Adjustment would take stock below zero'')
     else Inr (addMovement branchId i None ADJUSTMENT qty None userId (setStock i newStock s)))"

record waste_log =
  wl_ingredientId :: string
  wl_batchId :: "string option"
  wl_quantity :: int
  wl_unitCost :: int

definition logWaste ::
  "string \<Rightarrow> string \<Rightarrow> string \<Rightarrow> num \<Rightarrow> stock_state \<Rightarrow> (waste_log list \<times> stock_state) res" where
  "logWaste branchId userId i qty s =
     ebind (findIngredient branchId i s) (\<lambda>_.
     ebind (consumeStock branchId i qty
              \<lparr>mo_type = WASTE, mo_userId = userId, mo_allowNegative = False, mo_orderId = None\<rparr> s)
       (\<lambda>(ps, s'). Inr (map (\<lambda>p. \<lparr>wl_ingredientId = i, wl_batchId = po_batchId p,
            wl_quantity = to_column 1000 (po_quantity p), wl_unitCost = to_column 10000 (po_unitCost p)\<rparr>) ps, s')))"

section \<open>Selling and returning an order\<close>

text \<open>The rows \<open>planFor\<close> reads of the menu.\<close>

record menu_stock_row =
  ms_id :: string
  ms_name :: string
  ms_isCombo :: bool
  ms_tracking :: inventory_tracking
  ms_stockIngredientId :: "string option"
  ms_stockQuantityPerSale :: int
  ms_recipe :: "(string \<times> int) list"

definition planItemOf :: "menu_stock_row \<Rightarrow> plan_item" where
  "planItemOf m = \<lparr>pi_id = ms_id m, pi_name = ms_name m, pi_isCombo = ms_isCombo m,
     pi_tracking = ms_tracking m, pi_stockIngredientId = ms_stockIngredientId m,
     pi_stockQuantityPerSale = milli (ms_stockQuantityPerSale m),
     pi_recipe = map (\<lambda>(g, q). (g, milli q)) (ms_recipe m)\<rparr>"

definition planFor :: "menu_stock_row list \<Rightarrow> plan_combo list \<Rightarrow> sale_line list \<Rightarrow> stock_plan" where
  "planFor menu allCombos lines =
     (let ids = uniq (map fst lines);
          combos = filter (\<lambda>c. pc_comboItemId c \<in> set ids) allCombos;
          allIds = uniq (ids @ map pc_componentItemId combos);
          rows = filter (\<lambda>m. ms_id m \<in> set allIds) menu
      in planStockUsage lines (map_of (map (\<lambda>m. (ms_id m, planItemOf m)) rows)) combos)"

definition deductForOrder ::
  "menu_stock_row list \<Rightarrow> plan_combo list \<Rightarrow> string \<Rightarrow> string \<Rightarrow> string \<Rightarrow> sale_line list \<Rightarrow> stock_state \<Rightarrow>
   (skipped_item list \<times> stock_state) res" where
  "deductForOrder menu combos branchId userId orderId lines s =
     (if lines = [] then Inr ([], s)
      else if 0 < count_where (\<lambda>m. mv_orderId m = Some orderId \<and> mv_type m = CONSUMPTION) (ss_movements s)
      then Inr ([], s)
      else
        (let plan = planFor menu combos lines in
         ebind (foldE (\<lambda>(i, qty) s1.
                  if qty \<le> 0 then Inr s1
                  else ebind (consumeStock branchId i qty \<lparr>mo_type = CONSUMPTION, mo_userId = userId,
                                mo_allowNegative = True, mo_orderId = Some orderId\<rparr> s1)
                         (\<lambda>(_, s2). Inr s2))
                 (needs plan) s)
           (\<lambda>s'. Inr (skipped plan, s'))))"

definition restoreForReturn ::
  "menu_stock_row list \<Rightarrow> plan_combo list \<Rightarrow> string \<Rightarrow> string \<Rightarrow> string \<Rightarrow> sale_line list \<Rightarrow> stock_state \<Rightarrow>
   (num \<times> stock_state) res" where
  "restoreForReturn menu combos branchId userId orderId lines s =
     foldE (\<lambda>(i, qty) (restored, s1).
              ebind (restoreStock branchId i qty userId orderId s1) (\<lambda>(r, s2). Inr (fadd restored r, s2)))
       (needs (planFor menu combos lines)) (0, s)"

section \<open>Integer arithmetic of the operations\<close>

lemma round3_fsub_milli:
  "in_range n \<Longrightarrow> in_range m \<Longrightarrow> in_range (n - m) \<Longrightarrow> round3 (fsub (milli n) (milli m)) = milli (n - m)"
  by (simp add: round3_dp round_fsub)

lemma round3_fadd_milli:
  "in_range n \<Longrightarrow> in_range m \<Longrightarrow> in_range (n + m) \<Longrightarrow> round3 (fadd (milli n) (milli m)) = milli (n + m)"
  by (simp add: round3_dp round_fadd)

lemma min_milli: "in_range n \<Longrightarrow> in_range m \<Longrightarrow> min (milli n) (milli m) = milli (min n m)"
  by (simp add: min_def dec_le_iff)

lemma in_range_minus [simp]: "in_range (- n) = in_range n" by (simp add: in_range_def)

lemma to_column_neg_milli: "in_range n \<Longrightarrow> to_column 1000 (- milli n) = - n"
  using to_column_dec[of "- n" 1000] by (simp add: dec_minus)

definition stock_of :: "stock_state \<Rightarrow> string \<Rightarrow> int" where
  "stock_of s i = sum_list (map ig_currentStock (filter (\<lambda>g. ig_id g = i) (ss_ingredients s)))"

definition moved :: "stock_state \<Rightarrow> string \<Rightarrow> int" where
  "moved s i = sum_list (map mv_quantity (filter (\<lambda>m. mv_ingredientId m = i) (ss_movements s)))"

text \<open>Unique ids, and quantities that fit their columns.\<close>

definition stock_ok :: "stock_state \<Rightarrow> bool" where
  "stock_ok s \<longleftrightarrow> keyed ig_id (ss_ingredients s) \<and> keyed sb_id (ss_batches s) \<and>
     (\<forall>g \<in> set (ss_ingredients s). in_range (ig_currentStock g)) \<and>
     (\<forall>b \<in> set (ss_batches s). 0 \<le> sb_quantityRemaining b \<and> in_range (sb_quantityRemaining b)) \<and>
     (\<forall>m \<in> set (ss_movements s). in_range (mv_quantity m))"

lemma stock_of_keyed:
  "keyed ig_id (ss_ingredients s) \<Longrightarrow> g \<in> set (ss_ingredients s) \<Longrightarrow> stock_of s (ig_id g) = ig_currentStock g"
proof -
  assume k: "keyed ig_id (ss_ingredients s)" and g: "g \<in> set (ss_ingredients s)"
  have "filter (\<lambda>h. ig_id h = ig_id g) gs = [g]" if "keyed ig_id gs" "g \<in> set gs" for gs
    using that
  proof (induction gs)
    case (Cons h gs)
    then show ?case by (auto simp: keyed_def filter_empty_conv image_iff)
  qed simp
  from this[OF k g] show ?thesis by (simp add: stock_of_def)
qed

lemma stock_of_setStock:
  assumes "keyed ig_id (ss_ingredients s)" "findIngredient br i s = Inr g" "in_range n"
  shows "stock_of (setStock i (milli n) s) j = (if j = i then n else stock_of s j)"
proof -
  have g: "g \<in> set (ss_ingredients s)" "ig_id g = i"
    using assms(2) by (auto simp: findIngredient_def dest: find_SomeD split: option.splits)
  have k: "keyed ig_id (ss_ingredients (setStock i (milli n) s))"
    using assms(1) by (simp add: setStock_def row_simps)
  have mem: "g\<lparr>ig_currentStock := n\<rparr> \<in> set (ss_ingredients (setStock i (milli n) s))"
    using g assms(3) by (auto simp: setStock_def row_simps)
  show ?thesis
  proof (cases "j = i")
    case True
    then show ?thesis using stock_of_keyed[OF k mem] g by simp
  next
    case False
    then have "filter (\<lambda>h. ig_id h = j) (ss_ingredients (setStock i (milli n) s)) =
        filter (\<lambda>h. ig_id h = j) (ss_ingredients s)"
      by (simp add: setStock_def) (rule filter_upd_where_other, auto)
    then show ?thesis using False by (simp add: stock_of_def)
  qed
qed

lemma stock_sel [simp]:
  "ss_movements (setStock i v s) = ss_movements s" "ss_batches (setStock i v s) = ss_batches s"
  "ss_movements (setRemaining b v s) = ss_movements s" "ss_ingredients (setRemaining b v s) = ss_ingredients s"
  "ss_ingredients (addMovement br i bt ty q oid u s) = ss_ingredients s"
  "ss_batches (addMovement br i bt ty q oid u s) = ss_batches s"
  by (simp_all add: setStock_def setRemaining_def addMovement_def)

lemma stock_of_cong: "ss_ingredients s = ss_ingredients t \<Longrightarrow> stock_of s = stock_of t"
  by (simp add: stock_of_def fun_eq_iff)

lemma moved_cong: "ss_movements s = ss_movements t \<Longrightarrow> moved s = moved t"
  by (simp add: moved_def fun_eq_iff)

lemma moved_addMovement:
  "moved (addMovement br i bt ty q oid u s) j = moved s j + (if j = i then to_column 1000 q else 0)"
  by (simp add: moved_def addMovement_def)

section \<open>First in, first out\<close>

text \<open>The integer specification: what is taken from each open batch, oldest first.\<close>

fun fifo :: "int \<Rightarrow> stock_batch list \<Rightarrow> (stock_batch \<times> int) list" where
  "fifo r [] = []"
| "fifo r (b # bs) = (if r \<le> 0 then []
     else (b, min r (sb_quantityRemaining b)) # fifo (r - min r (sb_quantityRemaining b)) bs)"

definition taken :: "(stock_batch \<times> int) list \<Rightarrow> string \<Rightarrow> int" where
  "taken ts x = sum_list (map snd (filter (\<lambda>(b, k). sb_id b = x) ts))"

definition drain :: "(stock_batch \<times> int) list \<Rightarrow> stock_batch list \<Rightarrow> stock_batch list" where
  "drain ts = map (\<lambda>b. b\<lparr>sb_quantityRemaining := sb_quantityRemaining b - taken ts (sb_id b)\<rparr>)"

lemma fifo_total:
  "\<forall>b \<in> set bs. 0 \<le> sb_quantityRemaining b \<Longrightarrow> 0 \<le> r \<Longrightarrow>
   sum_list (map snd (fifo r bs)) = min r (sum_list (map sb_quantityRemaining bs))"
proof (induction bs arbitrary: r)
  case (Cons b bs)
  let ?k = "min r (sb_quantityRemaining b)"
  have "0 \<le> sum_list (map sb_quantityRemaining bs)" using Cons.prems by (intro sum_list_nonneg) auto
  then show ?case using Cons.IH[of "r - ?k"] Cons.prems by (auto simp: min_def)
qed simp

lemma fifo_amounts:
  "0 \<le> r \<Longrightarrow> \<forall>b \<in> set bs. 0 \<le> sb_quantityRemaining b \<Longrightarrow> \<forall>t \<in> set (fifo r bs). 0 \<le> snd t \<and> snd t \<le> r"
proof (induction bs arbitrary: r)
  case (Cons b bs)
  define k where "k = min r (sb_quantityRemaining b)"
  have k: "0 \<le> k" "k \<le> r" using Cons.prems by (auto simp: k_def)
  have IH: "\<forall>t \<in> set (fifo (r - k) bs). 0 \<le> snd t \<and> snd t \<le> r - k"
    using Cons.IH[of "r - k"] Cons.prems k by simp
  have "set (fifo r (b # bs)) \<subseteq> insert (b, k) (set (fifo (r - k) bs))" by (simp add: k_def)
  then show ?case using IH k by fastforce
qed simp

lemma fifo_sub: "set (map fst (fifo r bs)) \<subseteq> set bs"
  by (induction r bs rule: fifo.induct) auto

lemma taken_other: "x \<notin> set (map sb_id bs) \<Longrightarrow> taken (fifo r bs) x = 0"
proof -
  assume "x \<notin> set (map sb_id bs)"
  then have "filter (\<lambda>(b, k). sb_id b = x) (fifo r bs) = []"
    using fifo_sub[of r bs] by (auto simp: filter_empty_conv)
  then show ?thesis by (simp add: taken_def)
qed

lemma drain_Nil [simp]: "drain [] bs = bs" by (simp add: drain_def taken_def)

lemma drain_cong: "(\<And>b. b \<in> set bs \<Longrightarrow> taken ts (sb_id b) = 0) \<Longrightarrow> drain ts bs = bs"
  by (induction bs) (auto simp: drain_def)

text \<open>One batch drained in the state, then the rest.\<close>

lemma drain_step:
  assumes "keyed sb_id rows" "b \<in> set rows" "sb_id b \<notin> set (map sb_id bs)"
  shows "drain (fifo r bs) (upd_where (\<lambda>x. sb_id x = sb_id b)
      (\<lambda>x. x\<lparr>sb_quantityRemaining := sb_quantityRemaining b - k\<rparr>) rows) = drain ((b, k) # fifo r bs) rows"
proof -
  have "x = b" if "x \<in> set rows" "sb_id x = sb_id b" for x
    using keyed_unique[OF assms(1) that(1) assms(2) that(2)] .
  then show ?thesis using taken_other[OF assms(3), of r]
    by (auto simp: drain_def upd_where_def taken_def)
qed

definition mkMove :: "string \<Rightarrow> string \<Rightarrow> move_opts \<Rightarrow> stock_batch \<times> int \<Rightarrow> movement" where
  "mkMove br i opts = (\<lambda>(b, k). \<lparr>mv_branchId = br, mv_ingredientId = i, mv_batchId = Some (sb_id b),
     mv_type = mo_type opts, mv_quantity = - k, mv_orderId = mo_orderId opts, mv_createdById = mo_userId opts\<rparr>)"

definition mkPortion :: "stock_batch \<times> int \<Rightarrow> portion" where
  "mkPortion = (\<lambda>(b, k). \<lparr>po_batchId = Some (sb_id b), po_quantity = milli k, po_unitCost = dec 10000 (sb_unitCost b)\<rparr>)"

lemma consumeBatches_fifo:
  assumes "keyed sb_id (ss_batches s)" "distinct (map sb_id bs)" "set bs \<subseteq> set (ss_batches s)"
    "\<forall>b \<in> set bs. 0 < sb_quantityRemaining b \<and> in_range (sb_quantityRemaining b)" "0 \<le> r" "in_range r"
  shows "consumeBatches br i opts bs (milli r) s =
     (milli (r - sum_list (map snd (fifo r bs))), map mkPortion (fifo r bs),
      s\<lparr>ss_batches := drain (fifo r bs) (ss_batches s),
        ss_movements := ss_movements s @ map (mkMove br i opts) (fifo r bs)\<rparr>)"
  using assms
proof (induction bs arbitrary: r s)
  case (Cons b bs)
  show ?case
  proof (cases "r \<le> 0")
    case True
    then show ?thesis using Cons.prems by simp
  next
    case False
    let ?q = "sb_quantityRemaining b" and ?k = "min r (sb_quantityRemaining b)"
    have q: "0 < ?q" "in_range ?q" using Cons.prems(4) by auto
    have k: "0 < ?k" "in_range ?k" "in_range (?q - ?k)" "in_range (r - ?k)"
      using q False Cons.prems(6) by (auto simp: in_range_def min_def)
    have pos: "\<not> milli r \<le> 0" using False Cons.prems(6) by simp
    have mk: "min (milli r) (milli ?q) = milli ?k" using Cons.prems(6) q by (simp add: min_milli)
    have r1: "round3 (fsub (milli ?q) (milli ?k)) = milli (?q - ?k)"
      "round3 (fsub (milli r) (milli ?k)) = milli (r - ?k)"
      using q k Cons.prems(6) by (simp_all add: round3_fsub_milli)
    define t where "t = addMovement br i (Some (sb_id b)) (mo_type opts) (- milli ?k) (mo_orderId opts)
       (mo_userId opts) (setRemaining (sb_id b) (milli (?q - ?k)) s)"
    have tb: "ss_batches t = upd_where (\<lambda>x. sb_id x = sb_id b)
        (\<lambda>x. x\<lparr>sb_quantityRemaining := ?q - ?k\<rparr>) (ss_batches s)"
      using k by (simp add: t_def setRemaining_def)
    have tm: "ss_movements t = ss_movements s @ [mkMove br i opts (b, ?k)]"
      using k by (simp add: t_def addMovement_def mkMove_def to_column_neg_milli)
    have ti: "ss_ingredients t = ss_ingredients s" by (simp add: t_def)
    have b: "b \<in> set (ss_batches s)" "sb_id b \<notin> set (map sb_id bs)" using Cons.prems by auto
    have IH: "consumeBatches br i opts bs (milli (r - ?k)) t =
     (milli (r - ?k - sum_list (map snd (fifo (r - ?k) bs))), map mkPortion (fifo (r - ?k) bs),
      t\<lparr>ss_batches := drain (fifo (r - ?k) bs) (ss_batches t),
        ss_movements := ss_movements t @ map (mkMove br i opts) (fifo (r - ?k) bs)\<rparr>)"
    proof (rule Cons.IH)
      show "keyed sb_id (ss_batches t)" using Cons.prems(1) by (simp add: tb row_simps)
      show "set bs \<subseteq> set (ss_batches t)"
      proof
        fix x assume x: "x \<in> set bs"
        then have "sb_id x \<noteq> sb_id b" using b(2) by (metis imageI set_map)
        then show "x \<in> set (ss_batches t)" using x Cons.prems(3) by (simp add: tb row_simps subset_iff)
      qed
    qed (use Cons.prems k in auto)
    have dr: "drain (fifo (r - ?k) bs) (ss_batches t) = drain ((b, ?k) # fifo (r - ?k) bs) (ss_batches s)"
      unfolding tb by (rule drain_step[OF Cons.prems(1) b])
    have step: "consumeBatches br i opts (b # bs) (milli r) s =
      (let (r', ps, s') = consumeBatches br i opts bs (milli (r - ?k)) t
       in (r', mkPortion (b, ?k) # ps, s'))"
      using pos by (simp add: Let_def mk r1 t_def mkPortion_def)
    show ?thesis unfolding step IH using False dr tm ti
      by (simp add: diff_diff_eq)
  qed
qed simp

section \<open>What a consumption does\<close>

lemma openBatches_props:
  assumes "stock_ok s"
  shows "distinct (map sb_id (openBatches br i s))" "set (openBatches br i s) \<subseteq> set (ss_batches s)"
    "\<forall>b \<in> set (openBatches br i s). 0 < sb_quantityRemaining b \<and> in_range (sb_quantityRemaining b)"
    "sorted (map sb_receivedAt (openBatches br i s))"
proof -
  have "keyed sb_id (filter (\<lambda>b. sb_branchId b = br \<and> sb_ingredientId b = i \<and> 0 < sb_quantityRemaining b) (ss_batches s))"
    using assms by (auto simp: stock_ok_def)
  then show "distinct (map sb_id (openBatches br i s))"
    by (simp add: openBatches_def keyed_def distinct_map)
  show "set (openBatches br i s) \<subseteq> set (ss_batches s)" by (auto simp: openBatches_def)
  show "\<forall>b \<in> set (openBatches br i s). 0 < sb_quantityRemaining b \<and> in_range (sb_quantityRemaining b)"
    using assms by (auto simp: openBatches_def stock_ok_def)
  show "sorted (map sb_receivedAt (openBatches br i s))" by (simp add: openBatches_def)
qed

definition open_total :: "string \<Rightarrow> string \<Rightarrow> stock_state \<Rightarrow> int" where
  "open_total br i s = sum_list (map sb_quantityRemaining (openBatches br i s))"

text \<open>The integer effect: batches drained first in, first out, the rest booked without a batch.\<close>

definition consumed_state :: "string \<Rightarrow> string \<Rightarrow> int \<Rightarrow> move_opts \<Rightarrow> stock_state \<Rightarrow> stock_state" where
  "consumed_state br i q opts s =
     (let ts = fifo q (openBatches br i s); rest = q - sum_list (map snd ts) in
      s\<lparr>ss_ingredients := upd_where (\<lambda>g. ig_id g = i) (\<lambda>g. g\<lparr>ig_currentStock := stock_of s i - q\<rparr>) (ss_ingredients s),
        ss_batches := drain ts (ss_batches s),
        ss_movements := ss_movements s @ map (mkMove br i opts) ts @
          (if 0 < rest then [\<lparr>mv_branchId = br, mv_ingredientId = i, mv_batchId = None, mv_type = mo_type opts,
             mv_quantity = - rest, mv_orderId = mo_orderId opts, mv_createdById = mo_userId opts\<rparr>] else [])\<rparr>)"

lemma findIngredient_stock:
  "stock_ok s \<Longrightarrow> findIngredient br i s = Inr g \<Longrightarrow>
   g \<in> set (ss_ingredients s) \<and> ig_id g = i \<and> stock_of s i = ig_currentStock g \<and> in_range (ig_currentStock g)"
  using stock_of_keyed[of s g]
  by (auto simp: findIngredient_def stock_ok_def dest: find_SomeD split: option.splits)

lemma fifo_rest:
  assumes "stock_ok s" "0 \<le> q"
  shows "q - sum_list (map snd (fifo q (openBatches br i s))) = max 0 (q - open_total br i s)"
proof -
  have nn: "\<forall>b \<in> set (openBatches br i s). 0 \<le> sb_quantityRemaining b"
    using openBatches_props(3)[OF assms(1)] by force
  show ?thesis using fifo_total[OF nn assms(2)] by (simp add: open_total_def min_def max_def)
qed

lemma consumeStock_state:
  assumes ok: "stock_ok s" and q: "0 \<le> q" "in_range q" "in_range (stock_of s i - q)"
    and g: "findIngredient br i s = Inr g"
    and enough: "mo_allowNegative opts \<or> milli q \<le> availableStock (openBatches br i s) g"
  shows "\<exists>ps. consumeStock br i (milli q) opts s = Inr (ps, consumed_state br i q opts s) \<and>
     sum_list (map (\<lambda>p. units 1000 (po_quantity p)) ps) = q"
proof -
  let ?bs = "openBatches br i s"
  let ?ts = "fifo q ?bs"
  let ?rest = "q - sum_list (map snd ?ts)"
  note gs = findIngredient_stock[OF ok g]
  have kb: "keyed sb_id (ss_batches s)" using ok by (simp add: stock_ok_def)
  note cb = consumeBatches_fifo[OF kb openBatches_props(1-3)[OF ok, of br i] q(1,2), of br i opts]
  have nn: "\<forall>b \<in> set ?bs. 0 \<le> sb_quantityRemaining b" using openBatches_props(3)[OF ok] by force
  have tk: "in_range (snd t)" if "t \<in> set ?ts" for t
    using fifo_amounts[OF q(1) nn] that q(2) by (auto simp: in_range_def)
  have ru: "0 \<le> ?rest" "in_range ?rest"
  proof -
    have "0 \<le> sum_list (map sb_quantityRemaining ?bs)" using nn by (intro sum_list_nonneg) auto
    then show "0 \<le> ?rest" "in_range ?rest"
      using fifo_total[OF nn q(1)] q(1,2) by (simp_all add: in_range_def min_def)
  qed
  have mp: "map (\<lambda>x. units 1000 (po_quantity (mkPortion x))) ?ts = map snd ?ts"
    using tk by (auto simp: mkPortion_def split: prod.splits)
  have setS: "setStock i (round3 (fsub (milli (ig_currentStock g)) (milli q))) x =
      x\<lparr>ss_ingredients := upd_where (\<lambda>g. ig_id g = i) (\<lambda>g. g\<lparr>ig_currentStock := stock_of s i - q\<rparr>) (ss_ingredients x)\<rparr>" for x
    using gs q by (simp add: setStock_def round3_fsub_milli)
  have no: "\<not> (availableStock ?bs g < milli q \<and> \<not> mo_allowNegative opts)" using enough by auto
  have e: "consumeStock br i (milli q) opts s =
     Inr (map mkPortion ?ts @ (if 0 < ?rest then [\<lparr>po_batchId = None, po_quantity = milli ?rest,
            po_unitCost = dec 10000 (ig_costPerUnit g)\<rparr>] else []), consumed_state br i q opts s)"
    using no ru unfolding consumeStock_def g
    by (simp add: Let_def cb setS consumed_state_def addMovement_def to_column_neg_milli)
  show ?thesis unfolding e using ru by (simp add: mp comp_def)
qed

lemma taken_bounds:
  assumes "distinct (map sb_id bs)" "\<forall>b \<in> set bs. 0 \<le> sb_quantityRemaining b" "0 \<le> r"
  shows "0 \<le> taken (fifo r bs) x \<and> (\<forall>b \<in> set bs. sb_id b = x \<longrightarrow> taken (fifo r bs) x \<le> sb_quantityRemaining b)"
  using assms
proof (induction bs arbitrary: r)
  case (Cons b bs)
  show ?case
  proof (cases "r \<le> 0")
    case False
    let ?k = "min r (sb_quantityRemaining b)"
    have IH: "0 \<le> taken (fifo (r - ?k) bs) x \<and>
       (\<forall>b \<in> set bs. sb_id b = x \<longrightarrow> taken (fifo (r - ?k) bs) x \<le> sb_quantityRemaining b)"
      using Cons.IH[of "r - ?k"] Cons.prems by auto
    have t: "taken (fifo r (b # bs)) x = (if sb_id b = x then ?k else 0) + taken (fifo (r - ?k) bs) x"
      using False by (simp add: taken_def)
    have z: "sb_id b = x \<Longrightarrow> taken (fifo (r - ?k) bs) x = 0"
      using Cons.prems(1) by (intro taken_other) auto
    have k: "0 \<le> ?k" "?k \<le> sb_quantityRemaining b" using Cons.prems(2,3) by auto
    have d: "\<forall>c \<in> set bs. sb_id c \<noteq> sb_id b" using Cons.prems(1) by (metis distinct.simps(2) image_eqI list.set_map list.simps(9))
    show ?thesis unfolding t using IH z k d by auto
  qed (use Cons.prems in \<open>simp add: taken_def\<close>)
qed (simp add: taken_def)

lemma moved_mkMove: "sum_list (map mv_quantity (filter (\<lambda>m. mv_ingredientId m = j) (ms @ map (mkMove br i opts) ts))) =
   sum_list (map mv_quantity (filter (\<lambda>m. mv_ingredientId m = j) ms)) -
   (if j = i then sum_list (map snd ts) else 0)"
  by (induction ts) (auto simp: mkMove_def)

lemma consumed_state_books:
  assumes "stock_ok s" "findIngredient br i s = Inr g"
  shows "stock_of (consumed_state br i q opts s) j = stock_of s j - (if j = i then q else 0)"
    "moved (consumed_state br i q opts s) j = moved s j -
       (if j = i then sum_list (map snd (fifo q (openBatches br i s))) +
          max 0 (q - sum_list (map snd (fifo q (openBatches br i s)))) else 0)"
proof -
  note gs = findIngredient_stock[OF assms]
  have k: "keyed ig_id (ss_ingredients (consumed_state br i q opts s))"
    using assms(1) by (simp add: consumed_state_def Let_def stock_ok_def row_simps)
  have mem: "g\<lparr>ig_currentStock := stock_of s i - q\<rparr> \<in> set (ss_ingredients (consumed_state br i q opts s))"
    using gs by (auto simp: consumed_state_def Let_def row_simps)
  show "stock_of (consumed_state br i q opts s) j = stock_of s j - (if j = i then q else 0)"
  proof (cases "j = i")
    case True
    then show ?thesis using stock_of_keyed[OF k mem] gs by simp
  next
    case False
    then have "filter (\<lambda>h. ig_id h = j) (ss_ingredients (consumed_state br i q opts s)) =
        filter (\<lambda>h. ig_id h = j) (ss_ingredients s)"
      by (simp add: consumed_state_def Let_def) (rule filter_upd_where_other, auto)
    then show ?thesis using False by (simp add: stock_of_def)
  qed
  show "moved (consumed_state br i q opts s) j = moved s j -
       (if j = i then sum_list (map snd (fifo q (openBatches br i s))) +
          max 0 (q - sum_list (map snd (fifo q (openBatches br i s)))) else 0)"
    using moved_mkMove[of j "ss_movements s" br i opts "fifo q (openBatches br i s)"]
    by (auto simp: consumed_state_def Let_def moved_def max_def)
qed

section \<open>What a reversal does\<close>

text \<open>What an order still holds of an ingredient, per batch it was taken from: consumed minus returned.\<close>

definition journaled :: "movement \<Rightarrow> bool" where
  "journaled m \<longleftrightarrow> mv_type m = CONSUMPTION \<or> mv_type m = REVERSAL"

definition outstanding :: "movement list \<Rightarrow> string option \<Rightarrow> int" where
  "outstanding ms k = sum_list (map (\<lambda>m. - mv_quantity m) (filter (\<lambda>m. journaled m \<and> mv_batchId m = k) ms))"

definition outstanding_total :: "movement list \<Rightarrow> int" where
  "outstanding_total ms = sum_list (map (\<lambda>m. - mv_quantity m) (filter journaled ms))"

text \<open>Nothing was returned that was not taken: no order ever holds a negative amount from any batch.\<close>

definition reversal_ok :: "stock_state \<Rightarrow> bool" where
  "reversal_ok s \<longleftrightarrow> (\<forall>oid i k. 0 \<le> outstanding (orderMoves oid i s) k)"

definition rooms :: "movement list \<Rightarrow> (string option \<times> int) list" where
  "rooms ms = foldl (\<lambda>u m. if journaled m then addUnits (mv_batchId m) (- mv_quantity m) u else u) [] ms"

lemma rooms_snoc: "rooms (ms @ [m]) =
    (if journaled m then addUnits (mv_batchId m) (- mv_quantity m) (rooms ms) else rooms ms)"
  by (simp add: rooms_def)

lemma rooms_distinct: "distinct (map fst (rooms ms))"
  by (induction ms rule: rev_induct) (simp_all add: rooms_snoc distinct_addUnits, simp add: rooms_def)

lemma map_of_addUnits:
  "map_of (addUnits i q us) k = (if k = i then Some ((case map_of us i of Some u \<Rightarrow> u | None \<Rightarrow> 0) + q) else map_of us k)"
  by (simp add: addUnits_def update_conv')

lemma rooms_lookup: "(case map_of (rooms ms) k of Some n \<Rightarrow> n | None \<Rightarrow> 0) = outstanding ms k"
  by (induction ms rule: rev_induct)
    (auto simp: rooms_snoc outstanding_def map_of_addUnits, simp add: rooms_def)

lemma rooms_total: "sum_list (map snd (rooms ms)) = outstanding_total ms"
proof -
  have w: "sum_list (map snd us) = weighted (\<lambda>_. 1) us" for us :: "(string option \<times> int) list"
    by (induction us) (auto simp: weighted_def)
  have "weighted (\<lambda>_. 1) (rooms ms) = outstanding_total ms"
  proof (induction ms rule: rev_induct)
    case Nil
    then show ?case by (simp add: rooms_def weighted_def outstanding_total_def)
  next
    case (snoc m ms)
    then show ?case by (simp add: rooms_snoc outstanding_total_def weighted_addUnits[OF rooms_distinct])
  qed
  then show ?thesis by (simp add: w)
qed

lemma rooms_entry: "(k, n) \<in> set (rooms ms) \<Longrightarrow> n = outstanding ms k"
  using rooms_lookup[of ms k] rooms_distinct[of ms] by (auto simp: map_of_eq_Some_iff)

lemma abs_outstanding: "\<bar>outstanding ms k\<bar> \<le> sum_list (map (\<lambda>m. \<bar>mv_quantity m\<bar>) ms)"
  by (induction ms) (auto simp: outstanding_def)

lemma update_map_milli:
  "AList.update k (milli n) (map (\<lambda>(k, n). (k, milli n)) us) = map (\<lambda>(k, n). (k, milli n)) (AList.update k n us)"
  by (induction us) auto

lemma addRoom_milli:
  assumes "sum_list (map (\<lambda>m. \<bar>mv_quantity m\<bar>) (ms @ [m])) \<le> 10 ^ 12"
  shows "addRoom (map (\<lambda>(k, n). (k, milli n)) (rooms ms)) m = map (\<lambda>(k, n). (k, milli n)) (rooms (ms @ [m]))"
proof -
  let ?k = "mv_batchId m" and ?q = "mv_quantity m"
  have o: "\<bar>outstanding ms ?k\<bar> + \<bar>?q\<bar> \<le> 10 ^ 12" using abs_outstanding[of ms ?k] assms by simp
  then have r: "in_range (outstanding ms ?k)" "in_range ?q" "in_range (outstanding ms ?k - ?q)"
    by (auto simp: in_range_def)
  have mo: "map_of (map (\<lambda>(k, n). (k, milli n)) (rooms ms)) ?k = map_option milli (map_of (rooms ms) ?k)"
    by (simp add: map_of_map)
  have cur: "(case map_of (map (\<lambda>(k, n). (k, milli n)) (rooms ms)) ?k of Some x \<Rightarrow> x | None \<Rightarrow> 0) =
      milli (outstanding ms ?k)"
    unfolding mo rooms_lookup[symmetric] by (simp split: option.splits)
  have "round3 (fadd (milli (outstanding ms ?k)) (- milli ?q)) = milli (outstanding ms ?k - ?q)"
    using round3_fadd_milli[of "outstanding ms ?k" "- ?q"] r by (simp add: dec_minus)
  moreover have "round3 (fsub (milli (outstanding ms ?k)) (milli ?q)) = milli (outstanding ms ?k - ?q)"
    using r by (simp add: round3_fsub_milli)
  ultimately show ?thesis
    unfolding addRoom_def Let_def cur rooms_snoc addUnits_def rooms_lookup
    by (auto simp: update_map_milli journaled_def)
qed

lemma rooms_milli:
  "sum_list (map (\<lambda>m. \<bar>mv_quantity m\<bar>) ms) \<le> 10 ^ 12 \<Longrightarrow>
   foldl addRoom [] ms = map (\<lambda>(k, n). (k, milli n)) (rooms ms)"
proof (induction ms rule: rev_induct)
  case (snoc m ms)
  then have "sum_list (map (\<lambda>m. \<bar>mv_quantity m\<bar>) ms) \<le> 10 ^ 12" by simp
  then show ?case using snoc addRoom_milli[OF snoc.prems] by simp
qed (simp add: rooms_def)

text \<open>The integer specification of the loop that puts the units back.\<close>

fun put_back :: "int \<Rightarrow> (string option \<times> int) list \<Rightarrow> (string option \<times> int) list" where
  "put_back r [] = []"
| "put_back r ((k, a) # es) =
     (if r \<le> 0 then [] else if min r a \<le> 0 then put_back r es else (k, min r a) # put_back (r - min r a) es)"

lemma put_back_total:
  "0 \<le> r \<Longrightarrow> \<forall>e \<in> set es. 0 \<le> snd e \<Longrightarrow> sum_list (map snd (put_back r es)) = min r (sum_list (map snd es))"
proof (induction r es rule: put_back.induct)
  case (2 r k a es)
  have "0 \<le> sum_list (map snd es)" using "2.prems" by (intro sum_list_nonneg) auto
  then show ?case using 2 by (auto simp: min_def)
qed simp

definition returned :: "(string option \<times> int) list \<Rightarrow> string option \<Rightarrow> int" where
  "returned ps k = sum_list (map snd (filter (\<lambda>p. fst p = k) ps))"

lemma returned_Cons: "returned ((j, n) # ps) k = (if j = k then n else 0) + returned ps k"
  by (simp add: returned_def)

lemma returned_absent: "k \<notin> fst ` set es \<Longrightarrow> returned (put_back r es) k = 0"
  by (induction r es rule: put_back.induct) (auto simp: returned_def)

lemma returned_le:
  "distinct (map fst es) \<Longrightarrow> \<forall>e \<in> set es. 0 \<le> snd e \<Longrightarrow>
   returned (put_back r es) k \<le> (case map_of es k of Some n \<Rightarrow> n | None \<Rightarrow> 0) \<and> 0 \<le> returned (put_back r es) k"
proof (induction es arbitrary: r)
  case (Cons e es)
  obtain j a where e: "e = (j, a)" by fastforce
  have IH: "returned (put_back r' es) k \<le> (case map_of es k of Some n \<Rightarrow> n | None \<Rightarrow> 0) \<and> 0 \<le> returned (put_back r' es) k" for r'
    using Cons.IH[of r'] Cons.prems by simp
  have ab: "k = j \<Longrightarrow> returned (put_back r' es) k = 0" for r'
    using Cons.prems(1) e by (intro returned_absent) auto
  have a0: "0 \<le> a" "(case map_of es k of Some n \<Rightarrow> n | None \<Rightarrow> 0) \<ge> 0"
    using Cons.prems(2) e by (auto split: option.splits dest!: map_of_SomeD)
  have nil: "returned [] k' = 0" for k' by (simp add: returned_def)
  show ?case using IH[of r] IH[of "r - min r a"] ab a0 by (auto simp: e returned_Cons nil)
qed (simp add: returned_def)

text \<open>The loop in integers: batches get back what is returned to them, one movement per entry.\<close>

definition mkReversal :: "string \<Rightarrow> string \<Rightarrow> string \<Rightarrow> string \<Rightarrow> string option \<times> int \<Rightarrow> movement" where
  "mkReversal br i userId orderId = (\<lambda>(k, n). \<lparr>mv_branchId = br, mv_ingredientId = i, mv_batchId = k,
     mv_type = REVERSAL, mv_quantity = n, mv_orderId = Some orderId, mv_createdById = userId\<rparr>)"

definition refill :: "(string option \<times> int) list \<Rightarrow> stock_batch list \<Rightarrow> stock_batch list" where
  "refill ps = map (\<lambda>b. b\<lparr>sb_quantityRemaining := sb_quantityRemaining b + returned ps (Some (sb_id b))\<rparr>)"

lemma refill_Nil [simp]: "refill [] bs = bs" by (simp add: refill_def returned_def)

lemma refill_Cons:
  assumes "keyed sb_id bs"
  shows "refill ((k, n) # ps) bs = refill ps (case k of None \<Rightarrow> bs
     | Some x \<Rightarrow> (case find (\<lambda>b. sb_id b = x) bs of None \<Rightarrow> bs
        | Some b \<Rightarrow> upd_where (\<lambda>b. sb_id b = x) (\<lambda>c. c\<lparr>sb_quantityRemaining := sb_quantityRemaining b + n\<rparr>) bs))"
proof -
  note c = returned_Cons
  show ?thesis
  proof (cases k)
    case None
    then show ?thesis by (simp add: refill_def c)
  next
    case (Some x)
    show ?thesis
    proof (cases "find (\<lambda>b. sb_id b = x) bs")
      case None
      then have "\<forall>b \<in> set bs. sb_id b \<noteq> x" by (simp add: find_None_iff_ball)
      then show ?thesis using None Some by (auto simp: refill_def c)
    next
      case (Some b)
      then have b: "b \<in> set bs" "sb_id b = x" by (auto dest: find_SomeD)
      have "d = b" if "d \<in> set bs" "sb_id d = x" for d
        using keyed_unique[OF assms that(1) b(1)] that(2) b(2) by simp
      then show ?thesis using Some \<open>k = Some x\<close> by (auto simp: refill_def upd_where_def c)
    qed
  qed
qed

lemma restoreBatches_spec:
  assumes "keyed sb_id (ss_batches s)" "0 \<le> r" "\<forall>e \<in> set es. in_range (snd e)"
    "\<forall>b \<in> set (ss_batches s). 0 \<le> sb_quantityRemaining b \<and> sb_quantityRemaining b + r \<le> 10 ^ 12" "in_range r"
  shows "restoreBatches br i u oid (map (\<lambda>(k, n). (k, milli n)) es) (milli r) s =
     s\<lparr>ss_batches := refill (put_back r es) (ss_batches s),
       ss_movements := ss_movements s @ map (mkReversal br i u oid) (put_back r es)\<rparr>"
  using assms
proof (induction es arbitrary: r s)
  case (Cons e es)
  obtain k a where e: "e = (k, a)" by fastforce
  have ra: "in_range a" using Cons.prems(3) e by simp
  show ?case
  proof (cases "r \<le> 0")
    case True
    then show ?thesis using Cons.prems by (simp add: e)
  next
    case False
    then have pos: "\<not> milli r \<le> 0" using Cons.prems(5) by simp
    have mn: "min (milli r) (milli a) = milli (min r a)" using ra Cons.prems(5) by (simp add: min_milli)
    show ?thesis
    proof (cases "min r a \<le> 0")
      case True
      have rm: "in_range (min r a)" using ra Cons.prems(5) by (simp add: min_def)
      have "restoreBatches br i u oid (map (\<lambda>(k, n). (k, milli n)) (e # es)) (milli r) s =
          restoreBatches br i u oid (map (\<lambda>(k, n). (k, milli n)) es) (milli r) s"
        using True pos rm by (simp add: e Let_def mn)
      then show ?thesis using Cons.IH[OF Cons.prems(1,2) _ Cons.prems(4,5)] Cons.prems(3) False True by (simp add: e)
    next
      case pb: False
      define m where "m = min r a"
      have m: "0 < m" "m \<le> r" "in_range m" "in_range (r - m)"
        using pb False Cons.prems(5) by (auto simp: m_def in_range_def min_def)
      have mpos: "\<not> milli m \<le> 0" using m by simp
      have r1: "round3 (fsub (milli r) (milli m)) = milli (r - m)"
        using m Cons.prems(5) by (simp add: round3_fsub_milli)
      define s1 where "s1 = (case k of None \<Rightarrow> s
         | Some b \<Rightarrow> (case find (\<lambda>x. sb_id x = b) (ss_batches s) of None \<Rightarrow> s
            | Some x \<Rightarrow> setRemaining (sb_id x) (round3 (fadd (milli (sb_quantityRemaining x)) (milli m))) s))"
      define t where "t = addMovement br i k REVERSAL (milli m) (Some oid) u s1"
      have add: "round3 (fadd (milli (sb_quantityRemaining x)) (milli m)) = milli (sb_quantityRemaining x + m)"
        "in_range (sb_quantityRemaining x + m)" if "x \<in> set (ss_batches s)" for x
        using Cons.prems(4) that m by (auto simp: in_range_def intro!: round3_fadd_milli)
      have tb: "ss_batches t = (case k of None \<Rightarrow> ss_batches s
         | Some x \<Rightarrow> (case find (\<lambda>b. sb_id b = x) (ss_batches s) of None \<Rightarrow> ss_batches s
            | Some b \<Rightarrow> upd_where (\<lambda>b. sb_id b = x)
                 (\<lambda>c. c\<lparr>sb_quantityRemaining := sb_quantityRemaining b + m\<rparr>) (ss_batches s)))"
        using add by (auto simp: t_def s1_def setRemaining_def dest!: find_SomeD split: option.splits)
      have tm: "ss_movements t = ss_movements s @ [mkReversal br i u oid (k, m)]"
        and ti: "ss_ingredients t = ss_ingredients s"
        using m by (auto simp: t_def s1_def addMovement_def setRemaining_def mkReversal_def split: option.splits)
      have rec: "restoreBatches br i u oid (map (\<lambda>(k, n). (k, milli n)) (e # es)) (milli r) s =
          restoreBatches br i u oid (map (\<lambda>(k, n). (k, milli n)) es) (milli (r - m)) t"
        using pos mpos by (simp add: e Let_def mn m_def[symmetric] r1 t_def s1_def)
      have kt: "keyed sb_id (ss_batches t)"
        using Cons.prems(1) by (simp add: tb row_simps split: option.splits)
      have bt: "\<forall>b \<in> set (ss_batches t). 0 \<le> sb_quantityRemaining b \<and> sb_quantityRemaining b + (r - m) \<le> 10 ^ 12"
        using Cons.prems(4) m by (auto simp: tb row_simps dest!: find_SomeD split: option.splits)
      have IH: "restoreBatches br i u oid (map (\<lambda>(k, n). (k, milli n)) es) (milli (r - m)) t =
         t\<lparr>ss_batches := refill (put_back (r - m) es) (ss_batches t),
           ss_movements := ss_movements t @ map (mkReversal br i u oid) (put_back (r - m) es)\<rparr>"
        by (rule Cons.IH[OF kt _ _ bt]) (use m Cons.prems(3) in auto)
      have pb': "put_back r (e # es) = (k, m) # put_back (r - m) es"
        using False pb by (simp add: e m_def)
      show ?thesis unfolding rec IH pb' refill_Cons[OF Cons.prems(1)] tb[symmetric]
        using tm ti by simp
    qed
  qed
qed simp

section \<open>A reversal never returns more than was consumed\<close>

text \<open>The integer effect of \<open>restoreStock\<close> when something is left to return.\<close>

definition restored_amount :: "string \<Rightarrow> string \<Rightarrow> int \<Rightarrow> stock_state \<Rightarrow> int" where
  "restored_amount oid i q s = max 0 (min q (outstanding_total (orderMoves oid i s)))"

definition restored_state :: "string \<Rightarrow> string \<Rightarrow> int \<Rightarrow> string \<Rightarrow> string \<Rightarrow> stock_state \<Rightarrow> stock_state" where
  "restored_state br i q u oid s =
     (let r = restored_amount oid i q s; ps = put_back r (rev (rooms (orderMoves oid i s))) in
      if r = 0 then s
      else s\<lparr>ss_ingredients := upd_where (\<lambda>g. ig_id g = i) (\<lambda>g. g\<lparr>ig_currentStock := stock_of s i + r\<rparr>) (ss_ingredients s),
             ss_batches := refill ps (ss_batches s),
             ss_movements := ss_movements s @ map (mkReversal br i u oid) ps\<rparr>)"

text \<open>Room in the columns for what comes back, and few enough movements for the sums to be exact.\<close>

definition restore_fits :: "string \<Rightarrow> string \<Rightarrow> int \<Rightarrow> stock_state \<Rightarrow> bool" where
  "restore_fits oid i q s \<longleftrightarrow>
     length (orderMoves oid i s) \<le> 900 \<and>
     sum_list (map (\<lambda>m. \<bar>mv_quantity m\<bar>) (orderMoves oid i s)) \<le> 10 ^ 11 \<and> in_range q \<and>
     in_range (stock_of s i + restored_amount oid i q s) \<and>
     (\<forall>b \<in> set (ss_batches s). sb_quantityRemaining b + restored_amount oid i q s \<le> 10 ^ 12)"

lemma fsum_close_length:
  assumes "sum_list (map abs ns) \<le> 10 ^ 12" "4 * of_nat (length ns) \<le> (10 ^ 4 :: rat)"
  shows "close 1000 (fsum (map milli ns)) (sum_list ns) (4 * of_nat (length ns))"
proof -
  have "close 1000 0 0 0" by (simp add: close_def)
  from foldl_fadd_close[OF this, of ns] show ?thesis using assms by (simp add: fsum_def)
qed

lemma sum_abs_filter: "sum_list (map (\<lambda>m. \<bar>f m\<bar>) (filter P ms)) \<le> sum_list (map (\<lambda>m. \<bar>f m :: int\<bar>) ms)"
  by (induction ms) auto

lemma outstanding_split:
  "outstanding_total ms = sum_list (map (\<lambda>m. - mv_quantity m) (filter (\<lambda>m. mv_type m = CONSUMPTION) ms)) -
     sum_list (map mv_quantity (filter (\<lambda>m. mv_type m = REVERSAL) ms))"
  by (induction ms) (auto simp: outstanding_total_def journaled_def)

lemma length_two_filters:
  "length (filter (\<lambda>m. mv_type m = CONSUMPTION) ms) + length (filter (\<lambda>m. mv_type m = REVERSAL) ms) \<le> length ms"
  by (induction ms) auto

lemma returnable_exact:
  assumes len: "length ms \<le> 900" and ab: "sum_list (map (\<lambda>m. \<bar>mv_quantity m\<bar>) ms) \<le> 10 ^ 11" and q: "in_range q"
  shows "round3 (min (milli q) (fsub (fsum (map (\<lambda>m. - milli (mv_quantity m)) (filter (\<lambda>m. mv_type m = CONSUMPTION) ms)))
      (fsum (map (\<lambda>m. milli (mv_quantity m)) (filter (\<lambda>m. mv_type m = REVERSAL) ms))))) =
    milli (min q (outstanding_total ms))" "in_range (min q (outstanding_total ms))"
proof -
  let ?C = "map (\<lambda>m. - mv_quantity m) (filter (\<lambda>m. mv_type m = CONSUMPTION) ms)"
  let ?R = "map mv_quantity (filter (\<lambda>m. mv_type m = REVERSAL) ms)"
  have C: "sum_list (map abs ?C) \<le> 10 ^ 11"
    using sum_abs_filter[of mv_quantity "\<lambda>m. mv_type m = CONSUMPTION" ms] ab by (simp add: comp_def)
  have R: "sum_list (map abs ?R) \<le> 10 ^ 11"
    using sum_abs_filter[of mv_quantity "\<lambda>m. mv_type m = REVERSAL" ms] ab by (simp add: comp_def)
  have l: "length ?C + length ?R \<le> 900" using length_two_filters[of ms] len by simp
  have lc: "4 * of_nat (length ?C) \<le> (10 ^ 4 :: rat)" "4 * of_nat (length ?R) \<le> (10 ^ 4 :: rat)"
  proof -
    have "rat_of_nat (length ?C) \<le> rat_of_nat 900" "rat_of_nat (length ?R) \<le> rat_of_nat 900"
      using l by (simp_all only: of_nat_le_iff)
    then show "4 * of_nat (length ?C) \<le> (10 ^ 4 :: rat)" "4 * of_nat (length ?R) \<le> (10 ^ 4 :: rat)" by simp_all
  qed
  have ab: "\<bar>sum_list ?C\<bar> \<le> 10 ^ 11" "\<bar>sum_list ?R\<bar> \<le> 10 ^ 11"
    using sum_list_abs[of ?C] sum_list_abs[of ?R] C R by linarith+
  then have rng: "in_range (sum_list ?C - sum_list ?R)" by (auto simp: in_range_def)
  have cC: "close 1000 (fsum (map milli ?C)) (sum_list ?C) (4 * of_nat (length ?C))"
    using C lc by (intro fsum_close_length) auto
  have cR: "close 1000 (fsum (map milli ?R)) (sum_list ?R) (4 * of_nat (length ?R))"
    using R lc by (intro fsum_close_length) auto
  have lsum: "4 * of_nat (length ?C) + 4 * of_nat (length ?R) \<le> (3600 :: rat)"
  proof -
    have "rat_of_nat (length ?C + length ?R) \<le> rat_of_nat 900" using l by (simp only: of_nat_le_iff)
    then show ?thesis by simp
  qed
  have "close 1000 (fsub (fsum (map milli ?C)) (fsum (map milli ?R))) (sum_list ?C - sum_list ?R)
     (4 * of_nat (length ?C) + 4 * of_nat (length ?R) + 2)"
    using lsum by (intro close_fsub[OF cC cR rng]) auto
  then have d: "close 1000 (fsub (fsum (map milli ?C)) (fsum (map milli ?R))) (outstanding_total ms) 3602"
    unfolding outstanding_split by (rule close_mono) (use lsum in simp)
  have "close 1000 (milli q) q 3602" by (rule close_mono[OF close_dec[OF q]]) simp_all
  from close_min[OF this d]
  have m: "close 1000 (min (milli q) (fsub (fsum (map milli ?C)) (fsum (map milli ?R)))) (min q (outstanding_total ms)) 3602" .
  show r: "in_range (min q (outstanding_total ms))"
    using q rng unfolding outstanding_split by (auto simp: in_range_def min_def)
  have e: "map (\<lambda>m. - milli (mv_quantity m)) ms' = map milli (map (\<lambda>m. - mv_quantity m) ms')"
    "map (\<lambda>m. milli (mv_quantity m)) ms' = map milli (map mv_quantity ms')" for ms'
    by (simp_all add: dec_minus)
  show "round3 (min (milli q) (fsub (fsum (map (\<lambda>m. - milli (mv_quantity m)) (filter (\<lambda>m. mv_type m = CONSUMPTION) ms)))
      (fsum (map (\<lambda>m. milli (mv_quantity m)) (filter (\<lambda>m. mv_type m = REVERSAL) ms))))) =
    milli (min q (outstanding_total ms))"
    unfolding e round3_dp by (rule round_dp_close[OF m r]) auto
qed

lemma restoreStock_state:
  assumes ok: "stock_ok s" and fits: "restore_fits oid i q s" and g: "findIngredient br i s = Inr g"
  shows "restoreStock br i (milli q) u oid s =
     Inr (milli (restored_amount oid i q s), restored_state br i q u oid s)"
proof -
  let ?ms = "orderMoves oid i s"
  let ?r = "min q (outstanding_total ?ms)"
  note gs = findIngredient_stock[OF ok g]
  have f: "length ?ms \<le> 900" "sum_list (map (\<lambda>m. \<bar>mv_quantity m\<bar>) ?ms) \<le> 10 ^ 11" "in_range q"
    using fits by (auto simp: restore_fits_def)
  note re = returnable_exact[OF f]
  show ?thesis
  proof (cases "?r \<le> 0")
    case True
    then show ?thesis using re unfolding restoreStock_def g
      by (simp add: Let_def restored_amount_def restored_state_def)
  next
    case False
    then have ra: "restored_amount oid i q s = ?r" by (simp add: restored_amount_def)
    have pos: "\<not> milli ?r \<le> 0" using False re(2) by simp
    have rm: "rev (foldl addRoom [] ?ms) = map (\<lambda>(k, n). (k, milli n)) (rev (rooms ?ms))"
      using rooms_milli[of ?ms] f(2) by (simp add: rev_map)
    have es: "\<forall>e \<in> set (rev (rooms ?ms)). in_range (snd e)"
    proof
      fix e assume "e \<in> set (rev (rooms ?ms))"
      then have "(fst e, snd e) \<in> set (rooms ?ms)" by simp
      then have "snd e = outstanding ?ms (fst e)" by (rule rooms_entry)
      then show "in_range (snd e)" using abs_outstanding[of ?ms "fst e"] f(2) by (simp add: in_range_def)
    qed
    have sp: "restoreBatches br i u oid (map (\<lambda>(k, n). (k, milli n)) (rev (rooms ?ms))) (milli ?r) s =
        s\<lparr>ss_batches := refill (put_back ?r (rev (rooms ?ms))) (ss_batches s),
          ss_movements := ss_movements s @ map (mkReversal br i u oid) (put_back ?r (rev (rooms ?ms)))\<rparr>"
      using ok fits False re(2) es ra
      by (intro restoreBatches_spec) (auto simp: stock_ok_def restore_fits_def)
    have st: "setStock i (round3 (fadd (milli (ig_currentStock g)) (milli ?r))) x =
      x\<lparr>ss_ingredients := upd_where (\<lambda>g. ig_id g = i) (\<lambda>g. g\<lparr>ig_currentStock := stock_of s i + ?r\<rparr>) (ss_ingredients x)\<rparr>" for x
      using gs re(2) fits ra by (simp add: setStock_def round3_fadd_milli restore_fits_def)
    show ?thesis using pos False unfolding restoreStock_def g
      by (simp add: Let_def re(1) rm sp st restored_state_def ra)
  qed
qed

lemma orderMoves_append: "orderMoves oid i (s\<lparr>ss_movements := ms1 @ ms2\<rparr>) =
   orderMoves oid i (s\<lparr>ss_movements := ms1\<rparr>) @ orderMoves oid i (s\<lparr>ss_movements := ms2\<rparr>)"
  by (simp add: orderMoves_def)

lemma outstanding_append: "outstanding (ms1 @ ms2) k = outstanding ms1 k + outstanding ms2 k"
  by (simp add: outstanding_def)

lemma outstanding_Nil [simp]: "outstanding [] k = 0" by (simp add: outstanding_def)

lemma outstanding_reversals:
  "outstanding (map (mkReversal br i u oid) ps) k = - returned ps k"
  by (induction ps) (auto simp: outstanding_def mkReversal_def journaled_def returned_def)

lemma restored_books:
  assumes ok: "stock_ok s" "reversal_ok s" and g: "findIngredient br i s = Inr g" and q: "0 \<le> q"
  shows "stock_of (restored_state br i q u oid s) j = stock_of s j + (if j = i then restored_amount oid i q s else 0)"
    "moved (restored_state br i q u oid s) j = moved s j + (if j = i then restored_amount oid i q s else 0)"
    "reversal_ok (restored_state br i q u oid s)"
proof -
  let ?ms = "orderMoves oid i s"
  let ?r = "restored_amount oid i q s"
  let ?es = "rev (rooms ?ms)"
  let ?ps = "put_back ?r ?es"
  have nn: "\<forall>e \<in> set ?es. 0 \<le> snd e"
    using ok(2) rooms_entry[of _ _ ?ms] by (force simp: reversal_ok_def)
  have r: "0 \<le> ?r" "?r \<le> outstanding_total ?ms"
  proof -
    have "0 \<le> outstanding_total ?ms"
      unfolding rooms_total[symmetric] using nn by (intro sum_list_nonneg) auto
    then show "0 \<le> ?r" "?r \<le> outstanding_total ?ms" by (auto simp: restored_amount_def)
  qed
  have tot: "sum_list (map snd ?ps) = ?r"
    using put_back_total[OF r(1) nn] r(2) rooms_total[of ?ms]
    by (simp add: rev_map[symmetric] sum_list_rev)
  note gs = findIngredient_stock[OF ok(1) g]
  show "stock_of (restored_state br i q u oid s) j = stock_of s j + (if j = i then ?r else 0)"
  proof (cases "?r = 0")
    case False
    have k: "keyed ig_id (ss_ingredients (restored_state br i q u oid s))"
      using ok(1) by (simp add: restored_state_def Let_def stock_ok_def row_simps)
    have mem: "g\<lparr>ig_currentStock := stock_of s i + ?r\<rparr> \<in> set (ss_ingredients (restored_state br i q u oid s))"
      using gs False by (auto simp: restored_state_def Let_def row_simps)
    show ?thesis
    proof (cases "j = i")
      case True
      then show ?thesis using stock_of_keyed[OF k mem] gs by simp
    next
      case nj: False
      then have "filter (\<lambda>h. ig_id h = j) (ss_ingredients (restored_state br i q u oid s)) =
          filter (\<lambda>h. ig_id h = j) (ss_ingredients s)"
        using False by (simp add: restored_state_def Let_def) (rule filter_upd_where_other, auto)
      then show ?thesis using nj by (simp add: stock_of_def)
    qed
  qed (simp add: restored_state_def Let_def)
  have mr: "sum_list (map mv_quantity (filter (\<lambda>m. mv_ingredientId m = j) (map (mkReversal br i u oid) ps))) =
      (if j = i then sum_list (map snd ps) else 0)" for ps
    by (induction ps) (auto simp: mkReversal_def)
  show "moved (restored_state br i q u oid s) j = moved s j + (if j = i then ?r else 0)"
    using mr[of ?ps] tot by (auto simp: restored_state_def Let_def moved_def)
  show "reversal_ok (restored_state br i q u oid s)"
  proof (cases "?r = 0")
    case True
    then show ?thesis using ok(2) by (simp add: restored_state_def Let_def)
  next
    case False
    show ?thesis unfolding reversal_ok_def
    proof (intro allI)
      fix o' j k
      have own: "filter (\<lambda>m. mv_orderId m = Some o' \<and> mv_ingredientId m = j) (map (mkReversal br i u oid) ps) =
          (if o' = oid \<and> j = i then map (mkReversal br i u oid) ps else [])" for ps
        by (induction ps) (auto simp: mkReversal_def)
      have "orderMoves o' j (restored_state br i q u oid s) =
          orderMoves o' j s @ (if o' = oid \<and> j = i then map (mkReversal br i u oid) ?ps else [])"
        using False own[of ?ps] by (simp add: restored_state_def Let_def orderMoves_def)
      moreover have "returned ?ps k \<le> outstanding ?ms k"
      proof -
        have d: "distinct (map fst ?es)" using rooms_distinct[of ?ms] by (simp add: rev_map[symmetric])
        have "map_of ?es = map_of (rooms ?ms)"
          by (rule map_of_inject_set[THEN iffD2, OF d rooms_distinct]) simp
        then show ?thesis using returned_le[OF d nn, of ?r k] rooms_lookup[of ?ms k] by simp
      qed
      ultimately show "0 \<le> outstanding (orderMoves o' j (restored_state br i q u oid s)) k"
        using ok(2) by (auto simp: outstanding_append outstanding_reversals reversal_ok_def)
    qed
  qed
qed

section \<open>The invariant of the stock rows\<close>

lemma outstanding_takes:
  "mo_type opts \<noteq> REVERSAL \<Longrightarrow> \<forall>t \<in> set ts. 0 \<le> snd t \<Longrightarrow> 0 \<le> outstanding (map (mkMove br i opts) ts) k"
  unfolding outstanding_def by (rule sum_list_nonneg) (auto simp: mkMove_def journaled_def)

lemma consumed_inv:
  assumes inv: "stock_ok s" "reversal_ok s" and q: "0 \<le> q" "in_range q" "in_range (stock_of s i - q)"
    and ty: "mo_type opts \<noteq> REVERSAL"
  shows "stock_ok (consumed_state br i q opts s)" "reversal_ok (consumed_state br i q opts s)"
proof -
  let ?bs = "openBatches br i s" and ?ts = "fifo q (openBatches br i s)"
  let ?rest = "q - sum_list (map snd ?ts)"
  let ?last = "if 0 < ?rest then [\<lparr>mv_branchId = br, mv_ingredientId = i, mv_batchId = None, mv_type = mo_type opts,
     mv_quantity = - ?rest, mv_orderId = mo_orderId opts, mv_createdById = mo_userId opts\<rparr>] else []"
  note ob = openBatches_props[OF inv(1), of br i]
  have nn: "\<forall>b \<in> set ?bs. 0 \<le> sb_quantityRemaining b" using ob(3) by force
  have tk: "\<forall>t \<in> set ?ts. 0 \<le> snd t \<and> snd t \<le> q" by (rule fifo_amounts[OF q(1) nn])
  have sn: "0 \<le> sum_list (map snd ?ts)" using tk by (intro sum_list_nonneg) auto
  have dr: "0 \<le> sb_quantityRemaining b - taken ?ts (sb_id b) \<and> in_range (sb_quantityRemaining b - taken ?ts (sb_id b))"
    if b: "b \<in> set (ss_batches s)" for b
  proof -
    have b0: "0 \<le> sb_quantityRemaining b" "in_range (sb_quantityRemaining b)" using inv(1) b by (auto simp: stock_ok_def)
    note tb = taken_bounds[OF ob(1) nn q(1), of "sb_id b"]
    show ?thesis
    proof (cases "sb_id b \<in> set (map sb_id ?bs)")
      case True
      then obtain c where c: "c \<in> set ?bs" "sb_id c = sb_id b" by auto
      have "c = b" using inv(1) c ob(2) b by (intro keyed_unique[of sb_id "ss_batches s"]) (auto simp: stock_ok_def)
      then show ?thesis using tb c b0 by (auto simp: in_range_def)
    next
      case False
      then show ?thesis using taken_other[OF False, of q] b0 by simp
    qed
  qed
  have rk: "in_range (snd t)" if "t \<in> set ?ts" for t using tk that q(2) by (auto simp: in_range_def)
  have rr: "0 < ?rest \<Longrightarrow> in_range (sum_list (map snd ?ts) - q)" using sn q(2) by (simp add: in_range_def)
  have mv: "\<forall>m \<in> set (map (mkMove br i opts) ?ts @ ?last). in_range (mv_quantity m)"
    using rk rr by (auto simp: mkMove_def)
  show "stock_ok (consumed_state br i q opts s)"
    using inv(1) q(3) mv dr
    by (auto simp: stock_ok_def consumed_state_def Let_def row_simps drain_def keyed_def comp_def)
  show "reversal_ok (consumed_state br i q opts s)" unfolding reversal_ok_def
  proof (intro allI)
    fix o' j k
    have own: "filter (\<lambda>m. mv_orderId m = Some o' \<and> mv_ingredientId m = j) (map (mkMove br i opts) ts) =
        (if mo_orderId opts = Some o' \<and> j = i then map (mkMove br i opts) ts else [])" for ts
      by (induction ts) (auto simp: mkMove_def)
    have om: "orderMoves o' j (consumed_state br i q opts s) = orderMoves o' j s @
       (if mo_orderId opts = Some o' \<and> j = i then map (mkMove br i opts) ?ts @ ?last else [])"
      by (simp add: consumed_state_def Let_def orderMoves_def own)
    have l: "0 \<le> outstanding ?last k" using ty by (simp add: outstanding_def journaled_def)
    show "0 \<le> outstanding (orderMoves o' j (consumed_state br i q opts s)) k"
      unfolding om outstanding_append
      using inv(2) l outstanding_takes[OF ty, of ?ts br i k] tk
      by (auto simp: reversal_ok_def outstanding_append)
  qed
qed

lemma returned_nonneg: "\<forall>p \<in> set ps. 0 \<le> snd p \<Longrightarrow> 0 \<le> returned ps k"
  unfolding returned_def by (rule sum_list_nonneg) auto

lemma put_back_amounts: "\<forall>p \<in> set (put_back r es). 0 < snd p \<and> snd p \<le> r"
proof (induction es arbitrary: r)
  case (Cons e es)
  obtain k a where e: "e = (k, a)" by fastforce
  define m where "m = min r a"
  have "set (put_back r (e # es)) \<subseteq> (if r \<le> 0 then {} else if m \<le> 0 then set (put_back r es)
      else insert (k, m) (set (put_back (r - m) es)))"
    by (cases "m \<le> 0") (simp_all add: e m_def[symmetric])
  moreover have "m \<le> r" by (simp add: m_def)
  ultimately show ?case using Cons.IH[of r] Cons.IH[of "r - m"] by (fastforce split: if_splits)
qed simp

lemma returned_sum_le: "\<forall>p \<in> set ps. 0 \<le> snd p \<Longrightarrow> returned ps k \<le> sum_list (map snd ps)"
  by (induction ps) (auto simp: returned_def)

lemma restored_ok:
  assumes ok: "stock_ok s" "reversal_ok s" and fits: "restore_fits oid i q s" and q: "0 \<le> q"
  shows "stock_ok (restored_state br i q u oid s)"
proof (cases "restored_amount oid i q s = 0")
  case True
  then show ?thesis using ok by (simp add: restored_state_def Let_def)
next
  case False
  let ?r = "restored_amount oid i q s" and ?es = "rev (rooms (orderMoves oid i s))"
  let ?ps = "put_back ?r ?es"
  have nn: "\<forall>e \<in> set ?es. 0 \<le> snd e"
    using ok(2) rooms_entry[of _ _ "orderMoves oid i s"] by (force simp: reversal_ok_def)
  have r: "0 \<le> ?r" "?r \<le> q" using q by (auto simp: restored_amount_def)
  have am: "\<forall>p \<in> set ?ps. 0 \<le> snd p \<and> snd p \<le> ?r" using put_back_amounts[of ?r ?es] by fastforce
  have "sum_list (map snd ?ps) \<le> ?r" using put_back_total[OF r(1) nn] by simp
  then have ret: "0 \<le> returned ?ps k \<and> returned ?ps k \<le> ?r" for k
    using returned_nonneg[of ?ps k] returned_sum_le[of ?ps k] am by auto
  have rr: "in_range ?r" using r fits by (auto simp: restore_fits_def in_range_def)
  have bt: "0 \<le> sb_quantityRemaining b + returned ?ps k \<and> in_range (sb_quantityRemaining b + returned ?ps k)"
    if "b \<in> set (ss_batches s)" for b k
  proof -
    have "0 \<le> sb_quantityRemaining b" "sb_quantityRemaining b + ?r \<le> 10 ^ 12"
      using ok(1) fits that by (auto simp: stock_ok_def restore_fits_def)
    then show ?thesis using ret[of k] by (simp add: in_range_def)
  qed
  have mv: "in_range (mv_quantity m)" if "m \<in> mkReversal br i u oid ` set ?ps" for m
    using that am rr by (fastforce simp: mkReversal_def in_range_def)
  show ?thesis using False ok(1) fits bt mv
    by (auto simp: stock_ok_def restored_state_def Let_def row_simps refill_def keyed_def comp_def restore_fits_def)
qed

lemma adjustStock_state:
  assumes ok: "stock_ok s" and q: "in_range q" "in_range (stock_of s i + q)" and a: "adjustStock br u i (milli q) s = Inr t"
  shows "stock_of t j = stock_of s j + (if j = i then q else 0)"
    "moved t j = moved s j + (if j = i then q else 0)" "0 \<le> stock_of t i" "stock_ok t"
    "orderMoves oid j t = orderMoves oid j s"
proof -
  obtain g where g: "findIngredient br i s = Inr g" using a by (auto simp: adjustStock_def ebind_Inr_iff)
  note gs = findIngredient_stock[OF ok g]
  have r: "round3 (fadd (milli (ig_currentStock g)) (milli q)) = milli (stock_of s i + q)"
    using gs q by (simp add: round3_fadd_milli)
  have t: "t = addMovement br i None ADJUSTMENT (milli q) None u (setStock i (milli (stock_of s i + q)) s)"
    and n: "0 \<le> stock_of s i + q"
    using a r q by (auto simp: adjustStock_def g Let_def not_less split: if_splits)
  have k: "keyed ig_id (ss_ingredients s)" using ok by (simp add: stock_ok_def)
  have st: "stock_of t j = stock_of (setStock i (milli (stock_of s i + q)) s) j" for j
    using stock_of_cong[of t "setStock i (milli (stock_of s i + q)) s"] by (simp add: t)
  show "stock_of t j = stock_of s j + (if j = i then q else 0)" "0 \<le> stock_of t i"
    unfolding st using stock_of_setStock[OF k g q(2)] n by auto
  show "moved t j = moved s j + (if j = i then q else 0)"
    unfolding t moved_addMovement using q moved_cong[of "setStock i (milli (stock_of s i + q)) s" s] by simp
  show "stock_ok t" using ok q
    by (auto simp: t stock_ok_def addMovement_def setStock_def row_simps)
  show "orderMoves oid j t = orderMoves oid j s" by (simp add: t orderMoves_def addMovement_def)
qed

section \<open>The stock ledger\<close>

definition stock_inv :: "stock_state \<Rightarrow> bool" where
  "stock_inv s \<longleftrightarrow> stock_ok s \<and> reversal_ok s"

text \<open>One operation on a well-formed state, with quantities in thousandths that fit the columns.\<close>

inductive stock_step :: "stock_state \<Rightarrow> stock_state \<Rightarrow> bool" where
  consume: "stock_inv s \<Longrightarrow> 0 \<le> q \<Longrightarrow> in_range q \<Longrightarrow> in_range (stock_of s i - q) \<Longrightarrow> mo_type opts \<noteq> REVERSAL \<Longrightarrow>
     consumeStock br i (milli q) opts s = Inr (ps, t) \<Longrightarrow> stock_step s t"
| restore: "stock_inv s \<Longrightarrow> 0 \<le> q \<Longrightarrow> restore_fits oid i q s \<Longrightarrow>
     restoreStock br i (milli q) u oid s = Inr (r, t) \<Longrightarrow> stock_step s t"
| adjust: "stock_inv s \<Longrightarrow> in_range q \<Longrightarrow> in_range (stock_of s i + q) \<Longrightarrow>
     adjustStock br u i (milli q) s = Inr t \<Longrightarrow> stock_step s t"

inductive_cases stock_stepE: "stock_step s t"

lemma consumeStock_Inr:
  assumes "stock_ok s" "0 \<le> q" "in_range q" "in_range (stock_of s i - q)"
    "consumeStock br i (milli q) opts s = Inr (ps, t)"
  obtains g where "findIngredient br i s = Inr g" "t = consumed_state br i q opts s"
    "sum_list (map (\<lambda>p. units 1000 (po_quantity p)) ps) = q"
    "mo_allowNegative opts \<or> milli q \<le> availableStock (openBatches br i s) g"
proof -
  obtain g where g: "findIngredient br i s = Inr g" using assms(5) by (auto simp: consumeStock_def ebind_Inr_iff)
  have en: "mo_allowNegative opts \<or> milli q \<le> availableStock (openBatches br i s) g"
    using assms(5) by (auto simp: consumeStock_def g Let_def not_less split: if_splits)
  from consumeStock_state[OF assms(1-4) g en] assms(5) show ?thesis using that[OF g _ _ en] by auto
qed

lemma consumed_moved:
  assumes "stock_ok s" "findIngredient br i s = Inr g" "0 \<le> q"
  shows "moved (consumed_state br i q opts s) j = moved s j - (if j = i then q else 0)"
proof -
  have nn: "\<forall>b \<in> set (openBatches br i s). 0 \<le> sb_quantityRemaining b"
    using openBatches_props(3)[OF assms(1)] by force
  show ?thesis unfolding consumed_state_books(2)[OF assms(1,2)] using fifo_total[OF nn assms(3)] by auto
qed

lemma stock_step_books: "stock_step s t \<Longrightarrow> stock_of t k - stock_of s k = moved t k - moved s k"
proof (erule stock_stepE)
  fix q i opts br ps
  assume a: "stock_inv s" "0 \<le> q" "in_range q" "in_range (stock_of s i - q)"
    "consumeStock br i (milli q) opts s = Inr (ps, t)"
  obtain g where g: "findIngredient br i s = Inr g" "t = consumed_state br i q opts s"
    by (rule consumeStock_Inr[OF _ a(2-5)]) (use a(1) in \<open>auto simp: stock_inv_def\<close>)
  show ?thesis using consumed_state_books(1)[OF _ g(1), of q opts k] consumed_moved[OF _ g(1) a(2), of opts k] a(1)
    by (simp add: g stock_inv_def)
next
  fix q oid i br u r
  assume a: "stock_inv s" "0 \<le> q" "restore_fits oid i q s" "restoreStock br i (milli q) u oid s = Inr (r, t)"
  obtain g where g: "findIngredient br i s = Inr g" using a(4) by (auto simp: restoreStock_def ebind_Inr_iff)
  have t: "t = restored_state br i q u oid s"
    using restoreStock_state[OF _ a(3) g, of u] a(1,4) by (simp add: stock_inv_def)
  show ?thesis using restored_books(1,2)[OF _ _ g a(2), of u oid k] a(1) by (simp add: t stock_inv_def)
next
  fix q i br u
  assume a: "stock_inv s" "in_range q" "in_range (stock_of s i + q)" "adjustStock br u i (milli q) s = Inr t"
  show ?thesis using adjustStock_state(1,2)[OF _ a(2-4), of k] a(1) by (simp add: stock_inv_def)
qed

lemma stock_step_inv: "stock_step s t \<Longrightarrow> stock_inv t"
proof (erule stock_stepE)
  fix q i opts br ps
  assume a: "stock_inv s" "0 \<le> q" "in_range q" "in_range (stock_of s i - q)" "mo_type opts \<noteq> REVERSAL"
    "consumeStock br i (milli q) opts s = Inr (ps, t)"
  obtain g where g: "t = consumed_state br i q opts s"
    by (rule consumeStock_Inr[OF _ a(2-4,6)]) (use a(1) in \<open>auto simp: stock_inv_def\<close>)
  show ?thesis using consumed_inv[OF _ _ a(2-5)] a(1) by (simp add: g stock_inv_def)
next
  fix q oid i br u r
  assume a: "stock_inv s" "0 \<le> q" "restore_fits oid i q s" "restoreStock br i (milli q) u oid s = Inr (r, t)"
  obtain g where g: "findIngredient br i s = Inr g" using a(4) by (auto simp: restoreStock_def ebind_Inr_iff)
  have t: "t = restored_state br i q u oid s"
    using restoreStock_state[OF _ a(3) g, of u] a(1,4) by (simp add: stock_inv_def)
  show ?thesis using restored_books(3)[OF _ _ g a(2), of u oid] restored_ok[OF _ _ a(3,2)] a(1)
    by (simp add: t stock_inv_def)
next
  fix q i br u
  assume a: "stock_inv s" "in_range q" "in_range (stock_of s i + q)" "adjustStock br u i (milli q) s = Inr t"
  show ?thesis using adjustStock_state(4,5)[OF _ a(2-4)] a(1) by (simp add: stock_inv_def reversal_ok_def)
qed

interpretation stock_ledger: ledger stock_of moved stock_step
  by unfold_locales (rule stock_step_books)

section \<open>Order hooks\<close>

text \<open>A consumption of a positive quantity always leaves a movement of its type on its order.\<close>

definition has_move :: "string \<Rightarrow> movement_type \<Rightarrow> stock_state \<Rightarrow> bool" where
  "has_move oid ty s \<longleftrightarrow> 0 < count_where (\<lambda>m. mv_orderId m = Some oid \<and> mv_type m = ty) (ss_movements s)"

lemma has_move_iff: "has_move oid ty s \<longleftrightarrow> (\<exists>m \<in> set (ss_movements s). mv_orderId m = Some oid \<and> mv_type m = ty)"
  by (auto simp: has_move_def count_where_def filter_empty_conv)

lemma consumeBatches_movements:
  "consumeBatches br i opts bs r s = (r', ps, t) \<Longrightarrow>
   \<exists>ms. ss_movements t = ss_movements s @ ms \<and> ss_ingredients t = ss_ingredients s \<and>
     (\<forall>m \<in> set ms. mv_orderId m = mo_orderId opts \<and> mv_type m = mo_type opts) \<and>
     (0 < r \<longrightarrow> ms \<noteq> [] \<or> r' = r)"
proof (induction bs arbitrary: r s r' ps t)
  case (Cons b bs)
  show ?case
  proof (cases "r \<le> 0")
    case False
    let ?k = "min r (milli (sb_quantityRemaining b))"
    let ?t = "addMovement br i (Some (sb_id b)) (mo_type opts) (- ?k) (mo_orderId opts) (mo_userId opts)
       (setRemaining (sb_id b) (round3 (fsub (milli (sb_quantityRemaining b)) ?k)) s)"
    obtain x qs v where x: "consumeBatches br i opts bs (round3 (fsub r ?k)) ?t = (x, qs, v)"
      by (cases "consumeBatches br i opts bs (round3 (fsub r ?k)) ?t") auto
    have "t = v" using Cons.prems False x by (auto simp: Let_def)
    moreover obtain m where m: "ss_movements ?t = ss_movements s @ [m]" "mv_orderId m = mo_orderId opts"
      "mv_type m = mo_type opts" by (simp add: addMovement_def)
    ultimately show ?thesis using Cons.IH[OF x] by auto
  qed (use Cons.prems in auto)
qed auto

lemma consumeStock_movements:
  assumes "consumeStock br i q opts s = Inr (ps, t)" "0 < q" "mo_orderId opts = Some oid"
  shows "has_move oid (mo_type opts) t"
proof -
  obtain g where g: "findIngredient br i s = Inr g" using assms(1) by (auto simp: consumeStock_def ebind_Inr_iff)
  obtain r qs v where c: "consumeBatches br i opts (openBatches br i s) q s = (r, qs, v)"
    by (cases "consumeBatches br i opts (openBatches br i s) q s") auto
  from consumeBatches_movements[OF c] obtain ms where
    ms: "ss_movements v = ss_movements s @ ms" "\<forall>m \<in> set ms. mv_orderId m = Some oid \<and> mv_type m = mo_type opts"
      "ms \<noteq> [] \<or> r = q" using assms(2,3) by auto
  have t: "ss_movements t = ss_movements (if 0 < r then addMovement br i None (mo_type opts) (- r) (mo_orderId opts)
      (mo_userId opts) v else v)"
    using assms(1) c by (auto simp: consumeStock_def g Let_def split: if_splits)
  show ?thesis
  proof (cases "ms = []")
    case True
    then have "0 < r" using ms(3) assms(2) by simp
    then show ?thesis using assms(3) by (simp add: has_move_iff t addMovement_def)
  next
    case False
    then obtain m where "m \<in> set ms" by (cases ms) auto
    then show ?thesis using ms(1,2) unfolding has_move_iff t by (auto simp: addMovement_def)
  qed
qed

lemma consumeStock_keeps_moves:
  assumes "consumeStock br i q opts s = Inr (ps, t)" "has_move oid ty s"
  shows "has_move oid ty t"
proof -
  obtain r qs v where c: "consumeBatches br i opts (openBatches br i s) q s = (r, qs, v)"
    by (cases "consumeBatches br i opts (openBatches br i s) q s") auto
  from consumeBatches_movements[OF c] obtain ms where "ss_movements v = ss_movements s @ ms" by auto
  moreover have "set (ss_movements v) \<subseteq> set (ss_movements t)"
    using assms(1) c by (auto simp: consumeStock_def ebind_Inr_iff Let_def addMovement_def split: if_splits)
  ultimately show ?thesis using assms(2) by (auto simp: has_move_iff)
qed

definition deductStep :: "string \<Rightarrow> string \<Rightarrow> string \<Rightarrow> string \<times> num \<Rightarrow> stock_state \<Rightarrow> stock_state res" where
  "deductStep br u oid = (\<lambda>(i, qty) s1.
     if qty \<le> 0 then Inr s1
     else ebind (consumeStock br i qty \<lparr>mo_type = CONSUMPTION, mo_userId = u,
                   mo_allowNegative = True, mo_orderId = Some oid\<rparr> s1) (\<lambda>(_, s2). Inr s2))"

lemma deductForOrder_alt:
  "deductForOrder menu combos br u oid lines s =
     (if lines = [] \<or> has_move oid CONSUMPTION s then Inr ([], s)
      else ebind (foldE (deductStep br u oid) (needs (planFor menu combos lines)) s)
             (\<lambda>s'. Inr (skipped (planFor menu combos lines), s')))"
  by (simp add: deductForOrder_def deductStep_def has_move_def Let_def)

lemma deduct_moves:
  "foldE (deductStep br u oid) ns s = Inr t \<Longrightarrow>
   (has_move oid CONSUMPTION s \<longrightarrow> has_move oid CONSUMPTION t) \<and>
   (if \<exists>n \<in> set ns. 0 < snd n then has_move oid CONSUMPTION t else t = s)"
proof (induction ns arbitrary: s)
  case (Cons n ns)
  obtain i q where n: "n = (i, q)" by fastforce
  from Cons.prems obtain s1 where s1: "deductStep br u oid n s = Inr s1" "foldE (deductStep br u oid) ns s1 = Inr t"
    by (auto simp: ebind_Inr_iff)
  note IH = Cons.IH[OF s1(2)]
  show ?case
  proof (cases "q \<le> 0")
    case True
    then show ?thesis using s1 IH by (auto simp: n deductStep_def)
  next
    case False
    then obtain ps where c: "consumeStock br i q \<lparr>mo_type = CONSUMPTION, mo_userId = u,
        mo_allowNegative = True, mo_orderId = Some oid\<rparr> s = Inr (ps, s1)"
      using s1(1) by (auto simp: n deductStep_def ebind_Inr_iff)
    have "has_move oid CONSUMPTION s1" using consumeStock_movements[OF c, of oid] False by simp
    then show ?thesis using IH False by (auto simp: n)
  qed
qed simp

text \<open>A sale with negative stock allowed never fails once its ingredients exist in the branch.\<close>

lemma deductStep_ok:
  assumes "findIngredient br i s = Inr g"
  shows "is_ok (deductStep br u oid (i, q) s)"
  using assms by (auto simp: deductStep_def consumeStock_def Let_def split: prod.splits)

section \<open>Properties\<close>

definition sample_stock :: stock_state where
  "sample_stock = \<lparr>ss_ingredients = [\<lparr>ig_id = ''milk'', ig_branchId = ''b'', ig_name = ''Milk'', ig_unit = ''ML'', ig_currentStock = 1500, ig_costPerUnit = 600\<rparr>],
     ss_batches = [\<lparr>sb_id = ''new'', sb_branchId = ''b'', sb_ingredientId = ''milk'', sb_quantityRemaining = 1000,
                     sb_unitCost = 650, sb_receivedAt = 20\<rparr>,
                   \<lparr>sb_id = ''old'', sb_branchId = ''b'', sb_ingredientId = ''milk'', sb_quantityRemaining = 500,
                     sb_unitCost = 600, sb_receivedAt = 10\<rparr>],
     ss_movements = []\<rparr>"

definition sample_sale :: move_opts where
  "sample_sale = \<lparr>mo_type = CONSUMPTION, mo_userId = ''u'', mo_allowNegative = True, mo_orderId = Some ''o1''\<rparr>"

lemma sample_stock_inv: "stock_inv sample_stock"
  by (simp add: stock_inv_def stock_ok_def reversal_ok_def sample_stock_def keyed_def in_range_def orderMoves_def)

lemma sample_stock_find: "findIngredient ''b'' ''milk'' sample_stock =
    Inr \<lparr>ig_id = ''milk'', ig_branchId = ''b'', ig_name = ''Milk'', ig_unit = ''ML'', ig_currentStock = 1500, ig_costPerUnit = 600\<rparr>"
  by (simp add: findIngredient_def sample_stock_def)

lemma sample_stock_of: "stock_of sample_stock ''milk'' = 1500"
  by (simp add: stock_of_def sample_stock_def)

lemma sample_consume:
  "\<exists>ps. consumeStock ''b'' ''milk'' (milli 700) sample_sale sample_stock =
     Inr (ps, consumed_state ''b'' ''milk'' 700 sample_sale sample_stock)"
  using consumeStock_state[OF _ _ _ _ sample_stock_find, of 700 sample_sale] sample_stock_inv
  by (auto simp: stock_inv_def sample_stock_of in_range_def sample_sale_def)

text \<open>While a younger batch gives something, the older ones give all they have.\<close>

lemma fifo_oldest_first:
  "distinct (map sb_id (xs @ b # ys)) \<Longrightarrow> \<forall>c \<in> set (xs @ b # ys). 0 \<le> sb_quantityRemaining c \<Longrightarrow>
   y \<in> set ys \<Longrightarrow> 0 < taken (fifo r (xs @ b # ys)) (sb_id y) \<Longrightarrow>
   taken (fifo r (xs @ b # ys)) (sb_id b) = sb_quantityRemaining b"
proof (induction xs arbitrary: r)
  case Nil
  have pos: "\<not> r \<le> 0" using Nil(4) by (auto simp: taken_def)
  have tb: "taken (fifo r' ys) (sb_id b) = 0" for r' using Nil(1) by (intro taken_other) auto
  have "sb_id b \<notin> sb_id ` set ys" using Nil(1) by simp
  then have "sb_id y \<noteq> sb_id b" using Nil(3) by (metis imageI)
  then have "0 < taken (fifo (r - min r (sb_quantityRemaining b)) ys) (sb_id y)"
    using Nil(4) pos by (simp add: taken_def split: if_splits)
  then have "0 < r - min r (sb_quantityRemaining b)"
    by (cases ys) (auto simp: taken_def split: if_splits)
  then show ?case using pos tb by (simp add: taken_def)
next
  case (Cons x xs)
  have pos: "\<not> r \<le> 0" using Cons.prems(4) by (auto simp: taken_def)
  have "sb_id x \<notin> sb_id ` set ys" "sb_id x \<noteq> sb_id b" using Cons.prems(1) by auto
  then have ne: "sb_id x \<noteq> sb_id y" "sb_id x \<noteq> sb_id b" using Cons.prems(3) by (auto intro: imageI)
  then show ?case using Cons.IH[of "r - min r (sb_quantityRemaining x)"] Cons.prems pos
    by (simp add: taken_def)
qed

lemma drained_nonneg:
  assumes ok: "stock_ok s" and q: "0 \<le> q" and b: "b \<in> set (drain (fifo q (openBatches br i s)) (ss_batches s))"
  shows "0 \<le> sb_quantityRemaining b"
proof -
  note ob = openBatches_props[OF ok, of br i]
  have nn: "\<forall>b \<in> set (openBatches br i s). 0 \<le> sb_quantityRemaining b" using ob(3) by force
  obtain c where c: "c \<in> set (ss_batches s)"
    "sb_quantityRemaining b = sb_quantityRemaining c - taken (fifo q (openBatches br i s)) (sb_id c)"
    using b by (auto simp: drain_def)
  show ?thesis
  proof (cases "sb_id c \<in> set (map sb_id (openBatches br i s))")
    case True
    then obtain d where "d \<in> set (openBatches br i s)" "sb_id d = sb_id c" by auto
    moreover from this have "d = c" using ok c ob(2)
      by (intro keyed_unique[of sb_id "ss_batches s"]) (auto simp: stock_ok_def)
    ultimately show ?thesis using taken_bounds[OF ob(1) nn q] c(2) by auto
  next
    case False
    then show ?thesis using taken_other[OF False, of q] c ok by (auto simp: stock_ok_def)
  qed
qed

text \<open>C12: consumption is first in, first out: it takes exactly the requested quantity, draws the open
  batches in the order they were received, never touches a batch while an older one still holds stock, and
  never takes a batch below zero.\<close>

theorem consumption_is_fifo:
  assumes "stock_inv s" "0 \<le> q" "in_range q" "in_range (stock_of s i - q)"
    "consumeStock br i (milli q) opts s = Inr (ps, t)"
  shows "sum_list (map (\<lambda>p. units 1000 (po_quantity p)) ps) = q \<and>
     ss_batches t = drain (fifo q (openBatches br i s)) (ss_batches s) \<and>
     sorted (map sb_receivedAt (openBatches br i s)) \<and>
     (\<forall>b \<in> set (ss_batches t). 0 \<le> sb_quantityRemaining b) \<and>
     (\<forall>xs b ys. openBatches br i s = xs @ b # ys \<and> (\<exists>y \<in> set ys. 0 < taken (fifo q (openBatches br i s)) (sb_id y)) \<longrightarrow>
        taken (fifo q (openBatches br i s)) (sb_id b) = sb_quantityRemaining b)"
proof -
  have ok: "stock_ok s" using assms(1) by (simp add: stock_inv_def)
  obtain g where g: "t = consumed_state br i q opts s" "sum_list (map (\<lambda>p. units 1000 (po_quantity p)) ps) = q"
    by (rule consumeStock_Inr[OF ok assms(2-5)]) auto
  note ob = openBatches_props[OF ok, of br i]
  have "\<forall>b \<in> set (openBatches br i s). 0 \<le> sb_quantityRemaining b" using ob(3) by force
  then show ?thesis
    using g drained_nonneg[OF ok assms(2), of _ br i] ob(1,4) fifo_oldest_first[of _ _ _ _ q]
    by (auto simp: consumed_state_def Let_def)
qed

theorem consumption_is_fifo_witness:
  "\<exists>ps t. consumeStock ''b'' ''milk'' (milli 700) sample_sale sample_stock = Inr (ps, t) \<and>
     map sb_quantityRemaining (ss_batches t) = [800, 0] \<and> sum_list (map (\<lambda>p. units 1000 (po_quantity p)) ps) = 700"
proof -
  obtain ps where c: "consumeStock ''b'' ''milk'' (milli 700) sample_sale sample_stock =
     Inr (ps, consumed_state ''b'' ''milk'' 700 sample_sale sample_stock)" using sample_consume by blast
  have ob: "openBatches ''b'' ''milk'' sample_stock = rev (ss_batches sample_stock)"
    by (simp add: openBatches_def sample_stock_def)
  have d: "map sb_quantityRemaining (drain (fifo 700 (rev (ss_batches sample_stock))) (ss_batches sample_stock)) = [800, 0]"
    by (simp add: drain_def sample_stock_def taken_def)
  show ?thesis
    using consumption_is_fifo[OF sample_stock_inv _ _ _ c] c d
    by (auto simp: sample_stock_of in_range_def ob)
qed

text \<open>C13: reversing a sale is bounded by the sale: what goes back to stock is the smaller of what is asked and
  what the order consumed and has not yet returned; stock and journal both grow by exactly that, and asking
  again after everything is back changes nothing.\<close>

theorem reversal_bounded:
  assumes "stock_inv s" "0 \<le> q" "restore_fits oid i q s" "restoreStock br i (milli q) u oid s = Inr (r, t)"
  shows "r = milli (max 0 (min q (outstanding_total (orderMoves oid i s)))) \<and>
     stock_of t i = stock_of s i + restored_amount oid i q s \<and>
     moved t i = moved s i + restored_amount oid i q s \<and> stock_inv t \<and>
     (outstanding_total (orderMoves oid i s) = 0 \<longrightarrow> t = s)"
proof -
  have ok: "stock_ok s" "reversal_ok s" using assms(1) by (simp_all add: stock_inv_def)
  obtain g where g: "findIngredient br i s = Inr g" using assms(4) by (auto simp: restoreStock_def ebind_Inr_iff)
  have t: "t = restored_state br i q u oid s" "r = milli (restored_amount oid i q s)"
    using restoreStock_state[OF ok(1) assms(3) g, of u] assms(4) by simp_all
  have z: "outstanding_total (orderMoves oid i s) = 0 \<Longrightarrow> restored_amount oid i q s = 0"
    by (simp add: restored_amount_def)
  show ?thesis using restored_books[OF ok g assms(2), of u oid] restored_ok[OF ok assms(3,2), of br u] z
    by (auto simp: t stock_inv_def restored_amount_def restored_state_def Let_def)
qed

theorem reversal_bounded_witness:
  "\<exists>s r t. stock_inv s \<and> restoreStock ''b'' ''milk'' (milli 900) ''u'' ''o1'' s = Inr (r, t) \<and> r = milli 700 \<and>
     stock_of t ''milk'' = 1500"
proof -
  let ?s = "consumed_state ''b'' ''milk'' 700 sample_sale sample_stock"
  have st: "stock_step sample_stock ?s"
    using sample_consume sample_stock_inv
    by (auto intro!: stock_step.consume[of _ 700 "''milk''" sample_sale "''b''"] simp: sample_stock_of in_range_def sample_sale_def)
  have inv: "stock_inv ?s" by (rule stock_step_inv[OF st])
  have ob: "openBatches ''b'' ''milk'' sample_stock = rev (ss_batches sample_stock)"
    by (simp add: openBatches_def sample_stock_def)
  have s800: "stock_of ?s ''milk'' = 800"
    using consumed_state_books(1)[OF _ sample_stock_find, of 700 sample_sale "''milk''"] sample_stock_inv
    by (simp add: stock_inv_def sample_stock_of)
  have fi: "fifo 700 (rev (ss_batches sample_stock)) =
      [(last (ss_batches sample_stock), 500), (hd (ss_batches sample_stock), 200)]"
    by (simp add: sample_stock_def)
  have "ss_movements ?s = map (mkMove ''b'' ''milk'' sample_sale) (fifo 700 (rev (ss_batches sample_stock)))"
    unfolding consumed_state_def Let_def ob fi by (simp add: sample_stock_def)
  then have om: "orderMoves ''o1'' ''milk'' ?s = map (mkMove ''b'' ''milk'' sample_sale) (fifo 700 (rev (ss_batches sample_stock)))"
    unfolding orderMoves_def fi by (simp add: mkMove_def sample_sale_def)
  have out: "outstanding_total (orderMoves ''o1'' ''milk'' ?s) = 700"
    unfolding om by (simp add: outstanding_total_def mkMove_def journaled_def sample_sale_def sample_stock_def)
  have bs: "\<forall>b \<in> set (ss_batches ?s). sb_quantityRemaining b \<le> 1000"
    unfolding consumed_state_def Let_def ob by (simp add: drain_def sample_stock_def taken_def)
  have fits: "restore_fits ''o1'' ''milk'' 900 ?s"
    using bs unfolding restore_fits_def restored_amount_def out s800 om
    by (auto simp: in_range_def mkMove_def sample_stock_def)
  obtain g where g: "findIngredient ''b'' ''milk'' ?s = Inr g"
    by (simp add: findIngredient_def consumed_state_def Let_def sample_stock_def row_simps)
  obtain r t where rt: "restoreStock ''b'' ''milk'' (milli 900) ''u'' ''o1'' ?s = Inr (r, t)"
    using restoreStock_state[OF _ fits g, of "''u''"] inv by (auto simp: stock_inv_def)
  have "stock_inv ?s \<and> restoreStock ''b'' ''milk'' (milli 900) ''u'' ''o1'' ?s = Inr (r, t) \<and> r = milli 700 \<and>
     stock_of t ''milk'' = 1500"
    using reversal_bounded[OF inv _ fits rt] rt inv out s800 by (simp add: restored_amount_def)
  then show ?thesis by blast
qed

text \<open>Deducting the stock of an order is idempotent: whatever was deducted, running it again for the
  same order and lines changes nothing, so a retried checkout cannot consume stock twice.\<close>

theorem deduction_idempotent:
  assumes "deductForOrder menu combos br u oid lines s = Inr (sk, t)"
  shows "\<exists>sk'. deductForOrder menu combos br u oid lines t = Inr (sk', t)"
proof (cases "lines = [] \<or> has_move oid CONSUMPTION s")
  case True
  then show ?thesis using assms by (auto simp: deductForOrder_alt)
next
  case False
  then have f: "foldE (deductStep br u oid) (needs (planFor menu combos lines)) s = Inr t"
    using assms by (auto simp: deductForOrder_alt ebind_Inr_iff)
  show ?thesis
  proof (cases "\<exists>n \<in> set (needs (planFor menu combos lines)). 0 < snd n")
    case True
    then have "has_move oid CONSUMPTION t" using deduct_moves[OF f] by simp
    then show ?thesis by (simp add: deductForOrder_alt)
  next
    case no: False
    then have "t = s" using deduct_moves[OF f] by simp
    then show ?thesis using f False by (simp add: deductForOrder_alt)
  qed
qed

theorem deduction_idempotent_witness:
  "\<exists>sk t. deductForOrder [] [] ''b'' ''u'' ''o1'' [(''tea'', 2)] sample_stock = Inr (sk, t) \<and>
     (\<exists>sk'. deductForOrder [] [] ''b'' ''u'' ''o1'' [(''tea'', 2)] t = Inr (sk', t))"
proof -
  have d: "deductForOrder [] [] ''b'' ''u'' ''o1'' [(''tea'', 2)] sample_stock =
     Inr ([\<lparr>sk_menuItemId = ''tea'', sk_name = ''tea'', sk_reason = UNKNOWN_ITEM\<rparr>], sample_stock)"
    by code_simp
  show ?thesis using deduction_idempotent[OF d] d by blast
qed

text \<open>
  The availability check compares a quantity with an unrounded sum of doubles, so waste of exactly what is
  on hand can be refused: batches of 0.7 and 0.1 do not cover a quantity of 0.8.
\<close>

lemma exact_stock_refused:
  "fsum [milli 700, milli 100] < milli 800 \<and> round3 (fsum [milli 700, milli 100]) = milli 800"
proof
  have a: "milli 700 = 6305039478318694 / 2 ^ 53" unfolding dec_def
    using fl_is[of "-1" "7 / 10" 6305039478318694] by (simp add: power_int_def power_divide)
  have b: "milli 100 = 7205759403792794 / 2 ^ 56" unfolding dec_def
    using fl_is[of "-4" "1 / 10" 7205759403792794] by (simp add: power_int_def power_divide)
  have c: "milli 800 = 7205759403792794 / 2 ^ 53" unfolding dec_def
    using fl_is[of "-1" "8 / 10" 7205759403792794] by (simp add: power_int_def power_divide)
  have "fadd (milli 700) (milli 100) = 7205759403792793 / 2 ^ 53" unfolding a b fadd_def
    using fl_is[of "-1" "6305039478318694 / 2 ^ 53 + 7205759403792794 / 2 ^ 56" 7205759403792793]
    by (simp add: power_int_def power_divide)
  then show "fsum [milli 700, milli 100] < milli 800" by (simp add: fsum_def c)
  have "round3 (fsum (map milli [700, 100])) = milli (sum_list [700, 100])"
    unfolding round3_dp by (rule round_fsum) (auto simp: sum_ok_def)
  then show "round3 (fsum [milli 700, milli 100]) = milli 800" by simp
qed

end
