(* ===== verification/Gift_Cards.thy ===== *)
theory Gift_Cards
  imports Pricing Ledger
begin

text \<open>
  Gift cards: \<open>modules/gift-cards/gift-cards.service.ts\<close> and the redemption row that checkout writes
  beside a debit (\<open>modules/orders/orders.service.ts\<close>). A debit reads the card and then decrements it with
  a guard on the balance at write time; the two halves are separate functions, so that the rows may have
  changed in between. The random code of a new card is an argument.
\<close>

record gift_card =
  gc_id :: string
  gc_branchId :: string
  gc_code :: string
  gc_initialValue :: int
  gc_balance :: int
  gc_customerId :: "string option"
  gc_isActive :: bool

record redemption =
  rd_giftCardId :: string
  rd_orderId :: string
  rd_amount :: int

record gift_state =
  gs_cards :: "gift_card list"
  gs_redemptions :: "redemption list"

text \<open>\<open>customerInBranch\<close> is whether the given customer is a customer of the branch.\<close>

definition issueCard ::
  "string \<Rightarrow> string \<Rightarrow> string \<Rightarrow> num \<Rightarrow> string option \<Rightarrow> (string \<Rightarrow> bool) \<Rightarrow> gift_state \<Rightarrow> (gift_card \<times> gift_state) res" where
  "issueCard newId randomHex branchId initialValue customerId customerInBranch s =
     (if (case customerId of Some c \<Rightarrow> c \<noteq> '''' \<and> \<not> customerInBranch c | None \<Rightarrow> False)
      then Inl (BadRequest ''Customer is invalid for this branch'')
      else
        (let value = to_column 100 (round2 initialValue);
             gc = \<lparr>gc_id = newId, gc_branchId = branchId, gc_code = to_upper randomHex,
                     gc_initialValue = value, gc_balance = value, gc_customerId = customerId,
                     gc_isActive = True\<rparr>
         in Inr (gc, s\<lparr>gs_cards := gs_cards s @ [gc]\<rparr>)))"

definition getByCode :: "string \<Rightarrow> string \<Rightarrow> gift_state \<Rightarrow> gift_card res" where
  "getByCode branchId code s =
     (case find (\<lambda>c. gc_code c = to_upper code \<and> gc_branchId c = branchId) (gs_cards s) of
        None \<Rightarrow> Inl (NotFound ''Gift card not found'') | Some c \<Rightarrow> Inr c)"

text \<open>The reading half: the card and the amount that would be applied.\<close>

definition debitQuote :: "string \<Rightarrow> string \<Rightarrow> num \<Rightarrow> gift_state \<Rightarrow> (string \<times> num) res" where
  "debitQuote branchId code maxAmount s =
     (case find (\<lambda>c. gc_code c = to_upper code \<and> gc_branchId c = branchId) (gs_cards s) of
        None \<Rightarrow> Inl (BadRequest ''Gift card not found or inactive'')
      | Some gc \<Rightarrow>
          if \<not> gc_isActive gc then Inl (BadRequest ''Gift card not found or inactive'')
          else if cents (gc_balance gc) \<le> 0 then Inl (BadRequest ''Gift card has no balance remaining'')
          else Inr (gc_id gc, round2 (min (cents (gc_balance gc)) maxAmount)))"

text \<open>The writing half: the guarded decrement.\<close>

definition debitable :: "string \<Rightarrow> int \<Rightarrow> gift_card \<Rightarrow> bool" where
  "debitable i a c \<longleftrightarrow> gc_id c = i \<and> a \<le> gc_balance c"

definition debitWrite :: "string \<Rightarrow> num \<Rightarrow> gift_state \<Rightarrow> gift_state res" where
  "debitWrite i amount s =
     (let a = to_column 100 amount in
      if count_where (debitable i a) (gs_cards s) = 0
      then Inl (BadRequest ''Gift card balance changed'')
      else Inr (s\<lparr>gs_cards := upd_where (debitable i a) (\<lambda>c. c\<lparr>gc_balance := gc_balance c - a\<rparr>) (gs_cards s)\<rparr>))"

definition debit :: "string \<Rightarrow> string \<Rightarrow> num \<Rightarrow> gift_state \<Rightarrow> (string \<times> num \<times> gift_state) res" where
  "debit branchId code maxAmount s =
     ebind (debitQuote branchId code maxAmount s) (\<lambda>(i, amount).
     ebind (debitWrite i amount s) (\<lambda>s'. Inr (i, amount, s')))"

definition recordRedemption :: "string \<Rightarrow> string \<Rightarrow> num \<Rightarrow> gift_state \<Rightarrow> gift_state" where
  "recordRedemption i orderId amount s =
     s\<lparr>gs_redemptions := gs_redemptions s @ [\<lparr>rd_giftCardId = i, rd_orderId = orderId, rd_amount = to_column 100 amount\<rparr>]\<rparr>"

text \<open>What checkout does with a card.\<close>

definition redeemCard :: "string \<Rightarrow> string \<Rightarrow> string \<Rightarrow> num \<Rightarrow> gift_state \<Rightarrow> (num \<times> gift_state) res" where
  "redeemCard branchId orderId code maxAmount s =
     ebind (debit branchId code maxAmount s) (\<lambda>(i, amount, s').
     Inr (amount, recordRedemption i orderId amount s'))"

section \<open>The card ledger\<close>

definition card_balance :: "gift_state \<Rightarrow> string \<Rightarrow> int" where
  "card_balance s i = sum_list (map gc_balance (filter (\<lambda>c. gc_id c = i) (gs_cards s)))"

definition redeemed :: "gift_state \<Rightarrow> string \<Rightarrow> int" where
  "redeemed s i = sum_list (map rd_amount (filter (\<lambda>r. rd_giftCardId r = i) (gs_redemptions s)))"

text \<open>
  One redemption, with the amount quoted from whatever rows were read before (an earlier state \<open>s0\<close>): the
  guarded decrement and the redemption row.
\<close>

inductive gift_step :: "gift_state \<Rightarrow> gift_state \<Rightarrow> bool" where
  "keyed gc_id (gs_cards s) \<Longrightarrow> debitQuote br code mx s0 = Inr (i, a) \<Longrightarrow> debitWrite i a s = Inr t \<Longrightarrow>
   gift_step s (recordRedemption i oid a t)"

inductive_cases gift_stepE: "gift_step s t"

lemma card_balance_keyed:
  "keyed gc_id cs \<Longrightarrow> c \<in> set cs \<Longrightarrow> filter (\<lambda>d. gc_id d = gc_id c) cs = [c]"
proof (induction cs)
  case (Cons d cs)
  then show ?case by (auto simp: keyed_def filter_empty_conv image_iff)
qed simp

lemma debitWrite_balance:
  assumes "keyed gc_id (gs_cards s)" "debitWrite i a s = Inr t"
  shows "card_balance t j = card_balance s j - (if j = i then to_column 100 a else 0)"
    "to_column 100 a \<le> card_balance s i" "gs_redemptions t = gs_redemptions s" "keyed gc_id (gs_cards t)"
proof -
  let ?a = "to_column 100 a"
  from assms(2) have t: "t = s\<lparr>gs_cards := upd_where (debitable i ?a) (\<lambda>c. c\<lparr>gc_balance := gc_balance c - ?a\<rparr>) (gs_cards s)\<rparr>"
    and ex: "filter (debitable i ?a) (gs_cards s) \<noteq> []"
    by (auto simp: debitWrite_def Let_def count_where_def split: if_splits)
  obtain c where c: "c \<in> set (gs_cards s)" "gc_id c = i" "?a \<le> gc_balance c"
    using ex by (auto simp: filter_empty_conv debitable_def)
  have fc: "filter (\<lambda>d. gc_id d = i) (gs_cards s) = [c]" using card_balance_keyed[OF assms(1) c(1)] c(2) by simp
  show b: "?a \<le> card_balance s i" using fc c(3) by (simp add: card_balance_def)
  show "gs_redemptions t = gs_redemptions s" "keyed gc_id (gs_cards t)"
    using assms(1) by (simp_all add: t row_simps)
  show "card_balance t j = card_balance s j - (if j = i then ?a else 0)"
  proof (cases "j = i")
    case True
    have "filter (\<lambda>d. gc_id d = i) (gs_cards t) =
        upd_where (debitable i ?a) (\<lambda>c. c\<lparr>gc_balance := gc_balance c - ?a\<rparr>) [c]"
      unfolding fc[symmetric] by (simp add: t filter_upd_where)
    then show ?thesis using True fc c by (simp add: card_balance_def row_simps debitable_def)
  next
    case False
    have "filter (\<lambda>d. gc_id d = j) (gs_cards t) = filter (\<lambda>d. gc_id d = j) (gs_cards s)"
      using False by (simp add: t) (rule filter_upd_where_other, auto simp: debitable_def)
    then show ?thesis using False by (simp add: card_balance_def)
  qed
qed

lemma recordRedemption_sel [simp]:
  "card_balance (recordRedemption i oid a t) = card_balance t"
  "redeemed (recordRedemption i oid a t) j = redeemed t j + (if j = i then to_column 100 a else 0)"
  by (auto simp: recordRedemption_def card_balance_def redeemed_def fun_eq_iff)

lemma gift_step_books: "gift_step s t \<Longrightarrow> card_balance t k - card_balance s k = - redeemed t k - (- redeemed s k)"
proof (erule gift_stepE)
  fix br code mx s0 i a t' oid
  assume a: "t = recordRedemption i oid a t'" "keyed gc_id (gs_cards s)" "debitWrite i a s = Inr t'"
  have "redeemed t' k = redeemed s k" using debitWrite_balance(3)[OF a(2,3)] by (simp add: redeemed_def)
  then show ?thesis using debitWrite_balance(1)[OF a(2,3), of k] by (simp add: a(1))
qed

lemma gift_step_floor: "gift_step s t \<Longrightarrow> 0 \<le> card_balance s k \<Longrightarrow> 0 \<le> card_balance t k"
proof (erule gift_stepE)
  fix br code mx s0 i a t' oid
  assume a: "t = recordRedemption i oid a t'" "keyed gc_id (gs_cards s)" "debitWrite i a s = Inr t'"
    "0 \<le> card_balance s k"
  show ?thesis using debitWrite_balance(1)[OF a(2,3), of k] debitWrite_balance(2)[OF a(2,3)] a(4) by (simp add: a(1))
qed

interpretation gift_ledger: capped_ledger card_balance "\<lambda>s k. - redeemed s k" gift_step
  by unfold_locales (auto intro: gift_step_books gift_step_floor simp del: diff_minus_eq_add)

section \<open>Properties\<close>

text \<open>C15: however many checkouts redeem the same card, each with an amount computed from rows it read
  earlier, the card never goes below zero and what has been redeemed is exactly what has left it, so the
  redemptions of a run never exceed the balance it started with.\<close>

theorem gift_card_never_overdrawn:
  assumes "gift_step\<^sup>*\<^sup>* s t" "0 \<le> card_balance s i"
  shows "0 \<le> card_balance t i \<and> redeemed t i - redeemed s i = card_balance s i - card_balance t i \<and>
     redeemed t i - redeemed s i \<le> card_balance s i"
  using gift_ledger.run_books[OF assms(1), of i] gift_ledger.run_floor[OF assms] gift_ledger.run_outflow[OF assms]
  by simp

definition sample_cards :: gift_state where
  "sample_cards = \<lparr>gs_cards = [\<lparr>gc_id = ''g1'', gc_branchId = ''b'', gc_code = ''AB12'', gc_initialValue = 5000,
     gc_balance = 5000, gc_customerId = None, gc_isActive = True\<rparr>], gs_redemptions = []\<rparr>"

lemma sample_quote: "debitQuote ''b'' ''ab12'' (cents 3000) sample_cards = Inr (''g1'', cents 3000)"
proof -
  have "to_upper ''ab12'' = ''AB12''" by code_simp
  then show ?thesis by (simp add: debitQuote_def sample_cards_def in_range_def min_def)
qed

text \<open>Two checkouts quote 30.00 from the same rows: the second decrement is refused, not overdrawn.\<close>

theorem gift_card_never_overdrawn_witness:
  "\<exists>t. gift_step sample_cards t \<and> card_balance t ''g1'' = 2000 \<and> redeemed t ''g1'' = 3000 \<and>
     debitWrite ''g1'' (cents 3000) t = Inl (BadRequest ''Gift card balance changed'')"
proof -
  let ?u = "sample_cards\<lparr>gs_cards := upd_where (debitable ''g1'' 3000) (\<lambda>c. c\<lparr>gc_balance := gc_balance c - 3000\<rparr>) (gs_cards sample_cards)\<rparr>"
  let ?t = "recordRedemption ''g1'' ''o1'' (cents 3000) ?u"
  have w: "debitWrite ''g1'' (cents 3000) sample_cards = Inr ?u"
    by (simp add: debitWrite_def Let_def in_range_def count_where_def sample_cards_def debitable_def)
  have st: "gift_step sample_cards ?t"
    using gift_step.intros[OF _ sample_quote w, of "''o1''"] by (simp add: sample_cards_def keyed_def)
  have b: "card_balance sample_cards ''g1'' = 5000" "redeemed sample_cards ''g1'' = 0"
    "card_balance ?t ''g1'' = 2000"
    by (simp_all add: card_balance_def redeemed_def sample_cards_def row_simps debitable_def)
  have r: "debitWrite ''g1'' (cents 3000) ?t = Inl (BadRequest ''Gift card balance changed'')"
    by (simp add: debitWrite_def Let_def in_range_def count_where_def sample_cards_def debitable_def
        recordRedemption_def row_simps)
  have "redeemed ?t ''g1'' = 3000"
    using gift_card_never_overdrawn[OF r_into_rtranclp[of gift_step, OF st], of "''g1''"] b by simp
  then show ?thesis using st b r by blast
qed

end
