(* ===== verification/Order_Types.thy ===== *)
theory Order_Types
  imports Prelude
begin

text \<open>
  The enumerations of an order, as the database schema and \<open>packages/types/src/orders.ts\<close> list them.
  Order status (billing), acceptance (the yes or no of an online order) and the kitchen ticket status of
  \<open>Kot_Lifecycle\<close> are three separate states.
\<close>

datatype order_type = DINE_IN | TAKEAWAY | DELIVERY | DRIVE_THRU | QR_ORDER | KIOSK | PHONE

datatype order_status = OPEN | BILLED | PAID | ORDER_CANCELLED

datatype order_channel = STAFF | ONLINE

datatype acceptance_status = NOT_REQUIRED | PENDING | ORDER_ACCEPTED | ORDER_REJECTED

datatype cancel_source = BY_STAFF | BY_CUSTOMER | KITCHEN_REJECTED | ONLINE_DECLINED

datatype delivery_status = UNASSIGNED | ASSIGNED | PICKED_UP | DELIVERED | FAILED

datatype table_status = AVAILABLE | OCCUPIED | RESERVED | CLEANING | OUT_OF_SERVICE

datatype portion_kind = HALF | FULL | CUSTOM_PORTION

end
