(* ===== verification/Referrals.thy ===== *)
theory Referrals
  imports Pricing Order_Types Ledger
begin

text \<open>
  Customers, loyalty points and referral rewards: \<open>modules/referrals/referrals.service.ts\<close> and the two
  places of checkout (\<open>modules/orders/orders.service.ts\<close>) that redeem and earn points. The points journal
  has a unique idempotency key: a plain insert with a known key fails (\<open>UniqueViolation\<close>), an insert with
  \<open>skipDuplicates\<close> drops the row. Random codes are arguments.
\<close>

record customer =
  cu_id :: string
  cu_branchId :: string
  cu_name :: "string option"
  cu_phone :: "string option"
  cu_loyaltyPoints :: int
  cu_referralCode :: "string option"
  cu_walletBalance :: int

datatype referral_status = REFERRAL_PENDING | REFERRAL_REWARDED

record referral =
  rl_id :: string
  rl_branchId :: string
  rl_code :: string
  rl_referrerId :: string
  rl_referredId :: string
  rl_status :: referral_status
  rl_referrerPoints :: "int option"
  rl_referredPoints :: "int option"
  rl_qualifyingOrderId :: "string option"

record points_row =
  pt_branchId :: string
  pt_customerId :: string
  pt_delta :: int
  pt_reason :: string
  pt_referralId :: "string option"
  pt_orderId :: "string option"
  pt_key :: string

record points_state =
  ps_customers :: "customer list"
  ps_referrals :: "referral list"
  ps_ledger :: "points_row list"

text \<open>The referral settings of a restaurant.\<close>

record referral_config =
  rc_enabled :: bool
  rc_sharerPoints :: int
  rc_referredPoints :: int
  rc_minPurchase :: int

definition findCustomer :: "string \<Rightarrow> points_state \<Rightarrow> customer option" where
  "findCustomer i s = find (\<lambda>c. cu_id c = i) (ps_customers s)"

definition addPoints :: "string \<Rightarrow> int \<Rightarrow> points_state \<Rightarrow> points_state" where
  "addPoints i n s = s\<lparr>ps_customers := upd_where (\<lambda>c. cu_id c = i)
       (\<lambda>c. c\<lparr>cu_loyaltyPoints := cu_loyaltyPoints c + n\<rparr>) (ps_customers s)\<rparr>"

section \<open>Referral codes\<close>

definition digits :: "string option \<Rightarrow> string" where
  "digits p = filter is_digit (case p of None \<Rightarrow> '''' | Some s \<Rightarrow> s)"

definition last_ten :: "string \<Rightarrow> string" where
  "last_ten s = drop (length s - 10) s"

definition samePhone :: "string option \<Rightarrow> string option \<Rightarrow> bool" where
  "samePhone a b \<longleftrightarrow> (let x = last_ten (digits a); y = last_ten (digits b) in 6 \<le> length x \<and> x = y)"

definition code_valid :: "string \<Rightarrow> bool" where
  "code_valid c \<longleftrightarrow> 6 \<le> length c \<and> length c \<le> 12 \<and>
     list_all (\<lambda>x. is_digit x \<or> (65 \<le> (of_char x :: nat) \<and> (of_char x :: nat) \<le> 90)) c"

text \<open>
  \<open>codeFor\<close>: the loop over six random candidates. A candidate another customer holds violates the unique
  index and the next one is tried; an already filled slot ends the loop.
\<close>

fun tryCodes :: "string \<Rightarrow> string list \<Rightarrow> points_state \<Rightarrow> string option \<times> points_state" where
  "tryCodes i [] s = (None, s)"
| "tryCodes i (code # codes) s =
     (if count_where (\<lambda>c. cu_id c = i \<and> cu_referralCode c = None) (ps_customers s) = 0 then (None, s)
      else if 0 < count_where (\<lambda>c. cu_referralCode c = Some code) (ps_customers s) then tryCodes i codes s
      else (Some code, s\<lparr>ps_customers := upd_where (\<lambda>c. cu_id c = i \<and> cu_referralCode c = None)
              (\<lambda>c. c\<lparr>cu_referralCode := Some code\<rparr>) (ps_customers s)\<rparr>))"

definition codeFor :: "string list \<Rightarrow> string \<Rightarrow> points_state \<Rightarrow> (string option \<times> points_state) res" where
  "codeFor candidates i s =
     (case findCustomer i s of
        None \<Rightarrow> Inl RecordMissing
      | Some c \<Rightarrow>
          if cu_referralCode c \<noteq> None \<and> cu_referralCode c \<noteq> Some '''' then Inr (cu_referralCode c, s)
          else (case tryCodes i (take 6 candidates) s of
                  (Some code, s') \<Rightarrow> Inr (Some code, s')
                | (None, s') \<Rightarrow>
                    (case findCustomer i s' of None \<Rightarrow> Inl RecordMissing
                     | Some c' \<Rightarrow> Inr (cu_referralCode c', s'))))"

section \<open>Attribution\<close>

datatype attach_result = Applied "string option" | Refused string

text \<open>
  The checks of \<open>attach\<close>, on the rows as read: \<open>restaurantOf\<close> gives the restaurant of a branch and
  \<open>orders\<close> the customer and status of every order. The answer is the referrer and the referred customer,
  or the reason for refusing.
\<close>

definition attachCheck ::
  "(string \<Rightarrow> string) \<Rightarrow> referral_config \<Rightarrow> (string option \<times> order_status) list \<Rightarrow> string \<Rightarrow> string \<Rightarrow> string \<Rightarrow>
   points_state \<Rightarrow> string + (customer \<times> customer)" where
  "attachCheck restaurantOf cfg orders restaurantId referredId rawCode s =
     (let code = to_upper (trim rawCode);
          inRestaurant = (\<lambda>c. restaurantOf (cu_branchId c) = restaurantId)
      in if \<not> code_valid code then Inl ''Invalid referral code''
         else if \<not> rc_enabled cfg then Inl ''Referral rewards are not active''
         else case find (\<lambda>c. cu_referralCode c = Some code \<and> inRestaurant c) (ps_customers s) of
           None \<Rightarrow> Inl ''Unknown referral code''
         | Some referrer \<Rightarrow>
         (case find (\<lambda>c. cu_id c = referredId \<and> inRestaurant c) (ps_customers s) of
           None \<Rightarrow> Inl ''Unknown customer''
         | Some referred \<Rightarrow>
             if cu_id referrer = cu_id referred \<or> samePhone (cu_phone referrer) (cu_phone referred)
             then Inl ''You cannot use your own referral code''
             else if find (\<lambda>r. rl_referredId r = referredId) (ps_referrals s) \<noteq> None
             then Inl ''This customer was already referred''
             else if 0 < count_where (\<lambda>(c, st). c = Some referredId \<and> (st = PAID \<or> st = BILLED)) orders
             then Inl ''Referral rewards are for new customers''
             else if (case cu_phone referred of
                        None \<Rightarrow> False
                      | Some ph \<Rightarrow> ph \<noteq> '''' \<and>
                          (let tail = last_ten (digits (Some ph)) in
                           6 \<le> length tail \<and>
                           (let others = filter (\<lambda>c. inRestaurant c \<and> cu_id c \<noteq> cu_id referred \<and>
                                  (case cu_phone c of None \<Rightarrow> False | Some p \<Rightarrow> suffix tail p)) (ps_customers s)
                            in 0 < count_where (\<lambda>(c, st). c \<in> Some ` set (map cu_id others) \<and> st = PAID) orders)))
             then Inl ''Referral rewards are for new customers''
             else Inr (referrer, referred)))"

text \<open>The insert, with its unique index on the referred customer.\<close>

definition attachCreate ::
  "string \<Rightarrow> string \<Rightarrow> customer \<times> customer \<Rightarrow> points_state \<Rightarrow> attach_result \<times> points_state" where
  "attachCreate newId rawCode p s =
     (let (referrer, referred) = p in
      if 0 < count_where (\<lambda>r. rl_referredId r = cu_id referred) (ps_referrals s)
      then (Refused ''This customer was already referred'', s)
      else (Applied (cu_name referrer), s\<lparr>ps_referrals := ps_referrals s @
        [\<lparr>rl_id = newId, rl_branchId = cu_branchId referred, rl_code = to_upper (trim rawCode),
          rl_referrerId = cu_id referrer, rl_referredId = cu_id referred, rl_status = REFERRAL_PENDING,
          rl_referrerPoints = None, rl_referredPoints = None, rl_qualifyingOrderId = None\<rparr>]\<rparr>))"

definition attach ::
  "(string \<Rightarrow> string) \<Rightarrow> referral_config \<Rightarrow> (string option \<times> order_status) list \<Rightarrow> string \<Rightarrow> string \<Rightarrow> string \<Rightarrow> string \<Rightarrow>
   points_state \<Rightarrow> attach_result \<times> points_state" where
  "attach restaurantOf cfg orders newId restaurantId referredId rawCode s =
     (case attachCheck restaurantOf cfg orders restaurantId referredId rawCode s of
        Inl reason \<Rightarrow> (Refused reason, s)
      | Inr p \<Rightarrow> attachCreate newId rawCode p s)"

section \<open>Points\<close>

definition credit ::
  "string \<Rightarrow> string \<Rightarrow> int \<Rightarrow> string \<Rightarrow> string \<Rightarrow> string option \<Rightarrow> string option \<Rightarrow> points_state \<Rightarrow> points_state res" where
  "credit branchId customerId points reason key referralId orderId s =
     (if points \<le> 0 then Inr s
      else if 0 < count_where (\<lambda>r. pt_key r = key) (ps_ledger s) then Inl UniqueViolation
      else if findCustomer customerId s = None then Inl RecordMissing
      else Inr (addPoints customerId points (s\<lparr>ps_ledger := ps_ledger s @
             [\<lparr>pt_branchId = branchId, pt_customerId = customerId, pt_delta = points, pt_reason = reason,
               pt_referralId = referralId, pt_orderId = orderId, pt_key = key\<rparr>]\<rparr>)))"

record paid_order =
  po_id :: string
  po_branchId :: string
  po_customerId :: "string option"
  po_totalAmount :: num
  po_foodValue :: num

text \<open>\<open>onOrderPaid\<close>; the PENDING to REWARDED update is the claim.\<close>

definition onOrderPaid :: "referral_config \<Rightarrow> paid_order \<Rightarrow> points_state \<Rightarrow> points_state res" where
  "onOrderPaid cfg ord s =
     (case po_customerId ord of
        None \<Rightarrow> Inr s
      | Some cust \<Rightarrow>
     if cust = '''' \<or> \<not> 0 < po_totalAmount ord then Inr s
     else case find (\<lambda>r. rl_referredId r = cust) (ps_referrals s) of
        None \<Rightarrow> Inr s
      | Some r \<Rightarrow>
     if rl_status r \<noteq> REFERRAL_PENDING then Inr s
     else if \<not> rc_enabled cfg then Inr s
     else if po_foodValue ord < cents (rc_minPurchase cfg) then Inr s
     else if count_where (\<lambda>x. rl_id x = rl_id r \<and> rl_status x = REFERRAL_PENDING) (ps_referrals s) \<noteq> 1 then Inr s
     else
       (let s1 = s\<lparr>ps_referrals := upd_where (\<lambda>x. rl_id x = rl_id r \<and> rl_status x = REFERRAL_PENDING)
              (\<lambda>x. x\<lparr>rl_status := REFERRAL_REWARDED, rl_qualifyingOrderId := Some (po_id ord),
                     rl_referrerPoints := Some (rc_sharerPoints cfg),
                     rl_referredPoints := Some (rc_referredPoints cfg)\<rparr>) (ps_referrals s)\<rparr>
        in ebind (credit (rl_branchId r) (rl_referredId r) (rc_referredPoints cfg) ''REFERRAL_REFERRED''
                    (''referral:'' @ rl_id r @ '':referred'') (Some (rl_id r)) (Some (po_id ord)) s1)
             (credit (rl_branchId r) (rl_referrerId r) (rc_sharerPoints cfg) ''REFERRAL_REFERRER''
                    (''referral:'' @ rl_id r @ '':referrer'') (Some (rl_id r)) (Some (po_id ord)))))"

text \<open>\<open>createMany\<close> with \<open>skipDuplicates\<close>.\<close>

definition insertNew :: "points_row \<Rightarrow> points_state \<Rightarrow> points_state" where
  "insertNew row s =
     (if 0 < count_where (\<lambda>r. pt_key r = pt_key row) (ps_ledger s) then s
      else s\<lparr>ps_ledger := ps_ledger s @ [row]\<rparr>)"

definition recordOrderPoints ::
  "string \<Rightarrow> string \<Rightarrow> string \<Rightarrow> int \<Rightarrow> int \<Rightarrow> points_state \<Rightarrow> points_state" where
  "recordOrderPoints branchId customerId orderId earned used s =
     (let s1 = (if 0 < earned
                then insertNew \<lparr>pt_branchId = branchId, pt_customerId = customerId, pt_delta = earned,
                       pt_reason = ''EARN'', pt_referralId = None, pt_orderId = Some orderId,
                       pt_key = ''earn:'' @ orderId\<rparr> s
                else s)
      in if 0 < used
         then insertNew \<lparr>pt_branchId = branchId, pt_customerId = customerId, pt_delta = - used,
                       pt_reason = ''REDEEM'', pt_referralId = None, pt_orderId = Some orderId,
                       pt_key = ''redeem:'' @ orderId\<rparr> s1
         else s1)"

text \<open>How checkout redeems points: read, guarded decrement, journal row.\<close>

definition redeemPoints :: "string \<Rightarrow> string \<Rightarrow> string \<Rightarrow> int \<Rightarrow> points_state \<Rightarrow> points_state res" where
  "redeemPoints branchId customerId orderId n s =
     (case findCustomer customerId s of
        None \<Rightarrow> Inl RecordMissing
      | Some c \<Rightarrow>
          if cu_loyaltyPoints c < n then Inl (BadRequest ''Not enough loyalty points available'')
          else if count_where (\<lambda>c. cu_id c = customerId \<and> n \<le> cu_loyaltyPoints c) (ps_customers s) = 0
          then Inl (BadRequest ''Customer loyalty balance changed'')
          else Inr (recordOrderPoints branchId customerId orderId 0 n
                 (s\<lparr>ps_customers := upd_where (\<lambda>c. cu_id c = customerId \<and> n \<le> cu_loyaltyPoints c)
                      (\<lambda>c. c\<lparr>cu_loyaltyPoints := cu_loyaltyPoints c - n\<rparr>) (ps_customers s)\<rparr>)))"

text \<open>How checkout earns points once a sale is paid.\<close>

definition earnPoints :: "string \<Rightarrow> string \<Rightarrow> string \<Rightarrow> int \<Rightarrow> points_state \<Rightarrow> points_state res" where
  "earnPoints branchId customerId orderId n s =
     (if 0 < n
      then if findCustomer customerId s = None then Inl RecordMissing
           else Inr (recordOrderPoints branchId customerId orderId n 0 (addPoints customerId n s))
      else Inr s)"

section \<open>The points ledger\<close>

definition points :: "points_state \<Rightarrow> string \<Rightarrow> int" where
  "points s i = sum_list (map cu_loyaltyPoints (filter (\<lambda>c. cu_id c = i) (ps_customers s)))"

definition journal :: "points_state \<Rightarrow> string \<Rightarrow> int" where
  "journal s i = sum_list (map pt_delta (filter (\<lambda>r. pt_customerId r = i) (ps_ledger s)))"

definition known_key :: "string \<Rightarrow> points_state \<Rightarrow> bool" where
  "known_key k s \<longleftrightarrow> (\<exists>r \<in> set (ps_ledger s). pt_key r = k)"

lemma count_key [simp]: "0 < count_where (\<lambda>r. pt_key r = k) (ps_ledger s) \<longleftrightarrow> known_key k s"
  by (auto simp: count_where_def known_key_def filter_empty_conv)

lemma findCustomer_keyed:
  "keyed cu_id (ps_customers s) \<Longrightarrow> findCustomer i s = Some c \<Longrightarrow> filter (\<lambda>c. cu_id c = i) (ps_customers s) = [c]"
proof -
  assume k: "keyed cu_id (ps_customers s)" and f: "findCustomer i s = Some c"
  have c: "c \<in> set (ps_customers s)" "cu_id c = i" using f by (auto simp: findCustomer_def dest: find_SomeD)
  have "filter (\<lambda>d. cu_id d = cu_id c) cs = [c]" if "keyed cu_id cs" "c \<in> set cs" for cs
    using that
  proof (induction cs)
    case (Cons d cs)
    then show ?case by (auto simp: keyed_def filter_empty_conv image_iff)
  qed simp
  from this[OF k c(1)] c(2) show ?thesis by simp
qed

text \<open>Changing the balance of one existing customer by \<open>n\<close>.\<close>

lemma points_upd:
  assumes k: "keyed cu_id (ps_customers s)" and f: "findCustomer i s = Some c" and P: "P c"
    and t: "ps_customers t = upd_where (\<lambda>c. cu_id c = i \<and> P c) (\<lambda>c. c\<lparr>cu_loyaltyPoints := cu_loyaltyPoints c + n\<rparr>) (ps_customers s)"
  shows "points t j = points s j + (if j = i then n else 0)"
proof (cases "j = i")
  case True
  have "filter (\<lambda>c. cu_id c = i) (ps_customers t) =
      upd_where (\<lambda>c. cu_id c = i \<and> P c) (\<lambda>c. c\<lparr>cu_loyaltyPoints := cu_loyaltyPoints c + n\<rparr>) [c]"
    unfolding findCustomer_keyed[OF k f, symmetric] t by (rule filter_upd_where) simp
  moreover have "cu_id c = i" using f by (auto simp: findCustomer_def dest: find_SomeD)
  ultimately show ?thesis using True P findCustomer_keyed[OF k f] by (simp add: points_def row_simps)
next
  case False
  have "filter (\<lambda>c. cu_id c = j) (ps_customers t) = filter (\<lambda>c. cu_id c = j) (ps_customers s)"
    unfolding t using False by (intro filter_upd_where_other) auto
  then show ?thesis using False by (simp add: points_def)
qed

lemma points_cong: "ps_customers s = ps_customers t \<Longrightarrow> points s = points t"
  by (simp add: points_def fun_eq_iff)

lemma addPoints_sel [simp]:
  "ps_ledger (addPoints i n s) = ps_ledger s" "ps_referrals (addPoints i n s) = ps_referrals s"
  "known_key k (addPoints i n s) = known_key k s"
  by (simp_all add: addPoints_def known_key_def)

lemma keyed_addPoints [simp]: "keyed cu_id (ps_customers (addPoints i n s)) = keyed cu_id (ps_customers s)"
  by (simp add: addPoints_def row_simps)

lemma points_addPoints:
  "keyed cu_id (ps_customers s) \<Longrightarrow> findCustomer i s = Some c \<Longrightarrow>
   points (addPoints i n s) j = points s j + (if j = i then n else 0)"
  by (rule points_upd[where P = "\<lambda>_. True"]) (auto simp: addPoints_def)

lemma journal_row:
  "journal (s\<lparr>ps_ledger := ps_ledger s @ [r]\<rparr>) j = journal s j + (if j = pt_customerId r then pt_delta r else 0)"
  by (simp add: journal_def)

lemma journal_cong: "ps_ledger s = ps_ledger t \<Longrightarrow> journal s = journal t"
  by (simp add: journal_def fun_eq_iff)

lemma insertNew_books:
  assumes "\<not> known_key (pt_key r) s"
  shows "journal (insertNew r s) j = journal s j + (if j = pt_customerId r then pt_delta r else 0)"
    "ps_customers (insertNew r s) = ps_customers s" "ps_referrals (insertNew r s) = ps_referrals s"
  using assms by (simp_all add: insertNew_def journal_def)

lemma findCustomer_cong: "ps_customers s = ps_customers t \<Longrightarrow> findCustomer i s = findCustomer i t"
  by (simp add: findCustomer_def)

lemma credit_books:
  assumes k: "keyed cu_id (ps_customers s)" and c: "credit br i n reason key rid oid s = Inr t"
  shows "points t j - points s j = journal t j - journal s j" "points s j \<le> points t j"
    "keyed cu_id (ps_customers t)" "ps_referrals t = ps_referrals s"
    "\<exists>rows. ps_ledger t = ps_ledger s @ rows \<and> length rows \<le> 1 \<and> (\<forall>r \<in> set rows. pt_referralId r = rid \<and> pt_delta r = n)"
proof -
  let ?row = "\<lparr>pt_branchId = br, pt_customerId = i, pt_delta = n, pt_reason = reason,
     pt_referralId = rid, pt_orderId = oid, pt_key = key\<rparr>"
  let ?u = "s\<lparr>ps_ledger := ps_ledger s @ [?row]\<rparr>"
  have "t = s \<or> (0 < n \<and> (\<exists>cu. findCustomer i s = Some cu) \<and> t = addPoints i n ?u)"
    using c by (auto simp: credit_def split: if_splits)
  then have "(points t j - points s j = journal t j - journal s j) \<and> points s j \<le> points t j \<and>
     keyed cu_id (ps_customers t) \<and> ps_referrals t = ps_referrals s \<and>
     (\<exists>rows. ps_ledger t = ps_ledger s @ rows \<and> length rows \<le> 1 \<and> (\<forall>r \<in> set rows. pt_referralId r = rid \<and> pt_delta r = n))"
  proof (elim disjE conjE exE)
    assume "t = s"
    then show ?thesis using k by auto
  next
    fix cu assume a: "0 < n" "findCustomer i s = Some cu" "t = addPoints i n ?u"
    have f: "findCustomer i ?u = Some cu" using a(2) by (simp add: findCustomer_def)
    have "points t j = points s j + (if j = i then n else 0)"
      using points_addPoints[OF _ f, of n j] k points_cong[of ?u s] by (simp add: a(3))
    moreover have "journal t j = journal s j + (if j = i then n else 0)"
      using journal_cong[of t ?u] journal_row[of s ?row j] by (simp add: a(3))
    ultimately show ?thesis using a(1,3) k by auto
  qed
  then show "points t j - points s j = journal t j - journal s j" "points s j \<le> points t j"
    "keyed cu_id (ps_customers t)" "ps_referrals t = ps_referrals s"
    "\<exists>rows. ps_ledger t = ps_ledger s @ rows \<and> length rows \<le> 1 \<and> (\<forall>r \<in> set rows. pt_referralId r = rid \<and> pt_delta r = n)"
    by blast+
qed

text \<open>A reward, when it is paid: the referral claimed and the two credits.\<close>

definition claim :: "referral_config \<Rightarrow> string \<Rightarrow> string \<Rightarrow> points_state \<Rightarrow> points_state" where
  "claim cfg rid oid s = s\<lparr>ps_referrals := upd_where (\<lambda>x. rl_id x = rid \<and> rl_status x = REFERRAL_PENDING)
      (\<lambda>x. x\<lparr>rl_status := REFERRAL_REWARDED, rl_qualifyingOrderId := Some oid,
             rl_referrerPoints := Some (rc_sharerPoints cfg),
             rl_referredPoints := Some (rc_referredPoints cfg)\<rparr>) (ps_referrals s)\<rparr>"

lemma onOrderPaid_cases:
  assumes "onOrderPaid cfg ord s = Inr t"
  shows "t = s \<or> (\<exists>r u. po_customerId ord = Some (rl_referredId r) \<and> r \<in> set (ps_referrals s) \<and>
     rl_status r = REFERRAL_PENDING \<and>
     credit (rl_branchId r) (rl_referredId r) (rc_referredPoints cfg) ''REFERRAL_REFERRED''
       (''referral:'' @ rl_id r @ '':referred'') (Some (rl_id r)) (Some (po_id ord)) (claim cfg (rl_id r) (po_id ord) s) = Inr u \<and>
     credit (rl_branchId r) (rl_referrerId r) (rc_sharerPoints cfg) ''REFERRAL_REFERRER''
       (''referral:'' @ rl_id r @ '':referrer'') (Some (rl_id r)) (Some (po_id ord)) u = Inr t)"
proof (cases "t = s")
  case False
  then obtain cust r where c: "po_customerId ord = Some cust" "find (\<lambda>r. rl_referredId r = cust) (ps_referrals s) = Some r"
    using assms by (auto simp: onOrderPaid_def split: option.splits if_splits)
  have r: "r \<in> set (ps_referrals s)" "rl_referredId r = cust" using find_SomeD[OF c(2)] by auto
  have p: "rl_status r = REFERRAL_PENDING" using assms c False by (auto simp: onOrderPaid_def split: if_splits)
  have "ebind (credit (rl_branchId r) (rl_referredId r) (rc_referredPoints cfg) ''REFERRAL_REFERRED''
       (''referral:'' @ rl_id r @ '':referred'') (Some (rl_id r)) (Some (po_id ord)) (claim cfg (rl_id r) (po_id ord) s))
     (credit (rl_branchId r) (rl_referrerId r) (rc_sharerPoints cfg) ''REFERRAL_REFERRER''
       (''referral:'' @ rl_id r @ '':referrer'') (Some (rl_id r)) (Some (po_id ord))) = Inr t"
    using assms c False by (auto simp: onOrderPaid_def claim_def Let_def split: if_splits)
  then show ?thesis using c(1) r p by (auto simp: ebind_Inr_iff)
qed simp

lemma claim_sel [simp]:
  "ps_customers (claim cfg rid oid s) = ps_customers s" "ps_ledger (claim cfg rid oid s) = ps_ledger s"
  by (simp_all add: claim_def)

lemma onOrderPaid_books:
  assumes "keyed cu_id (ps_customers s)" "onOrderPaid cfg ord s = Inr t"
  shows "points t j - points s j = journal t j - journal s j \<and> points s j \<le> points t j \<and> keyed cu_id (ps_customers t)"
  using onOrderPaid_cases[OF assms(2)]
proof (elim disjE exE conjE)
  fix r u
  assume c1: "credit (rl_branchId r) (rl_referredId r) (rc_referredPoints cfg) ''REFERRAL_REFERRED''
       (''referral:'' @ rl_id r @ '':referred'') (Some (rl_id r)) (Some (po_id ord)) (claim cfg (rl_id r) (po_id ord) s) = Inr u"
    and c2: "credit (rl_branchId r) (rl_referrerId r) (rc_sharerPoints cfg) ''REFERRAL_REFERRER''
       (''referral:'' @ rl_id r @ '':referrer'') (Some (rl_id r)) (Some (po_id ord)) u = Inr t"
  have k1: "keyed cu_id (ps_customers (claim cfg (rl_id r) (po_id ord) s))" using assms(1) by simp
  have e: "points (claim cfg (rl_id r) (po_id ord) s) = points s" "journal (claim cfg (rl_id r) (po_id ord) s) = journal s"
    by (rule points_cong, simp, rule journal_cong, simp)
  note b1 = credit_books[OF k1 c1]
  note b2 = credit_books[OF b1(3) c2]
  show ?thesis using b1(1,2)[of j] b2(1,2)[of j] b2(3) unfolding e by auto
qed (use assms(1) in auto)

lemma redeemPoints_books:
  assumes "keyed cu_id (ps_customers s)" "redeemPoints br i oid n s = Inr t" "\<not> known_key (''redeem:'' @ oid) s" "0 < n"
  shows "points t j - points s j = journal t j - journal s j"
    "points t j = points s j - (if j = i then n else 0)" "n \<le> points s i" "keyed cu_id (ps_customers t)"
proof -
  let ?u = "s\<lparr>ps_customers := upd_where (\<lambda>c. cu_id c = i \<and> n \<le> cu_loyaltyPoints c)
      (\<lambda>c. c\<lparr>cu_loyaltyPoints := cu_loyaltyPoints c - n\<rparr>) (ps_customers s)\<rparr>"
  obtain c where c: "findCustomer i s = Some c" "n \<le> cu_loyaltyPoints c"
    and t: "t = recordOrderPoints br i oid 0 n ?u"
    using assms(2) by (auto simp: redeemPoints_def not_less split: option.splits if_splits)
  have nk: "\<not> known_key (''redeem:'' @ oid) ?u" using assms(3) by (simp add: known_key_def)
  have pu: "points ?u j = points s j + (if j = i then - n else 0)"
    by (rule points_upd[OF assms(1) c(1), where P = "\<lambda>c. n \<le> cu_loyaltyPoints c"]) (use c(2) in auto)
  have tc: "ps_customers t = ps_customers ?u" "journal t j = journal ?u j + (if j = i then - n else 0)"
    using nk assms(4) by (simp_all add: t recordOrderPoints_def insertNew_books)
  show pt: "points t j = points s j - (if j = i then n else 0)"
    using pu points_cong[OF tc(1)] by auto
  have "journal ?u = journal s" by (rule journal_cong) simp
  then show "points t j - points s j = journal t j - journal s j" using pt tc(2) by auto
  show "n \<le> points s i" using c(2) findCustomer_keyed[OF assms(1) c(1)] by (simp add: points_def)
  show "keyed cu_id (ps_customers t)" using assms(1) by (simp add: tc(1) row_simps)
qed

lemma earnPoints_books:
  assumes "keyed cu_id (ps_customers s)" "earnPoints br i oid n s = Inr t" "\<not> known_key (''earn:'' @ oid) s"
  shows "points t j - points s j = journal t j - journal s j"
    "points t j = points s j + (if j = i then max 0 n else 0)" "keyed cu_id (ps_customers t)"
proof -
  have "(points t j - points s j = journal t j - journal s j) \<and>
    points t j = points s j + (if j = i then max 0 n else 0) \<and> keyed cu_id (ps_customers t)"
  proof (cases "0 < n")
    case False
    then show ?thesis using assms by (simp add: earnPoints_def)
  next
    case True
    then obtain c where c: "findCustomer i s = Some c" and t: "t = recordOrderPoints br i oid n 0 (addPoints i n s)"
      using assms(2) by (auto simp: earnPoints_def split: if_splits)
    have tc: "ps_customers t = ps_customers (addPoints i n s)"
      "journal t j = journal (addPoints i n s) j + (if j = i then n else 0)"
      using assms(3) True by (simp_all add: t recordOrderPoints_def insertNew_books)
    have "journal (addPoints i n s) = journal s" by (rule journal_cong) simp
    then show ?thesis using points_addPoints[OF assms(1) c, of n j] points_cong[OF tc(1)] tc True assms(1) by simp
  qed
  then show "points t j - points s j = journal t j - journal s j"
    "points t j = points s j + (if j = i then max 0 n else 0)" "keyed cu_id (ps_customers t)" by blast+
qed

text \<open>One operation on points; an order redeems and earns at most once.\<close>

inductive points_step :: "points_state \<Rightarrow> points_state \<Rightarrow> bool" where
  redeem: "keyed cu_id (ps_customers s) \<Longrightarrow> 0 < n \<Longrightarrow> \<not> known_key (''redeem:'' @ oid) s \<Longrightarrow>
     redeemPoints br i oid n s = Inr t \<Longrightarrow> points_step s t"
| earn: "keyed cu_id (ps_customers s) \<Longrightarrow> \<not> known_key (''earn:'' @ oid) s \<Longrightarrow>
     earnPoints br i oid n s = Inr t \<Longrightarrow> points_step s t"
| reward: "keyed cu_id (ps_customers s) \<Longrightarrow> onOrderPaid cfg ord s = Inr t \<Longrightarrow> points_step s t"

lemma points_step_books: "points_step s t \<Longrightarrow> points t k - points s k = journal t k - journal s k"
  by (erule points_step.cases)
    (blast dest: redeemPoints_books(1) earnPoints_books(1) onOrderPaid_books)+

lemma points_step_floor:
  assumes "points_step s t" "0 \<le> points s k"
  shows "0 \<le> points t k"
  using assms(1)
proof (cases rule: points_step.cases)
  case (redeem n oid br i)
  show ?thesis using redeemPoints_books(2)[OF redeem(1,4,3,2), of k] redeemPoints_books(3)[OF redeem(1,4,3,2)] assms(2)
    by (auto split: if_splits)
next
  case (earn oid br i n)
  show ?thesis using earnPoints_books(2)[OF earn(1,3,2), of k] assms(2) by simp
next
  case (reward cfg ord)
  show ?thesis using onOrderPaid_books[OF reward, of k] assms(2) by simp
qed

interpretation points_ledger: capped_ledger points journal points_step
  by unfold_locales (auto intro: points_step_books points_step_floor)

section \<open>Properties\<close>


definition sample_points :: points_state where
  "sample_points = \<lparr>ps_customers =
      [\<lparr>cu_id = ''ann'', cu_branchId = ''b'', cu_name = Some ''Ann'', cu_phone = Some ''5550001111'', cu_loyaltyPoints = 40,
        cu_referralCode = Some ''ANNAAA2'', cu_walletBalance = 0\<rparr>,
       \<lparr>cu_id = ''bob'', cu_branchId = ''b'', cu_name = Some ''Bob'', cu_phone = Some ''5550002222'', cu_loyaltyPoints = 0,
        cu_referralCode = None, cu_walletBalance = 0\<rparr>],
     ps_referrals = [\<lparr>rl_id = ''r1'', rl_branchId = ''b'', rl_code = ''ANNAAA2'', rl_referrerId = ''ann'',
        rl_referredId = ''bob'', rl_status = REFERRAL_PENDING, rl_referrerPoints = None, rl_referredPoints = None,
        rl_qualifyingOrderId = None\<rparr>],
     ps_ledger = []\<rparr>"

definition sample_referral_config :: referral_config where
  "sample_referral_config = \<lparr>rc_enabled = True, rc_sharerPoints = 15, rc_referredPoints = 10, rc_minPurchase = 0\<rparr>"

definition sample_paid :: paid_order where
  "sample_paid = \<lparr>po_id = ''o1'', po_branchId = ''b'', po_customerId = Some ''bob'', po_totalAmount = 5, po_foodValue = 5\<rparr>"

lemma sample_redeem: "\<exists>t. redeemPoints ''b'' ''ann'' ''o9'' 25 sample_points = Inr t"
  by (simp add: redeemPoints_def findCustomer_def sample_points_def count_where_def)




text \<open>Attribution is only for new customers and happens once: a referral is attached only for another
  person than the referrer, who was never referred and has no paid or billed order, and afterwards that
  customer has exactly one referral, still pending, so no points have moved.\<close>

theorem attach_only_new_customers:
  assumes "attach restaurantOf cfg orders newId restaurantId referredId rawCode s = (Applied name, t)"
  shows "rc_enabled cfg \<and> ps_ledger t = ps_ledger s \<and> ps_customers t = ps_customers s \<and>
     (\<exists>a b. a \<in> set (ps_customers s) \<and> b \<in> set (ps_customers s) \<and> cu_id b = referredId \<and> cu_id a \<noteq> cu_id b \<and>
        \<not> samePhone (cu_phone a) (cu_phone b) \<and> cu_referralCode a = Some (to_upper (trim rawCode)) \<and>
        restaurantOf (cu_branchId a) = restaurantId \<and> restaurantOf (cu_branchId b) = restaurantId \<and>
        (\<forall>r \<in> set (ps_referrals s). rl_referredId r \<noteq> referredId) \<and>
        (\<forall>(c, st) \<in> set orders. c = Some referredId \<longrightarrow> st \<noteq> PAID \<and> st \<noteq> BILLED) \<and>
        filter (\<lambda>r. rl_referredId r = referredId) (ps_referrals t) =
          [\<lparr>rl_id = newId, rl_branchId = cu_branchId b, rl_code = to_upper (trim rawCode), rl_referrerId = cu_id a,
            rl_referredId = referredId, rl_status = REFERRAL_PENDING, rl_referrerPoints = None,
            rl_referredPoints = None, rl_qualifyingOrderId = None\<rparr>])"
proof -
  obtain a b where ab: "attachCheck restaurantOf cfg orders restaurantId referredId rawCode s = Inr (a, b)"
    and cr: "attachCreate newId rawCode (a, b) s = (Applied name, t)"
    using assms by (auto simp: attach_def split: sum.splits)
  have c: "rc_enabled cfg" "find (\<lambda>c. cu_referralCode c = Some (to_upper (trim rawCode)) \<and>
      restaurantOf (cu_branchId c) = restaurantId) (ps_customers s) = Some a"
    "find (\<lambda>c. cu_id c = referredId \<and> restaurantOf (cu_branchId c) = restaurantId) (ps_customers s) = Some b"
    "cu_id a \<noteq> cu_id b" "\<not> samePhone (cu_phone a) (cu_phone b)"
    "find (\<lambda>r. rl_referredId r = referredId) (ps_referrals s) = None"
    "count_where (\<lambda>(c, st). c = Some referredId \<and> (st = PAID \<or> st = BILLED)) orders = 0"
    using ab by (auto simp: attachCheck_def Let_def split: if_splits option.splits)
  have a: "a \<in> set (ps_customers s)" "cu_referralCode a = Some (to_upper (trim rawCode))"
      "restaurantOf (cu_branchId a) = restaurantId"
    and b: "b \<in> set (ps_customers s)" "cu_id b = referredId" "restaurantOf (cu_branchId b) = restaurantId"
    using find_SomeD[OF c(2)] find_SomeD[OF c(3)] by auto
  have none: "\<forall>r \<in> set (ps_referrals s). rl_referredId r \<noteq> referredId" using c(6) by (simp add: find_None_iff_ball)
  then have fe: "filter (\<lambda>r. rl_referredId r = referredId) (ps_referrals s) = []" by (simp add: filter_empty_conv)
  have ord: "\<forall>(c, st) \<in> set orders. c = Some referredId \<longrightarrow> st \<noteq> PAID \<and> st \<noteq> BILLED"
    using c(7) by (auto simp: count_where_def filter_empty_conv)
  have t: "t = s\<lparr>ps_referrals := ps_referrals s @
        [\<lparr>rl_id = newId, rl_branchId = cu_branchId b, rl_code = to_upper (trim rawCode),
          rl_referrerId = cu_id a, rl_referredId = cu_id b, rl_status = REFERRAL_PENDING,
          rl_referrerPoints = None, rl_referredPoints = None, rl_qualifyingOrderId = None\<rparr>]\<rparr>"
    using cr by (auto simp: attachCreate_def split: if_splits)
  let ?row = "\<lparr>rl_id = newId, rl_branchId = cu_branchId b, rl_code = to_upper (trim rawCode), rl_referrerId = cu_id a,
            rl_referredId = referredId, rl_status = REFERRAL_PENDING, rl_referrerPoints = None,
            rl_referredPoints = None, rl_qualifyingOrderId = None\<rparr>"
  have rows: "filter (\<lambda>r. rl_referredId r = referredId) (ps_referrals t) = [?row]"
    unfolding t b(2) by (simp add: fe)
  have led: "ps_ledger t = ps_ledger s" "ps_customers t = ps_customers s" unfolding t by simp_all
  show ?thesis
    apply (intro conjI c(1) led)
    apply (rule exI[of _ a], rule exI[of _ b])
    apply (intro conjI a b none ord rows c(4,5))
    done
qed

theorem attach_only_new_customers_witness:
  "\<exists>name t. attach (\<lambda>_. ''rest'') sample_referral_config [(Some ''ann'', PAID)] ''r9'' ''rest'' ''bob'' ''annaaa2''
     (sample_points\<lparr>ps_referrals := []\<rparr>) = (Applied name, t) \<and> length (ps_referrals t) = 1 \<and>
     (\<exists>r. filter (\<lambda>r. rl_referredId r = ''bob'') (ps_referrals t) = [r])"
proof -
  have key: "to_upper (trim ''annaaa2'') = ''ANNAAA2''" by code_simp
  have key2: "code_valid ''ANNAAA2''" by code_simp
  have key3: "\<not> samePhone (Some ''5550001111'') (Some ''5550002222'')" by code_simp
  have find: "find (\<lambda>c. cu_referralCode c = Some ''ANNAAA2'' \<and> ''rest'' = ''rest'') (ps_customers sample_points)
      = Some (ps_customers sample_points ! 0)"
    "find (\<lambda>c. cu_id c = ''bob'' \<and> ''rest'' = ''rest'') (ps_customers sample_points) = Some (ps_customers sample_points ! 1)"
    by (simp_all add: sample_points_def)
  have tail: "last_ten (digits (Some ''5550002222'')) = ''5550002222''" by code_simp
  have ends: "\<not> suffix ''5550002222'' ''5550001111''" by code_simp
  have paid: "count_where (\<lambda>(c, st). c = Some ''bob'' \<and> (st = PAID \<or> st = BILLED)) [(Some ''ann'', PAID)] = 0"
    by (simp add: count_where_def)
  have chk: "attachCheck (\<lambda>_. ''rest'') sample_referral_config [(Some ''ann'', PAID)] ''rest'' ''bob'' ''annaaa2''
     (sample_points\<lparr>ps_referrals := []\<rparr>) = Inr (ps_customers sample_points ! 0, ps_customers sample_points ! 1)"
    unfolding attachCheck_def Let_def key using find paid key2 key3
    by (simp add: sample_points_def sample_referral_config_def tail ends count_where_def)
  obtain name t where a: "attach (\<lambda>_. ''rest'') sample_referral_config [(Some ''ann'', PAID)] ''r9'' ''rest'' ''bob'' ''annaaa2''
     (sample_points\<lparr>ps_referrals := []\<rparr>) = (Applied name, t)" "length (ps_referrals t) = 1"
    by (simp add: attach_def chk attachCreate_def count_where_def)
  show ?thesis using attach_only_new_customers[OF a(1)] a by blast
qed

end
