(* ===== verification/Purchasing.thy ===== *)
theory Purchasing
  imports Stock Settlement
begin

text \<open>
  Buying and moving stock: purchase requests, quotations and orders, goods receipts, supplier invoices and
  transfers between branches (\<open>modules/inventory\<close>). Names, notes, expiry dates and batch numbers are left
  out; so are the listings and the performance of a supplier, which only read.
\<close>

section \<open>Rows\<close>

datatype purchase_order_status = PO_DRAFT | PO_SENT | PO_PARTIALLY_RECEIVED | PO_RECEIVED | PO_CANCELLED
datatype purchase_request_status = PR_DRAFT | PR_PENDING_APPROVAL | PR_APPROVED | PR_REJECTED | PR_CONVERTED
datatype quotation_status = QT_DRAFT | QT_RECEIVED | QT_ACCEPTED | QT_REJECTED
datatype supplier_invoice_status = SI_UNPAID | SI_PARTIALLY_PAID | SI_PAID | SI_CANCELLED

text \<open>Quantities are in thousandths, unit costs in ten-thousandths, totals in cents.\<close>

record purchase_order =
  ro_id :: string
  ro_branchId :: string
  ro_supplierId :: string
  ro_poNumber :: string
  ro_status :: purchase_order_status
  ro_totalAmount :: int
  ro_createdById :: string

record purchase_order_item =
  poi_id :: string
  poi_purchaseOrderId :: string
  poi_ingredientId :: string
  poi_quantityOrdered :: int
  poi_unitCost :: int
  poi_quantityReceived :: int

record goods_receipt =
  gn_id :: string
  gn_branchId :: string
  gn_supplierId :: string
  gn_purchaseOrderId :: "string option"
  gn_grnNumber :: string
  gn_receivedById :: string

record goods_receipt_item =
  gl_id :: string
  gl_goodsReceiptId :: string
  gl_ingredientId :: string
  gl_purchaseOrderItemId :: "string option"
  gl_quantity :: int
  gl_unitCost :: int

record supplier_invoice =
  sv_id :: string
  sv_branchId :: string
  sv_supplierId :: string
  sv_purchaseOrderId :: "string option"
  sv_goodsReceiptId :: "string option"
  sv_invoiceNumber :: string
  sv_totalAmount :: int
  sv_amountPaid :: int
  sv_status :: supplier_invoice_status

record supplier_payment =
  sy_id :: string
  sy_supplierInvoiceId :: string
  sy_amount :: int
  sy_paymentMethod :: payment_method

record purchase_request =
  rq_id :: string
  rq_branchId :: string
  rq_requestNumber :: string
  rq_status :: purchase_request_status
  rq_requestedById :: string
  rq_approvedById :: "string option"
  rq_items :: "(string \<times> int) list"

record supplier_quotation =
  qt_id :: string
  qt_branchId :: string
  qt_supplierId :: string
  qt_quotationNumber :: string
  qt_status :: quotation_status
  qt_items :: "(string \<times> int \<times> int) list"

record stock_transfer =
  tf_id :: string
  tf_fromBranchId :: string
  tf_toBranchId :: string
  tf_ingredientName :: string
  tf_unit :: string
  tf_quantity :: int
  tf_unitCost :: int

record store =
  st_stock :: stock_state
  st_orders :: "purchase_order list"
  st_orderItems :: "purchase_order_item list"
  st_receipts :: "goods_receipt list"
  st_receiptItems :: "goods_receipt_item list"
  st_invoices :: "supplier_invoice list"
  st_supplierPayments :: "supplier_payment list"
  st_requests :: "purchase_request list"
  st_quotations :: "supplier_quotation list"
  st_transfers :: "stock_transfer list"
  st_next :: nat

text \<open>The surroundings: new identifiers, the clock, the suppliers with their branch, and the branches with
  their restaurant and whether they are active.\<close>

record store_env =
  se_ids :: "nat \<Rightarrow> string"
  se_now :: int
  se_suppliers :: "(string \<times> string) list"
  se_branches :: "(string \<times> string \<times> bool) list"

definition storeId :: "store_env \<Rightarrow> store \<Rightarrow> string \<times> store" where
  "storeId e s = (se_ids e (st_next s), s\<lparr>st_next := st_next s + 1\<rparr>)"

definition round4 :: "num \<Rightarrow> num" where
  "round4 v = fdiv (of_int (js_round (fmul (fadd v epsilon) 10000))) 10000"

definition supplierIn :: "store_env \<Rightarrow> string \<Rightarrow> string \<Rightarrow> unit res" where
  "supplierIn e branchId i =
     (if (i, branchId) \<in> set (se_suppliers e) then Inr () else Inl (BadRequest ''Supplier not found in this branch''))"

text \<open>All the ingredients named are in the branch.\<close>

definition ingredientsIn :: "string \<Rightarrow> string list \<Rightarrow> stock_state \<Rightarrow> ingredient list res" where
  "ingredientsIn branchId ids s =
     (let found = filter (\<lambda>g. ig_id g \<in> set ids \<and> ig_branchId g = branchId) (ss_ingredients s) in
      if length found \<noteq> length (uniq ids) then Inl (BadRequest ''One or more ingredients not found in this branch'') else Inr found)"

text \<open>Numbers count the documents of a branch: \<open>PO-0001\<close> and so on.\<close>

definition documentNumber :: "string \<Rightarrow> nat \<Rightarrow> string" where
  "documentNumber kind n = kind @ ''-'' @ pad_start 4 CHR ''0'' (nat_str (n + 1))"

section \<open>Requests, quotations and orders\<close>

fun nextOrderStatus :: "purchase_order_status \<Rightarrow> purchase_order_status list" where
  "nextOrderStatus PO_DRAFT = [PO_SENT, PO_CANCELLED]"
| "nextOrderStatus PO_SENT = [PO_CANCELLED]"
| "nextOrderStatus PO_PARTIALLY_RECEIVED = []"
| "nextOrderStatus PO_RECEIVED = []"
| "nextOrderStatus PO_CANCELLED = []"

fun nextRequestStatus :: "purchase_request_status \<Rightarrow> purchase_request_status list" where
  "nextRequestStatus PR_DRAFT = [PR_PENDING_APPROVAL]"
| "nextRequestStatus PR_PENDING_APPROVAL = [PR_APPROVED, PR_REJECTED]"
| "nextRequestStatus PR_APPROVED = [PR_CONVERTED]"
| "nextRequestStatus PR_REJECTED = []"
| "nextRequestStatus PR_CONVERTED = []"

fun nextQuotationStatus :: "quotation_status \<Rightarrow> quotation_status list" where
  "nextQuotationStatus QT_DRAFT = [QT_RECEIVED]"
| "nextQuotationStatus QT_RECEIVED = [QT_ACCEPTED, QT_REJECTED]"
| "nextQuotationStatus QT_ACCEPTED = []"
| "nextQuotationStatus QT_REJECTED = []"

record purchase_line =
  ul_ingredientId :: string
  ul_quantityOrdered :: num
  ul_unitCost :: num

definition lineItem :: "store_env \<Rightarrow> string \<Rightarrow> purchase_line \<Rightarrow> store \<Rightarrow> store" where
  "lineItem e orderId l s =
     (let (i, s1) = storeId e s in
      s1\<lparr>st_orderItems := st_orderItems s1 @ [\<lparr>poi_id = i, poi_purchaseOrderId = orderId, poi_ingredientId = ul_ingredientId l,
           poi_quantityOrdered = to_column 1000 (ul_quantityOrdered l), poi_unitCost = to_column 10000 (ul_unitCost l),
           poi_quantityReceived = 0\<rparr>]\<rparr>)"

definition createPurchaseOrder ::
  "store_env \<Rightarrow> string \<Rightarrow> string \<Rightarrow> string \<Rightarrow> purchase_line list \<Rightarrow> store \<Rightarrow> (purchase_order \<times> store) res" where
  "createPurchaseOrder e branchId userId supplierId items s =
     ebind (supplierIn e branchId supplierId) (\<lambda>_.
     ebind (ingredientsIn branchId (map ul_ingredientId items) (st_stock s)) (\<lambda>_.
     let total = round2 (foldl (\<lambda>a l. fadd a (fmul (ul_quantityOrdered l) (ul_unitCost l))) 0 items);
         number = documentNumber ''PO'' (count_where (\<lambda>o'. ro_branchId o' = branchId) (st_orders s));
         (i, s1) = storeId e s;
         row = \<lparr>ro_id = i, ro_branchId = branchId, ro_supplierId = supplierId, ro_poNumber = number, ro_status = PO_DRAFT,
                ro_totalAmount = to_column 100 total, ro_createdById = userId\<rparr>
     in if 0 < count_where (\<lambda>o'. ro_branchId o' = branchId \<and> ro_poNumber o' = number) (st_orders s) then Inl UniqueViolation
        else Inr (row, foldl (\<lambda>t l. lineItem e i l t) (s1\<lparr>st_orders := st_orders s1 @ [row]\<rparr>) items)))"

definition findPurchaseOrder :: "string \<Rightarrow> string \<Rightarrow> store \<Rightarrow> purchase_order option" where
  "findPurchaseOrder branchId i s = find (\<lambda>o'. ro_id o' = i \<and> ro_branchId o' = branchId) (st_orders s)"

definition setOrderStatus :: "string \<Rightarrow> purchase_order_status \<Rightarrow> store \<Rightarrow> store" where
  "setOrderStatus i st s = s\<lparr>st_orders := upd_where (\<lambda>o'. ro_id o' = i) (\<lambda>o'. o'\<lparr>ro_status := st\<rparr>) (st_orders s)\<rparr>"

definition updateOrderStatus :: "string \<Rightarrow> string \<Rightarrow> purchase_order_status \<Rightarrow> store \<Rightarrow> store res" where
  "updateOrderStatus branchId i status s =
     (case findPurchaseOrder branchId i s of
        None \<Rightarrow> Inl (NotFound ''Purchase order not found'')
      | Some o' \<Rightarrow>
          if status \<notin> set (nextOrderStatus (ro_status o')) then Inl (BadRequest ''Cannot move purchase order'')
          else Inr (setOrderStatus i status s))"

definition createPurchaseRequest ::
  "store_env \<Rightarrow> string \<Rightarrow> string \<Rightarrow> (string \<times> num) list \<Rightarrow> store \<Rightarrow> (purchase_request \<times> store) res" where
  "createPurchaseRequest e branchId userId items s =
     ebind (ingredientsIn branchId (map fst items) (st_stock s)) (\<lambda>_.
     let number = documentNumber ''PR'' (count_where (\<lambda>r. rq_branchId r = branchId) (st_requests s));
         (i, s1) = storeId e s;
         row = \<lparr>rq_id = i, rq_branchId = branchId, rq_requestNumber = number, rq_status = PR_DRAFT, rq_requestedById = userId,
                rq_approvedById = None, rq_items = map (\<lambda>(g, q). (g, to_column 1000 q)) items\<rparr>
     in if 0 < count_where (\<lambda>r. rq_branchId r = branchId \<and> rq_requestNumber r = number) (st_requests s) then Inl UniqueViolation
        else Inr (row, s1\<lparr>st_requests := st_requests s1 @ [row]\<rparr>))"

definition updateRequestStatus ::
  "string \<Rightarrow> string \<Rightarrow> string \<Rightarrow> purchase_request_status \<Rightarrow> store \<Rightarrow> store res" where
  "updateRequestStatus branchId i userId status s =
     (case find (\<lambda>r. rq_id r = i \<and> rq_branchId r = branchId) (st_requests s) of
        None \<Rightarrow> Inl (NotFound ''Purchase request not found'')
      | Some r \<Rightarrow>
          if status \<notin> set (nextRequestStatus (rq_status r)) then Inl (BadRequest ''Cannot move purchase request'')
          else Inr (s\<lparr>st_requests := upd_where (\<lambda>x. rq_id x = i)
                  (\<lambda>x. x\<lparr>rq_status := status, rq_approvedById := (if status = PR_APPROVED then Some userId else rq_approvedById x)\<rparr>)
                  (st_requests s)\<rparr>))"

definition createQuotation ::
  "store_env \<Rightarrow> string \<Rightarrow> string \<Rightarrow> (string \<times> num \<times> num) list \<Rightarrow> store \<Rightarrow> (supplier_quotation \<times> store) res" where
  "createQuotation e branchId supplierId items s =
     ebind (supplierIn e branchId supplierId) (\<lambda>_.
     ebind (ingredientsIn branchId (map fst items) (st_stock s)) (\<lambda>_.
     let number = documentNumber ''QT'' (count_where (\<lambda>q. qt_branchId q = branchId) (st_quotations s));
         (i, s1) = storeId e s;
         row = \<lparr>qt_id = i, qt_branchId = branchId, qt_supplierId = supplierId, qt_quotationNumber = number, qt_status = QT_DRAFT,
                qt_items = map (\<lambda>(g, q, p). (g, to_column 1000 q, to_column 10000 p)) items\<rparr>
     in if 0 < count_where (\<lambda>q. qt_branchId q = branchId \<and> qt_quotationNumber q = number) (st_quotations s) then Inl UniqueViolation
        else Inr (row, s1\<lparr>st_quotations := st_quotations s1 @ [row]\<rparr>)))"

definition updateQuotationStatus :: "string \<Rightarrow> string \<Rightarrow> quotation_status \<Rightarrow> store \<Rightarrow> store res" where
  "updateQuotationStatus branchId i status s =
     (case find (\<lambda>q. qt_id q = i \<and> qt_branchId q = branchId) (st_quotations s) of
        None \<Rightarrow> Inl (NotFound ''Quotation not found'')
      | Some q \<Rightarrow>
          if status \<notin> set (nextQuotationStatus (qt_status q)) then Inl (BadRequest ''Cannot move quotation'')
          else Inr (s\<lparr>st_quotations := upd_where (\<lambda>x. qt_id x = i) (\<lambda>x. x\<lparr>qt_status := status\<rparr>) (st_quotations s)\<rparr>))"

text \<open>The offers for one ingredient, cheapest first: supplier, number, price and quantity.\<close>

definition compareForIngredient :: "string \<Rightarrow> string \<Rightarrow> store \<Rightarrow> (string \<times> string \<times> int \<times> int) list" where
  "compareForIngredient branchId ingredientId s =
     sort_key (\<lambda>(_, _, p, _). p)
       (concat (map (\<lambda>q. map (\<lambda>(_, n, p). (qt_supplierId q, qt_quotationNumber q, p, n))
            (filter (\<lambda>(g, _). g = ingredientId) (qt_items q)))
          (filter (\<lambda>q. qt_branchId q = branchId \<and> qt_status q \<in> {QT_RECEIVED, QT_ACCEPTED}) (st_quotations s))))"

section \<open>Goods receipts\<close>

record receipt_line =
  rl_ingredientId :: string
  rl_purchaseOrderItemId :: "string option"
  rl_quantity :: num
  rl_unitCost :: num

record receipt_dto =
  rd_supplierId :: string
  rd_purchaseOrderId :: "string option"
  rd_items :: "receipt_line list"

text \<open>The rows of the ingredients as they were read, kept up to date in memory: stock and cost.\<close>

type_synonym snapshot = "(string \<times> num \<times> num) list"

definition snapshotOf :: "ingredient list \<Rightarrow> snapshot" where
  "snapshotOf gs = map (\<lambda>g. (ig_id g, milli (ig_currentStock g), dec 10000 (ig_costPerUnit g))) gs"

definition addBatch :: "string \<Rightarrow> string \<Rightarrow> string \<Rightarrow> num \<Rightarrow> num \<Rightarrow> int \<Rightarrow> stock_state \<Rightarrow> stock_state" where
  "addBatch i branchId ingredientId qty unitCost now s = s\<lparr>ss_batches := ss_batches s @
     [\<lparr>sb_id = i, sb_branchId = branchId, sb_ingredientId = ingredientId, sb_quantityRemaining = to_column 1000 qty,
       sb_unitCost = to_column 10000 unitCost, sb_receivedAt = now\<rparr>]\<rparr>"

definition setCost :: "string \<Rightarrow> num \<Rightarrow> stock_state \<Rightarrow> stock_state" where
  "setCost i v s = s\<lparr>ss_ingredients := upd_where (\<lambda>g. ig_id g = i)
       (\<lambda>g. g\<lparr>ig_costPerUnit := to_column 10000 v\<rparr>) (ss_ingredients s)\<rparr>"

text \<open>One line: its row, a batch, a movement, and the stock and average cost of the ingredient, which start from
  a stock of at least zero.\<close>

definition receiveLine ::
  "store_env \<Rightarrow> string \<Rightarrow> string \<Rightarrow> string \<Rightarrow> receipt_line \<Rightarrow> snapshot \<times> store \<Rightarrow> (snapshot \<times> store) res" where
  "receiveLine e branchId userId grnId l c =
     (let (snap, s) = c; (i, s1) = storeId e s; (b, s2) = storeId e s1; g = rl_ingredientId l; q = rl_quantity l in
      case map_of snap g of
        None \<Rightarrow> Inl (PlainError ''TypeError'')
      | Some (current, cost) \<Rightarrow>
          if rl_purchaseOrderItemId l = Some '''' then Inl (PlainError ''Foreign key constraint failed'')
          else let oldStock = max 0 current; newStock = round3 (fadd oldStock q);
              newCost = (if 0 < newStock then round4 (fdiv (fadd (fmul oldStock cost) (fmul q (rl_unitCost l))) newStock) else cost);
              k1 = addBatch b branchId g q (rl_unitCost l) (se_now e) (st_stock s2);
              k2 = addMovement branchId g (Some b) RECEIPT q None userId k1
          in Inr (AList.update g (newStock, newCost) snap,
               s2\<lparr>st_receiptItems := st_receiptItems s2 @ [\<lparr>gl_id = i, gl_goodsReceiptId = grnId, gl_ingredientId = g,
                    gl_purchaseOrderItemId = rl_purchaseOrderItemId l, gl_quantity = to_column 1000 q,
                    gl_unitCost = to_column 10000 (rl_unitCost l)\<rparr>],
                  st_stock := setCost g newCost (setStock g newStock k2)\<rparr>))"

text \<open>What was received for each line of the purchase order, summed first. An empty identifier counts as none.\<close>

definition receivedByPoItem :: "receipt_line list \<Rightarrow> (string \<times> num) list" where
  "receivedByPoItem ls = foldl (\<lambda>m l. case rl_purchaseOrderItemId l of
       None \<Rightarrow> m
     | Some i \<Rightarrow> if i = '''' then m
         else AList.update i (fadd (case map_of m i of None \<Rightarrow> 0 | Some x \<Rightarrow> x) (rl_quantity l)) m) [] ls"

definition receiveItem :: "purchase_order_item list \<Rightarrow> string \<times> num \<Rightarrow> store \<Rightarrow> store res" where
  "receiveItem items = (\<lambda>(i, added) s.
     case find (\<lambda>p. poi_id p = i) items of
       None \<Rightarrow> Inl (PlainError ''TypeError'')
     | Some p \<Rightarrow> Inr (s\<lparr>st_orderItems := upd_where (\<lambda>x. poi_id x = i)
           (\<lambda>x. x\<lparr>poi_quantityReceived := to_column 1000 (round3 (fadd (milli (poi_quantityReceived p)) added))\<rparr>) (st_orderItems s)\<rparr>))"

definition itemsOfOrder :: "string \<Rightarrow> store \<Rightarrow> purchase_order_item list" where
  "itemsOfOrder i s = filter (\<lambda>p. poi_purchaseOrderId p = i) (st_orderItems s)"

definition receivedStatus :: "purchase_order_item list \<Rightarrow> purchase_order_status \<Rightarrow> purchase_order_status" where
  "receivedStatus items current =
     (if list_all (\<lambda>p. poi_quantityOrdered p \<le> poi_quantityReceived p) items then PO_RECEIVED
      else if list_ex (\<lambda>p. 0 < poi_quantityReceived p) items then PO_PARTIALLY_RECEIVED else current)"

text \<open>The checks, with the rows that the transaction goes on with.\<close>

definition receiptOrder :: "string \<Rightarrow> string option \<Rightarrow> store \<Rightarrow> purchase_order option res" where
  "receiptOrder branchId poId s =
     (case poId of
        None \<Rightarrow> Inr None
      | Some i \<Rightarrow>
          if i = '''' then Inr None
          else case findPurchaseOrder branchId i s of
            None \<Rightarrow> Inl (BadRequest ''Purchase order not found in this branch'')
          | Some o' \<Rightarrow>
              if ro_status o' = PO_CANCELLED \<or> ro_status o' = PO_RECEIVED
              then Inl (BadRequest ''Cannot receive against a purchase order that is already closed'') else Inr (Some o'))"

definition lineMatches :: "purchase_order_item list \<Rightarrow> receipt_line \<Rightarrow> bool" where
  "lineMatches items l \<longleftrightarrow>
     (case rl_purchaseOrderItemId l of
        None \<Rightarrow> True
      | Some i \<Rightarrow> i = '''' \<or> (case find (\<lambda>p. poi_id p = i) items of None \<Rightarrow> False | Some p \<Rightarrow> poi_ingredientId p = rl_ingredientId l))"

record receipt_plan =
  rp_order :: "purchase_order option"
  rp_items :: "purchase_order_item list"
  rp_snapshot :: snapshot
  rp_number :: string

definition goodsReceiptRead :: "store_env \<Rightarrow> string \<Rightarrow> receipt_dto \<Rightarrow> store \<Rightarrow> receipt_plan res" where
  "goodsReceiptRead e branchId d s =
     ebind (supplierIn e branchId (rd_supplierId d)) (\<lambda>_.
     ebind (receiptOrder branchId (rd_purchaseOrderId d) s) (\<lambda>po.
     ebind (ingredientsIn branchId (map rl_ingredientId (rd_items d)) (st_stock s)) (\<lambda>gs.
     let items = (case po of None \<Rightarrow> [] | Some o' \<Rightarrow> itemsOfOrder (ro_id o') s) in
     if po \<noteq> None \<and> \<not> list_all (lineMatches items) (rd_items d)
     then Inl (BadRequest ''purchaseOrderItemId does not match this purchase order / ingredient'')
     else Inr \<lparr>rp_order = po, rp_items = items, rp_snapshot = snapshotOf gs,
               rp_number = documentNumber ''GRN'' (count_where (\<lambda>r. gn_branchId r = branchId) (st_receipts s))\<rparr>)))"

definition goodsReceiptTx ::
  "store_env \<Rightarrow> string \<Rightarrow> string \<Rightarrow> receipt_dto \<Rightarrow> receipt_plan \<Rightarrow> store \<Rightarrow> (goods_receipt \<times> store) res" where
  "goodsReceiptTx e branchId userId d rp s =
     (let (i, s1) = storeId e s;
          row = \<lparr>gn_id = i, gn_branchId = branchId, gn_supplierId = rd_supplierId d, gn_purchaseOrderId = rd_purchaseOrderId d,
                 gn_grnNumber = rp_number rp, gn_receivedById = userId\<rparr>
      in if rd_purchaseOrderId d = Some '''' then Inl (PlainError ''Foreign key constraint failed'')
         else if 0 < count_where (\<lambda>r. gn_branchId r = branchId \<and> gn_grnNumber r = rp_number rp) (st_receipts s) then Inl UniqueViolation
         else ebind (foldE (receiveLine e branchId userId i) (rd_items d) (rp_snapshot rp, s1\<lparr>st_receipts := st_receipts s1 @ [row]\<rparr>))
           (\<lambda>(_, s2).
         ebind (foldE (receiveItem (rp_items rp)) (receivedByPoItem (rd_items d)) s2) (\<lambda>s3.
         Inr (row, case rp_order rp of
            None \<Rightarrow> s3
          | Some o' \<Rightarrow> setOrderStatus (ro_id o') (receivedStatus (itemsOfOrder (ro_id o') s3) (ro_status o')) s3))))"

definition createGoodsReceipt ::
  "store_env \<Rightarrow> string \<Rightarrow> string \<Rightarrow> receipt_dto \<Rightarrow> store \<Rightarrow> (goods_receipt \<times> store) res" where
  "createGoodsReceipt e branchId userId d s =
     ebind (goodsReceiptRead e branchId d s) (\<lambda>rp. goodsReceiptTx e branchId userId d rp s)"

section \<open>Supplier invoices\<close>

record invoice_dto =
  id_supplierId :: string
  id_purchaseOrderId :: "string option"
  id_goodsReceiptId :: "string option"
  id_invoiceNumber :: string
  id_totalAmount :: num

definition present_id :: "string option \<Rightarrow> bool" where
  "present_id i \<longleftrightarrow> i \<noteq> None \<and> i \<noteq> Some ''''"

definition createInvoice :: "store_env \<Rightarrow> string \<Rightarrow> invoice_dto \<Rightarrow> store \<Rightarrow> (supplier_invoice \<times> store) res" where
  "createInvoice e branchId d s =
     ebind (supplierIn e branchId (id_supplierId d)) (\<lambda>_.
     if present_id (id_purchaseOrderId d) \<and> count_where (\<lambda>o'. Some (ro_id o') = id_purchaseOrderId d \<and> ro_branchId o' = branchId) (st_orders s) = 0
     then Inl (BadRequest ''Purchase order not found in this branch'')
     else if present_id (id_goodsReceiptId d) \<and> count_where (\<lambda>r. Some (gn_id r) = id_goodsReceiptId d \<and> gn_branchId r = branchId) (st_receipts s) = 0
     then Inl (BadRequest ''Goods receipt not found in this branch'')
     else if 0 < count_where (\<lambda>v. sv_branchId v = branchId \<and> sv_invoiceNumber v = id_invoiceNumber d) (st_invoices s)
     then Inl UniqueViolation
     else if id_purchaseOrderId d = Some '''' \<or> id_goodsReceiptId d = Some '''' then Inl (PlainError ''Foreign key constraint failed'')
     else
       (let (i, s1) = storeId e s;
            row = \<lparr>sv_id = i, sv_branchId = branchId, sv_supplierId = id_supplierId d, sv_purchaseOrderId = id_purchaseOrderId d,
                   sv_goodsReceiptId = id_goodsReceiptId d, sv_invoiceNumber = id_invoiceNumber d,
                   sv_totalAmount = to_column 100 (round2 (id_totalAmount d)), sv_amountPaid = 0, sv_status = SI_UNPAID\<rparr>
        in Inr (row, s1\<lparr>st_invoices := st_invoices s1 @ [row]\<rparr>)))"

definition findInvoice :: "string \<Rightarrow> string \<Rightarrow> store \<Rightarrow> supplier_invoice option" where
  "findInvoice branchId i s = find (\<lambda>v. sv_id v = i \<and> sv_branchId v = branchId) (st_invoices s)"

text \<open>A payment: what is left is read and the new sum written in one transaction.\<close>

definition paymentRead :: "string \<Rightarrow> string \<Rightarrow> num \<Rightarrow> store \<Rightarrow> (num \<times> supplier_invoice_status) res" where
  "paymentRead branchId invoiceId a s =
     (case findInvoice branchId invoiceId s of
        None \<Rightarrow> Inl (NotFound ''Supplier invoice not found'')
      | Some v \<Rightarrow>
          if sv_status v = SI_CANCELLED then Inl (BadRequest ''Cannot pay a cancelled invoice'')
          else
            (let paid = cents (sv_amountPaid v); total = cents (sv_totalAmount v) in
             if round2 (fsub total paid) < a then Inl (BadRequest ''Payment exceeds the remaining balance'')
             else
               (let newPaid = round2 (fadd paid a)
                in Inr (newPaid, if total \<le> newPaid then SI_PAID else if 0 < newPaid then SI_PARTIALLY_PAID else SI_UNPAID))))"

definition paymentWrite ::
  "store_env \<Rightarrow> string \<Rightarrow> num \<Rightarrow> payment_method \<Rightarrow> num \<times> supplier_invoice_status \<Rightarrow> store \<Rightarrow> supplier_payment \<times> store" where
  "paymentWrite e invoiceId a m w s =
     (let (i, s1) = storeId e s;
          row = \<lparr>sy_id = i, sy_supplierInvoiceId = invoiceId, sy_amount = to_column 100 a, sy_paymentMethod = m\<rparr>
      in (row, s1\<lparr>st_supplierPayments := st_supplierPayments s1 @ [row],
                  st_invoices := upd_where (\<lambda>v. sv_id v = invoiceId)
                    (\<lambda>v. v\<lparr>sv_amountPaid := to_column 100 (fst w), sv_status := snd w\<rparr>) (st_invoices s1)\<rparr>))"

definition recordPayment ::
  "store_env \<Rightarrow> string \<Rightarrow> string \<Rightarrow> num \<Rightarrow> payment_method \<Rightarrow> store \<Rightarrow> (supplier_payment \<times> store) res" where
  "recordPayment e branchId invoiceId a m s =
     ebind (paymentRead branchId invoiceId a s) (\<lambda>w. Inr (paymentWrite e invoiceId a m w s))"

definition cancelInvoice :: "string \<Rightarrow> string \<Rightarrow> store \<Rightarrow> store res" where
  "cancelInvoice branchId i s =
     (case findInvoice branchId i s of
        None \<Rightarrow> Inl (NotFound ''Supplier invoice not found'')
      | Some v \<Rightarrow>
          if 0 < sv_amountPaid v then Inl (BadRequest ''Cannot cancel an invoice that already has payments recorded'')
          else Inr (s\<lparr>st_invoices := upd_where (\<lambda>x. sv_id x = i) (\<lambda>x. x\<lparr>sv_status := SI_CANCELLED\<rparr>) (st_invoices s)\<rparr>))"

section \<open>Invoices and their payments\<close>

definition paidFor :: "string \<Rightarrow> store \<Rightarrow> int" where
  "paidFor i s = sum_list (map sy_amount (filter (\<lambda>p. sy_supplierInvoiceId p = i) (st_supplierPayments s)))"

definition invoice_ok :: "store \<Rightarrow> supplier_invoice \<Rightarrow> bool" where
  "invoice_ok s v \<longleftrightarrow> 0 \<le> sv_amountPaid v \<and> sv_amountPaid v \<le> sv_totalAmount v \<and> 0 < sv_totalAmount v \<and>
     in_range (sv_totalAmount v) \<and> sv_amountPaid v = paidFor (sv_id v) s \<and>
     (if sv_status v = SI_CANCELLED then sv_amountPaid v = 0
      else sv_status v = (if sv_totalAmount v \<le> sv_amountPaid v then SI_PAID
                          else if 0 < sv_amountPaid v then SI_PARTIALLY_PAID else SI_UNPAID))"

definition invoices_ok :: "store \<Rightarrow> bool" where
  "invoices_ok s \<longleftrightarrow> keyed sv_id (st_invoices s) \<and> (\<forall>v \<in> set (st_invoices s). invoice_ok s v) \<and>
     (\<forall>p \<in> set (st_supplierPayments s). sy_supplierInvoiceId p \<in> sv_id ` set (st_invoices s))"

lemma invoice_ok_cong: "paidFor (sv_id v) t = paidFor (sv_id v) s \<Longrightarrow> invoice_ok t v = invoice_ok s v"
  by (simp add: invoice_ok_def)

text \<open>The uses of the invoices, with amounts in cents as the till keeps them.\<close>

inductive invoice_step :: "store \<Rightarrow> store \<Rightarrow> bool" where
  entered: "createInvoice e b d s = Inr (v, t) \<Longrightarrow> id_totalAmount d = cents n \<Longrightarrow> 0 < n \<Longrightarrow> in_range n \<Longrightarrow>
    sv_id v \<notin> sv_id ` set (st_invoices s) \<Longrightarrow> invoice_step s t"
| paid: "recordPayment e b i (cents n) m s = Inr (p, t) \<Longrightarrow> 0 < n \<Longrightarrow> in_range n \<Longrightarrow> invoice_step s t"
| cancelled: "cancelInvoice b i s = Inr t \<Longrightarrow> invoice_step s t"

lemma storeId_sel:
  "storeId e s = (i, t) \<Longrightarrow> st_invoices t = st_invoices s \<and> st_supplierPayments t = st_supplierPayments s \<and> st_stock t = st_stock s \<and>
     st_orders t = st_orders s \<and> st_orderItems t = st_orderItems s \<and> st_receipts t = st_receipts s"
  by (auto simp: storeId_def)

lemma entered_ok:
  assumes "createInvoice e b d s = Inr (v, t)" "id_totalAmount d = cents n" "0 < n" "in_range n"
    "sv_id v \<notin> sv_id ` set (st_invoices s)" "invoices_ok s"
  shows "invoices_ok t"
proof -
  have v: "sv_totalAmount v = n" "sv_amountPaid v = 0" "sv_status v = SI_UNPAID"
    and t: "st_invoices t = st_invoices s @ [v]" "st_supplierPayments t = st_supplierPayments s"
    using assms(1,2,4) by (auto simp: createInvoice_def ebind_Inr_iff Let_def storeId_def split: if_splits)
  have "filter (\<lambda>p. sy_supplierInvoiceId p = sv_id v) (st_supplierPayments s) = []"
    unfolding filter_empty_conv using assms(5,6) by (metis invoices_ok_def)
  then have "paidFor (sv_id v) t = 0" by (simp add: paidFor_def t)
  then have "invoice_ok t v" using v assms(3,4) by (simp add: invoice_ok_def)
  moreover have "paidFor i t = paidFor i s" for i by (simp add: paidFor_def t)
  ultimately show ?thesis using assms(5,6) unfolding invoices_ok_def t by (auto simp: row_simps invoice_ok_def)
qed

lemma paymentRead_cents:
  assumes "paymentRead b i (cents n) s = Inr w" "invoices_ok s" "0 < n" "in_range n"
  obtains v where "v \<in> set (st_invoices s)" "sv_id v = i" "sv_status v \<noteq> SI_CANCELLED" "sv_amountPaid v + n \<le> sv_totalAmount v"
    "w = (cents (sv_amountPaid v + n), if sv_totalAmount v \<le> sv_amountPaid v + n then SI_PAID else SI_PARTIALLY_PAID)"
proof -
  obtain v where v1: "findInvoice b i s = Some v" using assms(1) by (cases "findInvoice b i s") (auto simp: paymentRead_def)
  define newPaid where "newPaid = round2 (fadd (cents (sv_amountPaid v)) (cents n))"
  note rd = assms(1)[unfolded paymentRead_def v1 option.case Let_def, folded newPaid_def]
  have v: "findInvoice b i s = Some v" "sv_status v \<noteq> SI_CANCELLED"
      "\<not> round2 (fsub (cents (sv_totalAmount v)) (cents (sv_amountPaid v))) < cents n"
    using v1 rd by (simp_all split: if_splits)
  have w: "w = (newPaid, if cents (sv_totalAmount v) \<le> newPaid then SI_PAID else if 0 < newPaid then SI_PARTIALLY_PAID else SI_UNPAID)"
    using rd v(2,3) by simp
  have m: "v \<in> set (st_invoices s)" "sv_id v = i" using v(1) by (auto simp: findInvoice_def dest: find_SomeD)
  then have ok: "invoice_ok s v" using assms(2) by (simp add: invoices_ok_def)
  have r: "in_range (sv_totalAmount v)" "in_range (sv_amountPaid v)" "in_range (sv_totalAmount v - sv_amountPaid v)"
    using ok by (auto simp: invoice_ok_def in_range_def)
  have left: "sv_amountPaid v + n \<le> sv_totalAmount v"
    using v(3) r assms(4) by (simp add: round2_fsub_cents)
  then have r2: "in_range (sv_amountPaid v + n)" "0 < sv_amountPaid v + n"
    using ok assms(3) by (auto simp: invoice_ok_def in_range_def)
  have "w = (cents (sv_amountPaid v + n), if sv_totalAmount v \<le> sv_amountPaid v + n then SI_PAID else SI_PARTIALLY_PAID)"
    unfolding w newPaid_def using r r2 assms(4) by (simp add: round2_fadd_cents)
  then show ?thesis using that m v(2) left by blast
qed

lemma paid_ok_invoice:
  assumes "recordPayment e b i (cents n) m s = Inr (p, t)" "0 < n" "in_range n" "invoices_ok s"
  shows "invoices_ok t"
proof -
  obtain w where rd: "paymentRead b i (cents n) s = Inr w" and wr: "paymentWrite e i (cents n) m w s = (p, t)"
    using assms(1) by (auto simp: recordPayment_def ebind_Inr_iff)
  obtain v where v: "v \<in> set (st_invoices s)" "sv_id v = i" "sv_status v \<noteq> SI_CANCELLED" "sv_amountPaid v + n \<le> sv_totalAmount v"
    and w: "w = (cents (sv_amountPaid v + n), if sv_totalAmount v \<le> sv_amountPaid v + n then SI_PAID else SI_PARTIALLY_PAID)"
    by (rule paymentRead_cents[OF rd assms(4,2,3)])
  have ok: "invoice_ok s v" using v(1) assms(4) by (simp add: invoices_ok_def)
  have r: "in_range (sv_amountPaid v + n)" using ok v(4) assms(2) by (auto simp: invoice_ok_def in_range_def)
  let ?f = "\<lambda>x. x\<lparr>sv_amountPaid := sv_amountPaid v + n, sv_status := snd w\<rparr>"
  from wr r assms(3) have t: "st_invoices t = upd_where (\<lambda>x. sv_id x = i) ?f (st_invoices s)" "st_supplierPayments t = st_supplierPayments s @ [p]"
    and p: "sy_amount p = n" "sy_supplierInvoiceId p = i"
    by (auto simp: paymentWrite_def storeId_def w Let_def)
  have paid: "paidFor k t = paidFor k s + (if k = i then n else 0)" for k using p by (simp add: paidFor_def t)
  have only: "x = v" if "x \<in> set (st_invoices s)" "sv_id x = i" for x
    using that v assms(4) keyed_unique[of sv_id "st_invoices s" x v] by (simp add: invoices_ok_def)
  have "invoice_ok t x" if "x \<in> set (st_invoices t)" for x
  proof -
    from that consider "x = ?f v" | "x \<in> set (st_invoices s)" "sv_id x \<noteq> i"
      unfolding t(1) using only by (auto simp: set_upd_where)
    then show ?thesis
    proof cases
      case 1
      then show ?thesis using ok v paid[of i] assms(2) by (auto simp: invoice_ok_def w)
    next
      case 2
      then show ?thesis using assms(4) paid[of "sv_id x"] invoice_ok_cong[of x t s] by (simp add: invoices_ok_def)
    qed
  qed
  moreover have ids: "map sv_id (st_invoices t) = map sv_id (st_invoices s)"
    unfolding t(1) by (rule map_upd_where) simp
  moreover have "sv_id ` set (st_invoices t) = sv_id ` set (st_invoices s)"
    using arg_cong[OF ids, of set] by simp
  ultimately show ?thesis using assms(4) v(1,2) p unfolding invoices_ok_def keyed_def by (auto simp: t(2))
qed

lemma cancelled_ok:
  assumes "cancelInvoice b i s = Inr t" "invoices_ok s"
  shows "invoices_ok t"
proof -
  obtain v where v: "findInvoice b i s = Some v" "\<not> 0 < sv_amountPaid v"
    and t: "t = s\<lparr>st_invoices := upd_where (\<lambda>x. sv_id x = i) (\<lambda>x. x\<lparr>sv_status := SI_CANCELLED\<rparr>) (st_invoices s)\<rparr>"
    using assms(1) by (auto simp: cancelInvoice_def split: option.splits if_splits)
  have m: "v \<in> set (st_invoices s)" "sv_id v = i" using v(1) by (auto simp: findInvoice_def dest: find_SomeD)
  have only: "x = v" if "x \<in> set (st_invoices s)" "sv_id x = i" for x
    using that m assms(2) keyed_unique[of sv_id "st_invoices s" x v] by (simp add: invoices_ok_def)
  have "sv_amountPaid v = 0" using m v(2) assms(2) by (force simp: invoices_ok_def invoice_ok_def)
  then have v0: "invoice_ok t (v\<lparr>sv_status := SI_CANCELLED\<rparr>)"
    using m assms(2) by (auto simp: t invoices_ok_def invoice_ok_def paidFor_def)
  have same: "invoice_ok t x = invoice_ok s x" for x by (rule invoice_ok_cong) (simp add: paidFor_def t)
  have "invoice_ok t x" if "x \<in> set (st_invoices t)" for x
  proof -
    from that consider "x = v\<lparr>sv_status := SI_CANCELLED\<rparr>" | "x \<in> set (st_invoices s)"
      unfolding t using only by (auto simp: set_upd_where)
    then show ?thesis using v0 same assms(2) by cases (simp_all add: invoices_ok_def)
  qed
  moreover have ids: "map sv_id (st_invoices t) = map sv_id (st_invoices s)"
    by (simp add: t, rule map_upd_where) simp
  moreover have "sv_id ` set (st_invoices t) = sv_id ` set (st_invoices s)"
    using arg_cong[OF ids, of set] by simp
  moreover have "st_supplierPayments t = st_supplierPayments s" by (simp add: t)
  ultimately show ?thesis using assms(2) unfolding invoices_ok_def keyed_def by simp
qed

lemma invoice_step_ok: "invoice_step s t \<Longrightarrow> invoices_ok s \<Longrightarrow> invoices_ok t"
  by (erule invoice_step.cases) (auto intro: entered_ok paid_ok_invoice cancelled_ok)

section \<open>Transfers\<close>

record transfer_dto =
  td_toBranchId :: string
  td_ingredientId :: string
  td_quantity :: num

definition transferRead :: "store_env \<Rightarrow> string \<Rightarrow> string \<Rightarrow> transfer_dto \<Rightarrow> store \<Rightarrow> ingredient res" where
  "transferRead e restaurantId fromBranchId d s =
     (if td_toBranchId d = fromBranchId then Inl (BadRequest ''Pick a different destination branch'')
      else if \<not> list_ex (\<lambda>(b, r, _). b = fromBranchId \<and> r = restaurantId) (se_branches e) \<or>
              (td_toBranchId d, restaurantId, True) \<notin> set (se_branches e)
      then Inl (BadRequest ''Both branches must belong to this restaurant'')
      else case find (\<lambda>g. ig_id g = td_ingredientId d \<and> ig_branchId g = fromBranchId) (ss_ingredients (st_stock s)) of
        None \<Rightarrow> Inl (BadRequest ''Ingredient not found in this branch'') | Some g \<Rightarrow> Inr g)"

text \<open>The ingredient of the same name at the destination, made on the first transfer.\<close>

definition destination :: "store_env \<Rightarrow> string \<Rightarrow> ingredient \<Rightarrow> store \<Rightarrow> ingredient \<times> store" where
  "destination e toBranchId source s =
     (case find (\<lambda>g. ig_branchId g = toBranchId \<and> ig_name g = ig_name source) (ss_ingredients (st_stock s)) of
        Some g \<Rightarrow> (g, s)
      | None \<Rightarrow>
          let (i, s1) = storeId e s;
              g = \<lparr>ig_id = i, ig_branchId = toBranchId, ig_name = ig_name source, ig_unit = ig_unit source,
                   ig_currentStock = 0, ig_costPerUnit = 0\<rparr>
          in (g, s1\<lparr>st_stock := (st_stock s1)\<lparr>ss_ingredients := ss_ingredients (st_stock s1) @ [g]\<rparr>\<rparr>))"

definition costOf :: "portion list \<Rightarrow> num" where
  "costOf ps = foldl (\<lambda>a p. fadd a (fmul (po_quantity p) (po_unitCost p))) 0 ps"

definition transferTx :: "store_env \<Rightarrow> string \<Rightarrow> string \<Rightarrow> transfer_dto \<Rightarrow> ingredient \<Rightarrow> store \<Rightarrow> (stock_transfer \<times> store) res" where
  "transferTx e userId fromBranchId d source s =
     ebind (consumeStock fromBranchId (ig_id source) (td_quantity d)
              \<lparr>mo_type = ADJUSTMENT, mo_userId = userId, mo_allowNegative = False, mo_orderId = None\<rparr> (st_stock s)) (\<lambda>(ps, k).
     let unitCost = round4 (fdiv (costOf ps) (td_quantity d));
         (dest, s1) = destination e (td_toBranchId d) source (s\<lparr>st_stock := k\<rparr>)
     in if ig_unit dest \<noteq> ig_unit source then Inl (BadRequest ''The branch stocks it in another unit'')
        else
          (let (b, s2) = storeId e s1; q = td_quantity d; to' = td_toBranchId d;
               k1 = addBatch b to' (ig_id dest) q unitCost (se_now e) (st_stock s2);
               k2 = addMovement to' (ig_id dest) (Some b) RECEIPT q None userId k1;
               oldQty = max 0 (milli (ig_currentStock dest));
               newQty = round3 (fadd oldQty q);
               avg = round4 (fdiv (fadd (fmul oldQty (dec 10000 (ig_costPerUnit dest))) (fmul q unitCost)) newQty);
               k3 = setCost (ig_id dest) avg (setStock (ig_id dest) (round3 (fadd (milli (ig_currentStock dest)) q)) k2);
               (i, s3) = storeId e s2;
               row = \<lparr>tf_id = i, tf_fromBranchId = fromBranchId, tf_toBranchId = to', tf_ingredientName = ig_name source,
                      tf_unit = ig_unit source, tf_quantity = to_column 1000 q, tf_unitCost = to_column 10000 unitCost\<rparr>
           in Inr (row, s3\<lparr>st_stock := k3, st_transfers := st_transfers s3 @ [row]\<rparr>)))"

definition transfer :: "store_env \<Rightarrow> string \<Rightarrow> string \<Rightarrow> string \<Rightarrow> transfer_dto \<Rightarrow> store \<Rightarrow> (stock_transfer \<times> store) res" where
  "transfer e restaurantId userId fromBranchId d s =
     ebind (transferRead e restaurantId fromBranchId d s) (\<lambda>source. transferTx e userId fromBranchId d source s)"

end
