(* ===== verification/Stores.thy ===== *)
theory Stores
  imports Purchasing
begin

text \<open>
  Stock over all its operations: sales, returns, waste and corrections of \<open>Stock\<close>, goods receipts and transfers
  between branches of \<open>Purchasing\<close>. Every balance is explained by its journal, a transfer neither makes nor
  loses stock, and a receipt is booked in full on stock and purchase order.
\<close>

section \<open>Goods arriving\<close>

text \<open>What a receipt and the receiving end of a transfer have in common, in thousandths: a batch, a movement, the
  new balance and the new cost.\<close>

definition arrived :: "string \<Rightarrow> int \<Rightarrow> string \<Rightarrow> string \<Rightarrow> int \<Rightarrow> num \<Rightarrow> string \<Rightarrow> int \<Rightarrow> num \<Rightarrow> stock_state \<Rightarrow> stock_state" where
  "arrived b now br g q unitCost user n cost k =
     setCost g cost (setStock g (milli n) (addMovement br g (Some b) RECEIPT (milli q) None user
       (addBatch b br g (milli q) unitCost now k)))"

lemma setCost_sel [simp]:
  "ss_movements (setCost i v s) = ss_movements s" "ss_batches (setCost i v s) = ss_batches s"
  by (simp_all add: setCost_def)

lemma addBatch_sel [simp]:
  "ss_movements (addBatch b br g q c now s) = ss_movements s" "ss_ingredients (addBatch b br g q c now s) = ss_ingredients s"
  by (simp_all add: addBatch_def)

lemma stock_of_setCost [simp]: "stock_of (setCost i v s) j = stock_of s j"
proof -
  let ?f = "\<lambda>g. if ig_id g = i then g\<lparr>ig_costPerUnit := to_column 10000 v\<rparr> else g"
  have eq: "map ig_currentStock (filter (\<lambda>g. ig_id g = j) (map ?f gs)) = map ig_currentStock (filter (\<lambda>g. ig_id g = j) gs)" for gs
    by (induction gs) auto
  have "ss_ingredients (setCost i v s) = map ?f (ss_ingredients s)" by (simp add: setCost_def upd_where_def)
  then show ?thesis by (simp only: stock_of_def eq)
qed

lemma findIngredient_mem: "findIngredient br g s = Inr x \<Longrightarrow> x \<in> set (ss_ingredients s) \<and> ig_id x = g \<and> ig_branchId x = br"
  by (auto simp: findIngredient_def dest: find_SomeD split: option.splits)

lemma arrived_books:
  assumes inv: "stock_inv k" and g: "findIngredient br g k = Inr x" and q: "0 \<le> q" "in_range q" and n: "in_range n"
    and b: "b \<notin> sb_id ` set (ss_batches k)"
  shows "stock_of (arrived b now br g q c u n cost k) j = (if j = g then n else stock_of k j)"
    "moved (arrived b now br g q c u n cost k) j = moved k j + (if j = g then q else 0)"
    "stock_inv (arrived b now br g q c u n cost k)"
proof -
  let ?k = "addMovement br g (Some b) RECEIPT (milli q) None u (addBatch b br g (milli q) c now k)"
  have ok: "stock_ok k" "reversal_ok k" using inv by (simp_all add: stock_inv_def)
  have f: "findIngredient br g ?k = Inr x" using g by (simp add: findIngredient_def)
  have kk: "keyed ig_id (ss_ingredients ?k)" using ok by (simp add: stock_ok_def)
  show "stock_of (arrived b now br g q c u n cost k) j = (if j = g then n else stock_of k j)"
    using stock_of_setStock[OF kk f n, of j] stock_of_cong[of ?k k] by (simp add: arrived_def)
  have "moved (arrived b now br g q c u n cost k) = moved ?k" by (rule moved_cong) (simp add: arrived_def)
  then show "moved (arrived b now br g q c u n cost k) j = moved k j + (if j = g then q else 0)"
    using q moved_cong[of "addBatch b br g (milli q) c now k" k] by (simp add: moved_addMovement)
  have bs: "ss_batches (arrived b now br g q c u n cost k) = ss_batches k @ [\<lparr>sb_id = b, sb_branchId = br, sb_ingredientId = g,
      sb_quantityRemaining = q, sb_unitCost = to_column 10000 c, sb_receivedAt = now\<rparr>]"
    using q(2) by (simp add: arrived_def) (simp add: addBatch_def)
  have ms: "ss_movements (arrived b now br g q c u n cost k) = ss_movements k @ [\<lparr>mv_branchId = br, mv_ingredientId = g,
      mv_batchId = Some b, mv_type = RECEIPT, mv_quantity = q, mv_orderId = None, mv_createdById = u\<rparr>]"
    using q(2) by (simp add: arrived_def) (simp add: addMovement_def)
  have gs: "ss_ingredients (arrived b now br g q c u n cost k) = upd_where (\<lambda>x. ig_id x = g) (\<lambda>x. x\<lparr>ig_costPerUnit := to_column 10000 cost\<rparr>)
      (upd_where (\<lambda>x. ig_id x = g) (\<lambda>x. x\<lparr>ig_currentStock := n\<rparr>) (ss_ingredients k))"
    using n by (simp add: arrived_def setCost_def) (simp add: setStock_def)
  have "keyed ig_id (ss_ingredients (arrived b now br g q c u n cost k))"
    using ok(1) unfolding gs by (simp add: keyed_upd_where stock_ok_def)
  moreover have "\<forall>x \<in> set (ss_ingredients (arrived b now br g q c u n cost k)). in_range (ig_currentStock x)"
    using ok(1) n unfolding gs by (auto simp: upd_where_def stock_ok_def)
  ultimately have "stock_ok (arrived b now br g q c u n cost k)"
    using ok(1) q b unfolding stock_ok_def bs ms by (auto simp: row_simps)
  moreover have "orderMoves oid i (arrived b now br g q c u n cost k) = orderMoves oid i k" for oid i
    by (simp add: orderMoves_def arrived_def) (simp add: addMovement_def)
  ultimately show "stock_inv (arrived b now br g q c u n cost k)"
    using ok(2) by (simp add: stock_inv_def reversal_ok_def)
qed

text \<open>Which rows there are does not change.\<close>

lemma arrived_rows:
  "map ig_id (ss_ingredients (arrived b now br g q c u n cost k)) = map ig_id (ss_ingredients k)"
  "map ig_branchId (ss_ingredients (arrived b now br g q c u n cost k)) = map ig_branchId (ss_ingredients k)"
  "map sb_id (ss_batches (arrived b now br g q c u n cost k)) = map sb_id (ss_batches k) @ [b]"
  by (simp_all add: arrived_def setCost_def setStock_def addMovement_def addBatch_def upd_where_def)

section \<open>Identifiers\<close>

text \<open>The identifiers still to be given are in no row.\<close>

definition ids_ok :: "store_env \<Rightarrow> store \<Rightarrow> bool" where
  "ids_ok e s \<longleftrightarrow> inj (se_ids e) \<and> (\<forall>n \<ge> st_next s. se_ids e n \<notin> sb_id ` set (ss_batches (st_stock s)) \<and>
     se_ids e n \<notin> ig_id ` set (ss_ingredients (st_stock s)))"

definition store_inv :: "store_env \<Rightarrow> store \<Rightarrow> bool" where
  "store_inv e s \<longleftrightarrow> stock_inv (st_stock s) \<and> ids_ok e s"

lemma ids_okI:
  assumes "ids_ok e s" "st_next s \<le> st_next t"
    "sb_id ` set (ss_batches (st_stock t)) \<subseteq> sb_id ` set (ss_batches (st_stock s)) \<union> se_ids e ` {st_next s..<st_next t}"
    "ig_id ` set (ss_ingredients (st_stock t)) \<subseteq> ig_id ` set (ss_ingredients (st_stock s)) \<union> se_ids e ` {st_next s..<st_next t}"
  shows "ids_ok e t"
proof -
  have inj: "inj (se_ids e)" using assms(1) by (simp add: ids_ok_def)
  have "se_ids e n \<notin> se_ids e ` {st_next s..<st_next t}" if "st_next t \<le> n" for n
    using that inj by (auto simp: inj_eq)
  then show ?thesis using assms inj unfolding ids_ok_def by (meson UnE order_trans subsetD)
qed

lemma stock_step_rows:
  assumes "stock_step s t"
  shows "map sb_id (ss_batches t) = map sb_id (ss_batches s)" "map ig_id (ss_ingredients t) = map ig_id (ss_ingredients s)"
proof -
  have c: "map sb_id (ss_batches (consumed_state br i q opts s)) = map sb_id (ss_batches s) \<and>
      map ig_id (ss_ingredients (consumed_state br i q opts s)) = map ig_id (ss_ingredients s)" for br i q opts
    by (simp add: consumed_state_def Let_def drain_def row_simps o_def)
  have r: "map sb_id (ss_batches (restored_state br i q u oid s)) = map sb_id (ss_batches s) \<and>
      map ig_id (ss_ingredients (restored_state br i q u oid s)) = map ig_id (ss_ingredients s)" for br i q u oid
    by (simp add: restored_state_def Let_def refill_def row_simps o_def)
  have "map sb_id (ss_batches t) = map sb_id (ss_batches s) \<and> map ig_id (ss_ingredients t) = map ig_id (ss_ingredients s)"
    using assms
  proof (cases rule: stock_step.cases)
    case (consume q i opts br ps)
    then have "stock_ok s" by (simp add: stock_inv_def)
    from consumeStock_Inr[OF this consume(2-4,6)] c show ?thesis by metis
  next
    case (restore q oid i br u r')
    obtain g where g: "findIngredient br i s = Inr g" using restore(4) by (auto simp: restoreStock_def ebind_Inr_iff)
    have "t = restored_state br i q u oid s"
      using restoreStock_state[OF _ restore(3) g, of u] restore(1,4) by (simp add: stock_inv_def)
    then show ?thesis using r by simp
  next
    case (adjust q i br u)
    then show ?thesis
      by (auto simp: adjustStock_def ebind_Inr_iff Let_def addMovement_def setStock_def row_simps split: if_splits)
  qed
  then show "map sb_id (ss_batches t) = map sb_id (ss_batches s)" "map ig_id (ss_ingredients t) = map ig_id (ss_ingredients s)"
    by simp_all
qed

section \<open>Receipts\<close>

definition qty :: "receipt_line \<Rightarrow> int" where "qty l = units 1000 (rl_quantity l)"

definition received_ok :: "receipt_line \<Rightarrow> bool" where
  "received_ok l \<longleftrightarrow> rl_quantity l = milli (qty l) \<and> 0 < qty l \<and> in_range (qty l)"

definition receivedQty :: "string \<Rightarrow> receipt_line list \<Rightarrow> int" where
  "receivedQty g ls = sum_list (map qty (filter (\<lambda>l. rl_ingredientId l = g) ls))"

text \<open>The rows in memory say what the table says, and no balance is below zero.\<close>

definition agrees :: "string \<Rightarrow> snapshot \<Rightarrow> stock_state \<Rightarrow> bool" where
  "agrees br snap k \<longleftrightarrow> (\<forall>i c cost. map_of snap i = Some (c, cost) \<longrightarrow>
     (\<exists>x. findIngredient br i k = Inr x \<and> c = milli (ig_currentStock x) \<and> 0 \<le> ig_currentStock x))"

lemma receivedQty_nonneg: "list_all received_ok ls \<Longrightarrow> 0 \<le> receivedQty g ls"
  unfolding receivedQty_def by (rule sum_list_nonneg) (auto simp: list_all_iff received_ok_def less_imp_le)

lemma find_arrived:
  assumes "findIngredient br i k = Inr x" "in_range n"
  shows "\<exists>y. findIngredient br i (arrived b now br' g q c u n cost k) = Inr y \<and>
    ig_currentStock y = (if i = g then n else ig_currentStock x)"
proof -
  let ?f = "\<lambda>x. if ig_id x = g then x\<lparr>ig_currentStock := n, ig_costPerUnit := to_column 10000 cost\<rparr> else x"
  have gs: "ss_ingredients (arrived b now br' g q c u n cost k) = map ?f (ss_ingredients k)"
    using assms(2) by (simp add: arrived_def setCost_def) (simp add: setStock_def upd_where_def)
  obtain y where y: "find (\<lambda>g. ig_id g = i \<and> ig_branchId g = br) (ss_ingredients k) = Some y" "y = x"
    using assms(1) by (auto simp: findIngredient_def split: option.splits)
  have f: "find (\<lambda>g. ig_id g = i \<and> ig_branchId g = br) (map ?f xs) = map_option ?f (find (\<lambda>g. ig_id g = i \<and> ig_branchId g = br) xs)" for xs
    by (induction xs) auto
  have "find (\<lambda>g. ig_id g = i \<and> ig_branchId g = br) (map ?f (ss_ingredients k)) = Some (?f x)"
    unfolding f y(1) y(2) by simp
  then have "findIngredient br i (arrived b now br' g q c u n cost k) = Inr (?f x)"
    unfolding findIngredient_def gs by (simp only: option.case)
  then show ?thesis using findIngredient_mem[OF assms(1)] by (intro exI[of _ "?f x"]) simp
qed

lemma receiveLine_state:
  assumes "receiveLine e br u grn l (snap, s) = Inr (snap', t)" "received_ok l" "agrees br snap (st_stock s)"
    "store_inv e s" "in_range (stock_of (st_stock s) (rl_ingredientId l) + qty l)"
  shows "\<exists>b c cost. st_stock t = arrived b (se_now e) br (rl_ingredientId l) (qty l) c u (stock_of (st_stock s) (rl_ingredientId l) + qty l) cost (st_stock s) \<and>
      b = se_ids e (st_next s + 1)" "agrees br snap' (st_stock t)" "store_inv e t"
    "stock_of (st_stock t) j = stock_of (st_stock s) j + (if j = rl_ingredientId l then qty l else 0)"
    "moved (st_stock t) j = moved (st_stock s) j + (if j = rl_ingredientId l then qty l else 0)"
    "st_orders t = st_orders s" "st_orderItems t = st_orderItems s" "st_receipts t = st_receipts s"
proof -
  let ?g = "rl_ingredientId l" and ?q = "qty l" and ?k = "st_stock s" and ?b = "se_ids e (st_next s + 1)"
  have q: "rl_quantity l = milli ?q" "0 < ?q" "in_range ?q" using assms(2) by (simp_all add: received_ok_def)
  obtain current cost where m: "map_of snap ?g = Some (current, cost)"
    using assms(1) by (auto simp: receiveLine_def storeId_def Let_def split: option.splits)
  then obtain x where x: "findIngredient br ?g ?k = Inr x" "current = milli (ig_currentStock x)" "0 \<le> ig_currentStock x"
    using assms(3) by (auto simp: agrees_def)
  have inv: "stock_inv ?k" "ids_ok e s" using assms(4) by (simp_all add: store_inv_def)
  have st: "stock_of ?k ?g = ig_currentStock x" "in_range (ig_currentStock x)"
    using findIngredient_stock[OF _ x(1)] inv(1) by (simp_all add: stock_inv_def)
  let ?n = "stock_of ?k ?g + ?q"
  have "max 0 current = milli (ig_currentStock x)" using x by (simp add: max_def)
  then have new: "round3 (fadd (max 0 current) (rl_quantity l)) = milli ?n"
    using st q assms(5) by (simp add: round3_fadd_milli)
  obtain newCost where t: "st_stock t = arrived ?b (se_now e) br ?g ?q (rl_unitCost l) u ?n newCost ?k"
    and snap': "snap' = AList.update ?g (milli ?n, newCost) snap" and nx: "st_next t = st_next s + 2"
    and rest: "st_orders t = st_orders s" "st_orderItems t = st_orderItems s" "st_receipts t = st_receipts s"
    using assms(1) m new q(1) by (auto simp: receiveLine_def storeId_def Let_def arrived_def split: if_splits)
  show "st_orders t = st_orders s" "st_orderItems t = st_orderItems s" "st_receipts t = st_receipts s" by (rule rest)+
  show "\<exists>b c cost. st_stock t = arrived b (se_now e) br ?g ?q c u ?n cost ?k \<and> b = ?b" using t by blast
  have b: "?b \<notin> sb_id ` set (ss_batches ?k)" using inv(2) unfolding ids_ok_def by simp
  note books = arrived_books[OF inv(1) x(1) _ q(3) assms(5) b, of "se_now e" "rl_unitCost l" u newCost]
  show "stock_of (st_stock t) j = stock_of ?k j + (if j = ?g then ?q else 0)"
    "moved (st_stock t) j = moved ?k j + (if j = ?g then ?q else 0)" using books(1,2)[of j] q(2) by (simp_all add: t)
  have "ids_ok e t"
  proof (rule ids_okI[OF inv(2)])
    have "set (map sb_id (ss_batches (st_stock t))) = insert ?b (set (map sb_id (ss_batches ?k)))"
      unfolding t arrived_rows(3) by simp
    then show "sb_id ` set (ss_batches (st_stock t)) \<subseteq> sb_id ` set (ss_batches ?k) \<union> se_ids e ` {st_next s..<st_next t}"
      by (auto simp: nx)
    have "set (map ig_id (ss_ingredients (st_stock t))) = set (map ig_id (ss_ingredients ?k))" unfolding t arrived_rows(1) by simp
    then show "ig_id ` set (ss_ingredients (st_stock t)) \<subseteq> ig_id ` set (ss_ingredients ?k) \<union> se_ids e ` {st_next s..<st_next t}" by auto
  qed (simp add: nx)
  then show "store_inv e t" using books(3) q(2) by (simp add: store_inv_def t)
  show "agrees br snap' (st_stock t)"
    unfolding agrees_def
  proof (intro allI impI)
    fix i c cost' assume i: "map_of snap' i = Some (c, cost')"
    show "\<exists>x. findIngredient br i (st_stock t) = Inr x \<and> c = milli (ig_currentStock x) \<and> 0 \<le> ig_currentStock x"
    proof (cases "i = ?g")
      case True
      then show ?thesis using i find_arrived[OF x(1) assms(5)] x(3) st(1) q(2) by (fastforce simp: snap' t update_conv)
    next
      case False
      then obtain y where "findIngredient br i ?k = Inr y" "c = milli (ig_currentStock y)" "0 \<le> ig_currentStock y"
        using i assms(3) by (auto simp: snap' update_conv agrees_def)
      then show ?thesis using find_arrived[OF _ assms(5)] False by (fastforce simp: t)
    qed
  qed
qed

lemma receiveLines_state:
  "foldE (receiveLine e br u grn) ls (snap, s) = Inr (snap', t) \<Longrightarrow> list_all received_ok ls \<Longrightarrow> agrees br snap (st_stock s) \<Longrightarrow>
   store_inv e s \<Longrightarrow> (\<And>g. in_range (stock_of (st_stock s) g + receivedQty g ls) \<and> in_range (stock_of (st_stock s) g)) \<Longrightarrow>
   store_inv e t \<and> (\<forall>j. stock_of (st_stock t) j = stock_of (st_stock s) j + receivedQty j ls \<and>
     moved (st_stock t) j = moved (st_stock s) j + receivedQty j ls) \<and>
   st_orders t = st_orders s \<and> st_orderItems t = st_orderItems s \<and> st_receipts t = st_receipts s"
proof (induction ls arbitrary: snap s)
  case (Cons l ls)
  obtain snap1 s1 where l: "receiveLine e br u grn l (snap, s) = Inr (snap1, s1)"
    and ls: "foldE (receiveLine e br u grn) ls (snap1, s1) = Inr (snap', t)"
    using Cons.prems(1) by (auto simp: ebind_Inr_iff)
  let ?g = "rl_ingredientId l"
  have ok: "received_ok l" "list_all received_ok ls" using Cons.prems(2) by simp_all
  have split: "receivedQty j (l # ls) = (if j = ?g then qty l else 0) + receivedQty j ls" for j by (simp add: receivedQty_def)
  have q: "0 < qty l" using ok by (simp add: received_ok_def)
  have r: "in_range (stock_of (st_stock s) ?g + qty l)"
    using Cons.prems(5)[of ?g] receivedQty_nonneg[OF ok(2), of ?g] q split[of ?g] by (simp add: in_range_def abs_le_iff)
  note a = receiveLine_state[OF l ok(1) Cons.prems(3,4) r]
  have next_range: "in_range (stock_of (st_stock s1) g + receivedQty g ls) \<and> in_range (stock_of (st_stock s1) g)" for g
    using Cons.prems(5)[of g] r by (auto simp: a(4) split add.assoc)
  show ?case using Cons.IH[OF ls ok(2) a(2,3) next_range] a(4-8) split by simp
qed (simp add: receivedQty_def)

text \<open>What a line of the purchase order received.\<close>

definition orderedQty :: "string \<Rightarrow> receipt_line list \<Rightarrow> int" where
  "orderedQty i ls = sum_list (map qty (filter (\<lambda>l. rl_purchaseOrderItemId l = Some i) ls))"

lemma receivedBy_lookup:
  "list_all received_ok ls \<Longrightarrow> i \<noteq> '''' \<Longrightarrow>
   map_of (receivedByPoItem ls) i =
     (let ns = map qty (filter (\<lambda>l. rl_purchaseOrderItemId l = Some i) ls) in
      if ns = [] then None else Some (fsum (map milli ns)))"
proof (induction ls rule: rev_induct)
  case (snoc l ls)
  then show ?case
    by (auto simp: receivedByPoItem_def update_conv fsum_def received_ok_def Let_def filter_empty_conv split: option.splits)
qed (simp add: receivedByPoItem_def)

lemma receivedBy_keys: "i \<in> fst ` set (receivedByPoItem ls) \<Longrightarrow> i \<noteq> ''''"
  "distinct (map fst (receivedByPoItem ls))"
proof -
  have "distinct (map fst (receivedByPoItem ls)) \<and> '''' \<notin> fst ` set (receivedByPoItem ls)"
  proof (induction ls rule: rev_induct)
    case (snoc l ls)
    then show ?case
      by (auto simp: receivedByPoItem_def distinct_update dom_update split: option.splits)
  qed (simp add: receivedByPoItem_def)
  then show "i \<in> fst ` set (receivedByPoItem ls) \<Longrightarrow> i \<noteq> ''''" "distinct (map fst (receivedByPoItem ls))" by metis+
qed

lemma round3_received:
  assumes "sum_ok ns" "length ns \<le> 900" "in_range g" "in_range (g + sum_list ns)"
  shows "round3 (fadd (milli g) (fsum (map milli ns))) = milli (g + sum_list ns)"
proof -
  have "close 1000 0 0 0" by (simp add: close_def)
  from foldl_fadd_close[OF this, of ns]
  have "close 1000 (fsum (map milli ns)) (sum_list ns) (4 * of_nat (length ns))"
    using assms by (simp add: fsum_def sum_ok_def)
  then have c: "close 1000 (fsum (map milli ns)) (sum_list ns) 3600" by (rule close_mono) (use assms in simp)
  from close_fadd[OF close_dec[OF assms(3)] c assms(4)]
  have "close 1000 (fadd (milli g) (fsum (map milli ns))) (g + sum_list ns) 3604" by simp
  from round_dp_close[OF this assms(4)] show ?thesis by (simp add: round3_dp)
qed

lemma receiveItem_state:
  assumes "receiveItem items (i, added) s = Inr t"
  shows "\<exists>p. find (\<lambda>p. poi_id p = i) items = Some p \<and> t = s\<lparr>st_orderItems := upd_where (\<lambda>x. poi_id x = i)
    (\<lambda>x. x\<lparr>poi_quantityReceived := to_column 1000 (round3 (fadd (milli (poi_quantityReceived p)) added))\<rparr>) (st_orderItems s)\<rparr>"
  using assms by (auto simp: receiveItem_def split: option.splits)

lemma foldE_item_known:
  "foldE (receiveItem items) ms s = Inr t \<Longrightarrow> k \<in> fst ` set ms \<Longrightarrow> find (\<lambda>p. poi_id p = k) items \<noteq> None"
proof (induction ms arbitrary: s)
  case (Cons m ms)
  obtain i added where m: "m = (i, added)" by fastforce
  obtain s1 where s1: "receiveItem items (i, added) s = Inr s1" "foldE (receiveItem items) ms s1 = Inr t"
    using Cons.prems(1) by (auto simp: m ebind_Inr_iff)
  show ?case using receiveItem_state[OF s1(1)] Cons.IH[OF s1(2)] Cons.prems(2) by (auto simp: m)
qed simp

text \<open>Every line that received something holds what it held when the order was read and what came in.\<close>

lemma receiveItems_state:
  "foldE (receiveItem items) ms s = Inr t \<Longrightarrow> distinct (map fst ms) \<Longrightarrow>
   \<exists>f. st_orderItems t = map f (st_orderItems s) \<and> st_stock t = st_stock s \<and> st_next t = st_next s \<and> st_orders t = st_orders s \<and>
     st_receipts t = st_receipts s \<and>
     (\<forall>x. f x = (case map_of ms (poi_id x) of None \<Rightarrow> x
        | Some added \<Rightarrow> (case find (\<lambda>p. poi_id p = poi_id x) items of None \<Rightarrow> x
            | Some p \<Rightarrow> x\<lparr>poi_quantityReceived := to_column 1000 (round3 (fadd (milli (poi_quantityReceived p)) added))\<rparr>)))"
proof (induction ms arbitrary: s)
  case Nil
  then show ?case by (intro exI[of _ id]) simp
next
  case (Cons m ms)
  obtain i added where m: "m = (i, added)" by fastforce
  obtain s1 where s1: "receiveItem items (i, added) s = Inr s1" "foldE (receiveItem items) ms s1 = Inr t"
    using Cons.prems(1) by (auto simp: m ebind_Inr_iff)
  obtain p where p: "find (\<lambda>p. poi_id p = i) items = Some p" and s1': "s1 = s\<lparr>st_orderItems := upd_where (\<lambda>x. poi_id x = i)
    (\<lambda>x. x\<lparr>poi_quantityReceived := to_column 1000 (round3 (fadd (milli (poi_quantityReceived p)) added))\<rparr>) (st_orderItems s)\<rparr>"
    using receiveItem_state[OF s1(1)] by blast
  let ?g = "\<lambda>x. if poi_id x = i then x\<lparr>poi_quantityReceived := to_column 1000 (round3 (fadd (milli (poi_quantityReceived p)) added))\<rparr> else x"
  obtain f where f: "st_orderItems t = map f (st_orderItems s1)" "st_stock t = st_stock s1" "st_next t = st_next s1"
    "st_orders t = st_orders s1" "st_receipts t = st_receipts s1"
    and fx: "\<And>x. f x = (case map_of ms (poi_id x) of None \<Rightarrow> x
        | Some added \<Rightarrow> (case find (\<lambda>p. poi_id p = poi_id x) items of None \<Rightarrow> x
            | Some p \<Rightarrow> x\<lparr>poi_quantityReceived := to_column 1000 (round3 (fadd (milli (poi_quantityReceived p)) added))\<rparr>))"
    using Cons.IH[OF s1(2)] Cons.prems(2) by auto
  have i: "map_of ms i = None" using Cons.prems(2) by (simp add: m map_of_eq_None_iff)
  have "st_orderItems t = map (f \<circ> ?g) (st_orderItems s)" by (simp add: f(1) s1' upd_where_def)
  moreover have "(f \<circ> ?g) x = (case map_of (m # ms) (poi_id x) of None \<Rightarrow> x
        | Some added \<Rightarrow> (case find (\<lambda>p. poi_id p = poi_id x) items of None \<Rightarrow> x
            | Some p \<Rightarrow> x\<lparr>poi_quantityReceived := to_column 1000 (round3 (fadd (milli (poi_quantityReceived p)) added))\<rparr>))" for x
    using i p by (simp add: fx m)
  ultimately show ?case using f(2-5) by (intro exI[of _ "f \<circ> ?g"]) (simp add: s1')
qed

lemma stock_of_range: "stock_ok k \<Longrightarrow> in_range (stock_of k g)"
proof -
  assume ok: "stock_ok k"
  show ?thesis
  proof (cases "\<exists>x \<in> set (ss_ingredients k). ig_id x = g")
    case True
    then obtain x where "x \<in> set (ss_ingredients k)" "ig_id x = g" by blast
    then show ?thesis using stock_of_keyed[of k x] ok by (auto simp: stock_ok_def)
  next
    case False
    then have "filter (\<lambda>x. ig_id x = g) (ss_ingredients k) = []" by (auto simp: filter_empty_conv)
    then show ?thesis by (simp add: stock_of_def in_range_def)
  qed
qed

lemma snapshot_agrees:
  assumes "ingredientsIn br ids k = Inr gs" "stock_ok k" "\<And>g. g \<in> set ids \<Longrightarrow> 0 \<le> stock_of k g"
  shows "agrees br (snapshotOf gs) k"
  unfolding agrees_def
proof (intro allI impI)
  fix i c cost assume "map_of (snapshotOf gs) i = Some (c, cost)"
  then obtain x where x: "x \<in> set gs" "ig_id x = i" "c = milli (ig_currentStock x)"
    using map_of_SomeD[of "snapshotOf gs" i] by (auto simp: snapshotOf_def)
  have k: "keyed ig_id (ss_ingredients k)" using assms(2) by (simp add: stock_ok_def)
  have m: "x \<in> set (ss_ingredients k)" "ig_branchId x = br" "ig_id x \<in> set ids"
    using assms(1) x(1) by (auto simp: ingredientsIn_def Let_def split: if_splits)
  have "find (\<lambda>g. ig_id g = i \<and> ig_branchId g = br) (ss_ingredients k) = Some x"
  proof (cases "find (\<lambda>g. ig_id g = i \<and> ig_branchId g = br) (ss_ingredients k)")
    case None
    then show ?thesis using m x(2) by (auto simp: find_None_iff)
  next
    case (Some y)
    then have "y \<in> set (ss_ingredients k)" "ig_id y = ig_id x" using x(2) by (auto dest: find_SomeD)
    then show ?thesis using keyed_unique[OF k _ m(1)] Some by simp
  qed
  moreover have "0 \<le> ig_currentStock x" using stock_of_keyed[OF k m(1)] assms(3)[OF m(3)] by simp
  ultimately show "\<exists>x. findIngredient br i k = Inr x \<and> c = milli (ig_currentStock x) \<and> 0 \<le> ig_currentStock x"
    using x(3) by (simp add: findIngredient_def)
qed

text \<open>What the receipts ask of their input: quantities in thousandths, on ingredients whose balance is not
  below zero, within the range of the columns.\<close>

definition receivable :: "receipt_dto \<Rightarrow> store \<Rightarrow> bool" where
  "receivable d s \<longleftrightarrow> list_all received_ok (rd_items d) \<and> length (rd_items d) \<le> 900 \<and> sum_list (map qty (rd_items d)) \<le> 10 ^ 12 \<and>
     (\<forall>l \<in> set (rd_items d). 0 \<le> stock_of (st_stock s) (rl_ingredientId l)) \<and>
     (\<forall>g. in_range (stock_of (st_stock s) g + receivedQty g (rd_items d))) \<and>
     keyed poi_id (st_orderItems s) \<and> '''' \<notin> poi_id ` set (st_orderItems s) \<and>
     (\<forall>x \<in> set (st_orderItems s). in_range (poi_quantityReceived x) \<and> in_range (poi_quantityReceived x + orderedQty (poi_id x) (rd_items d)))"

lemma goodsReceipt_InrE:
  assumes "createGoodsReceipt e br u d s = Inr (row, t)"
  obtains po gs items snap s1 s2 s3 where "receiptOrder br (rd_purchaseOrderId d) s = Inr po"
    "ingredientsIn br (map rl_ingredientId (rd_items d)) (st_stock s) = Inr gs"
    "items = (case po of None \<Rightarrow> [] | Some o' \<Rightarrow> itemsOfOrder (ro_id o') s)"
    "s1 = s\<lparr>st_next := st_next s + 1, st_receipts := st_receipts s @ [row]\<rparr>"
    "foldE (receiveLine e br u (gn_id row)) (rd_items d) (snapshotOf gs, s1) = Inr (snap, s2)"
    "foldE (receiveItem items) (receivedByPoItem (rd_items d)) s2 = Inr s3"
    "t = (case po of None \<Rightarrow> s3 | Some o' \<Rightarrow> setOrderStatus (ro_id o') (receivedStatus (itemsOfOrder (ro_id o') s3) (ro_status o')) s3)"
proof -
  obtain rp where r: "goodsReceiptRead e br d s = Inr rp" and w: "goodsReceiptTx e br u d rp s = Inr (row, t)"
    using assms by (auto simp: createGoodsReceipt_def ebind_Inr_iff)
  obtain gs where po: "receiptOrder br (rd_purchaseOrderId d) s = Inr (rp_order rp)"
    and gs: "ingredientsIn br (map rl_ingredientId (rd_items d)) (st_stock s) = Inr gs"
    and it: "rp_items rp = (case rp_order rp of None \<Rightarrow> [] | Some o' \<Rightarrow> itemsOfOrder (ro_id o') s)" "rp_snapshot rp = snapshotOf gs"
    using r unfolding goodsReceiptRead_def Let_def by (elim ebind_InrE) (auto elim!: ebind_InrE split: if_splits)
  from w obtain snap s2 s3 where
    "foldE (receiveLine e br u (gn_id row)) (rd_items d) (rp_snapshot rp, s\<lparr>st_next := st_next s + 1, st_receipts := st_receipts s @ [row]\<rparr>) = Inr (snap, s2)"
    "foldE (receiveItem (rp_items rp)) (receivedByPoItem (rd_items d)) s2 = Inr s3"
    "t = (case rp_order rp of None \<Rightarrow> s3 | Some o' \<Rightarrow> setOrderStatus (ro_id o') (receivedStatus (itemsOfOrder (ro_id o') s3) (ro_status o')) s3)"
    unfolding goodsReceiptTx_def storeId_def Let_def by (auto simp: ebind_Inr_iff split: if_splits)
  with that[OF po gs it(1) refl] it(2) show ?thesis by simp
qed

lemma sum_filter_le_total: "\<forall>n \<in> set (map q ls). 0 \<le> n \<Longrightarrow> sum_list (map q (filter P ls)) \<le> sum_list (map q ls)" for q :: "'a \<Rightarrow> int"
  by (induction ls) auto

text \<open>The sums by line of the purchase order are exact.\<close>

lemma received_sum:
  assumes "receivable d s" "x \<in> set (st_orderItems s)" "map_of (receivedByPoItem (rd_items d)) (poi_id x) = Some added"
  shows "to_column 1000 (round3 (fadd (milli (poi_quantityReceived x)) added)) = poi_quantityReceived x + orderedQty (poi_id x) (rd_items d)"
proof -
  let ?ns = "map qty (filter (\<lambda>l. rl_purchaseOrderItemId l = Some (poi_id x)) (rd_items d))"
  have ok: "list_all received_ok (rd_items d)" using assms(1) by (simp add: receivable_def)
  have ne: "poi_id x \<noteq> ''''" using assms(1) imageI[OF assms(2), of poi_id] by (metis receivable_def)
  have a: "added = fsum (map milli ?ns)" using assms(3) receivedBy_lookup[OF ok ne] by (auto simp: Let_def split: if_splits)
  have q: "\<forall>n \<in> set (map qty (rd_items d)). 0 \<le> n" using ok by (auto simp: list_all_iff received_ok_def less_imp_le)
  have "length (rd_items d) \<le> 900" using assms(1) by (simp add: receivable_def)
  then have len: "length ?ns \<le> 900" using le_trans[OF length_filter_le] by simp
  have pos: "map abs ?ns = ?ns" using q by (intro map_idI) auto
  have "sum_list (map qty (rd_items d)) \<le> 10 ^ 12" using assms(1) by (simp add: receivable_def)
  then have "sum_list ?ns \<le> 10 ^ 12" using sum_filter_le_total[OF q] order_trans by blast
  then have so: "sum_ok ?ns" unfolding sum_ok_def pos using len by simp
  have r: "in_range (poi_quantityReceived x)" "in_range (poi_quantityReceived x + sum_list ?ns)"
    using assms(1,2) by (simp_all add: receivable_def orderedQty_def)
  show ?thesis unfolding a round3_received[OF so len r] using r(2) by (simp add: orderedQty_def)
qed

lemma receipt_state:
  assumes "createGoodsReceipt e br u d s = Inr (row, t)" "receivable d s" "store_inv e s"
  shows "store_inv e t"
    "stock_of (st_stock t) j = stock_of (st_stock s) j + receivedQty j (rd_items d)"
    "moved (st_stock t) j = moved (st_stock s) j + receivedQty j (rd_items d)"
    "st_orderItems t = map (\<lambda>x. x\<lparr>poi_quantityReceived := poi_quantityReceived x + orderedQty (poi_id x) (rd_items d)\<rparr>) (st_orderItems s)"
    "st_receipts t = st_receipts s @ [row]"
    "\<And>i. rd_purchaseOrderId d = Some i \<Longrightarrow> i \<noteq> '''' \<Longrightarrow> \<exists>o'. findPurchaseOrder br i s = Some o' \<and>
       ro_status o' \<notin> {PO_CANCELLED, PO_RECEIVED} \<and> st_orders t = upd_where (\<lambda>y. ro_id y = i)
         (\<lambda>y. y\<lparr>ro_status := receivedStatus (itemsOfOrder i t) (ro_status o')\<rparr>) (st_orders s)"
proof -
  obtain po gs items snap s1 s2 s3 where po: "receiptOrder br (rd_purchaseOrderId d) s = Inr po"
    and gs: "ingredientsIn br (map rl_ingredientId (rd_items d)) (st_stock s) = Inr gs"
    and items: "items = (case po of None \<Rightarrow> [] | Some o' \<Rightarrow> itemsOfOrder (ro_id o') s)"
    and s1: "s1 = s\<lparr>st_next := st_next s + 1, st_receipts := st_receipts s @ [row]\<rparr>"
    and ls: "foldE (receiveLine e br u (gn_id row)) (rd_items d) (snapshotOf gs, s1) = Inr (snap, s2)"
    and it: "foldE (receiveItem items) (receivedByPoItem (rd_items d)) s2 = Inr s3"
    and t: "t = (case po of None \<Rightarrow> s3 | Some o' \<Rightarrow> setOrderStatus (ro_id o') (receivedStatus (itemsOfOrder (ro_id o') s3) (ro_status o')) s3)"
    by (rule goodsReceipt_InrE[OF assms(1)])
  have rv: "list_all received_ok (rd_items d)" "keyed poi_id (st_orderItems s)" "'''' \<notin> poi_id ` set (st_orderItems s)"
    "\<And>g. in_range (stock_of (st_stock s) g + receivedQty g (rd_items d))"
    "\<And>g. g \<in> set (map rl_ingredientId (rd_items d)) \<Longrightarrow> 0 \<le> stock_of (st_stock s) g"
    using assms(2) by (auto simp: receivable_def)
  have ok: "stock_ok (st_stock s)" using assms(3) by (simp add: store_inv_def stock_inv_def)
  have inv1: "store_inv e s1" using assms(3) by (simp add: s1 store_inv_def ids_ok_def)
  have ag: "agrees br (snapshotOf gs) (st_stock s1)" using snapshot_agrees[OF gs ok rv(5)] by (simp add: s1)
  have rg: "in_range (stock_of (st_stock s1) g + receivedQty g (rd_items d)) \<and> in_range (stock_of (st_stock s1) g)" for g
    using rv(4)[of g] stock_of_range[OF ok] by (simp add: s1)
  note st = receiveLines_state[OF ls rv(1) ag inv1 rg]
  obtain f where f: "st_orderItems s3 = map f (st_orderItems s2)" "st_stock s3 = st_stock s2" "st_next s3 = st_next s2"
      "st_orders s3 = st_orders s2" "st_receipts s3 = st_receipts s2"
    and fx: "\<And>x. f x = (case map_of (receivedByPoItem (rd_items d)) (poi_id x) of None \<Rightarrow> x
        | Some added \<Rightarrow> (case find (\<lambda>p. poi_id p = poi_id x) items of None \<Rightarrow> x
            | Some p \<Rightarrow> x\<lparr>poi_quantityReceived := to_column 1000 (round3 (fadd (milli (poi_quantityReceived p)) added))\<rparr>))"
    using receiveItems_state[OF it receivedBy_keys(2)] by metis
  have same: "st_stock t = st_stock s3" "st_next t = st_next s3" "st_receipts t = st_receipts s3" "st_orderItems t = st_orderItems s3"
    by (simp_all add: t setOrderStatus_def split: option.split)
  show "store_inv e t" using st f same by (simp add: store_inv_def ids_ok_def)
  show "stock_of (st_stock t) j = stock_of (st_stock s) j + receivedQty j (rd_items d)"
    "moved (st_stock t) j = moved (st_stock s) j + receivedQty j (rd_items d)"
    using st f same by (simp_all add: s1)
  show "st_receipts t = st_receipts s @ [row]" using st f same by (simp add: s1)
  have items_known: "find (\<lambda>p. poi_id p = k) items \<noteq> None" if "k \<in> fst ` set (receivedByPoItem (rd_items d))" for k
    using that foldE_item_known[OF it] by blast
  show "st_orderItems t = map (\<lambda>x. x\<lparr>poi_quantityReceived := poi_quantityReceived x + orderedQty (poi_id x) (rd_items d)\<rparr>) (st_orderItems s)"
  proof -
    have "f x = x\<lparr>poi_quantityReceived := poi_quantityReceived x + orderedQty (poi_id x) (rd_items d)\<rparr>"
      if x: "x \<in> set (st_orderItems s)" for x
    proof (cases "map_of (receivedByPoItem (rd_items d)) (poi_id x)")
      case None
      have "poi_id x \<noteq> ''''" using rv(3) imageI[OF x, of poi_id] by metis
      then have "filter (\<lambda>l. rl_purchaseOrderItemId l = Some (poi_id x)) (rd_items d) = []"
        using receivedBy_lookup[OF rv(1)] None by (simp add: Let_def split: if_splits)
      then show ?thesis by (simp add: fx None orderedQty_def)
    next
      case (Some added)
      then have "poi_id x \<in> fst ` set (receivedByPoItem (rd_items d))" by (metis map_of_eq_None_iff option.distinct(1))
      then obtain p where p: "find (\<lambda>p. poi_id p = poi_id x) items = Some p" using items_known by auto
      then have pm: "p \<in> set (st_orderItems s)" "poi_id p = poi_id x"
        by (auto simp: items itemsOfOrder_def dest!: find_SomeD split: option.splits)
      have "p = x" by (rule keyed_unique[OF rv(2) pm(1) x pm(2)])
      then show ?thesis using received_sum[OF assms(2) x Some] p by (simp add: fx Some)
    qed
    then show ?thesis using st f same by (simp add: s1)
  qed
  show "\<exists>o'. findPurchaseOrder br i s = Some o' \<and> ro_status o' \<notin> {PO_CANCELLED, PO_RECEIVED} \<and>
      st_orders t = upd_where (\<lambda>y. ro_id y = i) (\<lambda>y. y\<lparr>ro_status := receivedStatus (itemsOfOrder i t) (ro_status o')\<rparr>) (st_orders s)"
    if i: "rd_purchaseOrderId d = Some i" "i \<noteq> ''''" for i
  proof -
    obtain o' where o': "po = Some o'" "findPurchaseOrder br i s = Some o'" "ro_status o' \<noteq> PO_CANCELLED" "ro_status o' \<noteq> PO_RECEIVED"
      using po i by (cases "findPurchaseOrder br i s") (auto simp: receiptOrder_def eq_commute[of "Some _" "findPurchaseOrder br i s"] split: if_splits)
    have "ro_id o' = i" using o'(2) by (auto simp: findPurchaseOrder_def dest: find_SomeD)
    then show ?thesis using o' st f same by (auto simp: t s1 setOrderStatus_def itemsOfOrder_def)
  qed
qed

section \<open>Transfers\<close>

lemma findIngredientI:
  "keyed ig_id (ss_ingredients k) \<Longrightarrow> x \<in> set (ss_ingredients k) \<Longrightarrow> ig_id x = g \<Longrightarrow> ig_branchId x = br \<Longrightarrow> findIngredient br g k = Inr x"
proof -
  assume a: "keyed ig_id (ss_ingredients k)" "x \<in> set (ss_ingredients k)" "ig_id x = g" "ig_branchId x = br"
  obtain y where y: "find (\<lambda>g'. ig_id g' = g \<and> ig_branchId g' = br) (ss_ingredients k) = Some y"
    using a(2-4) by (cases "find (\<lambda>g'. ig_id g' = g \<and> ig_branchId g' = br) (ss_ingredients k)") (auto simp: find_None_iff)
  then have "y \<in> set (ss_ingredients k)" "ig_id y = ig_id x" using a(3) by (auto dest: find_SomeD)
  then show ?thesis using keyed_unique[OF a(1) _ a(2)] y by (simp add: findIngredient_def)
qed

text \<open>The ingredient at the destination: found or made, with no stock of its own.\<close>

lemma destination_state:
  assumes "destination e to' src s = (g, t)" "store_inv e s"
  shows "store_inv e t" "findIngredient to' (ig_id g) (st_stock t) = Inr g" "stock_of (st_stock t) j = stock_of (st_stock s) j"
    "moved (st_stock t) j = moved (st_stock s) j" "ig_name g = ig_name src" "st_transfers t = st_transfers s"
proof -
  have inv: "stock_ok (st_stock s)" "reversal_ok (st_stock s)" "ids_ok e s"
    using assms(2) by (simp_all add: store_inv_def stock_inv_def)
  have kk: "keyed ig_id (ss_ingredients (st_stock s))" using inv(1) by (simp add: stock_ok_def)
  have "store_inv e t \<and> findIngredient to' (ig_id g) (st_stock t) = Inr g \<and> stock_of (st_stock t) j = stock_of (st_stock s) j \<and>
      moved (st_stock t) j = moved (st_stock s) j \<and> ig_name g = ig_name src \<and> st_transfers t = st_transfers s"
  proof (cases "find (\<lambda>g. ig_branchId g = to' \<and> ig_name g = ig_name src) (ss_ingredients (st_stock s))")
    case (Some x)
    then have x: "x \<in> set (ss_ingredients (st_stock s))" "ig_branchId x = to'" "ig_name x = ig_name src" by (auto dest: find_SomeD)
    have "g = x" "t = s" using assms(1) Some by (simp_all add: destination_def)
    then show ?thesis using findIngredientI[OF kk x(1) refl x(2)] x(3) assms(2) by simp
  next
    case None
    define i where "i = se_ids e (st_next s)"
    have g: "g = \<lparr>ig_id = i, ig_branchId = to', ig_name = ig_name src, ig_unit = ig_unit src, ig_currentStock = 0, ig_costPerUnit = 0\<rparr>"
      and t: "t = s\<lparr>st_next := st_next s + 1, st_stock := (st_stock s)\<lparr>ss_ingredients := ss_ingredients (st_stock s) @ [g]\<rparr>\<rparr>"
      using assms(1) None by (auto simp: destination_def storeId_def i_def Let_def)
    have new: "i \<notin> ig_id ` set (ss_ingredients (st_stock s))" using inv(3) by (simp add: ids_ok_def i_def)
    have gi: "ig_id g = i" "ig_branchId g = to'" "ig_currentStock g = 0" by (simp_all add: g)
    have gs: "ss_ingredients (st_stock t) = ss_ingredients (st_stock s) @ [g]" "ss_batches (st_stock t) = ss_batches (st_stock s)"
      "ss_movements (st_stock t) = ss_movements (st_stock s)" by (simp_all add: t)
    have kt: "keyed ig_id (ss_ingredients (st_stock t))" using kk new by (simp add: gs keyed_snoc gi)
    have "stock_ok (st_stock t)" using inv(1) kt gi(3) by (simp add: stock_ok_def gs(2,3)) (simp add: gs in_range_def)
    moreover have "reversal_ok (st_stock t)" using inv(2) by (simp add: reversal_ok_def orderMoves_def gs)
    moreover have "ids_ok e t"
      by (rule ids_okI[OF inv(3)]) (auto simp: gs gi i_def, simp_all add: t)
    ultimately have it: "store_inv e t" by (simp add: store_inv_def stock_inv_def)
    have "findIngredient to' i (st_stock t) = Inr g" by (rule findIngredientI[OF kt _ gi(1,2)]) (simp add: gs)
    moreover have "stock_of (st_stock t) j = stock_of (st_stock s) j" by (simp add: stock_of_def gs gi(3))
    ultimately show ?thesis using it moved_cong[OF gs(3)] by (simp add: gi(1)) (simp add: g t)
  qed
  then show "store_inv e t" "findIngredient to' (ig_id g) (st_stock t) = Inr g" "stock_of (st_stock t) j = stock_of (st_stock s) j"
    "moved (st_stock t) j = moved (st_stock s) j" "ig_name g = ig_name src" "st_transfers t = st_transfers s" by simp_all
qed

lemma destination_rows: "destination e to' src s = (g, t) \<Longrightarrow> set (ss_ingredients (st_stock s)) \<subseteq> set (ss_ingredients (st_stock t))"
  by (auto simp: destination_def storeId_def Let_def split: option.splits)

lemma consume_store_inv: "stock_step (st_stock s) k \<Longrightarrow> store_inv e s \<Longrightarrow> store_inv e (s\<lparr>st_stock := k\<rparr>)"
proof -
  assume a: "stock_step (st_stock s) k" "store_inv e s"
  have "sb_id ` set (ss_batches k) = sb_id ` set (ss_batches (st_stock s))" "ig_id ` set (ss_ingredients k) = ig_id ` set (ss_ingredients (st_stock s))"
    using arg_cong[OF stock_step_rows(1)[OF a(1)], of set] arg_cong[OF stock_step_rows(2)[OF a(1)], of set] by simp_all
  then show ?thesis using a(2) stock_step_inv[OF a(1)] by (simp add: store_inv_def ids_ok_def)
qed

text \<open>A transfer takes at one branch what it brings to the other.\<close>

lemma transferTx_state:
  assumes "transferTx e u br d src s = Inr (row, t)" "td_quantity d = milli q" "0 < q" "in_range q" "td_toBranchId d \<noteq> br"
    "store_inv e s" "in_range (stock_of (st_stock s) (ig_id src) - q)" "\<And>g. in_range (stock_of (st_stock s) g + q)"
  shows "\<exists>g x. findIngredient (td_toBranchId d) g (st_stock t) = Inr x \<and> g \<noteq> ig_id src \<and>
      (\<forall>j. stock_of (st_stock t) j = stock_of (st_stock s) j - (if j = ig_id src then q else 0) + (if j = g then q else 0) \<and>
         moved (st_stock t) j = moved (st_stock s) j - (if j = ig_id src then q else 0) + (if j = g then q else 0))"
    "store_inv e t" "st_transfers t = st_transfers s @ [row]" "tf_quantity row = q"
proof -
  let ?to = "td_toBranchId d" and ?opts = "\<lparr>mo_type = ADJUSTMENT, mo_userId = u, mo_allowNegative = False, mo_orderId = None\<rparr>"
  have q: "0 \<le> q" using assms(3) by simp
  have inv: "stock_inv (st_stock s)" using assms(6) by (simp add: store_inv_def)
  obtain ps k where c: "consumeStock br (ig_id src) (milli q) ?opts (st_stock s) = Inr (ps, k)"
    using assms(1,2) by (auto simp: transferTx_def ebind_Inr_iff)
  obtain g s1 where dest: "destination e ?to src (s\<lparr>st_stock := k\<rparr>) = (g, s1)" by fastforce
  define uc where "uc = round4 (fdiv (costOf ps) (milli q))"
  define avg where "avg = round4 (fdiv (fadd (fmul (max 0 (milli (ig_currentStock g))) (dec 10000 (ig_costPerUnit g))) (fmul (milli q) uc))
      (round3 (fadd (max 0 (milli (ig_currentStock g))) (milli q))))"
  have step: "stock_step (st_stock s) k" by (rule stock_step.consume[OF inv q assms(4,7) _ c]) simp
  have i0: "store_inv e (s\<lparr>st_stock := k\<rparr>)" by (rule consume_store_inv[OF step assms(6)])
  note de = destination_state[OF dest i0]
  have i1: "stock_inv (st_stock s1)" "ids_ok e s1" using de(1) by (simp_all add: store_inv_def)
  have ok1: "stock_ok (st_stock s1)" and ok: "stock_ok (st_stock s)" using i1(1) inv by (simp_all add: stock_inv_def)
  obtain x where x: "findIngredient br (ig_id src) (st_stock s) = Inr x" and k: "k = consumed_state br (ig_id src) q ?opts (st_stock s)"
    by (rule consumeStock_Inr[OF ok q assms(4,7) c])
  have k_books: "stock_of k j = stock_of (st_stock s) j - (if j = ig_id src then q else 0)"
      "moved k j = moved (st_stock s) j - (if j = ig_id src then q else 0)" for j
    using consumed_state_books(1)[OF ok x, of q ?opts j] consumed_moved[OF ok x q, of ?opts j] by (simp_all add: k)
  have ne: "ig_id g \<noteq> ig_id src"
  proof
    assume same: "ig_id g = ig_id src"
    let ?x = "x\<lparr>ig_currentStock := stock_of (st_stock s) (ig_id src) - q\<rparr>"
    have xm: "x \<in> set (ss_ingredients (st_stock s))" "ig_id x = ig_id src" "ig_branchId x = br" using findIngredient_mem[OF x] by simp_all
    have "?x \<in> set (ss_ingredients k)" using xm(1,2) unfolding k consumed_state_def Let_def by (auto simp: upd_where_def image_iff)
    then have "?x \<in> set (ss_ingredients (st_stock s1))" using destination_rows[OF dest] by auto
    moreover have "g \<in> set (ss_ingredients (st_stock s1))" "ig_branchId g = ?to" using findIngredient_mem[OF de(2)] by simp_all
    moreover have "keyed ig_id (ss_ingredients (st_stock s1))" using ok1 by (simp add: stock_ok_def)
    ultimately have "?x = g" using keyed_unique[of ig_id _ ?x g] same xm(2) by simp
    then have "ig_branchId ?x = ig_branchId g" by (rule arg_cong)
    then have "br = ?to" using xm(3) \<open>ig_branchId g = ?to\<close> by simp
    then show False using assms(5) by simp
  qed
  define n where "n = stock_of (st_stock s) (ig_id g) + q"
  have "in_range n" unfolding n_def by (rule assms(8))
  then have gq: "ig_currentStock g = stock_of (st_stock s) (ig_id g)" "in_range (ig_currentStock g)" "in_range n"
    using findIngredient_stock[OF ok1 de(2)] de(3)[of "ig_id g"] k_books(1)[of "ig_id g"] ne by simp_all
  then have new: "round3 (fadd (milli (ig_currentStock g)) (milli q)) = milli n" using assms(4) by (simp add: round3_fadd_milli n_def)
  let ?b = "se_ids e (st_next s1)"
  have b: "?b \<notin> sb_id ` set (ss_batches (st_stock s1))" using i1(2) by (simp add: ids_ok_def)
  have t: "st_stock t = arrived ?b (se_now e) ?to (ig_id g) q uc u n avg (st_stock s1)" "st_next t = st_next s1 + 2"
    "st_transfers t = st_transfers s1 @ [row]" "tf_quantity row = to_column 1000 (milli q)"
    using assms(1) by (auto simp: transferTx_def assms(2) c dest storeId_def Let_def arrived_def new uc_def avg_def split: if_splits)
  note a = arrived_books[OF i1(1) de(2) q assms(4) gq(3) b, of "se_now e" uc u avg]
  show "st_transfers t = st_transfers s @ [row]" using t(3) de(6) by simp
  show "tf_quantity row = q" using t(4) assms(4) by simp
  obtain y where y: "findIngredient ?to (ig_id g) (st_stock t) = Inr y" using find_arrived[OF de(2) gq(3)] unfolding t(1) by blast
  have "ids_ok e t"
  proof (rule ids_okI[OF i1(2)])
    have "set (map sb_id (ss_batches (st_stock t))) = insert ?b (set (map sb_id (ss_batches (st_stock s1))))" unfolding t(1) arrived_rows(3) by simp
    then show "sb_id ` set (ss_batches (st_stock t)) \<subseteq> sb_id ` set (ss_batches (st_stock s1)) \<union> se_ids e ` {st_next s1..<st_next t}"
      by (auto simp: t(2))
    have "set (map ig_id (ss_ingredients (st_stock t))) = set (map ig_id (ss_ingredients (st_stock s1)))" unfolding t(1) arrived_rows(1) by simp
    then show "ig_id ` set (ss_ingredients (st_stock t)) \<subseteq> ig_id ` set (ss_ingredients (st_stock s1)) \<union> se_ids e ` {st_next s1..<st_next t}" by auto
  qed (simp add: t(2))
  then show "store_inv e t" using a(3) by (simp add: store_inv_def t(1))
  have "stock_of (st_stock t) j = stock_of (st_stock s) j - (if j = ig_id src then q else 0) + (if j = ig_id g then q else 0)" for j
    using a(1)[of j] de(3)[of j] k_books(1)[of j] ne by (simp add: t(1) n_def)
  moreover have "moved (st_stock t) j = moved (st_stock s) j - (if j = ig_id src then q else 0) + (if j = ig_id g then q else 0)" for j
    using a(2)[of j] de(4)[of j] k_books(2)[of j] by (simp add: t(1))
  ultimately show "\<exists>g x. findIngredient ?to g (st_stock t) = Inr x \<and> g \<noteq> ig_id src \<and>
      (\<forall>j. stock_of (st_stock t) j = stock_of (st_stock s) j - (if j = ig_id src then q else 0) + (if j = g then q else 0) \<and>
         moved (st_stock t) j = moved (st_stock s) j - (if j = ig_id src then q else 0) + (if j = g then q else 0))"
    using ne y by blast
qed

lemma transfer_state:
  assumes "transfer e r u br d s = Inr (row, t)" "td_quantity d = milli q" "0 < q" "in_range q" "store_inv e s"
    "in_range (stock_of (st_stock s) (td_ingredientId d) - q)" "\<And>g. in_range (stock_of (st_stock s) g + q)"
  shows "\<exists>g x. findIngredient (td_toBranchId d) g (st_stock t) = Inr x \<and> g \<noteq> td_ingredientId d \<and>
      (\<forall>j. stock_of (st_stock t) j = stock_of (st_stock s) j - (if j = td_ingredientId d then q else 0) + (if j = g then q else 0) \<and>
         moved (st_stock t) j = moved (st_stock s) j - (if j = td_ingredientId d then q else 0) + (if j = g then q else 0))"
    "store_inv e t" "st_transfers t = st_transfers s @ [row]" "tf_quantity row = q"
proof -
  obtain src where src: "transferRead e r br d s = Inr src" and tx: "transferTx e u br d src s = Inr (row, t)"
    using assms(1) by (auto simp: transfer_def ebind_Inr_iff)
  have i: "ig_id src = td_ingredientId d" "td_toBranchId d \<noteq> br"
    using src by (auto simp: transferRead_def dest: find_SomeD split: if_splits option.splits)
  note st = transferTx_state[OF tx assms(2-4) i(2) assms(5), unfolded i(1), OF assms(6,7)]
  show "\<exists>g x. findIngredient (td_toBranchId d) g (st_stock t) = Inr x \<and> g \<noteq> td_ingredientId d \<and>
      (\<forall>j. stock_of (st_stock t) j = stock_of (st_stock s) j - (if j = td_ingredientId d then q else 0) + (if j = g then q else 0) \<and>
         moved (st_stock t) j = moved (st_stock s) j - (if j = td_ingredientId d then q else 0) + (if j = g then q else 0))"
    "store_inv e t" "st_transfers t = st_transfers s @ [row]" "tf_quantity row = q" by (rule st)+
qed

section \<open>The store\<close>

text \<open>One use of the store room: an operation on the stock, a receipt, a transfer, or a piece of paperwork.\<close>

inductive store_step :: "store_env \<Rightarrow> store \<Rightarrow> store \<Rightarrow> bool" for e where
  stocked: "stock_step (st_stock s) k \<Longrightarrow> store_inv e s \<Longrightarrow> store_step e s (s\<lparr>st_stock := k\<rparr>)"
| received: "createGoodsReceipt e br u d s = Inr (row, t) \<Longrightarrow> receivable d s \<Longrightarrow> store_inv e s \<Longrightarrow> store_step e s t"
| transferred: "transfer e r u br d s = Inr (row, t) \<Longrightarrow> td_quantity d = milli q \<Longrightarrow> 0 < q \<Longrightarrow> in_range q \<Longrightarrow> store_inv e s \<Longrightarrow>
    in_range (stock_of (st_stock s) (td_ingredientId d) - q) \<Longrightarrow> (\<forall>g. in_range (stock_of (st_stock s) g + q)) \<Longrightarrow> store_step e s t"
| ordered: "createPurchaseOrder e br u sid ls s = Inr (o', t) \<Longrightarrow> store_inv e s \<Longrightarrow> store_step e s t"
| order_moved: "updateOrderStatus br i st s = Inr t \<Longrightarrow> store_inv e s \<Longrightarrow> store_step e s t"
| requested: "createPurchaseRequest e br u qs s = Inr (rq, t) \<Longrightarrow> store_inv e s \<Longrightarrow> store_step e s t"
| request_moved: "updateRequestStatus br i u rs s = Inr t \<Longrightarrow> store_inv e s \<Longrightarrow> store_step e s t"
| quoted: "createQuotation e br sid ps s = Inr (qt, t) \<Longrightarrow> store_inv e s \<Longrightarrow> store_step e s t"
| quotation_moved: "updateQuotationStatus br i qs' s = Inr t \<Longrightarrow> store_inv e s \<Longrightarrow> store_step e s t"
| invoiced: "createInvoice e br iv s = Inr (v, t) \<Longrightarrow> store_inv e s \<Longrightarrow> store_step e s t"
| paid: "recordPayment e br i a m s = Inr (p, t) \<Longrightarrow> store_inv e s \<Longrightarrow> store_step e s t"
| cancelled: "cancelInvoice br i s = Inr t \<Longrightarrow> store_inv e s \<Longrightarrow> store_step e s t"

inductive_cases store_stepE: "store_step e s t"

text \<open>Paperwork leaves the stock alone.\<close>

definition paper :: "store \<Rightarrow> store \<Rightarrow> bool" where
  "paper s t \<longleftrightarrow> st_stock t = st_stock s \<and> st_next s \<le> st_next t"

lemma paper_inv: "paper s t \<Longrightarrow> store_inv e s \<Longrightarrow> store_inv e t"
  by (auto simp: paper_def store_inv_def ids_ok_def)

lemma paper_lineItems: "paper s (foldl (\<lambda>t l. lineItem e i l t) s ls)"
proof (induction ls arbitrary: s)
  case (Cons l ls)
  have "paper s (lineItem e i l s)" by (simp add: paper_def lineItem_def storeId_def)
  then show ?case using Cons.IH[of "lineItem e i l s"] by (simp add: paper_def)
qed (simp add: paper_def)

lemma paperwork:
  "createPurchaseOrder e br u sid ls s = Inr (o', t) \<Longrightarrow> paper s t"
  "updateOrderStatus br i st s = Inr t \<Longrightarrow> paper s t"
  "createPurchaseRequest e br u qs s = Inr (rq, t) \<Longrightarrow> paper s t"
  "updateRequestStatus br i u rs s = Inr t \<Longrightarrow> paper s t"
  "createQuotation e br sid ps s = Inr (qt, t) \<Longrightarrow> paper s t"
  "updateQuotationStatus br i qs' s = Inr t \<Longrightarrow> paper s t"
  "createInvoice e br iv s = Inr (v, t) \<Longrightarrow> paper s t"
  "recordPayment e br i a m s = Inr (p, t) \<Longrightarrow> paper s t"
  "cancelInvoice br i s = Inr t \<Longrightarrow> paper s t"
proof -
  show "createPurchaseOrder e br u sid ls s = Inr (o', t) \<Longrightarrow> paper s t"
    using paper_lineItems[of "s\<lparr>st_next := st_next s + 1, st_orders := st_orders s @ [o']\<rparr>" e "ro_id o'" ls]
    by (auto simp: createPurchaseOrder_def ebind_Inr_iff Let_def storeId_def paper_def split: if_splits)
qed (auto simp: updateOrderStatus_def setOrderStatus_def createPurchaseRequest_def updateRequestStatus_def createQuotation_def
  updateQuotationStatus_def createInvoice_def recordPayment_def paymentWrite_def cancelInvoice_def ebind_Inr_iff Let_def storeId_def
  paper_def split: if_splits option.splits)

lemma store_step_effect:
  "store_step e s t \<Longrightarrow> store_inv e t \<and>
     stock_of (st_stock t) k - stock_of (st_stock s) k = moved (st_stock t) k - moved (st_stock s) k"
proof (induction rule: store_step.induct)
  case (stocked s k)
  then show ?case using consume_store_inv stock_step_books by simp
next
  case (received br u d s row t)
  then show ?case using receipt_state(1-3)[OF received] by simp
next
  case (transferred r u br d s row t q)
  have "in_range (stock_of (st_stock s) g + q)" for g using transferred by blast
  note st = transfer_state[OF transferred(1-6) this]
  then show ?case by fastforce
qed (auto dest!: paperwork dest: paper_inv simp: paper_def)

interpretation store_ledger: ledger "\<lambda>s. stock_of (st_stock s)" "\<lambda>s. moved (st_stock s)" "store_step e" for e
  by unfold_locales (use store_step_effect in blast)

section \<open>Properties\<close>


definition sample_env :: store_env where
  "sample_env = \<lparr>se_ids = (\<lambda>n. CHR ''#'' # nat_str n), se_now = 30, se_suppliers = [(''sup'', ''b'')],
     se_branches = [(''b'', ''r'', True), (''b2'', ''r'', True)]\<rparr>"

definition sample_store :: store where
  "sample_store = \<lparr>st_stock = sample_stock,
     st_orders = [\<lparr>ro_id = ''po'', ro_branchId = ''b'', ro_supplierId = ''sup'', ro_poNumber = ''PO-0001'', ro_status = PO_SENT,
                   ro_totalAmount = 300, ro_createdById = ''u''\<rparr>],
     st_orderItems = [\<lparr>poi_id = ''line'', poi_purchaseOrderId = ''po'', poi_ingredientId = ''milk'', poi_quantityOrdered = 5000,
                       poi_unitCost = 600, poi_quantityReceived = 0\<rparr>],
     st_receipts = [], st_receiptItems = [],
     st_invoices = [\<lparr>sv_id = ''inv'', sv_branchId = ''b'', sv_supplierId = ''sup'', sv_purchaseOrderId = None, sv_goodsReceiptId = None,
                     sv_invoiceNumber = ''F1'', sv_totalAmount = 1000, sv_amountPaid = 0, sv_status = SI_UNPAID\<rparr>],
     st_supplierPayments = [], st_requests = [],
     st_quotations = [\<lparr>qt_id = ''q1'', qt_branchId = ''b'', qt_supplierId = ''sup'', qt_quotationNumber = ''QT-0001'',
                       qt_status = QT_RECEIVED, qt_items = [(''milk'', 1000, 650)]\<rparr>,
                      \<lparr>qt_id = ''q2'', qt_branchId = ''b'', qt_supplierId = ''sup'', qt_quotationNumber = ''QT-0002'',
                       qt_status = QT_ACCEPTED, qt_items = [(''milk'', 1000, 600)]\<rparr>],
     st_transfers = [], st_next = 0\<rparr>"

definition sample_receipt :: receipt_dto where
  "sample_receipt = \<lparr>rd_supplierId = ''sup'', rd_purchaseOrderId = Some ''po'', rd_items =
     [\<lparr>rl_ingredientId = ''milk'', rl_purchaseOrderItemId = Some ''line'', rl_quantity = milli 2000, rl_unitCost = milli 70\<rparr>,
      \<lparr>rl_ingredientId = ''milk'', rl_purchaseOrderItemId = Some ''line'', rl_quantity = milli 1000, rl_unitCost = milli 65\<rparr>]\<rparr>"

lemma sample_receipt_ok: "\<exists>r t. createGoodsReceipt sample_env ''b'' ''u'' sample_receipt sample_store = Inr (r, t)"
  by (simp add: createGoodsReceipt_def goodsReceiptRead_def goodsReceiptTx_def supplierIn_def receiptOrder_def findPurchaseOrder_def
    ingredientsIn_def sample_env_def sample_store_def sample_receipt_def sample_stock_def itemsOfOrder_def lineMatches_def
    snapshotOf_def storeId_def count_where_def receiveLine_def receivedByPoItem_def receiveItem_def Let_def)

lemma sample_store_inv: "store_inv sample_env sample_store"
proof -
  have "inj (\<lambda>n. CHR ''#'' # nat_str n)" by (simp add: inj_def nat_str_inj)
  then show ?thesis using sample_stock_inv
    by (auto simp: store_inv_def ids_ok_def sample_env_def sample_store_def sample_stock_def)
qed

lemma sample_store_stock: "stock_of sample_stock j = (if j = ''milk'' then 1500 else 0)" "moved sample_stock j = 0"
  by (simp_all add: stock_of_def moved_def sample_stock_def)

lemma sample_receivedQty:
  "receivedQty g (rd_items sample_receipt) = (if g = ''milk'' then 3000 else 0)"
  "orderedQty g (rd_items sample_receipt) = (if g = ''line'' then 3000 else 0)"
  by (simp_all add: receivedQty_def orderedQty_def sample_receipt_def qty_def in_range_def)

lemma sample_receivable: "receivable sample_receipt sample_store"
proof -
  have q: "map qty (rd_items sample_receipt) = [2000, 1000]" "list_all received_ok (rd_items sample_receipt)"
    by (simp_all add: sample_receipt_def qty_def received_ok_def in_range_def)
  show ?thesis unfolding receivable_def q(1) using q(2)
    by (simp add: sample_store_def sample_store_stock sample_receivedQty in_range_def keyed_def) (simp add: sample_receipt_def)
qed




section \<open>Where the code falls short\<close>

text \<open>The new balance comes from the row as it was read before the transaction, from zero up: a balance below zero
  is forgotten, and so is whatever moved since the row was read, while the journal gets the quantity alone.\<close>

lemma receipt_overwrites:
  assumes "receiveLine e br u grn l (snap, s) = Inr (snap', t)" "map_of snap (rl_ingredientId l) = Some (milli n, cost)"
    "received_ok l" "store_inv e s" "findIngredient br (rl_ingredientId l) (st_stock s) = Inr x"
    "in_range n" "in_range (max 0 n + qty l)"
  shows "stock_of (st_stock t) (rl_ingredientId l) = max 0 n + qty l"
    "moved (st_stock t) (rl_ingredientId l) = moved (st_stock s) (rl_ingredientId l) + qty l"
proof -
  let ?b = "se_ids e (st_next s + 1)"
  have q: "rl_quantity l = milli (qty l)" "0 < qty l" "in_range (qty l)" using assms(3) by (simp_all add: received_ok_def)
  have m: "max 0 (milli n) = milli (max 0 n)" using assms(6) dec_less_0_iff[of n 1000] by (auto simp: max_def simp del: dec_less_0_iff)
  have "in_range (max 0 n)" using assms(6) by (auto simp: max_def in_range_def)
  then have new: "round3 (fadd (max 0 (milli n)) (rl_quantity l)) = milli (max 0 n + qty l)"
    unfolding m q(1) using q(3) assms(7) by (simp add: round3_fadd_milli)
  obtain newCost where t: "st_stock t = arrived ?b (se_now e) br (rl_ingredientId l) (qty l) (rl_unitCost l) u
      (max 0 n + qty l) newCost (st_stock s)"
    using assms(1,2) new q(1) by (auto simp: receiveLine_def storeId_def Let_def arrived_def split: if_splits)
  have "?b \<notin> sb_id ` set (ss_batches (st_stock s))" using assms(4) by (simp add: store_inv_def ids_ok_def)
  note a = arrived_books[OF _ assms(5) _ q(3) assms(7) this]
  show "stock_of (st_stock t) (rl_ingredientId l) = max 0 n + qty l"
    "moved (st_stock t) (rl_ingredientId l) = moved (st_stock s) (rl_ingredientId l) + qty l"
    using a(1,2) assms(4) q(2) by (simp_all add: t store_inv_def)
qed

text \<open>Two payments of an invoice that both read it first are both written down, and only one is counted.\<close>

lemma concurrent_payments_lost:
  "\<exists>w. paymentRead ''b'' ''inv'' (cents 500) sample_store = Inr w \<and>
     (let t = snd (paymentWrite sample_env ''inv'' (cents 500) CASH w (snd (paymentWrite sample_env ''inv'' (cents 500) CASH w sample_store)))
      in paidFor ''inv'' t = 1000 \<and> map sv_amountPaid (st_invoices t) = [500] \<and> map sv_status (st_invoices t) = [SI_PARTIALLY_PAID])"
proof -
  have "paymentRead ''b'' ''inv'' (cents 500) sample_store = Inr (cents 500, SI_PARTIALLY_PAID)"
    using round2_fsub_cents[of 1000 0] round2_fadd_cents[of 0 500]
    by (simp add: paymentRead_def findInvoice_def sample_store_def Let_def in_range_def)
  then show ?thesis
    by (simp add: paymentWrite_def storeId_def paidFor_def upd_where_def sample_store_def Let_def in_range_def)
qed

text \<open>A line that names a line of a purchase order, on a receipt that names no order, is a server error.\<close>

lemma line_without_order_fails:
  "createGoodsReceipt sample_env ''b'' ''u'' (sample_receipt\<lparr>rd_purchaseOrderId := None\<rparr>) sample_store = Inl (PlainError ''TypeError'')"
  by (simp add: createGoodsReceipt_def goodsReceiptRead_def goodsReceiptTx_def supplierIn_def receiptOrder_def
    ingredientsIn_def sample_env_def sample_store_def sample_receipt_def sample_stock_def
    snapshotOf_def storeId_def count_where_def receiveLine_def receivedByPoItem_def receiveItem_def Let_def)

text \<open>The comparison of offers names a supplier once for each of its offers.\<close>

lemma comparison_repeats_supplier:
  "compareForIngredient ''b'' ''milk'' sample_store = [(''sup'', ''QT-0002'', 600, 1000), (''sup'', ''QT-0001'', 650, 1000)]"
  by (simp add: compareForIngredient_def sample_store_def)

end
