(* ===== verification/Verifactu_Domain.thy ===== *)
theory Verifactu_Domain
  imports Pricing "HOL-Library.Multiset"
begin

text \<open>
  The Spanish fiscal record: \<open>modules/verifactu/verifactu.domain.ts\<close>. The text that is fingerprinted, the
  XML of a record, the verification URL, the split of a sale into one line per tax rate, and the checks a
  record must pass. The digest (\<open>node:crypto\<close>) is an argument, \<open>sha\<close>, from a text to its 64 hexadecimal
  digits; the wall clock of Madrid is an argument where it is used. Strings are sequences of bytes.
\<close>

section \<open>Data\<close>

datatype verifactu_env = TEST | PRODUCTION

datatype invoice_type = F2 | R5

definition invoice_type_str :: "invoice_type \<Rightarrow> string" where
  "invoice_type_str t = (case t of F2 \<Rightarrow> ''F2'' | R5 \<Rightarrow> ''R5'')"

record invoice_id =
  ii_issuerNif :: string
  ii_number :: string
  ii_issueDate :: string

record chain_ref = invoice_id +
  cr_hash :: string

record breakdown_line =
  bl_rate :: num
  bl_baseCents :: int
  bl_quotaCents :: int

record system_info =
  si_producerName :: string
  si_producerCountry :: string
  si_producerIdType :: string
  si_producerId :: string
  si_systemName :: string
  si_systemId :: string
  si_version :: string
  si_installationNumber :: string

record alta_record =
  al_id :: invoice_id
  al_issuerName :: string
  al_invoiceType :: invoice_type
  al_description :: string
  al_breakdown :: "breakdown_line list"
  al_taxTotalCents :: int
  al_totalCents :: int
  al_previous :: "chain_ref option"
  al_system :: system_info
  al_generatedAt :: string
  al_rectified :: "invoice_id list option"

record cancel_record =
  ca_id :: invoice_id
  ca_previous :: "chain_ref option"
  ca_system :: system_info
  ca_generatedAt :: string

text \<open>The tax rates, in percent, that may appear on an invoice.\<close>

definition IVA_RATES :: "num list" where
  "IVA_RATES = [0, 2, 4, 5, 15 / 2, 10, 21]"

section \<open>Text and fingerprint\<close>

definition amount :: "int \<Rightarrow> string" where
  "amount c =
     (let a = nat \<bar>c\<bar>;
          s = nat_str (a div 100) @ ''.'' @ pad_start 2 (CHR ''0'') (nat_str (a mod 100))
      in if c < 0 \<and> a \<noteq> 0 then ''-'' @ s else s)"

definition altaString :: "invoice_id \<Rightarrow> string \<Rightarrow> int \<Rightarrow> int \<Rightarrow> string \<Rightarrow> string \<Rightarrow> string" where
  "altaString i invoiceType taxTotalCents totalCents previousHash generatedAt =
     ''IDEmisorFactura='' @ trim (ii_issuerNif i) @
     ''&NumSerieFactura='' @ trim (ii_number i) @
     ''&FechaExpedicionFactura='' @ ii_issueDate i @
     ''&TipoFactura='' @ trim invoiceType @
     ''&CuotaTotal='' @ amount taxTotalCents @
     ''&ImporteTotal='' @ amount totalCents @
     ''&Huella='' @ trim previousHash @
     ''&FechaHoraHusoGenRegistro='' @ generatedAt"

definition cancelString :: "invoice_id \<Rightarrow> string \<Rightarrow> string \<Rightarrow> string" where
  "cancelString i previousHash generatedAt =
     ''IDEmisorFacturaAnulada='' @ trim (ii_issuerNif i) @
     ''&NumSerieFacturaAnulada='' @ trim (ii_number i) @
     ''&FechaExpedicionFacturaAnulada='' @ ii_issueDate i @
     ''&Huella='' @ trim previousHash @
     ''&FechaHoraHusoGenRegistro='' @ generatedAt"

definition fingerprint :: "(string \<Rightarrow> string) \<Rightarrow> string \<Rightarrow> string" where
  "fingerprint sha t = to_upper (sha t)"

definition altaHash :: "(string \<Rightarrow> string) \<Rightarrow> alta_record \<Rightarrow> string" where
  "altaHash sha r = fingerprint sha (altaString (al_id r) (invoice_type_str (al_invoiceType r))
     (al_taxTotalCents r) (al_totalCents r)
     (case al_previous r of None \<Rightarrow> '''' | Some p \<Rightarrow> cr_hash p) (al_generatedAt r))"

definition cancelHash :: "(string \<Rightarrow> string) \<Rightarrow> cancel_record \<Rightarrow> string" where
  "cancelHash sha r = fingerprint sha (cancelString (ca_id r)
     (case ca_previous r of None \<Rightarrow> '''' | Some p \<Rightarrow> cr_hash p) (ca_generatedAt r))"

definition validateInvoiceNumber :: "string \<Rightarrow> unit res" where
  "validateInvoiceNumber n =
     (let t = trim n in
      if t = '''' \<or> 60 < length t then Inl (PlainError ''verifactu: invoice number must be 1 to 60 characters'')
      else if list_ex (\<lambda>ch. (of_char ch :: nat) < 32 \<or> 126 < (of_char ch :: nat)) t
      then Inl (PlainError ''verifactu: invoice number has a character outside ASCII 32-126'')
      else Inr ())"

section \<open>Verification URL\<close>

definition QR_BASE :: "verifactu_env \<Rightarrow> string" where
  "QR_BASE e = (case e of
      TEST \<Rightarrow> ''https://prewww2.aeat.es/wlpl/TIKE-CONT/ValidarQR''
    | PRODUCTION \<Rightarrow> ''https://www2.agenciatributaria.gob.es/wlpl/TIKE-CONT/ValidarQR'')"

definition hex_digit :: "nat \<Rightarrow> char" where
  "hex_digit d = (if d < 10 then digit d else char_of (55 + d))"

definition percent :: "char \<Rightarrow> string" where
  "percent c = ''%'' @ [hex_digit (of_char c div 16), hex_digit (of_char c mod 16)]"

definition is_alnum :: "char \<Rightarrow> bool" where
  "is_alnum c \<longleftrightarrow> is_digit c \<or> (65 \<le> (of_char c :: nat) \<and> (of_char c :: nat) \<le> 90) \<or>
     (97 \<le> (of_char c :: nat) \<and> (of_char c :: nat) \<le> 122)"

text \<open>\<open>encodeURIComponent\<close> followed by the escaping of the five marks it leaves alone.\<close>

definition encodeURIComponent :: "string \<Rightarrow> string" where
  "encodeURIComponent s = concat (map (\<lambda>c. if is_alnum c \<or> c \<in> set ''-_.!~*()'' \<or> c = CHR 0x27
     then [c] else percent c) s)"

definition enc :: "string \<Rightarrow> string" where
  "enc s = concat (map (\<lambda>c. if c \<in> set ''!()*'' \<or> c = CHR 0x27 then percent c else [c]) (encodeURIComponent s))"

definition qrUrl :: "verifactu_env \<Rightarrow> invoice_id \<Rightarrow> int \<Rightarrow> string res" where
  "qrUrl e i totalCents =
     ebind (validateInvoiceNumber (ii_number i)) (\<lambda>_.
       let nif = trim (ii_issuerNif i) in
       if length nif \<noteq> 9 then Inl (PlainError ''verifactu: issuer NIF must be 9 characters'')
       else Inr (QR_BASE e @ ''?nif='' @ enc nif @ ''&numserie='' @ enc (trim (ii_number i)) @
                 ''&fecha='' @ ii_issueDate i @ ''&importe='' @ amount totalCents))"

section \<open>XML\<close>

definition replaceAll :: "char \<Rightarrow> string \<Rightarrow> string \<Rightarrow> string" where
  "replaceAll c r s = concat (map (\<lambda>x. if x = c then r else [x]) s)"

definition esc :: "string \<Rightarrow> string" where
  "esc s = replaceAll (CHR 0x27) ''&apos;'' (replaceAll (CHR 0x22) ''&quot;'' (replaceAll (CHR ''>'') ''&gt;''
     (replaceAll (CHR ''<'') ''&lt;'' (replaceAll (CHR ''&'') ''&amp;'' (trim s)))))"

definition el :: "string \<Rightarrow> string \<Rightarrow> string" where
  "el name v = ''<sf:'' @ name @ ''>'' @ esc v @ ''</sf:'' @ name @ ''>''"

text \<open>\<open>toFixed(2)\<close> of a rate, which is not negative.\<close>

definition rate2 :: "num \<Rightarrow> string" where
  "rate2 r = amount \<lfloor>r * 100 + 1 / 2\<rfloor>"

definition chainXml :: "chain_ref option \<Rightarrow> string" where
  "chainXml prev = (case prev of
      None \<Rightarrow> ''<sf:Encadenamiento>'' @ el ''PrimerRegistro'' ''S'' @ ''</sf:Encadenamiento>''
    | Some p \<Rightarrow> ''<sf:Encadenamiento><sf:RegistroAnterior>'' @
        el ''IDEmisorFactura'' (ii_issuerNif p) @
        el ''NumSerieFactura'' (ii_number p) @
        el ''FechaExpedicionFactura'' (ii_issueDate p) @
        el ''Huella'' (cr_hash p) @
        ''</sf:RegistroAnterior></sf:Encadenamiento>'')"

definition systemXml :: "system_info \<Rightarrow> string" where
  "systemXml s =
     (let producerId =
            (if to_upper (si_producerCountry s) = ''ES'' then el ''NIF'' (si_producerId s)
             else ''<sf:IDOtro>'' @ el ''CodigoPais'' (to_upper (si_producerCountry s)) @
                  el ''IDType'' (si_producerIdType s) @ el ''ID'' (si_producerId s) @ ''</sf:IDOtro>'')
      in ''<sf:SistemaInformatico>'' @ el ''NombreRazon'' (si_producerName s) @ producerId @
         el ''NombreSistemaInformatico'' (si_systemName s) @ el ''IdSistemaInformatico'' (si_systemId s) @
         el ''Version'' (si_version s) @ el ''NumeroInstalacion'' (si_installationNumber s) @
         el ''TipoUsoPosibleSoloVerifactu'' ''S'' @ el ''TipoUsoPosibleMultiOT'' ''N'' @
         el ''IndicadorMultiplesOT'' ''N'' @ ''</sf:SistemaInformatico>'')"

definition altaXml :: "(string \<Rightarrow> string) \<Rightarrow> alta_record \<Rightarrow> string" where
  "altaXml sha r =
     ''<sf:RegistroAlta>'' @ el ''IDVersion'' ''1.0'' @
     ''<sf:IDFactura>'' @ el ''IDEmisorFactura'' (ii_issuerNif (al_id r)) @
     el ''NumSerieFactura'' (ii_number (al_id r)) @
     el ''FechaExpedicionFactura'' (ii_issueDate (al_id r)) @ ''</sf:IDFactura>'' @
     el ''NombreRazonEmisor'' (al_issuerName r) @ el ''TipoFactura'' (invoice_type_str (al_invoiceType r)) @
     (if al_invoiceType r = R5 then
        el ''TipoRectificativa'' ''I'' @
        (case al_rectified r of
           None \<Rightarrow> ''''
         | Some os \<Rightarrow>
             if os = [] then ''''
             else ''<sf:FacturasRectificadas>'' @
               concat (map (\<lambda>i. ''<sf:IDFacturaRectificada>'' @ el ''IDEmisorFactura'' (ii_issuerNif i) @
                   el ''NumSerieFactura'' (ii_number i) @ el ''FechaExpedicionFactura'' (ii_issueDate i) @
                   ''</sf:IDFacturaRectificada>'') os) @
               ''</sf:FacturasRectificadas>'')
      else '''') @
     el ''DescripcionOperacion'' (al_description r) @
     ''<sf:Desglose>'' @
     concat (map (\<lambda>b. ''<sf:DetalleDesglose>'' @ el ''Impuesto'' ''01'' @ el ''ClaveRegimen'' ''01'' @
         el ''CalificacionOperacion'' ''S1'' @ el ''TipoImpositivo'' (rate2 (bl_rate b)) @
         el ''BaseImponibleOimporteNoSujeto'' (amount (bl_baseCents b)) @
         el ''CuotaRepercutida'' (amount (bl_quotaCents b)) @ ''</sf:DetalleDesglose>'') (al_breakdown r)) @
     ''</sf:Desglose>'' @
     el ''CuotaTotal'' (amount (al_taxTotalCents r)) @ el ''ImporteTotal'' (amount (al_totalCents r)) @
     chainXml (al_previous r) @ systemXml (al_system r) @
     el ''FechaHoraHusoGenRegistro'' (al_generatedAt r) @ el ''TipoHuella'' ''01'' @
     el ''Huella'' (altaHash sha r) @ ''</sf:RegistroAlta>''"

definition cancelXml :: "(string \<Rightarrow> string) \<Rightarrow> cancel_record \<Rightarrow> string" where
  "cancelXml sha r =
     ''<sf:RegistroAnulacion>'' @ el ''IDVersion'' ''1.0'' @
     ''<sf:IDFactura>'' @ el ''IDEmisorFacturaAnulada'' (ii_issuerNif (ca_id r)) @
     el ''NumSerieFacturaAnulada'' (ii_number (ca_id r)) @
     el ''FechaExpedicionFacturaAnulada'' (ii_issueDate (ca_id r)) @ ''</sf:IDFactura>'' @
     chainXml (ca_previous r) @ systemXml (ca_system r) @
     el ''FechaHoraHusoGenRegistro'' (ca_generatedAt r) @ el ''TipoHuella'' ''01'' @
     el ''Huella'' (cancelHash sha r) @ ''</sf:RegistroAnulacion>''"

definition NS_INFO :: string where
  "NS_INFO = ''https://www2.agenciatributaria.gob.es/static_files/common/internet/dep/aplicaciones/es/aeat/tike/cont/ws/SuministroInformacion.xsd''"

definition NS_LR :: string where
  "NS_LR = ''https://www2.agenciatributaria.gob.es/static_files/common/internet/dep/aplicaciones/es/aeat/tike/cont/ws/SuministroLR.xsd''"

definition quoted :: "string \<Rightarrow> string" where "quoted s = [CHR 0x22] @ s @ [CHR 0x22]"

definition envelope :: "string \<Rightarrow> string \<Rightarrow> string list \<Rightarrow> string" where
  "envelope issuerName issuerNif records =
     ''<sfLR:RegFactuSistemaFacturacion xmlns:sfLR='' @ quoted NS_LR @ '' xmlns:sf='' @ quoted NS_INFO @ ''>'' @
     ''<sfLR:Cabecera><sf:ObligadoEmision><sf:NombreRazon>'' @ esc issuerName @ ''</sf:NombreRazon><sf:NIF>'' @
     esc issuerNif @ ''</sf:NIF></sf:ObligadoEmision></sfLR:Cabecera>'' @
     concat (map (\<lambda>r. ''<sfLR:RegistroFactura>'' @ r @ ''</sfLR:RegistroFactura>'') records) @
     ''</sfLR:RegFactuSistemaFacturacion>''"

definition soap :: "string \<Rightarrow> string" where
  "soap body = ''<?xml version='' @ quoted ''1.0'' @ '' encoding='' @ quoted ''UTF-8'' @ ''?><soapenv:Envelope xmlns:soapenv='' @
     quoted ''http://schemas.xmlsoap.org/soap/envelope/'' @ ''><soapenv:Header/><soapenv:Body>'' @
     body @ ''</soapenv:Body></soapenv:Envelope>''"

section \<open>Splitting a sale over the tax rates\<close>

record gross_line =
  gl_grossCents :: int
  gl_ratePercent :: num

text \<open>\<open>groups\<close>, the map from rate to gross in insertion order.\<close>

fun addGroup :: "num \<Rightarrow> int \<Rightarrow> (num \<times> int) list \<Rightarrow> (num \<times> int) list" where
  "addGroup r g [] = [(r, g)]"
| "addGroup r g ((q, h) # gs) = (if q = r then (q, h + g) # gs else (q, h) # addGroup r g gs)"

definition groupLine :: "gross_line \<Rightarrow> (num \<times> int) list \<Rightarrow> (num \<times> int) list res" where
  "groupLine l gs =
     (if gl_ratePercent l \<notin> set IVA_RATES then Inl (PlainError ''verifactu: not a Spanish IVA rate'')
      else Inr (addGroup (gl_ratePercent l) (gl_grossCents l) gs))"

text \<open>A share is its rate, the whole cents given so far and the fraction of a cent left over.\<close>

definition shareOf :: "int \<Rightarrow> int \<Rightarrow> num \<times> int \<Rightarrow> num \<times> int \<times> num" where
  "shareOf target sumGross e =
     (let exact = fdiv (fmul (of_int target) (of_int (snd e))) (of_int sumGross)
      in (fst e, \<lfloor>exact\<rfloor>, fsub exact (of_int \<lfloor>exact\<rfloor>)))"

text \<open>The shares in the order of their fractions, largest first, as positions in the list.\<close>

definition byFrac :: "(num \<times> int \<times> num) list \<Rightarrow> nat list" where
  "byFrac shares = sort_key (\<lambda>i. - snd (snd (shares ! i))) [0..<length shares]"

fun giveLeft :: "nat list \<Rightarrow> int \<Rightarrow> (num \<times> int \<times> num) list \<Rightarrow> (num \<times> int \<times> num) list" where
  "giveLeft [] left shares = shares"
| "giveLeft (i # is) left shares =
     (if 0 < left
      then giveLeft is (left - 1) (shares[i := (fst (shares ! i), fst (snd (shares ! i)) + 1, snd (snd (shares ! i)))])
      else giveLeft is left shares)"

definition lineOfShare :: "int \<Rightarrow> num \<times> int \<times> num \<Rightarrow> breakdown_line" where
  "lineOfShare sign s =
     (let base = js_round (fdiv (of_int (fst (snd s))) (fadd 1 (fdiv (fst s) 100)))
      in \<lparr>bl_rate = fst s, bl_baseCents = sign * base, bl_quotaCents = sign * (fst (snd s) - base)\<rparr>)"

definition buildBreakdown :: "gross_line list \<Rightarrow> int \<Rightarrow> (breakdown_line list \<times> int \<times> int) res" where
  "buildBreakdown lines targetCents =
     (let sign = (if targetCents < 0 then - 1 else 1); target = \<bar>targetCents\<bar> in
      ebind (foldE groupLine lines []) (\<lambda>groups.
        let sumGross = sum_list (map snd groups) in
        if sumGross \<le> 0 then Inl (PlainError ''verifactu: the sale has no taxable lines'')
        else
          (let entries = sort_key (\<lambda>e. - fst e) groups;
               shares = map (shareOf target sumGross) entries;
               left = target - sum_list (map (\<lambda>s. fst (snd s)) shares);
               given = giveLeft (byFrac shares) left shares;
               breakdown = map (lineOfShare sign) given
           in Inr (breakdown, sum_list (map bl_quotaCents breakdown), sign * target))))"

definition validateAlta :: "alta_record \<Rightarrow> unit res" where
  "validateAlta r =
     ebind (validateInvoiceNumber (ii_number (al_id r))) (\<lambda>_.
       let base = sum_list (map bl_baseCents (al_breakdown r));
           quota = sum_list (map bl_quotaCents (al_breakdown r))
       in if length (trim (ii_issuerNif (al_id r))) \<noteq> 9
          then Inl (PlainError ''verifactu: the tax ID of the branch (NIF/CIF) must be 9 characters; set it in branch settings'')
          else if trim (al_issuerName r) = '''' \<or> 120 < length (al_issuerName r)
          then Inl (PlainError ''verifactu: the legal name is required and at most 120 characters'')
          else if trim (al_description r) = '''' \<or> 500 < length (al_description r)
          then Inl (PlainError ''verifactu: description is required'')
          else if length (al_breakdown r) = 0 \<or> 12 < length (al_breakdown r)
          then Inl (PlainError ''verifactu: 1 to 12 tax breakdown lines'')
          else if quota \<noteq> al_taxTotalCents r
          then Inl (PlainError ''verifactu: tax total does not match the breakdown'')
          else if base + quota \<noteq> al_totalCents r
          then Inl (PlainError ''verifactu: invoice total does not match base plus tax'')
          else Inr ())"

section \<open>The split is exact\<close>

lemma floor_share:
  assumes "0 \<le> t" "t < 2 ^ 53" "0 < s"
  shows "\<lfloor>fl (of_int t / of_int s)\<rfloor> = t div s"
proof -
  let ?x = "of_int t / of_int s :: rat"
  define n where "n = t div s"
  have S: "0 < rat_of_int s" using assms(3) by simp
  have m: "t = n * s + t mod s" "0 \<le> t mod s" "t mod s \<le> s - 1" using assms(3) by (simp_all add: n_def)
  have "n * s \<le> t" using m by linarith
  then have "rat_of_int (n * s) \<le> of_int t" by (simp only: of_int_le_iff)
  then have le: "of_int n \<le> ?x" using S by (simp add: pos_le_divide_eq)
  have lt: "?x \<le> of_int n + 1 - 1 / of_int s"
  proof -
    have "t \<le> n * s + s - 1" using m by linarith
    then have "rat_of_int t \<le> of_int (n * s + s - 1)" by (simp only: of_int_le_iff)
    then show ?thesis using S by (simp add: field_simps)
  qed
  have n0: "0 \<le> n" using assms by (simp add: n_def pos_imp_zdiv_nonneg_iff)
  have "n * 1 \<le> n * s" using n0 assms(3) by (intro mult_left_mono) simp_all
  then have "n \<le> t" using m by linarith
  then have "\<bar>n\<bar> \<le> 2 ^ 53" using n0 assms(2) by simp
  then have low: "of_int n \<le> fl ?x" using fl_mono[OF le] by simp
  have x0: "0 \<le> ?x" using assms by simp
  have "fl ?x \<le> ?x + ?x / 2 ^ 53" using fl_err[of ?x] abs_of_nonneg[OF x0] by linarith
  also have "?x / 2 ^ 53 < 1 / of_int s"
  proof -
    have "rat_of_int t < of_int (2 ^ 53)" using assms(2) by (simp only: of_int_less_iff)
    then show ?thesis using S by (simp add: field_simps)
  qed
  finally have "fl ?x < of_int n + 1" using lt by simp
  then show ?thesis using low by (simp add: floor_unique n_def)
qed

definition floors :: "(num \<times> int \<times> num) list \<Rightarrow> int" where
  "floors shares = sum_list (map (\<lambda>s. fst (snd s)) shares)"

definition gross_of :: "num \<Rightarrow> (num \<times> int) list \<Rightarrow> int" where
  "gross_of q gs = sum_list (map snd (filter (\<lambda>e. fst e = q) gs))"

lemma addGroup_facts:
  "sum_list (map snd (addGroup r g gs)) = sum_list (map snd gs) + g"
  "fst ` set (addGroup r g gs) = insert r (fst ` set gs)"
  "gross_of q (addGroup r g gs) = gross_of q gs + (if q = r then g else 0)"
  "(\<forall>e \<in> set gs. 0 \<le> snd e) \<Longrightarrow> 0 \<le> g \<Longrightarrow> \<forall>e \<in> set (addGroup r g gs). 0 \<le> snd e"
  by (induction r g gs rule: addGroup.induct) (auto simp: gross_of_def)

lemma addGroup_distinct: "distinct (map fst gs) \<Longrightarrow> distinct (map fst (addGroup r g gs))"
proof (induction r g gs rule: addGroup.induct)
  case (2 r g q h gs)
  have "q \<notin> fst ` set (addGroup r g gs)" if "q \<noteq> r" using 2(2) that by (auto simp: addGroup_facts(2))
  then show ?case using 2 by auto
qed simp

lemma groups_facts:
  assumes "foldE groupLine lines gs = Inr gs'" "distinct (map fst gs)" "\<forall>e \<in> set gs. 0 \<le> snd e"
    "\<forall>l \<in> set lines. 0 \<le> gl_grossCents l"
  shows "sum_list (map snd gs') = sum_list (map snd gs) + sum_list (map gl_grossCents lines)"
    "gross_of q gs' = gross_of q gs + sum_list (map gl_grossCents (filter (\<lambda>l. gl_ratePercent l = q) lines))"
    "distinct (map fst gs')" "\<forall>e \<in> set gs'. 0 \<le> snd e"
    "fst ` set gs' = fst ` set gs \<union> gl_ratePercent ` set lines"
    "gl_ratePercent ` set lines \<subseteq> set IVA_RATES"
proof -
  have "sum_list (map snd gs') = sum_list (map snd gs) + sum_list (map gl_grossCents lines) \<and>
    gross_of q gs' = gross_of q gs + sum_list (map gl_grossCents (filter (\<lambda>l. gl_ratePercent l = q) lines)) \<and>
    distinct (map fst gs') \<and> (\<forall>e \<in> set gs'. 0 \<le> snd e) \<and>
    fst ` set gs' = fst ` set gs \<union> gl_ratePercent ` set lines \<and> gl_ratePercent ` set lines \<subseteq> set IVA_RATES" for q
    using assms
  proof (induction lines arbitrary: gs)
    case (Cons l lines)
    let ?g1 = "addGroup (gl_ratePercent l) (gl_grossCents l) gs"
    have g: "gl_ratePercent l \<in> set IVA_RATES" "foldE groupLine lines ?g1 = Inr gs'"
      using Cons.prems(1) by (auto simp: groupLine_def[of l] split: if_splits)
    have d: "distinct (map fst ?g1)" using addGroup_distinct[OF Cons.prems(2)] .
    have n: "\<forall>e \<in> set ?g1. 0 \<le> snd e" using Cons.prems(4) by (intro addGroup_facts(4)[OF Cons.prems(3)]) simp
    have rest: "\<forall>l \<in> set lines. 0 \<le> gl_grossCents l" using Cons.prems(4) by simp
    show ?case using Cons.IH[OF g(2) d n rest] g(1) by (simp add: addGroup_facts(1-3))
  qed simp
  then show "sum_list (map snd gs') = sum_list (map snd gs) + sum_list (map gl_grossCents lines)"
    "gross_of q gs' = gross_of q gs + sum_list (map gl_grossCents (filter (\<lambda>l. gl_ratePercent l = q) lines))"
    "distinct (map fst gs')" "\<forall>e \<in> set gs'. 0 \<le> snd e"
    "fst ` set gs' = fst ` set gs \<union> gl_ratePercent ` set lines"
    "gl_ratePercent ` set lines \<subseteq> set IVA_RATES"
    by blast+
qed

lemma sum_list_upd: "i < length xs \<Longrightarrow> sum_list (xs[i := x]) = sum_list xs + x - xs ! i" for x :: int
  by (induction xs arbitrary: i) (auto split: nat.splits)

lemma gross_of_entry: "distinct (map fst gs) \<Longrightarrow> (q, g) \<in> set gs \<Longrightarrow> gross_of q gs = g"
proof (induction gs)
  case (Cons e gs)
  have "gross_of q gs = 0" if "q \<notin> fst ` set gs" for q gs
    using that by (induction gs) (auto simp: gross_of_def)
  with Cons show ?case by (auto simp: gross_of_def image_iff)
qed simp

lemma giveLeft_length [simp]: "length (giveLeft is left sh) = length sh"
  by (induction "is" left sh rule: giveLeft.induct) simp_all

lemma giveLeft_floors:
  "\<forall>i \<in> set is. i < length sh \<Longrightarrow> 0 \<le> left \<Longrightarrow> left \<le> int (length is) \<Longrightarrow>
   floors (giveLeft is left sh) = floors sh + left"
proof (induction "is" left sh rule: giveLeft.induct)
  case (2 i "is" left sh)
  show ?case
  proof (cases "0 < left")
    case True
    have "floors (sh[i := (a, fst (snd (sh ! i)) + 1, b)]) = floors sh + 1" for a b
      using 2(3) by (simp add: floors_def map_update sum_list_upd)
    then show ?thesis using 2 True by simp
  next
    case False
    then have "left = 0" using 2(4) by simp
    moreover have "giveLeft is 0 sh = sh" for "is" by (induction "is") simp_all
    ultimately show ?thesis by simp
  qed
qed simp

lemma giveLeft_nth:
  "distinct is \<Longrightarrow> \<forall>i \<in> set is. i < length sh \<Longrightarrow> j < length sh \<Longrightarrow>
   fst (giveLeft is left sh ! j) = fst (sh ! j) \<and>
   (fst (snd (giveLeft is left sh ! j)) = fst (snd (sh ! j)) \<or>
    j \<in> set is \<and> fst (snd (giveLeft is left sh ! j)) = fst (snd (sh ! j)) + 1)"
proof (induction "is" left sh rule: giveLeft.induct)
  case (2 i "is" left sh)
  show ?case
  proof (cases "0 < left")
    case True
    with 2(1)[OF True] 2(3-5) show ?thesis by (cases "i = j") auto
  next
    case False
    with 2(2)[OF False] 2(3-5) show ?thesis by auto
  qed
qed simp

text \<open>Largest remainders: the whole cents fall short of the target by fewer cents than there are groups.\<close>

lemma div_shortfall:
  assumes "0 < (s::int)" "sum_list gs = s" "0 \<le> t"
  shows "0 \<le> t - sum_list (map (\<lambda>g. t * g div s) gs)" "t - sum_list (map (\<lambda>g. t * g div s) gs) \<le> int (length gs)"
proof -
  have split: "sum_list (map (\<lambda>g. t * g) hs) =
      s * sum_list (map (\<lambda>g. t * g div s) hs) + sum_list (map (\<lambda>g. t * g mod s) hs)" for hs
    by (induction hs) (simp_all add: algebra_simps)
  have bound: "0 \<le> sum_list (map (\<lambda>g. t * g mod s) hs) \<and> sum_list (map (\<lambda>g. t * g mod s) hs) \<le> s * int (length hs)" for hs
    using assms(1) by (induction hs) (simp_all add: algebra_simps add_increasing2 add_mono order_less_imp_le)
  let ?d = "sum_list (map (\<lambda>g. t * g div s) gs)"
  have "s * (t - ?d) = sum_list (map (\<lambda>g. t * g mod s) gs)"
  proof -
    have "sum_list (map (\<lambda>g. t * g) gs) = t * s" by (simp only: sum_list_const_mult map_ident assms(2))
    then have "s * ?d + sum_list (map (\<lambda>g. t * g mod s) gs) = t * s" using split[of gs] by linarith
    then show ?thesis by (simp add: right_diff_distrib mult.commute)
  qed
  then have "0 \<le> s * (t - ?d)" "s * (t - ?d) \<le> s * int (length gs)" using bound[of gs] by simp_all
  then show "0 \<le> t - ?d" "t - ?d \<le> int (length gs)" using assms(1)
    by (simp_all add: zero_le_mult_iff)
qed

lemma shareOf_exact:
  assumes "0 \<le> T" "0 \<le> g" "g \<le> G" "0 < G" "T * G < 2 ^ 53"
  shows "fst (snd (shareOf T G (q, g))) = T * g div G" "fst (shareOf T G (q, g)) = q"
proof -
  have le: "T * g \<le> T * G" using assms by (intro mult_left_mono) simp_all
  then have b: "0 \<le> T * g" "T * g < 2 ^ 53" using assms by simp_all
  then have "fl (rat_of_int (T * g)) = of_int (T * g)" by (intro fl_int) simp
  then show "fst (snd (shareOf T G (q, g))) = T * g div G"
    using floor_share[OF b assms(4)] by (simp add: shareOf_def Let_def fdiv_def fmul_def)
  show "fst (shareOf T G (q, g)) = q" by (simp add: shareOf_def Let_def)
qed

lemma share_line: "bl_rate (lineOfShare sg s) = fst s"
    "bl_baseCents (lineOfShare sg s) + bl_quotaCents (lineOfShare sg s) = sg * fst (snd s)"
  by (simp_all add: lineOfShare_def Let_def algebra_simps)

lemma sum_share_lines:
  "sum_list (map (\<lambda>b. bl_baseCents b + bl_quotaCents b) (map (lineOfShare sg) ss)) = sg * floors ss"
  by (induction ss) (simp_all add: floors_def share_line algebra_simps)

text \<open>The shares of a sale whose groups are \<open>gs\<close>, before and after the leftover cents are given.\<close>

lemma shares_given:
  fixes T G :: int
  assumes "distinct (map fst gs)" "\<forall>e \<in> set gs. 0 \<le> snd e" "sum_list (map snd gs) = G" "0 < G" "0 \<le> T" "T * G < 2 ^ 53"
  defines "sh \<equiv> map (shareOf T G) (sort_key (\<lambda>e. - fst e) gs)"
  defines "given \<equiv> giveLeft (byFrac sh) (T - floors sh) sh"
  shows "floors given = T" "distinct (map fst given)" "fst ` set given = fst ` set gs"
    "s \<in> set given \<Longrightarrow> \<bar>fst (snd s) * G - T * gross_of (fst s) gs\<bar> \<le> G"
proof -
  let ?es = "sort_key (\<lambda>e. - fst e) gs"
  have es: "set ?es = set gs" "length ?es = length gs" "mset ?es = mset gs" by simp_all
  have "mset (map fst ?es) = mset (map fst gs)" "mset (map snd ?es) = mset (map snd gs)" by simp_all
  then have dis: "distinct (map fst ?es)" and sum: "sum_list (map snd ?es) = G"
    using assms(1,3) by (metis mset_eq_imp_distinct_iff, metis sum_mset_sum_list)
  have le: "snd e \<le> G" if "e \<in> set gs" for e
    using member_le_sum_list[of "snd e" "map snd gs"] assms(2,3) that by auto
  have fl: "fst (snd (shareOf T G e)) = T * snd e div G" "fst (shareOf T G e) = fst e" if "e \<in> set gs" for e
    using shareOf_exact[of T "snd e" G "fst e"] le[OF that] assms(2,4,5,6) that by auto
  have fls: "floors sh = sum_list (map (\<lambda>g. T * g div G) (map snd ?es))"
    unfolding floors_def sh_def map_map using fl(1) by (intro arg_cong[where f = sum_list] map_cong) simp_all
  have bnd: "0 \<le> T - floors sh" "T - floors sh \<le> int (length (map snd ?es))"
    using div_shortfall[OF assms(4) sum assms(5)] unfolding fls by blast+
  have ord: "\<forall>i \<in> set (byFrac sh). i < length sh" "distinct (byFrac sh)" "length (byFrac sh) = length sh"
    by (simp_all add: byFrac_def)
  have len: "length sh = length ?es" by (simp add: sh_def)
  show fg: "floors given = T"
    using giveLeft_floors[OF ord(1) bnd(1)] bnd(2) ord(3) len unfolding given_def by simp
  have nth: "fst (given ! j) = fst (?es ! j)"
      "fst (snd (given ! j)) = T * snd (?es ! j) div G \<or> fst (snd (given ! j)) = T * snd (?es ! j) div G + 1"
    if "j < length gs" for j
    using giveLeft_nth[OF ord(2,1), of j "T - floors sh"] that fl[of "?es ! j"] nth_mem[of j ?es] len
    unfolding given_def by (auto simp: sh_def)
  have lg: "length given = length gs" using len by (simp add: given_def)
  have rates: "map fst given = map fst ?es" by (rule nth_equalityI) (simp_all add: lg nth(1))
  then show "distinct (map fst given)" using dis by simp
  show "fst ` set given = fst ` set gs" using rates es(1) by (metis list.set_map)
  show "\<bar>fst (snd s) * G - T * gross_of (fst s) gs\<bar> \<le> G" if s: "s \<in> set given"
  proof -
    obtain j where j: "j < length gs" "s = given ! j" using s lg by (metis in_set_conv_nth)
    define g where "g = snd (?es ! j)"
    have "?es ! j \<in> set gs" using j(1) nth_mem[of j ?es] by simp
    then have gr: "gross_of (fst s) gs = g"
      using gross_of_entry[OF assms(1), of "fst (?es ! j)" g] nth(1)[OF j(1)] j(2) by (simp add: g_def)
    have m: "T * g = (T * g div G) * G + T * g mod G" "0 \<le> T * g mod G" "T * g mod G < G" using assms(4) by simp_all
    have "fst (snd s) = T * g div G \<or> fst (snd s) = T * g div G + 1"
      using nth(2)[OF j(1)] j(2) by (simp add: g_def)
    then have "fst (snd s) * G = (T * g div G) * G \<or> fst (snd s) * G = (T * g div G) * G + G" by (auto simp: distrib_right)
    then show ?thesis unfolding gr using m by linarith
  qed
qed

lemma breakdown_sums:
  assumes "buildBreakdown lines t = Inr (breakdown, tax, due)"
    "\<forall>l \<in> set lines. 0 \<le> gl_grossCents l" "\<bar>t\<bar> * sum_list (map gl_grossCents lines) < 2 ^ 53"
  shows "due = t \<and> sum_list (map (\<lambda>b. bl_baseCents b + bl_quotaCents b) breakdown) = t \<and>
     tax = sum_list (map bl_quotaCents breakdown) \<and> distinct (map bl_rate breakdown) \<and>
     bl_rate ` set breakdown = gl_ratePercent ` set lines \<and>
     (\<forall>b \<in> set breakdown.
        \<bar>(bl_baseCents b + bl_quotaCents b) * sum_list (map gl_grossCents lines) -
          t * sum_list (map gl_grossCents (filter (\<lambda>l. gl_ratePercent l = bl_rate b) lines))\<bar>
        \<le> sum_list (map gl_grossCents lines))"
proof -
  define sg :: int where "sg = (if t < 0 then - 1 else 1)"
  have sg: "sg * \<bar>t\<bar> = t" "\<bar>sg\<bar> = 1" by (auto simp: sg_def)
  obtain gs where gs: "foldE groupLine lines [] = Inr gs" using assms(1) by (auto simp: buildBreakdown_def ebind_Inr_iff Let_def)
  have z: "gross_of q [] = 0" for q by (simp add: gross_of_def)
  have e: "distinct (map fst ([] :: (num \<times> int) list))" "\<forall>e \<in> set ([] :: (num \<times> int) list). 0 \<le> snd e" by simp_all
  note g0 = groups_facts[OF gs e assms(2)]
  have gf: "sum_list (map snd gs) = sum_list (map gl_grossCents lines)"
      "gross_of q gs = sum_list (map gl_grossCents (filter (\<lambda>l. gl_ratePercent l = q) lines))"
      "distinct (map fst gs)" "\<forall>e \<in> set gs. 0 \<le> snd e" "fst ` set gs = gl_ratePercent ` set lines" for q
    using g0(1) g0(2)[of q] g0(3-5) unfolding z by simp_all
  define G where "G = sum_list (map gl_grossCents lines)"
  define sh where "sh = map (shareOf \<bar>t\<bar> G) (sort_key (\<lambda>e. - fst e) gs)"
  define given where "given = giveLeft (byFrac sh) (\<bar>t\<bar> - floors sh) sh"
  have b: "0 < G" "breakdown = map (lineOfShare sg) given" "tax = sum_list (map bl_quotaCents breakdown)" "due = sg * \<bar>t\<bar>"
    using assms(1) by (auto simp: buildBreakdown_def gs gf(1) G_def sg_def sh_def given_def floors_def Let_def split: if_splits)
  have G: "sum_list (map snd gs) = G" "\<bar>t\<bar> * G < 2 ^ 53" using gf(1) assms(3) by (simp_all add: G_def)
  note sg_facts = shares_given[OF gf(3,4) G(1) b(1) _ G(2), folded sh_def, folded given_def]
  have fl: "floors given = \<bar>t\<bar>" "distinct (map fst given)" "fst ` set given = gl_ratePercent ` set lines"
    using sg_facts(1-3) gf(5) by simp_all
  have rates: "map bl_rate breakdown = map fst given" by (simp add: b(2) share_line)
  have each: "\<bar>(bl_baseCents x + bl_quotaCents x) * G - t * gross_of (bl_rate x) gs\<bar> \<le> G" if "x \<in> set breakdown" for x
  proof -
    have "x \<in> lineOfShare sg ` set given" using that by (simp only: b(2) list.set_map)
    then obtain s where s: "s \<in> set given" "x = lineOfShare sg s" by (elim imageE)
    define h where "h = gross_of (fst s) gs"
    have h: "t * h = sg * (\<bar>t\<bar> * h)" by (metis mult.assoc sg(1))
    have "(bl_baseCents x + bl_quotaCents x) * G - t * h = sg * (fst (snd s) * G - \<bar>t\<bar> * h)"
      unfolding s(2) share_line(2) h by (simp only: right_diff_distrib mult.assoc)
    moreover have "\<bar>fst (snd s) * G - \<bar>t\<bar> * h\<bar> \<le> G" using sg_facts(4)[OF _ s(1)] by (simp add: h_def)
    ultimately show ?thesis using sg(2) by (simp add: s(2) share_line(1) h_def[symmetric] abs_mult)
  qed
  have total: "sum_list (map (\<lambda>b. bl_baseCents b + bl_quotaCents b) breakdown) = t"
    unfolding b(2) sum_share_lines fl(1) by (rule sg(1))
  have "due = t" using b(4) sg(1) by simp
  moreover have "distinct (map bl_rate breakdown)" using fl(2) by (simp only: rates)
  moreover have "bl_rate ` set breakdown = gl_ratePercent ` set lines"
    using fl(3) rates by (simp only: flip: list.set_map)
  ultimately show ?thesis using total b(3) each unfolding gf(2) G_def by blast
qed

text \<open>C19: the fiscal breakdown of a sale adds up: below the range where a product of cents leaves the exact
  integers of a double, base plus tax over all lines is exactly the amount invoiced, there is one line for each
  tax rate sold, and each line is within one cent of its proportional share of the bill.\<close>

theorem breakdown_adds_up:
  assumes "buildBreakdown lines t = Inr (breakdown, tax, due)"
    "\<forall>l \<in> set lines. 0 \<le> gl_grossCents l" "\<bar>t\<bar> * sum_list (map gl_grossCents lines) < 2 ^ 53"
  shows "due = t \<and> sum_list (map (\<lambda>b. bl_baseCents b + bl_quotaCents b) breakdown) = t \<and>
     tax = sum_list (map bl_quotaCents breakdown) \<and> distinct (map bl_rate breakdown) \<and>
     bl_rate ` set breakdown = gl_ratePercent ` set lines \<and>
     (\<forall>b \<in> set breakdown.
        \<bar>(bl_baseCents b + bl_quotaCents b) * sum_list (map gl_grossCents lines) -
          t * sum_list (map gl_grossCents (filter (\<lambda>l. gl_ratePercent l = bl_rate b) lines))\<bar>
        \<le> sum_list (map gl_grossCents lines))"
  using breakdown_sums[OF assms] .

theorem breakdown_adds_up_witness:
  "\<exists>bd tax due. buildBreakdown [\<lparr>gl_grossCents = 1000, gl_ratePercent = 10\<rparr>, \<lparr>gl_grossCents = 500, gl_ratePercent = 21\<rparr>]
      (- 1001) = Inr (bd, tax, due) \<and> due = - 1001 \<and>
      sum_list (map (\<lambda>b. bl_baseCents b + bl_quotaCents b) bd) = - 1001 \<and> distinct (map bl_rate bd)"
proof -
  let ?ls = "[\<lparr>gl_grossCents = 1000, gl_ratePercent = 10\<rparr>, \<lparr>gl_grossCents = 500, gl_ratePercent = 21\<rparr>]"
  have g: "foldE groupLine ?ls [] = Inr [(10, 1000), (21, 500)]" by (simp add: groupLine_def IVA_RATES_def)
  obtain bd tax due where b: "buildBreakdown ?ls (- 1001) = Inr (bd, tax, due)"
    unfolding buildBreakdown_def g Let_def by simp
  show ?thesis using breakdown_adds_up[OF b] b by auto
qed

text \<open>
  A record whose amounts come from the split passes the two arithmetic checks of \<open>validateAlta\<close>: only the
  number, the tax ID, the names and the number of lines can refuse it.
\<close>

lemma validateAlta_sums:
  assumes "sum_list (map (\<lambda>b. bl_baseCents b + bl_quotaCents b) (al_breakdown r)) = al_totalCents r"
    "al_taxTotalCents r = sum_list (map bl_quotaCents (al_breakdown r))"
  shows "validateAlta r = Inr () \<longleftrightarrow> validateInvoiceNumber (ii_number (al_id r)) = Inr () \<and>
     length (trim (ii_issuerNif (al_id r))) = 9 \<and> trim (al_issuerName r) \<noteq> '''' \<and> length (al_issuerName r) \<le> 120 \<and>
     trim (al_description r) \<noteq> '''' \<and> length (al_description r) \<le> 500 \<and>
     al_breakdown r \<noteq> [] \<and> length (al_breakdown r) \<le> 12"
  using assms by (auto simp: validateAlta_def ebind_Inr_iff Let_def sum_list_addf not_less)

section \<open>The fingerprinted text is unambiguous\<close>

text \<open>\<open>&\<close> ends a field: two texts of fields without it agree only field by field.\<close>

definition no_amp :: "string \<Rightarrow> bool" where
  "no_amp s \<longleftrightarrow> CHR ''&'' \<notin> set s"

lemma no_amp_split:
  assumes "a @ CHR ''&'' # x = b @ CHR ''&'' # y" "no_amp a" "no_amp b"
  shows "a = b \<and> x = y"
proof -
  have "takeWhile (\<lambda>c. c \<noteq> CHR ''&'') (a @ CHR ''&'' # x) = a" "takeWhile (\<lambda>c. c \<noteq> CHR ''&'') (b @ CHR ''&'' # y) = b"
    using assms(2,3) by (auto simp: no_amp_def takeWhile_append)
  then show ?thesis using assms(1) by auto
qed

lemma nat_str_no_amp: "no_amp (nat_str n)"
  using nat_str_digits[of "CHR ''&''" n] by (auto simp: no_amp_def is_digit_def)

lemma amount_no_amp: "no_amp (amount c)"
  using nat_str_no_amp by (auto simp: no_amp_def amount_def pad_start_def Let_def)

lemma split_at:
  assumes "a @ c # x = b @ c # y" "c \<notin> set a" "c \<notin> set b"
  shows "a = b \<and> x = y"
proof -
  have "takeWhile (\<lambda>d. d \<noteq> c) (a @ c # x) = a" "takeWhile (\<lambda>d. d \<noteq> c) (b @ c # y) = b"
    using assms(2,3) by (auto simp: takeWhile_append)
  then show ?thesis using assms(1) by auto
qed

lemma amount_inj: "amount c = amount d \<longleftrightarrow> c = d"
proof
  assume eq: "amount c = amount d"
  define body where "body a = nat_str (a div 100) @ ''.'' @ pad_start 2 (CHR ''0'') (nat_str (a mod 100))" for a
  have am: "amount c = (if c < 0 then ''-'' @ body (nat \<bar>c\<bar>) else body (nat \<bar>c\<bar>))" for c
    by (simp add: amount_def body_def Let_def)
  have z: "CHR ''0'' = digit 0" by code_simp
  have body: "body a = body b \<Longrightarrow> a = b" for a b
  proof -
    assume "body a = body b"
    moreover have "CHR ''.'' \<notin> set (nat_str n)" for n using nat_str_digits[of "CHR ''.''" n] by (auto simp: is_digit_def)
    ultimately have "nat_str (a div 100) = nat_str (b div 100) \<and>
        pad_start 2 (CHR ''0'') (nat_str (a mod 100)) = pad_start 2 (CHR ''0'') (nat_str (b mod 100))"
      using split_at[of "nat_str (a div 100)" "CHR ''.''"] by (simp add: body_def)
    then have "a div 100 = b div 100" "a mod 100 = b mod 100" unfolding z by (metis nat_str_inj, metis str_nat_pad str_nat_nat_str)
    then show "a = b" by (metis div_mult_mod_eq)
  qed
  have nm: "body a \<noteq> ''-'' @ s" for a s
  proof
    assume m: "body a = ''-'' @ s"
    have "nat_str (a div 100) \<noteq> []" by (subst nat_str.simps) simp
    then obtain x xs where x: "nat_str (a div 100) = x # xs" by (cases "nat_str (a div 100)") auto
    then have "x = CHR ''-''" using m by (simp add: body_def)
    then show False using nat_str_digits[of x "a div 100"] x by (simp add: is_digit_def)
  qed
  show "c = d"
  proof (cases "c < 0 \<longleftrightarrow> d < 0")
    case True
    then have "nat \<bar>c\<bar> = nat \<bar>d\<bar>" using eq body by (auto simp: am split: if_splits)
    then show ?thesis using True by (auto split: if_splits)
  next
    case False
    then show ?thesis using eq nm[of _ "body _"] by (auto simp: am dest: sym split: if_splits)
  qed
qed simp

fun amp_join :: "string list \<Rightarrow> string" where
  "amp_join [] = []"
| "amp_join [x] = x"
| "amp_join (x # y # xs) = x @ CHR ''&'' # amp_join (y # xs)"

lemma amp_join_inj:
  "length xs = length ys \<Longrightarrow> \<forall>x \<in> set (butlast xs) \<union> set (butlast ys). no_amp x \<Longrightarrow> amp_join xs = amp_join ys \<Longrightarrow> xs = ys"
proof (induction xs arbitrary: ys rule: amp_join.induct)
  case (2 x)
  then show ?case by (cases ys) auto
next
  case (3 x y xs)
  obtain u v us where ys: "ys = u # v # us"
  proof (cases ys)
    case (Cons u zs)
    then show ?thesis using 3(2) that by (cases zs) auto
  qed (use 3(2) in simp)
  then have "x = u \<and> amp_join (y # xs) = amp_join (v # us)"
    using 3 no_amp_split[of x "amp_join (y # xs)" u "amp_join (v # us)"] by simp
  moreover have "y # xs = v # us"
    using 3(1)[of "v # us"] 3(2,3) calculation ys by simp
  ultimately show ?case using ys by simp
qed simp

lemma altaString_join:
  "altaString i t x y p g = amp_join
     [''IDEmisorFactura='' @ trim (ii_issuerNif i), ''NumSerieFactura='' @ trim (ii_number i),
      ''FechaExpedicionFactura='' @ ii_issueDate i, ''TipoFactura='' @ trim t, ''CuotaTotal='' @ amount x,
      ''ImporteTotal='' @ amount y, ''Huella='' @ trim p, ''FechaHoraHusoGenRegistro='' @ g]"
  by (simp add: altaString_def)

lemma no_amp_append [simp]: "no_amp (a @ b) \<longleftrightarrow> no_amp a \<and> no_amp b" by (simp add: no_amp_def)

lemma altaString_inj:
  assumes "altaString i t x y p g = altaString j u x' y' q h"
    "no_amp (trim (ii_issuerNif i))" "no_amp (trim (ii_issuerNif j))" "no_amp (trim (ii_number i))" "no_amp (trim (ii_number j))"
    "no_amp (ii_issueDate i)" "no_amp (ii_issueDate j)" "no_amp (trim t)" "no_amp (trim u)" "no_amp (trim p)" "no_amp (trim q)"
  shows "trim (ii_issuerNif i) = trim (ii_issuerNif j) \<and> trim (ii_number i) = trim (ii_number j) \<and>
    ii_issueDate i = ii_issueDate j \<and> trim t = trim u \<and> x = x' \<and> y = y' \<and> trim p = trim q \<and> g = h"
proof -
  have lits: "no_amp ''IDEmisorFactura=''" "no_amp ''NumSerieFactura=''" "no_amp ''FechaExpedicionFactura=''"
    "no_amp ''TipoFactura=''" "no_amp ''CuotaTotal=''" "no_amp ''ImporteTotal=''" "no_amp ''Huella=''"
    by (simp_all add: no_amp_def)
  have "[''IDEmisorFactura='' @ trim (ii_issuerNif i), ''NumSerieFactura='' @ trim (ii_number i),
      ''FechaExpedicionFactura='' @ ii_issueDate i, ''TipoFactura='' @ trim t, ''CuotaTotal='' @ amount x,
      ''ImporteTotal='' @ amount y, ''Huella='' @ trim p, ''FechaHoraHusoGenRegistro='' @ g] =
     [''IDEmisorFactura='' @ trim (ii_issuerNif j), ''NumSerieFactura='' @ trim (ii_number j),
      ''FechaExpedicionFactura='' @ ii_issueDate j, ''TipoFactura='' @ trim u, ''CuotaTotal='' @ amount x',
      ''ImporteTotal='' @ amount y', ''Huella='' @ trim q, ''FechaHoraHusoGenRegistro='' @ h]"
    using assms(1) unfolding altaString_join
    by (rule amp_join_inj[rotated 2]) (simp_all only: list.size butlast.simps list.set Un_iff ball_simps(5,7) ball_Un
        no_amp_append lits assms(2-) amount_no_amp list.distinct if_False if_True simp_thms)
  then show ?thesis by (simp add: amount_inj)
qed

end
