(* ===== verification/Verifactu_Service.thy ===== *)
theory Verifactu_Service
  imports Verifactu_Domain Ledger
begin

text \<open>
  The fiscal log of a Spanish branch: \<open>modules/verifactu/verifactu.service.ts\<close>. The append-only,
  hash-chained records of paid sales and refunds, their numbering, the settings, the verification of the
  stored chain, and the submission of records to the tax agency with the statuses it gives back.

  Arguments: the digest, the configuration of the server, the Madrid clock, new identifiers, the
  encryption of the certificate and the agency's web service. The advisory lock of a chain makes the
  appends of one chain happen one after the other, which is how the steps below are sequenced. The log
  messages and the audit rows are left out.
\<close>

section \<open>State\<close>

datatype vf_status = VF_PENDING | VF_ACCEPTED | VF_ACCEPTED_WITH_ERRORS | VF_REJECTED | VF_ERROR

record fiscal_record =
  fr_id :: string
  fr_restaurantId :: string
  fr_branchId :: string
  fr_issuerNif :: string
  fr_seq :: int
  fr_invoiceType :: invoice_type
  fr_invoiceNumber :: string
  fr_issueDate :: string
  fr_taxTotalCents :: int
  fr_totalCents :: int
  fr_generatedAt :: string
  fr_previousHash :: "string option"
  fr_hash :: string
  fr_xml :: string
  fr_qrUrl :: string
  fr_environment :: verifactu_env
  fr_orderId :: string
  fr_refundId :: "string option"
  fr_status :: vf_status
  fr_attempts :: nat
  fr_nextAttemptAt :: int
  fr_csv :: "string option"
  fr_errorCode :: "string option"
  fr_errorText :: "string option"
  fr_submittedAt :: "int option"

record vf_settings =
  vs_branchId :: string
  vs_enabled :: bool
  vs_environment :: verifactu_env
  vs_seriesPrefix :: string
  vs_nextNumber :: nat
  vs_nextRefundNumber :: nat
  vs_installationNumber :: string
  vs_certEncrypted :: "string option"
  vs_certPasswordEncrypted :: "string option"
  vs_certSubject :: "string option"
  vs_certExpiresAt :: "int option"

text \<open>A branch with the fields of its restaurant that are read here.\<close>

record vf_branch =
  vb_id :: string
  vb_restaurantId :: string
  vb_country :: string
  vb_taxRegime :: tax_regime
  vb_taxId :: "string option"
  vb_currency :: string
  vb_legalName :: "string option"
  vb_name :: string

record vf_state =
  vf_branches :: "vf_branch list"
  vf_settingsRows :: "vf_settings list"
  vf_records :: "fiscal_record list"

text \<open>What comes from outside: server configuration, digest, Madrid day and timestamp, a new identifier, the time.\<close>

record vf_env =
  ve_config :: "string \<Rightarrow> string option"
  ve_sha :: "string \<Rightarrow> string"
  ve_day :: string
  ve_timestamp :: string
  ve_newId :: string
  ve_now :: int

section \<open>Producer and settings\<close>

definition configOr :: "(string \<Rightarrow> string option) \<Rightarrow> string \<Rightarrow> string \<Rightarrow> string" where
  "configOr config k d =
     (let v = trim (case config k of None \<Rightarrow> '''' | Some x \<Rightarrow> x) in if v = '''' then d else v)"

record vf_producer =
  vp_name :: string
  vp_country :: string
  vp_idType :: string
  vp_id :: string
  vp_systemId :: string
  vp_version :: string

definition producer :: "(string \<Rightarrow> string option) \<Rightarrow> vf_producer" where
  "producer config =
     \<lparr>vp_name = configOr config ''VERIFACTU_PRODUCER_NAME'' ''NODEDR INFOTECH PRIVATE LIMITED'',
      vp_country = configOr config ''VERIFACTU_PRODUCER_COUNTRY'' ''IN'',
      vp_idType = configOr config ''VERIFACTU_PRODUCER_ID_TYPE'' ''04'',
      vp_id = configOr config ''VERIFACTU_PRODUCER_ID'' '''',
      vp_systemId = configOr config ''VERIFACTU_SYSTEM_ID'' ''OR'',
      vp_version = configOr config ''APP_VERSION'' ''1.0.0''\<rparr>"

definition systemInfo :: "(string \<Rightarrow> string option) \<Rightarrow> string \<Rightarrow> system_info" where
  "systemInfo config installationNumber =
     (let p = producer config in
      \<lparr>si_producerName = vp_name p, si_producerCountry = vp_country p, si_producerIdType = vp_idType p,
       si_producerId = vp_id p, si_systemName = ''OrderRestro'', si_systemId = vp_systemId p,
       si_version = vp_version p, si_installationNumber = installationNumber\<rparr>)"

definition branchOrThrow :: "string \<Rightarrow> string \<Rightarrow> vf_state \<Rightarrow> vf_branch res" where
  "branchOrThrow restaurantId branchId s =
     (case find (\<lambda>b. vb_id b = branchId \<and> vb_restaurantId b = restaurantId) (vf_branches s) of
        None \<Rightarrow> Inl (NotFound ''Branch not found'') | Some b \<Rightarrow> Inr b)"

definition taxIdOf :: "vf_branch \<Rightarrow> string" where
  "taxIdOf b = trim (case vb_taxId b of None \<Rightarrow> '''' | Some x \<Rightarrow> x)"

definition legalNameOf :: "vf_branch \<Rightarrow> string" where
  "legalNameOf b = trim (case vb_legalName b of None \<Rightarrow> vb_name b | Some x \<Rightarrow> x)"

definition problems :: "(string \<Rightarrow> string option) \<Rightarrow> vf_branch \<Rightarrow> string list" where
  "problems config b =
     (let p = producer config in
      (if vb_country b \<noteq> ''ES'' then [''Set the branch country to Spain (ES).''] else []) @
      (if vb_taxRegime b \<noteq> ES_IVA then [''Set the branch tax regime to Spain - IVA.''] else []) @
      (if length (taxIdOf b) \<noteq> 9 then [''Enter the branch NIF/CIF (9 characters) in branch tax settings.''] else []) @
      (if vb_currency b \<noteq> ''EUR'' then [''Set the restaurant currency to EUR.''] else []) @
      (if legalNameOf b = '''' then [''Set the restaurant legal name.''] else []) @
      (if vp_id p = '''' \<or> 20 < length (vp_id p) \<or> length (vp_systemId p) \<noteq> 2
       then [''The server operator must set VERIFACTU_PRODUCER_ID (the producer identifier, at most 20 characters) and a 2-character VERIFACTU_SYSTEM_ID.'']
       else []))"

fun joinWords :: "string list \<Rightarrow> string" where
  "joinWords [] = ''''"
| "joinWords [x] = x"
| "joinWords (x # y # xs) = x @ '' '' @ joinWords (y # xs)"

definition prefix_valid :: "string \<Rightarrow> bool" where
  "prefix_valid p \<longleftrightarrow> 1 \<le> length p \<and> length p \<le> 12 \<and> list_all (\<lambda>c. is_alnum c \<or> c = CHR ''-'') p"

definition settingsOf :: "string \<Rightarrow> vf_state \<Rightarrow> vf_settings option" where
  "settingsOf branchId s = find (\<lambda>x. vs_branchId x = branchId) (vf_settingsRows s)"

definition freshSettings :: "string \<Rightarrow> string \<Rightarrow> vf_settings" where
  "freshSettings uuid branchId =
     \<lparr>vs_branchId = branchId, vs_enabled = False, vs_environment = TEST, vs_seriesPrefix = ''T1'',
      vs_nextNumber = 1, vs_nextRefundNumber = 1, vs_installationNumber = uuid, vs_certEncrypted = None,
      vs_certPasswordEncrypted = None, vs_certSubject = None, vs_certExpiresAt = None\<rparr>"

definition putSettings :: "string \<Rightarrow> string \<Rightarrow> (vf_settings \<Rightarrow> vf_settings) \<Rightarrow> vf_state \<Rightarrow> vf_state" where
  "putSettings uuid branchId f s =
     (if settingsOf branchId s \<noteq> None
      then s\<lparr>vf_settingsRows := upd_where (\<lambda>x. vs_branchId x = branchId) f (vf_settingsRows s)\<rparr>
      else s\<lparr>vf_settingsRows := vf_settingsRows s @ [f (freshSettings uuid branchId)]\<rparr>)"

text \<open>\<open>saveSettings\<close>; the answer (the settings as shown) is read from the new state.\<close>

definition saveSettings ::
  "vf_env \<Rightarrow> string \<Rightarrow> string \<Rightarrow> bool \<Rightarrow> verifactu_env \<Rightarrow> string \<Rightarrow> vf_state \<Rightarrow> vf_state res" where
  "saveSettings e restaurantId branchId enabled environment seriesPrefix s =
     ebind (branchOrThrow restaurantId branchId s) (\<lambda>b.
       let p = trim seriesPrefix; ps = problems (ve_config e) b in
       if \<not> prefix_valid p then Inl (BadRequest ''The invoice series may use letters, digits and - (at most 12 characters).'')
       else if enabled \<and> ps \<noteq> [] then Inl (BadRequest (joinWords ps))
       else if (case settingsOf branchId s of None \<Rightarrow> False
                | Some x \<Rightarrow> vs_seriesPrefix x \<noteq> p \<and> 0 < count_where (\<lambda>r. fr_branchId r = branchId) (vf_records s))
       then Inl (Conflict ''The series cannot change once records exist; it would restart the numbering.'')
       else if 0 < count_where (\<lambda>x. vs_seriesPrefix x = p \<and> vs_branchId x \<noteq> branchId \<and>
                 0 < count_where (\<lambda>c. vb_id c = vs_branchId x \<and> vb_restaurantId c = restaurantId \<and>
                        vb_taxId c = vb_taxId b) (vf_branches s)) (vf_settingsRows s)
       then Inl (Conflict ''Another branch with the same tax ID already uses the series'')
       else Inr (putSettings (ve_newId e) branchId
              (\<lambda>x. x\<lparr>vs_enabled := enabled, vs_environment := environment, vs_seriesPrefix := p\<rparr>) s))"

text \<open>\<open>inspect\<close> reads a certificate, \<open>seal\<close> encrypts a text for a branch.\<close>

definition uploadCertificate ::
  "vf_env \<Rightarrow> (string \<Rightarrow> string \<Rightarrow> string + (string \<times> int)) \<Rightarrow> (string \<Rightarrow> string \<Rightarrow> string) \<Rightarrow>
   string \<Rightarrow> string \<Rightarrow> string \<Rightarrow> string \<Rightarrow> vf_state \<Rightarrow> vf_state res" where
  "uploadCertificate e inspect seal restaurantId branchId file password s =
     ebind (branchOrThrow restaurantId branchId s) (\<lambda>_.
       if password = '''' then Inl (BadRequest ''Enter the certificate password.'')
       else case inspect file password of
         Inl m \<Rightarrow> Inl (BadRequest m)
       | Inr (subject, expiresAt) \<Rightarrow>
           if expiresAt < ve_now e then Inl (BadRequest ''This certificate has expired.'')
           else Inr (putSettings (ve_newId e) branchId
                  (\<lambda>x. x\<lparr>vs_certEncrypted := Some (seal file branchId),
                         vs_certPasswordEncrypted := Some (seal password branchId),
                         vs_certSubject := Some (take 300 subject), vs_certExpiresAt := Some expiresAt\<rparr>) s))"

section \<open>Creating records\<close>

definition in_chain :: "string \<Rightarrow> string \<Rightarrow> verifactu_env \<Rightarrow> fiscal_record \<Rightarrow> bool" where
  "in_chain restaurantId nif environment r \<longleftrightarrow>
     fr_restaurantId r = restaurantId \<and> fr_issuerNif r = nif \<and> fr_environment r = environment"

definition chainOf :: "string \<Rightarrow> string \<Rightarrow> verifactu_env \<Rightarrow> vf_state \<Rightarrow> fiscal_record list" where
  "chainOf restaurantId nif environment s = filter (in_chain restaurantId nif environment) (vf_records s)"

text \<open>The first row of the chain in descending order of \<open>seq\<close>.\<close>

definition lastRecord :: "fiscal_record list \<Rightarrow> fiscal_record option" where
  "lastRecord rs = (case rs of [] \<Rightarrow> None | r # rs \<Rightarrow> Some (foldl (\<lambda>a b. if fr_seq a < fr_seq b then b else a) r rs))"

record append_args =
  ap_restaurantId :: string
  ap_branchId :: string
  ap_issuerNif :: string
  ap_issuerName :: string
  ap_environment :: verifactu_env
  ap_installationNumber :: string
  ap_invoiceType :: invoice_type
  ap_number :: string
  ap_description :: string
  ap_lines :: "gross_line list"
  ap_targetCents :: int
  ap_orderId :: string
  ap_refundId :: "string option"
  ap_rectified :: "invoice_id list option"

definition previousOf :: "fiscal_record option \<Rightarrow> chain_ref option" where
  "previousOf l = map_option (\<lambda>r. \<lparr>ii_issuerNif = fr_issuerNif r, ii_number = fr_invoiceNumber r,
     ii_issueDate = fr_issueDate r, cr_hash = fr_hash r\<rparr>) l"

definition altaOf :: "vf_env \<Rightarrow> append_args \<Rightarrow> chain_ref option \<Rightarrow> breakdown_line list \<times> int \<times> int \<Rightarrow> alta_record" where
  "altaOf e a previous b =
     \<lparr>al_id = \<lparr>ii_issuerNif = ap_issuerNif a, ii_number = ap_number a, ii_issueDate = ve_day e\<rparr>,
      al_issuerName = ap_issuerName a, al_invoiceType = ap_invoiceType a, al_description = ap_description a,
      al_breakdown = fst b, al_taxTotalCents = fst (snd b), al_totalCents = snd (snd b), al_previous = previous,
      al_system = systemInfo (ve_config e) (ap_installationNumber a), al_generatedAt = ve_timestamp e,
      al_rectified = ap_rectified a\<rparr>"

text \<open>The failure of \<open>validateAlta\<close> becomes a bad request.\<close>

definition asBadRequest :: "'a res \<Rightarrow> 'a res" where
  "asBadRequest m = (case m of Inl (PlainError t) \<Rightarrow> Inl (BadRequest t) | _ \<Rightarrow> m)"

definition recordOf :: "vf_env \<Rightarrow> append_args \<Rightarrow> fiscal_record option \<Rightarrow> alta_record \<Rightarrow> string \<Rightarrow> fiscal_record" where
  "recordOf e a l rec qr =
     \<lparr>fr_id = ve_newId e, fr_restaurantId = ap_restaurantId a, fr_branchId = ap_branchId a, fr_issuerNif = ap_issuerNif a,
      fr_seq = (case l of None \<Rightarrow> 0 | Some r \<Rightarrow> fr_seq r) + 1, fr_invoiceType = ap_invoiceType a,
      fr_invoiceNumber = ap_number a, fr_issueDate = ve_day e, fr_taxTotalCents = al_taxTotalCents rec,
      fr_totalCents = al_totalCents rec, fr_generatedAt = ve_timestamp e,
      fr_previousHash = map_option cr_hash (al_previous rec), fr_hash = altaHash (ve_sha e) rec,
      fr_xml = altaXml (ve_sha e) rec, fr_qrUrl = qr, fr_environment = ap_environment a, fr_orderId = ap_orderId a,
      fr_refundId = ap_refundId a, fr_status = VF_PENDING, fr_attempts = 0, fr_nextAttemptAt = ve_now e, fr_csv = None,
      fr_errorCode = None, fr_errorText = None, fr_submittedAt = None\<rparr>"

text \<open>\<open>append\<close>. The insert fails on the primary key and the two unique indexes of the table.\<close>

definition append :: "vf_env \<Rightarrow> append_args \<Rightarrow> vf_state \<Rightarrow> (fiscal_record \<times> vf_state) res" where
  "append e a s =
     (let chain = chainOf (ap_restaurantId a) (ap_issuerNif a) (ap_environment a) s;
          l = lastRecord chain; previous = previousOf l
      in ebind (buildBreakdown (ap_lines a) (ap_targetCents a)) (\<lambda>b.
         let rec = altaOf e a previous b in
         ebind (asBadRequest (validateAlta rec)) (\<lambda>_.
         ebind (qrUrl (ap_environment a) (al_id rec) (al_totalCents rec)) (\<lambda>qr.
         let row = recordOf e a l rec qr in
         if 0 < count_where (\<lambda>r. fr_id r = fr_id row) (vf_records s) \<or>
            0 < count_where (\<lambda>r. fr_seq r = fr_seq row \<or> fr_invoiceNumber r = ap_number a) chain
         then Inl UniqueViolation
         else Inr (row, s\<lparr>vf_records := vf_records s @ [row]\<rparr>)))))"

definition toCents :: "num \<Rightarrow> int" where
  "toCents v = js_round (fmul v 100)"

text \<open>What a record needs of an order: its branch, totals (columns in cents) and lines with their tax rate.\<close>

record fiscal_sale =
  fs_orderId :: string
  fs_branchId :: string
  fs_totalAmount :: int
  fs_tipAmount :: int
  fs_items :: "(int \<times> int) list"

definition saleLines :: "fiscal_sale \<Rightarrow> gross_line list" where
  "saleLines o' = map (\<lambda>(lineTotal, rate). \<lparr>gl_grossCents = toCents (cents lineTotal), gl_ratePercent = cents rate\<rparr>) (fs_items o')"

definition findBranch :: "string \<Rightarrow> vf_state \<Rightarrow> vf_branch option" where
  "findBranch i s = find (\<lambda>b. vb_id b = i) (vf_branches s)"

definition serial :: "nat \<Rightarrow> string" where
  "serial n = pad_start 6 (CHR ''0'') (nat_str n)"

definition bumpNumber :: "string \<Rightarrow> vf_state \<Rightarrow> vf_state" where
  "bumpNumber branchId s = s\<lparr>vf_settingsRows := upd_where (\<lambda>x. vs_branchId x = branchId)
      (\<lambda>x. x\<lparr>vs_nextNumber := vs_nextNumber x + 1\<rparr>) (vf_settingsRows s)\<rparr>"

definition bumpRefundNumber :: "string \<Rightarrow> vf_state \<Rightarrow> vf_state" where
  "bumpRefundNumber branchId s = s\<lparr>vf_settingsRows := upd_where (\<lambda>x. vs_branchId x = branchId)
      (\<lambda>x. x\<lparr>vs_nextRefundNumber := vs_nextRefundNumber x + 1\<rparr>) (vf_settingsRows s)\<rparr>"

text \<open>The word for catering in the description, as its UTF-8 bytes.\<close>

definition restauracion :: string where
  "restauracion = ''restauraci'' @ [CHR 0xC3, CHR 0xB3] @ ''n''"

definition paidArgs :: "vf_branch \<Rightarrow> vf_settings \<Rightarrow> fiscal_sale \<Rightarrow> append_args" where
  "paidArgs b x sale =
     \<lparr>ap_restaurantId = vb_restaurantId b, ap_branchId = fs_branchId sale, ap_issuerNif = to_upper (taxIdOf b),
      ap_issuerName = legalNameOf b, ap_environment = vs_environment x, ap_installationNumber = vs_installationNumber x,
      ap_invoiceType = F2, ap_number = vs_seriesPrefix x @ ''-'' @ serial (vs_nextNumber x),
      ap_description = ''Servicios de '' @ restauracion, ap_lines = saleLines sale,
      ap_targetCents = toCents (cents (fs_totalAmount sale)) - toCents (cents (fs_tipAmount sale)),
      ap_orderId = fs_orderId sale, ap_refundId = None, ap_rectified = None\<rparr>"

definition recordPaidOrder :: "vf_env \<Rightarrow> fiscal_sale \<Rightarrow> vf_state \<Rightarrow> (fiscal_record option \<times> vf_state) res" where
  "recordPaidOrder e sale s =
     (case findBranch (fs_branchId sale) s of
        None \<Rightarrow> Inl RecordMissing
      | Some b \<Rightarrow>
     (case settingsOf (fs_branchId sale) s of
        None \<Rightarrow> Inr (None, s)
      | Some x \<Rightarrow>
          if \<not> vs_enabled x \<or> vb_country b \<noteq> ''ES'' then Inr (None, s)
          else if problems (ve_config e) b \<noteq> []
          then Inl (BadRequest (''VERI*FACTU is on but not ready: '' @ joinWords (problems (ve_config e) b)))
          else case find (\<lambda>r. fr_orderId r = fs_orderId sale \<and> fr_invoiceType r = F2) (vf_records s) of
            Some dup \<Rightarrow> Inr (Some dup, s)
          | None \<Rightarrow>
              ebind (append e (paidArgs b x sale) (bumpNumber (fs_branchId sale) s)) (\<lambda>(r, t). Inr (Some r, t))))"

definition refundArgs :: "vf_branch \<Rightarrow> vf_settings \<Rightarrow> fiscal_record \<Rightarrow> fiscal_sale \<Rightarrow> string \<Rightarrow> num \<Rightarrow> append_args" where
  "refundArgs b x original sale refundId amt =
     \<lparr>ap_restaurantId = vb_restaurantId b, ap_branchId = fs_branchId sale, ap_issuerNif = fr_issuerNif original,
      ap_issuerName = legalNameOf b, ap_environment = vs_environment x, ap_installationNumber = vs_installationNumber x,
      ap_invoiceType = R5, ap_number = ''R'' @ vs_seriesPrefix x @ ''-'' @ serial (vs_nextRefundNumber x),
      ap_description = ''Devoluci'' @ [CHR 0xC3, CHR 0xB3] @ ''n de servicios de '' @ restauracion,
      ap_lines = saleLines sale, ap_targetCents = - toCents amt, ap_orderId = fs_orderId sale,
      ap_refundId = Some refundId,
      ap_rectified = Some [\<lparr>ii_issuerNif = fr_issuerNif original, ii_number = fr_invoiceNumber original,
                             ii_issueDate = fr_issueDate original\<rparr>]\<rparr>"

definition recordRefund :: "vf_env \<Rightarrow> fiscal_sale \<Rightarrow> string \<Rightarrow> num \<Rightarrow> vf_state \<Rightarrow> (fiscal_record option \<times> vf_state) res" where
  "recordRefund e sale refundId amt s =
     (case findBranch (fs_branchId sale) s of
        None \<Rightarrow> Inl RecordMissing
      | Some b \<Rightarrow>
     (case settingsOf (fs_branchId sale) s of
        None \<Rightarrow> Inr (None, s)
      | Some x \<Rightarrow>
          if \<not> vs_enabled x \<or> vb_country b \<noteq> ''ES'' then Inr (None, s)
          else case find (\<lambda>r. fr_orderId r = fs_orderId sale \<and> fr_invoiceType r = F2 \<and>
                             fr_environment r = vs_environment x) (vf_records s) of
            None \<Rightarrow> Inr (None, s)
          | Some original \<Rightarrow>
              ebind (append e (refundArgs b x original sale refundId amt) (bumpRefundNumber (fs_branchId sale) s))
                (\<lambda>(r, t). Inr (Some r, t))))"

definition ordersWithRecords :: "string list \<Rightarrow> vf_state \<Rightarrow> string list" where
  "ordersWithRecords orderIds s =
     filter (\<lambda>i. i \<noteq> '''') (uniq (map fr_orderId (filter (\<lambda>r. fr_orderId r \<in> set orderIds) (vf_records s))))"

section \<open>Verification\<close>

text \<open>The digest a stored record must have, from its own fields.\<close>

definition rehash :: "(string \<Rightarrow> string) \<Rightarrow> fiscal_record \<Rightarrow> string" where
  "rehash sha r = altaHash sha
     \<lparr>al_id = \<lparr>ii_issuerNif = fr_issuerNif r, ii_number = fr_invoiceNumber r, ii_issueDate = fr_issueDate r\<rparr>,
      al_issuerName = '''', al_invoiceType = fr_invoiceType r, al_description = '''', al_breakdown = [],
      al_taxTotalCents = fr_taxTotalCents r, al_totalCents = fr_totalCents r,
      al_previous = (case fr_previousHash r of None \<Rightarrow> None
                     | Some h \<Rightarrow> if h = '''' then None
                               else Some \<lparr>ii_issuerNif = fr_issuerNif r, ii_number = '''', ii_issueDate = '''', cr_hash = h\<rparr>),
      al_system = systemInfo (\<lambda>_. None) '''', al_generatedAt = fr_generatedAt r, al_rectified = None\<rparr>"

definition is_hex :: "char \<Rightarrow> bool" where
  "is_hex c \<longleftrightarrow> is_digit c \<or> (65 \<le> (of_char c :: nat) \<and> (of_char c :: nat) \<le> 70)"

text \<open>The 64 digits before the closing tags at the end of the XML.\<close>

definition xmlHash :: "string \<Rightarrow> string option" where
  "xmlHash xml =
     (let post = ''</sf:Huella></sf:RegistroAlta>''; pre = ''<sf:Huella>'';
          tail = drop (length xml - (length pre + 64 + length post)) xml;
          h = take 64 (drop (length pre) tail)
      in if length pre + 64 + length post \<le> length xml \<and> take (length pre) tail = pre \<and>
            drop (length pre + 64) tail = post \<and> list_all is_hex h
         then Some h else None)"

datatype verdict = Intact nat | Broken nat int verifactu_env string

fun checkRecords ::
  "(string \<Rightarrow> string) \<Rightarrow> verifactu_env \<Rightarrow> string option \<Rightarrow> int \<Rightarrow> nat \<Rightarrow> fiscal_record list \<Rightarrow> verdict" where
  "checkRecords sha environment prevHash expectSeq checked [] = Intact checked"
| "checkRecords sha environment prevHash expectSeq checked (r # rs) =
     (if fr_seq r \<noteq> expectSeq
      then Broken (checked + 1) (fr_seq r) environment ''a record is missing from the sequence''
      else if fr_previousHash r \<noteq> prevHash
      then Broken (checked + 1) (fr_seq r) environment ''the record does not continue the previous one''
      else if xmlHash (fr_xml r) \<noteq> Some (fr_hash r)
      then Broken (checked + 1) (fr_seq r) environment ''the stored XML does not match the stored fingerprint''
      else if rehash sha r \<noteq> fr_hash r
      then Broken (checked + 1) (fr_seq r) environment ''the fingerprint does not match the record fields''
      else checkRecords sha environment (Some (fr_hash r)) (expectSeq + 1) (checked + 1) rs)"

definition verifyChain :: "(string \<Rightarrow> string) \<Rightarrow> string \<Rightarrow> string \<Rightarrow> vf_state \<Rightarrow> verdict res" where
  "verifyChain sha restaurantId branchId s =
     ebind (branchOrThrow restaurantId branchId s) (\<lambda>b.
       let nif = to_upper (taxIdOf b);
           recs = (\<lambda>environment. sort_key fr_seq (chainOf restaurantId nif environment s))
       in case checkRecords sha TEST None 1 0 (recs TEST) of
            Intact n \<Rightarrow> Inr (checkRecords sha PRODUCTION None 1 n (recs PRODUCTION))
          | bad \<Rightarrow> Inr bad)"

section \<open>Submission\<close>

record aeat_line =
  an_number :: string
  an_issueDate :: string
  an_operation :: string
  an_state :: string
  an_errorCode :: string
  an_errorText :: string

record aeat_response =
  ar_csv :: string
  ar_state :: string
  ar_waitSeconds :: int
  ar_lines :: "aeat_line list"

definition unsent :: "fiscal_record \<Rightarrow> bool" where
  "unsent r \<longleftrightarrow> fr_status r = VF_PENDING \<or> fr_status r = VF_ERROR"

definition pendingWhere :: "string \<Rightarrow> string \<Rightarrow> verifactu_env \<Rightarrow> fiscal_record \<Rightarrow> bool" where
  "pendingWhere restaurantId nif environment r \<longleftrightarrow> in_chain restaurantId nif environment r \<and> unsent r"

text \<open>The agency's line for a record: the last one with its key.\<close>

definition lineFor :: "aeat_response \<Rightarrow> fiscal_record \<Rightarrow> aeat_line option" where
  "lineFor resp r = find (\<lambda>l. an_number l @ ''|'' @ an_issueDate l @ ''|'' @ an_operation l =
        fr_invoiceNumber r @ ''|'' @ fr_issueDate r @ ''|'' @ ''Alta'') (rev (ar_lines resp))"

definition answerOf :: "aeat_response \<Rightarrow> fiscal_record \<Rightarrow> vf_status \<times> string option \<times> string option" where
  "answerOf resp r =
     (case lineFor resp r of
        None \<Rightarrow> if ar_state resp = ''Correcto'' then (VF_ACCEPTED, None, None)
                else (VF_ERROR, None, Some ''AEAT returned no result for this record'')
      | Some l \<Rightarrow>
          if an_state l = ''Correcto'' then (VF_ACCEPTED, None, None)
          else if an_state l = ''AceptadoConErrores''
          then (VF_ACCEPTED_WITH_ERRORS, Some (an_errorCode l), Some (an_errorText l))
          else (VF_REJECTED, Some (an_errorCode l), Some (an_errorText l)))"

definition settle :: "int \<Rightarrow> aeat_response \<Rightarrow> vf_state \<Rightarrow> fiscal_record \<Rightarrow> vf_state" where
  "settle now resp s r =
     (let (status, code, txt) = answerOf resp r in
      s\<lparr>vf_records := upd_where (\<lambda>x. fr_id x = fr_id r)
          (\<lambda>x. x\<lparr>fr_status := status, fr_errorCode := code, fr_errorText := txt,
                 fr_csv := (if ar_csv resp = '''' then None else Some (ar_csv resp)),
                 fr_submittedAt := Some now, fr_attempts := fr_attempts x + 1\<rparr>) (vf_records s)\<rparr>)"

definition releaseAfter :: "int \<Rightarrow> string \<Rightarrow> string \<Rightarrow> verifactu_env \<Rightarrow> int \<Rightarrow> vf_state \<Rightarrow> vf_state" where
  "releaseAfter now restaurantId nif environment ms s =
     s\<lparr>vf_records := upd_where (pendingWhere restaurantId nif environment)
          (\<lambda>x. x\<lparr>fr_nextAttemptAt := now + ms\<rparr>) (vf_records s)\<rparr>"

definition markError :: "string \<Rightarrow> fiscal_record list \<Rightarrow> vf_state \<Rightarrow> vf_state" where
  "markError txt recs s =
     s\<lparr>vf_records := upd_where (\<lambda>x. fr_id x \<in> set (map fr_id recs))
          (\<lambda>x. x\<lparr>fr_status := VF_ERROR, fr_errorText := Some txt, fr_attempts := fr_attempts x + 1\<rparr>) (vf_records s)\<rparr>"

definition RETRY_MS :: int where "RETRY_MS = 5 * 60000"

definition BATCH :: nat where "BATCH = 100"

type_synonym aeat_sender = "verifactu_env \<Rightarrow> string \<Rightarrow> string \<Rightarrow> string \<Rightarrow> string + aeat_response"

text \<open>\<open>unseal\<close> decrypts a certificate or its password for a branch, or fails.\<close>

definition submitChain ::
  "int \<Rightarrow> (string \<Rightarrow> string \<Rightarrow> string option) \<Rightarrow> aeat_sender \<Rightarrow> string \<Rightarrow> string \<Rightarrow> verifactu_env \<Rightarrow>
   vf_state \<Rightarrow> nat \<times> vf_state" where
  "submitChain now unseal sender restaurantId nif environment s =
     (let pending = filter (pendingWhere restaurantId nif environment) (vf_records s);
          recs = take BATCH (sort_key fr_seq pending)
      in if list_ex (\<lambda>r. now < fr_nextAttemptAt r) pending then (0, s)
         else if recs = [] then (0, s)
         else
     (case (findBranch (fr_branchId (hd recs)) s, settingsOf (fr_branchId (hd recs)) s) of
        (Some b, Some x) \<Rightarrow>
          if \<not> vs_enabled x then (0, s)
          else (case (vs_certEncrypted x, vs_certPasswordEncrypted x) of
             (Some c, Some p) \<Rightarrow>
               (case (unseal c (vs_branchId x), unseal p (vs_branchId x)) of
                  (Some pfx, Some pass) \<Rightarrow>
                    (case sender environment pfx pass (envelope (legalNameOf b) nif (map fr_xml recs)) of
                       Inl m \<Rightarrow> (0, releaseAfter now restaurantId nif environment RETRY_MS (markError (take 1000 m) recs s))
                     | Inr resp \<Rightarrow>
                         (length recs, releaseAfter now restaurantId nif environment (max (ar_waitSeconds resp) 60 * 1000)
                            (foldl (settle now resp) s recs)))
                | _ \<Rightarrow> (0, s))
           | _ \<Rightarrow> (0, s))
      | _ \<Rightarrow> (0, s)))"

definition submitChains ::
  "int \<Rightarrow> (string \<Rightarrow> string \<Rightarrow> string option) \<Rightarrow> aeat_sender \<Rightarrow> (string \<times> string \<times> verifactu_env) list \<Rightarrow>
   vf_state \<Rightarrow> nat \<times> vf_state" where
  "submitChains now unseal sender cs s =
     foldl (\<lambda>(n, s) (restaurantId, nif, environment).
        let (k, s') = submitChain now unseal sender restaurantId nif environment s in (n + k, s')) (0, s) cs"

text \<open>\<open>submitAll\<close>: \<open>sending\<close> is the flag that keeps two runs from overlapping.\<close>

definition submitAll ::
  "int \<Rightarrow> (string \<Rightarrow> string \<Rightarrow> string option) \<Rightarrow> aeat_sender \<Rightarrow> bool \<Rightarrow> vf_state \<Rightarrow> nat \<times> vf_state" where
  "submitAll now unseal sender sending s =
     (if sending then (0, s)
      else submitChains now unseal sender
             (uniq (map (\<lambda>r. (fr_restaurantId r, fr_issuerNif r, fr_environment r))
                (filter (\<lambda>r. unsent r \<and> fr_nextAttemptAt r \<le> now) (vf_records s)))) s)"

definition sendNow ::
  "int \<Rightarrow> (string \<Rightarrow> string \<Rightarrow> string option) \<Rightarrow> aeat_sender \<Rightarrow> string \<Rightarrow> string \<Rightarrow> vf_state \<Rightarrow> (nat \<times> vf_state) res" where
  "sendNow now unseal sender restaurantId branchId s =
     ebind (branchOrThrow restaurantId branchId s) (\<lambda>b.
       let nif = to_upper (taxIdOf b);
           s1 = s\<lparr>vf_records := upd_where (\<lambda>r. fr_restaurantId r = restaurantId \<and> fr_issuerNif r = nif \<and> unsent r)
                    (\<lambda>r. r\<lparr>fr_nextAttemptAt := now\<rparr>) (vf_records s)\<rparr>
       in Inr (submitChains now unseal sender [(restaurantId, nif, TEST), (restaurantId, nif, PRODUCTION)] s1))"

end
