(* ===== verification/Order_State.thy ===== *)
theory Order_State
  imports Settlement Marketing Kot_Lifecycle Stock Gift_Cards Referrals Verifactu_Service
begin

text \<open>
  The rows the order service works on: orders with their lines, kitchen tickets, payments and refunds,
  tables, and the states of the components it calls (stock, loyalty points, gift cards, coupons, fiscal
  log), together with the read-only menu and branch settings. Money columns are integer cents, quantities
  integers. A new row takes the next identifier of the runtime, \<open>rt_ids\<close>. Emitted events are kept in the
  order they are sent. Notifications, webhooks and log lines are left out.
\<close>

section \<open>Menu and settings\<close>

record menu_item =
  mi_id :: string
  mi_branchId :: string
  mi_name :: string
  mi_price :: int
  mi_halfPrice :: "int option"
  mi_taxRatePercent :: int
  mi_stationId :: "string option"
  mi_showOnWebsite :: bool

record modifier_row =
  md_id :: string
  md_name :: string
  md_priceAdjustment :: int

record modifier_group =
  mg_branchId :: string
  mg_name :: string
  mg_minSelect :: int
  mg_maxSelect :: int
  mg_isRequired :: bool
  mg_modifierIds :: "string list"

record delivery_zone =
  dz_id :: string
  dz_branchId :: string
  dz_fee :: int
  dz_minOrderAmount :: int
  dz_etaMinutes :: int
  dz_pincodes :: "string list"
  dz_isActive :: bool

text \<open>A branch with the settings of its restaurant that the order service reads.\<close>

record branch_row =
  br_id :: string
  br_taxMode :: tax_mode
  br_autoConfirmOrders :: bool
  br_loyaltyPointValue :: int
  br_loyaltyEarnPerCurrency :: int
  br_maxManualDiscountPercent :: int
  br_requireDiscountReason :: bool
  br_referral :: referral_config

record config =
  cf_branches :: "branch_row list"
  cf_menu :: "menu_item list"
  cf_modifiers :: "modifier_row list"
  cf_links :: "(string \<times> modifier_group) list"
  cf_zones :: "delivery_zone list"
  cf_stockMenu :: "menu_stock_row list"
  cf_combos :: "plan_combo list"
  cf_promotions :: "promotion list"

definition branchOf :: "config \<Rightarrow> string \<Rightarrow> branch_row option" where
  "branchOf cfg branchId = find (\<lambda>b. br_id b = branchId) (cf_branches cfg)"

section \<open>Orders\<close>

record delivery_info =
  dl_zoneId :: "string option"
  dl_address :: "string option"
  dl_pincode :: "string option"
  dl_phone :: "string option"
  dl_lat :: "num option"
  dl_lng :: "num option"
  dl_place :: "string option"
  dl_status :: delivery_status
  dl_etaAt :: "int option"

text \<open>Where an order came from, when it came from outside.\<close>

record order_origin =
  og_clientRequestId :: "string option"
  og_clientRequestHash :: "string option"
  og_integrationKeyId :: "string option"
  og_externalSource :: "string option"
  og_externalOrderId :: "string option"
  og_externalCustomerRef :: "string option"

record cancel_info =
  ci_reason :: "string option"
  ci_at :: int
  ci_by :: string
  ci_source :: cancel_source

record order =
  od_id :: string
  od_branchId :: string
  od_orderNumber :: string
  od_type :: order_type
  od_status :: order_status
  od_channel :: order_channel
  od_acceptance :: acceptance_status
  od_acceptedBy :: "(string \<times> int) option"
  od_tableId :: "string option"
  od_guestCount :: "int option"
  od_guestName :: "string option"
  od_customerId :: "string option"
  od_notes :: "string option"
  od_createdById :: string
  od_createdAt :: int
  od_origin :: order_origin
  od_subtotal :: int
  od_taxAmount :: int
  od_discountAmount :: int
  od_discountEntry :: "(discount_type \<times> int) option"
  od_discountReason :: "string option"
  od_couponCode :: "string option"
  od_promotionName :: "string option"
  od_requestedRedeemPoints :: int
  od_loyaltyPointsRedeemed :: int
  od_loyaltyDiscountAmount :: int
  od_tipAmount :: int
  od_deliveryFee :: int
  od_totalAmount :: int
  od_delivery :: "delivery_info option"
  od_scheduledFor :: "int option"
  od_cancel :: "cancel_info option"
  od_billedAt :: "int option"

record order_item =
  oi_id :: string
  oi_orderId :: string
  oi_menuItemId :: string
  oi_name :: string
  oi_unitPrice :: int
  oi_taxRate :: int
  oi_quantity :: int
  oi_lineTotal :: int
  oi_kitchenNote :: "string option"
  oi_modifiers :: "(string \<times> string \<times> int) list"

record kot =
  kt_id :: string
  kt_orderId :: string
  kt_stationId :: "string option"
  kt_ticketNumber :: string
  kt_status :: kot_status
  kt_isPriority :: bool
  kt_acceptedAt :: "int option"
  kt_acceptedById :: "string option"
  kt_readyAt :: "int option"
  kt_servedAt :: "int option"
  kt_rejected :: "(int \<times> string \<times> string) option"

record kot_item =
  ki_kotId :: string
  ki_orderItemId :: string
  ki_status :: kot_status

record payment =
  py_orderId :: string
  py_method :: payment_method
  py_amount :: int
  py_tendered :: "int option"
  py_changeGiven :: "int option"
  py_reference :: "string option"
  py_createdById :: string
  py_clientRequestId :: "string option"

record refund_row =
  rf_id :: string
  rf_orderId :: string
  rf_amount :: int
  rf_method :: payment_method
  rf_createdById :: string

record stock_return =
  sr_orderItemId :: string
  sr_refundId :: string
  sr_quantity :: int

record table_row =
  tb_id :: string
  tb_branchId :: string
  tb_status :: table_status
  tb_statusSince :: int

datatype event =
    OrderCreated string acceptance_status
  | OrderUpdated string "order_status option"
  | OrderDeleted "string list"
  | KotCreated string
  | KotUpdated string
  | TableUpdated string

record db =
  db_orders :: "order list"
  db_items :: "order_item list"
  db_kots :: "kot list"
  db_kotItems :: "kot_item list"
  db_payments :: "payment list"
  db_refunds :: "refund_row list"
  db_stockReturns :: "stock_return list"
  db_tables :: "table_row list"
  db_points :: points_state
  db_gifts :: gift_state
  db_stock :: stock_state
  db_coupons :: "coupon list"
  db_fiscal :: vf_state
  db_audit :: "(string \<times> string) list"
  db_events :: "event list"
  db_next :: nat

text \<open>What the runtime gives an operation: new identifiers, the time and date, and the fiscal environment.\<close>

record runtime =
  rt_ids :: "nat \<Rightarrow> string"
  rt_now :: int
  rt_datePart :: string
  rt_dayMinute :: "int \<Rightarrow> nat \<times> nat"
  rt_fiscal :: vf_env

definition freshId :: "runtime \<Rightarrow> db \<Rightarrow> string \<times> db" where
  "freshId rt s = (rt_ids rt (db_next s), s\<lparr>db_next := db_next s + 1\<rparr>)"

section \<open>Reading and writing rows\<close>

definition findOrder :: "string \<Rightarrow> string \<Rightarrow> db \<Rightarrow> order option" where
  "findOrder branchId orderId s = find (\<lambda>r. od_id r = orderId \<and> od_branchId r = branchId) (db_orders s)"

definition itemsOf :: "string \<Rightarrow> db \<Rightarrow> order_item list" where
  "itemsOf orderId s = filter (\<lambda>i. oi_orderId i = orderId) (db_items s)"

definition kotsOf :: "string \<Rightarrow> db \<Rightarrow> kot list" where
  "kotsOf orderId s = filter (\<lambda>k. kt_orderId k = orderId) (db_kots s)"

definition paymentsOf :: "string \<Rightarrow> db \<Rightarrow> payment list" where
  "paymentsOf orderId s = filter (\<lambda>p. py_orderId p = orderId) (db_payments s)"

definition updOrders :: "(order \<Rightarrow> bool) \<Rightarrow> (order \<Rightarrow> order) \<Rightarrow> db \<Rightarrow> db" where
  "updOrders P f s = s\<lparr>db_orders := upd_where P f (db_orders s)\<rparr>"

definition updKots :: "(kot \<Rightarrow> bool) \<Rightarrow> (kot \<Rightarrow> kot) \<Rightarrow> db \<Rightarrow> db" where
  "updKots P f s = s\<lparr>db_kots := upd_where P f (db_kots s)\<rparr>"

definition updKotItems :: "(kot_item \<Rightarrow> bool) \<Rightarrow> (kot_item \<Rightarrow> kot_item) \<Rightarrow> db \<Rightarrow> db" where
  "updKotItems P f s = s\<lparr>db_kotItems := upd_where P f (db_kotItems s)\<rparr>"

definition updTables :: "(table_row \<Rightarrow> bool) \<Rightarrow> (table_row \<Rightarrow> table_row) \<Rightarrow> db \<Rightarrow> db" where
  "updTables P f s = s\<lparr>db_tables := upd_where P f (db_tables s)\<rparr>"

definition emit :: "event list \<Rightarrow> db \<Rightarrow> db" where
  "emit es s = s\<lparr>db_events := db_events s @ es\<rparr>"

definition auditRow :: "string \<Rightarrow> string \<Rightarrow> db \<Rightarrow> db" where
  "auditRow action entityId s = s\<lparr>db_audit := db_audit s @ [(action, entityId)]\<rparr>"

text \<open>\<open>getOrder\<close>: the order with its rows.\<close>

record order_view =
  ov_order :: order
  ov_items :: "order_item list"
  ov_kots :: "kot list"
  ov_payments :: "payment list"

definition getOrder :: "string \<Rightarrow> string \<Rightarrow> db \<Rightarrow> order_view res" where
  "getOrder branchId orderId s =
     (case findOrder branchId orderId s of
        None \<Rightarrow> Inl (NotFound ''Order not found'')
      | Some r \<Rightarrow> Inr \<lparr>ov_order = r, ov_items = itemsOf orderId s, ov_kots = kotsOf orderId s,
                        ov_payments = paymentsOf orderId s\<rparr>)"

definition getBranchTaxMode :: "config \<Rightarrow> string \<Rightarrow> tax_mode" where
  "getBranchTaxMode cfg branchId = (case branchOf cfg branchId of None \<Rightarrow> INCLUSIVE | Some b \<Rightarrow> br_taxMode b)"

section \<open>Steps shared by the handlers\<close>

definition setTable :: "runtime \<Rightarrow> string \<Rightarrow> table_status \<Rightarrow> db \<Rightarrow> db res" where
  "setTable rt tableId st s =
     (if count_where (\<lambda>t. tb_id t = tableId) (db_tables s) = 0 then Inl RecordMissing
      else Inr (updTables (\<lambda>t. tb_id t = tableId) (\<lambda>t. t\<lparr>tb_status := st, tb_statusSince := rt_now rt\<rparr>) s))"

text \<open>A table is freed only when no other order is still open on it.\<close>

definition releaseTableIfIdle :: "runtime \<Rightarrow> string option \<Rightarrow> string \<Rightarrow> db \<Rightarrow> db res" where
  "releaseTableIfIdle rt tableId exceptOrderId s =
     (case tableId of
        None \<Rightarrow> Inr s
      | Some t \<Rightarrow>
          if t = '''' then Inr s
          else if count_where (\<lambda>r. od_tableId r = Some t \<and> od_status r = OPEN \<and> od_id r \<noteq> exceptOrderId) (db_orders s) = 0
          then setTable rt t AVAILABLE s
          else Inr s)"

text \<open>A stored line priced again from its own total.\<close>

definition storedLine :: "order_item \<Rightarrow> priced_line" where
  "storedLine i = priceLine \<lparr>quantity = oi_quantity i, unitPriceInclusive = fdiv (cents (oi_lineTotal i)) (of_int (oi_quantity i)),
     taxRatePercent = cents (oi_taxRate i)\<rparr>"

definition setTotals :: "string \<Rightarrow> order_totals \<Rightarrow> db \<Rightarrow> db" where
  "setTotals orderId t s = updOrders (\<lambda>r. od_id r = orderId)
     (\<lambda>r. r\<lparr>od_subtotal := to_column 100 (subtotal t), od_taxAmount := to_column 100 (totalTax t),
            od_totalAmount := to_column 100 (subtotal t)\<rparr>) s"

definition recomputeTotals :: "string \<Rightarrow> db \<Rightarrow> db" where
  "recomputeTotals orderId s =
     setTotals orderId (computeOrderTotals (map storedLine (itemsOf orderId s)) 0 0) s"

definition assertNoPayments :: "string \<Rightarrow> db \<Rightarrow> unit res" where
  "assertNoPayments orderId s =
     (if paymentsOf orderId s \<noteq> []
      then Inl (Conflict ''A payment has already been taken on this bill - settle the balance, or refund, before changing the items'')
      else Inr ())"

definition editableOrder :: "string \<Rightarrow> string \<Rightarrow> db \<Rightarrow> order res" where
  "editableOrder branchId orderId s =
     (case findOrder branchId orderId s of
        None \<Rightarrow> Inl (NotFound ''Order not found'')
      | Some r \<Rightarrow>
          if od_status r \<noteq> OPEN
          then Inl (BadRequest (if od_status r = PAID then ''This bill is paid and cannot be edited - use Refund to correct it''
                                else ''Only an open bill can be edited''))
          else ebind (assertNoPayments orderId s) (\<lambda>_. Inr r))"

section \<open>Kitchen tickets\<close>

definition SCHEDULE_LEAD_MS :: int where "SCHEDULE_LEAD_MS = 25 * 60000"

definition isDeferred :: "runtime \<Rightarrow> int option \<Rightarrow> bool" where
  "isDeferred rt scheduledFor = (case scheduledFor of None \<Rightarrow> False | Some t \<Rightarrow> rt_now rt + SCHEDULE_LEAD_MS < t)"

text \<open>The map from station to its lines, in insertion order.\<close>

fun addToStation :: "string option \<Rightarrow> order_item \<Rightarrow> (string option \<times> order_item list) list \<Rightarrow> (string option \<times> order_item list) list" where
  "addToStation st i [] = [(st, [i])]"
| "addToStation st i ((k, is) # rest) = (if k = st then (k, is @ [i]) # rest else (k, is) # addToStation st i rest)"

definition stationOf :: "config \<Rightarrow> order_item \<Rightarrow> string option" where
  "stationOf cfg i = (case find (\<lambda>m. mi_id m = oi_menuItemId i) (cf_menu cfg) of None \<Rightarrow> None | Some m \<Rightarrow> mi_stationId m)"

definition itemsByStation :: "config \<Rightarrow> order_item list \<Rightarrow> (string option \<times> order_item list) list" where
  "itemsByStation cfg items = foldl (\<lambda>m i. addToStation (stationOf cfg i) i m) [] items"

definition last6 :: "string \<Rightarrow> string" where "last6 x = drop (length x - 6) x"

definition createKot :: "runtime \<Rightarrow> string \<Rightarrow> (string option \<times> order_item list) \<Rightarrow> nat \<Rightarrow> db \<Rightarrow> db" where
  "createKot rt orderId g seq s =
     (let (i, s1) = freshId rt s in
      emit [KotCreated i] (s1\<lparr>db_kots := db_kots s1 @
          [\<lparr>kt_id = i, kt_orderId = orderId, kt_stationId = fst g, kt_ticketNumber = last6 orderId @ ''-'' @ nat_str seq,
            kt_status = NEW, kt_isPriority = False, kt_acceptedAt = None, kt_acceptedById = None, kt_readyAt = None,
            kt_servedAt = None, kt_rejected = None\<rparr>],
        db_kotItems := db_kotItems s1 @ map (\<lambda>x. \<lparr>ki_kotId = i, ki_orderItemId = oi_id x, ki_status = NEW\<rparr>) (snd g)\<rparr>))"

fun createKots :: "runtime \<Rightarrow> string \<Rightarrow> (string option \<times> order_item list) list \<Rightarrow> nat \<Rightarrow> db \<Rightarrow> db" where
  "createKots rt orderId [] seq s = s"
| "createKots rt orderId (g # gs) seq s = createKots rt orderId gs (seq + 1) (createKot rt orderId g seq s)"

text \<open>Ticket numbers go on after the tickets the order already has.\<close>

definition generateKots :: "config \<Rightarrow> runtime \<Rightarrow> string \<Rightarrow> order_item list \<Rightarrow> db \<Rightarrow> db" where
  "generateKots cfg rt orderId items s =
     createKots rt orderId (itemsByStation cfg items) (length (kotsOf orderId s) + 1) s"

end
