(* ===== verification/Lasting_Rows.thy ===== *)
theory Lasting_Rows
  imports Main
begin

text \<open>
  The contract of rows that are final once settled: an operation keeps them as they are, or removes them
  and leaves a trace that stays. \<open>protected_rows\<close> adds a condition under which they are not removed at all.
\<close>

locale lasting_rows =
  fixes rows :: "'s \<Rightarrow> 'r list"
    and settled :: "'r \<Rightarrow> bool"
    and gone :: "'s \<Rightarrow> 'r \<Rightarrow> bool"
    and step :: "'s \<Rightarrow> 's \<Rightarrow> bool"
  assumes step_lasts: "step s t \<Longrightarrow> r \<in> set (rows s) \<Longrightarrow> settled r \<Longrightarrow> r \<in> set (rows t) \<or> gone t r"
    and gone_stays: "step s t \<Longrightarrow> gone s r \<Longrightarrow> gone t r"
begin

lemma run_lasts: "step\<^sup>*\<^sup>* s t \<Longrightarrow> r \<in> set (rows s) \<Longrightarrow> settled r \<Longrightarrow> r \<in> set (rows t) \<or> gone t r"
  by (induction rule: rtranclp_induct) (use step_lasts gone_stays in blast)+

end

locale protected_rows = lasting_rows +
  fixes protected :: "'s \<Rightarrow> 'r \<Rightarrow> bool"
  assumes step_protects: "step s t \<Longrightarrow> r \<in> set (rows s) \<Longrightarrow> settled r \<Longrightarrow> protected s r \<Longrightarrow> r \<in> set (rows t)"
    and protection_stays: "step s t \<Longrightarrow> protected s r \<Longrightarrow> protected t r"
begin

lemma run_protects:
  "step\<^sup>*\<^sup>* s t \<Longrightarrow> r \<in> set (rows s) \<Longrightarrow> settled r \<Longrightarrow> protected s r \<Longrightarrow> r \<in> set (rows t) \<and> protected t r"
  by (induction rule: rtranclp_induct) (use step_protects protection_stays in blast)+

end

end
