(* ===== verification/Delivery.thy ===== *)
theory Delivery
  imports Order_State Lasting_Rows
begin

text \<open>
  Deliveries (\<open>modules/delivery\<close>, \<open>modules/rider\<close>): zones and their pincodes, the assignment of a rider, the status
  of a delivery by the dispatcher and by the rider, and the rider's duty. Of an order only the columns of its
  delivery are here; addresses, notifications and the listings are left out.
\<close>

section \<open>The rows\<close>

record delivery_row =
  dv_id :: string
  dv_branchId :: string
  dv_type :: order_type
  dv_status :: "delivery_status option"
  dv_driverId :: "string option"
  dv_assignedAt :: "int option"
  dv_pickedUpAt :: "int option"
  dv_deliveredAt :: "int option"
  dv_failedReason :: "string option"

record rider_row =
  ri_id :: string
  ri_isActive :: bool
  ri_branches :: "string list"
  ri_online :: bool
  ri_position :: "(num \<times> num \<times> int) option"

record dispatch =
  dp_orders :: "delivery_row list"
  dp_zones :: "delivery_zone list"
  dp_staff :: "rider_row list"

section \<open>Zones\<close>

text \<open>The fields of an update that are given.\<close>

record zone_update =
  zu_fee :: "num option"
  zu_minOrderAmount :: "num option"
  zu_etaMinutes :: "int option"
  zu_pincodes :: "string list option"
  zu_isActive :: "bool option"

definition assertPincodesFree :: "string \<Rightarrow> string list \<Rightarrow> string option \<Rightarrow> dispatch \<Rightarrow> unit res" where
  "assertPincodesFree branchId pincodes exceptId s =
     (if list_ex (\<lambda>z. dz_branchId z = branchId \<and> dz_isActive z \<and> list_ex (\<lambda>p. p \<in> set pincodes) (dz_pincodes z) \<and>
           Some (dz_id z) \<noteq> exceptId) (dp_zones s)
      then Inl (BadRequest ''A pincode is already covered by the zone'') else Inr ())"

definition createZone :: "delivery_zone \<Rightarrow> dispatch \<Rightarrow> dispatch res" where
  "createZone z s =
     ebind (assertPincodesFree (dz_branchId z) (dz_pincodes z) None s) (\<lambda>_. Inr (s\<lparr>dp_zones := dp_zones s @ [z]\<rparr>))"

definition getZone :: "string \<Rightarrow> string \<Rightarrow> dispatch \<Rightarrow> delivery_zone res" where
  "getZone branchId i s =
     (case find (\<lambda>z. dz_id z = i \<and> dz_branchId z = branchId) (dp_zones s) of
        None \<Rightarrow> Inl (NotFound ''Delivery zone not found'') | Some z \<Rightarrow> Inr z)"

definition applyZone :: "zone_update \<Rightarrow> delivery_zone \<Rightarrow> delivery_zone" where
  "applyZone u z = z\<lparr>dz_fee := (case zu_fee u of None \<Rightarrow> dz_fee z | Some v \<Rightarrow> to_column 100 v),
     dz_minOrderAmount := (case zu_minOrderAmount u of None \<Rightarrow> dz_minOrderAmount z | Some v \<Rightarrow> to_column 100 v),
     dz_etaMinutes := (case zu_etaMinutes u of None \<Rightarrow> dz_etaMinutes z | Some v \<Rightarrow> v),
     dz_pincodes := (case zu_pincodes u of None \<Rightarrow> dz_pincodes z | Some v \<Rightarrow> v),
     dz_isActive := (case zu_isActive u of None \<Rightarrow> dz_isActive z | Some v \<Rightarrow> v)\<rparr>"

definition updateZone :: "string \<Rightarrow> string \<Rightarrow> zone_update \<Rightarrow> dispatch \<Rightarrow> dispatch res" where
  "updateZone branchId i u s =
     ebind (getZone branchId i s) (\<lambda>_.
     ebind (case zu_pincodes u of None \<Rightarrow> Inr () | Some ps \<Rightarrow> assertPincodesFree branchId ps (Some i) s) (\<lambda>_.
     Inr (s\<lparr>dp_zones := upd_where (\<lambda>z. dz_id z = i) (applyZone u) (dp_zones s)\<rparr>)))"

definition deleteZone :: "string \<Rightarrow> string \<Rightarrow> dispatch \<Rightarrow> dispatch res" where
  "deleteZone branchId i s =
     ebind (getZone branchId i s) (\<lambda>_. Inr (s\<lparr>dp_zones := del_where (\<lambda>z. dz_id z = i) (dp_zones s)\<rparr>))"

text \<open>Fee, least order and minutes for a pincode, of the zone found first.\<close>

definition quote :: "string \<Rightarrow> string \<Rightarrow> dispatch \<Rightarrow> (num \<times> num \<times> int) option" where
  "quote branchId pincode s =
     map_option (\<lambda>z. (cents (dz_fee z), cents (dz_minOrderAmount z), dz_etaMinutes z))
       (find (\<lambda>z. dz_branchId z = branchId \<and> dz_isActive z \<and> pincode \<in> set (dz_pincodes z)) (dp_zones s))"

section \<open>Deliveries\<close>

fun nextDelivery :: "delivery_status \<Rightarrow> delivery_status list" where
  "nextDelivery UNASSIGNED = [ASSIGNED, FAILED]"
| "nextDelivery ASSIGNED = [PICKED_UP, UNASSIGNED, FAILED]"
| "nextDelivery PICKED_UP = [DELIVERED, FAILED]"
| "nextDelivery DELIVERED = []"
| "nextDelivery FAILED = [UNASSIGNED]"

definition getDelivery :: "string \<Rightarrow> string \<Rightarrow> dispatch \<Rightarrow> delivery_row res" where
  "getDelivery branchId i s =
     (case find (\<lambda>d. dv_id d = i \<and> dv_branchId d = branchId \<and> dv_type d = DELIVERY) (dp_orders s) of
        None \<Rightarrow> Inl (NotFound ''Delivery order not found'') | Some d \<Rightarrow> Inr d)"

definition saveDelivery :: "string \<Rightarrow> (delivery_row \<Rightarrow> delivery_row) \<Rightarrow> dispatch \<Rightarrow> dispatch" where
  "saveDelivery i f s = s\<lparr>dp_orders := upd_where (\<lambda>d. dv_id d = i) f (dp_orders s)\<rparr>"

text \<open>What is read and what is written are separate statements.\<close>

definition assignRead :: "string \<Rightarrow> string \<Rightarrow> string \<Rightarrow> dispatch \<Rightarrow> unit res" where
  "assignRead branchId i driverId s =
     ebind (getDelivery branchId i s) (\<lambda>d.
     if dv_status d \<noteq> Some UNASSIGNED \<and> dv_status d \<noteq> Some ASSIGNED
     then Inl (BadRequest ''This delivery can no longer be reassigned'')
     else if \<not> list_ex (\<lambda>u. ri_id u = driverId \<and> ri_isActive u \<and> branchId \<in> set (ri_branches u)) (dp_staff s)
     then Inl (BadRequest ''Driver not found for this branch'') else Inr ())"

definition assignWrite :: "int \<Rightarrow> string \<Rightarrow> string \<Rightarrow> dispatch \<Rightarrow> dispatch" where
  "assignWrite now i driverId =
     saveDelivery i (\<lambda>d. d\<lparr>dv_driverId := Some driverId, dv_status := Some ASSIGNED, dv_assignedAt := Some now\<rparr>)"

definition assignDriver :: "int \<Rightarrow> string \<Rightarrow> string \<Rightarrow> string \<Rightarrow> dispatch \<Rightarrow> dispatch res" where
  "assignDriver now branchId i driverId s =
     ebind (assignRead branchId i driverId s) (\<lambda>_. Inr (assignWrite now i driverId s))"

definition statusRead :: "string \<Rightarrow> string \<Rightarrow> delivery_status \<Rightarrow> dispatch \<Rightarrow> unit res" where
  "statusRead branchId i status s =
     ebind (getDelivery branchId i s) (\<lambda>d.
     let current = (case dv_status d of None \<Rightarrow> UNASSIGNED | Some x \<Rightarrow> x) in
     if status \<notin> set (nextDelivery current) then Inl (BadRequest ''Cannot move'')
     else if status = PICKED_UP \<and> (dv_driverId d = None \<or> dv_driverId d = Some '''')
     then Inl (BadRequest ''Assign a driver first'') else Inr ())"

definition statusWrite :: "int \<Rightarrow> string \<Rightarrow> delivery_status \<Rightarrow> string option \<Rightarrow> dispatch \<Rightarrow> dispatch" where
  "statusWrite now i status reason =
     saveDelivery i (\<lambda>d. d\<lparr>dv_status := Some status,
       dv_driverId := (if status = UNASSIGNED then None else dv_driverId d),
       dv_pickedUpAt := (if status = PICKED_UP then Some now else dv_pickedUpAt d),
       dv_deliveredAt := (if status = DELIVERED then Some now else dv_deliveredAt d),
       dv_failedReason := (if status = FAILED then map_option (take 200) reason else dv_failedReason d)\<rparr>)"

definition setDeliveryStatus ::
  "int \<Rightarrow> string \<Rightarrow> string \<Rightarrow> delivery_status \<Rightarrow> string option \<Rightarrow> dispatch \<Rightarrow> dispatch res" where
  "setDeliveryStatus now branchId i status reason s =
     ebind (statusRead branchId i status s) (\<lambda>_. Inr (statusWrite now i status reason s))"

section \<open>Riders\<close>

text \<open>A rider moves only its own deliveries, and says why one failed.\<close>

definition riderStatus :: "int \<Rightarrow> string \<Rightarrow> string \<Rightarrow> delivery_status \<Rightarrow> string option \<Rightarrow> dispatch \<Rightarrow> dispatch res" where
  "riderStatus now userId i status reason s =
     (case find (\<lambda>d. dv_id d = i \<and> dv_type d = DELIVERY \<and> dv_driverId d = Some userId) (dp_orders s) of
        None \<Rightarrow> Inl (NotFound ''Delivery not found'')
      | Some d \<Rightarrow>
          if status = FAILED \<and> (reason = None \<or> trim (the reason) = '''')
          then Inl (BadRequest ''Say why the delivery could not be completed'')
          else setDeliveryStatus now (dv_branchId d) i status (map_option trim reason) s)"

definition activeOf :: "string \<Rightarrow> dispatch \<Rightarrow> nat" where
  "activeOf userId s = count_where (\<lambda>d. dv_driverId d = Some userId \<and> dv_status d \<in> {Some ASSIGNED, Some PICKED_UP}) (dp_orders s)"

definition setDuty :: "string \<Rightarrow> bool \<Rightarrow> dispatch \<Rightarrow> dispatch res" where
  "setDuty userId online s =
     (if \<not> online \<and> 0 < activeOf userId s then Inl (Conflict ''Finish your active deliveries before going offline'')
      else Inr (s\<lparr>dp_staff := upd_where (\<lambda>u. ri_id u = userId) (\<lambda>u. u\<lparr>ri_online := online\<rparr>) (dp_staff s)\<rparr>))"

definition setLocation :: "int \<Rightarrow> string \<Rightarrow> num \<Rightarrow> num \<Rightarrow> dispatch \<Rightarrow> dispatch" where
  "setLocation now userId lat lng s =
     s\<lparr>dp_staff := upd_where (\<lambda>u. ri_id u = userId \<and> ri_online u) (\<lambda>u. u\<lparr>ri_position := Some (lat, lng, now)\<rparr>) (dp_staff s)\<rparr>"


section \<open>Runs\<close>

text \<open>One request after the other.\<close>

inductive dispatch_step :: "dispatch \<Rightarrow> dispatch \<Rightarrow> bool" where
  assigned: "keyed dv_id (dp_orders s) \<Longrightarrow> assignDriver now b i u s = Inr t \<Longrightarrow> dispatch_step s t"
| moved: "keyed dv_id (dp_orders s) \<Longrightarrow> setDeliveryStatus now b i st r s = Inr t \<Longrightarrow> dispatch_step s t"
| moved_by_rider: "keyed dv_id (dp_orders s) \<Longrightarrow> riderStatus now u i st r s = Inr t \<Longrightarrow> dispatch_step s t"
| duty: "keyed dv_id (dp_orders s) \<Longrightarrow> setDuty u on s = Inr t \<Longrightarrow> dispatch_step s t"
| located: "keyed dv_id (dp_orders s) \<Longrightarrow> dispatch_step s (setLocation now u lat lng s)"
| zone_made: "keyed dv_id (dp_orders s) \<Longrightarrow> createZone z s = Inr t \<Longrightarrow> dispatch_step s t"
| zone_changed: "keyed dv_id (dp_orders s) \<Longrightarrow> updateZone b i zu s = Inr t \<Longrightarrow> dispatch_step s t"
| zone_gone: "keyed dv_id (dp_orders s) \<Longrightarrow> deleteZone b i s = Inr t \<Longrightarrow> dispatch_step s t"

definition stateOf :: "delivery_row \<Rightarrow> delivery_status" where
  "stateOf d = (case dv_status d of None \<Rightarrow> UNASSIGNED | Some x \<Rightarrow> x)"

text \<open>A move of the machine; a waiting delivery may be given to another rider.\<close>

definition delivery_move :: "delivery_row \<Rightarrow> delivery_row \<Rightarrow> bool" where
  "delivery_move d d' \<longleftrightarrow> dv_id d' = dv_id d \<and> dv_branchId d' = dv_branchId d \<and> dv_status d' \<noteq> None \<and>
     (stateOf d' \<in> set (nextDelivery (stateOf d)) \<or> stateOf d' = ASSIGNED \<and> stateOf d \<in> {UNASSIGNED, ASSIGNED})"

text \<open>Somebody carries what was picked up, and what was delivered has its time.\<close>

definition carried_ok :: "delivery_row \<Rightarrow> bool" where
  "carried_ok d \<longleftrightarrow> (stateOf d \<in> {PICKED_UP, DELIVERED} \<longrightarrow> dv_driverId d \<noteq> None) \<and>
     (stateOf d = DELIVERED \<longrightarrow> dv_deliveredAt d \<noteq> None)"

definition lawful_dispatch :: "dispatch \<Rightarrow> dispatch \<Rightarrow> bool" where
  "lawful_dispatch s t \<longleftrightarrow> (\<exists>f. dp_orders t = map f (dp_orders s) \<and>
     (\<forall>d \<in> set (dp_orders s). f d = d \<or> delivery_move d (f d) \<and> (carried_ok d \<longrightarrow> carried_ok (f d))))"

lemma dispatch_same: "dp_orders t = dp_orders s \<Longrightarrow> lawful_dispatch s t"
  unfolding lawful_dispatch_def by (intro exI[of _ id]) simp

lemma dispatch_save:
  assumes "keyed dv_id (dp_orders s)" "d \<in> set (dp_orders s)" "dv_id d = i"
    "delivery_move d (f d)" "carried_ok d \<longrightarrow> carried_ok (f d)"
  shows "lawful_dispatch s (saveDelivery i f s)"
proof -
  have "x = d" if "x \<in> set (dp_orders s)" "dv_id x = i" for x
    using keyed_unique[OF assms(1) that(1) assms(2)] that(2) assms(3) by simp
  then show ?thesis unfolding lawful_dispatch_def
    by (intro exI[of _ "\<lambda>x. if dv_id x = i then f x else x"]) (use assms(4,5) in \<open>auto simp: saveDelivery_def upd_where_def\<close>)
qed

lemma getDelivery_Inr: "getDelivery b i s = Inr d \<Longrightarrow> d \<in> set (dp_orders s) \<and> dv_id d = i"
  by (auto simp: getDelivery_def dest: find_SomeD split: option.splits)

lemma assign_lawful: "assignDriver now b i u s = Inr t \<Longrightarrow> keyed dv_id (dp_orders s) \<Longrightarrow> lawful_dispatch s t"
proof -
  assume a: "assignDriver now b i u s = Inr t" "keyed dv_id (dp_orders s)"
  then obtain d where d: "getDelivery b i s = Inr d" "dv_status d = Some UNASSIGNED \<or> dv_status d = Some ASSIGNED"
    and t: "t = assignWrite now i u s"
    by (auto simp: assignDriver_def assignRead_def ebind_Inr_iff split: if_splits)
  show ?thesis unfolding t assignWrite_def
    by (rule dispatch_save[OF a(2)]) (use getDelivery_Inr[OF d(1)] d(2) in \<open>auto simp: delivery_move_def carried_ok_def stateOf_def\<close>)
qed

lemma status_lawful: "setDeliveryStatus now b i st r s = Inr t \<Longrightarrow> keyed dv_id (dp_orders s) \<Longrightarrow> lawful_dispatch s t"
proof -
  assume a: "setDeliveryStatus now b i st r s = Inr t" "keyed dv_id (dp_orders s)"
  then obtain d where d: "getDelivery b i s = Inr d" "st \<in> set (nextDelivery (stateOf d))" "st = PICKED_UP \<longrightarrow> dv_driverId d \<noteq> None"
    and t: "t = statusWrite now i st r s"
    by (auto simp: setDeliveryStatus_def statusRead_def ebind_Inr_iff Let_def stateOf_def split: if_splits)
  have "stateOf d = PICKED_UP" if "st = DELIVERED" using d(2) that by (cases "stateOf d") auto
  then show ?thesis unfolding t statusWrite_def
    by (intro dispatch_save[OF a(2)]) (use getDelivery_Inr[OF d(1)] d(2,3) in \<open>auto simp: delivery_move_def carried_ok_def stateOf_def\<close>)
qed

lemma dispatch_step_lawful: "dispatch_step s t \<Longrightarrow> lawful_dispatch s t"
proof (induction rule: dispatch_step.induct)
  case (moved_by_rider s now u i st r t)
  then obtain b where "setDeliveryStatus now b i st (map_option trim r) s = Inr t"
    by (auto simp: riderStatus_def split: option.splits if_splits)
  then show ?case using moved_by_rider(1) by (rule status_lawful)
next
  case (assigned s now b i u t)
  then show ?case by (intro assign_lawful)
next
  case (moved s now b i st r t)
  then show ?case by (intro status_lawful)
qed (auto intro!: dispatch_same simp: setDuty_def setLocation_def createZone_def updateZone_def
  deleteZone_def ebind_Inr_iff split: if_splits)

interpretation delivered: lasting_rows dp_orders "\<lambda>d. stateOf d = DELIVERED" "\<lambda>_ _. False" dispatch_step
proof
  fix s t r assume a: "dispatch_step s t" "r \<in> set (dp_orders s)" "stateOf r = DELIVERED"
  obtain f where "dp_orders t = map f (dp_orders s)" "f r = r \<or> delivery_move r (f r)"
    using dispatch_step_lawful[OF a(1)] a(2) unfolding lawful_dispatch_def by blast
  moreover have "\<not> delivery_move r x" for x using a(3) by (simp add: delivery_move_def)
  ultimately show "r \<in> set (dp_orders t) \<or> False" using a(2) by (metis image_eqI set_map)
qed simp

lemma run_carried_ok:
  "dispatch_step\<^sup>*\<^sup>* s t \<Longrightarrow> \<forall>d \<in> set (dp_orders s). carried_ok d \<Longrightarrow> \<forall>d \<in> set (dp_orders t). carried_ok d"
proof (induction rule: rtranclp_induct)
  case (step t u)
  obtain f where "dp_orders u = map f (dp_orders t)"
    "\<forall>d \<in> set (dp_orders t). f d = d \<or> delivery_move d (f d) \<and> (carried_ok d \<longrightarrow> carried_ok (f d))"
    using dispatch_step_lawful[OF step(2)] unfolding lawful_dispatch_def by blast
  then show ?case using step(3)[OF step(4)] by fastforce
qed simp


text \<open>Whatever the dispatcher and the riders ask for, one request after the other: what was picked up has a rider,
  what was delivered keeps its row.\<close>

lemma deliveries_last:
  assumes "dispatch_step\<^sup>*\<^sup>* s t" "\<forall>d \<in> set (dp_orders s). carried_ok d"
  shows "(\<forall>d \<in> set (dp_orders t). carried_ok d) \<and> (\<forall>d \<in> set (dp_orders s). stateOf d = DELIVERED \<longrightarrow> d \<in> set (dp_orders t))"
  using run_carried_ok[OF assms] delivered.run_lasts[OF assms(1)] by blast

section \<open>Pincodes\<close>

text \<open>No pincode is covered by two active zones of a branch.\<close>

definition zones_ok :: "delivery_zone list \<Rightarrow> bool" where
  "zones_ok zs \<longleftrightarrow> keyed dz_id zs \<and> (\<forall>z \<in> set zs. \<forall>z' \<in> set zs. dz_isActive z \<longrightarrow> dz_isActive z' \<longrightarrow> dz_branchId z = dz_branchId z' \<longrightarrow>
     dz_id z \<noteq> dz_id z' \<longrightarrow> set (dz_pincodes z) \<inter> set (dz_pincodes z') = {})"

lemma assertPincodesFree_Inr:
  "assertPincodesFree b ps ex s = Inr () \<longleftrightarrow> (\<forall>z \<in> set (dp_zones s). dz_branchId z = b \<longrightarrow> dz_isActive z \<longrightarrow> Some (dz_id z) \<noteq> ex \<longrightarrow>
     set (dz_pincodes z) \<inter> set ps = {})"
  by (auto simp: assertPincodesFree_def list_ex_iff)

lemma applyZone_sel [simp]:
  "dz_id (applyZone u z) = dz_id z" "dz_branchId (applyZone u z) = dz_branchId z"
  "dz_pincodes (applyZone u z) = (case zu_pincodes u of None \<Rightarrow> dz_pincodes z | Some v \<Rightarrow> v)"
  "dz_isActive (applyZone u z) = (case zu_isActive u of None \<Rightarrow> dz_isActive z | Some v \<Rightarrow> v)"
  by (simp_all add: applyZone_def)

lemma createZone_ok: "createZone z s = Inr t \<Longrightarrow> dz_id z \<notin> dz_id ` set (dp_zones s) \<Longrightarrow> zones_ok (dp_zones s) \<Longrightarrow> zones_ok (dp_zones t)"
proof -
  assume a: "createZone z s = Inr t" "dz_id z \<notin> dz_id ` set (dp_zones s)" "zones_ok (dp_zones s)"
  have free: "\<forall>x \<in> set (dp_zones s). dz_branchId x = dz_branchId z \<longrightarrow> dz_isActive x \<longrightarrow> set (dz_pincodes x) \<inter> set (dz_pincodes z) = {}"
    using a(1) assertPincodesFree_Inr[of "dz_branchId z" "dz_pincodes z" None s] by (auto simp: createZone_def ebind_Inr_iff)
  have t: "dp_zones t = dp_zones s @ [z]" using a(1) by (auto simp: createZone_def ebind_Inr_iff)
  show ?thesis using a(2,3) free unfolding zones_ok_def t by (auto simp: keyed_snoc)
qed

lemma deleteZone_ok: "deleteZone b i s = Inr t \<Longrightarrow> zones_ok (dp_zones s) \<Longrightarrow> zones_ok (dp_zones t)"
proof -
  assume a: "deleteZone b i s = Inr t" "zones_ok (dp_zones s)"
  then have "dp_zones t = del_where (\<lambda>z. dz_id z = i) (dp_zones s)" by (auto simp: deleteZone_def ebind_Inr_iff)
  then have "keyed dz_id (dp_zones t)" "set (dp_zones t) \<subseteq> set (dp_zones s)"
    using a(2) by (auto simp: zones_ok_def del_where_def intro: keyed_filter)
  then show ?thesis using a(2) unfolding zones_ok_def by (meson subsetD)
qed

text \<open>An update keeps this when it names the pincodes, or does not switch the zone on.\<close>

lemma updateZone_ok:
  assumes "updateZone b i u s = Inr t" "zones_ok (dp_zones s)" "zu_pincodes u \<noteq> None \<or> zu_isActive u \<noteq> Some True"
  shows "zones_ok (dp_zones t)"
proof -
  have t: "dp_zones t = upd_where (\<lambda>z. dz_id z = i) (applyZone u) (dp_zones s)"
    using assms(1) by (auto simp: updateZone_def ebind_Inr_iff)
  obtain z where z: "z \<in> set (dp_zones s)" "dz_id z = i" "dz_branchId z = b"
    using assms(1) by (auto simp: updateZone_def getZone_def ebind_Inr_iff dest: find_SomeD split: option.splits)
  have k: "keyed dz_id (dp_zones s)" using assms(2) by (simp add: zones_ok_def)
  have only: "x = z" if "x \<in> set (dp_zones s)" "dz_id x = i" for x using keyed_unique[OF k that(1) z(1)] that(2) z(2) by simp
  have new: "set (dz_pincodes x) \<inter> set (dz_pincodes (applyZone u z)) = {}"
    if "x \<in> set (dp_zones s)" "dz_id x \<noteq> i" "dz_isActive x" "dz_isActive (applyZone u z)" "dz_branchId x = b" for x
  proof (cases "zu_pincodes u")
    case None
    then have "dz_isActive z" using assms(3) that(4) by (auto split: option.splits)
    then show ?thesis using assms(2) that z None by (auto simp: zones_ok_def)
  next
    case (Some ps)
    then have "assertPincodesFree b ps (Some i) s = Inr ()" using assms(1) by (auto simp: updateZone_def ebind_Inr_iff)
    then show ?thesis using that Some by (auto simp: assertPincodesFree_Inr)
  qed
  have "keyed dz_id (dp_zones t)" unfolding t using k by (simp add: keyed_upd_where)
  moreover have "set (dz_pincodes x) \<inter> set (dz_pincodes y) = {}"
    if xy: "x \<in> set (dp_zones t)" "y \<in> set (dp_zones t)" "dz_isActive x" "dz_isActive y" "dz_branchId x = dz_branchId y" "dz_id x \<noteq> dz_id y" for x y
  proof -
    have "x = applyZone u z \<or> x \<in> set (dp_zones s) \<and> dz_id x \<noteq> i" "y = applyZone u z \<or> y \<in> set (dp_zones s) \<and> dz_id y \<noteq> i"
      using xy(1,2) only unfolding t by (auto simp: set_upd_where)
    then show ?thesis using new[of x] new[of y] xy z assms(2) unfolding zones_ok_def by (metis applyZone_sel(1,2) inf_commute)
  qed
  ultimately show ?thesis by (auto simp: zones_ok_def)
qed

section \<open>Where the code falls short\<close>

definition sample_dispatch :: dispatch where
  "sample_dispatch = \<lparr>dp_orders = [\<lparr>dv_id = ''o1'', dv_branchId = ''b'', dv_type = DELIVERY, dv_status = Some ASSIGNED,
       dv_driverId = Some ''r1'', dv_assignedAt = Some 1, dv_pickedUpAt = None, dv_deliveredAt = None, dv_failedReason = None\<rparr>],
     dp_zones = [\<lparr>dz_id = ''z1'', dz_branchId = ''b'', dz_fee = 200, dz_minOrderAmount = 0, dz_etaMinutes = 30,
                  dz_pincodes = [''28001''], dz_isActive = True\<rparr>,
                 \<lparr>dz_id = ''z2'', dz_branchId = ''b'', dz_fee = 500, dz_minOrderAmount = 0, dz_etaMinutes = 45,
                  dz_pincodes = [''28001''], dz_isActive = False\<rparr>],
     dp_staff = [\<lparr>ri_id = ''r1'', ri_isActive = True, ri_branches = [''b''], ri_online = True, ri_position = None\<rparr>,
                 \<lparr>ri_id = ''r2'', ri_isActive = True, ri_branches = [''b''], ri_online = False, ri_position = None\<rparr>]\<rparr>"

text \<open>Switching a zone on again does not look at its pincodes.\<close>

lemma reactivated_zone_clashes:
  "zones_ok (dp_zones sample_dispatch)"
  "\<exists>t. updateZone ''b'' ''z2'' \<lparr>zu_fee = None, zu_minOrderAmount = None, zu_etaMinutes = None, zu_pincodes = None, zu_isActive = Some True\<rparr>
     sample_dispatch = Inr t \<and> \<not> zones_ok (dp_zones t)"
proof -
  show "zones_ok (dp_zones sample_dispatch)" by (simp add: zones_ok_def sample_dispatch_def keyed_def)
  show "\<exists>t. updateZone ''b'' ''z2'' \<lparr>zu_fee = None, zu_minOrderAmount = None, zu_etaMinutes = None, zu_pincodes = None,
      zu_isActive = Some True\<rparr> sample_dispatch = Inr t \<and> \<not> zones_ok (dp_zones t)"
    by (simp add: updateZone_def getZone_def sample_dispatch_def upd_where_def zones_ok_def applyZone_def)
qed

text \<open>An assignment that read the delivery before it went out writes over whatever happened since: a delivered
  order is waiting at another rider, who need not be on duty.\<close>

lemma late_assignment_reopens:
  "\<exists>s1 s2. assignRead ''b'' ''o1'' ''r2'' sample_dispatch = Inr () \<and>
     riderStatus 5 ''r1'' ''o1'' PICKED_UP None sample_dispatch = Inr s1 \<and> riderStatus 9 ''r1'' ''o1'' DELIVERED None s1 = Inr s2 \<and>
     map dv_status (dp_orders (assignWrite 10 ''o1'' ''r2'' s2)) = [Some ASSIGNED] \<and>
     map dv_driverId (dp_orders (assignWrite 10 ''o1'' ''r2'' s2)) = [Some ''r2'']"
  by (simp add: assignRead_def getDelivery_def sample_dispatch_def riderStatus_def setDeliveryStatus_def statusRead_def statusWrite_def
    saveDelivery_def upd_where_def assignWrite_def)

text \<open>The dispatcher may set a delivery to ASSIGNED with no rider on it.\<close>

lemma assigned_to_nobody:
  "\<exists>s1 s2. setDeliveryStatus 5 ''b'' ''o1'' UNASSIGNED None sample_dispatch = Inr s1 \<and>
     setDeliveryStatus 6 ''b'' ''o1'' ASSIGNED None s1 = Inr s2 \<and>
     map (\<lambda>d. (dv_status d, dv_driverId d)) (dp_orders s2) = [(Some ASSIGNED, None)]"
  by (simp add: getDelivery_def sample_dispatch_def setDeliveryStatus_def statusRead_def statusWrite_def saveDelivery_def upd_where_def)

end
