(* ===== verification/Day_Closing.thy ===== *)
theory Day_Closing
  imports Settlement "HOL-Library.AList"
begin

text \<open>
  The till at the end of the day (\<open>modules/accounting\<close>, \<open>common/time.ts\<close>): expenses, what the till should hold,
  the closing of a day, and the tax summary. A calendar date is the number of its day, an instant is in
  milliseconds. Of payments, refunds and expenses the closing reads branch, method, amount and time; notes and
  the reports over a period are left out.
\<close>

section \<open>Days\<close>

definition dayMs :: int where "dayMs = 86400000"

definition dayStart :: "int \<Rightarrow> int" where "dayStart d = d * dayMs"

text \<open>The offset of the time zone at an instant is given; two passes settle it around a change of the clocks.\<close>

definition zonedDayStart :: "(int \<Rightarrow> int) \<Rightarrow> int \<Rightarrow> int" where
  "zonedDayStart offset d = (let wall = dayStart d; first = wall - offset wall in wall - offset first)"

definition dayRange :: "(int \<Rightarrow> int) \<Rightarrow> int \<Rightarrow> int \<Rightarrow> int \<times> int" where
  "dayRange offset d1 d2 = (zonedDayStart offset d1, zonedDayStart offset (d2 + 1))"

section \<open>The rows\<close>

text \<open>Payments and refunds, with the branch of their order.\<close>

record till_row =
  tl_branchId :: string
  tl_method :: payment_method
  tl_amount :: int
  tl_createdAt :: int

record expense =
  ex_id :: string
  ex_branchId :: string
  ex_spentOn :: int
  ex_category :: string
  ex_amount :: int
  ex_paidFromCash :: bool
  ex_createdById :: string

record cash_closing =
  cc_id :: string
  cc_branchId :: string
  cc_businessDate :: int
  cc_openingFloat :: int
  cc_cashSales :: int
  cc_cashExpenses :: int
  cc_expectedCash :: int
  cc_countedCash :: int
  cc_variance :: int
  cc_closedById :: string

record till =
  ti_payments :: "till_row list"
  ti_refunds :: "till_row list"
  ti_expenses :: "expense list"
  ti_closings :: "cash_closing list"

section \<open>Expenses\<close>

record expense_dto =
  xd_spentOn :: int
  xd_category :: string
  xd_amount :: num
  xd_paidFromCash :: bool

definition createExpense :: "string \<Rightarrow> string \<Rightarrow> string \<Rightarrow> expense_dto \<Rightarrow> till \<Rightarrow> expense \<times> till" where
  "createExpense i branchId userId d s =
     (let row = \<lparr>ex_id = i, ex_branchId = branchId, ex_spentOn = xd_spentOn d, ex_category = xd_category d,
                 ex_amount = to_column 100 (xd_amount d), ex_paidFromCash = xd_paidFromCash d, ex_createdById = userId\<rparr>
      in (row, s\<lparr>ti_expenses := ti_expenses s @ [row]\<rparr>))"

definition closingOf :: "string \<Rightarrow> int \<Rightarrow> till \<Rightarrow> cash_closing option" where
  "closingOf branchId d s = find (\<lambda>c. cc_branchId c = branchId \<and> cc_businessDate c = d) (ti_closings s)"

definition deleteExpense :: "string \<Rightarrow> string \<Rightarrow> till \<Rightarrow> till res" where
  "deleteExpense branchId i s =
     (case find (\<lambda>x. ex_id x = i \<and> ex_branchId x = branchId) (ti_expenses s) of
        None \<Rightarrow> Inl (NotFound ''Expense not found'')
      | Some x \<Rightarrow>
          if closingOf branchId (ex_spentOn x) s \<noteq> None \<and> ex_paidFromCash x
          then Inl (BadRequest ''That day is already closed'')
          else Inr (s\<lparr>ti_expenses := del_where (\<lambda>y. ex_id y = i) (ti_expenses s)\<rparr>))"

section \<open>Closing a day\<close>

definition expectedCash :: "num \<Rightarrow> num \<Rightarrow> num \<Rightarrow> num \<Rightarrow> num" where
  "expectedCash openingFloat cashSales cashRefunds cashExpenses =
     round2 (fsub (fsub (fadd openingFloat cashSales) cashRefunds) cashExpenses)"

text \<open>The sums of the database are exact.\<close>

definition cashIn :: "string \<Rightarrow> int \<times> int \<Rightarrow> till_row list \<Rightarrow> int" where
  "cashIn branchId rng rows = sum_list (map tl_amount (filter (\<lambda>r. tl_method r = CASH \<and> tl_branchId r = branchId \<and>
     fst rng \<le> tl_createdAt r \<and> tl_createdAt r < snd rng) rows))"

definition cashSpent :: "string \<Rightarrow> int \<Rightarrow> expense list \<Rightarrow> int" where
  "cashSpent branchId d xs = sum_list (map ex_amount (filter (\<lambda>x. ex_branchId x = branchId \<and> ex_spentOn x = d \<and> ex_paidFromCash x) xs))"

record closing_preview =
  vw_cashSales :: num
  vw_cashExpenses :: num
  vw_expectedCash :: num

definition closingPreview :: "(int \<Rightarrow> int) \<Rightarrow> string \<Rightarrow> int \<Rightarrow> num \<Rightarrow> till \<Rightarrow> closing_preview" where
  "closingPreview offset branchId d openingFloat s =
     (let rng = dayRange offset d d;
          cashSales = cents (cashIn branchId rng (ti_payments s));
          cashRefunds = cents (cashIn branchId rng (ti_refunds s));
          cashExpenses = cents (cashSpent branchId d (ti_expenses s))
      in \<lparr>vw_cashSales = round2 (fsub cashSales cashRefunds), vw_cashExpenses = round2 cashExpenses,
          vw_expectedCash = expectedCash openingFloat cashSales cashRefunds cashExpenses\<rparr>)"

record closing_dto =
  cz_businessDate :: int
  cz_openingFloat :: num
  cz_countedCash :: num

text \<open>The sums are read first; the table takes one closing of a branch and day.\<close>

definition closeRead :: "(int \<Rightarrow> int) \<Rightarrow> string \<Rightarrow> closing_dto \<Rightarrow> till \<Rightarrow> closing_preview res" where
  "closeRead offset branchId d s =
     (if closingOf branchId (cz_businessDate d) s \<noteq> None then Inl (BadRequest ''This day is already closed'')
      else Inr (closingPreview offset branchId (cz_businessDate d) (cz_openingFloat d) s))"

definition closeWrite :: "string \<Rightarrow> string \<Rightarrow> string \<Rightarrow> closing_dto \<Rightarrow> closing_preview \<Rightarrow> till \<Rightarrow> (cash_closing \<times> till) res" where
  "closeWrite i branchId userId d p s =
     (if closingOf branchId (cz_businessDate d) s \<noteq> None then Inl UniqueViolation
      else
        (let row = \<lparr>cc_id = i, cc_branchId = branchId, cc_businessDate = cz_businessDate d,
               cc_openingFloat = to_column 100 (cz_openingFloat d), cc_cashSales = to_column 100 (vw_cashSales p),
               cc_cashExpenses = to_column 100 (vw_cashExpenses p), cc_expectedCash = to_column 100 (vw_expectedCash p),
               cc_countedCash = to_column 100 (cz_countedCash d),
               cc_variance = to_column 100 (round2 (fsub (cz_countedCash d) (vw_expectedCash p))), cc_closedById = userId\<rparr>
         in Inr (row, s\<lparr>ti_closings := ti_closings s @ [row]\<rparr>)))"

definition closeDay :: "(int \<Rightarrow> int) \<Rightarrow> string \<Rightarrow> string \<Rightarrow> string \<Rightarrow> closing_dto \<Rightarrow> till \<Rightarrow> (cash_closing \<times> till) res" where
  "closeDay offset i branchId userId d s = ebind (closeRead offset branchId d s) (\<lambda>p. closeWrite i branchId userId d p s)"

section \<open>The tax summary\<close>

record gst_line =
  gt_lineTotal :: num
  gt_taxRatePercent :: num
  gt_factor :: num

record gst_row =
  gr_ratePercent :: num
  gr_taxableValue :: num
  gr_tax :: num
  gr_total :: num

definition addGst :: "(num \<times> num \<times> num) list \<Rightarrow> gst_line \<Rightarrow> (num \<times> num \<times> num) list" where
  "addGst byRate l =
     (let charged = fmul (gt_lineTotal l) (gt_factor l); r = gt_taxRatePercent l;
          tax = fdiv (fmul charged r) (fadd 100 r);
          (total, t) = (case map_of byRate r of Some x \<Rightarrow> x | None \<Rightarrow> (0, 0))
      in AList.update r (fadd total charged, fadd t tax) byRate)"

definition gstSummary :: "gst_line list \<Rightarrow> gst_row list \<times> num \<times> num" where
  "gstSummary ls =
     (let rows = map (\<lambda>(r, total, tax). \<lparr>gr_ratePercent = r, gr_taxableValue = round2 (fsub total tax), gr_tax = round2 tax,
                   gr_total = round2 total\<rparr>) (sort_key fst (foldl addGst [] ls))
      in (rows, round2 (fsum (map gr_taxableValue rows)), round2 (fsum (map gr_tax rows))))"


section \<open>Every day closes once\<close>

definition closed_once :: "cash_closing list \<Rightarrow> bool" where
  "closed_once cs \<longleftrightarrow> distinct (map (\<lambda>c. (cc_branchId c, cc_businessDate c)) cs)"

inductive till_step :: "(int \<Rightarrow> int) \<Rightarrow> till \<Rightarrow> till \<Rightarrow> bool" for offset where
  paid: "till_step offset s (s\<lparr>ti_payments := ti_payments s @ [r]\<rparr>)"
| refunded: "till_step offset s (s\<lparr>ti_refunds := ti_refunds s @ [r]\<rparr>)"
| spent: "createExpense i br u x s = (row, t) \<Longrightarrow> till_step offset s t"
| unspent: "deleteExpense br i s = Inr t \<Longrightarrow> till_step offset s t"
| closed: "closeWrite i br u d p s = Inr (row, t) \<Longrightarrow> till_step offset s t"

inductive_cases till_stepE: "till_step offset s t"

lemma closingOf_None: "closingOf br d s = None \<longleftrightarrow> (br, d) \<notin> set (map (\<lambda>c. (cc_branchId c, cc_businessDate c)) (ti_closings s))"
  by (auto simp: closingOf_def find_None_iff)

lemma closeWrite_Inr:
  assumes "closeWrite i br u d p s = Inr (row, t)"
  shows "closingOf br (cz_businessDate d) s = None" "t = s\<lparr>ti_closings := ti_closings s @ [row]\<rparr>"
    "cc_branchId row = br" "cc_businessDate row = cz_businessDate d"
  using assms by (auto simp: closeWrite_def Let_def split: if_splits)

text \<open>Closings are only added, one for a branch and day, and what was paid in cash on a closed day is not
  taken out again.\<close>

lemma till_step_closings:
  assumes "till_step offset s t"
  shows "\<exists>cs. ti_closings t = ti_closings s @ cs" "closed_once (ti_closings s) \<Longrightarrow> closed_once (ti_closings t)"
    "x \<in> set (ti_expenses s) \<Longrightarrow> ex_paidFromCash x \<Longrightarrow> closingOf (ex_branchId x) (ex_spentOn x) s \<noteq> None \<Longrightarrow>
      keyed ex_id (ti_expenses s) \<Longrightarrow> x \<in> set (ti_expenses t)"
proof -
  have "(\<exists>cs. ti_closings t = ti_closings s @ cs) \<and> (closed_once (ti_closings s) \<longrightarrow> closed_once (ti_closings t))"
    using assms
  proof (cases rule: till_step.cases)
    case (closed i br u d p row)
    note w = closeWrite_Inr[OF closed]
    show ?thesis using w(1) by (auto simp: w(2-4) closed_once_def closingOf_None)
  qed (auto simp: createExpense_def deleteExpense_def Let_def split: option.splits if_splits)
  then show "\<exists>cs. ti_closings t = ti_closings s @ cs" "closed_once (ti_closings s) \<Longrightarrow> closed_once (ti_closings t)" by simp_all
  assume x: "x \<in> set (ti_expenses s)" "ex_paidFromCash x" "closingOf (ex_branchId x) (ex_spentOn x) s \<noteq> None"
    "keyed ex_id (ti_expenses s)"
  show "x \<in> set (ti_expenses t)"
    using assms
  proof (cases rule: till_step.cases)
    case (unspent br i)
    then obtain y where y: "y \<in> set (ti_expenses s)" "ex_id y = i" "ex_branchId y = br"
      "\<not> (closingOf br (ex_spentOn y) s \<noteq> None \<and> ex_paidFromCash y)" "t = s\<lparr>ti_expenses := del_where (\<lambda>y. ex_id y = i) (ti_expenses s)\<rparr>"
      by (auto simp: deleteExpense_def dest!: find_SomeD split: option.splits if_splits)
    have "ex_id x \<noteq> i" using keyed_unique[OF x(4,1) y(1)] x(2,3) y(2-4) by auto
    then show ?thesis using x(1) by (simp add: y(5) del_where_def)
  qed (use x(1) in \<open>auto simp: createExpense_def Let_def dest: closeWrite_Inr(2)\<close>)
qed

lemma till_run_closings:
  "(till_step offset)\<^sup>*\<^sup>* s t \<Longrightarrow> (\<exists>cs. ti_closings t = ti_closings s @ cs) \<and> (closed_once (ti_closings s) \<longrightarrow> closed_once (ti_closings t))"
proof (induction rule: rtranclp_induct)
  case (step t u)
  then show ?case using till_step_closings(1,2)[OF step(2)] by fastforce
qed simp

section \<open>Nothing is counted twice\<close>

lemma cashIn_split: "lo \<le> mid \<Longrightarrow> mid \<le> hi \<Longrightarrow> cashIn br (lo, hi) rows = cashIn br (lo, mid) rows + cashIn br (mid, hi) rows"
  by (induction rows) (auto simp: cashIn_def)

lemma cashIn_empty: "cashIn br (lo, lo) rows = 0" by (induction rows) (auto simp: cashIn_def)

text \<open>No zone moves its clocks by a day.\<close>

definition zone_ok :: "(int \<Rightarrow> int) \<Rightarrow> bool" where "zone_ok offset \<longleftrightarrow> (\<forall>x y. \<bar>offset x - offset y\<bar> \<le> dayMs)"

lemma zonedDayStart_mono: "zone_ok offset \<Longrightarrow> zonedDayStart offset d \<le> zonedDayStart offset (d + 1)"
proof -
  assume "zone_ok offset"
  then have "\<bar>offset (dayStart (d + 1) - offset (dayStart (d + 1))) - offset (dayStart d - offset (dayStart d))\<bar> \<le> dayMs"
    unfolding zone_ok_def by blast
  then show ?thesis by (simp add: zonedDayStart_def dayStart_def Let_def algebra_simps)
qed

lemma days_cover:
  assumes "zone_ok offset"
  shows "sum_list (map (\<lambda>k. cashIn br (dayRange offset (d + int k) (d + int k)) rows) [0..<n]) =
      cashIn br (zonedDayStart offset d, zonedDayStart offset (d + int n)) rows \<and>
    zonedDayStart offset d \<le> zonedDayStart offset (d + int n)"
proof (induction n)
  case (Suc n)
  have m: "zonedDayStart offset (d + int n) \<le> zonedDayStart offset (d + int (Suc n))"
    using zonedDayStart_mono[OF assms, of "d + int n"] by (simp add: algebra_simps)
  then show ?case
    using Suc cashIn_split[of "zonedDayStart offset d" "zonedDayStart offset (d + int n)" "zonedDayStart offset (d + int (Suc n))"]
    by (auto simp: dayRange_def algebra_simps)
qed (simp add: cashIn_empty)

section \<open>The figures\<close>

lemma expectedCash_cents:
  "sum_ok [f, s, - r, - e] \<Longrightarrow> expectedCash (cents f) (cents s) (cents r) (cents e) = cents (f + s - r - e)"
proof -
  assume ok: "sum_ok [f, s, - r, - e]"
  have minus: "fsub x (cents n) = fadd x (cents (- n))" for x n by (simp add: fsub_def fadd_def dec_minus)
  have "fsub (fsub (fadd (cents f) (cents s)) (cents r)) (cents e) = fsum (map cents [f, s, - r, - e])"
    by (simp add: minus fsum_def)
  then show ?thesis unfolding expectedCash_def using round2_fsum_cents[OF ok] by (simp add: algebra_simps)
qed

lemma closingOf_only:
  assumes "closed_once (ti_closings s)" "c \<in> set (ti_closings s)"
  shows "closingOf (cc_branchId c) (cc_businessDate c) s = Some c"
proof -
  have "keyed (\<lambda>c. (cc_branchId c, cc_businessDate c)) (ti_closings s)" using assms(1) by (simp add: closed_once_def keyed_def)
  from keyed_find[OF this assms(2)] show ?thesis by (simp add: closingOf_def)
qed

lemma closing_stays:
  assumes "closeDay offset i br u d s = Inr (row, t)" "closed_once (ti_closings s)" "(till_step offset)\<^sup>*\<^sup>* t t'"
  shows "closingOf br (cz_businessDate d) t' = Some row"
proof -
  obtain p where cw: "closeWrite i br u d p s = Inr (row, t)" using assms(1) by (auto simp: closeDay_def ebind_Inr_iff)
  have w: "till_step offset s t" "row \<in> set (ti_closings t)" "cc_branchId row = br" "cc_businessDate row = cz_businessDate d"
    using closeWrite_Inr[OF cw] till_step.closed[OF cw] by simp_all
  have "closed_once (ti_closings t)" using till_step_closings(2)[OF w(1)] assms(2) by simp
  then have "closed_once (ti_closings t')" "row \<in> set (ti_closings t')" using till_run_closings[OF assms(3)] w(2) by auto
  then show ?thesis using closingOf_only w(3,4) by metis
qed

text \<open>C35: the closing of a day. A closing that succeeds is the only one of its branch and day, and stays so through
  whatever the till does later; its figures hold to the cent: sales are the cash payments of the branch within the
  local day less the cash refunds, expenses are those of that date paid from the till, the till should hold the
  float and the sales less the expenses, and the variance is what was counted less that.\<close>

theorem day_closing_adds_up:
  assumes "closeDay offset i br u d s = Inr (row, t)" "closed_once (ti_closings s)"
    "cz_openingFloat d = cents f" "cz_countedCash d = cents c" "in_range c"
    "sales = cashIn br (dayRange offset (cz_businessDate d) (cz_businessDate d)) (ti_payments s)"
    "returned = cashIn br (dayRange offset (cz_businessDate d) (cz_businessDate d)) (ti_refunds s)"
    "spent = cashSpent br (cz_businessDate d) (ti_expenses s)"
    "sum_ok [f, sales, - returned, - spent]" "in_range (c - (f + sales - returned - spent))"
  shows "t = s\<lparr>ti_closings := ti_closings s @ [row]\<rparr> \<and> cc_openingFloat row = f \<and> cc_cashSales row = sales - returned \<and>
    cc_cashExpenses row = spent \<and> cc_expectedCash row = cc_openingFloat row + cc_cashSales row - cc_cashExpenses row \<and>
    cc_countedCash row = c \<and> cc_variance row = cc_countedCash row - cc_expectedCash row \<and>
    (\<forall>t'. (till_step offset)\<^sup>*\<^sup>* t t' \<longrightarrow> closingOf br (cz_businessDate d) t' = Some row)"
proof -
  define p where "p = closingPreview offset br (cz_businessDate d) (cz_openingFloat d) s"
  have w: "closeWrite i br u d p s = Inr (row, t)"
    using assms(1) by (auto simp: closeDay_def closeRead_def p_def ebind_Inr_iff split: if_splits)
  have r: "in_range f" "in_range sales" "in_range returned" "in_range spent" "in_range (sales - returned)"
    "in_range (f + sales - returned - spent)"
    using assms(9) by (auto simp: sum_ok_def in_range_def)
  have p: "vw_cashSales p = cents (sales - returned)" "vw_cashExpenses p = cents spent"
    "vw_expectedCash p = cents (f + sales - returned - spent)"
    using r expectedCash_cents[OF assms(9)]
    by (simp_all add: p_def closingPreview_def Let_def assms(3) round2_fsub_cents flip: assms(6-8))
  have "round2 (fsub (cents c) (cents (f + sales - returned - spent))) = cents (c - (f + sales - returned - spent))"
    by (rule round2_fsub_cents[OF assms(5) r(6) assms(10)])
  then have "cc_openingFloat row = f" "cc_cashSales row = sales - returned" "cc_cashExpenses row = spent"
    "cc_expectedCash row = f + sales - returned - spent" "cc_countedCash row = c"
    "cc_variance row = c - (f + sales - returned - spent)"
    using w r assms(5,10) by (auto simp: closeWrite_def Let_def p assms(3,4) split: if_splits)
  then show ?thesis using closeWrite_Inr(2)[OF w] closing_stays[OF assms(1,2)] by simp
qed

definition sample_till :: till where
  "sample_till = \<lparr>ti_payments = [\<lparr>tl_branchId = ''b'', tl_method = CASH, tl_amount = 5000, tl_createdAt = 90000000\<rparr>,
       \<lparr>tl_branchId = ''b'', tl_method = CARD, tl_amount = 900, tl_createdAt = 90000000\<rparr>,
       \<lparr>tl_branchId = ''b'', tl_method = CASH, tl_amount = 700, tl_createdAt = 80000000\<rparr>],
     ti_refunds = [\<lparr>tl_branchId = ''b'', tl_method = CASH, tl_amount = 1000, tl_createdAt = 100000000\<rparr>],
     ti_expenses = [\<lparr>ex_id = ''x'', ex_branchId = ''b'', ex_spentOn = 1, ex_category = ''ice'', ex_amount = 250,
       ex_paidFromCash = True, ex_createdById = ''u''\<rparr>],
     ti_closings = []\<rparr>"

definition sample_closing :: closing_dto where
  "sample_closing = \<lparr>cz_businessDate = 1, cz_openingFloat = cents 10000, cz_countedCash = cents 13700\<rparr>"

theorem day_closing_adds_up_witness:
  "\<exists>row t. closeDay (\<lambda>_. 0) ''c1'' ''b'' ''u'' sample_closing sample_till = Inr (row, t) \<and> cc_expectedCash row = 13750 \<and> cc_variance row = -50"
proof -
  obtain row t where t: "closeDay (\<lambda>_. 0) ''c1'' ''b'' ''u'' sample_closing sample_till = Inr (row, t)"
    by (simp add: closeDay_def closeRead_def closeWrite_def closingOf_def sample_till_def Let_def)
  have z: "dayRange (\<lambda>_. 0) 1 1 = (86400000, 172800000)" by (simp add: dayRange_def zonedDayStart_def dayStart_def dayMs_def)
  have s: "cashIn ''b'' (86400000, 172800000) (ti_payments sample_till) = 5000"
    "cashIn ''b'' (86400000, 172800000) (ti_refunds sample_till) = 1000" "cashSpent ''b'' 1 (ti_expenses sample_till) = 250"
    by (simp_all add: cashIn_def cashSpent_def sample_till_def)
  have d: "cz_businessDate sample_closing = 1" "cz_openingFloat sample_closing = cents 10000" "cz_countedCash sample_closing = cents 13700"
    by (simp_all add: sample_closing_def)
  have "cc_expectedCash row = 13750 \<and> cc_variance row = -50"
    using day_closing_adds_up[OF t _ d(2,3) _ refl refl refl] unfolding d z s
    by (simp add: closed_once_def sample_till_def sum_ok_def in_range_def)
  then show ?thesis using t by blast
qed

section \<open>Where the code falls short\<close>

text \<open>An expense from the till may be entered on a day that is already closed. The closing does not count it, and
  deleting it is then refused, as if the count had included it.\<close>

lemma late_expense_stuck:
  assumes "closingOf br (xd_spentOn x) s = Some c" "xd_paidFromCash x" "createExpense i br u x s = (row, t)"
    "i \<notin> ex_id ` set (ti_expenses s)"
  shows "closingOf br (xd_spentOn x) t = Some c" "deleteExpense br i t = Inl (BadRequest ''That day is already closed'')"
proof -
  have t: "t = s\<lparr>ti_expenses := ti_expenses s @ [row]\<rparr>" "ex_id row = i" "ex_branchId row = br" "ex_spentOn row = xd_spentOn x"
    "ex_paidFromCash row" using assms(2,3) by (auto simp: createExpense_def Let_def)
  show c: "closingOf br (xd_spentOn x) t = Some c" using assms(1) by (simp add: t(1) closingOf_def)
  have none: "find (\<lambda>x. ex_id x = i \<and> ex_branchId x = br) xs = None" if "i \<notin> ex_id ` set xs" for xs
    using that by (auto simp: find_None_iff)
  have "find (\<lambda>x. ex_id x = i \<and> ex_branchId x = br) (xs @ [row]) = Some row" if "i \<notin> ex_id ` set xs" for xs
    using that t(2,3) by (induction xs) auto
  then show "deleteExpense br i t = Inl (BadRequest ''That day is already closed'')"
    using assms(4) c t(2-5) by (simp add: deleteExpense_def t(1))
qed

text \<open>A day can be closed before it is over: cash taken later that day is in no closing, as it cannot be closed
  again.\<close>

lemma cash_after_closing_uncounted:
  assumes "closeDay offset i br u d s = Inr (row, t)"
  shows "\<exists>e. closeDay offset j br u d (t\<lparr>ti_payments := ti_payments t @ [r]\<rparr>) = Inl e"
proof -
  obtain p where "closeWrite i br u d p s = Inr (row, t)" using assms by (auto simp: closeDay_def ebind_Inr_iff)
  note w = closeWrite_Inr[OF this]
  have "closingOf br (cz_businessDate d) (t\<lparr>ti_payments := ti_payments t @ [r]\<rparr>) \<noteq> None"
    unfolding closingOf_None using w(2-4) by simp
  then show ?thesis by (simp add: closeDay_def closeRead_def)
qed

end
