(* ===== verification/Verifactu_Log.thy ===== *)
theory Verifactu_Log
  imports Verifactu_Service
begin

text \<open>
  Properties of the fiscal log: every run of sales, refunds, submissions and settings changes only
  appends records and leaves every chain verifiable; a verified chain cannot be altered without a collision
  of the digest; an order is invoiced once; a record the agency has answered for good never changes.
\<close>

section \<open>The lasting part of a record\<close>

definition core :: "fiscal_record \<Rightarrow> fiscal_record" where
  "core r = r\<lparr>fr_status := VF_PENDING, fr_attempts := 0, fr_nextAttemptAt := 0, fr_csv := None,
     fr_errorCode := None, fr_errorText := None, fr_submittedAt := None\<rparr>"

lemma core_fields [simp]:
  "fr_id (core r) = fr_id r" "fr_restaurantId (core r) = fr_restaurantId r" "fr_issuerNif (core r) = fr_issuerNif r"
  "fr_branchId (core r) = fr_branchId r"
  "fr_seq (core r) = fr_seq r" "fr_invoiceType (core r) = fr_invoiceType r" "fr_invoiceNumber (core r) = fr_invoiceNumber r"
  "fr_issueDate (core r) = fr_issueDate r" "fr_taxTotalCents (core r) = fr_taxTotalCents r" "fr_totalCents (core r) = fr_totalCents r"
  "fr_generatedAt (core r) = fr_generatedAt r" "fr_previousHash (core r) = fr_previousHash r" "fr_hash (core r) = fr_hash r"
  "fr_xml (core r) = fr_xml r" "fr_environment (core r) = fr_environment r" "fr_orderId (core r) = fr_orderId r"
  "rehash sha (core r) = rehash sha r" "in_chain a b c (core r) = in_chain a b c r"
  by (simp_all add: core_def rehash_def in_chain_def split: option.split)

lemma core_update [simp]:
  "core (r\<lparr>fr_nextAttemptAt := n\<rparr>) = core r"
  "core (r\<lparr>fr_status := st, fr_errorText := tx, fr_attempts := k\<rparr>) = core r"
  "core (r\<lparr>fr_status := st, fr_errorCode := c, fr_errorText := tx, fr_csv := v, fr_submittedAt := w, fr_attempts := k\<rparr>) = core r"
  by (simp_all add: core_def)

section \<open>Each operation on the log\<close>

lemma append_cases:
  assumes "append e a s = Inr (row, t)"
  obtains bd tax due qr where "buildBreakdown (ap_lines a) (ap_targetCents a) = Inr (bd, tax, due)"
    "row = recordOf e a (lastRecord (chainOf (ap_restaurantId a) (ap_issuerNif a) (ap_environment a) s))
       (altaOf e a (previousOf (lastRecord (chainOf (ap_restaurantId a) (ap_issuerNif a) (ap_environment a) s))) (bd, tax, due)) qr"
    "t = s\<lparr>vf_records := vf_records s @ [row]\<rparr>" "fr_id row \<notin> fr_id ` set (vf_records s)"
    "\<forall>r \<in> set (chainOf (ap_restaurantId a) (ap_issuerNif a) (ap_environment a) s). fr_invoiceNumber r \<noteq> ap_number a"
proof -
  obtain b qr where b: "buildBreakdown (ap_lines a) (ap_targetCents a) = Inr b"
    "row = recordOf e a (lastRecord (chainOf (ap_restaurantId a) (ap_issuerNif a) (ap_environment a) s))
       (altaOf e a (previousOf (lastRecord (chainOf (ap_restaurantId a) (ap_issuerNif a) (ap_environment a) s))) b) qr"
    "t = s\<lparr>vf_records := vf_records s @ [row]\<rparr>" "count_where (\<lambda>r. fr_id r = fr_id row) (vf_records s) = 0"
    "count_where (\<lambda>r. fr_seq r = fr_seq row \<or> fr_invoiceNumber r = ap_number a)
       (chainOf (ap_restaurantId a) (ap_issuerNif a) (ap_environment a) s) = 0"
    using assms by (auto simp: append_def ebind_Inr_iff Let_def split: if_splits)
  obtain bd tax due where "b = (bd, tax, due)" by (cases b) auto
  with b show thesis by (intro that[of bd tax due qr]) (auto simp: count_where_def filter_empty_conv)
qed

lemma bump_records [simp]:
  "vf_records (bumpNumber i s) = vf_records s" "vf_records (bumpRefundNumber i s) = vf_records s"
  "vf_branches (bumpNumber i s) = vf_branches s" "vf_branches (bumpRefundNumber i s) = vf_branches s"
  "chainOf x y z (bumpNumber i s) = chainOf x y z s" "chainOf x y z (bumpRefundNumber i s) = chainOf x y z s"
  by (simp_all add: bumpNumber_def bumpRefundNumber_def chainOf_def)

lemma recordPaidOrder_cases:
  assumes "recordPaidOrder e sale s = Inr (x, t)"
  obtains "x = None" "t = s"
  | dup where "x = Some dup" "t = s" "find (\<lambda>r. fr_orderId r = fs_orderId sale \<and> fr_invoiceType r = F2) (vf_records s) = Some dup"
  | b st row where "x = Some row" "findBranch (fs_branchId sale) s = Some b" "settingsOf (fs_branchId sale) s = Some st"
      "find (\<lambda>r. fr_orderId r = fs_orderId sale \<and> fr_invoiceType r = F2) (vf_records s) = None"
      "append e (paidArgs b st sale) (bumpNumber (fs_branchId sale) s) = Inr (row, t)"
proof (cases "find (\<lambda>r. fr_orderId r = fs_orderId sale \<and> fr_invoiceType r = F2) (vf_records s)")
  case None
  then show ?thesis
    using assms that(1,3) by (auto simp: recordPaidOrder_def ebind_Inr_iff split: option.splits if_splits)
next
  case (Some dup)
  then have "x = None \<and> t = s \<or> x = Some dup \<and> t = s"
    using assms by (simp add: recordPaidOrder_def split: option.splits if_splits)
  then show ?thesis using that(1,2) Some by blast
qed

lemma recordRefund_cases:
  assumes "recordRefund e sale i amt s = Inr (x, t)"
  obtains "x = None" "t = s"
  | b st orig row where "x = Some row" "findBranch (fs_branchId sale) s = Some b" "settingsOf (fs_branchId sale) s = Some st"
      "orig \<in> set (vf_records s)" "fr_orderId orig = fs_orderId sale"
      "append e (refundArgs b st orig sale i amt) (bumpRefundNumber (fs_branchId sale) s) = Inr (row, t)"
  using assms by (auto simp: recordRefund_def ebind_Inr_iff split: option.splits if_splits dest: find_SomeD)

lemma map_core_upd: "(\<And>r. core (f r) = core r) \<Longrightarrow> map core (upd_where P f rs) = map core rs"
  by (simp add: upd_where_def)

lemma settle_core: "map core (vf_records (settle now resp s r)) = map core (vf_records s)"
  by (simp add: settle_def map_core_upd split: prod.splits)

lemma foldl_settle_core: "map core (vf_records (foldl (settle now resp) s rs)) = map core (vf_records s)"
  by (induction rs arbitrary: s) (simp_all add: settle_core)

lemma submitChain_core: "map core (vf_records (snd (submitChain now unseal sender a b c s))) = map core (vf_records s)"
  by (simp add: submitChain_def Let_def releaseAfter_def markError_def map_core_upd foldl_settle_core
      split: option.splits sum.splits)

lemma submitChains_core:
  "map core (vf_records (snd (submitChains now unseal sender cs s))) = map core (vf_records s)"
proof -
  have "map core (vf_records (snd (foldl (\<lambda>(n, s) (r, f, v).
        let (k, s') = submitChain now unseal sender r f v s in (n + k, s')) (n, s) cs))) = map core (vf_records s)" for n
  proof (induction cs arbitrary: n s)
    case (Cons c cs)
    obtain r f v where c: "c = (r, f, v)" by (cases c)
    obtain k s' where k: "submitChain now unseal sender r f v s = (k, s')" by fastforce
    show ?case using Cons.IH[of "n + k" s'] submitChain_core[of now unseal sender r f v s] by (simp add: c k)
  qed simp
  then show ?thesis by (simp add: submitChains_def)
qed

lemma submitAll_core: "map core (vf_records (snd (submitAll now unseal sender sending s))) = map core (vf_records s)"
  by (simp add: submitAll_def submitChains_core)

lemma sendNow_core:
  "sendNow now unseal sender ri bi s = Inr (n, t) \<Longrightarrow> map core (vf_records t) = map core (vf_records s)"
proof -
  assume a: "sendNow now unseal sender ri bi s = Inr (n, t)"
  obtain b where "submitChains now unseal sender [(ri, to_upper (taxIdOf b), TEST), (ri, to_upper (taxIdOf b), PRODUCTION)]
      (s\<lparr>vf_records := upd_where (\<lambda>r. fr_restaurantId r = ri \<and> fr_issuerNif r = to_upper (taxIdOf b) \<and> unsent r)
           (\<lambda>r. r\<lparr>fr_nextAttemptAt := now\<rparr>) (vf_records s)\<rparr>) = (n, t)"
    using a by (auto simp: sendNow_def ebind_Inr_iff Let_def)
  then show ?thesis by (metis (no_types, lifting) submitChains_core map_core_upd core_update(1) snd_conv
        vf_state.select_convs(3) vf_state.surjective vf_state.update_convs(3))
qed

lemma putSettings_records [simp]: "vf_records (putSettings u i f s) = vf_records s"
  by (simp add: putSettings_def)

lemma settings_records:
  "saveSettings e ri bi en envi p s = Inr t \<Longrightarrow> vf_records t = vf_records s"
  "uploadCertificate e ins seal ri bi f pw s = Inr t \<Longrightarrow> vf_records t = vf_records s"
  by (auto simp: saveSettings_def uploadCertificate_def ebind_Inr_iff Let_def split: if_splits sum.splits)

text \<open>One operation of the service, with any values from outside but one digest.\<close>

inductive fiscal_step :: "(string \<Rightarrow> string) \<Rightarrow> vf_state \<Rightarrow> vf_state \<Rightarrow> bool" for sha where
  paid: "recordPaidOrder e sale s = Inr (x, t) \<Longrightarrow> ve_sha e = sha \<Longrightarrow> fiscal_step sha s t"
| refunded: "recordRefund e sale i amt s = Inr (x, t) \<Longrightarrow> ve_sha e = sha \<Longrightarrow> fiscal_step sha s t"
| submitted: "submitAll now unseal sender sending s = (n, t) \<Longrightarrow> fiscal_step sha s t"
| sent: "sendNow now unseal sender ri bi s = Inr (n, t) \<Longrightarrow> fiscal_step sha s t"
| saved: "saveSettings e ri bi enabled envi p s = Inr t \<Longrightarrow> fiscal_step sha s t"
| certified: "uploadCertificate e ins seal ri bi f pw s = Inr t \<Longrightarrow> fiscal_step sha s t"

text \<open>A step either adds one record or leaves the lasting parts alone.\<close>

lemma fiscal_step_records:
  assumes "fiscal_step sha s t"
  obtains e a s' row where "append e a s' = Inr (row, t)" "vf_records s' = vf_records s" "ve_sha e = sha"
  | "map core (vf_records t) = map core (vf_records s)"
  using assms
proof (cases rule: fiscal_step.cases)
  case (paid e sale x)
  from paid(1) show ?thesis
  proof (cases rule: recordPaidOrder_cases)
    case (3 b st row)
    then show ?thesis using that(1)[OF 3(5)] paid(2) by simp
  qed (use that(2) in auto)
next
  case (refunded e sale i amt x)
  from refunded(1) show ?thesis
  proof (cases rule: recordRefund_cases)
    case (2 b st orig row)
    then show ?thesis using that(1)[OF 2(6)] refunded(2) by simp
  qed (use that(2) in auto)
next
  case (submitted now unseal sender sending n)
  then have "map core (vf_records t) = map core (vf_records s)"
    using submitAll_core[of now unseal sender sending s] by simp
  then show ?thesis by (rule that(2))
next
  case (sent now unseal sender ri bi n)
  then show ?thesis using that(2) sendNow_core by blast
qed (use that(2) settings_records in auto)

interpretation fiscal_log: append_only vf_records core "fiscal_step sha" for sha
proof
  fix s t assume "fiscal_step sha s t"
  then show "prefix (map core (vf_records s)) (map core (vf_records t))"
    by (cases rule: fiscal_step_records) (auto elim!: append_cases)
qed

section \<open>Intact chains\<close>

text \<open>What the digest library promises: 64 lower-case hexadecimal digits.\<close>

definition sha_ok :: "(string \<Rightarrow> string) \<Rightarrow> bool" where
  "sha_ok sha \<longleftrightarrow> (\<forall>t. length (sha t) = 64 \<and>
     list_all (\<lambda>c. is_digit c \<or> (97 \<le> (of_char c :: nat) \<and> (of_char c :: nat) \<le> 102)) (sha t))"

fun linked :: "(string \<Rightarrow> string) \<Rightarrow> string option \<Rightarrow> int \<Rightarrow> fiscal_record list \<Rightarrow> bool" where
  "linked sha p n [] = True"
| "linked sha p n (r # rs) \<longleftrightarrow> fr_seq r = n \<and> fr_previousHash r = p \<and> xmlHash (fr_xml r) = Some (fr_hash r) \<and>
     rehash sha r = fr_hash r \<and> linked sha (Some (fr_hash r)) (n + 1) rs"

definition intact :: "(string \<Rightarrow> string) \<Rightarrow> vf_state \<Rightarrow> bool" where
  "intact sha s \<longleftrightarrow> (\<forall>rid nif env. linked sha None 1 (chainOf rid nif env s))"

lemma checkRecords_Intact: "checkRecords sha env p n c rs = Intact k \<longleftrightarrow> linked sha p n rs \<and> k = c + length rs"
  by (induction rs arbitrary: p n c) auto

lemma linked_seq: "linked sha p n rs \<Longrightarrow> sorted (map fr_seq rs) \<and> (\<forall>r \<in> set rs. n \<le> fr_seq r)"
proof (induction rs arbitrary: p n)
  case (Cons r rs)
  then have "linked sha (Some (fr_hash r)) (n + 1) rs" "fr_seq r = n" by auto
  with Cons.IH[OF this(1)] show ?case by fastforce
qed simp

lemma linked_sort: "linked sha p n rs \<Longrightarrow> sort_key fr_seq rs = rs"
  using linked_seq sort_key_id_if_sorted by blast

lemma linked_core: "map core rs = map core us \<Longrightarrow> linked sha p n rs \<longleftrightarrow> linked sha p n us"
proof (induction rs arbitrary: us p n)
  case (Cons r rs)
  then obtain u us' where us: "us = u # us'" "core r = core u" "map core rs = map core us'" by (cases us) auto
  have "fr_seq r = fr_seq u" "fr_previousHash r = fr_previousHash u" "fr_xml r = fr_xml u" "fr_hash r = fr_hash u"
    "rehash sha r = rehash sha u"
    using core_fields us(2) by metis+
  then show ?case using Cons.IH[OF us(3)] us(1) by simp
qed simp

lemma linked_snoc:
  "linked sha p n (rs @ [r]) \<longleftrightarrow> linked sha p n rs \<and> fr_seq r = n + int (length rs) \<and>
     fr_previousHash r = (if rs = [] then p else Some (fr_hash (last rs))) \<and> xmlHash (fr_xml r) = Some (fr_hash r) \<and>
     rehash sha r = fr_hash r"
  by (induction rs arbitrary: p n) (auto simp: algebra_simps)

lemma lastRecord_snoc: "(\<And>x. x \<in> set rs \<Longrightarrow> fr_seq x < fr_seq r) \<Longrightarrow> lastRecord (rs @ [r]) = Some r"
proof (cases rs)
  case (Cons a us)
  assume less: "\<And>x. x \<in> set rs \<Longrightarrow> fr_seq x < fr_seq r"
  have "foldl (\<lambda>a b. if fr_seq a < fr_seq b then b else a) x ys \<in> insert x (set ys)" for x ys
    by (induction ys arbitrary: x) (auto split: if_splits)
  from this[of a us] have "fr_seq (foldl (\<lambda>a b. if fr_seq a < fr_seq b then b else a) a us) < fr_seq r"
    using less Cons by auto
  then show ?thesis by (simp add: lastRecord_def Cons)
qed (simp add: lastRecord_def)

lemma linked_last: "linked sha p n rs \<Longrightarrow> lastRecord rs = (if rs = [] then None else Some (last rs)) \<and>
    (rs \<noteq> [] \<longrightarrow> fr_seq (last rs) = n + int (length rs) - 1)"
proof (induction rs rule: rev_induct)
  case (snoc r rs)
  have l: "linked sha p n rs" "fr_seq r = n + int (length rs)" using snoc.prems by (simp_all add: linked_snoc)
  have "fr_seq x < fr_seq r" if "x \<in> set rs" for x
  proof -
    have "rs \<noteq> []" using that by auto
    then have "fr_seq (last rs) < fr_seq r" using snoc.IH[OF l(1)] l(2) by simp
    moreover have "fr_seq x \<le> fr_seq (last rs)"
    proof -
      obtain ys where ys: "rs = ys @ [last rs]" using \<open>rs \<noteq> []\<close> append_butlast_last_id by metis
      have "sorted (map fr_seq (ys @ [last rs]))" using linked_seq[OF l(1)] ys by metis
      then show ?thesis using that by (subst (asm) (2) ys) (auto simp: sorted_append)
    qed
    ultimately show ?thesis by simp
  qed
  then show ?case using lastRecord_snoc[of rs r] l(2) by simp
qed (simp add: lastRecord_def)

text \<open>A fingerprint is 64 hexadecimal digits, passes the escaping unchanged and is read back from the XML.\<close>

lemma fingerprint_hex: "sha_ok sha \<Longrightarrow> length (fingerprint sha t) = 64 \<and> list_all is_hex (fingerprint sha t)"
proof -
  assume a: "sha_ok sha"
  define h where "h = sha t"
  have "length h = 64" "list_all (\<lambda>c. is_digit c \<or> (97 \<le> (of_char c :: nat) \<and> (of_char c :: nat) \<le> 102)) h"
    using a by (simp_all add: sha_ok_def h_def)
  moreover have "list_all is_hex (to_upper xs)"
    if "list_all (\<lambda>c. is_digit c \<or> (97 \<le> (of_char c :: nat) \<and> (of_char c :: nat) \<le> 102)) xs" for xs
    using that by (induction xs) (auto simp: to_upper_def is_hex_def is_digit_def)
  ultimately show ?thesis by (simp add: fingerprint_def to_upper_def h_def)
qed

lemma esc_hex: "list_all is_hex h \<Longrightarrow> esc h = h"
proof -
  assume h: "list_all is_hex h"
  have ns: "\<not> js_space c" "c \<noteq> CHR ''&''" "c \<noteq> CHR ''<''" "c \<noteq> CHR ''>''" "c \<noteq> CHR 0x22" "c \<noteq> CHR 0x27"
    if "is_hex c" for c
    using that by (auto simp: is_hex_def is_digit_def js_space_def)
  have dw: "dropWhile js_space xs = xs" if "list_all is_hex xs" for xs
    using that ns by (cases xs) auto
  have rp: "replaceAll c r xs = xs" if "\<forall>x \<in> set xs. x \<noteq> c" for c r xs
    using that by (induction xs) (auto simp: replaceAll_def)
  have "trim h = h" using dw[OF h] dw[of "rev h"] h by (simp add: trim_def list_all_iff)
  then show ?thesis using ns h by (simp add: esc_def rp list_all_iff)
qed

lemma xmlHash_end:
  "length h = 64 \<Longrightarrow> list_all is_hex h \<Longrightarrow> xmlHash (a @ ''<sf:Huella>'' @ h @ ''</sf:Huella></sf:RegistroAlta>'') = Some h"
  unfolding xmlHash_def Let_def by simp

lemma xmlHash_length: "xmlHash x = Some h \<Longrightarrow> length h = 64"
  unfolding xmlHash_def Let_def by (auto split: if_splits)

lemma xmlHash_altaXml: "sha_ok sha \<Longrightarrow> xmlHash (altaXml sha r) = Some (altaHash sha r)"
proof -
  assume ok: "sha_ok sha"
  have hx: "length (altaHash sha r) = 64" "list_all is_hex (altaHash sha r)"
    using fingerprint_hex[OF ok] by (simp_all add: altaHash_def)
  have "\<exists>a. altaXml sha r = a @ ''<sf:Huella>'' @ altaHash sha r @ ''</sf:Huella></sf:RegistroAlta>''"
    using esc_hex[OF hx(2)] by (simp add: altaXml_def el_def flip: append_assoc)
  then show ?thesis using xmlHash_end[OF hx] by metis
qed

section \<open>Every step keeps every chain intact\<close>

lemma chainOf_core: "map core (vf_records t) = map core (vf_records s) \<Longrightarrow>
    map core (chainOf a b c t) = map core (chainOf a b c s)"
proof -
  assume m: "map core (vf_records t) = map core (vf_records s)"
  have "map core (filter (in_chain a b c) xs) = filter (in_chain a b c) (map core xs)" for xs
    by (induction xs) auto
  then show ?thesis using m by (simp add: chainOf_def)
qed

lemma intact_core: "map core (vf_records t) = map core (vf_records s) \<Longrightarrow> intact sha s \<Longrightarrow> intact sha t"
proof -
  assume m: "map core (vf_records t) = map core (vf_records s)" and s: "intact sha s"
  show "intact sha t" unfolding intact_def
  proof (intro allI)
    fix a b c
    show "linked sha None 1 (chainOf a b c t)"
      using s linked_core[OF chainOf_core[OF m, of a b c], of sha None 1] by (simp only: intact_def)
  qed
qed

lemma append_intact:
  assumes "append e a s = Inr (row, t)" "sha_ok (ve_sha e)" "intact (ve_sha e) s"
  shows "intact (ve_sha e) t"
proof -
  let ?c = "chainOf (ap_restaurantId a) (ap_issuerNif a) (ap_environment a) s"
  obtain bd tax due qr where row: "row = recordOf e a (lastRecord ?c) (altaOf e a (previousOf (lastRecord ?c)) (bd, tax, due)) qr"
    and t: "t = s\<lparr>vf_records := vf_records s @ [row]\<rparr>" using assms(1) by (elim append_cases) blast
  have l: "linked (ve_sha e) None 1 ?c" using assms(3) by (simp add: intact_def)
  note ll = linked_last[OF l]
  have ne: "fr_hash r \<noteq> ''''" if "r \<in> set ?c" for r
  proof -
    have "xmlHash (fr_xml r) = Some (fr_hash r)" if "linked sha p n rs" "r \<in> set rs" for sha p n and rs :: "fiscal_record list" and r
      using that by (induction rs arbitrary: p n) auto
    then show ?thesis using xmlHash_length[of "fr_xml r"] l \<open>r \<in> set ?c\<close> by fastforce
  qed
  have fields: "fr_seq row = 1 + int (length ?c)" "fr_previousHash row = (if ?c = [] then None else Some (fr_hash (last ?c)))"
    using ll by (auto simp: row recordOf_def altaOf_def previousOf_def)
  have h: "xmlHash (fr_xml row) = Some (fr_hash row)"
    by (simp add: row recordOf_def xmlHash_altaXml[OF assms(2)])
  have rh: "rehash (ve_sha e) row = fr_hash row"
    using ne[of "last ?c"] ll by (simp add: rehash_def altaHash_def row recordOf_def altaOf_def previousOf_def)
  have new: "linked (ve_sha e) None 1 (?c @ [row])" unfolding linked_snoc using l fields h rh by simp
  have "in_chain (ap_restaurantId a) (ap_issuerNif a) (ap_environment a) row"
    by (simp add: row recordOf_def in_chain_def)
  then have "chainOf i j k t = (if (i, j, k) = (ap_restaurantId a, ap_issuerNif a, ap_environment a)
      then ?c @ [row] else chainOf i j k s)" for i j k
    by (auto simp: chainOf_def t in_chain_def)
  then show ?thesis using new assms(3) by (simp add: intact_def)
qed

lemma fiscal_step_intact: "fiscal_step sha s t \<Longrightarrow> sha_ok sha \<Longrightarrow> intact sha s \<Longrightarrow> intact sha t"
proof (erule fiscal_step_records)
  fix e a s' row
  assume "append e a s' = Inr (row, t)" "vf_records s' = vf_records s" "ve_sha e = sha" "sha_ok sha" "intact sha s"
  then show "intact sha t" using append_intact[of e a s' row t] by (simp add: intact_def chainOf_def)
qed (auto intro: intact_core)

lemma run_intact: "(fiscal_step sha)\<^sup>*\<^sup>* s t \<Longrightarrow> sha_ok sha \<Longrightarrow> intact sha s \<Longrightarrow> intact sha t"
  by (induction rule: rtranclp_induct) (auto intro: fiscal_step_intact)

text \<open>C20: the fiscal log is append-only and always verifies: after any sequence of paid sales, refunds,
  submissions, certificate uploads and settings changes, every record that was there is still there at its
  place with its identity, amounts, XML and fingerprint, and the verification of any branch reports no break
  and counts every record of its two chains.\<close>

theorem fiscal_log_verifies:
  assumes "(fiscal_step sha)\<^sup>*\<^sup>* s t" "sha_ok sha" "intact sha s" "branchOrThrow rid bid t = Inr b"
  shows "prefix (map core (vf_records s)) (map core (vf_records t)) \<and>
     verifyChain sha rid bid t = Inr (Intact (length (chainOf rid (to_upper (taxIdOf b)) TEST t) +
        length (chainOf rid (to_upper (taxIdOf b)) PRODUCTION t)))"
proof -
  have l: "linked sha None 1 (chainOf rid nif envi t)" for nif envi
    using run_intact[OF assms(1-3)] by (simp add: intact_def)
  have "checkRecords sha envi None 1 k (sort_key fr_seq (chainOf rid nif envi t)) = Intact (k + length (chainOf rid nif envi t))"
    for nif envi k unfolding linked_sort[OF l] by (simp add: checkRecords_Intact l)
  then show ?thesis using fiscal_log.run_appends[OF assms(1)] by (simp add: verifyChain_def assms(4) Let_def)
qed

text \<open>C21: an order is invoiced once: after a sale has been recorded, whatever the service does next, recording
  that order again (with any data, configuration or clock) writes nothing and answers either nothing (when
  fiscal records are off) or the invoice it already has.\<close>

theorem order_invoiced_once:
  assumes "recordPaidOrder e sale s = Inr (Some r, t)" "(fiscal_step sha)\<^sup>*\<^sup>* t u"
    "recordPaidOrder e' sale' u = Inr (x, v)" "fs_orderId sale' = fs_orderId sale"
  shows "v = u \<and> (x = None \<or> (\<exists>r'. x = Some r' \<and> core r' = core r))"
proof -
  let ?P = "\<lambda>r. fr_orderId r = fs_orderId sale \<and> fr_invoiceType r = F2"
  have "find ?P (vf_records t) = Some r"
    using assms(1)
  proof (cases rule: recordPaidOrder_cases)
    case (3 b st row)
    from 3(5) obtain qr bd tax due where "t = bumpNumber (fs_branchId sale) s\<lparr>vf_records := vf_records s @ [row]\<rparr>"
      "row = recordOf e (paidArgs b st sale) (lastRecord (chainOf (ap_restaurantId (paidArgs b st sale)) (ap_issuerNif (paidArgs b st sale)) (ap_environment (paidArgs b st sale)) s))
       (altaOf e (paidArgs b st sale) (previousOf (lastRecord (chainOf (ap_restaurantId (paidArgs b st sale)) (ap_issuerNif (paidArgs b st sale)) (ap_environment (paidArgs b st sale)) s))) (bd, tax, due)) qr"
      by (elim append_cases) simp
    then have "?P row" "vf_records t = vf_records s @ [row]" by (simp_all add: recordOf_def paidArgs_def)
    moreover have "find P (xs @ [y]) = Some y" if "find P xs = None" "P y" for P xs and y :: fiscal_record
      using that by (induction xs) (auto split: if_splits)
    ultimately show ?thesis using 3(1,4) by simp
  qed auto
  then have "find (?P \<circ> core) (vf_records t) = Some r" by (simp add: comp_def)
  from fiscal_log.run_find[OF assms(2) this]
  obtain r' where r': "find ?P (vf_records u) = Some r'" "core r' = core r" by (auto simp: comp_def)
  show ?thesis using assms(3)
  proof (cases rule: recordPaidOrder_cases)
    case (2 dup)
    then show ?thesis using r' assms(4) by simp
  next
    case (3 b st row)
    then show ?thesis using r' assms(4) by simp
  qed simp
qed

section \<open>Altering a verified chain\<close>

text \<open>The text of a stored record that is fingerprinted, and the fields it fixes.\<close>

definition chain_text :: "fiscal_record \<Rightarrow> string" where
  "chain_text r = altaString \<lparr>ii_issuerNif = fr_issuerNif r, ii_number = fr_invoiceNumber r, ii_issueDate = fr_issueDate r\<rparr>
     (invoice_type_str (fr_invoiceType r)) (fr_taxTotalCents r) (fr_totalCents r)
     (case fr_previousHash r of None \<Rightarrow> '''' | Some h \<Rightarrow> h) (fr_generatedAt r)"

definition fixed :: "fiscal_record \<Rightarrow> string \<times> string \<times> string \<times> invoice_type \<times> int \<times> int \<times> string \<times> string" where
  "fixed r = (trim (fr_issuerNif r), trim (fr_invoiceNumber r), fr_issueDate r, fr_invoiceType r,
     fr_taxTotalCents r, fr_totalCents r, fr_generatedAt r, fr_hash r)"

text \<open>No field holds the separator of the fingerprinted text.\<close>

definition plain_fields :: "fiscal_record \<Rightarrow> bool" where
  "plain_fields r \<longleftrightarrow> no_amp (trim (fr_issuerNif r)) \<and> no_amp (trim (fr_invoiceNumber r)) \<and> no_amp (fr_issueDate r)"

lemma rehash_text: "rehash sha r = fingerprint sha (chain_text r)"
  by (simp add: rehash_def altaHash_def chain_text_def split: option.split)

lemma trim_hex: "list_all is_hex h \<Longrightarrow> trim h = h"
proof -
  assume h: "list_all is_hex h"
  have "dropWhile js_space xs = xs" if "list_all is_hex xs" for xs
    using that by (cases xs) (auto simp: is_hex_def is_digit_def js_space_def)
  then show ?thesis using h by (simp add: trim_def list_all_iff)
qed

lemma xmlHash_hex: "xmlHash x = Some h \<Longrightarrow> list_all is_hex h"
  unfolding xmlHash_def Let_def by (auto split: if_splits)

lemma hex_no_amp: "list_all is_hex h \<Longrightarrow> no_amp h"
  by (auto simp: no_amp_def list_all_iff is_hex_def is_digit_def)

lemma same_text_fixed:
  assumes "chain_text r = chain_text u" "plain_fields r" "plain_fields u" "fr_hash r = fr_hash u"
    "fr_previousHash r = p" "fr_previousHash u = q"
    "\<forall>h. p = Some h \<longrightarrow> list_all is_hex h \<and> length h = 64" "\<forall>h. q = Some h \<longrightarrow> list_all is_hex h \<and> length h = 64"
  shows "fixed r = fixed u \<and> p = q"
proof -
  let ?p = "case p of None \<Rightarrow> '''' | Some h \<Rightarrow> h" and ?q = "case q of None \<Rightarrow> '''' | Some h \<Rightarrow> h"
  have hx: "list_all is_hex ?p" "list_all is_hex ?q" using assms(7,8) by (auto split: option.split)
  have ty: "no_amp (trim (invoice_type_str k))" "trim (invoice_type_str k) = invoice_type_str k" for k
    by (cases k; simp add: invoice_type_str_def trim_def js_space_def no_amp_def)+
  have "trim (fr_issuerNif r) = trim (fr_issuerNif u) \<and> trim (fr_invoiceNumber r) = trim (fr_invoiceNumber u) \<and>
      fr_issueDate r = fr_issueDate u \<and> trim (invoice_type_str (fr_invoiceType r)) = trim (invoice_type_str (fr_invoiceType u)) \<and>
      fr_taxTotalCents r = fr_taxTotalCents u \<and> fr_totalCents r = fr_totalCents u \<and> trim ?p = trim ?q \<and>
      fr_generatedAt r = fr_generatedAt u"
    using altaString_inj[OF assms(1)[unfolded chain_text_def assms(5,6)]] assms(2,3) ty(1)
      hex_no_amp[of ?p] hex_no_amp[of ?q] hx by (simp add: plain_fields_def trim_hex)
  moreover have "invoice_type_str k = invoice_type_str l \<longleftrightarrow> k = l" for k l
    by (cases k; cases l; simp add: invoice_type_str_def)
  moreover have "p = q" if "?p = ?q" using that assms(7,8) by (cases p; cases q) auto
  ultimately show ?thesis using assms(4) hx ty(2) by (simp add: fixed_def trim_hex)
qed

lemma linked_prev_hex: "linked sha None n (rs @ [r]) \<Longrightarrow> fr_previousHash r = Some h \<Longrightarrow> list_all is_hex h \<and> length h = 64"
proof -
  assume l: "linked sha None n (rs @ [r])" and p: "fr_previousHash r = Some h"
  then have "rs \<noteq> []" "h = fr_hash (last rs)" by (auto simp: linked_snoc split: if_splits)
  moreover have "xmlHash (fr_xml x) = Some (fr_hash x)" if "linked sha q m us" "x \<in> set us" for us x q m
    using that by (induction us arbitrary: q m) auto
  ultimately show ?thesis using l xmlHash_hex xmlHash_length by (metis last_in_set linked_snoc)
qed

text \<open>C22: the log is tamper-evident: if two lists of records both pass the verification and end in the same
  fingerprint, and no two different fingerprinted texts among them collide, then they have the same records in
  every fingerprinted field. Inserting, removing, reordering or changing a record of a verified chain without
  changing its last fingerprint is therefore always found.\<close>

theorem tampering_is_found:
  assumes "checkRecords sha envi None 1 0 rs = Intact n" "checkRecords sha envi None 1 0 us = Intact m"
    "rs \<noteq> []" "us \<noteq> []" "fr_hash (last rs) = fr_hash (last us)"
    "inj_on (fingerprint sha) (chain_text ` (set rs \<union> set us))" "\<forall>r \<in> set rs \<union> set us. plain_fields r"
  shows "map fixed rs = map fixed us"
proof -
  have "linked sha None 1 rs" "linked sha None 1 us" using assms(1,2) by (simp_all add: checkRecords_Intact)
  then show ?thesis using assms(3-7)
  proof (induction rs arbitrary: us rule: rev_induct)
    case (snoc r rs)
    obtain u vs where us: "us = vs @ [u]" using snoc.prems(4) by (metis rev_exhaust)
    have h: "fingerprint sha (chain_text r) = fr_hash r" "fingerprint sha (chain_text u) = fr_hash u"
      using snoc.prems(1,2) us by (simp_all add: linked_snoc rehash_text)
    have mem: "r \<in> set (rs @ [r]) \<union> set us" "u \<in> set (rs @ [r]) \<union> set us" using us by simp_all
    have eq: "fingerprint sha (chain_text r) = fingerprint sha (chain_text u)" using h snoc.prems(5) us by simp
    have "chain_text r = chain_text u"
      by (rule inj_onD[OF snoc.prems(6) eq imageI[OF mem(1)] imageI[OF mem(2)]])
    moreover have pl: "plain_fields r" "plain_fields u" using snoc.prems(7) mem by blast+
    moreover have hh: "fr_hash r = fr_hash u" using snoc.prems(5) us by simp
    moreover have px: "\<forall>h. fr_previousHash r = Some h \<longrightarrow> list_all is_hex h \<and> length h = 64"
      using linked_prev_hex[OF snoc.prems(1)] by blast
    moreover have ux: "\<forall>h. fr_previousHash u = Some h \<longrightarrow> list_all is_hex h \<and> length h = 64"
      using linked_prev_hex[OF snoc.prems(2)[unfolded us]] by blast
    ultimately have f: "fixed r = fixed u" "fr_previousHash r = fr_previousHash u"
      using same_text_fixed[OF _ pl(1) pl(2) hh refl refl px ux] by blast+
    have prev: "(if rs = [] then None else Some (fr_hash (last rs))) = (if vs = [] then None else Some (fr_hash (last vs)))"
      using f(2) snoc.prems(1,2) us by (simp add: linked_snoc)
    show ?case
    proof (cases "rs = []")
      case True
      then have "vs = []" using prev by (simp split: if_splits)
      then show ?thesis using True f us by simp
    next
      case False
      then have ne: "vs \<noteq> []" "fr_hash (last rs) = fr_hash (last vs)" using prev by (simp_all split: if_splits)
      have "linked sha None 1 rs" "linked sha None 1 vs" using snoc.prems(1,2) us by (simp_all add: linked_snoc)
      moreover have "inj_on (fingerprint sha) (chain_text ` (set rs \<union> set vs))"
        by (rule inj_on_subset[OF snoc.prems(6)]) (auto simp: us)
      ultimately have "map fixed rs = map fixed vs"
        using snoc.IH[of vs] False ne snoc.prems(7) us by simp
      then show ?thesis using f(1) us by simp
    qed
  qed simp
qed

section \<open>What one sale writes\<close>

lemma toCents_cents: "in_range n \<Longrightarrow> toCents (cents n) = n"
proof -
  assume n: "in_range n"
  let ?x = "100 * cents n"
  have r: "\<bar>rat_of_int n\<bar> \<le> 1000000000000" using in_rangeD[OF n] by simp
  have "\<bar>?x - of_int n\<bar> \<le> 2 / 10 ^ 4" using close_dec[OF n, of 100] by (simp add: close_def)
  then have c: "\<bar>?x - of_int n\<bar> \<le> 1 / 10" by (rule order.trans) simp
  then have "\<bar>?x\<bar> \<le> 1000000000001" using r by linarith
  then have "\<bar>?x\<bar> / 2 ^ 53 \<le> 1000000000001 / 2 ^ 53" by (rule divide_right_mono) simp
  then have "\<bar>?x\<bar> / 2 ^ 53 \<le> 1 / 10" by (rule order.trans) simp
  then have "\<bar>fl ?x - ?x\<bar> \<le> 1 / 10" using fl_err[of ?x] by linarith
  then have "\<bar>fl ?x - of_int n\<bar> \<le> 1 / 4" using c by linarith
  then have "\<lfloor>fl ?x + 1 / 2\<rfloor> = n" by (intro floor_unique) (use \<open>\<bar>fl ?x - of_int n\<bar> \<le> 1 / 4\<close> in linarith)+
  then show ?thesis by (simp add: toCents_def fmul_def js_round_def mult.commute)
qed

lemma buildBreakdown_total: "buildBreakdown ls t = Inr (bd, tax, due) \<Longrightarrow> due = t"
  by (auto simp: buildBreakdown_def ebind_Inr_iff Let_def split: if_splits)

text \<open>C23: what a paid sale writes: recording an order that has no invoice yet adds exactly one record, an F2
  invoice of the order for its total without the tip, with the next number of the branch's series, which no
  other record of the chain has, and moves the series on by one.\<close>

theorem paid_sale_invoiced:
  assumes "recordPaidOrder e sale s = Inr (Some r, t)"
    "\<forall>q \<in> set (vf_records s). \<not> (fr_orderId q = fs_orderId sale \<and> fr_invoiceType q = F2)"
    "in_range (fs_totalAmount sale)" "in_range (fs_tipAmount sale)"
  shows "vf_records t = vf_records s @ [r] \<and> fr_invoiceType r = F2 \<and> fr_orderId r = fs_orderId sale \<and>
     fr_totalCents r = fs_totalAmount sale - fs_tipAmount sale \<and> fr_status r = VF_PENDING \<and>
     (\<exists>x. settingsOf (fs_branchId sale) s = Some x \<and>
        settingsOf (fs_branchId sale) t = Some (x\<lparr>vs_nextNumber := vs_nextNumber x + 1\<rparr>) \<and>
        fr_invoiceNumber r = vs_seriesPrefix x @ ''-'' @ serial (vs_nextNumber x) \<and>
        (\<forall>q \<in> set (chainOf (fr_restaurantId r) (fr_issuerNif r) (fr_environment r) s). fr_invoiceNumber q \<noteq> fr_invoiceNumber r))"
  using assms(1)
proof (cases rule: recordPaidOrder_cases)
  case (2 dup)
  then show ?thesis using assms(2) find_SomeD by fastforce
next
  case (3 b x row)
  let ?a = "paidArgs b x sale" and ?s = "bumpNumber (fs_branchId sale) s"
  from 3(5) obtain bd tax due qr where w: "buildBreakdown (ap_lines ?a) (ap_targetCents ?a) = Inr (bd, tax, due)"
    "row = recordOf e ?a (lastRecord (chainOf (ap_restaurantId ?a) (ap_issuerNif ?a) (ap_environment ?a) ?s))
       (altaOf e ?a (previousOf (lastRecord (chainOf (ap_restaurantId ?a) (ap_issuerNif ?a) (ap_environment ?a) ?s))) (bd, tax, due)) qr"
    "t = ?s\<lparr>vf_records := vf_records ?s @ [row]\<rparr>"
    "\<forall>r \<in> set (chainOf (ap_restaurantId ?a) (ap_issuerNif ?a) (ap_environment ?a) ?s). fr_invoiceNumber r \<noteq> ap_number ?a"
    by (elim append_cases) blast
  have due: "due = fs_totalAmount sale - fs_tipAmount sale"
    using buildBreakdown_total[OF w(1)] by (simp add: paidArgs_def toCents_cents assms(3,4))
  have row: "fr_invoiceType row = F2" "fr_orderId row = fs_orderId sale" "fr_totalCents row = due" "fr_status row = VF_PENDING"
    "fr_invoiceNumber row = ap_number ?a" "fr_restaurantId row = ap_restaurantId ?a" "fr_issuerNif row = ap_issuerNif ?a"
    "fr_environment row = ap_environment ?a"
    unfolding w(2) by (simp_all add: recordOf_def paidArgs_def altaOf_def)
  have set: "settingsOf (fs_branchId sale) t = Some (x\<lparr>vs_nextNumber := vs_nextNumber x + 1\<rparr>)"
    using 3(3) unfolding w(3) settingsOf_def bumpNumber_def
    by (simp add: find_upd_where) (use find_SomeD in fastforce)
  have "r = row" using 3(1) by simp
  moreover have "vf_records t = vf_records s @ [row]" by (simp add: w(3))
  moreover have "ap_number ?a = vs_seriesPrefix x @ ''-'' @ serial (vs_nextNumber x)" by (simp add: paidArgs_def)
  ultimately show ?thesis using row due set 3(3) w(4) by simp
qed simp

section \<open>Records the agency has answered\<close>

text \<open>Identifiers are unique and rows that are not waiting do not change.\<close>

definition frozen :: "vf_state \<Rightarrow> vf_state \<Rightarrow> bool" where
  "frozen s t \<longleftrightarrow> length (vf_records s) \<le> length (vf_records t) \<and>
     (\<forall>i < length (vf_records s). fr_id (vf_records t ! i) = fr_id (vf_records s ! i) \<and>
        (\<not> unsent (vf_records s ! i) \<longrightarrow> vf_records t ! i = vf_records s ! i))"

lemma frozen_refl [simp]: "frozen s s" by (simp add: frozen_def)

lemma frozen_trans: "frozen s t \<Longrightarrow> frozen t u \<Longrightarrow> frozen s u"
  unfolding frozen_def by (metis order.trans order.strict_trans2)

lemma frozen_upd:
  "(\<And>r. fr_id (f r) = fr_id r) \<Longrightarrow> (\<And>r. r \<in> set (vf_records s) \<Longrightarrow> P r \<Longrightarrow> unsent r) \<Longrightarrow>
   frozen s (s\<lparr>vf_records := upd_where P f (vf_records s)\<rparr>)"
  by (auto simp: frozen_def upd_where_def)

lemma frozen_keyed: "frozen s t \<Longrightarrow> length (vf_records t) = length (vf_records s) \<Longrightarrow>
    keyed fr_id (vf_records s) \<Longrightarrow> keyed fr_id (vf_records t)"
proof -
  assume "frozen s t" "length (vf_records t) = length (vf_records s)"
  then have "map fr_id (vf_records t) = map fr_id (vf_records s)"
    by (intro nth_equalityI) (auto simp: frozen_def)
  then show "keyed fr_id (vf_records s) \<Longrightarrow> keyed fr_id (vf_records t)" by (simp add: keyed_def)
qed

lemma foldl_settle_frozen:
  "distinct (map fr_id rs) \<Longrightarrow> \<forall>r \<in> set rs. \<forall>x \<in> set (vf_records s). fr_id x = fr_id r \<longrightarrow> unsent x \<Longrightarrow>
   frozen s (foldl (settle now resp) s rs)"
proof (induction rs arbitrary: s)
  case (Cons r rs)
  obtain st c tx where a: "answerOf resp r = (st, c, tx)" by (cases "answerOf resp r") auto
  let ?t = "settle now resp s r"
  have "frozen s ?t" unfolding settle_def a Let_def prod.case
    by (rule frozen_upd) (use Cons.prems(2) in auto)
  moreover have "frozen ?t (foldl (settle now resp) ?t rs)"
  proof (rule Cons.IH)
    show "distinct (map fr_id rs)" using Cons.prems(1) by simp
    show "\<forall>r' \<in> set rs. \<forall>x \<in> set (vf_records ?t). fr_id x = fr_id r' \<longrightarrow> unsent x"
      using Cons.prems by (auto simp: settle_def a row_simps)
  qed
  ultimately show ?case using frozen_trans by simp
qed simp

lemma releaseAfter_frozen: "frozen s (releaseAfter now a b c ms s)"
  unfolding releaseAfter_def by (rule frozen_upd) (auto simp: pendingWhere_def)

lemma keyed_same: "keyed fr_id rs \<Longrightarrow> r \<in> set rs \<Longrightarrow> x \<in> set rs \<Longrightarrow> fr_id x = fr_id r \<Longrightarrow> x = r"
  by (rule keyed_unique)

lemma submitChain_frozen:
  assumes "keyed fr_id (vf_records s)"
  shows "frozen s (snd (submitChain now unseal sender a b c s))"
proof -
  define recs where "recs = take BATCH (sort_key fr_seq (filter (pendingWhere a b c) (vf_records s)))"
  have sub: "r \<in> set (vf_records s) \<and> unsent r" if "r \<in> set recs" for r
    using in_set_takeD[OF that[unfolded recs_def]] by (auto simp: pendingWhere_def)
  have "distinct (map fr_id (filter (pendingWhere a b c) (vf_records s)))"
    using keyed_filter[OF assms] by (simp add: keyed_def)
  moreover have "mset (map fr_id (sort_key fr_seq xs)) = mset (map fr_id xs)" for xs :: "fiscal_record list" by simp
  ultimately have "distinct (map fr_id (sort_key fr_seq (filter (pendingWhere a b c) (vf_records s))))"
    by (metis mset_eq_imp_distinct_iff)
  then have dis: "distinct (map fr_id recs)" by (simp add: recs_def flip: take_map)
  have uns: "\<forall>r \<in> set recs. \<forall>x \<in> set (vf_records s). fr_id x = fr_id r \<longrightarrow> unsent x"
    using sub keyed_same[OF assms] by metis
  have mark: "frozen s (markError m recs s)" for m
    unfolding markError_def by (rule frozen_upd) (use uns in auto)
  have fold: "frozen s (foldl (settle now resp) s recs)" for resp by (rule foldl_settle_frozen[OF dis uns])
  show ?thesis
    unfolding submitChain_def Let_def recs_def[symmetric]
    using frozen_trans[OF mark releaseAfter_frozen] frozen_trans[OF fold releaseAfter_frozen]
    by (auto split: option.split sum.split)
qed

lemma submitChains_frozen:
  assumes "keyed fr_id (vf_records s)"
  shows "frozen s (snd (submitChains now unseal sender cs s))"
proof -
  have "frozen s (snd (foldl (\<lambda>(n, s) (r, f, v).
        let (k, s') = submitChain now unseal sender r f v s in (n + k, s')) (n, s) cs))" for n
    using assms
  proof (induction cs arbitrary: n s)
    case (Cons c cs)
    obtain r f v where c: "c = (r, f, v)" by (cases c)
    obtain k s' where k: "submitChain now unseal sender r f v s = (k, s')" by fastforce
    have f: "frozen s s'" using submitChain_frozen[OF Cons.prems, of now unseal sender r f v] k by simp
    have "length (vf_records s') = length (vf_records s)"
      using arg_cong[OF submitChain_core[of now unseal sender r f v s], of length] k by simp
    then have "keyed fr_id (vf_records s')" using frozen_keyed[OF f _ Cons.prems] by simp
    from frozen_trans[OF f Cons.IH[OF this, of "n + k"]] show ?case by (simp add: c k)
  qed simp
  then show ?thesis by (simp add: submitChains_def)
qed

lemma append_frozen:
  assumes "append e a s' = Inr (row, t)" "vf_records s' = vf_records s" "keyed fr_id (vf_records s)"
  shows "frozen s t \<and> keyed fr_id (vf_records t)"
proof -
  have "vf_records t = vf_records s @ [row]" "fr_id row \<notin> fr_id ` set (vf_records s)"
    using assms(1,2) by (auto elim!: append_cases)
  then show ?thesis using assms(3) by (simp add: frozen_def nth_append row_simps)
qed

lemma fiscal_step_frozen:
  assumes "fiscal_step sha s t" "keyed fr_id (vf_records s)"
  shows "frozen s t \<and> keyed fr_id (vf_records t)"
  using assms(1)
proof (cases rule: fiscal_step.cases)
  case (paid e sale x)
  from paid(1) show ?thesis
    by (cases rule: recordPaidOrder_cases) (use assms(2) append_frozen[of _ _ "bumpNumber (fs_branchId sale) s" _ t s] in auto)
next
  case (refunded e sale i amt x)
  from refunded(1) show ?thesis
    by (cases rule: recordRefund_cases) (use assms(2) append_frozen[of _ _ "bumpRefundNumber (fs_branchId sale) s" _ t s] in auto)
next
  case (submitted now unseal sender sending n)
  have t: "t = snd (submitAll now unseal sender sending s)" using submitted by simp
  have f: "frozen s t" unfolding t submitAll_def using submitChains_frozen[OF assms(2)] by simp
  have "length (vf_records t) = length (vf_records s)" unfolding t
    using arg_cong[OF submitAll_core[of now unseal sender sending s], of length] by simp
  then show ?thesis using f frozen_keyed[OF f _ assms(2)] by simp
next
  case (sent now unseal sender ri bi n)
  from sent obtain b where b: "submitChains now unseal sender [(ri, to_upper (taxIdOf b), TEST), (ri, to_upper (taxIdOf b), PRODUCTION)]
      (s\<lparr>vf_records := upd_where (\<lambda>r. fr_restaurantId r = ri \<and> fr_issuerNif r = to_upper (taxIdOf b) \<and> unsent r)
           (\<lambda>r. r\<lparr>fr_nextAttemptAt := now\<rparr>) (vf_records s)\<rparr>) = (n, t)"
    by (auto simp: sendNow_def ebind_Inr_iff Let_def)
  define s1 where "s1 = s\<lparr>vf_records := upd_where (\<lambda>r. fr_restaurantId r = ri \<and> fr_issuerNif r = to_upper (taxIdOf b) \<and> unsent r)
           (\<lambda>r. r\<lparr>fr_nextAttemptAt := now\<rparr>) (vf_records s)\<rparr>"
  have 1: "frozen s s1" unfolding s1_def by (rule frozen_upd) auto
  have k1: "keyed fr_id (vf_records s1)" using assms(2) by (simp add: s1_def row_simps)
  have f: "frozen s t" using frozen_trans[OF 1 submitChains_frozen[OF k1]] b[folded s1_def] by (metis snd_conv)
  have "length (vf_records t) = length (vf_records s)"
    using arg_cong[OF sendNow_core[OF sent], of length] by simp
  then show ?thesis using f frozen_keyed[OF f _ assms(2)] by simp
next
  case (saved e ri bi enabled envi p)
  then show ?thesis using settings_records(1)[OF saved] assms(2) by (simp add: frozen_def)
next
  case (certified e ins seal ri bi f pw)
  then show ?thesis using settings_records(2)[OF certified] assms(2) by (simp add: frozen_def)
qed


section \<open>A worked example\<close>

definition sample_sha :: "string \<Rightarrow> string" where
  "sample_sha t = replicate 64 (CHR ''a'')"

definition sample_env :: vf_env where
  "sample_env = \<lparr>ve_config = (\<lambda>k. if k = ''VERIFACTU_PRODUCER_ID'' then Some ''P1'' else None), ve_sha = sample_sha,
     ve_day = ''01-02-2026'', ve_timestamp = ''2026-02-01T13:00:00+01:00'', ve_newId = ''r1'', ve_now = 1000\<rparr>"

definition sample_branch :: vf_branch where
  "sample_branch = \<lparr>vb_id = ''b'', vb_restaurantId = ''rest'', vb_country = ''ES'', vb_taxRegime = ES_IVA,
     vb_taxId = Some ''b12345678'', vb_currency = ''EUR'', vb_legalName = None, vb_name = ''Casa Uno''\<rparr>"

definition sample_vf :: vf_state where
  "sample_vf = \<lparr>vf_branches = [sample_branch],
     vf_settingsRows = [(freshSettings ''u1'' ''b'')\<lparr>vs_enabled := True\<rparr>], vf_records = []\<rparr>"

definition sample_sale :: fiscal_sale where
  "sample_sale = \<lparr>fs_orderId = ''o1'', fs_branchId = ''b'', fs_totalAmount = 1310, fs_tipAmount = 100,
     fs_items = [(1210, 2100)]\<rparr>"

lemma sample_lines: "saleLines sample_sale = [\<lparr>gl_grossCents = 1210, gl_ratePercent = 21\<rparr>]"
  using dec_whole[of 100 21] by (simp add: saleLines_def sample_sale_def toCents_cents in_range_def)

lemma sample_paid_ok:
  "\<exists>r. recordPaidOrder sample_env sample_sale sample_vf = Inr (Some r, (bumpNumber ''b'' sample_vf)\<lparr>vf_records := [r]\<rparr>) \<and>
     plain_fields r \<and> fr_environment r = TEST \<and> fr_restaurantId r = ''rest'' \<and> fr_issuerNif r = ''B12345678''"
proof -
  let ?x = "(freshSettings ''u1'' ''b'')\<lparr>vs_enabled := True\<rparr>"
  let ?a = "paidArgs sample_branch ?x sample_sale"
  have pr: "problems (ve_config sample_env) sample_branch = []" by code_simp
  have ser: "serial 1 = ''000001''" by code_simp
  have num: "ap_number ?a = ''T1-000001''" using ser by (simp add: paidArgs_def freshSettings_def)
  have tid: "to_upper (taxIdOf sample_branch) = ''B12345678''" by code_simp
  then have nif: "ap_issuerNif ?a = ''B12345678''" by (simp add: paidArgs_def)
  have vn: "validateInvoiceNumber ''T1-000001'' = Inr ()" by code_simp
  have lg: "legalNameOf sample_branch = ''Casa Uno''" by code_simp
  have ds: "trim (''Servicios de '' @ restauracion) \<noteq> ''''" "length (''Servicios de '' @ restauracion) \<le> 500" by code_simp+
  have tn: "trim ''B12345678'' = ''B12345678''" "ap_issuerName ?a = ''Casa Uno''" "trim ''Casa Uno'' = ''Casa Uno''"
    by (code_simp, simp add: paidArgs_def lg, code_simp)
  have de: "trim (ap_description ?a) \<noteq> ''''" "length (ap_description ?a) \<le> 500" using ds by (simp_all add: paidArgs_def)
  have tgt: "ap_targetCents ?a = 1210" by (simp add: paidArgs_def sample_sale_def toCents_cents in_range_def)
  have ln: "ap_lines ?a = [\<lparr>gl_grossCents = 1210, gl_ratePercent = 21\<rparr>]" by (simp add: paidArgs_def sample_lines)
  have g: "foldE groupLine (ap_lines ?a) [] = Inr [(21, 1210)]" by (simp add: ln groupLine_def IVA_RATES_def)
  obtain bd tax due where b: "buildBreakdown (ap_lines ?a) (ap_targetCents ?a) = Inr (bd, tax, due)"
    unfolding buildBreakdown_def g Let_def by simp
  have bs: "due = 1210" "sum_list (map (\<lambda>b. bl_baseCents b + bl_quotaCents b) bd) = 1210" "tax = sum_list (map bl_quotaCents bd)"
    "distinct (map bl_rate bd)" "bl_rate ` set bd = {21}"
    using breakdown_sums[OF b] by (simp_all add: tgt ln)
  have "card (set (map bl_rate bd)) = length (map bl_rate bd)" using distinct_card[OF bs(4)] .
  then have l1: "length bd = 1" using bs(5) by simp
  let ?r = "altaOf sample_env ?a None (bd, tax, due)"
  have va: "validateAlta ?r = Inr ()"
    using l1 bs by (subst validateAlta_sums) (auto simp: altaOf_def num nif vn tn de)
  obtain qr where qr: "qrUrl (ap_environment ?a) (al_id ?r) (al_totalCents ?r) = Inr qr"
    by (simp add: qrUrl_def altaOf_def num nif vn tn Let_def)
  let ?row = "recordOf sample_env ?a None ?r qr"
  have ap: "append sample_env ?a (bumpNumber ''b'' sample_vf) = Inr (?row, (bumpNumber ''b'' sample_vf)\<lparr>vf_records := [?row]\<rparr>)"
    by (simp add: append_def b va qr Let_def chainOf_def sample_vf_def lastRecord_def previousOf_def asBadRequest_def count_where_def)
  have fb: "findBranch ''b'' sample_vf = Some sample_branch" "settingsOf ''b'' sample_vf = Some ?x"
    by (simp_all add: findBranch_def settingsOf_def sample_vf_def sample_branch_def freshSettings_def)
  have "recordPaidOrder sample_env sample_sale sample_vf = Inr (Some ?row, (bumpNumber ''b'' sample_vf)\<lparr>vf_records := [?row]\<rparr>)"
    using ap fb pr by (simp add: recordPaidOrder_def sample_sale_def[THEN arg_cong, of fs_branchId] sample_vf_def[THEN arg_cong, of vf_records]
        sample_branch_def[THEN arg_cong, of vb_country] freshSettings_def)
  moreover have "plain_fields ?row"
    by (simp add: plain_fields_def recordOf_def num nif tn no_amp_def sample_env_def trim_def js_space_def)
  moreover have "fr_environment ?row = TEST" "fr_restaurantId ?row = ''rest''" "fr_issuerNif ?row = ''B12345678''"
    by (simp_all add: recordOf_def nif) (simp_all add: paidArgs_def freshSettings_def sample_branch_def)
  ultimately show ?thesis by blast
qed

lemma sample_sha_ok: "sha_ok sample_sha"
  by (simp add: sha_ok_def sample_sha_def is_digit_def list_all_iff)

lemma sample_step: "recordPaidOrder sample_env sample_sale sample_vf = Inr (x, t) \<Longrightarrow> fiscal_step sample_sha sample_vf t"
  by (erule fiscal_step.paid) (simp add: sample_env_def)

lemma sample_intact: "intact sha sample_vf"
  by (simp add: intact_def chainOf_def sample_vf_def)

theorem fiscal_log_verifies_witness:
  "\<exists>r t. fiscal_step sample_sha sample_vf t \<and> vf_records t = [r] \<and>
     verifyChain sample_sha ''rest'' ''b'' t = Inr (Intact 1)"
proof -
  obtain r where r: "recordPaidOrder sample_env sample_sale sample_vf = Inr (Some r, (bumpNumber ''b'' sample_vf)\<lparr>vf_records := [r]\<rparr>)"
    "fr_environment r = TEST" "fr_restaurantId r = ''rest''" "fr_issuerNif r = ''B12345678''" using sample_paid_ok by blast
  let ?t = "(bumpNumber ''b'' sample_vf)\<lparr>vf_records := [r]\<rparr>"
  have b: "branchOrThrow ''rest'' ''b'' ?t = Inr sample_branch"
    by (simp add: branchOrThrow_def bumpNumber_def sample_vf_def sample_branch_def)
  have tid: "to_upper (taxIdOf sample_branch) = ''B12345678''" by code_simp
  have "(fiscal_step sample_sha)\<^sup>*\<^sup>* sample_vf ?t" using sample_step[OF r(1)] by blast
  from fiscal_log_verifies[OF this sample_sha_ok sample_intact b]
  have "verifyChain sample_sha ''rest'' ''b'' ?t = Inr (Intact 1)" using r(2-4) by (simp add: tid chainOf_def in_chain_def)
  then show ?thesis using sample_step[OF r(1)] by fastforce
qed

theorem order_invoiced_once_witness:
  "\<exists>r t. recordPaidOrder sample_env sample_sale sample_vf = Inr (Some r, t) \<and>
     recordPaidOrder (sample_env\<lparr>ve_newId := ''r2''\<rparr>) (sample_sale\<lparr>fs_totalAmount := 5\<rparr>) t = Inr (Some r, t) \<and>
     (\<exists>r'. Some r = Some r' \<and> core r' = core r)"
proof -
  obtain r where r: "recordPaidOrder sample_env sample_sale sample_vf = Inr (Some r, (bumpNumber ''b'' sample_vf)\<lparr>vf_records := [r]\<rparr>)"
    using sample_paid_ok by blast
  let ?t = "(bumpNumber ''b'' sample_vf)\<lparr>vf_records := [r]\<rparr>" and ?e = "sample_env\<lparr>ve_newId := ''r2''\<rparr>"
  have pr: "problems (ve_config sample_env) sample_branch = []" by code_simp
  have ft: "fr_orderId r = ''o1''" "fr_invoiceType r = F2"
    using r by (auto elim!: recordPaidOrder_cases append_cases simp: recordOf_def paidArgs_def sample_sale_def sample_vf_def)
  have "recordPaidOrder ?e (sample_sale\<lparr>fs_totalAmount := 5\<rparr>) ?t = Inr (Some r, ?t)"
    using pr ft by (simp add: recordPaidOrder_def findBranch_def settingsOf_def bumpNumber_def sample_vf_def sample_sale_def
        row_simps freshSettings_def sample_branch_def[THEN arg_cong, of vb_country] sample_branch_def[THEN arg_cong, of vb_id])
  moreover from order_invoiced_once[OF r rtranclp.rtrancl_refl this] have "\<exists>r'. Some r = Some r' \<and> core r' = core r"
    by (simp add: sample_sale_def)
  ultimately show ?thesis using r by blast
qed

theorem tampering_is_found_witness:
  "\<exists>r. checkRecords sample_sha TEST None 1 0 [r] = Intact 1 \<and>
     checkRecords sample_sha TEST None 1 0 [r\<lparr>fr_status := VF_ACCEPTED\<rparr>] = Intact 1 \<and>
     map fixed [r] = map fixed [r\<lparr>fr_status := VF_ACCEPTED\<rparr>]"
proof -
  obtain r where r: "recordPaidOrder sample_env sample_sale sample_vf = Inr (Some r, (bumpNumber ''b'' sample_vf)\<lparr>vf_records := [r]\<rparr>)"
    "plain_fields r" "fr_environment r = TEST" "fr_restaurantId r = ''rest''" "fr_issuerNif r = ''B12345678''"
    using sample_paid_ok by blast
  let ?t = "(bumpNumber ''b'' sample_vf)\<lparr>vf_records := [r]\<rparr>" and ?u = "r\<lparr>fr_status := VF_ACCEPTED\<rparr>"
  have "intact sample_sha ?t" by (rule fiscal_step_intact[OF sample_step[OF r(1)] sample_sha_ok sample_intact])
  then have "linked sample_sha None 1 (chainOf ''rest'' ''B12345678'' TEST ?t)" by (simp only: intact_def)
  then have l: "linked sample_sha None 1 [r]" using r(3-5) by (simp add: chainOf_def in_chain_def)
  have "core ?u = core r" by (simp add: core_def)
  then have lu: "linked sample_sha None 1 [?u]"     using l linked_core[of "[?u]" "[r]" sample_sha None 1] by (simp only: list.map)
  have c: "checkRecords sample_sha TEST None 1 0 [r] = Intact 1" "checkRecords sample_sha TEST None 1 0 [?u] = Intact 1"
    using l lu by (simp_all add: checkRecords_Intact del: checkRecords.simps linked.simps)
  have x: "chain_text ?u = chain_text r" "plain_fields ?u" using r(2) by (simp_all add: chain_text_def plain_fields_def)
  have inj: "inj_on (fingerprint sample_sha) (chain_text ` (set [r] \<union> set [?u]))" by (simp add: x(1))
  have pl: "\<forall>q \<in> set [r] \<union> set [?u]. plain_fields q" using r(2) x(2) by simp
  have "map fixed [r] = map fixed [?u]" by (rule tampering_is_found[OF c _ _ _ inj pl]) simp_all
  then show ?thesis using c by blast
qed

theorem paid_sale_invoiced_witness:
  "\<exists>r t. recordPaidOrder sample_env sample_sale sample_vf = Inr (Some r, t) \<and> vf_records t = [r] \<and> fr_totalCents r = 1210"
proof -
  obtain r where r: "recordPaidOrder sample_env sample_sale sample_vf = Inr (Some r, (bumpNumber ''b'' sample_vf)\<lparr>vf_records := [r]\<rparr>)"
    using sample_paid_ok by blast
  have rg: "in_range (fs_totalAmount sample_sale)" "in_range (fs_tipAmount sample_sale)"
    by (simp_all add: sample_sale_def in_range_def)
  have no: "\<forall>q \<in> set (vf_records sample_vf). \<not> (fr_orderId q = fs_orderId sample_sale \<and> fr_invoiceType q = F2)"
    by (simp add: sample_vf_def)
  have "fr_totalCents r = 1210" using paid_sale_invoiced[OF r no rg] by (simp add: sample_sale_def)
  then show ?thesis using r by auto
qed

text \<open>A log with one accepted and one waiting record, and a sender that cannot reach the agency.\<close>

definition sample_row :: "string \<Rightarrow> int \<Rightarrow> vf_status \<Rightarrow> fiscal_record" where
  "sample_row i n st = \<lparr>fr_id = i, fr_restaurantId = ''rest'', fr_branchId = ''b'', fr_issuerNif = ''B12345678'', fr_seq = n,
     fr_invoiceType = F2, fr_invoiceNumber = i, fr_issueDate = ''01-02-2026'', fr_taxTotalCents = 0, fr_totalCents = 0,
     fr_generatedAt = '''', fr_previousHash = None, fr_hash = '''', fr_xml = '''', fr_qrUrl = '''', fr_environment = TEST,
     fr_orderId = i, fr_refundId = None, fr_status = st, fr_attempts = 0, fr_nextAttemptAt = 0, fr_csv = None,
     fr_errorCode = None, fr_errorText = None, fr_submittedAt = None\<rparr>"

definition sample_log :: vf_state where
  "sample_log = sample_vf\<lparr>vf_settingsRows := [(freshSettings ''u1'' ''b'')\<lparr>vs_enabled := True, vs_certEncrypted := Some ''c'',
       vs_certPasswordEncrypted := Some ''p''\<rparr>],
     vf_records := [sample_row ''r1'' 1 VF_ACCEPTED, sample_row ''r2'' 2 VF_PENDING]\<rparr>"

lemma sample_submit:
  "map fr_status (vf_records (snd (submitAll 1000 (\<lambda>c _. Some c) (\<lambda>_ _ _ _. Inl ''down'') False sample_log))) = [VF_ACCEPTED, VF_ERROR]"
  by (simp add: submitAll_def submitChains_def submitChain_def Let_def sample_log_def sample_row_def sample_vf_def unsent_def
      pendingWhere_def in_chain_def findBranch_def settingsOf_def sample_branch_def freshSettings_def BATCH_def
      markError_def releaseAfter_def row_simps)


text \<open>
  The series check compares tax IDs as stored while the chain is keyed by the trimmed upper-case tax ID: two
  branches of one company whose tax ID differs in case share a chain and both get the series \<open>T1\<close>, so that
  the second one's first invoice repeats a number of the chain.
\<close>

definition sample_branch2 :: vf_branch where
  "sample_branch2 = sample_branch\<lparr>vb_id := ''b2'', vb_taxId := Some ''B12345678''\<rparr>"

lemma series_clash_missed:
  "\<exists>t. saveSettings sample_env ''rest'' ''b2'' True TEST ''T1''
       (sample_vf\<lparr>vf_branches := [sample_branch, sample_branch2]\<rparr>) = Inr t \<and>
     map vs_seriesPrefix (vf_settingsRows t) = [''T1'', ''T1''] \<and>
     to_upper (taxIdOf sample_branch) = to_upper (taxIdOf sample_branch2)"
proof -
  let ?s = "sample_vf\<lparr>vf_branches := [sample_branch, sample_branch2]\<rparr>"
  have p: "problems (ve_config sample_env) sample_branch2 = []" "trim ''T1'' = ''T1''" by code_simp+
  have pv: "prefix_valid ''T1''" by (simp add: prefix_valid_def is_alnum_def is_digit_def)
  have n: "vb_id sample_branch = ''b''" "vb_taxId sample_branch = Some ''b12345678''" "vb_restaurantId sample_branch = ''rest''"
    "vb_id sample_branch2 = ''b2''" "vb_taxId sample_branch2 = Some ''B12345678''" "vb_restaurantId sample_branch2 = ''rest''"
    by (simp_all add: sample_branch_def sample_branch2_def)
  have b: "branchOrThrow ''rest'' ''b2'' ?s = Inr sample_branch2" by (simp add: branchOrThrow_def n)
  have no: "settingsOf ''b2'' ?s = None" by (simp add: settingsOf_def sample_vf_def freshSettings_def)
  have row: "vf_settingsRows ?s = [(freshSettings ''u1'' ''b'')\<lparr>vs_enabled := True\<rparr>]" by (simp add: sample_vf_def)
  have clash: "count_where (\<lambda>x. vs_seriesPrefix x = ''T1'' \<and> vs_branchId x \<noteq> ''b2'' \<and>
      0 < count_where (\<lambda>c. vb_id c = vs_branchId x \<and> vb_restaurantId c = ''rest'' \<and>
        vb_taxId c = vb_taxId sample_branch2) (vf_branches ?s)) (vf_settingsRows ?s) = 0"
    unfolding row by (simp add: count_where_def n freshSettings_def)
  have A: "saveSettings sample_env ''rest'' ''b2'' True TEST ''T1'' ?s = Inr (putSettings (ve_newId sample_env) ''b2''
      (\<lambda>x. x\<lparr>vs_enabled := True, vs_environment := TEST, vs_seriesPrefix := ''T1''\<rparr>) ?s)"
    unfolding saveSettings_def b ebind.simps Let_def p no clash using pv by simp
  have B: "map vs_seriesPrefix (vf_settingsRows (putSettings (ve_newId sample_env) ''b2''
      (\<lambda>x. x\<lparr>vs_enabled := True, vs_environment := TEST, vs_seriesPrefix := ''T1''\<rparr>) ?s)) = [''T1'', ''T1'']"
    unfolding putSettings_def no using row by (simp add: freshSettings_def)
  have C: "to_upper (taxIdOf sample_branch) = to_upper (taxIdOf sample_branch2)" by code_simp
  show ?thesis by (rule exI, intro conjI, rule A, rule B, rule C)
qed

end
