(* ===== verification/Order_Intake.thy ===== *)
theory Order_Intake
  imports Order_State
begin

text \<open>
  Taking orders: \<open>createOrder\<close> and \<open>addItems\<close> of \<open>modules/orders/orders.service.ts\<close> with what they call
  (pricing a cart line, checking modifiers, the order number of the day, delivery zones), the request
  schemas of \<open>packages/types/src/orders.ts\<close>, and the release of scheduled orders. Messages that
  interpolate values are shortened.
\<close>

section \<open>Requests\<close>

record cart_item =
  ct_menuItemId :: string
  ct_quantity :: int
  ct_kitchenNote :: "string option"
  ct_modifierIds :: "string list"
  ct_portion :: "portion_kind option"
  ct_customPrice :: "num option"
  ct_customLabel :: "string option"

record delivery_request =
  dr_address :: string
  dr_pincode :: string
  dr_phone :: string
  dr_lat :: "num option"
  dr_lng :: "num option"
  dr_place :: "string option"

record create_order_dto =
  cr_type :: order_type
  cr_tableId :: "string option"
  cr_guestCount :: "int option"
  cr_customerId :: "string option"
  cr_guestName :: "string option"
  cr_notes :: "string option"
  cr_delivery :: "delivery_request option"
  cr_scheduledFor :: "int option"
  cr_items :: "cart_item list"

definition cartItemSchema :: "cart_item \<Rightarrow> bool" where
  "cartItemSchema c \<longleftrightarrow> 0 < ct_quantity c \<and>
     (case ct_customPrice c of None \<Rightarrow> True | Some p \<Rightarrow> 0 \<le> p \<and> p \<le> 1000000) \<and>
     (case ct_customLabel c of None \<Rightarrow> True | Some l \<Rightarrow> length (trim l) \<le> 40)"

definition deliveryInfoSchema :: "delivery_request \<Rightarrow> bool" where
  "deliveryInfoSchema d \<longleftrightarrow> 5 \<le> length (trim (dr_address d)) \<and> length (trim (dr_address d)) \<le> 300 \<and>
     3 \<le> length (trim (dr_pincode d)) \<and> length (trim (dr_pincode d)) \<le> 12 \<and>
     6 \<le> length (trim (dr_phone d)) \<and> length (trim (dr_phone d)) \<le> 20 \<and>
     (case dr_lat d of None \<Rightarrow> True | Some x \<Rightarrow> - 90 \<le> x \<and> x \<le> 90) \<and>
     (case dr_lng d of None \<Rightarrow> True | Some x \<Rightarrow> - 180 \<le> x \<and> x \<le> 180) \<and>
     (case dr_place d of None \<Rightarrow> True | Some p \<Rightarrow> length (trim p) \<le> 200)"

definition createOrderSchema :: "create_order_dto \<Rightarrow> bool" where
  "createOrderSchema d \<longleftrightarrow> cr_items d \<noteq> [] \<and> list_all cartItemSchema (cr_items d) \<and>
     (case cr_guestCount d of None \<Rightarrow> True | Some n \<Rightarrow> 0 < n) \<and>
     (case cr_guestName d of None \<Rightarrow> True | Some g \<Rightarrow> 1 \<le> length (trim g) \<and> length (trim g) \<le> 60) \<and>
     (case cr_delivery d of None \<Rightarrow> True | Some x \<Rightarrow> deliveryInfoSchema x)"

record create_options =
  op_channel :: order_channel
  op_requireAcceptance :: bool
  op_origin :: order_origin
  op_minOrderAmount :: "num option"
  op_priceAdjust :: "online_price_adjust option"
  op_historical :: "int option"

definition present :: "string option \<Rightarrow> bool" where
  "present x \<longleftrightarrow> x \<noteq> None \<and> x \<noteq> Some ''''"

section \<open>Menu and modifiers\<close>

definition assertOrderableOnWebsite :: "config \<Rightarrow> string \<Rightarrow> string list \<Rightarrow> unit res" where
  "assertOrderableOnWebsite cfg branchId ids =
     (if filter (\<lambda>m. mi_id m \<in> set ids \<and> mi_branchId m = branchId \<and> \<not> mi_showOnWebsite m) (cf_menu cfg) \<noteq> []
      then Inl (BadRequest ''is not available for online ordering'') else Inr ())"

text \<open>A menu item as it is priced for this order.\<close>

record sale_item =
  si_id :: string
  si_name :: string
  si_price :: num
  si_halfPrice :: "num option"
  si_taxRate :: num

definition saleItem :: "online_price_adjust option \<Rightarrow> menu_item \<Rightarrow> sale_item" where
  "saleItem adjust m = \<lparr>si_id = mi_id m, si_name = mi_name m, si_price = adjustOnlinePrice (cents (mi_price m)) adjust,
     si_halfPrice = map_option (\<lambda>h. adjustOnlinePrice (cents h) adjust) (mi_halfPrice m),
     si_taxRate = cents (mi_taxRatePercent m)\<rparr>"

definition menuItemsFor :: "config \<Rightarrow> string \<Rightarrow> online_price_adjust option \<Rightarrow> string list \<Rightarrow> sale_item list res" where
  "menuItemsFor cfg branchId adjust ids =
     (let rows = filter (\<lambda>m. mi_id m \<in> set ids \<and> mi_branchId m = branchId) (cf_menu cfg) in
      if length rows \<noteq> length ids then Inl (BadRequest ''One or more menu items are invalid for this branch'')
      else Inr (map (saleItem adjust) rows))"

definition modifiersFor :: "config \<Rightarrow> string list \<Rightarrow> modifier_row list res" where
  "modifiersFor cfg ids =
     (let rows = filter (\<lambda>m. md_id m \<in> set ids) (cf_modifiers cfg) in
      if length rows \<noteq> length ids then Inl (BadRequest ''One or more modifiers are invalid'') else Inr rows)"

definition checkGroup :: "string list \<Rightarrow> modifier_group \<Rightarrow> unit res" where
  "checkGroup picks g =
     (let picked = int (length (filter (\<lambda>i. i \<in> set (mg_modifierIds g)) picks));
          low = (if mg_isRequired g then max 1 (mg_minSelect g) else mg_minSelect g)
      in if picked < low \<or> mg_maxSelect g < picked then Inl (BadRequest ''Choose the options of this group'') else Inr ())"

definition validateModifierSelections :: "config \<Rightarrow> string \<Rightarrow> cart_item list \<Rightarrow> bool \<Rightarrow> unit res" where
  "validateModifierSelections cfg branchId items enforceLimits =
     (if \<not> enforceLimits \<and> list_all (\<lambda>i. ct_modifierIds i = []) items then Inr ()
      else
        (let links = filter (\<lambda>(i, g). i \<in> set (map ct_menuItemId items) \<and> mg_branchId g = branchId) (cf_links cfg) in
         ebind (mapE (\<lambda>item.
            let groups = map snd (filter (\<lambda>(i, g). i = ct_menuItemId item) links);
                allowed = set (concat (map mg_modifierIds groups))
            in if list_ex (\<lambda>i. i \<notin> allowed) (ct_modifierIds item)
               then Inl (BadRequest ''A selected option is not available for this item'')
               else if \<not> enforceLimits then Inr ()
               else ebind (mapE (checkGroup (ct_modifierIds item)) groups) (\<lambda>_. Inr ())) items)
          (\<lambda>_. Inr ())))"

section \<open>Pricing a cart line\<close>

record line_input =
  ln_menuItemId :: string
  ln_name :: string
  ln_unitPrice :: num
  ln_taxRate :: num
  ln_quantity :: int
  ln_kitchenNote :: "string option"
  ln_modifiers :: "modifier_row list"
  ln_priced :: priced_line

text \<open>The portion's base price and the label it adds to the name.\<close>

definition portionOf :: "cart_item \<Rightarrow> sale_item \<Rightarrow> bool \<Rightarrow> (num \<times> string) res" where
  "portionOf c m allowCustom =
     (case ct_portion c of
        None \<Rightarrow> Inr (si_price m, '''')
      | Some CUSTOM_PORTION \<Rightarrow>
          if \<not> allowCustom then Inl (BadRequest ''Custom portions are staff-only'')
          else (case ct_customPrice c of
             None \<Rightarrow> Inl (BadRequest ''Custom portion needs a price'')
           | Some p \<Rightarrow> Inr (p, '' ('' @ (if present (ct_customLabel c) then the (ct_customLabel c) else ''Custom'') @ '')''))
      | Some p \<Rightarrow>
          (case si_halfPrice m of
             None \<Rightarrow> Inl (BadRequest ''has no half/full portions'')
           | Some h \<Rightarrow>
               (let base = (if p = HALF then h else si_price m);
                    base' = (if allowCustom \<and> ct_customPrice c \<noteq> None then the (ct_customPrice c) else base)
                in Inr (base', if p = HALF then '' (Half)'' else '' (Full)''))))"

definition buildLine ::
  "cart_item \<Rightarrow> sale_item list \<Rightarrow> modifier_row list \<Rightarrow> tax_mode \<Rightarrow> bool \<Rightarrow> line_input res" where
  "buildLine c menu mods taxMode allowCustom =
     (case find (\<lambda>m. si_id m = ct_menuItemId c) menu of
        None \<Rightarrow> Inl (BadRequest ''Menu item not found'')
      | Some m \<Rightarrow>
          ebind (portionOf c m allowCustom) (\<lambda>(base, suffix).
          ebind (mapE (\<lambda>i. case find (\<lambda>x. md_id x = i) mods of
                             None \<Rightarrow> Inl (BadRequest ''Modifier not found'') | Some x \<Rightarrow> Inr x) (ct_modifierIds c)) (\<lambda>sel.
          let modifierTotal = fsum (map (\<lambda>x. cents (md_priceAdjustment x)) sel);
              unit = toEffectiveInclusiveUnitPrice (round2 (fadd base modifierTotal)) (si_taxRate m) taxMode
          in Inr \<lparr>ln_menuItemId = si_id m, ln_name = si_name m @ suffix, ln_unitPrice = fsub unit (round2 modifierTotal),
                  ln_taxRate = si_taxRate m, ln_quantity = ct_quantity c, ln_kitchenNote = ct_kitchenNote c,
                  ln_modifiers = sel,
                  ln_priced = priceLine \<lparr>quantity = ct_quantity c, unitPriceInclusive = unit, taxRatePercent = si_taxRate m\<rparr>\<rparr>)))"

section \<open>The order number\<close>

fun str_less :: "string \<Rightarrow> string \<Rightarrow> bool" where
  "str_less _ [] = False"
| "str_less [] (_ # _) = True"
| "str_less (x # xs) (y # ys) \<longleftrightarrow> (of_char x :: nat) < of_char y \<or> (x = y \<and> str_less xs ys)"

definition greatest :: "string list \<Rightarrow> string option" where
  "greatest xs = (case xs of [] \<Rightarrow> None | x # rest \<Rightarrow> Some (foldl (\<lambda>a b. if str_less a b then b else a) x rest))"

text \<open>\<open>Number(orderNumber.split('-')[1])\<close>, or 0 when that is not a number.\<close>

definition sequenceOf :: "string \<Rightarrow> nat" where
  "sequenceOf n =
     (let part = takeWhile (\<lambda>c. c \<noteq> CHR ''-'') (drop 1 (dropWhile (\<lambda>c. c \<noteq> CHR ''-'') n))
      in if list_all is_digit part then str_nat part else 0)"

definition nextOrderNumber :: "runtime \<Rightarrow> string \<Rightarrow> db \<Rightarrow> string" where
  "nextOrderNumber rt branchId s =
     (let today = rt_datePart rt @ ''-'';
          latest = greatest (filter (prefix today) (map od_orderNumber (filter (\<lambda>r. od_branchId r = branchId) (db_orders s))));
          last = (case latest of None \<Rightarrow> 0 | Some n \<Rightarrow> sequenceOf n)
      in today @ pad_start 4 (CHR ''0'') (nat_str (last + 1)))"

section \<open>Delivery and schedule\<close>

definition deliveryFor :: "config \<Rightarrow> runtime \<Rightarrow> string \<Rightarrow> create_order_dto \<Rightarrow> num \<Rightarrow> (delivery_info option \<times> int) res" where
  "deliveryFor cfg rt branchId d sub =
     (if cr_type d \<noteq> DELIVERY then Inr (None, 0)
      else
        (let zones = filter (\<lambda>z. dz_branchId z = branchId \<and> dz_isActive z) (cf_zones cfg);
             info = \<lparr>dl_zoneId = None, dl_address = map_option dr_address (cr_delivery d),
                     dl_pincode = map_option dr_pincode (cr_delivery d), dl_phone = map_option dr_phone (cr_delivery d),
                     dl_lat = Option.bind (cr_delivery d) dr_lat, dl_lng = Option.bind (cr_delivery d) dr_lng,
                     dl_place = Option.bind (cr_delivery d) dr_place, dl_status = UNASSIGNED, dl_etaAt = None\<rparr>
         in case cr_delivery d of
              None \<Rightarrow> if zones \<noteq> [] then Inl (BadRequest ''Delivery orders need an address, pincode and phone'')
                       else Inr (Some info, 0)
            | Some r \<Rightarrow>
                if zones = [] then Inr (Some info, 0)
                else case find (\<lambda>z. dr_pincode r \<in> set (dz_pincodes z)) zones of
                  None \<Rightarrow> Inl (BadRequest ''Sorry, we do not deliver to that pincode'')
                | Some z \<Rightarrow>
                    if sub < cents (dz_minOrderAmount z) then Inl (BadRequest ''Below the minimum order for this zone'')
                    else Inr (Some (info\<lparr>dl_zoneId := Some (dz_id z), dl_etaAt := Some (rt_now rt + dz_etaMinutes z * 60000)\<rparr>),
                              dz_fee z)))"

definition scheduleFor :: "runtime \<Rightarrow> int option \<Rightarrow> unit res" where
  "scheduleFor rt t =
     (case t of None \<Rightarrow> Inr ()
      | Some t \<Rightarrow> if t < rt_now rt + 10 * 60000
                  then Inl (BadRequest ''Scheduled time must be at least 10 minutes from now'') else Inr ())"

section \<open>createOrder\<close>

definition acceptanceFor :: "config \<Rightarrow> string \<Rightarrow> create_options \<Rightarrow> acceptance_status" where
  "acceptanceFor cfg branchId opts =
     (if \<not> op_requireAcceptance opts then NOT_REQUIRED
      else case branchOf cfg branchId of
             None \<Rightarrow> PENDING
           | Some b \<Rightarrow> if br_autoConfirmOrders b then ORDER_ACCEPTED else PENDING)"

text \<open>A table or customer of another branch is refused.\<close>

definition assertTableOfBranch :: "string \<Rightarrow> string option \<Rightarrow> db \<Rightarrow> unit res" where
  "assertTableOfBranch branchId tableId s =
     (if present tableId \<and> find (\<lambda>t. Some (tb_id t) = tableId \<and> tb_branchId t = branchId) (db_tables s) = None
      then Inl (BadRequest ''Table is invalid for this branch'') else Inr ())"

definition assertCustomerOfBranch :: "string \<Rightarrow> string option \<Rightarrow> db \<Rightarrow> unit res" where
  "assertCustomerOfBranch branchId customerId s =
     (if present customerId \<and>
         find (\<lambda>c. Some (cu_id c) = customerId \<and> cu_branchId c = branchId) (ps_customers (db_points s)) = None
      then Inl (BadRequest ''Customer is invalid for this branch'') else Inr ())"

text \<open>The checks and the priced lines of a new order, in the order the handler makes them.\<close>

definition orderLines :: "config \<Rightarrow> string \<Rightarrow> create_order_dto \<Rightarrow> create_options \<Rightarrow> db \<Rightarrow> line_input list res" where
  "orderLines cfg branchId d opts s =
     (let ids = uniq (map ct_menuItemId (cr_items d));
          online = (op_channel opts = ONLINE)
      in ebind (if online then assertOrderableOnWebsite cfg branchId ids else Inr ()) (\<lambda>_.
         ebind (menuItemsFor cfg branchId (op_priceAdjust opts) ids) (\<lambda>menu.
         ebind (modifiersFor cfg (uniq (concat (map ct_modifierIds (cr_items d))))) (\<lambda>mods.
         ebind (validateModifierSelections cfg branchId (cr_items d) online) (\<lambda>_.
         ebind (assertTableOfBranch branchId (cr_tableId d) s) (\<lambda>_.
         ebind (assertCustomerOfBranch branchId (cr_customerId d) s) (\<lambda>_.
         mapE (\<lambda>c. buildLine c menu mods (getBranchTaxMode cfg branchId) (\<not> online)) (cr_items d))))))))"

definition linesTotals :: "line_input list \<Rightarrow> order_totals" where
  "linesTotals lines = computeOrderTotals (map ln_priced lines) 0 0"

definition assertMinOrder :: "num option \<Rightarrow> num \<Rightarrow> unit res" where
  "assertMinOrder m sub =
     (case m of None \<Rightarrow> Inr ()
      | Some v \<Rightarrow> if v \<noteq> 0 \<and> sub < v then Inl (BadRequest ''Minimum order for online ordering'') else Inr ())"

text \<open>The line rows of an order, each under a new identifier.\<close>

definition lineRow :: "string \<Rightarrow> string \<Rightarrow> line_input \<Rightarrow> order_item" where
  "lineRow i orderId l = \<lparr>oi_id = i, oi_orderId = orderId, oi_menuItemId = ln_menuItemId l, oi_name = ln_name l,
     oi_unitPrice = to_column 100 (ln_unitPrice l), oi_taxRate = to_column 100 (ln_taxRate l),
     oi_quantity = ln_quantity l, oi_lineTotal = to_column 100 (lineTotal (ln_priced l)),
     oi_kitchenNote = ln_kitchenNote l,
     oi_modifiers = map (\<lambda>m. (md_id m, md_name m, md_priceAdjustment m)) (ln_modifiers l)\<rparr>"

fun lineRows :: "runtime \<Rightarrow> string \<Rightarrow> line_input list \<Rightarrow> nat \<Rightarrow> order_item list" where
  "lineRows rt orderId [] n = []"
| "lineRows rt orderId (l # ls) n = lineRow (rt_ids rt n) orderId l # lineRows rt orderId ls (n + 1)"

definition insertLines :: "runtime \<Rightarrow> string \<Rightarrow> line_input list \<Rightarrow> db \<Rightarrow> order_item list \<times> db" where
  "insertLines rt orderId lines s =
     (let rows = lineRows rt orderId lines (db_next s)
      in (rows, s\<lparr>db_items := db_items s @ rows, db_next := db_next s + length lines\<rparr>))"

text \<open>The primary key and the unique indexes of the order table; a missing value never clashes.\<close>

definition orderClash :: "order \<Rightarrow> order \<Rightarrow> bool" where
  "orderClash a b \<longleftrightarrow> od_id a = od_id b \<or> od_branchId a = od_branchId b \<and>
     (od_orderNumber a = od_orderNumber b \<or>
      (og_clientRequestId (od_origin a) \<noteq> None \<and> og_clientRequestId (od_origin a) = og_clientRequestId (od_origin b)) \<or>
      (og_externalSource (od_origin a) \<noteq> None \<and> og_externalOrderId (od_origin a) \<noteq> None \<and>
       og_externalSource (od_origin a) = og_externalSource (od_origin b) \<and>
       og_externalOrderId (od_origin a) = og_externalOrderId (od_origin b)))"

definition insertOrder :: "order \<Rightarrow> db \<Rightarrow> db res" where
  "insertOrder r s = (if list_ex (orderClash r) (db_orders s) then Inl UniqueViolation
                      else Inr (s\<lparr>db_orders := db_orders s @ [r]\<rparr>))"

definition newOrder :: "string \<Rightarrow> runtime \<Rightarrow> string \<Rightarrow> string \<Rightarrow> create_order_dto \<Rightarrow> create_options \<Rightarrow> acceptance_status
    \<Rightarrow> order_totals \<Rightarrow> delivery_info option \<times> int \<Rightarrow> string \<Rightarrow> order" where
  "newOrder i rt branchId userId d opts acceptance t delivery orderNumber =
     \<lparr>od_id = i, od_branchId = branchId, od_orderNumber = orderNumber, od_type = cr_type d, od_status = OPEN,
      od_channel = op_channel opts, od_acceptance = acceptance, od_acceptedBy = None, od_tableId = cr_tableId d,
      od_guestCount = cr_guestCount d, od_guestName = cr_guestName d, od_customerId = cr_customerId d,
      od_notes = cr_notes d, od_createdById = userId,
      od_createdAt = (case op_historical opts of None \<Rightarrow> rt_now rt | Some t \<Rightarrow> t), od_origin = op_origin opts,
      od_subtotal = to_column 100 (subtotal t), od_taxAmount = to_column 100 (totalTax t), od_discountAmount = 0,
      od_discountEntry = None, od_discountReason = None, od_couponCode = None, od_promotionName = None,
      od_requestedRedeemPoints = 0, od_loyaltyPointsRedeemed = 0, od_loyaltyDiscountAmount = 0, od_tipAmount = 0,
      od_deliveryFee = snd delivery, od_totalAmount = to_column 100 (subtotal t), od_delivery = fst delivery,
      od_scheduledFor = cr_scheduledFor d, od_cancel = None, od_billedAt = None\<rparr>"

text \<open>Whether an order goes to the kitchen at once.\<close>

definition sendsAtOnce :: "runtime \<Rightarrow> order \<Rightarrow> bool \<Rightarrow> bool" where
  "sendsAtOnce rt r historical \<longleftrightarrow> od_acceptance r \<noteq> PENDING \<and> \<not> isDeferred rt (od_scheduledFor r) \<and> \<not> historical"

definition occupyTable :: "runtime \<Rightarrow> string option \<Rightarrow> bool \<Rightarrow> db \<Rightarrow> db res" where
  "occupyTable rt tableId historical s =
     (if present tableId \<and> \<not> historical then setTable rt (the tableId) OCCUPIED s else Inr s)"

definition createOrderTx :: "config \<Rightarrow> runtime \<Rightarrow> order \<Rightarrow> line_input list \<Rightarrow> bool \<Rightarrow> db \<Rightarrow> db res" where
  "createOrderTx cfg rt r lines historical s =
     ebind (insertOrder r s) (\<lambda>s1.
     let (items, s2) = insertLines rt (od_id r) lines s1 in
     ebind (occupyTable rt (od_tableId r) historical s2) (\<lambda>s3.
     Inr (if sendsAtOnce rt r historical then generateKots cfg rt (od_id r) items s3 else s3)))"

definition createOrder ::
  "config \<Rightarrow> runtime \<Rightarrow> string \<Rightarrow> string \<Rightarrow> create_order_dto \<Rightarrow> create_options \<Rightarrow> db \<Rightarrow> (order_view \<times> db) res" where
  "createOrder cfg rt branchId userId d opts s =
     ebind (orderLines cfg branchId d opts s) (\<lambda>lines.
     let t = linesTotals lines; acceptance = acceptanceFor cfg branchId opts in
     ebind (assertMinOrder (op_minOrderAmount opts) (subtotal t)) (\<lambda>_.
     ebind (deliveryFor cfg rt branchId d (subtotal t)) (\<lambda>delivery.
     ebind (scheduleFor rt (cr_scheduledFor d)) (\<lambda>_.
     let (i, s0) = freshId rt s;
         r = newOrder i rt branchId userId d opts acceptance t delivery (nextOrderNumber rt branchId s) in
     ebind (createOrderTx cfg rt r lines (op_historical opts \<noteq> None) s0) (\<lambda>s1.
     let s2 = (if op_historical opts \<noteq> None then s1 else emit [OrderCreated i acceptance] s1) in
     ebind (getOrder branchId i s2) (\<lambda>v. Inr (v, s2)))))))"

section \<open>addItems\<close>

record add_options =
  ao_enforceModifierLimits :: bool
  ao_websiteOnly :: bool

text \<open>The reads and checks: the lines the order has now, and the new lines priced.\<close>

definition addItemsRead ::
  "config \<Rightarrow> string \<Rightarrow> string \<Rightarrow> cart_item list \<Rightarrow> add_options \<Rightarrow> db \<Rightarrow> (order_item list \<times> line_input list) res" where
  "addItemsRead cfg branchId orderId items opts s =
     (case findOrder branchId orderId s of
        None \<Rightarrow> Inl (NotFound ''Order not found'')
      | Some r \<Rightarrow>
          ebind (assertNoPayments orderId s) (\<lambda>_.
          ebind (validateModifierSelections cfg branchId items (ao_enforceModifierLimits opts)) (\<lambda>_.
          if od_status r \<noteq> OPEN then Inl (BadRequest ''Order is not open - cannot add items'')
          else
            let ids = uniq (map ct_menuItemId items) in
            ebind (if ao_websiteOnly opts then assertOrderableOnWebsite cfg branchId ids else Inr ()) (\<lambda>_.
            ebind (menuItemsFor cfg branchId None ids) (\<lambda>menu.
            ebind (modifiersFor cfg (uniq (concat (map ct_modifierIds items)))) (\<lambda>mods.
            ebind (mapE (\<lambda>c. buildLine c menu mods (getBranchTaxMode cfg branchId)
                               (\<not> ao_websiteOnly opts \<and> \<not> ao_enforceModifierLimits opts)) items) (\<lambda>lines.
            Inr (itemsOf orderId s, lines))))))))"

text \<open>The transaction: the totals are computed from the lines read before it and the new ones.\<close>

definition addItemsWrite ::
  "config \<Rightarrow> runtime \<Rightarrow> string \<Rightarrow> order_item list \<Rightarrow> line_input list \<Rightarrow> db \<Rightarrow> db res" where
  "addItemsWrite cfg rt orderId before lines s =
     (let (rows, s1) = insertLines rt orderId lines s in
      if count_where (\<lambda>r. od_id r = orderId) (db_orders s) = 0 then Inl RecordMissing
      else Inr (generateKots cfg rt orderId rows
             (setTotals orderId (computeOrderTotals (map storedLine (before @ rows)) 0 0) s1)))"

definition addItems ::
  "config \<Rightarrow> runtime \<Rightarrow> string \<Rightarrow> string \<Rightarrow> cart_item list \<Rightarrow> add_options \<Rightarrow> db \<Rightarrow> (order_view \<times> db) res" where
  "addItems cfg rt branchId orderId items opts s =
     ebind (addItemsRead cfg branchId orderId items opts s) (\<lambda>(before, lines).
     ebind (addItemsWrite cfg rt orderId before lines s) (\<lambda>s1.
     let s2 = emit [OrderUpdated orderId None] s1 in
     ebind (getOrder branchId orderId s2) (\<lambda>v. Inr (v, s2))))"

section \<open>Scheduled orders\<close>

definition dueOrders :: "runtime \<Rightarrow> db \<Rightarrow> order list" where
  "dueOrders rt s = filter (\<lambda>r. od_status r = OPEN \<and> od_acceptance r \<in> {NOT_REQUIRED, ORDER_ACCEPTED} \<and>
     (case od_scheduledFor r of None \<Rightarrow> False | Some t \<Rightarrow> t \<le> rt_now rt + SCHEDULE_LEAD_MS) \<and>
     kotsOf (od_id r) s = []) (db_orders s)"

definition releaseOne :: "config \<Rightarrow> runtime \<Rightarrow> order \<times> order_item list \<Rightarrow> db \<Rightarrow> db" where
  "releaseOne cfg rt = (\<lambda>(r, items) s. emit [KotUpdated (od_id r)] (generateKots cfg rt (od_id r) items s))"

text \<open>The due orders and their lines are read once, then sent one after the other.\<close>

definition releaseDueScheduledOrders :: "config \<Rightarrow> runtime \<Rightarrow> db \<Rightarrow> nat \<times> db" where
  "releaseDueScheduledOrders cfg rt s =
     (let due = map (\<lambda>r. (r, itemsOf (od_id r) s)) (dueOrders rt s) in (length due, fold (releaseOne cfg rt) due s))"

section \<open>Tickets of an order\<close>

text \<open>The tickets a generation writes, one per station, and the lines on them.\<close>

definition kotRow :: "runtime \<Rightarrow> string \<Rightarrow> string option \<Rightarrow> nat \<Rightarrow> nat \<Rightarrow> kot" where
  "kotRow rt orderId st n seq = \<lparr>kt_id = rt_ids rt n, kt_orderId = orderId, kt_stationId = st,
     kt_ticketNumber = last6 orderId @ ''-'' @ nat_str seq, kt_status = NEW, kt_isPriority = False,
     kt_acceptedAt = None, kt_acceptedById = None, kt_readyAt = None, kt_servedAt = None, kt_rejected = None\<rparr>"

fun kotRows :: "runtime \<Rightarrow> string \<Rightarrow> (string option \<times> order_item list) list \<Rightarrow> nat \<Rightarrow> nat \<Rightarrow> kot list" where
  "kotRows rt orderId [] n seq = []"
| "kotRows rt orderId (g # gs) n seq = kotRow rt orderId (fst g) n seq # kotRows rt orderId gs (n + 1) (seq + 1)"

fun kotItemRows :: "runtime \<Rightarrow> (string option \<times> order_item list) list \<Rightarrow> nat \<Rightarrow> kot_item list" where
  "kotItemRows rt [] n = []"
| "kotItemRows rt (g # gs) n =
     map (\<lambda>x. \<lparr>ki_kotId = rt_ids rt n, ki_orderItemId = oi_id x, ki_status = NEW\<rparr>) (snd g) @ kotItemRows rt gs (n + 1)"

lemma createKots_state:
  "createKots rt orderId gs seq s =
     s\<lparr>db_kots := db_kots s @ kotRows rt orderId gs (db_next s) seq,
       db_kotItems := db_kotItems s @ kotItemRows rt gs (db_next s),
       db_events := db_events s @ map (\<lambda>k. KotCreated (kt_id k)) (kotRows rt orderId gs (db_next s) seq),
       db_next := db_next s + length gs\<rparr>"
  by (induction gs arbitrary: seq s) (simp_all add: createKot_def freshId_def emit_def kotRow_def)

lemma generateKots_state:
  "generateKots cfg rt orderId items s =
     (let gs = itemsByStation cfg items; rows = kotRows rt orderId gs (db_next s) (length (kotsOf orderId s) + 1)
      in s\<lparr>db_kots := db_kots s @ rows, db_kotItems := db_kotItems s @ kotItemRows rt gs (db_next s),
           db_events := db_events s @ map (\<lambda>k. KotCreated (kt_id k)) rows, db_next := db_next s + length gs\<rparr>)"
  by (simp add: generateKots_def createKots_state Let_def)

text \<open>Grouping: each station once, with its lines in order.\<close>

lemma addToStation_lookup:
  "map_of (addToStation st i m) k = (if k = st then Some ((case map_of m st of None \<Rightarrow> [] | Some is \<Rightarrow> is) @ [i]) else map_of m k)"
  by (induction m) auto

lemma addToStation_keys: "fst ` set (addToStation st i m) = insert st (fst ` set m)"
proof (induction m)
  case (Cons a m)
  then show ?case by (cases a) auto
qed simp

lemma addToStation_distinct: "distinct (map fst m) \<Longrightarrow> distinct (map fst (addToStation st i m))"
proof (induction m)
  case (Cons a m)
  have "fst a \<notin> fst ` set (addToStation st i m)" if "fst a \<noteq> st"
    using Cons.prems that by (simp add: addToStation_keys)
  with Cons show ?case by (cases a) auto
qed simp

lemma itemsByStation_foldl:
  "distinct (map fst m) \<Longrightarrow>
   (let r = foldl (\<lambda>m i. addToStation (stationOf cfg i) i m) m items in
    distinct (map fst r) \<and>
    (\<forall>k. map_of r k = (let new = filter (\<lambda>i. stationOf cfg i = k) items in
       case map_of m k of None \<Rightarrow> if new = [] then None else Some new | Some is \<Rightarrow> Some (is @ new))))"
proof (induction items arbitrary: m)
  case Nil
  then show ?case by (auto split: option.splits)
next
  case (Cons i items)
  from Cons.IH[OF addToStation_distinct[OF Cons.prems, of "stationOf cfg i" i]] show ?case
    by (auto simp: Let_def addToStation_lookup split: option.splits if_splits)
qed

lemma itemsByStation_groups:
  "distinct (map fst (itemsByStation cfg items))"
  "(k, is) \<in> set (itemsByStation cfg items) \<longleftrightarrow> is \<noteq> [] \<and> is = filter (\<lambda>i. stationOf cfg i = k) items"
proof -
  have d: "distinct (map fst (itemsByStation cfg items))"
    and m: "map_of (itemsByStation cfg items) k = (let new = filter (\<lambda>i. stationOf cfg i = k) items in
              if new = [] then None else Some new)"
    using itemsByStation_foldl[of "[]" cfg items] by (simp_all add: itemsByStation_def Let_def)
  show "distinct (map fst (itemsByStation cfg items))" by (rule d)
  have "(k, is) \<in> set (itemsByStation cfg items) \<longleftrightarrow> map_of (itemsByStation cfg items) k = Some is"
    using d by (simp add: map_of_eq_Some_iff)
  then show "(k, is) \<in> set (itemsByStation cfg items) \<longleftrightarrow> is \<noteq> [] \<and> is = filter (\<lambda>i. stationOf cfg i = k) items"
    by (auto simp: m Let_def)
qed

end
