(* ===== verification/Order_Lifecycle.thy ===== *)
theory Order_Lifecycle
  imports Order_Intake
begin

text \<open>
  The life of an open order in \<open>modules/orders/orders.service.ts\<close>: accepting and declining, cancelling,
  correcting its header and lines, merging bills, deleting finished ones, and the kitchen tickets. Where a
  handler reads outside its transaction, the reads and checks (\<open>\<dots>Read\<close>) and the transaction with the
  events after it (\<open>\<dots>Write\<close>) are two definitions, so that what another request does between them can be
  stated; the handler is the one after the other. Metadata of audit rows is left out.
\<close>

section \<open>Accepting\<close>

definition acceptRead :: "string \<Rightarrow> string \<Rightarrow> db \<Rightarrow> (order \<times> order_item list) res" where
  "acceptRead branchId orderId s =
     (case findOrder branchId orderId s of
        None \<Rightarrow> Inl (NotFound ''Order not found'')
      | Some r \<Rightarrow>
          if od_status r \<noteq> OPEN \<or> od_acceptance r \<noteq> PENDING
          then Inl (Conflict
            (if od_acceptance r = ORDER_ACCEPTED then ''This order was already accepted''
             else if od_acceptance r = ORDER_REJECTED \<or> od_status r = ORDER_CANCELLED
             then ''This order was already declined or cancelled''
             else ''This order is not waiting for acceptance''))
          else Inr (r, itemsOf orderId s))"

definition waiting :: "string \<Rightarrow> order \<Rightarrow> bool" where
  "waiting orderId r \<longleftrightarrow> od_id r = orderId \<and> od_status r = OPEN \<and> od_acceptance r = PENDING"

definition acceptWrite :: "config \<Rightarrow> runtime \<Rightarrow> string \<Rightarrow> order \<times> order_item list \<Rightarrow> db \<Rightarrow> db res" where
  "acceptWrite cfg rt userId plan s =
     (let (r, items) = plan; orderId = od_id r in
      if count_where (waiting orderId) (db_orders s) = 0
      then Inl (Conflict ''This order was just accepted or declined by someone else'')
      else
        (let s1 = updOrders (waiting orderId)
                    (\<lambda>r. r\<lparr>od_acceptance := ORDER_ACCEPTED, od_acceptedBy := Some (userId, rt_now rt)\<rparr>) s;
             s2 = (if isDeferred rt (od_scheduledFor r) then s1 else generateKots cfg rt orderId items s1)
         in Inr (auditRow ''order.accepted'' orderId (emit [OrderUpdated orderId None, KotUpdated orderId] s2))))"

definition acceptOrder :: "config \<Rightarrow> runtime \<Rightarrow> string \<Rightarrow> string \<Rightarrow> string \<Rightarrow> db \<Rightarrow> (order_view \<times> db) res" where
  "acceptOrder cfg rt branchId orderId userId s =
     ebind (acceptRead branchId orderId s) (\<lambda>plan.
     ebind (acceptWrite cfg rt userId plan s) (\<lambda>s1.
     ebind (getOrder branchId orderId s1) (\<lambda>v. Inr (v, s1))))"

section \<open>Withdrawing\<close>

record withdraw_options =
  wo_reason :: "string option"
  wo_source :: cancel_source
  wo_confirmStarted :: bool
  wo_declineIncoming :: bool

text \<open>\<open>options.reason?.trim() || undefined\<close>.\<close>

definition trimmedReason :: "string option \<Rightarrow> string option" where
  "trimmedReason v = (case v of None \<Rightarrow> None | Some x \<Rightarrow> if trim x = '''' then None else Some (trim x))"

definition kitchenStartedMessage :: string where
  "kitchenStartedMessage = ''The kitchen has already started this order. Confirm to cancel it anyway - the food in progress will be wasted.''"

definition withdrawRead :: "string \<Rightarrow> string \<Rightarrow> withdraw_options \<Rightarrow> db \<Rightarrow> order res" where
  "withdrawRead branchId orderId opts s =
     (case findOrder branchId orderId s of
        None \<Rightarrow> Inl (NotFound ''Order not found'')
      | Some r \<Rightarrow>
          let statuses = map kt_status (kotsOf orderId s);
              pastNew = list_ex (\<lambda>st. st \<noteq> NEW \<and> st \<noteq> CANCELLED) statuses
          in if wo_declineIncoming opts \<and> (od_status r \<noteq> OPEN \<or> od_acceptance r \<noteq> PENDING)
             then Inl (Conflict ''This order is not waiting for acceptance - it may already have been accepted or declined'')
             else if \<not> wo_declineIncoming opts \<and> od_status r \<noteq> OPEN
             then Inl (BadRequest (if od_status r = PAID then ''This bill is already paid - use Refund to reverse it''
                                   else ''Only an open order can be cancelled''))
             else if paymentsOf orderId s \<noteq> []
             then Inl (BadRequest ''This order already has a payment - refund it instead of cancelling'')
             else if SERVED \<in> set statuses
             then Inl (BadRequest ''Part of this order was already served - remove the items that were not served instead of cancelling it'')
             else if list_ex (\<lambda>st. st \<in> set KOT_STARTED_STATUSES) statuses \<and> \<not> wo_confirmStarted opts
             then Inl (KitchenStarted kitchenStartedMessage)
             else if trimmedReason (wo_reason opts) = None \<and> (pastNew \<or> wo_declineIncoming opts)
             then Inl (BadRequest ''A reason is required'')
             else Inr r)"

definition withdrawable :: "string \<Rightarrow> bool \<Rightarrow> order \<Rightarrow> bool" where
  "withdrawable orderId declining r \<longleftrightarrow> od_id r = orderId \<and> od_status r = OPEN \<and> (declining \<longrightarrow> od_acceptance r = PENDING)"

definition emitOrderWithdrawn :: "string \<Rightarrow> string option \<Rightarrow> db \<Rightarrow> db" where
  "emitOrderWithdrawn orderId tableId s =
     emit ([OrderUpdated orderId (Some ORDER_CANCELLED), KotUpdated orderId] @
           (case tableId of Some t \<Rightarrow> if t \<noteq> '''' then [TableUpdated t] else [] | None \<Rightarrow> [])) s"

text \<open>The tickets of an order that are still live, and their lines.\<close>

definition liveKot :: "string \<Rightarrow> kot \<Rightarrow> bool" where
  "liveKot orderId k \<longleftrightarrow> kt_orderId k = orderId \<and> kt_status k \<notin> {SERVED, CANCELLED, REJECTED}"

definition ofOrder :: "string \<Rightarrow> db \<Rightarrow> kot_item \<Rightarrow> bool" where
  "ofOrder orderId s i \<longleftrightarrow> list_ex (\<lambda>k. kt_id k = ki_kotId i \<and> kt_orderId k = orderId) (db_kots s)"

definition cancelKitchen :: "string \<Rightarrow> db \<Rightarrow> db" where
  "cancelKitchen orderId s =
     (let s1 = updKots (liveKot orderId) (\<lambda>k. k\<lparr>kt_status := CANCELLED\<rparr>) s
      in updKotItems (\<lambda>i. ofOrder orderId s1 i \<and> ki_status i \<notin> {SERVED, CANCELLED}) (\<lambda>i. i\<lparr>ki_status := CANCELLED\<rparr>) s1)"

definition withdrawWrite :: "runtime \<Rightarrow> string \<Rightarrow> withdraw_options \<Rightarrow> order \<Rightarrow> db \<Rightarrow> db res" where
  "withdrawWrite rt userId opts r s =
     (let orderId = od_id r; declining = wo_declineIncoming opts in
      if count_where (withdrawable orderId declining) (db_orders s) = 0
      then Inl (Conflict ''This order was just paid or changed - refresh and check it'')
      else
        (let s1 = updOrders (withdrawable orderId declining)
               (\<lambda>r. r\<lparr>od_status := ORDER_CANCELLED,
                      od_cancel := Some \<lparr>ci_reason = trimmedReason (wo_reason opts), ci_at = rt_now rt,
                                         ci_by = userId, ci_source = wo_source opts\<rparr>,
                      od_acceptance := (if declining then ORDER_REJECTED else od_acceptance r)\<rparr>) s
         in ebind (releaseTableIfIdle rt (od_tableId r) orderId (cancelKitchen orderId s1)) (\<lambda>s2.
            Inr (auditRow (if declining then ''order.declined'' else ''order.cancelled'') orderId
                  (emitOrderWithdrawn orderId (od_tableId r) s2)))))"

definition withdrawOrder :: "runtime \<Rightarrow> string \<Rightarrow> string \<Rightarrow> string \<Rightarrow> withdraw_options \<Rightarrow> db \<Rightarrow> (order_view \<times> db) res" where
  "withdrawOrder rt branchId orderId userId opts s =
     ebind (withdrawRead branchId orderId opts s) (\<lambda>r.
     ebind (withdrawWrite rt userId opts r s) (\<lambda>s1.
     ebind (getOrder branchId orderId s1) (\<lambda>v. Inr (v, s1))))"

definition cancelOrder ::
  "runtime \<Rightarrow> string \<Rightarrow> string \<Rightarrow> string \<Rightarrow> string option \<Rightarrow> cancel_source option \<Rightarrow> bool \<Rightarrow> db \<Rightarrow> (order_view \<times> db) res" where
  "cancelOrder rt branchId orderId userId reason source confirmStarted s =
     withdrawOrder rt branchId orderId userId
       \<lparr>wo_reason = reason, wo_source = (case source of None \<Rightarrow> BY_STAFF | Some x \<Rightarrow> x),
        wo_confirmStarted = confirmStarted, wo_declineIncoming = False\<rparr> s"

definition rejectOrder :: "runtime \<Rightarrow> string \<Rightarrow> string \<Rightarrow> string \<Rightarrow> string \<Rightarrow> db \<Rightarrow> (order_view \<times> db) res" where
  "rejectOrder rt branchId orderId userId reason s =
     withdrawOrder rt branchId orderId userId
       \<lparr>wo_reason = Some reason, wo_source = ONLINE_DECLINED, wo_confirmStarted = False, wo_declineIncoming = True\<rparr> s"

section \<open>Deleting finished orders\<close>

text \<open>Rows that go with a deleted order.\<close>

definition deleteOrders :: "string list \<Rightarrow> string \<Rightarrow> db \<Rightarrow> db" where
  "deleteOrders ids branchId s =
     (let gone = (\<lambda>oid. list_ex (\<lambda>r. od_id r = oid \<and> od_id r \<in> set ids \<and> od_branchId r = branchId) (db_orders s));
          goneItem = (\<lambda>i. list_ex (\<lambda>x. oi_id x = i \<and> gone (oi_orderId x)) (db_items s));
          goneKot = (\<lambda>i. list_ex (\<lambda>x. kt_id x = i \<and> gone (kt_orderId x)) (db_kots s));
          goneRefund = (\<lambda>i. list_ex (\<lambda>x. rf_id x = i \<and> gone (rf_orderId x)) (db_refunds s))
      in s\<lparr>db_orders := del_where (\<lambda>r. od_id r \<in> set ids \<and> od_branchId r = branchId) (db_orders s),
           db_items := del_where (\<lambda>i. gone (oi_orderId i)) (db_items s),
           db_kots := del_where (\<lambda>k. gone (kt_orderId k)) (db_kots s),
           db_kotItems := del_where (\<lambda>i. goneKot (ki_kotId i) \<or> goneItem (ki_orderItemId i)) (db_kotItems s),
           db_payments := del_where (\<lambda>p. gone (py_orderId p)) (db_payments s),
           db_refunds := del_where (\<lambda>p. gone (rf_orderId p)) (db_refunds s),
           db_stockReturns := del_where (\<lambda>x. goneItem (sr_orderItemId x) \<or> goneRefund (sr_refundId x)) (db_stockReturns s),
           db_gifts := (db_gifts s)\<lparr>gs_redemptions := del_where (\<lambda>x. gone (rd_orderId x)) (gs_redemptions (db_gifts s))\<rparr>\<rparr>)"

text \<open>\<open>passwordOk\<close> is whether the actor exists and the password matches its hash.\<close>

definition deleteFinishedOrders ::
  "string \<Rightarrow> string \<Rightarrow> bool \<Rightarrow> string list \<Rightarrow> db \<Rightarrow> (nat \<times> db) res" where
  "deleteFinishedOrders branchId roleName passwordOk orderIds s =
     (if roleName \<notin> {''OWNER'', ''ADMINISTRATOR''} then Inl (Forbidden ''Only an admin can delete transactions'')
      else if \<not> passwordOk then Inl (Forbidden ''Incorrect admin password'')
      else
        (let ids = uniq orderIds;
             rows = filter (\<lambda>r. od_id r \<in> set ids \<and> od_branchId r = branchId) (db_orders s)
         in if length rows \<noteq> length ids then Inl (NotFound ''Some selected transactions no longer exist'')
            else if list_ex (\<lambda>r. od_status r \<notin> {PAID, ORDER_CANCELLED}) rows
            then Inl (BadRequest ''Only finished transactions can be deleted'')
            else if ordersWithRecords ids (db_fiscal s) \<noteq> []
            then Inl (BadRequest ''Sales with a VERI*FACTU invoice cannot be deleted - the fiscal log must keep them. Refund the sale instead.'')
            else Inr (length ids, emit [OrderDeleted ids]
                   (deleteOrders ids branchId (fold (\<lambda>r. auditRow ''order.deleted'' (od_id r)) rows s)))))"

end
