(* ===== verification/Order_Editing.thy ===== *)
theory Order_Editing
  imports Order_Lifecycle
begin

text \<open>
  Corrections of an open bill in \<open>modules/orders/orders.service.ts\<close>: its header and table, the quantity of
  a line, the removal of a line, and the merge of two bills. Split in reads and writes as in the theory
  above. Metadata of audit rows is left out.
\<close>

section \<open>The header\<close>

text \<open>An absent field is \<open>None\<close>, an explicit null is \<open>Some None\<close>.\<close>

record update_order_dto =
  ud_tableId :: "string option"
  ud_guestName :: "string option option"
  ud_guestCount :: "int option option"
  ud_notes :: "string option option"
  ud_customerId :: "string option option"

definition changed :: "'a option \<Rightarrow> 'a \<Rightarrow> 'a" where
  "changed v old = (case v of None \<Rightarrow> old | Some x \<Rightarrow> x)"

definition moveCheck :: "string \<Rightarrow> order \<Rightarrow> string option \<Rightarrow> db \<Rightarrow> bool res" where
  "moveCheck branchId r tableId s =
     (if \<not> present tableId \<or> tableId = od_tableId r then Inr False
      else if od_type r \<noteq> DINE_IN then Inl (BadRequest ''Only dine-in bills have a table'')
      else case find (\<lambda>t. Some (tb_id t) = tableId \<and> tb_branchId t = branchId) (db_tables s) of
        None \<Rightarrow> Inl (BadRequest ''Table not found'')
      | Some t \<Rightarrow>
          if tb_status t = OUT_OF_SERVICE then Inl (BadRequest ''That table is out of service'')
          else if find (\<lambda>x. od_tableId x = Some (tb_id t) \<and> od_status x = OPEN \<and> od_id x \<noteq> od_id r) (db_orders s) \<noteq> None
          then Inl (Conflict ''That table already has an open bill - merge the bills instead'')
          else Inr True)"

definition updateOrderRead :: "string \<Rightarrow> string \<Rightarrow> update_order_dto \<Rightarrow> db \<Rightarrow> (order \<times> bool) res" where
  "updateOrderRead branchId orderId d s =
     ebind (editableOrder branchId orderId s) (\<lambda>r.
     let c = (case ud_customerId d of None \<Rightarrow> None | Some x \<Rightarrow> x) in
     if present c \<and> find (\<lambda>x. Some (cu_id x) = c \<and> cu_branchId x = branchId) (ps_customers (db_points s)) = None
     then Inl (BadRequest ''Customer not found'')
     else ebind (moveCheck branchId r (ud_tableId d) s) (\<lambda>moving. Inr (r, moving)))"

definition updateOrderWrite :: "runtime \<Rightarrow> update_order_dto \<Rightarrow> order \<times> bool \<Rightarrow> db \<Rightarrow> db res" where
  "updateOrderWrite rt d plan s =
     (let (r, moving) = plan; orderId = od_id r in
      if count_where (\<lambda>x. od_id x = orderId) (db_orders s) = 0 then Inl RecordMissing
      else
        (let s1 = updOrders (\<lambda>x. od_id x = orderId)
               (\<lambda>x. x\<lparr>od_tableId := (if moving then ud_tableId d else od_tableId x),
                      od_guestName := changed (ud_guestName d) (od_guestName x),
                      od_guestCount := changed (ud_guestCount d) (od_guestCount x),
                      od_notes := changed (ud_notes d) (od_notes x),
                      od_customerId := changed (ud_customerId d) (od_customerId x)\<rparr>) s
         in ebind (if \<not> moving then Inr s1
                   else ebind (setTable rt (the (ud_tableId d)) OCCUPIED s1) (\<lambda>s2.
                        releaseTableIfIdle rt (od_tableId r) orderId s2)) (\<lambda>s3.
            Inr (auditRow (if moving then ''order.table_changed'' else ''order.edited'') orderId
              (emit ([OrderUpdated orderId None, KotUpdated orderId] @
                 (if moving then map (\<lambda>t. TableUpdated (the t)) (filter present [od_tableId r, ud_tableId d]) else [])) s3)))))"

definition updateOrder :: "runtime \<Rightarrow> string \<Rightarrow> string \<Rightarrow> update_order_dto \<Rightarrow> db \<Rightarrow> (order_view \<times> db) res" where
  "updateOrder rt branchId orderId d s =
     ebind (updateOrderRead branchId orderId d s) (\<lambda>plan.
     ebind (updateOrderWrite rt d plan s) (\<lambda>s1.
     ebind (getOrder branchId orderId s1) (\<lambda>v. Inr (v, s1))))"

section \<open>Lines\<close>

text \<open>A line whose ticket, or itself, the kitchen has started.\<close>

definition lineStarted :: "string \<Rightarrow> db \<Rightarrow> bool" where
  "lineStarted itemId s = list_ex (\<lambda>i. ki_orderItemId i = itemId \<and>
     (ki_status i \<in> {PREPARING, READY, SERVED} \<or>
      list_ex (\<lambda>k. kt_id k = ki_kotId i \<and> kt_status k \<in> {PREPARING, READY, SERVED}) (db_kots s))) (db_kotItems s)"

definition assertLineNotStarted :: "string \<Rightarrow> db \<Rightarrow> unit res" where
  "assertLineNotStarted itemId s =
     (if lineStarted itemId s
      then Inl (Conflict ''The kitchen has already started this item - it can no longer be changed here'') else Inr ())"

definition billLine :: "string \<Rightarrow> string \<Rightarrow> string \<Rightarrow> db \<Rightarrow> order_item res" where
  "billLine branchId orderId itemId s =
     ebind (editableOrder branchId orderId s) (\<lambda>_.
     case find (\<lambda>i. oi_id i = itemId) (itemsOf orderId s) of
       None \<Rightarrow> Inl (NotFound ''Item not found on this bill'') | Some i \<Rightarrow> Inr i)"

definition lineEvents :: "string \<Rightarrow> string \<Rightarrow> db \<Rightarrow> db" where
  "lineEvents action orderId s = auditRow action orderId (emit [OrderUpdated orderId None, KotUpdated orderId] s)"

definition updateLineWrite :: "string \<Rightarrow> order_item \<Rightarrow> int \<Rightarrow> db \<Rightarrow> db res" where
  "updateLineWrite orderId i qty s =
     ebind (assertLineNotStarted (oi_id i) s) (\<lambda>_.
     let unit = fdiv (cents (oi_lineTotal i)) (of_int (oi_quantity i)) in
     if count_where (\<lambda>x. oi_id x = oi_id i) (db_items s) = 0 then Inl RecordMissing
     else Inr (recomputeTotals orderId (s\<lparr>db_items := upd_where (\<lambda>x. oi_id x = oi_id i)
            (\<lambda>x. x\<lparr>oi_quantity := qty, oi_lineTotal := to_column 100 (round2 (fmul unit (of_int qty)))\<rparr>) (db_items s)\<rparr>)))"

definition updateOrderItem :: "string \<Rightarrow> string \<Rightarrow> string \<Rightarrow> int \<Rightarrow> db \<Rightarrow> (order_view \<times> db) res" where
  "updateOrderItem branchId orderId itemId qty s =
     ebind (billLine branchId orderId itemId s) (\<lambda>i.
     if oi_quantity i < qty
     then Inl (BadRequest ''To order more, add the item again so the kitchen gets a new ticket'')
     else if qty = oi_quantity i then ebind (getOrder branchId orderId s) (\<lambda>v. Inr (v, s))
     else ebind (updateLineWrite orderId i qty s) (\<lambda>s1.
          let s2 = lineEvents ''order.item_changed'' orderId s1 in
          ebind (getOrder branchId orderId s2) (\<lambda>v. Inr (v, s2))))"

text \<open>Deleting a line deletes its entries on tickets and its stock returns.\<close>

definition deleteLines :: "(string \<Rightarrow> bool) \<Rightarrow> db \<Rightarrow> db" where
  "deleteLines P s = s\<lparr>db_items := del_where (\<lambda>i. P (oi_id i)) (db_items s),
     db_kotItems := del_where (\<lambda>k. P (ki_orderItemId k)) (db_kotItems s),
     db_stockReturns := del_where (\<lambda>x. P (sr_orderItemId x)) (db_stockReturns s)\<rparr>"

definition emptyKot :: "string \<Rightarrow> db \<Rightarrow> kot \<Rightarrow> bool" where
  "emptyKot orderId s k \<longleftrightarrow> kt_orderId k = orderId \<and> \<not> list_ex (\<lambda>i. ki_kotId i = kt_id k) (db_kotItems s) \<and> kt_status k \<noteq> CANCELLED"

definition removeLineWrite :: "string \<Rightarrow> string \<Rightarrow> db \<Rightarrow> db res" where
  "removeLineWrite orderId itemId s =
     ebind (assertLineNotStarted itemId s) (\<lambda>_.
     if count_where (\<lambda>x. oi_id x = itemId) (db_items s) = 0 then Inl RecordMissing
     else
       (let s1 = deleteLines (\<lambda>i. i = itemId) s;
            s2 = updKots (emptyKot orderId s1) (\<lambda>k. k\<lparr>kt_status := CANCELLED\<rparr>) s1
        in Inr (recomputeTotals orderId s2)))"

definition removeOrderItem :: "string \<Rightarrow> string \<Rightarrow> string \<Rightarrow> db \<Rightarrow> (order_view \<times> db) res" where
  "removeOrderItem branchId orderId itemId s =
     ebind (billLine branchId orderId itemId s) (\<lambda>i.
     if length (itemsOf orderId s) = 1
     then Inl (BadRequest ''This is the only item - cancel the order instead'')
     else ebind (removeLineWrite orderId itemId s) (\<lambda>s1.
          let s2 = lineEvents ''order.item_removed'' orderId s1 in
          ebind (getOrder branchId orderId s2) (\<lambda>v. Inr (v, s2))))"

section \<open>Merging bills\<close>

definition mergeRead :: "string \<Rightarrow> string \<Rightarrow> string \<Rightarrow> db \<Rightarrow> (order \<times> order) res" where
  "mergeRead branchId targetId sourceId s =
     (if targetId = sourceId then Inl (BadRequest ''Cannot merge an order into itself'')
      else case (findOrder branchId targetId s, findOrder branchId sourceId s) of
        (Some target, Some source) \<Rightarrow>
          if od_status target \<noteq> OPEN \<or> od_status source \<noteq> OPEN
          then Inl (BadRequest ''Both orders must be open to merge'')
          else ebind (assertNoPayments targetId s) (\<lambda>_. ebind (assertNoPayments sourceId s) (\<lambda>_. Inr (target, source)))
      | _ \<Rightarrow> Inl (NotFound ''Order not found''))"

definition mergeWrite :: "runtime \<Rightarrow> order \<times> order \<Rightarrow> db \<Rightarrow> db res" where
  "mergeWrite rt plan s =
     (let (target, source) = plan; targetId = od_id target; sourceId = od_id source;
          s1 = updKots (\<lambda>k. kt_orderId k = sourceId) (\<lambda>k. k\<lparr>kt_orderId := targetId\<rparr>)
                 (s\<lparr>db_items := upd_where (\<lambda>i. oi_orderId i = sourceId) (\<lambda>i. i\<lparr>oi_orderId := targetId\<rparr>) (db_items s)\<rparr>)
      in if count_where (\<lambda>r. od_id r = targetId) (db_orders s) = 0 \<or> count_where (\<lambda>r. od_id r = sourceId) (db_orders s) = 0
         then Inl RecordMissing
         else
           (let s2 = recomputeTotals targetId s1;
                s3 = updOrders (\<lambda>r. od_id r = sourceId)
                       (\<lambda>r. r\<lparr>od_status := ORDER_CANCELLED, od_notes := Some (''Merged into order '' @ od_orderNumber target)\<rparr>) s2
            in ebind (if present (od_tableId source) \<and> od_tableId source \<noteq> od_tableId target
                      then releaseTableIfIdle rt (od_tableId source) sourceId s3 else Inr s3) (\<lambda>s4.
               Inr (emit [OrderUpdated targetId None, OrderUpdated sourceId None] s4))))"

definition mergeOrders :: "runtime \<Rightarrow> string \<Rightarrow> string \<Rightarrow> string \<Rightarrow> db \<Rightarrow> (order_view \<times> db) res" where
  "mergeOrders rt branchId targetId sourceId s =
     ebind (mergeRead branchId targetId sourceId s) (\<lambda>plan.
     ebind (mergeWrite rt plan s) (\<lambda>s1.
     ebind (getOrder branchId targetId s1) (\<lambda>v. Inr (v, s1))))"

end
