(* ===== verification/Kitchen_Tickets.thy ===== *)
theory Kitchen_Tickets
  imports Order_Editing
begin

text \<open>
  What the kitchen does with a ticket, in \<open>modules/orders/orders.service.ts\<close>: moving it forward, rejecting
  it, and its priority. The table's waiter and the notifications are left out.
\<close>

section \<open>Moving a ticket\<close>

definition KOT_FORWARD_STATUSES :: "kot_status list" where
  "KOT_FORWARD_STATUSES = [ACCEPTED, PREPARING, READY, SERVED]"

definition findKot :: "string \<Rightarrow> string \<Rightarrow> db \<Rightarrow> kot option" where
  "findKot branchId kotId s = find (\<lambda>k. kt_id k = kotId \<and>
     list_ex (\<lambda>r. od_id r = kt_orderId k \<and> od_branchId r = branchId) (db_orders s)) (db_kots s)"

text \<open>\<open>None\<close>: the ticket already has the status.\<close>

definition kotRead :: "string \<Rightarrow> string \<Rightarrow> kot_status \<Rightarrow> db \<Rightarrow> (kot \<times> bool) res" where
  "kotRead branchId kotId target s =
     (if target \<notin> set KOT_FORWARD_STATUSES
      then Inl (BadRequest ''A ticket can only move to accepted, preparing, ready or served - use reject to decline it'')
      else case findKot branchId kotId s of
        None \<Rightarrow> Inl (NotFound ''KOT not found'')
      | Some k \<Rightarrow>
          if kt_status k = target then Inr (k, False)
          else if \<not> canTransitionKot (kt_status k) target then Inl (Conflict ''This ticket cannot move to that status'')
          else Inr (k, True))"

definition stampKot :: "runtime \<Rightarrow> kot_status \<Rightarrow> string option \<Rightarrow> kot \<Rightarrow> kot" where
  "stampKot rt target userId k = k\<lparr>kt_status := target,
     kt_acceptedAt := (if target = ACCEPTED then Some (rt_now rt) else kt_acceptedAt k),
     kt_readyAt := (if target = READY then Some (rt_now rt) else kt_readyAt k),
     kt_servedAt := (if target = SERVED then Some (rt_now rt) else kt_servedAt k),
     kt_acceptedById := (if target = ACCEPTED \<and> present userId then userId else kt_acceptedById k)\<rparr>"

definition kotWrite :: "runtime \<Rightarrow> kot_status \<Rightarrow> string option \<Rightarrow> kot \<Rightarrow> db \<Rightarrow> (kot \<times> db) res" where
  "kotWrite rt target userId k s =
     (let kotId = kt_id k; asSeen = (\<lambda>x. kt_id x = kotId \<and> kt_status x = kt_status k) in
      if count_where asSeen (db_kots s) = 0
      then Inl (Conflict ''This ticket was just updated by someone else - refresh to see its current state'')
      else
        (let s1 = updKotItems (\<lambda>i. ki_kotId i = kotId) (\<lambda>i. i\<lparr>ki_status := target\<rparr>)
                    (updKots asSeen (stampKot rt target userId) s)
         in case find (\<lambda>x. kt_id x = kotId) (db_kots s1) of
              None \<Rightarrow> Inl RecordMissing
            | Some u \<Rightarrow> Inr (u, auditRow ''kot.status_changed'' kotId
                          (emit [KotUpdated kotId, OrderUpdated (kt_orderId k) None] s1))))"

definition updateKotStatus ::
  "runtime \<Rightarrow> string \<Rightarrow> string \<Rightarrow> kot_status \<Rightarrow> string option \<Rightarrow> db \<Rightarrow> (kot \<times> db) res" where
  "updateKotStatus rt branchId kotId target userId s =
     ebind (kotRead branchId kotId target s) (\<lambda>(k, move).
     if move then kotWrite rt target userId k s else Inr (k, s))"

definition setKotPriority :: "string \<Rightarrow> string \<Rightarrow> bool \<Rightarrow> db \<Rightarrow> (kot \<times> db) res" where
  "setKotPriority branchId kotId isPriority s =
     (case findKot branchId kotId s of
        None \<Rightarrow> Inl (NotFound ''KOT not found'')
      | Some k \<Rightarrow> Inr (k\<lparr>kt_isPriority := isPriority\<rparr>,
          emit [KotUpdated kotId] (updKots (\<lambda>x. kt_id x = kotId) (\<lambda>x. x\<lparr>kt_isPriority := isPriority\<rparr>) s)))"

section \<open>Rejecting a ticket\<close>

record reject_input =
  rj_reason :: string
  rj_confirmStarted :: bool
  rj_mayRejectStarted :: bool

text \<open>What was read: the ticket, its order, whether other tickets are live and the lines on the ticket.\<close>

record reject_plan =
  rp_kot :: kot
  rp_order :: order
  rp_otherLive :: bool
  rp_lineIds :: "string list"

definition rejectCheck :: "string \<Rightarrow> reject_input \<Rightarrow> kot \<Rightarrow> order \<Rightarrow> db \<Rightarrow> reject_plan res" where
  "rejectCheck kotId inp k r s =
     (let started = (kt_status k \<in> set KOT_STARTED_STATUSES) in
      if \<not> canTransitionKot (kt_status k) REJECTED
      then Inl (Conflict ''This ticket can no longer be rejected'')
      else if started \<and> \<not> rj_mayRejectStarted inp
      then Inl (Forbidden ''The kitchen has already started this ticket - only a manager can reject it'')
      else if started \<and> \<not> rj_confirmStarted inp
      then Inl (KitchenStarted ''This ticket is already being prepared. Confirm to reject it anyway - the food in progress will be wasted.'')
      else if od_status r \<noteq> OPEN then Inl (Conflict ''This order is no longer open'')
      else if paymentsOf (od_id r) s \<noteq> []
      then Inl (BadRequest ''This order already has a payment - refund it instead of rejecting a ticket'')
      else Inr \<lparr>rp_kot = k, rp_order = r,
                rp_otherLive = list_ex (\<lambda>x. kt_id x \<noteq> kotId \<and> kt_status x \<notin> {CANCELLED, REJECTED}) (kotsOf (od_id r) s),
                rp_lineIds = map ki_orderItemId (filter (\<lambda>i. ki_kotId i = kotId) (db_kotItems s))\<rparr>)"

text \<open>\<open>Inl\<close> inside the result: a ticket that was already rejected is returned as it is.\<close>

definition rejectRead :: "string \<Rightarrow> string \<Rightarrow> reject_input \<Rightarrow> db \<Rightarrow> (kot + reject_plan) res" where
  "rejectRead branchId kotId inp s =
     (if trim (rj_reason inp) = '''' then Inl (BadRequest ''A reason is required'')
      else case findKot branchId kotId s of
        None \<Rightarrow> Inl (NotFound ''KOT not found'')
      | Some k \<Rightarrow>
          if kt_status k = REJECTED then Inr (Inl k)
          else case find (\<lambda>r. od_id r = kt_orderId k) (db_orders s) of
            None \<Rightarrow> Inl (NotFound ''KOT not found'')
          | Some r \<Rightarrow> ebind (rejectCheck kotId inp k r s) (\<lambda>p. Inr (Inr p)))"

definition markRejected :: "runtime \<Rightarrow> string \<Rightarrow> string \<Rightarrow> kot \<Rightarrow> db \<Rightarrow> db" where
  "markRejected rt userId reason k s =
     updKotItems (\<lambda>i. ki_kotId i = kt_id k) (\<lambda>i. i\<lparr>ki_status := CANCELLED\<rparr>)
       (updKots (\<lambda>x. kt_id x = kt_id k \<and> kt_status x = kt_status k)
          (\<lambda>x. x\<lparr>kt_status := REJECTED, kt_rejected := Some (rt_now rt, userId, reason)\<rparr>) s)"

definition rejectWithdraw :: "runtime \<Rightarrow> string \<Rightarrow> string \<Rightarrow> order \<Rightarrow> db \<Rightarrow> db res" where
  "rejectWithdraw rt userId reason r s =
     (let here = (\<lambda>x. od_id x = od_id r \<and> od_status x = OPEN) in
      if count_where here (db_orders s) = 0
      then Inl (Conflict ''This order was just paid or changed - refresh and check it'')
      else releaseTableIfIdle rt (od_tableId r) (od_id r)
        (updOrders here (\<lambda>x. x\<lparr>od_status := ORDER_CANCELLED,
           od_cancel := Some \<lparr>ci_reason = Some reason, ci_at = rt_now rt, ci_by = userId, ci_source = KITCHEN_REJECTED\<rparr>\<rparr>) s))"

definition rejectWrite :: "runtime \<Rightarrow> string \<Rightarrow> string \<Rightarrow> reject_plan \<Rightarrow> db \<Rightarrow> db res" where
  "rejectWrite rt userId reason p s =
     (let k = rp_kot p; r = rp_order p in
      if count_where (\<lambda>x. kt_id x = kt_id k \<and> kt_status x = kt_status k) (db_kots s) = 0
      then Inl (Conflict ''This ticket was just updated by someone else - refresh to see its current state'')
      else
        (let s1 = markRejected rt userId reason k s in
         ebind (if \<not> rp_otherLive p then rejectWithdraw rt userId reason r s1
                else if rp_lineIds p = [] then Inr s1
                else Inr (recomputeTotals (od_id r) (deleteLines (\<lambda>i. i \<in> set (rp_lineIds p)) s1))) (\<lambda>s2.
         let s3 = emitOrderWithdrawn (od_id r) (if rp_otherLive p then None else od_tableId r)
                    (emit [KotUpdated (kt_id k)] s2);
             s4 = (if rp_otherLive p then emit [OrderUpdated (od_id r) None] s3 else s3)
         in Inr (auditRow ''kot.rejected'' (kt_id k) s4))))"

definition rejectKot :: "runtime \<Rightarrow> string \<Rightarrow> string \<Rightarrow> string \<Rightarrow> reject_input \<Rightarrow> db \<Rightarrow> (kot \<times> db) res" where
  "rejectKot rt branchId kotId userId inp s =
     ebind (rejectRead branchId kotId inp s) (\<lambda>x. case x of
       Inl k \<Rightarrow> Inr (k, s)
     | Inr p \<Rightarrow> ebind (rejectWrite rt userId (trim (rj_reason inp)) p s) (\<lambda>s1.
         case find (\<lambda>x. kt_id x = kotId) (db_kots s1) of None \<Rightarrow> Inl RecordMissing | Some k \<Rightarrow> Inr (k, s1)))"

end
