(* ===== verification/Order_Checkout.thy ===== *)
theory Order_Checkout
  imports Kitchen_Tickets
begin

text \<open>
  Taking payment in \<open>modules/orders/orders.service.ts\<close>: what a bill comes to (\<open>resolveBill\<close>, the previews),
  \<open>checkout\<close> with its transaction step by step, the answer to a repeated request, and \<open>refund\<close>. The
  transaction calls the models of coupons, points, gift cards, stock, referrals and the fiscal log. A
  failure inside it leaves the state as it was. Metadata of audit rows and webhooks are left out.
\<close>

section \<open>Requests\<close>

record bill_adjust =
  ba_discountPercent :: "num option"
  ba_discountFlat :: "num option"
  ba_tipAmount :: "num option"
  ba_loyaltyPointsToRedeem :: "int option"
  ba_couponCode :: "string option"

record checkout_dto =
  co_adj :: bill_adjust
  co_discountReason :: "string option"
  co_customerId :: "string option"
  co_giftCardCode :: "string option"
  co_payments :: "payment_line list"
  co_allowPartial :: bool
  co_requestId :: "string option"

definition billAdjustmentFields :: "bill_adjust \<Rightarrow> bool" where
  "billAdjustmentFields a \<longleftrightarrow>
     (case ba_discountPercent a of None \<Rightarrow> True | Some v \<Rightarrow> 0 \<le> v \<and> v \<le> 100) \<and>
     (case ba_discountFlat a of None \<Rightarrow> True | Some v \<Rightarrow> 0 \<le> v) \<and>
     (case ba_tipAmount a of None \<Rightarrow> True | Some v \<Rightarrow> 0 \<le> v) \<and>
     (case ba_loyaltyPointsToRedeem a of None \<Rightarrow> True | Some v \<Rightarrow> 0 \<le> v) \<and>
     (case ba_couponCode a of None \<Rightarrow> True | Some c \<Rightarrow> 3 \<le> length (trim c) \<and> length (trim c) \<le> 24)"

definition checkoutSchema :: "checkout_dto \<Rightarrow> bool" where
  "checkoutSchema d \<longleftrightarrow> billAdjustmentFields (co_adj d) \<and>
     (case co_discountReason d of None \<Rightarrow> True | Some r \<Rightarrow> 1 \<le> length (trim r) \<and> length (trim r) \<le> 200) \<and>
     list_all (\<lambda>p. 0 < pl_amount p \<and> (case pl_tendered p of None \<Rightarrow> True | Some t \<Rightarrow> 0 < t)) (co_payments d) \<and>
     (case co_requestId d of None \<Rightarrow> True | Some r \<Rightarrow> 8 \<le> length r \<and> length r \<le> 64)"

section \<open>What a bill comes to\<close>

definition paidSoFar :: "payment list \<Rightarrow> num" where
  "paidSoFar ps = round2 (fsum (map (\<lambda>p. cents (py_amount p)) ps))"

definition asksForMore :: "bill_adjust \<Rightarrow> bool" where
  "asksForMore a \<longleftrightarrow> 0 < or0 (ba_discountPercent a) \<or> 0 < or0 (ba_discountFlat a) \<or> 0 < or0 (ba_tipAmount a) \<or>
     (case ba_loyaltyPointsToRedeem a of None \<Rightarrow> False | Some n \<Rightarrow> 0 < n) \<or> present (ba_couponCode a)"

text \<open>The figures stored with the first payment.\<close>

definition storedBill :: "order \<Rightarrow> bill" where
  "storedBill r = \<lparr>bill_subtotal = cents (od_subtotal r), bill_discountAmount = cents (od_discountAmount r),
     bill_discountPercent = discountPercentOf (cents (od_subtotal r)) (cents (od_discountAmount r)),
     bill_taxAmount = cents (od_taxAmount r), bill_loyaltyDiscountAmount = cents (od_loyaltyDiscountAmount r),
     bill_tipAmount = cents (od_tipAmount r), bill_deliveryFee = cents (od_deliveryFee r),
     bill_totalDue = cents (od_totalAmount r)\<rparr>"

record resolved_bill =
  rs_bill :: bill
  rs_locked :: bool
  rs_paid :: num
  rs_auto :: checkout_discount
  rs_points :: int

definition noDiscount :: checkout_discount where
  "noDiscount = \<lparr>cd_amount = 0, cd_couponId = None, cd_couponCode = None, cd_promotionName = None\<rparr>"

text \<open>Points asked for at checkout, or those asked for with the order, up to what the customer has.\<close>

definition pointsToRedeem :: "order \<Rightarrow> bill_adjust \<Rightarrow> db \<Rightarrow> int" where
  "pointsToRedeem r a s =
     (case ba_loyaltyPointsToRedeem a of
        Some n \<Rightarrow> n
      | None \<Rightarrow> min (od_requestedRedeemPoints r)
          (case od_customerId r of None \<Rightarrow> 0
           | Some c \<Rightarrow> (case findCustomer c (db_points s) of None \<Rightarrow> 0 | Some x \<Rightarrow> cu_loyaltyPoints x)))"

definition billInput :: "branch_row \<Rightarrow> order \<Rightarrow> bill_adjust \<Rightarrow> priced_line list \<Rightarrow> num \<Rightarrow> int \<Rightarrow> bill_input" where
  "billInput b r a lines autoAmount n =
     \<lparr>in_lines = lines, in_discountPercent = ba_discountPercent a, in_discountFlat = ba_discountFlat a,
      in_autoDiscount = Some autoAmount,
      in_loyaltyDiscountRequested = Some (fmul (of_int n) (cents (br_loyaltyPointValue b))),
      in_tip = ba_tipAmount a, in_deliveryFee = Some (cents (od_deliveryFee r))\<rparr>"

definition resolveBill ::
  "config \<Rightarrow> runtime \<Rightarrow> string \<Rightarrow> order_view \<Rightarrow> bill_adjust \<Rightarrow> string option \<Rightarrow> db \<Rightarrow> resolved_bill res" where
  "resolveBill cfg rt branchId v a customerId s =
     (let r = ov_order v; paid = paidSoFar (ov_payments v); locked = (ov_payments v \<noteq> []) in
      if locked then
        (if asksForMore a
         then Inl (BadRequest ''Discount, tip and loyalty points are locked once a payment has been taken on this bill'')
         else Inr \<lparr>rs_bill = storedBill r, rs_locked = True, rs_paid = paid, rs_auto = noDiscount,
                   rs_points = od_loyaltyPointsRedeemed r\<rparr>)
      else case branchOf cfg branchId of
        None \<Rightarrow> Inl RecordMissing
      | Some b \<Rightarrow>
          let lines = map storedLine (ov_items v) in
          ebind (resolveCheckoutDiscount (rt_dayMinute rt) (cf_promotions cfg) (db_coupons s) branchId
                   (round2 (fsum (map lineTotal lines))) (ba_couponCode a) (rt_now rt)) (\<lambda>auto.
          let n = pointsToRedeem r a s in
          if 0 < n \<and> \<not> present customerId
          then Inl (BadRequest ''Cannot redeem loyalty points without a customer on the order'')
          else Inr \<lparr>rs_bill = computeBill (billInput b r a lines (cd_amount auto) n), rs_locked = False,
                    rs_paid = paid, rs_auto = auto, rs_points = n\<rparr>))"

section \<open>Previews\<close>

definition previewDiscount :: "config \<Rightarrow> runtime \<Rightarrow> string \<Rightarrow> string \<Rightarrow> string option \<Rightarrow> db \<Rightarrow> checkout_discount res" where
  "previewDiscount cfg rt branchId orderId couponCode s =
     (case find (\<lambda>r. od_id r = orderId \<and> od_branchId r = branchId \<and> od_status r = OPEN) (db_orders s) of
        None \<Rightarrow> Inl (NotFound ''Open order not found'')
      | Some r \<Rightarrow> resolveCheckoutDiscount (rt_dayMinute rt) (cf_promotions cfg) (db_coupons s) branchId
          (round2 (fsum (map (\<lambda>i. cents (oi_lineTotal i)) (itemsOf orderId s)))) couponCode (rt_now rt))"

record bill_preview =
  bp_locked :: bool
  bp_status :: order_status
  bp_bill :: bill
  bp_discountEntry :: "(discount_type \<times> num) option"
  bp_couponCode :: "string option"
  bp_promotionName :: "string option"
  bp_loyaltyPointsRedeemed :: int
  bp_amountPaid :: num
  bp_balanceDue :: num

definition storedEntry :: "order \<Rightarrow> (discount_type \<times> num) option" where
  "storedEntry r = map_option (\<lambda>(ty, v). (ty, cents v)) (od_discountEntry r)"

definition previewBill :: "config \<Rightarrow> runtime \<Rightarrow> string \<Rightarrow> string \<Rightarrow> bill_adjust \<Rightarrow> db \<Rightarrow> bill_preview res" where
  "previewBill cfg rt branchId orderId a s =
     ebind (getOrder branchId orderId s) (\<lambda>v.
     let r = ov_order v in
     if od_status r = ORDER_CANCELLED then Inl (BadRequest ''This order was cancelled'')
     else if od_status r = PAID
     then Inr \<lparr>bp_locked = True, bp_status = PAID, bp_bill = storedBill r, bp_discountEntry = storedEntry r,
               bp_couponCode = od_couponCode r, bp_promotionName = od_promotionName r,
               bp_loyaltyPointsRedeemed = od_loyaltyPointsRedeemed r, bp_amountPaid = cents (od_totalAmount r),
               bp_balanceDue = 0\<rparr>
     else ebind (resolveBill cfg rt branchId v a (od_customerId r) s) (\<lambda>x.
       Inr \<lparr>bp_locked = rs_locked x, bp_status = od_status r, bp_bill = rs_bill x,
            bp_discountEntry = (if rs_locked x then storedEntry r
                                else manualDiscountEntry (or0 (ba_discountPercent a)) (or0 (ba_discountFlat a))),
            bp_couponCode = (if rs_locked x then od_couponCode r else cd_couponCode (rs_auto x)),
            bp_promotionName = (if rs_locked x then od_promotionName r else cd_promotionName (rs_auto x)),
            bp_loyaltyPointsRedeemed = (if 0 < bill_loyaltyDiscountAmount (rs_bill x) then rs_points x else 0),
            bp_amountPaid = rs_paid x,
            bp_balanceDue = max (round2 (fsub (bill_totalDue (rs_bill x)) (rs_paid x))) 0\<rparr>))"

section \<open>Checkout: reads and checks\<close>

record checkout_plan =
  cp_order :: order
  cp_items :: "order_item list"
  cp_customerId :: "string option"
  cp_resolved :: resolved_bill
  cp_balance :: num
  cp_entry :: "(discount_type \<times> num) option"

datatype checkout_read = Replay | Proceed checkout_plan

text \<open>The customer of the order, or the one given at the till.\<close>

definition effectiveCustomer :: "string \<Rightarrow> order \<Rightarrow> checkout_dto \<Rightarrow> db \<Rightarrow> string option res" where
  "effectiveCustomer branchId r d s =
     (if \<not> present (od_customerId r) \<and> present (co_customerId d)
      then (case find (\<lambda>c. Some (cu_id c) = co_customerId d \<and> cu_branchId c = branchId) (ps_customers (db_points s)) of
              None \<Rightarrow> Inl (BadRequest ''Customer not found'') | Some c \<Rightarrow> Inr (Some (cu_id c)))
      else Inr (od_customerId r))"

definition guardDiscount :: "branch_row \<Rightarrow> checkout_dto \<Rightarrow> resolved_bill \<Rightarrow> bool \<Rightarrow> unit res" where
  "guardDiscount b d x mayExceedCap =
     (if rs_locked x then Inr ()
      else assertManualDiscountAllowed (bill_subtotal (rs_bill x)) (ba_discountPercent (co_adj d)) (ba_discountFlat (co_adj d))
             (cents (br_maxManualDiscountPercent b)) (br_requireDiscountReason b) (co_discountReason d) mayExceedCap)"

definition isReplay :: "checkout_dto \<Rightarrow> payment list \<Rightarrow> bool" where
  "isReplay d ps \<longleftrightarrow> present (co_requestId d) \<and> list_ex (\<lambda>p. py_clientRequestId p = co_requestId d) ps"

definition checkoutRead ::
  "config \<Rightarrow> runtime \<Rightarrow> string \<Rightarrow> string \<Rightarrow> checkout_dto \<Rightarrow> bool \<Rightarrow> db \<Rightarrow> checkout_read res" where
  "checkoutRead cfg rt branchId orderId d mayExceedCap s =
     ebind (getOrder branchId orderId s) (\<lambda>v.
     let r = ov_order v in
     if isReplay d (ov_payments v) then Inr Replay
     else if od_status r \<noteq> OPEN then Inl (BadRequest ''Order is not open for checkout'')
     else if od_acceptance r = PENDING
     then Inl (Conflict ''This order has not been accepted yet - accept it before taking payment'')
     else case branchOf cfg branchId of
       None \<Rightarrow> Inl RecordMissing
     | Some b \<Rightarrow>
         ebind (effectiveCustomer branchId r d s) (\<lambda>customerId.
         ebind (resolveBill cfg rt branchId v (co_adj d) customerId s) (\<lambda>x.
         ebind (guardDiscount b d x mayExceedCap) (\<lambda>_.
         Inr (Proceed \<lparr>cp_order = r, cp_items = ov_items v, cp_customerId = customerId, cp_resolved = x,
           cp_balance = round2 (fsub (bill_totalDue (rs_bill x)) (rs_paid x)),
           cp_entry = manualDiscountEntry (or0 (ba_discountPercent (co_adj d))) (or0 (ba_discountFlat (co_adj d)))\<rparr>)))))"

section \<open>Checkout: the transaction\<close>

text \<open>Coupon and points, on the first payment only: the points taken and what they are worth.\<close>

definition redeemStep :: "string \<Rightarrow> checkout_plan \<Rightarrow> db \<Rightarrow> (int \<times> num \<times> db) res" where
  "redeemStep branchId p s =
     (let r = cp_order p; x = cp_resolved p in
      if rs_locked x then Inr (od_loyaltyPointsRedeemed r, cents (od_loyaltyDiscountAmount r), s)
      else
        ebind (case cd_couponId (rs_auto x) of
                 None \<Rightarrow> Inr s
               | Some i \<Rightarrow> ebind (redeemCoupon i (db_coupons s)) (\<lambda>cs. Inr (s\<lparr>db_coupons := cs\<rparr>))) (\<lambda>s1.
        if 0 < rs_points x \<and> present (cp_customerId p)
        then ebind (redeemPoints branchId (the (cp_customerId p)) (od_id r) (rs_points x) (db_points s1)) (\<lambda>ps.
             Inr (rs_points x, bill_loyaltyDiscountAmount (rs_bill x), s1\<lparr>db_points := ps\<rparr>))
        else Inr (0, 0, s1)))"

text \<open>The gift card covers what the entered payments leave.\<close>

definition giftStep :: "string \<Rightarrow> string \<Rightarrow> checkout_dto \<Rightarrow> num \<Rightarrow> db \<Rightarrow> (num \<times> db) res" where
  "giftStep branchId orderId d balance s =
     (let rest = round2 (fsub balance (round2 (fsum (map pl_amount (co_payments d))))) in
      if present (co_giftCardCode d) \<and> 0 < rest
      then ebind (redeemCard branchId orderId (the (co_giftCardCode d)) rest (db_gifts s)) (\<lambda>(a, gs).
           Inr (a, s\<lparr>db_gifts := gs\<rparr>))
      else Inr (0, s))"

definition paymentRow :: "string \<Rightarrow> string \<Rightarrow> string option \<Rightarrow> settled_payment \<Rightarrow> payment" where
  "paymentRow orderId userId key p =
     \<lparr>py_orderId = orderId, py_method = sp_method p, py_amount = to_column 100 (sp_amount p),
      py_tendered = map_option (to_column 100) (sp_tendered p), py_changeGiven = map_option (to_column 100) (sp_changeGiven p),
      py_reference = sp_reference p, py_createdById = userId, py_clientRequestId = key\<rparr>"

text \<open>The request's key goes on the first row.\<close>

definition paymentRows :: "string \<Rightarrow> string \<Rightarrow> checkout_dto \<Rightarrow> settled_payment list \<Rightarrow> num \<Rightarrow> payment list" where
  "paymentRows orderId userId d ps gift =
     (let rows = (case ps of [] \<Rightarrow> []
                  | q # qs \<Rightarrow> paymentRow orderId userId (co_requestId d) q # map (paymentRow orderId userId None) qs)
      in if 0 < gift
         then rows @ [paymentRow orderId userId (if rows = [] then co_requestId d else None)
                \<lparr>sp_method = GIFT_CARD, sp_amount = gift, sp_tendered = None, sp_changeGiven = None,
                 sp_reference = co_giftCardCode d\<rparr>]
         else rows)"

text \<open>The figures fixed by the first payment.\<close>

definition lockFigures :: "checkout_dto \<Rightarrow> checkout_plan \<Rightarrow> int \<Rightarrow> num \<Rightarrow> order \<Rightarrow> order" where
  "lockFigures d p n loyalty r =
     (let x = cp_resolved p; b = rs_bill x in
      if rs_locked x then r
      else r\<lparr>od_customerId := (if present (cp_customerId p) \<and> \<not> present (od_customerId (cp_order p))
                               then cp_customerId p else od_customerId r),
             od_discountAmount := to_column 100 (bill_discountAmount b),
             od_discountEntry := map_option (\<lambda>(ty, v). (ty, to_column 100 v)) (cp_entry p),
             od_discountReason := (if cp_entry p = None then None else map_option trim (co_discountReason d)),
             od_taxAmount := to_column 100 (bill_taxAmount b),
             od_couponCode := cd_couponCode (rs_auto x), od_promotionName := cd_promotionName (rs_auto x),
             od_loyaltyPointsRedeemed := n, od_loyaltyDiscountAmount := to_column 100 loyalty,
             od_tipAmount := to_column 100 (bill_tipAmount b), od_totalAmount := to_column 100 (bill_totalDue b)\<rparr>)"

text \<open>\<open>order.update\<close> where the order is still open, with its payment rows.\<close>

definition openRow :: "string \<Rightarrow> order \<Rightarrow> bool" where
  "openRow orderId r \<longleftrightarrow> od_id r = orderId \<and> od_status r = OPEN"

definition paymentClash :: "payment \<Rightarrow> payment \<Rightarrow> bool" where
  "paymentClash a b \<longleftrightarrow> py_orderId a = py_orderId b \<and> py_clientRequestId a \<noteq> None \<and> py_clientRequestId a = py_clientRequestId b"

definition payOpenOrder :: "string \<Rightarrow> (order \<Rightarrow> order) \<Rightarrow> payment list \<Rightarrow> db \<Rightarrow> db res" where
  "payOpenOrder orderId f rows s =
     (if count_where (openRow orderId) (db_orders s) = 0 then Inl RecordMissing
      else if list_ex (\<lambda>a. list_ex (paymentClash a) (db_payments s)) rows then Inl UniqueViolation
      else Inr (updOrders (openRow orderId) f (s\<lparr>db_payments := db_payments s @ rows\<rparr>)))"

text \<open>Points earned on the food actually paid for, and the reward of a referral.\<close>

definition earnStep :: "branch_row \<Rightarrow> string \<Rightarrow> checkout_plan \<Rightarrow> num \<Rightarrow> db \<Rightarrow> db res" where
  "earnStep b branchId p loyalty s =
     (if \<not> present (cp_customerId p) then Inr s
      else
        (let c = the (cp_customerId p); x = rs_bill (cp_resolved p); orderId = od_id (cp_order p);
             netSpend = round2 (fsub (fsub (bill_subtotal x) (bill_discountAmount x)) loyalty);
             earned = \<lfloor>fdiv netSpend (of_int (br_loyaltyEarnPerCurrency b))\<rfloor>
         in ebind (earnPoints branchId c orderId earned (db_points s)) (\<lambda>ps.
            ebind (onOrderPaid (br_referral b) \<lparr>po_id = orderId, po_branchId = branchId, po_customerId = Some c,
                     po_totalAmount = bill_totalDue x, po_foodValue = bill_subtotal x\<rparr> ps) (\<lambda>ps'.
            Inr (s\<lparr>db_points := ps'\<rparr>)))))"

definition fiscalSale :: "order \<Rightarrow> db \<Rightarrow> fiscal_sale" where
  "fiscalSale r s = \<lparr>fs_orderId = od_id r, fs_branchId = od_branchId r, fs_totalAmount = od_totalAmount r,
     fs_tipAmount = od_tipAmount r, fs_items = map (\<lambda>i. (oi_lineTotal i, oi_taxRate i)) (itemsOf (od_id r) s)\<rparr>"

definition fiscalEnv :: "runtime \<Rightarrow> db \<Rightarrow> vf_env \<times> db" where
  "fiscalEnv rt s = (let (i, s') = freshId rt s in ((rt_fiscal rt)\<lparr>ve_newId := i\<rparr>, s'))"

definition fiscalStep :: "runtime \<Rightarrow> string \<Rightarrow> db \<Rightarrow> db res" where
  "fiscalStep rt orderId s =
     (case find (\<lambda>r. od_id r = orderId) (db_orders s) of
        None \<Rightarrow> Inl RecordMissing
      | Some r \<Rightarrow>
          let (e, s') = fiscalEnv rt s in
          ebind (recordPaidOrder e (fiscalSale r s) (db_fiscal s)) (\<lambda>(_, vf). Inr (s'\<lparr>db_fiscal := vf\<rparr>)))"

text \<open>What follows when the payments settle the bill: stock, table, points, status, fiscal record.\<close>

definition closeStep ::
  "config \<Rightarrow> runtime \<Rightarrow> branch_row \<Rightarrow> string \<Rightarrow> string \<Rightarrow> checkout_dto \<Rightarrow> checkout_plan \<Rightarrow> int \<Rightarrow> num \<Rightarrow> payment list \<Rightarrow> db
   \<Rightarrow> (skipped_item list \<times> db) res" where
  "closeStep cfg rt b branchId userId d p n loyalty rows s =
     (let r = cp_order p; orderId = od_id r in
      ebind (deductForOrder (cf_stockMenu cfg) (cf_combos cfg) branchId userId orderId
               (map (\<lambda>i. (oi_menuItemId i, oi_quantity i)) (cp_items p)) (db_stock s)) (\<lambda>(skips, st).
      ebind (releaseTableIfIdle rt (od_tableId r) orderId (s\<lparr>db_stock := st\<rparr>)) (\<lambda>s1.
      ebind (earnStep b branchId p loyalty s1) (\<lambda>s2.
      ebind (payOpenOrder orderId (\<lambda>x. (lockFigures d p n loyalty x)\<lparr>od_status := PAID, od_billedAt := Some (rt_now rt)\<rparr>)
               rows s2) (\<lambda>s3.
      ebind (fiscalStep rt orderId s3) (\<lambda>s4. Inr (skips, s4)))))))"

text \<open>The settlement, what was not taken from stock, and the new state.\<close>

definition checkoutTx ::
  "config \<Rightarrow> runtime \<Rightarrow> branch_row \<Rightarrow> string \<Rightarrow> string \<Rightarrow> checkout_dto \<Rightarrow> checkout_plan \<Rightarrow> db
   \<Rightarrow> (settlement \<times> skipped_item list \<times> db) res" where
  "checkoutTx cfg rt b branchId userId d p s =
     (let orderId = od_id (cp_order p) in
      ebind (redeemStep branchId p s) (\<lambda>(n, loyalty, s1).
      ebind (giftStep branchId orderId d (cp_balance p) s1) (\<lambda>(gift, s2).
      ebind (settlePayments (cp_balance p) (co_payments d) (Some gift) (co_allowPartial d)) (\<lambda>st.
      let rows = paymentRows orderId userId d (st_payments st) gift in
      if \<not> st_fullyPaid st
      then ebind (payOpenOrder orderId (lockFigures d p n loyalty) rows s2) (\<lambda>s3. Inr (st, [], s3))
      else ebind (closeStep cfg rt b branchId userId d p n loyalty rows s2) (\<lambda>(skips, s3). Inr (st, skips, s3))))))"

section \<open>Checkout: the answer\<close>

record settlement_view =
  sv_amountDue :: num
  sv_amountPaid :: num
  sv_balanceDue :: num
  sv_changeDue :: num
  sv_fullyPaid :: bool

definition checkoutResult :: "string \<Rightarrow> string \<Rightarrow> db \<Rightarrow> (order_view \<times> settlement_view) res" where
  "checkoutResult branchId orderId s =
     (case findOrder branchId orderId s of
        None \<Rightarrow> Inl RecordMissing
      | Some r \<Rightarrow>
          let ps = paymentsOf orderId s; amountPaid = paidSoFar ps; total = cents (od_totalAmount r) in
          ebind (getOrder branchId orderId s) (\<lambda>v.
          Inr (v, \<lparr>sv_amountDue = total, sv_amountPaid = amountPaid,
                   sv_balanceDue = (if od_status r = PAID then 0 else max (round2 (fsub total amountPaid)) 0),
                   sv_changeDue = round2 (fsum (map (\<lambda>p. case py_changeGiven p of None \<Rightarrow> 0 | Some c \<Rightarrow> cents c) ps)),
                   sv_fullyPaid = (od_status r = PAID)\<rparr>)))"

definition checkoutDone ::
  "string \<Rightarrow> string \<Rightarrow> checkout_plan \<Rightarrow> settlement \<Rightarrow> skipped_item list \<Rightarrow> db \<Rightarrow> ((order_view \<times> settlement_view) \<times> db) res" where
  "checkoutDone branchId orderId p st skips s =
     (let s1 = (if skips \<noteq> [] then auditRow ''inventory.deduction_skipped'' orderId s else s);
          s2 = auditRow (if st_fullyPaid st then ''order.paid'' else ''order.partial_payment_recorded'') orderId s1;
          s3 = emit ([OrderUpdated orderId (if st_fullyPaid st then Some PAID else None)] @
                     (if st_fullyPaid st \<and> present (od_tableId (cp_order p)) then [TableUpdated (the (od_tableId (cp_order p)))] else [])) s2
      in ebind (getOrder branchId orderId s3) (\<lambda>v.
         Inr ((v, \<lparr>sv_amountDue = bill_totalDue (rs_bill (cp_resolved p)),
                   sv_amountPaid = round2 (fadd (rs_paid (cp_resolved p)) (st_paidNow st)),
                   sv_balanceDue = st_balanceAfter st, sv_changeDue = st_changeDue st, sv_fullyPaid = st_fullyPaid st\<rparr>), s3)))"

definition alreadyCheckedOut :: exn where
  "alreadyCheckedOut = Conflict ''This order was already checked out by another request.''"

text \<open>The transaction on the state found then, and what its failures are answered with.\<close>

definition checkoutWrite ::
  "config \<Rightarrow> runtime \<Rightarrow> string \<Rightarrow> string \<Rightarrow> string \<Rightarrow> checkout_dto \<Rightarrow> checkout_plan \<Rightarrow> db
   \<Rightarrow> ((order_view \<times> settlement_view) \<times> db) res" where
  "checkoutWrite cfg rt branchId orderId userId d p s =
     (case branchOf cfg branchId of
        None \<Rightarrow> Inl RecordMissing
      | Some b \<Rightarrow>
          (case checkoutTx cfg rt b branchId userId d p s of
             Inr (st, skips, s1) \<Rightarrow> checkoutDone branchId orderId p st skips s1
           | Inl RecordMissing \<Rightarrow> Inl alreadyCheckedOut
           | Inl UniqueViolation \<Rightarrow>
               if present (co_requestId d) then ebind (checkoutResult branchId orderId s) (\<lambda>v. Inr (v, s))
               else Inl UniqueViolation
           | Inl e \<Rightarrow> Inl e))"

definition checkout ::
  "config \<Rightarrow> runtime \<Rightarrow> string \<Rightarrow> string \<Rightarrow> string \<Rightarrow> checkout_dto \<Rightarrow> bool \<Rightarrow> db
   \<Rightarrow> ((order_view \<times> settlement_view) \<times> db) res" where
  "checkout cfg rt branchId orderId userId d mayExceedCap s =
     ebind (checkoutRead cfg rt branchId orderId d mayExceedCap s) (\<lambda>x. case x of
       Replay \<Rightarrow> ebind (checkoutResult branchId orderId s) (\<lambda>v. Inr (v, s))
     | Proceed p \<Rightarrow> checkoutWrite cfg rt branchId orderId userId d p s)"

end
