(* ===== verification/Order_Refunds.thy ===== *)
theory Order_Refunds
  imports Order_Checkout
begin

text \<open>
  Refunds of a paid order in \<open>modules/orders/orders.service.ts\<close>. The row lock taken at the start of the
  transaction makes the refunds of one order happen one after the other, which is how they are sequenced
  here. The reason text is left out.
\<close>

record returned_item =
  ri_orderItemId :: string
  ri_quantity :: int

record refund_dto =
  rd_refundAmount :: num
  rd_method :: payment_method
  rd_returnedItems :: "returned_item list"

definition refundSchema :: "refund_dto \<Rightarrow> bool" where
  "refundSchema d \<longleftrightarrow> 0 < rd_refundAmount d \<and> list_all (\<lambda>i. 0 < ri_quantity i) (rd_returnedItems d) \<and>
     length (rd_returnedItems d) \<le> 100"

definition alreadyRefunded :: "string \<Rightarrow> db \<Rightarrow> num" where
  "alreadyRefunded orderId s =
     round2 (fsum (map (\<lambda>r. cents (rf_amount r)) (filter (\<lambda>r. rf_orderId r = orderId) (db_refunds s))))"

definition refundable :: "order \<Rightarrow> db \<Rightarrow> num" where
  "refundable r s = round2 (fsub (cents (od_totalAmount r)) (alreadyRefunded (od_id r) s))"

definition returnedSoFar :: "string \<Rightarrow> db \<Rightarrow> int" where
  "returnedSoFar itemId s = sum_list (map sr_quantity (filter (\<lambda>x. sr_orderItemId x = itemId) (db_stockReturns s)))"

text \<open>One returned item: checked against what was sold and what came back before, then recorded.\<close>

definition returnItem ::
  "order_item list \<Rightarrow> string \<Rightarrow> returned_item \<Rightarrow> sale_line list \<times> db \<Rightarrow> (sale_line list \<times> db) res" where
  "returnItem items refundId ret acc =
     (let (lines, s) = acc in
      case find (\<lambda>i. oi_id i = ri_orderItemId ret) items of
        None \<Rightarrow> Inl (BadRequest ''Returned item does not belong to this order'')
      | Some i \<Rightarrow>
          if oi_quantity i - returnedSoFar (oi_id i) s < ri_quantity ret
          then Inl (BadRequest ''Cannot return more than is left to return'')
          else Inr (lines @ [(oi_menuItemId i, ri_quantity ret)],
                    s\<lparr>db_stockReturns := db_stockReturns s @
                        [\<lparr>sr_orderItemId = oi_id i, sr_refundId = refundId, sr_quantity = ri_quantity ret\<rparr>]\<rparr>))"

definition returnStep :: "config \<Rightarrow> string \<Rightarrow> string \<Rightarrow> string \<Rightarrow> string \<Rightarrow> returned_item list \<Rightarrow> db \<Rightarrow> db res" where
  "returnStep cfg branchId userId orderId refundId rets s =
     (if rets = [] then Inr s
      else ebind (foldE (returnItem (itemsOf orderId s) refundId) rets ([], s)) (\<lambda>(lines, s1).
           ebind (restoreForReturn (cf_stockMenu cfg) (cf_combos cfg) branchId userId orderId lines (db_stock s1)) (\<lambda>(_, st).
           Inr (s1\<lparr>db_stock := st\<rparr>))))"

text \<open>Store credit goes to the wallet of the order's customer.\<close>

definition creditWallet :: "order \<Rightarrow> refund_dto \<Rightarrow> db \<Rightarrow> db res" where
  "creditWallet r d s =
     (if rd_method d = STORE_CREDIT \<and> present (od_customerId r)
      then if findCustomer (the (od_customerId r)) (db_points s) = None then Inl RecordMissing
           else Inr (s\<lparr>db_points := (db_points s)\<lparr>ps_customers := upd_where (\<lambda>c. Some (cu_id c) = od_customerId r)
                  (\<lambda>c. c\<lparr>cu_walletBalance := cu_walletBalance c + to_column 100 (rd_refundAmount d)\<rparr>)
                  (ps_customers (db_points s))\<rparr>\<rparr>)
      else Inr s)"

text \<open>The transaction on the order read before it; the refund row and the new state.\<close>

definition refundTx ::
  "config \<Rightarrow> runtime \<Rightarrow> string \<Rightarrow> string \<Rightarrow> refund_dto \<Rightarrow> order \<Rightarrow> db \<Rightarrow> (refund_row \<times> db) res" where
  "refundTx cfg rt branchId userId d r s =
     (let orderId = od_id r in
      if count_where (\<lambda>x. od_id x = orderId) (db_orders s) = 0 then Inl RecordMissing
      else if refundable r s < rd_refundAmount d
      then Inl (BadRequest ''Cannot refund more than remains refundable on this order'')
      else
        (let (i, s1) = freshId rt s;
             row = \<lparr>rf_id = i, rf_orderId = orderId, rf_amount = to_column 100 (rd_refundAmount d),
                    rf_method = rd_method d, rf_createdById = userId\<rparr>;
             s2 = s1\<lparr>db_refunds := db_refunds s1 @ [row]\<rparr>;
             (e, s3) = fiscalEnv rt s2
         in ebind (recordRefund e (fiscalSale r s2) i (rd_refundAmount d) (db_fiscal s3)) (\<lambda>(_, vf).
            ebind (returnStep cfg branchId userId orderId i (rd_returnedItems d) (s3\<lparr>db_fiscal := vf\<rparr>)) (\<lambda>s4.
            ebind (creditWallet r d s4) (\<lambda>s5. Inr (row, s5))))))"

definition refund ::
  "config \<Rightarrow> runtime \<Rightarrow> string \<Rightarrow> string \<Rightarrow> string \<Rightarrow> refund_dto \<Rightarrow> db \<Rightarrow> (refund_row \<times> db) res" where
  "refund cfg rt branchId orderId userId d s =
     (case findOrder branchId orderId s of
        None \<Rightarrow> Inl (NotFound ''Order not found'')
      | Some r \<Rightarrow>
          if od_status r \<noteq> PAID then Inl (BadRequest ''Only a paid order can be refunded'')
          else ebind (refundTx cfg rt branchId userId d r s) (\<lambda>(row, s1).
               Inr (row, auditRow ''order.refunded'' orderId (emit [OrderUpdated orderId None] s1))))"

end
