(* ===== verification/Order_Effects.thy ===== *)
theory Order_Effects
  imports Order_Refunds
begin

text \<open>
  What each handler of the order service does to the rows: the fields a step leaves alone, and for every
  handler that succeeds the state it reaches. \<open>advances\<close> is what all of them but the deletion share: the
  row of a finished order stays, identifiers stay unique, events and fiscal records are only added.
\<close>

named_theorems frame "fields a step leaves alone"

section \<open>What the steps leave alone\<close>

lemma frame_emit [frame]:
  "db_orders (emit es s) = db_orders s" "db_events (emit es s) = db_events s @ es" "db_fiscal (emit es s) = db_fiscal s"
  "db_tables (emit es s) = db_tables s" "db_items (emit es s) = db_items s" "db_kots (emit es s) = db_kots s"
  "db_kotItems (emit es s) = db_kotItems s" "db_payments (emit es s) = db_payments s" "db_refunds (emit es s) = db_refunds s"
  "db_stockReturns (emit es s) = db_stockReturns s" "db_points (emit es s) = db_points s" "db_gifts (emit es s) = db_gifts s"
  "db_stock (emit es s) = db_stock s" "db_coupons (emit es s) = db_coupons s" "db_next (emit es s) = db_next s"
  by (simp_all add: emit_def)

lemma frame_audit [frame]:
  "db_orders (auditRow a i s) = db_orders s" "db_events (auditRow a i s) = db_events s" "db_fiscal (auditRow a i s) = db_fiscal s"
  "db_tables (auditRow a i s) = db_tables s" "db_items (auditRow a i s) = db_items s" "db_kots (auditRow a i s) = db_kots s"
  "db_kotItems (auditRow a i s) = db_kotItems s" "db_payments (auditRow a i s) = db_payments s"
  "db_refunds (auditRow a i s) = db_refunds s" "db_stockReturns (auditRow a i s) = db_stockReturns s"
  "db_points (auditRow a i s) = db_points s" "db_gifts (auditRow a i s) = db_gifts s"
  "db_stock (auditRow a i s) = db_stock s" "db_coupons (auditRow a i s) = db_coupons s" "db_next (auditRow a i s) = db_next s"
  by (simp_all add: auditRow_def)

lemma frame_orders [frame]:
  "db_orders (updOrders P f s) = upd_where P f (db_orders s)" "db_events (updOrders P f s) = db_events s"
  "db_fiscal (updOrders P f s) = db_fiscal s" "db_tables (updOrders P f s) = db_tables s"
  "db_items (updOrders P f s) = db_items s" "db_kots (updOrders P f s) = db_kots s"
  "db_kotItems (updOrders P f s) = db_kotItems s" "db_payments (updOrders P f s) = db_payments s"
  "db_refunds (updOrders P f s) = db_refunds s" "db_stockReturns (updOrders P f s) = db_stockReturns s"
  "db_points (updOrders P f s) = db_points s" "db_gifts (updOrders P f s) = db_gifts s"
  "db_stock (updOrders P f s) = db_stock s" "db_coupons (updOrders P f s) = db_coupons s" "db_next (updOrders P f s) = db_next s"
  by (simp_all add: updOrders_def)

lemma frame_kots [frame]:
  "db_orders (updKots P g s) = db_orders s" "db_events (updKots P g s) = db_events s"
  "db_fiscal (updKots P g s) = db_fiscal s" "db_tables (updKots P g s) = db_tables s"
  "db_items (updKots P g s) = db_items s" "db_kots (updKots P g s) = upd_where P g (db_kots s)"
  "db_kotItems (updKots P g s) = db_kotItems s" "db_payments (updKots P g s) = db_payments s"
  "db_refunds (updKots P g s) = db_refunds s" "db_stockReturns (updKots P g s) = db_stockReturns s"
  "db_points (updKots P g s) = db_points s" "db_gifts (updKots P g s) = db_gifts s"
  "db_stock (updKots P g s) = db_stock s" "db_coupons (updKots P g s) = db_coupons s" "db_next (updKots P g s) = db_next s"
  by (simp_all add: updKots_def)

lemma frame_kotItems [frame]:
  "db_orders (updKotItems P h s) = db_orders s" "db_events (updKotItems P h s) = db_events s"
  "db_fiscal (updKotItems P h s) = db_fiscal s" "db_tables (updKotItems P h s) = db_tables s"
  "db_items (updKotItems P h s) = db_items s" "db_kots (updKotItems P h s) = db_kots s"
  "db_kotItems (updKotItems P h s) = upd_where P h (db_kotItems s)" "db_payments (updKotItems P h s) = db_payments s"
  "db_refunds (updKotItems P h s) = db_refunds s" "db_stockReturns (updKotItems P h s) = db_stockReturns s"
  "db_points (updKotItems P h s) = db_points s" "db_gifts (updKotItems P h s) = db_gifts s"
  "db_stock (updKotItems P h s) = db_stock s" "db_coupons (updKotItems P h s) = db_coupons s" "db_next (updKotItems P h s) = db_next s"
  by (simp_all add: updKotItems_def)

lemma frame_tables [frame]:
  "db_orders (updTables P f s) = db_orders s" "db_events (updTables P f s) = db_events s"
  "db_fiscal (updTables P f s) = db_fiscal s" "db_tables (updTables P f s) = upd_where P f (db_tables s)"
  "db_items (updTables P f s) = db_items s" "db_kots (updTables P f s) = db_kots s"
  "db_kotItems (updTables P f s) = db_kotItems s" "db_payments (updTables P f s) = db_payments s"
  "db_refunds (updTables P f s) = db_refunds s" "db_stockReturns (updTables P f s) = db_stockReturns s"
  "db_points (updTables P f s) = db_points s" "db_gifts (updTables P f s) = db_gifts s"
  "db_stock (updTables P f s) = db_stock s" "db_coupons (updTables P f s) = db_coupons s" "db_next (updTables P f s) = db_next s"
  by (simp_all add: updTables_def)

lemma frame_deleteLines [frame]:
  "db_orders (deleteLines P s) = db_orders s" "db_events (deleteLines P s) = db_events s"
  "db_fiscal (deleteLines P s) = db_fiscal s" "db_tables (deleteLines P s) = db_tables s"
  "db_items (deleteLines P s) = del_where (\<lambda>i. P (oi_id i)) (db_items s)" "db_kots (deleteLines P s) = db_kots s"
  "db_kotItems (deleteLines P s) = del_where (\<lambda>k. P (ki_orderItemId k)) (db_kotItems s)"
  "db_payments (deleteLines P s) = db_payments s"
  "db_refunds (deleteLines P s) = db_refunds s" "db_points (deleteLines P s) = db_points s" "db_gifts (deleteLines P s) = db_gifts s"
  "db_stock (deleteLines P s) = db_stock s" "db_coupons (deleteLines P s) = db_coupons s" "db_next (deleteLines P s) = db_next s"
  by (simp_all add: deleteLines_def)

lemma frame_generate [frame]:
  "db_orders (generateKots cfg rt i is s) = db_orders s" "db_fiscal (generateKots cfg rt i is s) = db_fiscal s"
  "db_tables (generateKots cfg rt i is s) = db_tables s" "db_items (generateKots cfg rt i is s) = db_items s"
  "db_payments (generateKots cfg rt i is s) = db_payments s" "db_refunds (generateKots cfg rt i is s) = db_refunds s"
  "db_stockReturns (generateKots cfg rt i is s) = db_stockReturns s" "db_points (generateKots cfg rt i is s) = db_points s"
  "db_gifts (generateKots cfg rt i is s) = db_gifts s" "db_stock (generateKots cfg rt i is s) = db_stock s"
  "db_coupons (generateKots cfg rt i is s) = db_coupons s"
  "db_events (generateKots cfg rt i is s) =
     db_events s @ map (\<lambda>k. KotCreated (kt_id k)) (kotRows rt i (itemsByStation cfg is) (db_next s) (length (kotsOf i s) + 1))"
  by (simp_all add: generateKots_state Let_def)

lemma frame_setTable [frame]:
  "setTable rt i st s = Inr t \<longleftrightarrow> 0 < count_where (\<lambda>x. tb_id x = i) (db_tables s) \<and>
     t = updTables (\<lambda>x. tb_id x = i) (\<lambda>x. x\<lparr>tb_status := st, tb_statusSince := rt_now rt\<rparr>) s"
  by (auto simp: setTable_def)

definition idleTable :: "string \<Rightarrow> string \<Rightarrow> db \<Rightarrow> bool" where
  "idleTable tableId except s \<longleftrightarrow>
     (\<forall>r \<in> set (db_orders s). od_tableId r = Some tableId \<longrightarrow> od_status r = OPEN \<longrightarrow> od_id r = except)"

lemma releaseTable_cases:
  assumes "releaseTableIfIdle rt tb except s = Inr t"
  obtains "t = s"
  | i where "tb = Some i" "idleTable i except s"
      "t = updTables (\<lambda>x. tb_id x = i) (\<lambda>x. x\<lparr>tb_status := AVAILABLE, tb_statusSince := rt_now rt\<rparr>) s"
proof (cases tb)
  case None
  then show ?thesis using assms that(1) by (simp add: releaseTableIfIdle_def)
next
  case (Some i)
  show ?thesis
  proof (cases "i = '''' \<or> 0 < count_where (\<lambda>r. od_tableId r = Some i \<and> od_status r = OPEN \<and> od_id r \<noteq> except) (db_orders s)")
    case True
    then show ?thesis using assms that(1) Some by (auto simp: releaseTableIfIdle_def split: if_splits)
  next
    case False
    then have "idleTable i except s"
      by (auto simp: idleTable_def count_where_def filter_empty_conv)
    then show ?thesis using assms that(2) Some False by (auto simp: releaseTableIfIdle_def frame)
  qed
qed

lemma releaseTable_frame:
  assumes "releaseTableIfIdle rt tb except s = Inr t"
  shows "db_orders t = db_orders s \<and> db_events t = db_events s \<and> db_fiscal t = db_fiscal s \<and> db_items t = db_items s \<and>
    db_kots t = db_kots s \<and> db_kotItems t = db_kotItems s \<and> db_payments t = db_payments s \<and> db_refunds t = db_refunds s \<and>
    db_stockReturns t = db_stockReturns s \<and> db_points t = db_points s \<and> db_gifts t = db_gifts s \<and>
    db_stock t = db_stock s \<and> db_coupons t = db_coupons s"
  by (rule releaseTable_cases[OF assms]) (simp_all add: frame)

lemma insertLines_frame [frame]:
  "insertLines rt i ls s = (rows, t) \<longleftrightarrow> rows = lineRows rt i ls (db_next s) \<and>
     t = s\<lparr>db_items := db_items s @ lineRows rt i ls (db_next s), db_next := db_next s + length ls\<rparr>"
  by (auto simp: insertLines_def Let_def)

section \<open>Going forward\<close>

text \<open>Finished orders keep their rows, identifiers stay unique, events and fiscal records are only added.\<close>

definition advances :: "db \<Rightarrow> db \<Rightarrow> bool" where
  "advances s t \<longleftrightarrow> (\<forall>r \<in> set (db_orders s). od_status r \<noteq> OPEN \<longrightarrow> r \<in> set (db_orders t)) \<and>
     keyed od_id (db_orders t) \<and> prefix (db_events s) (db_events t) \<and>
     prefix (vf_records (db_fiscal s)) (vf_records (db_fiscal t))"

lemma advances_trans: "advances s t \<Longrightarrow> advances t u \<Longrightarrow> advances s u"
  unfolding advances_def by (meson prefix_order.trans)

lemma advances_same:
  "keyed od_id (db_orders s) \<Longrightarrow> db_orders t = db_orders s \<Longrightarrow> prefix (db_events s) (db_events t) \<Longrightarrow>
   prefix (vf_records (db_fiscal s)) (vf_records (db_fiscal t)) \<Longrightarrow> advances s t"
  by (simp add: advances_def)

text \<open>Changes of the orders in place, of open ones only.\<close>

definition open_change :: "order list \<Rightarrow> order list \<Rightarrow> bool" where
  "open_change = list_all2 (\<lambda>r r'. r' = r \<or> od_status r = OPEN \<and> od_id r' = od_id r)"

lemma open_change_upd [simp]:
  "open_change rs (upd_where P f rs) \<longleftrightarrow> (\<forall>r \<in> set rs. P r \<longrightarrow> f r = r \<or> od_status r = OPEN \<and> od_id (f r) = od_id r)"
  by (simp add: open_change_def upd_where_def list_all2_map2 list_all2_same)

lemma open_change_ids: "open_change rs rs' \<Longrightarrow> map od_id rs' = map od_id rs"
  unfolding open_change_def by (induction rule: list_all2_induct) auto

lemma open_change_keeps: "open_change rs rs' \<Longrightarrow> r \<in> set rs \<Longrightarrow> od_status r \<noteq> OPEN \<Longrightarrow> r \<in> set rs'"
  unfolding open_change_def by (induction rule: list_all2_induct) auto

lemma advances_upd:
  "keyed od_id (db_orders s) \<Longrightarrow> open_change (db_orders s) (db_orders t) \<Longrightarrow> prefix (db_events s) (db_events t) \<Longrightarrow>
   prefix (vf_records (db_fiscal s)) (vf_records (db_fiscal t)) \<Longrightarrow> advances s t"
  by (auto simp: advances_def keyed_def open_change_ids dest: open_change_keeps)

lemma advances_keyed: "advances s t \<Longrightarrow> keyed od_id (db_orders t)" by (simp add: advances_def)

text \<open>The row a handler reads is the one its update changes.\<close>

lemma findOrder_row:
  "findOrder b i s = Some r \<Longrightarrow> r \<in> set (db_orders s) \<and> od_id r = i \<and> od_branchId r = b"
  by (auto simp: findOrder_def dest: find_SomeD)

lemma findOrder_only:
  "keyed od_id (db_orders s) \<Longrightarrow> findOrder b i s = Some r \<Longrightarrow> x \<in> set (db_orders s) \<Longrightarrow> od_id x = i \<Longrightarrow> x = r"
  using findOrder_row keyed_unique by metis

lemma editableOrder_Inr:
  "editableOrder b i s = Inr r \<longleftrightarrow> findOrder b i s = Some r \<and> od_status r = OPEN \<and> paymentsOf i s = []"
  by (auto simp: editableOrder_def assertNoPayments_def ebind_Inr_iff split: option.splits if_splits)

lemma createOrder_InrE:
  assumes "createOrder cfg rt b u d opts s = Inr (v, t)"
  obtains lines delivery r s1 where "orderLines cfg b d opts s = Inr lines"
    "r = newOrder (rt_ids rt (db_next s)) rt b u d opts (acceptanceFor cfg b opts) (linesTotals lines) delivery
           (nextOrderNumber rt b s)"
    "createOrderTx cfg rt r lines (op_historical opts \<noteq> None) (s\<lparr>db_next := db_next s + 1\<rparr>) = Inr s1"
    "t = (if op_historical opts \<noteq> None then s1 else emit [OrderCreated (od_id r) (acceptanceFor cfg b opts)] s1)"
    "getOrder b (od_id r) t = Inr v"
  using assms unfolding createOrder_def freshId_def Let_def prod.case
proof (elim ebind_InrE, goal_cases)
  case (1 lines _ delivery _ s1 v')
  show ?case
    by (rule 1(1)[of lines _ delivery s1, OF 1(2) refl]) (use 1 in \<open>simp_all add: newOrder_def split: if_splits\<close>)
qed

lemma occupyTable_frame:
  assumes "occupyTable rt tb h s = Inr t"
  shows "db_orders t = db_orders s \<and> db_items t = db_items s \<and> db_kots t = db_kots s \<and> db_kotItems t = db_kotItems s \<and>
    db_payments t = db_payments s \<and> db_events t = db_events s \<and> db_fiscal t = db_fiscal s \<and> db_next t = db_next s \<and>
    db_refunds t = db_refunds s \<and> db_stockReturns t = db_stockReturns s"
  using assms by (auto simp: occupyTable_def frame split: if_splits)

lemma createOrderTx_InrE:
  assumes "createOrderTx cfg rt r lines h s = Inr t"
  obtains s1 where "od_id r \<notin> od_id ` set (db_orders s)"
    "occupyTable rt (od_tableId r) h (s\<lparr>db_orders := db_orders s @ [r],
       db_items := db_items s @ lineRows rt (od_id r) lines (db_next s), db_next := db_next s + length lines\<rparr>) = Inr s1"
    "t = (if sendsAtOnce rt r h then generateKots cfg rt (od_id r) (lineRows rt (od_id r) lines (db_next s)) s1 else s1)"
proof -
  have new: "insertOrder r s = Inr (s\<lparr>db_orders := db_orders s @ [r]\<rparr>)" "\<not> list_ex (orderClash r) (db_orders s)"
    using assms by (auto simp: createOrderTx_def ebind_Inr_iff insertOrder_def split: if_splits)
  then have "od_id r \<notin> od_id ` set (db_orders s)" by (auto simp: list_ex_iff orderClash_def)
  with assms that show ?thesis
    by (auto simp: createOrderTx_def new(1) insertLines_def Let_def ebind_Inr_iff)
qed

lemma createOrder_advances:
  assumes "createOrder cfg rt b u d opts s = Inr (v, t)" "keyed od_id (db_orders s)"
  shows "advances s t"
  using assms(1)
proof (rule createOrder_InrE)
  fix lines delivery r s1
  assume tx: "createOrderTx cfg rt r lines (op_historical opts \<noteq> None) (s\<lparr>db_next := db_next s + 1\<rparr>) = Inr s1"
    and t: "t = (if op_historical opts \<noteq> None then s1 else emit [OrderCreated (od_id r) (acceptanceFor cfg b opts)] s1)"
  from tx obtain s2 where "od_id r \<notin> od_id ` set (db_orders s)"
    and s2: "occupyTable rt (od_tableId r) (op_historical opts \<noteq> None) (s\<lparr>db_orders := db_orders s @ [r],
       db_items := db_items s @ lineRows rt (od_id r) lines (db_next s + 1), db_next := db_next s + 1 + length lines\<rparr>) = Inr s2"
    and s1: "s1 = (if sendsAtOnce rt r (op_historical opts \<noteq> None)
                   then generateKots cfg rt (od_id r) (lineRows rt (od_id r) lines (db_next s + 1)) s2 else s2)"
    by (rule createOrderTx_InrE) simp
  then show ?thesis using occupyTable_frame[OF s2] t assms(2) by (simp add: advances_def row_simps frame)
qed

lemma setTotals_upd: "db_orders (setTotals i t s) = upd_where (\<lambda>r. od_id r = i)
     (\<lambda>r. r\<lparr>od_subtotal := to_column 100 (subtotal t), od_taxAmount := to_column 100 (totalTax t),
            od_totalAmount := to_column 100 (subtotal t)\<rparr>) (db_orders s)"
  by (simp add: setTotals_def frame)

lemma setTotals_frame [frame]:
  "db_events (setTotals i t s) = db_events s" "db_fiscal (setTotals i t s) = db_fiscal s"
  "db_tables (setTotals i t s) = db_tables s" "db_items (setTotals i t s) = db_items s" "db_kots (setTotals i t s) = db_kots s"
  "db_kotItems (setTotals i t s) = db_kotItems s" "db_payments (setTotals i t s) = db_payments s"
  "db_refunds (setTotals i t s) = db_refunds s" "db_stockReturns (setTotals i t s) = db_stockReturns s"
  by (simp_all add: setTotals_def frame)

lemma recomputeTotals_frame [frame]:
  "db_events (recomputeTotals i s) = db_events s" "db_fiscal (recomputeTotals i s) = db_fiscal s"
  "db_tables (recomputeTotals i s) = db_tables s" "db_items (recomputeTotals i s) = db_items s"
  "db_kots (recomputeTotals i s) = db_kots s" "db_kotItems (recomputeTotals i s) = db_kotItems s"
  "db_payments (recomputeTotals i s) = db_payments s" "db_refunds (recomputeTotals i s) = db_refunds s"
  "db_stockReturns (recomputeTotals i s) = db_stockReturns s"
  by (simp_all add: recomputeTotals_def frame)

lemma recomputeTotals_orders:
  "db_orders (recomputeTotals i s) = upd_where (\<lambda>r. od_id r = i)
     (\<lambda>r. r\<lparr>od_subtotal := to_column 100 (subtotal (computeOrderTotals (map storedLine (itemsOf i s)) 0 0)),
            od_taxAmount := to_column 100 (totalTax (computeOrderTotals (map storedLine (itemsOf i s)) 0 0)),
            od_totalAmount := to_column 100 (subtotal (computeOrderTotals (map storedLine (itemsOf i s)) 0 0))\<rparr>) (db_orders s)"
  by (simp add: recomputeTotals_def setTotals_upd)

lemma recomputeTotals_member:
  "r \<in> set (db_orders (recomputeTotals i s)) \<Longrightarrow>
   \<exists>r0 \<in> set (db_orders s). od_id r = od_id r0 \<and> od_status r = od_status r0 \<and> od_tableId r = od_tableId r0"
  by (auto simp: recomputeTotals_def setTotals_upd set_upd_where)

lemma addItems_InrE:
  assumes "addItems cfg rt b i items opts s = Inr (v, t)"
  obtains lines r where "addItemsRead cfg b i items opts s = Inr (itemsOf i s, lines)"
    "findOrder b i s = Some r" "od_status r = OPEN" "paymentsOf i s = []"
    "t = emit [OrderUpdated i None] (generateKots cfg rt i (lineRows rt i lines (db_next s))
       (setTotals i (computeOrderTotals (map storedLine (itemsOf i s @ lineRows rt i lines (db_next s))) 0 0)
         (s\<lparr>db_items := db_items s @ lineRows rt i lines (db_next s), db_next := db_next s + length lines\<rparr>)))"
    "getOrder b i t = Inr v"
proof -
  from assms obtain before lines s1 where rd: "addItemsRead cfg b i items opts s = Inr (before, lines)"
    and w: "addItemsWrite cfg rt i before lines s = Inr s1"
    and t: "t = emit [OrderUpdated i None] s1" "getOrder b i t = Inr v"
    by (auto simp: addItems_def ebind_Inr_iff Let_def)
  from rd obtain r where "findOrder b i s = Some r" "od_status r = OPEN" "paymentsOf i s = []" "before = itemsOf i s"
    by (auto simp: addItemsRead_def ebind_Inr_iff Let_def assertNoPayments_def split: option.splits if_splits)
  with rd w t that show ?thesis
    by (auto simp: addItemsWrite_def insertLines_def Let_def split: if_splits)
qed

lemma addItems_advances:
  assumes "addItems cfg rt b i items opts s = Inr (v, t)" "keyed od_id (db_orders s)"
  shows "advances s t"
  using assms(1)
proof (rule addItems_InrE, goal_cases)
  case (1 lines r)
  have "x \<in> set (db_orders s) \<Longrightarrow> od_id x = i \<Longrightarrow> od_status x = OPEN" for x
    using findOrder_only[OF assms(2) 1(2)] 1(3) by blast
  then show ?thesis using assms(2) 1(5)
    by (intro advances_upd) (simp_all add: frame setTotals_upd)
qed

lemma acceptWrite_advances:
  "acceptWrite cfg rt u plan s = Inr t \<Longrightarrow> keyed od_id (db_orders s) \<Longrightarrow> advances s t"
  by (rule advances_upd)
     (auto simp: acceptWrite_def Let_def frame waiting_def split: prod.splits if_splits)

lemma cancelKitchen_frame [frame]:
  "db_orders (cancelKitchen i s) = db_orders s" "db_events (cancelKitchen i s) = db_events s"
  "db_fiscal (cancelKitchen i s) = db_fiscal s" "db_tables (cancelKitchen i s) = db_tables s"
  "db_items (cancelKitchen i s) = db_items s" "db_payments (cancelKitchen i s) = db_payments s"
  "db_kots (cancelKitchen i s) = upd_where (liveKot i) (\<lambda>k. k\<lparr>kt_status := CANCELLED\<rparr>) (db_kots s)"
  "db_refunds (cancelKitchen i s) = db_refunds s" "db_stockReturns (cancelKitchen i s) = db_stockReturns s"
  "db_points (cancelKitchen i s) = db_points s" "db_gifts (cancelKitchen i s) = db_gifts s"
  "db_stock (cancelKitchen i s) = db_stock s" "db_coupons (cancelKitchen i s) = db_coupons s"
  by (simp_all add: cancelKitchen_def frame Let_def)

lemma withdrawWrite_InrE:
  assumes "withdrawWrite rt u opts r s = Inr t"
  obtains s1 where "0 < count_where (withdrawable (od_id r) (wo_declineIncoming opts)) (db_orders s)"
    "releaseTableIfIdle rt (od_tableId r) (od_id r) (cancelKitchen (od_id r)
       (updOrders (withdrawable (od_id r) (wo_declineIncoming opts))
         (\<lambda>x. x\<lparr>od_status := ORDER_CANCELLED,
              od_cancel := Some \<lparr>ci_reason = trimmedReason (wo_reason opts), ci_at = rt_now rt, ci_by = u,
                                 ci_source = wo_source opts\<rparr>,
              od_acceptance := (if wo_declineIncoming opts then ORDER_REJECTED else od_acceptance x)\<rparr>) s)) = Inr s1"
    "t = auditRow (if wo_declineIncoming opts then ''order.declined'' else ''order.cancelled'') (od_id r)
           (emitOrderWithdrawn (od_id r) (od_tableId r) s1)"
  using assms that by (auto simp: withdrawWrite_def Let_def ebind_Inr_iff split: if_splits)

lemma withdrawWrite_advances:
  assumes "withdrawWrite rt u opts r s = Inr t" "keyed od_id (db_orders s)"
  shows "advances s t"
  using assms(1)
proof (rule withdrawWrite_InrE, goal_cases)
  case (1 s1)
  show ?thesis using releaseTable_frame[OF 1(2)] 1(3) assms(2)
    by (intro advances_upd)
       (auto simp: frame emitOrderWithdrawn_def withdrawable_def)
qed

lemma updateOrder_InrE:
  assumes "updateOrder rt b i d s = Inr (v, t)"
  obtains r moving where "findOrder b i s = Some r" "od_status r = OPEN" "paymentsOf i s = []" "od_id r = i"
    "moveCheck b r (ud_tableId d) s = Inr moving" "updateOrderWrite rt d (r, moving) s = Inr t"
  using assms
  by (auto simp: updateOrder_def updateOrderRead_def ebind_Inr_iff Let_def editableOrder_Inr dest: findOrder_row split: if_splits)

text \<open>The header as it is written, and the tables of a move.\<close>

definition headerOf :: "update_order_dto \<Rightarrow> bool \<Rightarrow> order \<Rightarrow> order" where
  "headerOf d moving x = x\<lparr>od_tableId := (if moving then ud_tableId d else od_tableId x),
     od_guestName := changed (ud_guestName d) (od_guestName x), od_guestCount := changed (ud_guestCount d) (od_guestCount x),
     od_notes := changed (ud_notes d) (od_notes x), od_customerId := changed (ud_customerId d) (od_customerId x)\<rparr>"

lemma headerOf_sel [simp]:
  "od_id (headerOf d m x) = od_id x" "od_status (headerOf d m x) = od_status x" "od_branchId (headerOf d m x) = od_branchId x"
  "od_tableId (headerOf d m x) = (if m then ud_tableId d else od_tableId x)"
  "od_subtotal (headerOf d m x) = od_subtotal x" "od_totalAmount (headerOf d m x) = od_totalAmount x"
  by (simp_all add: headerOf_def)

lemma updateOrderWrite_InrE:
  assumes "updateOrderWrite rt d (r, moving) s = Inr t"
  obtains s3 es where "t = auditRow (if moving then ''order.table_changed'' else ''order.edited'') (od_id r) (emit es s3)"
    "if moving then \<exists>s2. setTable rt (the (ud_tableId d)) OCCUPIED (updOrders (\<lambda>x. od_id x = od_id r) (headerOf d True) s) = Inr s2 \<and>
                      releaseTableIfIdle rt (od_tableId r) (od_id r) s2 = Inr s3
     else s3 = updOrders (\<lambda>x. od_id x = od_id r) (headerOf d False) s"
proof -
  have h: "updOrders (\<lambda>x. od_id x = od_id r) (\<lambda>x. x\<lparr>od_tableId := (if m then ud_tableId d else od_tableId x),
      od_guestName := changed (ud_guestName d) (od_guestName x), od_guestCount := changed (ud_guestCount d) (od_guestCount x),
      od_notes := changed (ud_notes d) (od_notes x), od_customerId := changed (ud_customerId d) (od_customerId x)\<rparr>) s
    = updOrders (\<lambda>x. od_id x = od_id r) (headerOf d m) s" for m
    by (simp add: headerOf_def[abs_def])
  show ?thesis
    using assms that unfolding updateOrderWrite_def prod.case Let_def h
    by (cases moving) (auto simp: ebind_Inr_iff split: if_splits)
qed

lemma updateOrderWrite_frame:
  assumes "updateOrderWrite rt d (r, moving) s = Inr t"
  shows "db_orders t = upd_where (\<lambda>x. od_id x = od_id r) (headerOf d moving) (db_orders s) \<and>
    prefix (db_events s) (db_events t) \<and> db_fiscal t = db_fiscal s \<and> db_items t = db_items s \<and> db_kots t = db_kots s \<and>
    db_payments t = db_payments s \<and> db_refunds t = db_refunds s \<and> db_stockReturns t = db_stockReturns s"
  using assms
proof (rule updateOrderWrite_InrE, goal_cases)
  case (1 s3 es)
  then show ?case by (cases moving) (auto simp: frame dest!: releaseTable_frame)
qed

lemma updateOrder_advances:
  assumes "updateOrder rt b i d s = Inr (v, t)" "keyed od_id (db_orders s)"
  shows "advances s t"
  using assms(1)
proof (rule updateOrder_InrE, goal_cases)
  case (1 r moving)
  show ?thesis using updateOrderWrite_frame[OF 1(6)] findOrder_only[OF assms(2) 1(1)] 1(2,4) assms(2)
    by (intro advances_upd) auto
qed

lemma billLine_Inr:
  "billLine b i it s = Inr l \<longleftrightarrow> (\<exists>r. findOrder b i s = Some r \<and> od_status r = OPEN) \<and> paymentsOf i s = [] \<and>
     find (\<lambda>x. oi_id x = it) (itemsOf i s) = Some l"
  by (auto simp: billLine_def ebind_Inr_iff editableOrder_Inr split: option.splits)

lemma updateLineWrite_Inr:
  "updateLineWrite i l q s = Inr t \<longleftrightarrow> \<not> lineStarted (oi_id l) s \<and> 0 < count_where (\<lambda>x. oi_id x = oi_id l) (db_items s) \<and>
     t = recomputeTotals i (s\<lparr>db_items := upd_where (\<lambda>x. oi_id x = oi_id l)
       (\<lambda>x. x\<lparr>oi_quantity := q, oi_lineTotal := to_column 100 (round2 (fmul (fdiv (cents (oi_lineTotal l)) (of_int (oi_quantity l))) (of_int q)))\<rparr>)
       (db_items s)\<rparr>)"
  by (auto simp: updateLineWrite_def assertLineNotStarted_def Let_def)

lemma removeLineWrite_Inr:
  "removeLineWrite i it s = Inr t \<longleftrightarrow> \<not> lineStarted it s \<and> 0 < count_where (\<lambda>x. oi_id x = it) (db_items s) \<and>
     t = recomputeTotals i (updKots (emptyKot i (deleteLines (\<lambda>x. x = it) s)) (\<lambda>k. k\<lparr>kt_status := CANCELLED\<rparr>)
           (deleteLines (\<lambda>x. x = it) s))"
  by (auto simp: removeLineWrite_def assertLineNotStarted_def Let_def)

lemma updateOrderItem_InrE:
  assumes "updateOrderItem b i it q s = Inr (v, t)"
  obtains l r where "find (\<lambda>x. oi_id x = it) (itemsOf i s) = Some l" "findOrder b i s = Some r" "od_status r = OPEN"
      "t = s" "q = oi_quantity l"
  | l r s1 where "find (\<lambda>x. oi_id x = it) (itemsOf i s) = Some l" "findOrder b i s = Some r" "od_status r = OPEN"
      "paymentsOf i s = []" "q < oi_quantity l" "updateLineWrite i l q s = Inr s1"
      "t = lineEvents ''order.item_changed'' i s1"
proof -
  from assms obtain l where l: "billLine b i it s = Inr l"
    and rest: "(if oi_quantity l < q then Inl (BadRequest ''To order more, add the item again so the kitchen gets a new ticket'')
      else if q = oi_quantity l then ebind (getOrder b i s) (\<lambda>v. Inr (v, s))
      else ebind (updateLineWrite i l q s) (\<lambda>s1. let s2 = lineEvents ''order.item_changed'' i s1
             in ebind (getOrder b i s2) (\<lambda>v. Inr (v, s2)))) = Inr (v, t)"
    unfolding updateOrderItem_def by (rule ebind_InrE)
  from l obtain r where r: "find (\<lambda>x. oi_id x = it) (itemsOf i s) = Some l" "findOrder b i s = Some r" "od_status r = OPEN"
      "paymentsOf i s = []" by (auto simp: billLine_Inr)
  show ?thesis
  proof (cases "q = oi_quantity l")
    case True
    then show ?thesis using that(1) r rest by (simp add: ebind_Inr_iff)
  next
    case False
    then obtain s1 where "q < oi_quantity l" "updateLineWrite i l q s = Inr s1" "t = lineEvents ''order.item_changed'' i s1"
      using rest by (auto simp: ebind_Inr_iff Let_def split: if_splits)
    then show ?thesis using that(2) r by blast
  qed
qed

lemma removeOrderItem_InrE:
  assumes "removeOrderItem b i it s = Inr (v, t)"
  obtains l r s1 where "find (\<lambda>x. oi_id x = it) (itemsOf i s) = Some l" "findOrder b i s = Some r" "od_status r = OPEN"
      "paymentsOf i s = []" "length (itemsOf i s) \<noteq> 1" "removeLineWrite i it s = Inr s1" "t = lineEvents ''order.item_removed'' i s1"
  using assms by (auto simp: removeOrderItem_def ebind_Inr_iff billLine_Inr Let_def split: if_splits)

lemma updateOrderItem_advances:
  assumes "updateOrderItem b i it q s = Inr (v, t)" "keyed od_id (db_orders s)"
  shows "advances s t"
  using assms(1)
proof (rule updateOrderItem_InrE, goal_cases)
  case (1 l r)
  then show ?case using assms(2) by (simp add: advances_same)
next
  case (2 l r s1)
  then show ?case using findOrder_only[OF assms(2) 2(2)] assms(2)
    by (intro advances_upd) (auto simp: updateLineWrite_Inr lineEvents_def frame recomputeTotals_orders)
qed

lemma removeOrderItem_advances:
  assumes "removeOrderItem b i it s = Inr (v, t)" "keyed od_id (db_orders s)"
  shows "advances s t"
  using assms(1)
proof (rule removeOrderItem_InrE, goal_cases)
  case (1 l r s1)
  then show ?case using findOrder_only[OF assms(2) 1(2)] assms(2)
    by (intro advances_upd) (auto simp: removeLineWrite_Inr lineEvents_def frame recomputeTotals_orders)
qed

lemma open_change_trans: "open_change a b \<Longrightarrow> open_change b c \<Longrightarrow> open_change a c"
  unfolding open_change_def list_all2_conv_all_nth by fastforce

lemma open_change_refl [simp]: "open_change a a" by (simp add: open_change_def list_all2_same)

lemma mergeRead_Inr:
  "mergeRead b i j s = Inr (x, y) \<longleftrightarrow> i \<noteq> j \<and> findOrder b i s = Some x \<and> findOrder b j s = Some y \<and>
     od_status x = OPEN \<and> od_status y = OPEN \<and> paymentsOf i s = [] \<and> paymentsOf j s = []"
  by (auto simp: mergeRead_def assertNoPayments_def ebind_Inr_iff split: option.splits if_splits)

text \<open>The state a merge reaches before the table of the source is freed.\<close>

definition mergedState :: "order \<Rightarrow> order \<Rightarrow> db \<Rightarrow> db" where
  "mergedState x y s = updOrders (\<lambda>r. od_id r = od_id y)
     (\<lambda>r. r\<lparr>od_status := ORDER_CANCELLED, od_notes := Some (''Merged into order '' @ od_orderNumber x)\<rparr>)
     (recomputeTotals (od_id x) (updKots (\<lambda>k. kt_orderId k = od_id y) (\<lambda>k. k\<lparr>kt_orderId := od_id x\<rparr>)
       (s\<lparr>db_items := upd_where (\<lambda>i. oi_orderId i = od_id y) (\<lambda>i. i\<lparr>oi_orderId := od_id x\<rparr>) (db_items s)\<rparr>)))"

lemma mergeWrite_InrE:
  assumes "mergeWrite rt (x, y) s = Inr t"
  obtains s4 where "t = emit [OrderUpdated (od_id x) None, OrderUpdated (od_id y) None] s4"
    "s4 = mergedState x y s \<or> releaseTableIfIdle rt (od_tableId y) (od_id y) (mergedState x y s) = Inr s4"
  using assms that unfolding mergeWrite_def prod.case Let_def mergedState_def[symmetric]
  by (auto simp: ebind_Inr_iff split: if_splits)

lemma mergeWrite_frame:
  assumes "mergeWrite rt (x, y) s = Inr t"
  shows "db_orders t = db_orders (mergedState x y s) \<and> db_items t = db_items (mergedState x y s) \<and>
    db_kots t = db_kots (mergedState x y s) \<and> prefix (db_events s) (db_events t) \<and> db_fiscal t = db_fiscal s \<and>
    db_payments t = db_payments s \<and> db_refunds t = db_refunds s \<and> db_stockReturns t = db_stockReturns s \<and>
    db_kotItems t = db_kotItems s"
  using assms
proof (rule mergeWrite_InrE, goal_cases)
  case (1 s4)
  from 1(2) show ?case
  proof
    assume "s4 = mergedState x y s"
    then show ?case using 1(1) by (simp add: frame mergedState_def)
  next
    assume "releaseTableIfIdle rt (od_tableId y) (od_id y) (mergedState x y s) = Inr s4"
    from releaseTable_frame[OF this] show ?case using 1(1) by (simp add: frame mergedState_def)
  qed
qed

lemma mergedState_orders: "db_orders (mergedState x y s) =
   upd_where (\<lambda>r. od_id r = od_id y)
     (\<lambda>r. r\<lparr>od_status := ORDER_CANCELLED, od_notes := Some (''Merged into order '' @ od_orderNumber x)\<rparr>)
     (db_orders (recomputeTotals (od_id x) (updKots (\<lambda>k. kt_orderId k = od_id y) (\<lambda>k. k\<lparr>kt_orderId := od_id x\<rparr>)
       (s\<lparr>db_items := upd_where (\<lambda>i. oi_orderId i = od_id y) (\<lambda>i. i\<lparr>oi_orderId := od_id x\<rparr>) (db_items s)\<rparr>))))"
  by (simp add: mergedState_def frame)

lemma mergeOrders_advances:
  assumes "mergeOrders rt b i j s = Inr (v, t)" "keyed od_id (db_orders s)"
  shows "advances s t"
proof -
  from assms(1) obtain x y where rd: "mergeRead b i j s = Inr (x, y)" and w: "mergeWrite rt (x, y) s = Inr t"
    by (auto simp: mergeOrders_def ebind_Inr_iff)
  then have o: "findOrder b i s = Some x" "findOrder b j s = Some y" "od_status x = OPEN" "od_status y = OPEN"
    by (auto simp: mergeRead_Inr)
  have ids: "od_id x = i" "od_id y = j" using findOrder_row o by blast+
  have opn: "r \<in> set (db_orders s) \<Longrightarrow> od_id r = i \<or> od_id r = j \<Longrightarrow> od_status r = OPEN" for r
    using findOrder_only[OF assms(2) o(1)] findOrder_only[OF assms(2) o(2)] o(3,4) by blast
  let ?m = "updKots (\<lambda>k. kt_orderId k = j) (\<lambda>k. k\<lparr>kt_orderId := i\<rparr>)
       (s\<lparr>db_items := upd_where (\<lambda>x. oi_orderId x = j) (\<lambda>x. x\<lparr>oi_orderId := i\<rparr>) (db_items s)\<rparr>)"
  let ?u = "upd_where (\<lambda>r. od_id r = j)
     (\<lambda>r. r\<lparr>od_status := ORDER_CANCELLED, od_notes := Some (''Merged into order '' @ od_orderNumber x)\<rparr>)
     (db_orders (recomputeTotals i ?m))"
  have 1: "open_change (db_orders s) (db_orders (recomputeTotals i ?m))"
    by (auto simp: recomputeTotals_orders frame opn)
  have "od_status r = OPEN" if "r \<in> set (db_orders (recomputeTotals i ?m))" "od_id r = j" for r
    using recomputeTotals_member[OF that(1)] that(2) opn by (auto simp: frame)
  then have "open_change (db_orders (recomputeTotals i ?m)) ?u" by auto
  with 1 have "open_change (db_orders s) ?u" by (rule open_change_trans)
  then have "open_change (db_orders s) (db_orders t)"
    using mergeWrite_frame[OF w] by (simp add: mergedState_orders ids)
  then show ?thesis using mergeWrite_frame[OF w] assms(2) by (intro advances_upd) auto
qed

lemma kotWrite_frame:
  assumes "kotWrite rt st u k s = Inr (k', t)"
  shows "db_orders t = db_orders s \<and> prefix (db_events s) (db_events t) \<and> db_fiscal t = db_fiscal s \<and>
    db_tables t = db_tables s \<and> db_items t = db_items s \<and> db_payments t = db_payments s \<and> db_refunds t = db_refunds s \<and>
    db_stockReturns t = db_stockReturns s \<and>
    db_kots t = upd_where (\<lambda>x. kt_id x = kt_id k \<and> kt_status x = kt_status k) (stampKot rt st u) (db_kots s)"
  using assms by (auto simp: kotWrite_def Let_def frame split: if_splits option.splits)

lemma updateKotStatus_InrE:
  assumes "updateKotStatus rt b i st u s = Inr (k', t)"
  obtains "t = s" | k where "findKot b i s = Some k" "st \<in> set KOT_FORWARD_STATUSES" "canTransitionKot (kt_status k) st"
    "kotWrite rt st u k s = Inr (k', t)"
  using assms
  by (auto simp: updateKotStatus_def kotRead_def ebind_Inr_iff split: if_splits option.splits)

lemma updateKotStatus_advances:
  assumes "updateKotStatus rt b i st u s = Inr (k', t)" "keyed od_id (db_orders s)"
  shows "advances s t"
  using assms(1)
proof (rule updateKotStatus_InrE, goal_cases)
  case (2 k)
  show ?case using kotWrite_frame[OF 2(4)] assms(2) by (simp add: advances_same)
qed (use assms(2) in \<open>simp add: advances_same\<close>)

lemma setKotPriority_Inr:
  "setKotPriority b i p s = Inr (k', t) \<longleftrightarrow> (\<exists>k. findKot b i s = Some k \<and> k' = k\<lparr>kt_isPriority := p\<rparr> \<and>
     t = emit [KotUpdated i] (updKots (\<lambda>x. kt_id x = i) (\<lambda>x. x\<lparr>kt_isPriority := p\<rparr>) s))"
  by (auto simp: setKotPriority_def split: option.splits)

lemma setKotPriority_advances:
  "setKotPriority b i p s = Inr (k', t) \<Longrightarrow> keyed od_id (db_orders s) \<Longrightarrow> advances s t"
  by (auto simp: setKotPriority_Inr frame intro!: advances_same)

section \<open>Rejecting, paying, refunding\<close>

lemma rejectKot_InrE:
  assumes "rejectKot rt b i u inp s = Inr (k', t)"
  obtains "t = s"
  | k r where "findKot b i s = Some k" "find (\<lambda>r. od_id r = kt_orderId k) (db_orders s) = Some r" "od_status r = OPEN"
      "canTransitionKot (kt_status k) REJECTED" "paymentsOf (od_id r) s = []"
      "rejectWrite rt u (trim (rj_reason inp)) \<lparr>rp_kot = k, rp_order = r,
         rp_otherLive = list_ex (\<lambda>x. kt_id x \<noteq> i \<and> kt_status x \<notin> {CANCELLED, REJECTED}) (kotsOf (od_id r) s),
         rp_lineIds = map ki_orderItemId (filter (\<lambda>x. ki_kotId x = i) (db_kotItems s))\<rparr> s = Inr t"
proof -
  from assms obtain x where rd: "rejectRead b i inp s = Inr x"
    and w: "(case x of Inl k \<Rightarrow> Inr (k, s) | Inr p \<Rightarrow> ebind (rejectWrite rt u (trim (rj_reason inp)) p s) (\<lambda>s1.
         case find (\<lambda>x. kt_id x = i) (db_kots s1) of None \<Rightarrow> Inl RecordMissing | Some k \<Rightarrow> Inr (k, s1))) = Inr (k', t)"
    unfolding rejectKot_def by (rule ebind_InrE)
  show ?thesis
  proof (cases x)
    case (Inl k)
    then show ?thesis using w that(1) by simp
  next
    case (Inr p)
    from rd Inr obtain k r where k: "findKot b i s = Some k" "find (\<lambda>r. od_id r = kt_orderId k) (db_orders s) = Some r"
      and c: "rejectCheck i inp k r s = Inr p"
      by (auto simp: rejectRead_def ebind_Inr_iff split: if_splits option.splits)
    from w Inr have wr: "rejectWrite rt u (trim (rj_reason inp)) p s = Inr t"
      by (auto simp: ebind_Inr_iff split: option.splits)
    from c have r: "od_status r = OPEN" "canTransitionKot (kt_status k) REJECTED" "paymentsOf (od_id r) s = []"
      "p = \<lparr>rp_kot = k, rp_order = r,
         rp_otherLive = list_ex (\<lambda>x. kt_id x \<noteq> i \<and> kt_status x \<notin> {CANCELLED, REJECTED}) (kotsOf (od_id r) s),
         rp_lineIds = map ki_orderItemId (filter (\<lambda>x. ki_kotId x = i) (db_kotItems s))\<rparr>"
      by (auto simp: rejectCheck_def Let_def split: if_splits)
    show ?thesis using that(2)[OF k r(1,2,3)] wr r(4) by simp
  qed
qed

lemma markRejected_frame [frame]:
  "db_orders (markRejected rt u w k s) = db_orders s" "db_events (markRejected rt u w k s) = db_events s"
  "db_fiscal (markRejected rt u w k s) = db_fiscal s" "db_tables (markRejected rt u w k s) = db_tables s"
  "db_items (markRejected rt u w k s) = db_items s" "db_payments (markRejected rt u w k s) = db_payments s"
  "db_refunds (markRejected rt u w k s) = db_refunds s" "db_stockReturns (markRejected rt u w k s) = db_stockReturns s"
  "db_kots (markRejected rt u w k s) = upd_where (\<lambda>x. kt_id x = kt_id k \<and> kt_status x = kt_status k)
     (\<lambda>x. x\<lparr>kt_status := REJECTED, kt_rejected := Some (rt_now rt, u, w)\<rparr>) (db_kots s)"
  by (simp_all add: markRejected_def frame)

lemma rejectWrite_InrE:
  assumes "rejectWrite rt u w p s = Inr t"
  obtains s2 es where "t = auditRow ''kot.rejected'' (kt_id (rp_kot p)) (emit es s2)"
    "if \<not> rp_otherLive p then rejectWithdraw rt u w (rp_order p) (markRejected rt u w (rp_kot p) s) = Inr s2
     else if rp_lineIds p = [] then s2 = markRejected rt u w (rp_kot p) s
     else s2 = recomputeTotals (od_id (rp_order p)) (deleteLines (\<lambda>i. i \<in> set (rp_lineIds p)) (markRejected rt u w (rp_kot p) s))"
proof -
  have e: "emit b (emit a x) = emit (a @ b) x" for a b x by (simp add: emit_def)
  show ?thesis using assms that
    unfolding rejectWrite_def Let_def emitOrderWithdrawn_def e
    by (auto simp: ebind_Inr_iff split: if_splits)
qed

lemma rejectWithdraw_Inr:
  assumes "rejectWithdraw rt u w r s = Inr t"
  obtains "0 < count_where (\<lambda>x. od_id x = od_id r \<and> od_status x = OPEN) (db_orders s)"
    "releaseTableIfIdle rt (od_tableId r) (od_id r) (updOrders (\<lambda>x. od_id x = od_id r \<and> od_status x = OPEN)
       (\<lambda>x. x\<lparr>od_status := ORDER_CANCELLED, od_cancel := Some \<lparr>ci_reason = Some w, ci_at = rt_now rt, ci_by = u,
                ci_source = KITCHEN_REJECTED\<rparr>\<rparr>) s) = Inr t"
  using assms that by (auto simp: rejectWithdraw_def Let_def split: if_splits)

lemma rejectKot_advances:
  assumes "rejectKot rt b i u inp s = Inr (k', t)" "keyed od_id (db_orders s)"
  shows "advances s t"
  using assms(1)
proof (rule rejectKot_InrE)
  assume "t = s"
  then show ?thesis using assms(2) by (simp add: advances_same)
next
  fix k :: kot and r :: order
  assume r: "find (\<lambda>r. od_id r = kt_orderId k) (db_orders s) = Some r" "od_status r = OPEN"
  let ?p = "\<lparr>rp_kot = k, rp_order = r,
         rp_otherLive = list_ex (\<lambda>x. kt_id x \<noteq> i \<and> kt_status x \<notin> {CANCELLED, REJECTED}) (kotsOf (od_id r) s),
         rp_lineIds = map ki_orderItemId (filter (\<lambda>x. ki_kotId x = i) (db_kotItems s))\<rparr>"
  assume "rejectWrite rt u (trim (rj_reason inp)) ?p s = Inr t"
  then obtain s2 es where t: "t = auditRow ''kot.rejected'' (kt_id (rp_kot ?p)) (emit es s2)"
    and s2: "if \<not> rp_otherLive ?p then rejectWithdraw rt u (trim (rj_reason inp)) (rp_order ?p)
               (markRejected rt u (trim (rj_reason inp)) (rp_kot ?p) s) = Inr s2
     else if rp_lineIds ?p = [] then s2 = markRejected rt u (trim (rj_reason inp)) (rp_kot ?p) s
     else s2 = recomputeTotals (od_id (rp_order ?p)) (deleteLines (\<lambda>i. i \<in> set (rp_lineIds ?p))
                 (markRejected rt u (trim (rj_reason inp)) (rp_kot ?p) s))"
    by (rule rejectWrite_InrE)
  have opn: "x \<in> set (db_orders s) \<Longrightarrow> od_id x = od_id r \<Longrightarrow> od_status x = OPEN" for x
    using keyed_unique[OF assms(2)] r by (metis find_SomeD)
  have "open_change (db_orders s) (db_orders s2) \<and> db_events s2 = db_events s \<and> db_fiscal s2 = db_fiscal s"
  proof (cases "rp_otherLive ?p")
    case True
    then show ?thesis using s2 opn by (auto simp: frame recomputeTotals_orders split: if_splits)
  next
    case False
    then have "rejectWithdraw rt u (trim (rj_reason inp)) r (markRejected rt u (trim (rj_reason inp)) k s) = Inr s2"
      using s2 by simp
    then show ?thesis by (rule rejectWithdraw_Inr) (auto simp: frame dest!: releaseTable_frame)
  qed
  then show ?thesis using t assms(2) by (intro advances_upd) (simp_all add: frame)
qed

lemma redeemStep_frame:
  assumes "redeemStep b p s = Inr (n, l, t)"
  shows "db_orders t = db_orders s \<and> db_events t = db_events s \<and> db_fiscal t = db_fiscal s \<and> db_tables t = db_tables s \<and>
    db_items t = db_items s \<and> db_kots t = db_kots s \<and> db_payments t = db_payments s \<and> db_refunds t = db_refunds s \<and>
    db_stockReturns t = db_stockReturns s \<and> db_stock t = db_stock s \<and> db_gifts t = db_gifts s \<and> db_kotItems t = db_kotItems s"
  using assms by (auto simp: redeemStep_def Let_def ebind_Inr_iff split: if_splits option.splits)

lemma giftStep_frame:
  assumes "giftStep b i d bal s = Inr (a, t)"
  shows "db_orders t = db_orders s \<and> db_events t = db_events s \<and> db_fiscal t = db_fiscal s \<and> db_tables t = db_tables s \<and>
    db_items t = db_items s \<and> db_kots t = db_kots s \<and> db_payments t = db_payments s \<and> db_refunds t = db_refunds s \<and>
    db_stockReturns t = db_stockReturns s \<and> db_stock t = db_stock s \<and> db_points t = db_points s \<and> db_kotItems t = db_kotItems s"
  using assms by (auto simp: giftStep_def Let_def ebind_Inr_iff split: if_splits)

lemma payOpenOrder_Inr:
  "payOpenOrder i f rows s = Inr t \<longleftrightarrow> 0 < count_where (openRow i) (db_orders s) \<and>
     \<not> list_ex (\<lambda>a. list_ex (paymentClash a) (db_payments s)) rows \<and>
     t = updOrders (openRow i) f (s\<lparr>db_payments := db_payments s @ rows\<rparr>)"
  by (auto simp: payOpenOrder_def)

lemma append_grows: "append e a s = Inr (r, t) \<Longrightarrow> prefix (vf_records s) (vf_records t)"
  by (auto simp: append_def Let_def ebind_Inr_iff split: if_splits)

lemma recordPaidOrder_grows: "recordPaidOrder e sale s = Inr (r, t) \<Longrightarrow> prefix (vf_records s) (vf_records t)"
  by (auto simp: recordPaidOrder_def bumpNumber_def ebind_Inr_iff split: option.splits if_splits dest!: append_grows)

lemma recordRefund_grows: "recordRefund e sale i a s = Inr (r, t) \<Longrightarrow> prefix (vf_records s) (vf_records t)"
  by (auto simp: recordRefund_def bumpRefundNumber_def ebind_Inr_iff split: option.splits if_splits dest!: append_grows)

lemma fiscalStep_frame:
  assumes "fiscalStep rt i s = Inr t"
  shows "db_orders t = db_orders s \<and> db_events t = db_events s \<and> prefix (vf_records (db_fiscal s)) (vf_records (db_fiscal t)) \<and>
    db_tables t = db_tables s \<and> db_items t = db_items s \<and> db_kots t = db_kots s \<and> db_payments t = db_payments s \<and>
    db_refunds t = db_refunds s \<and> db_stockReturns t = db_stockReturns s \<and> db_kotItems t = db_kotItems s"
  using assms
  by (auto simp: fiscalStep_def fiscalEnv_def freshId_def ebind_Inr_iff split: option.splits dest!: recordPaidOrder_grows)

lemma earnStep_frame:
  assumes "earnStep br b p l s = Inr t"
  shows "db_orders t = db_orders s \<and> db_events t = db_events s \<and> db_fiscal t = db_fiscal s \<and>
    db_tables t = db_tables s \<and> db_items t = db_items s \<and> db_kots t = db_kots s \<and> db_payments t = db_payments s \<and>
    db_refunds t = db_refunds s \<and> db_stockReturns t = db_stockReturns s \<and> db_kotItems t = db_kotItems s"
  using assms by (auto simp: earnStep_def Let_def ebind_Inr_iff split: if_splits)

text \<open>A payment that settles the bill, as rows.\<close>

definition paidRow :: "runtime \<Rightarrow> checkout_dto \<Rightarrow> checkout_plan \<Rightarrow> int \<Rightarrow> num \<Rightarrow> order \<Rightarrow> order" where
  "paidRow rt d p n l x = (lockFigures d p n l x)\<lparr>od_status := PAID, od_billedAt := Some (rt_now rt)\<rparr>"

lemma lockFigures_sel [simp]:
  "od_id (lockFigures d p n l x) = od_id x" "od_status (lockFigures d p n l x) = od_status x"
  "od_tableId (lockFigures d p n l x) = od_tableId x" "od_branchId (lockFigures d p n l x) = od_branchId x"
  "od_subtotal (lockFigures d p n l x) = od_subtotal x" "od_acceptance (lockFigures d p n l x) = od_acceptance x"
  by (simp_all add: lockFigures_def Let_def)

lemma paidRow_sel [simp]:
  "od_id (paidRow rt d p n l x) = od_id x" "od_status (paidRow rt d p n l x) = PAID"
  "od_tableId (paidRow rt d p n l x) = od_tableId x" "od_branchId (paidRow rt d p n l x) = od_branchId x"
  "od_totalAmount (paidRow rt d p n l x) = od_totalAmount (lockFigures d p n l x)"
  by (simp_all add: paidRow_def)

lemma closeStep_frame:
  assumes "closeStep cfg rt br b u d p n l rows s = Inr (skips, t)"
  shows "0 < count_where (openRow (od_id (cp_order p))) (db_orders s) \<and>
    \<not> list_ex (\<lambda>a. list_ex (paymentClash a) (db_payments s)) rows \<and>
    db_orders t = upd_where (openRow (od_id (cp_order p))) (paidRow rt d p n l) (db_orders s) \<and>
    db_payments t = db_payments s @ rows \<and> db_events t = db_events s \<and>
    prefix (vf_records (db_fiscal s)) (vf_records (db_fiscal t)) \<and> db_items t = db_items s \<and> db_kots t = db_kots s \<and>
    db_refunds t = db_refunds s \<and> db_stockReturns t = db_stockReturns s \<and> db_kotItems t = db_kotItems s"
proof -
  from assms obtain st s1 s2 s3 where
    1: "releaseTableIfIdle rt (od_tableId (cp_order p)) (od_id (cp_order p)) (s\<lparr>db_stock := st\<rparr>) = Inr s1"
    and 2: "earnStep br b p l s1 = Inr s2"
    and 3: "payOpenOrder (od_id (cp_order p)) (paidRow rt d p n l) rows s2 = Inr s3"
    and 4: "fiscalStep rt (od_id (cp_order p)) s3 = Inr t"
    unfolding closeStep_def Let_def paidRow_def[abs_def] by (auto simp: ebind_Inr_iff)
  show ?thesis
    using releaseTable_frame[OF 1] earnStep_frame[OF 2] fiscalStep_frame[OF 4] 3
    by (simp add: payOpenOrder_Inr frame)
qed

lemma checkoutTx_InrE:
  assumes "checkoutTx cfg rt br b u d p s = Inr (st, skips, t)"
  obtains n l s1 gift s2 where "redeemStep b p s = Inr (n, l, s1)"
    "giftStep b (od_id (cp_order p)) d (cp_balance p) s1 = Inr (gift, s2)"
    "settlePayments (cp_balance p) (co_payments d) (Some gift) (co_allowPartial d) = Inr st"
    "if st_fullyPaid st
     then closeStep cfg rt br b u d p n l (paymentRows (od_id (cp_order p)) u d (st_payments st) gift) s2 = Inr (skips, t)
     else skips = [] \<and> payOpenOrder (od_id (cp_order p)) (lockFigures d p n l)
            (paymentRows (od_id (cp_order p)) u d (st_payments st) gift) s2 = Inr t"
  using assms that unfolding checkoutTx_def Let_def by (auto simp: ebind_Inr_iff split: if_splits)

lemma checkoutTx_frame:
  assumes "checkoutTx cfg rt br b u d p s = Inr (st, skips, t)"
  obtains n l gift where
    "0 < count_where (openRow (od_id (cp_order p))) (db_orders s)"
    "db_orders t = upd_where (openRow (od_id (cp_order p)))
       (if st_fullyPaid st then paidRow rt d p n l else lockFigures d p n l) (db_orders s)"
    "db_payments t = db_payments s @ paymentRows (od_id (cp_order p)) u d (st_payments st) gift"
    "settlePayments (cp_balance p) (co_payments d) (Some gift) (co_allowPartial d) = Inr st"
    "db_events t = db_events s" "prefix (vf_records (db_fiscal s)) (vf_records (db_fiscal t))" "db_items t = db_items s"
    "db_kots t = db_kots s" "db_refunds t = db_refunds s" "db_stockReturns t = db_stockReturns s"
    "db_kotItems t = db_kotItems s" "\<exists>s1 s2. giftStep b (od_id (cp_order p)) d (cp_balance p) s1 = Inr (gift, s2)"
  using assms
proof (rule checkoutTx_InrE, goal_cases)
  case (1 n l s1 gift s2)
  note f = redeemStep_frame[OF 1(2)] giftStep_frame[OF 1(3)]
  have g: "\<exists>s1 s2. giftStep b (od_id (cp_order p)) d (cp_balance p) s1 = Inr (gift, s2)" using 1(3) by blast
  show ?case
  proof (cases "st_fullyPaid st")
    case True
    then show ?thesis using f closeStep_frame[of cfg rt br b u d p n l _ s2 skips t] 1(4,5)
      by (intro 1(1)[of n l gift]) (simp_all add: g)
  next
    case False
    then show ?thesis using f 1(4,5)
      by (intro 1(1)[of n l gift]) (simp_all add: payOpenOrder_Inr frame g)
  qed
qed

lemma checkoutDone_Inr:
  assumes "checkoutDone b i p st skips s = Inr (x, t)"
  obtains es where "t = emit es (auditRow (if st_fullyPaid st then ''order.paid'' else ''order.partial_payment_recorded'') i
      (if skips \<noteq> [] then auditRow ''inventory.deduction_skipped'' i s else s))"
    "snd x = \<lparr>sv_amountDue = bill_totalDue (rs_bill (cp_resolved p)),
       sv_amountPaid = round2 (fadd (rs_paid (cp_resolved p)) (st_paidNow st)), sv_balanceDue = st_balanceAfter st,
       sv_changeDue = st_changeDue st, sv_fullyPaid = st_fullyPaid st\<rparr>"
  using assms that unfolding checkoutDone_def Let_def by (auto simp: ebind_Inr_iff)

lemma checkoutDone_frame:
  assumes "checkoutDone b i p st skips s = Inr (x, t)"
  shows "db_orders t = db_orders s \<and> prefix (db_events s) (db_events t) \<and> db_fiscal t = db_fiscal s \<and> db_tables t = db_tables s \<and>
    db_items t = db_items s \<and> db_kots t = db_kots s \<and> db_payments t = db_payments s \<and> db_refunds t = db_refunds s \<and>
    db_stockReturns t = db_stockReturns s \<and> db_kotItems t = db_kotItems s \<and> db_stock t = db_stock s"
  using assms by (rule checkoutDone_Inr) (simp add: frame)

text \<open>A successful write is a transaction that went through, or the stored result with nothing changed.\<close>

lemma checkoutWrite_InrE:
  assumes "checkoutWrite cfg rt b i u d p s = Inr (x, t)"
  obtains (replayed) "t = s" "checkoutResult b i s = Inr x" "present (co_requestId d)"
      "\<exists>br. branchOf cfg b = Some br \<and> checkoutTx cfg rt br b u d p s = Inl UniqueViolation"
  | (committed) br st skips s1 where "branchOf cfg b = Some br" "checkoutTx cfg rt br b u d p s = Inr (st, skips, s1)"
      "checkoutDone b i p st skips s1 = Inr (x, t)"
  using assms unfolding checkoutWrite_def
  by (auto simp: ebind_Inr_iff split: option.splits sum.splits exn.splits if_splits)

lemma checkoutWrite_advances:
  assumes "checkoutWrite cfg rt b i u d p s = Inr (x, t)" "keyed od_id (db_orders s)"
  shows "advances s t"
  using assms(1)
proof (cases rule: checkoutWrite_InrE)
  case replayed
  then show ?thesis using assms(2) by (simp add: advances_same)
next
  case (committed br st skips s1)
  from committed(2) show ?thesis
  proof (rule checkoutTx_frame, goal_cases)
    case (1 n l gift)
    have "open_change (db_orders s) (db_orders t)"
      using checkoutDone_frame[OF committed(3)] 1(2) by (auto simp: openRow_def)
    then show ?thesis using checkoutDone_frame[OF committed(3)] 1(5,6) assms(2) by (intro advances_upd) auto
  qed
qed

lemma checkoutRead_Proceed:
  assumes "checkoutRead cfg rt b i d cap s = Inr (Proceed p)"
  shows "findOrder b i s = Some (cp_order p) \<and> od_status (cp_order p) = OPEN \<and> od_acceptance (cp_order p) \<noteq> PENDING \<and>
    od_id (cp_order p) = i \<and> cp_items p = itemsOf i s \<and> \<not> isReplay d (paymentsOf i s)"
  using assms
  by (auto simp: checkoutRead_def getOrder_def ebind_Inr_iff Let_def dest: findOrder_row split: option.splits if_splits)

lemma checkout_InrE:
  assumes "checkout cfg rt b i u d cap s = Inr (x, t)"
  obtains (replay) "checkoutRead cfg rt b i d cap s = Inr Replay" "checkoutResult b i s = Inr x" "t = s"
  | (proceed) p where "checkoutRead cfg rt b i d cap s = Inr (Proceed p)" "checkoutWrite cfg rt b i u d p s = Inr (x, t)"
proof -
  from assms obtain y where y: "checkoutRead cfg rt b i d cap s = Inr y"
    and w: "(case y of Replay \<Rightarrow> ebind (checkoutResult b i s) (\<lambda>v. Inr (v, s))
             | Proceed p \<Rightarrow> checkoutWrite cfg rt b i u d p s) = Inr (x, t)"
    unfolding checkout_def by (rule ebind_InrE)
  show ?thesis
    by (cases y) (use y w that in \<open>auto simp: ebind_Inr_iff\<close>)
qed

lemma checkout_advances:
  assumes "checkout cfg rt b i u d cap s = Inr (x, t)" "keyed od_id (db_orders s)"
  shows "advances s t"
  using assms(1)
proof (cases rule: checkout_InrE)
  case replay
  then show ?thesis using assms(2) by (simp add: advances_same)
next
  case (proceed p)
  then show ?thesis using checkoutWrite_advances assms(2) by blast
qed

lemma returnItem_frame:
  assumes "returnItem items rid ret (ls, s) = Inr (ls', t)"
  shows "\<exists>rows. t = s\<lparr>db_stockReturns := rows\<rparr>"
  using assms by (auto simp: returnItem_def split: option.splits if_splits)

lemma returnItems_frame:
  "foldE (returnItem items rid) rets (ls, s) = Inr (ls', t) \<Longrightarrow> \<exists>rows. t = s\<lparr>db_stockReturns := rows\<rparr>"
proof (induction rets arbitrary: ls s)
  case (Cons r rets)
  then obtain ls1 s1 where 1: "returnItem items rid r (ls, s) = Inr (ls1, s1)"
    and 2: "foldE (returnItem items rid) rets (ls1, s1) = Inr (ls', t)" by (auto simp: ebind_Inr_iff)
  from returnItem_frame[OF 1] obtain rows1 where "s1 = s\<lparr>db_stockReturns := rows1\<rparr>" by blast
  moreover from Cons.IH[OF 2] obtain rows2 where "t = s1\<lparr>db_stockReturns := rows2\<rparr>" by blast
  ultimately show ?case by auto
next
  case Nil
  then have "t = s\<lparr>db_stockReturns := db_stockReturns s\<rparr>" by simp
  then show ?case by blast
qed

lemma returnStep_frame:
  assumes "returnStep cfg b u i rid rets s = Inr t"
  shows "db_orders t = db_orders s \<and> db_events t = db_events s \<and> db_fiscal t = db_fiscal s \<and> db_tables t = db_tables s \<and>
    db_items t = db_items s \<and> db_kots t = db_kots s \<and> db_payments t = db_payments s \<and> db_refunds t = db_refunds s \<and>
    db_points t = db_points s \<and> db_gifts t = db_gifts s"
proof (cases "rets = []")
  case False
  with assms obtain ls s1 st where "foldE (returnItem (itemsOf i s) rid) rets ([], s) = Inr (ls, s1)" "t = s1\<lparr>db_stock := st\<rparr>"
    by (auto simp: returnStep_def ebind_Inr_iff)
  with returnItems_frame show ?thesis by fastforce
qed (use assms in \<open>simp add: returnStep_def\<close>)

lemma creditWallet_frame:
  assumes "creditWallet r d s = Inr t"
  shows "db_orders t = db_orders s \<and> db_events t = db_events s \<and> db_fiscal t = db_fiscal s \<and> db_tables t = db_tables s \<and>
    db_items t = db_items s \<and> db_kots t = db_kots s \<and> db_payments t = db_payments s \<and> db_refunds t = db_refunds s \<and>
    db_stockReturns t = db_stockReturns s \<and> db_stock t = db_stock s \<and> db_gifts t = db_gifts s"
  using assms by (auto simp: creditWallet_def split: if_splits)

lemma refundTx_frame:
  assumes "refundTx cfg rt b u d r s = Inr (row, t)"
  shows "\<not> refundable r s < rd_refundAmount d \<and> rf_orderId row = od_id r \<and> rf_amount row = to_column 100 (rd_refundAmount d) \<and>
    rf_id row = rt_ids rt (db_next s) \<and>
    db_orders t = db_orders s \<and> db_events t = db_events s \<and> prefix (vf_records (db_fiscal s)) (vf_records (db_fiscal t)) \<and>
    db_tables t = db_tables s \<and> db_items t = db_items s \<and> db_kots t = db_kots s \<and> db_payments t = db_payments s \<and>
    db_refunds t = db_refunds s @ [row]"
  using assms
  by (auto simp: refundTx_def freshId_def fiscalEnv_def ebind_Inr_iff Let_def split: if_splits
      dest!: returnStep_frame creditWallet_frame recordRefund_grows)

lemma refund_InrE:
  assumes "refund cfg rt b i u d s = Inr (row, t)"
  obtains r s1 where "findOrder b i s = Some r" "od_status r = PAID" "refundTx cfg rt b u d r s = Inr (row, s1)"
    "t = auditRow ''order.refunded'' i (emit [OrderUpdated i None] s1)"
  using assms unfolding refund_def by (auto simp: ebind_Inr_iff split: option.splits if_splits)

lemma refund_advances:
  assumes "refund cfg rt b i u d s = Inr (row, t)" "keyed od_id (db_orders s)"
  shows "advances s t"
  using assms(1)
proof (rule refund_InrE, goal_cases)
  case (1 r s1)
  show ?case using refundTx_frame[OF 1(3)] 1(4) assms(2) by (intro advances_same) (auto simp: frame)
qed

lemma releaseOne_frame:
  "db_orders (releaseOne cfg rt d s) = db_orders s \<and> prefix (db_events s) (db_events (releaseOne cfg rt d s)) \<and>
   db_fiscal (releaseOne cfg rt d s) = db_fiscal s \<and> db_tables (releaseOne cfg rt d s) = db_tables s \<and>
   db_items (releaseOne cfg rt d s) = db_items s \<and> db_refunds (releaseOne cfg rt d s) = db_refunds s \<and>
   db_payments (releaseOne cfg rt d s) = db_payments s \<and> db_stockReturns (releaseOne cfg rt d s) = db_stockReturns s"
  by (cases d) (simp add: releaseOne_def frame)

lemma releaseAll_frame:
  "db_orders (fold (releaseOne cfg rt) ds s) = db_orders s \<and> prefix (db_events s) (db_events (fold (releaseOne cfg rt) ds s)) \<and>
   db_fiscal (fold (releaseOne cfg rt) ds s) = db_fiscal s \<and> db_tables (fold (releaseOne cfg rt) ds s) = db_tables s \<and>
   db_items (fold (releaseOne cfg rt) ds s) = db_items s \<and> db_refunds (fold (releaseOne cfg rt) ds s) = db_refunds s \<and>
   db_payments (fold (releaseOne cfg rt) ds s) = db_payments s \<and> db_stockReturns (fold (releaseOne cfg rt) ds s) = db_stockReturns s"
proof (induction ds arbitrary: s)
  case (Cons d ds)
  show ?case using Cons.IH[of "releaseOne cfg rt d s"] releaseOne_frame[of cfg rt d s]
    by (auto intro: prefix_order.trans)
qed simp

lemma releaseDue_advances:
  "releaseDueScheduledOrders cfg rt s = (n, t) \<Longrightarrow> keyed od_id (db_orders s) \<Longrightarrow> advances s t"
  using releaseAll_frame[of cfg rt "map (\<lambda>r. (r, itemsOf (od_id r) s)) (dueOrders rt s)" s]
  by (auto simp: releaseDueScheduledOrders_def Let_def intro!: advances_same)

text \<open>Deleting: finished orders only, leaving a trace, and none with a fiscal record.\<close>

lemma deleteFinishedOrders_InrE:
  assumes "deleteFinishedOrders b role ok ids s = Inr (n, t)"
  obtains "role = ''OWNER'' \<or> role = ''ADMINISTRATOR''" "ok"
    "\<forall>r \<in> set (db_orders s). od_id r \<in> set ids \<and> od_branchId r = b \<longrightarrow> od_status r \<in> {PAID, ORDER_CANCELLED}"
    "ordersWithRecords (uniq ids) (db_fiscal s) = []"
    "t = emit [OrderDeleted (uniq ids)] (deleteOrders (uniq ids) b
       (fold (\<lambda>r. auditRow ''order.deleted'' (od_id r)) (filter (\<lambda>r. od_id r \<in> set ids \<and> od_branchId r = b) (db_orders s)) s))"
  using assms
  by (auto simp: deleteFinishedOrders_def Let_def list_ex_iff split: if_splits)

lemma fold_audit:
  "fold (\<lambda>r. auditRow a (f r)) rs s = s\<lparr>db_audit := db_audit s @ map (\<lambda>r. (a, f r)) rs\<rparr>"
  by (induction rs arbitrary: s) (simp_all add: auditRow_def)

lemma deleteOrders_frame [frame]:
  "db_orders (deleteOrders ids b s) = del_where (\<lambda>r. od_id r \<in> set ids \<and> od_branchId r = b) (db_orders s)"
  "db_events (deleteOrders ids b s) = db_events s" "db_fiscal (deleteOrders ids b s) = db_fiscal s"
  "db_tables (deleteOrders ids b s) = db_tables s"
  by (simp_all add: deleteOrders_def Let_def)

lemma ordersWithRecords_none:
  "ordersWithRecords ids f = [] \<longleftrightarrow> (\<forall>i \<in> set ids. i \<noteq> '''' \<longrightarrow> (\<forall>r \<in> set (vf_records f). fr_orderId r \<noteq> i))"
  by (auto simp: ordersWithRecords_def filter_empty_conv)

lemma acceptOrder_InrE:
  assumes "acceptOrder cfg rt b i u s = Inr (v, t)"
  obtains r where "findOrder b i s = Some r" "od_status r = OPEN" "od_acceptance r = PENDING" "od_id r = i"
    "acceptWrite cfg rt u (r, itemsOf i s) s = Inr t"
  using assms by (auto simp: acceptOrder_def acceptRead_def ebind_Inr_iff dest: findOrder_row split: option.splits if_splits)

lemma withdrawOrder_InrE:
  assumes "withdrawOrder rt b i u opts s = Inr (v, t)"
  obtains r where "findOrder b i s = Some r" "withdrawRead b i opts s = Inr r" "od_status r = OPEN" "od_id r = i"
    "withdrawWrite rt u opts r s = Inr t"
proof -
  from assms obtain r where rd: "withdrawRead b i opts s = Inr r" and w: "withdrawWrite rt u opts r s = Inr t"
    by (auto simp: withdrawOrder_def ebind_Inr_iff)
  from rd have "findOrder b i s = Some r" "od_status r = OPEN"
    by (auto simp: withdrawRead_def Let_def split: option.splits if_splits)
  with rd w that show ?thesis using findOrder_row by blast
qed

end
