(* ===== verification/Order_Samples.thy ===== *)
theory Order_Samples
  imports Order_Effects
begin

text \<open>A small restaurant on which the properties of the order service are shown to apply.\<close>

definition sample_branch :: branch_row where
  "sample_branch = \<lparr>br_id = ''b'', br_taxMode = INCLUSIVE, br_autoConfirmOrders = False, br_loyaltyPointValue = 100,
     br_loyaltyEarnPerCurrency = 100, br_maxManualDiscountPercent = 10000, br_requireDiscountReason = False,
     br_referral = \<lparr>rc_enabled = False, rc_sharerPoints = 0, rc_referredPoints = 0, rc_minPurchase = 0\<rparr>\<rparr>"

definition sample_item :: "string \<Rightarrow> string \<Rightarrow> int \<Rightarrow> string option \<Rightarrow> menu_item" where
  "sample_item i n p st = \<lparr>mi_id = i, mi_branchId = ''b'', mi_name = n, mi_price = p, mi_halfPrice = None,
     mi_taxRatePercent = 0, mi_stationId = st, mi_showOnWebsite = True\<rparr>"

definition sample_config :: config where
  "sample_config = \<lparr>cf_branches = [sample_branch],
     cf_menu = [sample_item ''tea'' ''Tea'' 10000 (Some ''bar''), sample_item ''rice'' ''Rice'' 20000 (Some ''grill''),
                sample_item ''juice'' ''Juice'' 5000 (Some ''bar'')],
     cf_modifiers = [], cf_links = [], cf_zones = [], cf_stockMenu = [], cf_combos = [], cf_promotions = []\<rparr>"

definition sample_runtime :: runtime where
  "sample_runtime = \<lparr>rt_ids = (\<lambda>n. ''id'' @ nat_str n), rt_now = 1000000, rt_datePart = ''260101'',
     rt_dayMinute = (\<lambda>_. (4, 720)),
     rt_fiscal = \<lparr>ve_config = (\<lambda>_. None), ve_sha = (\<lambda>x. x), ve_day = ''01-01-2026'', ve_timestamp = ''2026-01-01T12:00:00+01:00'',
                  ve_newId = ''f'', ve_now = 1000000\<rparr>\<rparr>"

definition no_origin :: order_origin where
  "no_origin = \<lparr>og_clientRequestId = None, og_clientRequestHash = None, og_integrationKeyId = None,
     og_externalSource = None, og_externalOrderId = None, og_externalCustomerRef = None\<rparr>"

definition sample_order :: "string \<Rightarrow> string \<Rightarrow> order_status \<Rightarrow> acceptance_status \<Rightarrow> string option \<Rightarrow> int \<Rightarrow> order" where
  "sample_order i n st acc tb m0 =
     \<lparr>od_id = i, od_branchId = ''b'', od_orderNumber = n, od_type = DINE_IN, od_status = st,
      od_channel = (if acc = NOT_REQUIRED then STAFF else ONLINE), od_acceptance = acc, od_acceptedBy = None, od_tableId = tb,
      od_guestCount = None, od_guestName = None, od_customerId = None, od_notes = None, od_createdById = ''ann'',
      od_createdAt = 900000, od_origin = no_origin, od_subtotal = m0, od_taxAmount = 0, od_discountAmount = 0,
      od_discountEntry = None, od_discountReason = None, od_couponCode = None, od_promotionName = None,
      od_requestedRedeemPoints = 0, od_loyaltyPointsRedeemed = 0, od_loyaltyDiscountAmount = 0, od_tipAmount = 0,
      od_deliveryFee = 0, od_totalAmount = m0, od_delivery = None, od_scheduledFor = None, od_cancel = None,
      od_billedAt = None\<rparr>"

definition sample_line :: "string \<Rightarrow> string \<Rightarrow> string \<Rightarrow> int \<Rightarrow> int \<Rightarrow> order_item" where
  "sample_line i oid m q m0 = \<lparr>oi_id = i, oi_orderId = oid, oi_menuItemId = m, oi_name = m, oi_unitPrice = m0, oi_taxRate = 0,
     oi_quantity = q, oi_lineTotal = m0, oi_kitchenNote = None, oi_modifiers = []\<rparr>"

definition sample_kot :: "string \<Rightarrow> string \<Rightarrow> string \<Rightarrow> string \<Rightarrow> kot_status \<Rightarrow> kot" where
  "sample_kot i oid st n status = \<lparr>kt_id = i, kt_orderId = oid, kt_stationId = Some st, kt_ticketNumber = n, kt_status = status,
     kt_isPriority = False, kt_acceptedAt = None, kt_acceptedById = None, kt_readyAt = None, kt_servedAt = None,
     kt_rejected = None\<rparr>"

definition sample_record :: fiscal_record where
  "sample_record = \<lparr>fr_id = ''r1'', fr_restaurantId = ''r'', fr_branchId = ''b'', fr_issuerNif = ''B12345678'', fr_seq = 1,
     fr_invoiceType = F2, fr_invoiceNumber = ''T1-000001'', fr_issueDate = ''01-01-2026'', fr_taxTotalCents = 0,
     fr_totalCents = 20000, fr_generatedAt = ''2026-01-01T11:00:00+01:00'', fr_previousHash = None, fr_hash = '''',
     fr_xml = '''', fr_qrUrl = '''', fr_environment = TEST, fr_orderId = ''paid1'', fr_refundId = None, fr_status = VF_PENDING,
     fr_attempts = 0, fr_nextAttemptAt = 0, fr_csv = None, fr_errorCode = None, fr_errorText = None, fr_submittedAt = None\<rparr>"

text \<open>
  A sale paid earlier with its invoice; two open bills at tables \<open>t1\<close> and \<open>t2\<close>, the first with two tickets;
  an incoming order waiting to be accepted.
\<close>

definition sample_db :: db where
  "sample_db = \<lparr>
     db_orders = [sample_order ''paid1'' ''260101-0001'' PAID NOT_REQUIRED None 20000,
                  sample_order ''open1'' ''260101-0002'' OPEN NOT_REQUIRED (Some ''t1'') 40000,
                  sample_order ''open2'' ''260101-0003'' OPEN NOT_REQUIRED (Some ''t2'') 5000,
                  sample_order ''web1'' ''260101-0004'' OPEN PENDING None 10000],
     db_items = [sample_line ''i1'' ''paid1'' ''rice'' 1 20000, sample_line ''i2'' ''open1'' ''tea'' 2 20000,
                 sample_line ''i3'' ''open1'' ''rice'' 1 20000, sample_line ''i4'' ''open2'' ''juice'' 1 5000,
                 sample_line ''i5'' ''web1'' ''tea'' 1 10000],
     db_kots = [sample_kot ''k1'' ''open1'' ''bar'' ''open1-1'' NEW, sample_kot ''k2'' ''open1'' ''grill'' ''open1-2'' NEW],
     db_kotItems = [\<lparr>ki_kotId = ''k1'', ki_orderItemId = ''i2'', ki_status = NEW\<rparr>,
                    \<lparr>ki_kotId = ''k2'', ki_orderItemId = ''i3'', ki_status = NEW\<rparr>],
     db_payments = [\<lparr>py_orderId = ''paid1'', py_method = CASH, py_amount = 20000, py_tendered = None, py_changeGiven = None,
                     py_reference = None, py_createdById = ''ann'', py_clientRequestId = None\<rparr>],
     db_refunds = [], db_stockReturns = [],
     db_tables = [\<lparr>tb_id = ''t1'', tb_branchId = ''b'', tb_status = OCCUPIED, tb_statusSince = 0\<rparr>,
                  \<lparr>tb_id = ''t2'', tb_branchId = ''b'', tb_status = OCCUPIED, tb_statusSince = 0\<rparr>],
     db_points = \<lparr>ps_customers = [], ps_referrals = [], ps_ledger = []\<rparr>,
     db_gifts = \<lparr>gs_cards = [], gs_redemptions = []\<rparr>,
     db_stock = \<lparr>ss_ingredients = [], ss_batches = [], ss_movements = []\<rparr>,
     db_coupons = [],
     db_fiscal = \<lparr>vf_branches = [], vf_settingsRows = [], vf_records = [sample_record]\<rparr>,
     db_audit = [], db_events = [], db_next = 0\<rparr>"

lemmas sample_defs = sample_db_def sample_order_def sample_line_def sample_kot_def sample_config_def sample_branch_def
  sample_item_def sample_runtime_def no_origin_def

lemma sample_keyed: "keyed od_id (db_orders sample_db)" by code_simp

definition sample_withdrawal :: withdraw_options where
  "sample_withdrawal = \<lparr>wo_reason = None, wo_source = BY_STAFF, wo_confirmStarted = False, wo_declineIncoming = False\<rparr>"

lemma is_okE: "is_ok m \<Longrightarrow> \<exists>x. m = Inr x"
  by (cases m) auto

lemma sample_withdraw: "\<exists>v t. withdrawOrder sample_runtime ''b'' ''open1'' ''ann'' sample_withdrawal sample_db = Inr (v, t)"
proof -
  have "is_ok (withdrawOrder sample_runtime ''b'' ''open1'' ''ann'' sample_withdrawal sample_db)" by code_simp
  then show ?thesis using is_okE by fastforce
qed

end
