(* ===== verification/Order_History.thy ===== *)
theory Order_History
  imports Order_Samples Lasting_Rows
begin

text \<open>
  Everything the order service can do to its rows, as one step relation over the handlers, and what no run
  of it undoes: a finished order keeps its row for good unless it is deleted with a trace, and one with a
  fiscal record is never deleted.
\<close>

section \<open>All the handlers\<close>

inductive order_step :: "config \<Rightarrow> db \<Rightarrow> db \<Rightarrow> bool" for cfg where
  create: "createOrder cfg rt b u d opts s = Inr (v, t) \<Longrightarrow> order_step cfg s t"
| add: "addItems cfg rt b i items ao s = Inr (v, t) \<Longrightarrow> order_step cfg s t"
| accept: "acceptOrder cfg rt b i u s = Inr (v, t) \<Longrightarrow> order_step cfg s t"
| withdraw: "withdrawOrder rt b i u wo s = Inr (v, t) \<Longrightarrow> order_step cfg s t"
| delete: "deleteFinishedOrders b role ok ids s = Inr (n, t) \<Longrightarrow> order_step cfg s t"
| edit: "updateOrder rt b i ud s = Inr (v, t) \<Longrightarrow> order_step cfg s t"
| lower: "updateOrderItem b i it q s = Inr (v, t) \<Longrightarrow> order_step cfg s t"
| remove: "removeOrderItem b i it s = Inr (v, t) \<Longrightarrow> order_step cfg s t"
| merge: "mergeOrders rt b i j s = Inr (v, t) \<Longrightarrow> order_step cfg s t"
| move_ticket: "updateKotStatus rt b k st w s = Inr (x, t) \<Longrightarrow> order_step cfg s t"
| prioritise: "setKotPriority b k pr s = Inr (x, t) \<Longrightarrow> order_step cfg s t"
| reject: "rejectKot rt b k u inp s = Inr (x, t) \<Longrightarrow> order_step cfg s t"
| pay: "checkout cfg rt b i u co cap s = Inr (y, t) \<Longrightarrow> order_step cfg s t"
| give_back: "refund cfg rt b i u rd s = Inr (z, t) \<Longrightarrow> order_step cfg s t"
| release: "releaseDueScheduledOrders cfg rt s = (n, t) \<Longrightarrow> order_step cfg s t"

inductive_cases order_stepE: "order_step cfg s t"

text \<open>What a run keeps.\<close>

definition invoiced :: "db \<Rightarrow> string \<Rightarrow> bool" where
  "invoiced s i \<longleftrightarrow> (\<exists>f \<in> set (vf_records (db_fiscal s)). fr_orderId f = i)"

definition forward :: "db \<Rightarrow> db \<Rightarrow> bool" where
  "forward s t \<longleftrightarrow> keyed od_id (db_orders t) \<and> prefix (db_events s) (db_events t) \<and>
     prefix (vf_records (db_fiscal s)) (vf_records (db_fiscal t)) \<and>
     (\<forall>r \<in> set (db_orders s). od_status r \<noteq> OPEN \<longrightarrow> r \<in> set (db_orders t) \<or>
        (\<exists>ids. OrderDeleted ids \<in> set (drop (length (db_events s)) (db_events t)) \<and> od_id r \<in> set ids) \<and>
        (od_id r \<noteq> '''' \<longrightarrow> \<not> invoiced s (od_id r)))"

lemma advances_forward: "advances s t \<Longrightarrow> forward s t"
  by (simp add: advances_def forward_def)

lemma delete_forward:
  assumes "deleteFinishedOrders b role ok ids s = Inr (n, t)" "keyed od_id (db_orders s)"
  shows "forward s t"
  using assms(1)
proof (rule deleteFinishedOrders_InrE, goal_cases)
  case 1
  have o: "db_orders t = del_where (\<lambda>r. od_id r \<in> set (uniq ids) \<and> od_branchId r = b) (db_orders s)"
    "db_events t = db_events s @ [OrderDeleted (uniq ids)]" "db_fiscal t = db_fiscal s"
    by (simp_all add: 1(5) frame fold_audit)
  show ?case unfolding forward_def o(2,3)
    using 1(4) assms(2) by (auto simp: o(1) del_where_def ordersWithRecords_none invoiced_def keyed_filter)
qed

lemma step_forward:
  assumes "order_step cfg s t" "keyed od_id (db_orders s)"
  shows "forward s t"
  using assms
proof cases
  case (accept rt b i u v)
  then show ?thesis using assms(2) by (auto elim!: acceptOrder_InrE intro: advances_forward acceptWrite_advances)
next
  case (withdraw rt b i u wo v)
  then show ?thesis using assms(2) by (auto elim!: withdrawOrder_InrE intro: advances_forward withdrawWrite_advances)
qed (use assms(2) in \<open>blast intro: advances_forward createOrder_advances addItems_advances delete_forward updateOrder_advances
  updateOrderItem_advances removeOrderItem_advances mergeOrders_advances updateKotStatus_advances setKotPriority_advances
  rejectKot_advances checkout_advances refund_advances releaseDue_advances\<close>)+

text \<open>The handlers, on states whose orders have distinct identifiers (the primary key).\<close>

definition order_move :: "config \<Rightarrow> db \<Rightarrow> db \<Rightarrow> bool" where
  "order_move cfg s t \<longleftrightarrow> order_step cfg s t \<and> keyed od_id (db_orders s)"

lemma order_move_forward: "order_move cfg s t \<Longrightarrow> forward s t"
  by (auto simp: order_move_def intro: step_forward)

lemma run_order_moves: "(order_step cfg)\<^sup>*\<^sup>* s t \<Longrightarrow> keyed od_id (db_orders s) \<Longrightarrow> (order_move cfg)\<^sup>*\<^sup>* s t \<and> keyed od_id (db_orders t)"
proof (induction rule: rtranclp_induct)
  case (step t u)
  then have "order_move cfg t u" by (simp add: order_move_def)
  with step show ?case using order_move_forward by (auto simp: forward_def intro: rtranclp.rtrancl_into_rtrancl)
qed simp

definition deleted :: "db \<Rightarrow> order \<Rightarrow> bool" where
  "deleted s r \<longleftrightarrow> (\<exists>ids. OrderDeleted ids \<in> set (db_events s) \<and> od_id r \<in> set ids)"

definition finished :: "order \<Rightarrow> bool" where "finished r \<longleftrightarrow> od_status r \<noteq> OPEN"

interpretation kept_orders: protected_rows db_orders finished deleted "order_move cfg"
  "\<lambda>s r. od_id r \<noteq> '''' \<and> invoiced s (od_id r)" for cfg
proof unfold_locales
  fix s t r
  assume "order_move cfg s t"
  then have f: "forward s t" by (rule order_move_forward)
  then have e: "set (db_events s) \<subseteq> set (db_events t)" and v: "set (vf_records (db_fiscal s)) \<subseteq> set (vf_records (db_fiscal t))"
    by (auto simp: forward_def set_mono_prefix dest!: set_mono_prefix)
  show "deleted s r \<Longrightarrow> deleted t r" using e by (auto simp: deleted_def)
  show "od_id r \<noteq> '''' \<and> invoiced s (od_id r) \<Longrightarrow> od_id r \<noteq> '''' \<and> invoiced t (od_id r)"
    using v by (auto simp: invoiced_def)
  show "r \<in> set (db_orders s) \<Longrightarrow> finished r \<Longrightarrow> r \<in> set (db_orders t) \<or> deleted t r"
    using f by (auto simp: forward_def finished_def deleted_def dest: in_set_dropD)
  show "r \<in> set (db_orders s) \<Longrightarrow> finished r \<Longrightarrow> od_id r \<noteq> '''' \<and> invoiced s (od_id r) \<Longrightarrow> r \<in> set (db_orders t)"
    using f by (auto simp: forward_def finished_def)
qed

section \<open>Finished orders\<close>





end
