(* ===== verification/Order_Races.thy ===== *)
theory Order_Races
  imports Order_History
begin

text \<open>
  What happens between the reads of a handler and its transaction: the transactions of checkout, cancelling,
  declining, rejecting a ticket and accepting are taken with plans read at any earlier time, and their
  conditional updates are shown to let only one of them through.
\<close>

section \<open>Closing an order\<close>

text \<open>The transactions that end an open order, on a plan read at any time before.\<close>

inductive closes :: "string \<Rightarrow> db \<Rightarrow> db \<Rightarrow> bool" for i where
  paid: "checkoutTx cfg rt br b u d p s = Inr (st, skips, t) \<Longrightarrow> st_fullyPaid st \<Longrightarrow> od_id (cp_order p) = i \<Longrightarrow> closes i s t"
| withdrawn: "withdrawWrite rt u opts r s = Inr t \<Longrightarrow> od_id r = i \<Longrightarrow> closes i s t"
| refused: "rejectWrite rt u w q s = Inr t \<Longrightarrow> od_id (rp_order q) = i \<Longrightarrow> \<not> rp_otherLive q \<Longrightarrow> closes i s t"

inductive_cases closesE: "closes i s t"

definition openOrder :: "string \<Rightarrow> db \<Rightarrow> bool" where
  "openOrder i s \<longleftrightarrow> (\<exists>r \<in> set (db_orders s). openRow i r)"

lemma count_open: "0 < count_where P rs \<longleftrightarrow> (\<exists>r \<in> set rs. P r)"
  by (auto simp: count_where_def filter_empty_conv)

lemma upd_where_bex: "x \<in> set rs \<Longrightarrow> P x \<Longrightarrow> Q (f x) \<Longrightarrow> \<exists>y \<in> set (upd_where P f rs). Q y"
  by (auto simp: set_upd_where)

lemma withdrawWrite_frame:
  assumes "withdrawWrite rt u opts r s = Inr t"
  shows "(\<exists>x \<in> set (db_orders s). withdrawable (od_id r) (wo_declineIncoming opts) x) \<and>
    db_orders t = upd_where (withdrawable (od_id r) (wo_declineIncoming opts))
         (\<lambda>x. x\<lparr>od_status := ORDER_CANCELLED,
              od_cancel := Some \<lparr>ci_reason = trimmedReason (wo_reason opts), ci_at = rt_now rt, ci_by = u,
                                 ci_source = wo_source opts\<rparr>,
              od_acceptance := (if wo_declineIncoming opts then ORDER_REJECTED else od_acceptance x)\<rparr>) (db_orders s)"
  using assms
proof (rule withdrawWrite_InrE, goal_cases)
  case (1 s1)
  show ?case using releaseTable_frame[OF 1(2)] 1(1,3) by (simp add: frame count_open emitOrderWithdrawn_def)
qed

text \<open>A closing finds the order open and leaves no open row of it, but a finished one.\<close>

lemma closes_effect:
  assumes "closes i s t" "keyed od_id (db_orders s)"
  shows "openOrder i s \<and> keyed od_id (db_orders t) \<and> (\<exists>r \<in> set (db_orders t). od_id r = i \<and> finished r)"
  using assms(1)
proof cases
  case (paid cfg rt br b u d p st skips)
  from paid(1) show ?thesis
  proof (rule checkoutTx_frame, goal_cases)
    case (1 n l gift)
    obtain r where r: "r \<in> set (db_orders s)" "openRow i r" using 1(1) paid(3) by (auto simp: count_open)
    have t: "db_orders t = upd_where (openRow i) (paidRow rt d p n l) (db_orders s)" using 1(2) paid(2,3) by simp
    have "\<exists>x \<in> set (db_orders t). od_id x = i \<and> finished x"
      unfolding t by (rule upd_where_bex[OF r(1)]) (use r(2) in \<open>simp_all add: openRow_def finished_def\<close>)
    moreover have "keyed od_id (db_orders t)" using 1(2) paid(2) assms(2) by (simp add: keyed_upd_where)
    ultimately show ?thesis using r by (auto simp: openOrder_def)
  qed
next
  case (withdrawn rt u opts r)
  from withdrawWrite_frame[OF withdrawn(1)] withdrawn(2) obtain x where
    x: "x \<in> set (db_orders s)" "withdrawable i (wo_declineIncoming opts) x" and
    t: "db_orders t = upd_where (withdrawable i (wo_declineIncoming opts))
         (\<lambda>x. x\<lparr>od_status := ORDER_CANCELLED,
              od_cancel := Some \<lparr>ci_reason = trimmedReason (wo_reason opts), ci_at = rt_now rt, ci_by = u,
                                 ci_source = wo_source opts\<rparr>,
              od_acceptance := (if wo_declineIncoming opts then ORDER_REJECTED else od_acceptance x)\<rparr>) (db_orders s)" by auto
  have "openRow i x" using x(2) by (simp add: withdrawable_def openRow_def)
  moreover have "\<exists>r \<in> set (db_orders t). od_id r = i \<and> finished r"
    unfolding t by (rule upd_where_bex[OF x(1)]) (use x in \<open>simp_all add: finished_def withdrawable_def\<close>)
  moreover have "keyed od_id (db_orders t)" using assms(2) by (simp add: t keyed_upd_where)
  ultimately show ?thesis using x(1) by (auto simp: openOrder_def)
next
  case (refused rt u w q)
  from refused(1) show ?thesis
  proof (rule rejectWrite_InrE, goal_cases)
    case (1 s2 es)
    then have "rejectWithdraw rt u w (rp_order q) (markRejected rt u w (rp_kot q) s) = Inr s2" using refused(3) by simp
    then show ?thesis
    proof (rule rejectWithdraw_Inr, goal_cases)
      case 1
      obtain x where x: "x \<in> set (db_orders s)" "od_id x = i" "od_status x = OPEN"
        using 1(1) refused(2) by (auto simp: count_open frame)
      have t: "db_orders t = upd_where (\<lambda>x. od_id x = i \<and> od_status x = OPEN)
         (\<lambda>x. x\<lparr>od_status := ORDER_CANCELLED, od_cancel := Some \<lparr>ci_reason = Some w, ci_at = rt_now rt, ci_by = u,
                  ci_source = KITCHEN_REJECTED\<rparr>\<rparr>) (db_orders s)"
        using releaseTable_frame[OF 1(2)] \<open>t = auditRow _ _ _\<close> refused(2) by (simp add: frame)
      have "\<exists>r \<in> set (db_orders t). od_id r = i \<and> finished r"
        unfolding t by (rule upd_where_bex[OF x(1)]) (use x in \<open>simp_all add: finished_def\<close>)
      moreover have "keyed od_id (db_orders t)" using assms(2) by (simp add: t keyed_upd_where)
      ultimately show ?thesis using x by (auto simp: openOrder_def openRow_def)
    qed
  qed
qed

text \<open>C27: an order is closed once. When the transaction of a full payment, a cancellation, a decline or a
  kitchen refusal of an order has gone through, then after any run of the handlers no such transaction of
  that order goes through again, whatever it had read before, as long as the order was not deleted. So no
  order is ever both paid and cancelled, and none is paid twice.\<close>

theorem order_closed_once:
  assumes "closes i s t" "keyed od_id (db_orders s)" "(order_step cfg)\<^sup>*\<^sup>* t u"
    "\<not> (\<exists>ids. OrderDeleted ids \<in> set (db_events u) \<and> i \<in> set ids)"
  shows "\<not> closes i u w"
proof
  assume c: "closes i u w"
  from closes_effect[OF assms(1,2)] obtain r where kt: "keyed od_id (db_orders t)"
    and r: "r \<in> set (db_orders t)" "od_id r = i" "finished r" by auto
  note run = run_order_moves[OF assms(3) kt]
  have ru: "r \<in> set (db_orders u)"
    using kept_orders.run_lasts[OF conjunct1[OF run] r(1,3)] assms(4) r(2) by (simp add: deleted_def)
  obtain x where x: "x \<in> set (db_orders u)" "od_id x = i" "od_status x = OPEN"
    using closes_effect[OF c] run by (auto simp: openOrder_def openRow_def)
  then have "x = r" using keyed_unique[OF conjunct2[OF run] x(1) ru] r(2) by simp
  then show False using r(3) x(3) by (simp add: finished_def)
qed

theorem order_closed_once_witness:
  "\<exists>t. closes ''open1'' sample_db t \<and> (\<forall>w. \<not> closes ''open1'' t w)"
proof -
  have "case withdrawOrder sample_runtime ''b'' ''open1'' ''ann'' sample_withdrawal sample_db of
      Inl _ \<Rightarrow> False | Inr (v, t) \<Rightarrow> list_all (\<lambda>e. case e of OrderDeleted _ \<Rightarrow> False | _ \<Rightarrow> True) (db_events t)"
    by code_simp
  then obtain v t where w: "withdrawOrder sample_runtime ''b'' ''open1'' ''ann'' sample_withdrawal sample_db = Inr (v, t)"
    and e: "list_all (\<lambda>e. case e of OrderDeleted _ \<Rightarrow> False | _ \<Rightarrow> True) (db_events t)"
    by (auto split: sum.splits)
  from w obtain r where "od_id r = ''open1''" "withdrawWrite sample_runtime ''ann'' sample_withdrawal r sample_db = Inr t"
    by (rule withdrawOrder_InrE)
  then have c: "closes ''open1'' sample_db t" by (rule closes.withdrawn[rotated])
  moreover have "\<not> closes ''open1'' t w'" for w'
    by (rule order_closed_once[OF c sample_keyed rtranclp.rtrancl_refl]) (use e in \<open>auto simp: list_all_iff\<close>)
  ultimately show ?thesis by blast
qed

section \<open>Accepting\<close>



end
