(* ===== verification/Order_Bills.thy ===== *)
theory Order_Bills
  imports Order_Samples
begin

text \<open>
  The amounts of an open bill follow its lines: after an order is taken and after every correction the
  stored subtotal and total are the sum of the stored line totals, to the cent.
\<close>

lemma abs_member_sum: "n \<in> set xs \<Longrightarrow> \<bar>n :: int\<bar> \<le> sum_list (map abs xs)"
proof (induction xs)
  case (Cons x xs)
  have p: "0 \<le> sum_list (map abs xs)" by (intro sum_list_nonneg) auto
  show ?case
  proof (cases "n = x")
    case False
    then have "\<bar>n\<bar> \<le> sum_list (map abs xs)" using Cons by simp
    then show ?thesis by simp
  qed (use p in simp)
qed simp

lemma sum_ok_member: "sum_ok ns \<Longrightarrow> n \<in> set ns \<Longrightarrow> in_range n"
  using abs_member_sum[of n ns] by (simp add: sum_ok_def in_range_def)

definition lineSum :: "order_item list \<Rightarrow> int" where
  "lineSum is = sum_list (map oi_lineTotal is)"

definition lines_ok :: "order_item list \<Rightarrow> bool" where
  "lines_ok is \<longleftrightarrow> sum_ok (map oi_lineTotal is) \<and> list_all (\<lambda>i. 0 < oi_quantity i) is"

lemma subtotal_fsum: "subtotal (computeOrderTotals ls 0 0) = round2 (fsum (map lineTotal ls))"
  by (simp add: computeOrderTotals_def Let_def)

lemma stored_subtotal:
  assumes "lines_ok is"
  shows "to_column 100 (subtotal (computeOrderTotals (map storedLine is) 0 0)) = lineSum is"
proof -
  have "lineTotal (storedLine i) = cents (oi_lineTotal i)" if "i \<in> set is" for i
  proof -
    have "in_range (oi_lineTotal i)" "0 < oi_quantity i"
      using assms that sum_ok_member[of "map oi_lineTotal is"] by (auto simp: lines_ok_def list_all_iff)
    then show ?thesis by (simp add: storedLine_def priceLine_stored_total)
  qed
  then have "map lineTotal (map storedLine is) = map cents (map oi_lineTotal is)" by simp
  then have "subtotal (computeOrderTotals (map storedLine is) 0 0) = cents (lineSum is)"
    using assms by (simp only: subtotal_fsum lines_ok_def round2_fsum_cents lineSum_def)
  moreover have "in_range (lineSum is)" using assms sum_ok_range by (auto simp: lines_ok_def lineSum_def)
  ultimately show ?thesis by simp
qed

text \<open>A bill whose amounts are those of its lines.\<close>

definition bill_ok :: "string \<Rightarrow> db \<Rightarrow> bool" where
  "bill_ok i s \<longleftrightarrow> (\<forall>r \<in> set (db_orders s). od_id r = i \<longrightarrow>
     od_subtotal r = lineSum (itemsOf i s) \<and> od_totalAmount r = lineSum (itemsOf i s))"

lemma itemsOf_cong: "db_items s = db_items t \<Longrightarrow> itemsOf i s = itemsOf i t" by (simp add: itemsOf_def)

lemma ball_upd_where: "(\<forall>r \<in> set (upd_where P f rs). Q r) \<longleftrightarrow> (\<forall>r \<in> set rs. Q (if P r then f r else r))"
  by (auto simp: upd_where_def)

lemma setTotals_bill:
  assumes "lines_ok (itemsOf i s)" "is = itemsOf i s"
  shows "bill_ok i (setTotals i (computeOrderTotals (map storedLine is) 0 0) s)"
  using stored_subtotal[OF assms(1)] assms(2)
  by (simp add: bill_ok_def setTotals_upd ball_upd_where itemsOf_cong[OF setTotals_frame(4)])

lemma recompute_bill: "lines_ok (itemsOf i s) \<Longrightarrow> bill_ok i (recomputeTotals i s)"
  unfolding recomputeTotals_def by (rule setTotals_bill) simp_all

lemma bill_ok_cong: "db_orders s = db_orders t \<Longrightarrow> db_items s = db_items t \<Longrightarrow> bill_ok i s = bill_ok i t"
  by (simp add: bill_ok_def itemsOf_def)

text \<open>The corrections of a bill.\<close>

inductive bill_edit :: "config \<Rightarrow> string \<Rightarrow> db \<Rightarrow> db \<Rightarrow> bool" for cfg i where
  more: "addItems cfg rt b i items ao s = Inr (v, t) \<Longrightarrow> bill_edit cfg i s t"
| less: "updateOrderItem b i it q s = Inr (v, t) \<Longrightarrow> bill_edit cfg i s t"
| without: "removeOrderItem b i it s = Inr (v, t) \<Longrightarrow> bill_edit cfg i s t"
| together: "mergeOrders rt b i j s = Inr (v, t) \<Longrightarrow> bill_edit cfg i s t"

lemma itemsOf_lineRows: "itemsOf i (s\<lparr>db_items := db_items s @ lineRows rt i ls n, db_next := m\<rparr>) = itemsOf i s @ lineRows rt i ls n"
proof -
  have "filter (\<lambda>x. oi_orderId x = i) (lineRows rt i ls n) = lineRows rt i ls n"
    by (induction ls arbitrary: n) (simp_all add: lineRow_def)
  then show ?thesis by (simp add: itemsOf_def)
qed

text \<open>The totals computed again, with nothing after them that touches order or lines.\<close>

lemma recomputed_bill:
  assumes "db_orders t = db_orders (recomputeTotals i s)" "db_items t = db_items (recomputeTotals i s)" "lines_ok (itemsOf i t)"
  shows "bill_ok i t"
proof -
  have "itemsOf i s = itemsOf i t" by (intro itemsOf_cong) (simp add: assms(2) frame)
  then show ?thesis using recompute_bill[of i s] assms bill_ok_cong[of "recomputeTotals i s" t i] by simp
qed

lemma added_bill:
  assumes "addItems cfg rt b i items ao s = Inr (v, t)" "lines_ok (itemsOf i t)"
  shows "bill_ok i t"
  using assms(1)
proof (rule addItems_InrE, goal_cases)
  case (1 lines r)
  let ?s1 = "s\<lparr>db_items := db_items s @ lineRows rt i lines (db_next s), db_next := db_next s + length lines\<rparr>"
  have it: "db_items t = db_items ?s1" using 1(5) by (simp add: frame)
  have ok: "lines_ok (itemsOf i ?s1)" using assms(2) itemsOf_cong[OF it] by metis
  have "bill_ok i (setTotals i (computeOrderTotals (map storedLine (itemsOf i s @ lineRows rt i lines (db_next s))) 0 0) ?s1)"
    by (rule setTotals_bill[OF ok]) (simp only: itemsOf_lineRows)
  then show ?thesis by (rule bill_ok_cong[THEN iffD1, rotated -1]) (simp_all add: 1(5) frame)
qed

lemma merged_bill:
  assumes "mergeOrders rt b i j s = Inr (v, t)" "lines_ok (itemsOf i t)"
  shows "bill_ok i t"
proof -
  obtain x y where rd: "mergeRead b i j s = Inr (x, y)" and w: "mergeWrite rt (x, y) s = Inr t"
    using assms(1) by (auto simp: mergeOrders_def ebind_Inr_iff)
  have ids: "od_id x = i" "od_id y = j" "i \<noteq> j" using rd findOrder_row by (auto simp: mergeRead_Inr)
  let ?m = "updKots (\<lambda>k. kt_orderId k = j) (\<lambda>k. k\<lparr>kt_orderId := i\<rparr>)
       (s\<lparr>db_items := upd_where (\<lambda>z. oi_orderId z = j) (\<lambda>z. z\<lparr>oi_orderId := i\<rparr>) (db_items s)\<rparr>)"
  have it: "itemsOf i t = itemsOf i ?m"
    using mergeWrite_frame[OF w] by (intro itemsOf_cong) (simp add: mergedState_def frame ids)
  have "bill_ok i (recomputeTotals i ?m)" by (rule recompute_bill) (use assms(2) it in simp)
  then show ?thesis
    using mergeWrite_frame[OF w] it ids itemsOf_cong[OF recomputeTotals_frame(4)[of i ?m], of i]
    by (simp add: bill_ok_def mergedState_orders ball_upd_where)
qed

text \<open>C29: after adding items, lowering or removing a line, or merging another bill into it, the stored
  subtotal and total of a bill are the sum of the line totals it now has, as long as those add up within
  the range of exact amounts.\<close>

theorem bill_follows_lines:
  assumes "bill_edit cfg i s t" "bill_ok i s" "lines_ok (itemsOf i t)" "keyed od_id (db_orders s)"
  shows "bill_ok i t"
  using assms(1)
proof cases
  case (more rt b items ao v)
  then show ?thesis using assms(3) by (rule added_bill)
next
  case (less b it q v)
  from less show ?thesis
  proof (rule updateOrderItem_InrE, goal_cases)
    case (1 l r)
    then show ?case using assms(2) by simp
  next
    case (2 l r s1)
    then obtain s0 where s1: "s1 = recomputeTotals i s0" by (auto simp: updateLineWrite_Inr)
    show ?case by (rule recomputed_bill[of t i s0, OF _ _ assms(3)]) (simp_all add: 2(7) s1[symmetric] lineEvents_def frame)
  qed
next
  case (without b it v)
  from without show ?thesis
  proof (rule removeOrderItem_InrE, goal_cases)
    case (1 l r s1)
    then obtain s0 where s1: "s1 = recomputeTotals i s0" by (auto simp: removeLineWrite_Inr)
    show ?case by (rule recomputed_bill[of t i s0, OF _ _ assms(3)]) (simp_all add: 1(7) s1[symmetric] lineEvents_def frame)
  qed
next
  case (together rt b j v)
  then show ?thesis using assms(3) by (rule merged_bill)
qed

text \<open>When a removal succeeds.\<close>

lemma removeOrderItem_ok:
  assumes "billLine b i it s = Inr l" "length (itemsOf i s) \<noteq> 1" "\<not> lineStarted it s"
    "0 < count_where (\<lambda>x. oi_id x = it) (db_items s)"
  shows "\<exists>v. removeOrderItem b i it s = Inr (v, lineEvents ''order.item_removed'' i (recomputeTotals i
    (updKots (emptyKot i (deleteLines (\<lambda>x. x = it) s)) (\<lambda>k. k\<lparr>kt_status := CANCELLED\<rparr>) (deleteLines (\<lambda>x. x = it) s))))"
proof -
  let ?k = "updKots (emptyKot i (deleteLines (\<lambda>x. x = it) s)) (\<lambda>k. k\<lparr>kt_status := CANCELLED\<rparr>) (deleteLines (\<lambda>x. x = it) s)"
  let ?t = "lineEvents ''order.item_removed'' i (recomputeTotals i ?k)"
  have 3: "removeLineWrite i it s = Inr (recomputeTotals i ?k)"
    unfolding removeLineWrite_Inr using assms by blast
  have "findOrder b i s \<noteq> None" using assms(1) by (auto simp: billLine_Inr)
  then have "findOrder b i ?t \<noteq> None"
    by (simp add: findOrder_def lineEvents_def frame recomputeTotals_orders find_upd_where)
  then obtain v where "getOrder b i ?t = Inr v" by (auto simp: getOrder_def)
  then have "removeOrderItem b i it s = Inr (v, ?t)" using assms(1,2) 3 by (simp add: removeOrderItem_def)
  then show ?thesis by blast
qed

text \<open>Removing the first line of the first open bill of the sample.\<close>

lemma sample_remove:
  "\<exists>v t. removeOrderItem ''b'' ''open1'' ''i2'' sample_db = Inr (v, t) \<and>
     itemsOf ''open1'' t = [sample_line ''i3'' ''open1'' ''rice'' 1 20000]"
proof -
  let ?d = "deleteLines (\<lambda>x. x = ''i2'') sample_db"
  let ?t = "lineEvents ''order.item_removed'' ''open1'' (recomputeTotals ''open1''
    (updKots (emptyKot ''open1'' ?d) (\<lambda>k. k\<lparr>kt_status := CANCELLED\<rparr>) ?d))"
  have "billLine ''b'' ''open1'' ''i2'' sample_db = Inr (sample_line ''i2'' ''open1'' ''tea'' 2 20000)" by code_simp
  moreover have "length (itemsOf ''open1'' sample_db) \<noteq> 1" "\<not> lineStarted ''i2'' sample_db"
    "0 < count_where (\<lambda>x. oi_id x = ''i2'') (db_items sample_db)" by code_simp+
  ultimately obtain v where r: "removeOrderItem ''b'' ''open1'' ''i2'' sample_db = Inr (v, ?t)"
    using removeOrderItem_ok by meson
  have "itemsOf ''open1'' ?t = itemsOf ''open1'' ?d" by (rule itemsOf_cong) (simp add: lineEvents_def frame)
  also have "itemsOf ''open1'' ?d = [sample_line ''i3'' ''open1'' ''rice'' 1 20000]" by code_simp
  finally show ?thesis using r by blast
qed

theorem bill_follows_lines_witness:
  "\<exists>t. bill_edit sample_config ''open1'' sample_db t \<and> lineSum (itemsOf ''open1'' t) = 20000 \<and> bill_ok ''open1'' t"
proof -
  obtain v t where r: "removeOrderItem ''b'' ''open1'' ''i2'' sample_db = Inr (v, t)"
    and it: "itemsOf ''open1'' t = [sample_line ''i3'' ''open1'' ''rice'' 1 20000]" using sample_remove by blast
  have e: "bill_edit sample_config ''open1'' sample_db t" using r by (rule bill_edit.without)
  have b: "bill_ok ''open1'' sample_db" by (simp add: bill_ok_def sample_defs itemsOf_def lineSum_def)
  have l: "lines_ok (itemsOf ''open1'' t)" by (simp add: it lines_ok_def sum_ok_def sample_line_def)
  show ?thesis using bill_follows_lines[OF e b l sample_keyed] e by (auto simp: it lineSum_def sample_line_def)
qed

section \<open>A new order\<close>

lemma lineRows_order: "x \<in> set (lineRows rt i ls n) \<Longrightarrow> oi_orderId x = i"
  by (induction ls arbitrary: n) (auto simp: lineRow_def)

lemma lineRows_totals: "map oi_lineTotal (lineRows rt i ls n) = map (\<lambda>l. to_column 100 (lineTotal (ln_priced l))) ls"
  by (induction ls arbitrary: n) (simp_all add: lineRow_def)

lemma new_subtotal:
  assumes "map (\<lambda>l. lineTotal (ln_priced l)) ls = map cents ns" "sum_ok ns"
  shows "to_column 100 (subtotal (linesTotals ls)) = lineSum (lineRows rt i ls n)"
proof -
  have c: "map lineTotal (map ln_priced ls) = map cents ns" using assms(1) by (simp add: comp_def)
  have "map (\<lambda>l. to_column 100 (lineTotal (ln_priced l))) ls = map (to_column 100) (map cents ns)"
    unfolding assms(1)[symmetric] by simp
  moreover have "map (to_column 100) (map cents ns) = ns"
    using sum_ok_member[OF assms(2)] by (simp add: map_idI)
  moreover have "subtotal (linesTotals ls) = cents (sum_list ns)"
    unfolding linesTotals_def subtotal_fsum c by (rule round2_fsum_cents[OF assms(2)])
  ultimately show ?thesis
    using sum_ok_range[OF assms(2)] by (simp only: lineSum_def lineRows_totals to_column_dec zero_less_numeral)
qed

lemma buildLine_of_cart:
  "buildLine c menu mods tm cu = Inr l \<Longrightarrow> ln_menuItemId l = ct_menuItemId c \<and> ln_quantity l = ct_quantity c"
  by (auto simp: buildLine_def ebind_Inr_iff Let_def split: option.splits dest: find_SomeD)

lemma rows_of_cart:
  assumes "orderLines cfg b d opts s = Inr lines"
  shows "list_all2 (\<lambda>c i. oi_menuItemId i = ct_menuItemId c \<and> oi_quantity i = ct_quantity c) (cr_items d) (lineRows rt oid lines n)"
proof -
  from assms obtain menu mods tm cu where "mapE (\<lambda>c. buildLine c menu mods tm cu) (cr_items d) = Inr lines"
    by (auto simp: orderLines_def Let_def ebind_Inr_iff)
  then have "list_all2 (\<lambda>c l. buildLine c menu mods tm cu = Inr l) (cr_items d) lines" by (rule mapE_Inr)
  then have "list_all2 (\<lambda>c l. ln_menuItemId l = ct_menuItemId c \<and> ln_quantity l = ct_quantity c) (cr_items d) lines"
    by (rule list_all2_mono) (use buildLine_of_cart in blast)
  then show ?thesis
    by (induction arbitrary: n rule: list_all2_induct) (simp_all add: lineRow_def)
qed

text \<open>The rows of a new order are the ones written with it, and the answer shows it.\<close>

lemma new_items:
  assumes "db_items t = db_items s @ lineRows rt i ls n" "\<forall>x \<in> set (db_items s). oi_orderId x \<in> od_id ` set (db_orders s)"
    "i \<notin> od_id ` set (db_orders s)"
  shows "itemsOf i t = lineRows rt i ls n"
proof -
  have "filter (\<lambda>x. oi_orderId x = i) (lineRows rt i ls n) = lineRows rt i ls n"
    by (rule filter_True) (use lineRows_order in blast)
  moreover have "filter (\<lambda>x. oi_orderId x = i) (db_items s) = []"
    using assms(2,3) by (auto simp: filter_empty_conv)
  ultimately show ?thesis by (simp add: itemsOf_def assms(1))
qed

lemma new_view:
  assumes "getOrder b (od_id r) t = Inr v" "db_orders t = db_orders s @ [r]" "od_id r \<notin> od_id ` set (db_orders s)"
  shows "ov_order v = r"
proof -
  have "findOrder b (od_id r) t = Some (ov_order v)" using assms(1) by (auto simp: getOrder_def split: option.splits)
  then have m: "ov_order v \<in> set (db_orders t)" "od_id (ov_order v) = od_id r" using findOrder_row by blast+
  have "ov_order v \<notin> set (db_orders s)" using assms(3) m(2) by (metis image_eqI)
  with m(1) show ?thesis by (simp add: assms(2))
qed

text \<open>C30: a successful \<open>createOrder\<close> adds exactly one order, open, unpaid and with the acceptance the branch
  asks for, whose lines are the cart's entries one for one with their quantities; its subtotal and total are
  the sum of its line totals; and it is sent to the kitchen at once exactly when it needs no acceptance, is
  not scheduled for later and is not a past sale.\<close>

theorem created_order:
  assumes "createOrder cfg rt b u d opts s = Inr (v, t)" "orderLines cfg b d opts s = Inr lines"
    "map (\<lambda>l. lineTotal (ln_priced l)) lines = map cents ns" "sum_ok ns"
    "\<forall>x \<in> set (db_items s). oi_orderId x \<in> od_id ` set (db_orders s)"
  shows "\<exists>r. db_orders t = db_orders s @ [r] \<and> ov_order v = r \<and> od_status r = OPEN \<and>
    od_acceptance r = acceptanceFor cfg b opts \<and> db_payments t = db_payments s \<and>
    list_all2 (\<lambda>c i. oi_menuItemId i = ct_menuItemId c \<and> oi_quantity i = ct_quantity c) (cr_items d) (itemsOf (od_id r) t) \<and>
    od_subtotal r = lineSum (itemsOf (od_id r) t) \<and> od_totalAmount r = lineSum (itemsOf (od_id r) t) \<and>
    db_kots t = db_kots s @ (if sendsAtOnce rt r (op_historical opts \<noteq> None)
      then kotRows rt (od_id r) (itemsByStation cfg (itemsOf (od_id r) t)) (db_next s + 1 + length lines)
             (length (kotsOf (od_id r) s) + 1)
      else [])"
  using assms(1)
proof (rule createOrder_InrE)
  fix lines' delivery r s1
  assume l': "orderLines cfg b d opts s = Inr lines'"
    and r: "r = newOrder (rt_ids rt (db_next s)) rt b u d opts (acceptanceFor cfg b opts) (linesTotals lines') delivery
           (nextOrderNumber rt b s)"
    and tx: "createOrderTx cfg rt r lines' (op_historical opts \<noteq> None) (s\<lparr>db_next := db_next s + 1\<rparr>) = Inr s1"
    and t: "t = (if op_historical opts \<noteq> None then s1 else emit [OrderCreated (od_id r) (acceptanceFor cfg b opts)] s1)"
    and v: "getOrder b (od_id r) t = Inr v"
  have ll: "lines' = lines" using l' assms(2) by simp
  let ?rows = "lineRows rt (od_id r) lines (db_next s + 1)"
  from tx obtain s2 where new: "od_id r \<notin> od_id ` set (db_orders s)"
    and s2: "occupyTable rt (od_tableId r) (op_historical opts \<noteq> None) (s\<lparr>db_orders := db_orders s @ [r],
       db_items := db_items s @ ?rows, db_next := db_next s + 1 + length lines\<rparr>) = Inr s2"
    and s1: "s1 = (if sendsAtOnce rt r (op_historical opts \<noteq> None) then generateKots cfg rt (od_id r) ?rows s2 else s2)"
    by (rule createOrderTx_InrE) (simp add: ll)
  note f = occupyTable_frame[OF s2]
  have o: "db_orders t = db_orders s @ [r]" and p: "db_payments t = db_payments s" and i: "db_items t = db_items s @ ?rows"
    using f by (simp_all add: t s1 frame)
  have items: "itemsOf (od_id r) t = ?rows" by (rule new_items[OF i assms(5) new])
  have vr: "ov_order v = r" by (rule new_view[OF v o new])
  have st: "od_status r = OPEN" "od_acceptance r = acceptanceFor cfg b opts" by (simp_all add: r newOrder_def)
  have am: "od_subtotal r = to_column 100 (subtotal (linesTotals lines))" "od_totalAmount r = to_column 100 (subtotal (linesTotals lines))"
    by (simp_all add: r newOrder_def ll)
  have sum: "to_column 100 (subtotal (linesTotals lines)) = lineSum ?rows" by (rule new_subtotal[OF assms(3,4)])
  have la: "list_all2 (\<lambda>c i. oi_menuItemId i = ct_menuItemId c \<and> oi_quantity i = ct_quantity c) (cr_items d) ?rows"
    by (rule rows_of_cart[OF assms(2)])
  have k: "db_kots t = db_kots s @ (if sendsAtOnce rt r (op_historical opts \<noteq> None)
      then kotRows rt (od_id r) (itemsByStation cfg ?rows) (db_next s + 1 + length lines) (length (kotsOf (od_id r) s) + 1)
      else [])"
    using f by (simp add: t s1 frame generateKots_state Let_def kotsOf_def)
  show ?thesis
    by (rule exI[of _ r], unfold items am sum, intro conjI, rule o, rule vr, rule st, rule st, rule p, rule la,
        rule refl, rule refl, rule k)
qed

definition sample_cart :: create_order_dto where
  "sample_cart = \<lparr>cr_type = TAKEAWAY, cr_tableId = None, cr_guestCount = None, cr_customerId = None, cr_guestName = None,
     cr_notes = None, cr_delivery = None, cr_scheduledFor = None,
     cr_items = [\<lparr>ct_menuItemId = ''juice'', ct_quantity = 2, ct_kitchenNote = None, ct_modifierIds = [], ct_portion = None,
                  ct_customPrice = None, ct_customLabel = None\<rparr>]\<rparr>"

definition sample_options :: create_options where
  "sample_options = \<lparr>op_channel = STAFF, op_requireAcceptance = False, op_origin = no_origin, op_minOrderAmount = None,
     op_priceAdjust = None, op_historical = None\<rparr>"

lemma sample_orderLines:
  "\<exists>lines. orderLines sample_config ''b'' sample_cart sample_options sample_db = Inr lines \<and>
     map (\<lambda>l. lineTotal (ln_priced l)) lines = map cents [10000]"
proof -
  have p: "lineTotal (priceLine \<lparr>quantity = 2, unitPriceInclusive = cents 5000, taxRatePercent = r\<rparr>) = cents 10000" for r
    using priceLine_total_exact[of 5000 2 r] by (simp add: in_range_def)
  have u: "round2 (fadd (cents 5000) (fsum [])) = cents 5000"
    using round2_fsum_cents[of "[5000]"] by (simp add: fsum_def fadd_def sum_ok_def in_range_def)
  show ?thesis
    by (simp add: orderLines_def sample_cart_def sample_options_def menuItemsFor_def modifiersFor_def
        validateModifierSelections_def assertTableOfBranch_def assertCustomerOfBranch_def present_def buildLine_def portionOf_def
        saleItem_def adjustOnlinePrice_def getBranchTaxMode_def branchOf_def toEffectiveInclusiveUnitPrice_def sample_config_def
        sample_branch_def sample_item_def in_range_def p u Let_def)
qed

lemma sample_create: "\<exists>v t. createOrder sample_config sample_runtime ''b'' ''ann'' sample_cart sample_options sample_db = Inr (v, t)"
proof -
  obtain lines where l: "orderLines sample_config ''b'' sample_cart sample_options sample_db = Inr lines"
    using sample_orderLines by blast
  have n: "nextOrderNumber sample_runtime ''b'' sample_db = ''260101-0005''" by code_simp
  have i: "freshId sample_runtime sample_db = (''id0'', sample_db\<lparr>db_next := 1\<rparr>)"
  proof -
    have "rt_ids sample_runtime 0 = ''id0''" by code_simp
    then show ?thesis by (simp add: freshId_def sample_db_def)
  qed
  let ?r = "newOrder ''id0'' sample_runtime ''b'' ''ann'' sample_cart sample_options NOT_REQUIRED (linesTotals lines) (None, 0) ''260101-0005''"
  have "\<not> list_ex (orderClash ?r) (db_orders sample_db)"
    by (simp add: sample_db_def orderClash_def newOrder_def sample_order_def sample_options_def no_origin_def)
  then have "\<exists>t. createOrderTx sample_config sample_runtime ?r lines False (sample_db\<lparr>db_next := 1\<rparr>) = Inr t \<and>
      db_orders t = db_orders sample_db @ [?r]"
    by (simp add: createOrderTx_def insertOrder_def Let_def insertLines_def occupyTable_def present_def frame newOrder_def sample_cart_def)
  then obtain t where t: "createOrderTx sample_config sample_runtime ?r lines False (sample_db\<lparr>db_next := 1\<rparr>) = Inr t"
    and o: "db_orders t = db_orders sample_db @ [?r]" by blast
  have f: "find (\<lambda>x. od_id x = ''id0'' \<and> od_branchId x = ''b'') (db_orders sample_db @ [?r]) = Some ?r"
    by (simp add: sample_db_def sample_order_def newOrder_def)
  have sel: "op_requireAcceptance sample_options = False" "op_minOrderAmount sample_options = None"
    "op_historical sample_options = None" "cr_type sample_cart = TAKEAWAY" "cr_scheduledFor sample_cart = None"
    by (simp_all add: sample_options_def sample_cart_def)
  have acc: "acceptanceFor sample_config ''b'' sample_options = NOT_REQUIRED" by (simp add: acceptanceFor_def sel)
  show ?thesis
    using t f by (simp add: createOrder_def l i n acc assertMinOrder_def deliveryFor_def scheduleFor_def sel
        getOrder_def findOrder_def o frame Let_def)
qed

theorem created_order_witness:
  "\<exists>v t. createOrder sample_config sample_runtime ''b'' ''ann'' sample_cart sample_options sample_db = Inr (v, t) \<and>
     od_totalAmount (ov_order v) = lineSum (itemsOf (od_id (ov_order v)) t) \<and> od_status (ov_order v) = OPEN"
proof -
  obtain lines where l: "orderLines sample_config ''b'' sample_cart sample_options sample_db = Inr lines"
    "map (\<lambda>l. lineTotal (ln_priced l)) lines = map cents [10000]" using sample_orderLines by blast
  obtain v t where c: "createOrder sample_config sample_runtime ''b'' ''ann'' sample_cart sample_options sample_db = Inr (v, t)"
    using sample_create by blast
  have fk: "\<forall>x \<in> set (db_items sample_db). oi_orderId x \<in> od_id ` set (db_orders sample_db)"
    by (simp add: sample_db_def sample_order_def sample_line_def)
  show ?thesis using created_order[OF c l _ fk] c by (auto simp: sum_ok_def)
qed

end
