(* ===== verification/Order_Kitchen.thy ===== *)
theory Order_Kitchen
  imports Order_Races Order_Bills "HOL-Library.Multiset"
begin

text \<open>
  The kitchen's view of an order: how its lines are put on tickets, that tickets only move as the kitchen
  state machine allows whatever handler runs, what cancelling does to them, and that food the kitchen has
  started stays on the bill.
\<close>

section \<open>Lines on tickets\<close>

lemma addToStation_mset:
  "mset (concat (map snd (addToStation st i m))) = add_mset i (mset (concat (map snd m)))"
  by (induction m) auto

lemma itemsByStation_mset: "mset (concat (map snd (itemsByStation cfg items))) = mset items"
proof -
  have "mset (concat (map snd (foldl (\<lambda>m i. addToStation (stationOf cfg i) i m) m items))) =
      mset (concat (map snd m)) + mset items" for m
    by (induction items arbitrary: m) (simp_all add: addToStation_mset)
  then show ?thesis by (simp add: itemsByStation_def)
qed

lemma kotItemRows_items: "map ki_orderItemId (kotItemRows rt gs n) = map oi_id (concat (map snd gs))"
  by (induction gs arbitrary: n) (auto simp: comp_def)

lemma kotRows_numbers:
  "map kt_ticketNumber (kotRows rt i gs n seq) = map (\<lambda>j. last6 i @ ''-'' @ nat_str j) [seq..<seq + length gs]"
proof (induction gs arbitrary: n seq)
  case (Cons g gs)
  have "[seq..<seq + length (g # gs)] = seq # [seq + 1..<seq + 1 + length gs]" by (simp add: upt_rec)
  then show ?case using Cons.IH[of "n + 1" "seq + 1"] by (simp add: kotRow_def)
qed simp

lemma distinct_numbers: "distinct (map (\<lambda>j. p @ ''-'' @ nat_str j) [a..<b])"
  by (rule distinct_map[THEN iffD2]) (simp add: inj_on_def nat_str_inj)

lemma length_kotRows [simp]: "length (kotRows rt i gs n seq) = length gs"
  by (induction gs arbitrary: n seq) simp_all

lemma kotRows_stations: "map kt_stationId (kotRows rt i gs n seq) = map fst gs"
  by (induction gs arbitrary: n seq) (simp_all add: kotRow_def)

lemma kotRows_order: "k \<in> set (kotRows rt i gs n seq) \<Longrightarrow> kt_orderId k = i \<and> kt_status k = NEW"
  by (induction gs arbitrary: n seq) (auto simp: kotRow_def)

lemma kotItemRows_ticket:
  "x \<in> set (kotItemRows rt gs n) \<Longrightarrow> \<exists>k \<in> set (kotRows rt i gs n seq). \<exists>st is. (st, is) \<in> set gs \<and> kt_id k = ki_kotId x \<and>
     kt_stationId k = st \<and> (\<exists>l \<in> set is. oi_id l = ki_orderItemId x)"
proof (induction gs arbitrary: n seq)
  case (Cons g gs)
  show ?case
  proof (cases "x \<in> set (kotItemRows rt gs (n + 1))")
    case True
    from Cons.IH[OF this, of "seq + 1"] show ?thesis by (simp only: kotRows.simps list.set) blast
  next
    case False
    then obtain l where "l \<in> set (snd g)" "x = \<lparr>ki_kotId = rt_ids rt n, ki_orderItemId = oi_id l, ki_status = NEW\<rparr>"
      using Cons.prems by auto
    then show ?thesis by (cases g) (auto simp: kotRow_def)
  qed
qed simp

text \<open>The tickets of an order are numbered within their count.\<close>

definition numbered :: "string \<Rightarrow> db \<Rightarrow> bool" where
  "numbered i s \<longleftrightarrow> distinct (map kt_ticketNumber (kotsOf i s)) \<and>
     (\<forall>k \<in> set (kotsOf i s). \<forall>n. kt_ticketNumber k = last6 i @ ''-'' @ nat_str n \<longrightarrow> n \<le> length (kotsOf i s))"

text \<open>Every entry of a new ticket is a line of the items, on the ticket of the line's station.\<close>

lemma generated_entries:
  assumes "x \<in> set (kotItemRows rt (itemsByStation cfg items) n)"
  shows "\<exists>k \<in> set (kotRows rt i (itemsByStation cfg items) n m). \<exists>l \<in> set items. kt_id k = ki_kotId x \<and>
    oi_id l = ki_orderItemId x \<and> kt_stationId k = stationOf cfg l"
proof -
  from kotItemRows_ticket[OF assms, of i m] obtain kk st ls l
    where *: "kk \<in> set (kotRows rt i (itemsByStation cfg items) n m)" "(st, ls) \<in> set (itemsByStation cfg items)"
      "kt_id kk = ki_kotId x" "kt_stationId kk = st" "l \<in> set ls" "oi_id l = ki_orderItemId x" by blast
  from *(2) have "ls = filter (\<lambda>i. stationOf cfg i = st) items" by (simp add: itemsByStation_groups)
  then have "l \<in> set items" "stationOf cfg l = st" using *(5) by auto
  then show ?thesis using * by blast
qed

text \<open>Numbers go on where the order's tickets ended.\<close>

lemma numbered_append:
  assumes num: "numbered i s" and ks: "kotsOf i t = kotsOf i s @ new" and len: "length new = g"
    and nums: "map kt_ticketNumber new = map (\<lambda>j. last6 i @ ''-'' @ nat_str j)
      [length (kotsOf i s) + 1..<length (kotsOf i s) + 1 + g]"
  shows "numbered i t"
proof -
  let ?n = "length (kotsOf i s)"
  have new: "\<exists>j. ?n < j \<and> j \<le> ?n + g \<and> kt_ticketNumber b = last6 i @ ''-'' @ nat_str j" if "b \<in> set new" for b
  proof -
    have "kt_ticketNumber b \<in> set (map kt_ticketNumber new)" by (simp only: set_map) (rule imageI[OF that])
    then obtain j where "j \<in> set [?n + 1..<?n + 1 + g]" "kt_ticketNumber b = last6 i @ ''-'' @ nat_str j"
      unfolding nums by (simp only: set_map) blast
    then show ?thesis by (intro exI[of _ j]) auto
  qed
  have old: "n \<le> ?n" if "a \<in> set (kotsOf i s)" "kt_ticketNumber a = last6 i @ ''-'' @ nat_str n" for a n
    using num that unfolding numbered_def by blast
  have "distinct (map kt_ticketNumber new)" unfolding nums by (rule distinct_numbers)
  moreover have "kt_ticketNumber a \<noteq> kt_ticketNumber b" if "a \<in> set (kotsOf i s)" "b \<in> set new" for a b
    using new[OF that(2)] old[OF that(1)] by fastforce
  ultimately have "distinct (map kt_ticketNumber (kotsOf i t))" using num by (auto simp: ks numbered_def)
  moreover have "n \<le> length (kotsOf i t)" if "a \<in> set (kotsOf i t)" "kt_ticketNumber a = last6 i @ ''-'' @ nat_str n" for a n
  proof (cases "a \<in> set (kotsOf i s)")
    case True
    then show ?thesis using old[OF True that(2)] by (simp add: ks)
  next
    case False
    then have "a \<in> set new" using that(1) by (simp add: ks)
    then obtain j where "j \<le> ?n + g" "kt_ticketNumber a = last6 i @ ''-'' @ nat_str j" using new by blast
    then show ?thesis using that(2) by (simp add: ks len nat_str_inj)
  qed
  ultimately show ?thesis unfolding numbered_def by blast
qed

text \<open>C31: generating the tickets of an order puts every line on exactly one new ticket, the one of its
  kitchen station; each station gets at most one ticket, all of them are new ones of this order, and their
  numbers continue the order's own so that no two tickets of the order share a number.\<close>

theorem tickets_cover_lines:
  assumes "t = generateKots cfg rt i items s" "numbered i s"
  shows "\<exists>new entries. db_kots t = db_kots s @ new \<and> db_kotItems t = db_kotItems s @ entries \<and>
    mset (map ki_orderItemId entries) = mset (map oi_id items) \<and>
    (\<forall>x \<in> set entries. \<exists>k \<in> set new. \<exists>l \<in> set items. kt_id k = ki_kotId x \<and> oi_id l = ki_orderItemId x \<and>
       kt_stationId k = stationOf cfg l) \<and>
    distinct (map kt_stationId new) \<and> (\<forall>k \<in> set new. kt_orderId k = i \<and> kt_status k = NEW) \<and> numbered i t"
proof -
  let ?gs = "itemsByStation cfg items"
  let ?n = "length (kotsOf i s)"
  let ?new = "kotRows rt i ?gs (db_next s) (?n + 1)"
  let ?ent = "kotItemRows rt ?gs (db_next s)"
  have k: "db_kots t = db_kots s @ ?new" and e: "db_kotItems t = db_kotItems s @ ?ent"
    by (simp_all add: assms(1) generateKots_state Let_def)
  have m: "mset (map ki_orderItemId ?ent) = mset (map oi_id items)"
    by (simp only: kotItemRows_items mset_map itemsByStation_mset)
  have d: "distinct (map kt_stationId ?new)" by (simp only: kotRows_stations itemsByStation_groups(1))
  have own: "\<forall>k \<in> set ?new. kt_orderId k = i \<and> kt_status k = NEW" using kotRows_order by blast
  have "filter (\<lambda>k. kt_orderId k = i) ?new = ?new" by (rule filter_True) (use own in blast)
  then have ks: "kotsOf i t = kotsOf i s @ ?new"
    by (simp only: kotsOf_def[of i t] k filter_append) (simp only: kotsOf_def[of i s, symmetric])
  have "length ?new = length ?gs" by simp
  then have nk: "numbered i t" by (rule numbered_append[OF assms(2) ks _ kotRows_numbers])
  have st: "\<forall>x \<in> set ?ent. \<exists>k \<in> set ?new. \<exists>l \<in> set items. kt_id k = ki_kotId x \<and> oi_id l = ki_orderItemId x \<and>
       kt_stationId k = stationOf cfg l" by (rule ballI) (rule generated_entries)
  show ?thesis by (intro exI conjI, rule k, rule e, rule m, rule st, rule d, rule own, rule nk)
qed

theorem tickets_cover_lines_witness:
  "\<exists>new. db_kots (generateKots sample_config sample_runtime ''open1'' (itemsOf ''open1'' sample_db) sample_db) =
      db_kots sample_db @ new \<and> length new = 2 \<and>
    numbered ''open1'' (generateKots sample_config sample_runtime ''open1'' (itemsOf ''open1'' sample_db) sample_db)"
proof -
  have l: "last6 ''open1'' = ''open1''" by code_simp
  have k: "kotsOf ''open1'' sample_db =
      [sample_kot ''k1'' ''open1'' ''bar'' ''open1-1'' NEW, sample_kot ''k2'' ''open1'' ''grill'' ''open1-2'' NEW]"
    by (simp add: kotsOf_def sample_db_def sample_kot_def)
  have "''1'' = nat_str 1" "''2'' = nat_str 2" by code_simp+
  then have e: "''1'' = nat_str n \<longleftrightarrow> 1 = n" "''2'' = nat_str n \<longleftrightarrow> 2 = n" for n by (metis nat_str_inj)+
  have "numbered ''open1'' sample_db"
    unfolding numbered_def k l by (auto simp: sample_kot_def e)
  from tickets_cover_lines[OF refl this, of sample_config sample_runtime "itemsOf ''open1'' sample_db"]
  obtain new where n: "db_kots (generateKots sample_config sample_runtime ''open1'' (itemsOf ''open1'' sample_db) sample_db) =
      db_kots sample_db @ new"
    and m: "numbered ''open1'' (generateKots sample_config sample_runtime ''open1'' (itemsOf ''open1'' sample_db) sample_db)" by blast
  have "length (db_kots (generateKots sample_config sample_runtime ''open1'' (itemsOf ''open1'' sample_db) sample_db)) = 4"
    by code_simp
  moreover have "length (db_kots sample_db) = 2" by code_simp
  ultimately have "length new = 2" using n by (metis add_diff_cancel_left' length_append numeral_Bit0)
  with n m show ?thesis by blast
qed

section \<open>Tickets move as the machine allows\<close>

text \<open>Every ticket of the first state is in the second one, its status reached by steps of the machine.\<close>

definition tickets_lawful :: "db \<Rightarrow> db \<Rightarrow> bool" where
  "tickets_lawful s t \<longleftrightarrow> (\<forall>k \<in> set (db_kots s). \<exists>k' \<in> set (db_kots t).
     kt_id k' = kt_id k \<and> kot_step\<^sup>*\<^sup>* (kt_status k) (kt_status k'))"

lemma lawful_trans: "tickets_lawful s t \<Longrightarrow> tickets_lawful t u \<Longrightarrow> tickets_lawful s u"
  unfolding tickets_lawful_def by (metis rtranclp_trans)

lemma lawful_prefix: "prefix (db_kots s) (db_kots t) \<Longrightarrow> tickets_lawful s t"
  using set_mono_prefix by (fastforce simp: tickets_lawful_def)

lemma lawful_same: "db_kots t = db_kots s \<Longrightarrow> tickets_lawful s t"
  by (simp add: lawful_prefix)

lemma lawful_upd:
  assumes "db_kots t = upd_where P f (db_kots s)"
    "\<And>k. P k \<Longrightarrow> kt_id (f k) = kt_id k \<and> kot_step\<^sup>*\<^sup>* (kt_status k) (kt_status (f k))"
  shows "tickets_lawful s t"
  unfolding tickets_lawful_def
proof
  fix k assume k: "k \<in> set (db_kots s)"
  have "(if P k then f k else k) \<in> set (db_kots t)" using k by (auto simp: assms(1) upd_where_def)
  then show "\<exists>k' \<in> set (db_kots t). kt_id k' = kt_id k \<and> kot_step\<^sup>*\<^sup>* (kt_status k) (kt_status k')"
    by (rule bexI[rotated]) (simp add: assms(2))
qed

lemma cancel_lawful: "kt_status k \<notin> {SERVED, CANCELLED, REJECTED} \<Longrightarrow> kot_step\<^sup>*\<^sup>* (kt_status k) CANCELLED"
  by (rule r_into_rtranclp) (cases "kt_status k"; simp add: canTransitionKot_step[symmetric] canTransitionKot_def)

text \<open>The handlers that neither delete an order nor empty a ticket by removing its last line.\<close>

definition keeps_lines :: "config \<Rightarrow> db \<Rightarrow> db \<Rightarrow> bool" where
  "keeps_lines cfg s t \<longleftrightarrow> order_step cfg s t \<and> \<not> (\<exists>b i it v. removeOrderItem b i it s = Inr (v, t)) \<and>
     \<not> (\<exists>b role ok ids n. deleteFinishedOrders b role ok ids s = Inr (n, t))"

lemma releaseAll_kots: "prefix (db_kots s) (db_kots (fold (releaseOne cfg rt) ds s))"
proof (induction ds arbitrary: s)
  case (Cons d ds)
  have "prefix (db_kots s) (db_kots (releaseOne cfg rt d s))"
    by (cases d) (simp add: releaseOne_def frame generateKots_state Let_def)
  then show ?case using Cons.IH[of "releaseOne cfg rt d s"] by (auto intro: prefix_order.trans)
qed simp

lemma step_lawful: "keeps_lines cfg s t \<Longrightarrow> tickets_lawful s t"
proof -
  assume a: "keeps_lines cfg s t"
  then have "order_step cfg s t" by (simp add: keeps_lines_def)
  then show ?thesis
  proof cases
    case (create rt b u d opts v)
    then show ?thesis
    proof (rule createOrder_InrE)
      fix lines delivery r s1
      assume tx: "createOrderTx cfg rt r lines (op_historical opts \<noteq> None) (s\<lparr>db_next := db_next s + 1\<rparr>) = Inr s1"
        and t: "t = (if op_historical opts \<noteq> None then s1 else emit [OrderCreated (od_id r) (acceptanceFor cfg b opts)] s1)"
      from tx have "prefix (db_kots s) (db_kots s1)"
        by (rule createOrderTx_InrE) (auto simp: generateKots_state Let_def dest!: occupyTable_frame split: if_splits)
      then show ?thesis using t by (intro lawful_prefix) (simp add: frame)
    qed
  next
    case (add rt b i items ao v)
    then show ?thesis
      by (rule addItems_InrE) (intro lawful_prefix, simp add: frame generateKots_state Let_def)
  next
    case (accept rt b i u v)
    then show ?thesis
      by (rule acceptOrder_InrE)
         (intro lawful_prefix, auto simp: acceptWrite_def Let_def frame generateKots_state split: if_splits)
  next
    case (withdraw rt b i u wo v)
    then show ?thesis
    proof (rule withdrawOrder_InrE)
      fix r assume "withdrawWrite rt u wo r s = Inr t"
      then show ?thesis
        by (rule withdrawWrite_InrE)
           (rule lawful_upd[where P = "liveKot (od_id r)" and f = "\<lambda>k. k\<lparr>kt_status := CANCELLED\<rparr>"],
            auto simp: frame emitOrderWithdrawn_def liveKot_def cancel_lawful dest!: releaseTable_frame)
    qed
  next
    case (edit rt b i ud v)
    then show ?thesis by (rule updateOrder_InrE) (auto dest!: updateOrderWrite_frame intro: lawful_same)
  next
    case (lower b i it q v)
    then show ?thesis
      by (rule updateOrderItem_InrE) (auto simp: updateLineWrite_Inr lineEvents_def frame intro!: lawful_same)
  next
    case (merge rt b i j v)
    then obtain x y where w: "mergeWrite rt (x, y) s = Inr t" by (auto simp: mergeOrders_def ebind_Inr_iff)
    show ?thesis
      by (rule lawful_upd[where P = "\<lambda>k. kt_orderId k = od_id y" and f = "\<lambda>k. k\<lparr>kt_orderId := od_id x\<rparr>"])
         (use mergeWrite_frame[OF w] in \<open>simp_all add: mergedState_def frame\<close>)
  next
    case (move_ticket rt b k st w x)
    then show ?thesis
    proof (rule updateKotStatus_InrE)
      fix k assume k: "canTransitionKot (kt_status k) st" and w: "kotWrite rt st w k s = Inr (x, t)"
      show ?thesis
        by (rule lawful_upd[where P = "\<lambda>y. kt_id y = kt_id k \<and> kt_status y = kt_status k" and f = "stampKot rt st w"])
           (use kotWrite_frame[OF w] k in \<open>auto simp: stampKot_def canTransitionKot_step\<close>)
    qed (simp add: lawful_same)
  next
    case (prioritise b k pr x)
    then show ?thesis
      by (intro lawful_upd[where P = "\<lambda>x. kt_id x = k" and f = "\<lambda>x. x\<lparr>kt_isPriority := pr\<rparr>"]) (auto simp: setKotPriority_Inr frame)
  next
    case (reject rt b k u inp x)
    then show ?thesis
    proof (rule rejectKot_InrE)
      fix k r ol li assume c: "canTransitionKot (kt_status k) REJECTED"
        and w: "rejectWrite rt u (trim (rj_reason inp)) \<lparr>rp_kot = k, rp_order = r, rp_otherLive = ol, rp_lineIds = li\<rparr> s = Inr t"
      from w have "db_kots t = db_kots (markRejected rt u (trim (rj_reason inp)) k s)"
        by (rule rejectWrite_InrE)
           (auto simp: frame split: if_splits elim!: rejectWithdraw_Inr dest!: releaseTable_frame)
      then show ?thesis
        by (intro lawful_upd[where P = "\<lambda>x. kt_id x = kt_id k \<and> kt_status x = kt_status k" and
              f = "\<lambda>x. x\<lparr>kt_status := REJECTED, kt_rejected := Some (rt_now rt, u, trim (rj_reason inp))\<rparr>"])
           (use c in \<open>auto simp: frame canTransitionKot_step\<close>)
    qed (simp add: lawful_same)
  next
    case (pay rt b i u co cap y)
    then show ?thesis
    proof (cases rule: checkout_InrE)
      case (proceed p)
      from proceed(2) show ?thesis
      proof (cases rule: checkoutWrite_InrE)
        case (committed br st skips s1)
        from committed(2) have "db_kots s1 = db_kots s" by (rule checkoutTx_frame) simp
        then show ?thesis using checkoutDone_frame[OF committed(3)] by (intro lawful_same) simp
      qed (simp add: lawful_same)
    qed (simp add: lawful_same)
  next
    case (give_back rt b i u rd z)
    then show ?thesis by (rule refund_InrE) (auto simp: frame dest!: refundTx_frame intro!: lawful_same)
  next
    case (release rt n)
    then show ?thesis using a by (auto simp: releaseDueScheduledOrders_def Let_def intro: lawful_prefix releaseAll_kots)
  qed (use a in \<open>auto simp: keeps_lines_def\<close>)
qed


lemma removeOrderItem_events:
  "removeOrderItem b i it s = Inr (v, t) \<Longrightarrow> db_events t = db_events s @ [OrderUpdated i None, KotUpdated i]"
  by (rule removeOrderItem_InrE, assumption) (simp add: removeLineWrite_Inr lineEvents_def frame)

lemma delete_events:
  "deleteFinishedOrders b role ok ids s = Inr (n, t) \<Longrightarrow> db_events t = db_events s @ [OrderDeleted (uniq ids)]"
  by (rule deleteFinishedOrders_InrE, assumption) (simp add: frame fold_audit)


text \<open>
  A removal is the exception: it cancels every empty ticket of the order that is not cancelled yet, also one
  that was rejected, whose lines had gone with the rejection.
\<close>

definition rejected_db :: db where
  "rejected_db = sample_db\<lparr>db_kots := [sample_kot ''k1'' ''open1'' ''bar'' ''open1-1'' REJECTED,
       sample_kot ''k2'' ''open1'' ''grill'' ''open1-2'' NEW],
     db_kotItems := [\<lparr>ki_kotId = ''k2'', ki_orderItemId = ''i2'', ki_status = NEW\<rparr>,
                     \<lparr>ki_kotId = ''k2'', ki_orderItemId = ''i3'', ki_status = NEW\<rparr>]\<rparr>"

lemma rejected_ticket_overwritten:
  "\<exists>v t. removeOrderItem ''b'' ''open1'' ''i2'' rejected_db = Inr (v, t) \<and>
     map kt_status (db_kots rejected_db) = [REJECTED, NEW] \<and> map kt_status (db_kots t) = [CANCELLED, NEW]"
proof -
  let ?d = "deleteLines (\<lambda>x. x = ''i2'') rejected_db"
  let ?u = "updKots (emptyKot ''open1'' ?d) (\<lambda>k. k\<lparr>kt_status := CANCELLED\<rparr>) ?d"
  let ?t = "lineEvents ''order.item_removed'' ''open1'' (recomputeTotals ''open1'' ?u)"
  have "billLine ''b'' ''open1'' ''i2'' rejected_db = Inr (sample_line ''i2'' ''open1'' ''tea'' 2 20000)" by code_simp
  moreover have "length (itemsOf ''open1'' rejected_db) \<noteq> 1" "\<not> lineStarted ''i2'' rejected_db"
    "0 < count_where (\<lambda>x. oi_id x = ''i2'') (db_items rejected_db)" by code_simp+
  ultimately obtain v where r: "removeOrderItem ''b'' ''open1'' ''i2'' rejected_db = Inr (v, ?t)"
    using removeOrderItem_ok by meson
  have "map kt_status (db_kots ?t) = map kt_status (db_kots ?u)" by (simp add: lineEvents_def frame)
  also have "\<dots> = [CANCELLED, NEW]" by code_simp
  finally have t: "map kt_status (db_kots ?t) = [CANCELLED, NEW]" .
  have s: "map kt_status (db_kots rejected_db) = [REJECTED, NEW]" by code_simp
  show ?thesis by (intro exI conjI, rule r, rule s, rule t)
qed

section \<open>Cancelling and the kitchen\<close>

lemma served_iff: "SERVED \<in> kt_status ` S \<longleftrightarrow> (\<exists>k \<in> S. kt_status k = SERVED)"
  unfolding image_iff by metis

lemma withdrawRead_Inr:
  assumes "withdrawRead b i opts s = Inr r"
  shows "findOrder b i s = Some r \<and> od_status r = OPEN \<and> paymentsOf i s = [] \<and>
    (\<forall>k \<in> set (kotsOf i s). kt_status k \<noteq> SERVED) \<and>
    (wo_confirmStarted opts \<or> (\<forall>k \<in> set (kotsOf i s). kt_status k \<notin> set KOT_STARTED_STATUSES)) \<and>
    (trimmedReason (wo_reason opts) = None \<longrightarrow> (\<forall>k \<in> set (kotsOf i s). kt_status k \<in> {NEW, CANCELLED}))"
  using assms by (auto simp: withdrawRead_def Let_def list_ex_iff served_iff split: option.splits if_splits)



section \<open>Food the kitchen has started\<close>

text \<open>A line the kitchen has started cannot be corrected: lowering its quantity and removing it are
  refused with the conflict, on a bill that could otherwise be edited, and the state does not change.\<close>

lemma started_line_refused:
  assumes "lineStarted it s" "billLine b i it s = Inr l" "0 < q" "q < oi_quantity l" "length (itemsOf i s) \<noteq> 1"
  shows "updateOrderItem b i it q s =
      Inl (Conflict ''The kitchen has already started this item - it can no longer be changed here'') \<and>
    removeOrderItem b i it s =
      Inl (Conflict ''The kitchen has already started this item - it can no longer be changed here'')"
proof -
  have "oi_id l = it" using assms(2) by (auto simp: billLine_Inr dest: find_SomeD)
  then show ?thesis using assms
    by (simp add: updateOrderItem_def removeOrderItem_def updateLineWrite_def removeLineWrite_def assertLineNotStarted_def)
qed

lemma started_line_refused_witness:
  "updateOrderItem ''b'' ''open1'' ''i2'' 1 (updKots (\<lambda>k. kt_id k = ''k1'') (\<lambda>k. k\<lparr>kt_status := PREPARING\<rparr>) sample_db) =
     Inl (Conflict ''The kitchen has already started this item - it can no longer be changed here'')"
proof -
  let ?s = "updKots (\<lambda>k. kt_id k = ''k1'') (\<lambda>k. k\<lparr>kt_status := PREPARING\<rparr>) sample_db"
  have 1: "lineStarted ''i2'' ?s" by code_simp
  have 2: "billLine ''b'' ''open1'' ''i2'' ?s = Inr (sample_line ''i2'' ''open1'' ''tea'' 2 20000)" by code_simp
  have 3: "length (itemsOf ''open1'' ?s) \<noteq> 1" by code_simp
  show ?thesis using started_line_refused[OF 1 2 _ _ 3, of 1] by (simp add: sample_line_def)
qed

end
