(* ===== verification/Order_Numbers.thy ===== *)
theory Order_Numbers
  imports Order_Samples
begin

text \<open>
  The order numbers of a branch and day: the next one is read from the greatest number in string order,
  which agrees with the numeric order as long as the counter has four digits.
\<close>

section \<open>String order and numeric order\<close>

lemma str_nat_Cons: "str_nat (c # s) = digit_val c * 10 ^ length s + str_nat s"
proof (induction s rule: rev_induct)
  case (snoc d s)
  have "str_nat (c # s @ [d]) = 10 * str_nat (c # s) + digit_val d" using str_nat_snoc[of "c # s" d] by simp
  then show ?case using snoc by (simp add: str_nat_snoc)
qed (simp add: str_nat_def)

lemma digit_val_less: "is_digit c \<Longrightarrow> digit_val c < 10" by (auto simp: is_digit_def digit_val_def)

lemma str_nat_bound: "list_all is_digit s \<Longrightarrow> str_nat s < 10 ^ length s"
proof (induction s)
  case (Cons c s)
  then have "str_nat s < 10 ^ length s" "digit_val c \<le> 9" using digit_val_less[of c] by auto
  moreover have "digit_val c * 10 ^ length s \<le> 9 * 10 ^ length s" using calculation(2) by (rule mult_le_mono1)
  ultimately show ?case unfolding str_nat_Cons by (simp only: length_Cons power_Suc)
qed (simp add: str_nat_def)

lemma is_digit_less: "is_digit x \<Longrightarrow> is_digit y \<Longrightarrow> (of_char x :: nat) < of_char y \<longleftrightarrow> digit_val x < digit_val y"
  by (auto simp: is_digit_def digit_val_def)

lemma str_less_digits:
  "length xs = length ys \<Longrightarrow> list_all is_digit xs \<Longrightarrow> list_all is_digit ys \<Longrightarrow> str_less xs ys \<longleftrightarrow> str_nat xs < str_nat ys"
proof (induction xs ys rule: list_induct2)
  case (Cons x xs y ys)
  let ?n = "10 ^ length ys :: nat"
  have b: "str_nat xs < ?n" "str_nat ys < ?n" using str_nat_bound[of xs] str_nat_bound[of ys] Cons by auto
  consider "digit_val x < digit_val y" | "digit_val x = digit_val y" | "digit_val y < digit_val x" by linarith
  then show ?case
  proof cases
    case 1
    then have "(digit_val x + 1) * ?n \<le> digit_val y * ?n" by (intro mult_le_mono1) simp
    then have "digit_val x * ?n + ?n \<le> digit_val y * ?n" by simp
    then show ?thesis using 1 Cons.prems b Cons.hyps by (simp add: str_nat_Cons is_digit_less)
  next
    case 2
    then have "x = y" using Cons.prems is_digit_less[of x y] is_digit_less[of y x] by auto
    then show ?thesis using Cons by (simp add: str_nat_Cons)
  next
    case 3
    then have "(digit_val y + 1) * ?n \<le> digit_val x * ?n" by (intro mult_le_mono1) simp
    then have "digit_val y * ?n + ?n \<le> digit_val x * ?n" by simp
    moreover have "x \<noteq> y" using 3 by auto
    ultimately show ?thesis using 3 Cons.prems b Cons.hyps by (simp add: str_nat_Cons is_digit_less)
  qed
qed (simp add: str_nat_def)

lemma str_less_append: "str_less (p @ xs) (p @ ys) = str_less xs ys"
  by (induction p) auto

section \<open>The numbers of a day\<close>

definition orderNo :: "string \<Rightarrow> nat \<Rightarrow> string" where
  "orderNo day n = day @ ''-'' @ pad_start 4 (CHR ''0'') (nat_str n)"

definition numbersOf :: "string \<Rightarrow> string \<Rightarrow> db \<Rightarrow> string list" where
  "numbersOf day b s = filter (prefix (day @ ''-'')) (map od_orderNumber (filter (\<lambda>r. od_branchId r = b) (db_orders s)))"

lemma zero_digit: "CHR ''0'' = digit 0" by code_simp

lemma pad4: "n < 10000 \<Longrightarrow> length (pad_start 4 (digit 0) (nat_str n)) = 4 \<and> list_all is_digit (pad_start 4 (digit 0) (nat_str n))"
  using length_nat_str[of 4 n] nat_str_digits[of _ n] by (auto simp: pad_start_def list_all_iff)

lemma orderNo_less: "m < 10000 \<Longrightarrow> n < 10000 \<Longrightarrow> str_less (orderNo day m) (orderNo day n) \<longleftrightarrow> m < n"
  using pad4[of m] pad4[of n] str_less_digits[of "pad_start 4 (digit 0) (nat_str m)" "pad_start 4 (digit 0) (nat_str n)"]
  by (simp add: orderNo_def str_less_append zero_digit flip: append_Cons append_assoc)

lemma greatest_orderNo:
  assumes "\<forall>n \<in> set (n0 # ns). n < 10000"
  shows "foldl (\<lambda>a b. if str_less a b then b else a) (orderNo day n0) (map (orderNo day) ns) = orderNo day (Max (set (n0 # ns)))"
  using assms
proof (induction ns arbitrary: n0)
  case (Cons n ns)
  have "(if str_less (orderNo day n0) (orderNo day n) then orderNo day n else orderNo day n0) = orderNo day (max n0 n)"
    using Cons.prems by (auto simp: orderNo_less max_def)
  moreover have "Max (set (max n0 n # ns)) = Max (set (n0 # n # ns))"
    by (cases "ns = []") (simp_all add: max.assoc max.left_commute)
  ultimately show ?case using Cons.IH[of "max n0 n"] Cons.prems by simp
qed simp

lemma sequenceOf_orderNo:
  assumes "CHR ''-'' \<notin> set day"
  shows "sequenceOf (orderNo day n) = n"
proof -
  let ?p = "pad_start 4 (CHR ''0'') (nat_str n)"
  have d: "c \<in> set ?p \<Longrightarrow> is_digit c" for c
    using nat_str_digits[of c n] by (auto simp: pad_start_def is_digit_def)
  have dash: "\<not> is_digit (CHR ''-'')" by code_simp
  have dw: "dropWhile (\<lambda>c. c \<noteq> CHR ''-'') (day @ ''-'' @ ?p) = ''-'' @ ?p"
    using assms by (induction day) auto
  have tw: "takeWhile (\<lambda>c. c \<noteq> CHR ''-'') ?p = ?p"
    by (rule takeWhile_eq_all_conv[THEN iffD2]) (use d dash in auto)
  have dr: "drop 1 (''-'' @ ?p) = ?p" by simp
  have "list_all is_digit ?p" using d by (simp add: list_all_iff)
  then show ?thesis unfolding sequenceOf_def orderNo_def dw dr tw Let_def by (simp add: zero_digit)
qed

lemma orderNo_inj: "CHR ''-'' \<notin> set d \<Longrightarrow> orderNo d m = orderNo d n \<Longrightarrow> m = n"
  using sequenceOf_orderNo by metis

text \<open>Numbers of a day as a list of sequence numbers.\<close>

lemma numbers_sequences:
  "\<forall>x \<in> set xs. \<exists>n < 9999. x = orderNo d n \<Longrightarrow> \<exists>ns. xs = map (orderNo d) ns \<and> (\<forall>n \<in> set ns. n < 9999)"
proof (induction xs)
  case (Cons x xs)
  then obtain n ns where "n < 9999" "x = orderNo d n" "xs = map (orderNo d) ns" "\<forall>n \<in> set ns. n < 9999" by auto
  then show ?case by (intro exI[of _ "n # ns"]) simp
qed simp

lemma greatest_sequence:
  assumes "CHR ''-'' \<notin> set d" "\<forall>n \<in> set ns. n < 9999"
  shows "(case greatest (map (orderNo d) ns) of None \<Rightarrow> 0 | Some x \<Rightarrow> sequenceOf x) = (if ns = [] then 0 else Max (set ns))"
proof (cases ns)
  case (Cons n0 ns')
  then have "greatest (map (orderNo d) ns) = Some (orderNo d (Max (set ns)))"
    using greatest_orderNo[of n0 ns' d] assms(2) by (fastforce simp: greatest_def)
  then show ?thesis by (simp add: Cons sequenceOf_orderNo[OF assms(1)])
qed (simp add: greatest_def)

text \<open>while the numbers a branch used on a day are counter values below 9999, the next order number is
  the one after the greatest of them, so no order of the branch has it.\<close>

lemma order_number_unused:
  assumes "CHR ''-'' \<notin> set (rt_datePart rt)"
    "\<forall>x \<in> set (numbersOf (rt_datePart rt) b s). \<exists>n < 9999. x = orderNo (rt_datePart rt) n"
  shows "nextOrderNumber rt b s \<notin> set (map od_orderNumber (filter (\<lambda>r. od_branchId r = b) (db_orders s))) \<and>
    (\<exists>n \<le> 9999. nextOrderNumber rt b s = orderNo (rt_datePart rt) n \<and>
       (\<forall>m. orderNo (rt_datePart rt) m \<in> set (numbersOf (rt_datePart rt) b s) \<longrightarrow> m < n))"
proof -
  let ?d = "rt_datePart rt"
  let ?L = "numbersOf ?d b s"
  obtain ns where ns: "?L = map (orderNo ?d) ns" "\<forall>n \<in> set ns. n < 9999" using numbers_sequences[OF assms(2)] by blast
  define top where "top = (if ns = [] then 0 else Max (set ns))"
  have le: "n \<le> top" if "n \<in> set ns" for n using that by (auto simp: top_def)
  have tb: "top < 9999" using ns(2) by (auto simp: top_def)
  have nxt: "nextOrderNumber rt b s = orderNo ?d (top + 1)"
    using greatest_sequence[OF assms(1) ns(2)]
    by (simp add: nextOrderNumber_def Let_def numbersOf_def[symmetric] orderNo_def ns(1) top_def)
  have below: "m < top + 1" if "orderNo ?d m \<in> set ?L" for m
    using that orderNo_inj[OF assms(1)] le by (fastforce simp: ns(1))
  have "nextOrderNumber rt b s \<notin> set (map od_orderNumber (filter (\<lambda>r. od_branchId r = b) (db_orders s)))"
  proof
    assume "nextOrderNumber rt b s \<in> set (map od_orderNumber (filter (\<lambda>r. od_branchId r = b) (db_orders s)))"
    then have "orderNo ?d (top + 1) \<in> set ?L" unfolding nxt numbersOf_def by (simp add: orderNo_def)
    then show False using below by blast
  qed
  then show ?thesis using nxt below tb by (intro conjI exI[of _ "top + 1"]) auto
qed

lemma order_number_unused_witness:
  "nextOrderNumber sample_runtime ''b'' sample_db \<notin> set (map od_orderNumber (db_orders sample_db))"
proof -
  have d: "CHR ''-'' \<notin> set (rt_datePart sample_runtime)" by (simp add: sample_runtime_def)
  have n: "numbersOf (rt_datePart sample_runtime) ''b'' sample_db = map (orderNo (rt_datePart sample_runtime)) [1, 2, 3, 4]"
    by code_simp
  have below: "\<forall>k \<in> set [1, 2, 3, 4 :: nat]. k < 9999" by simp
  have f: "filter (\<lambda>r. od_branchId r = ''b'') (db_orders sample_db) = db_orders sample_db"
    by (simp add: sample_db_def sample_order_def)
  have "\<forall>x \<in> set (numbersOf (rt_datePart sample_runtime) ''b'' sample_db). \<exists>n < 9999. x = orderNo (rt_datePart sample_runtime) n"
    unfolding n set_map using below by blast
  from order_number_unused[OF d this] show ?thesis by (simp add: f)
qed

text \<open>Past four digits the string order is not the numeric one: the number after 10000 is 10000 again.\<close>

lemma order_number_repeats:
  "nextOrderNumber sample_runtime ''b'' (sample_db\<lparr>db_orders :=
     [sample_order ''x'' ''260101-9999'' OPEN NOT_REQUIRED None 0, sample_order ''y'' ''260101-10000'' OPEN NOT_REQUIRED None 0]\<rparr>)
   = ''260101-10000''"
proof -
  have "char_of (of_char (CHR ''1'') :: nat) = CHR ''1''" by (rule char_of_char)
  then have "digit (Suc 0) = CHR ''1''" by (simp add: digit_def)
  moreover have "digit 0 = CHR ''0''" "digit 9 = CHR ''9''" by code_simp+
  ultimately have d: "digit (Suc 0) = CHR ''1''" "digit 0 = CHR ''0''" "digit 9 = CHR ''9''" by blast+
  have n: "nat_str 9999 = ''9999''" "nat_str 10000 = ''10000''" by (simp_all add: nat_str.simps d)
  have o: "orderNo ''260101'' 9999 = ''260101-9999''" by (simp add: orderNo_def n pad_start_def)
  have g: "greatest [''260101-9999'', ''260101-10000''] = Some ''260101-9999''" by code_simp
  have s: "sequenceOf ''260101-9999'' = 9999" using sequenceOf_orderNo[of "''260101''" 9999] by (simp add: o)
  show ?thesis
    by (simp add: nextOrderNumber_def sample_runtime_def sample_order_def Let_def g s n pad_start_def)
qed

end
