(* ===== verification/Order_Tables.thy ===== *)
theory Order_Tables
  imports Order_Races
begin

text \<open>
  Tables: whatever the handlers of the order service do, a table is freed only when no order is open on it.
\<close>

text \<open>A table that is available was so before, or has no open order.\<close>

definition tables_fair :: "db \<Rightarrow> db \<Rightarrow> bool" where
  "tables_fair s t \<longleftrightarrow> (\<forall>y \<in> set (db_tables t). tb_status y = AVAILABLE \<longrightarrow>
     (\<exists>x \<in> set (db_tables s). tb_id x = tb_id y \<and> tb_status x = AVAILABLE) \<or>
     (\<forall>r \<in> set (db_orders t). od_tableId r = Some (tb_id y) \<longrightarrow> od_status r \<noteq> OPEN))"

definition no_new_free :: "db \<Rightarrow> db \<Rightarrow> bool" where
  "no_new_free s t \<longleftrightarrow> (\<forall>y \<in> set (db_tables t). tb_status y = AVAILABLE \<longrightarrow>
     (\<exists>x \<in> set (db_tables s). tb_id x = tb_id y \<and> tb_status x = AVAILABLE))"

lemma no_new_free_fair: "no_new_free s t \<Longrightarrow> tables_fair s t" by (auto simp: no_new_free_def tables_fair_def)

lemma no_new_free_same: "db_tables t = db_tables s \<Longrightarrow> no_new_free s t" by (auto simp: no_new_free_def)

lemma occupy_no_new_free: "setTable rt i OCCUPIED s = Inr t \<Longrightarrow> no_new_free s t"
  by (auto simp: no_new_free_def frame set_upd_where)

lemma release_fair:
  assumes "releaseTableIfIdle rt tb ex s1 = Inr s2" "no_new_free s s1" "db_tables t = db_tables s2"
    "\<And>i. tb = Some i \<Longrightarrow> idleTable i ex s1 \<Longrightarrow> \<forall>r \<in> set (db_orders t). od_tableId r = Some i \<longrightarrow> od_status r \<noteq> OPEN"
  shows "tables_fair s t"
proof (rule releaseTable_cases[OF assms(1)])
  assume "s2 = s1"
  then show ?thesis using assms(2,3) by (intro no_new_free_fair) (simp add: no_new_free_def)
next
  fix i assume i: "tb = Some i" "idleTable i ex s1"
    and s2: "s2 = updTables (\<lambda>x. tb_id x = i) (\<lambda>x. x\<lparr>tb_status := AVAILABLE, tb_statusSince := rt_now rt\<rparr>) s1"
  have "tb_id y = i \<or> y \<in> set (db_tables s1)" if "y \<in> set (db_tables t)" for y
    using that by (auto simp: assms(3) s2 frame set_upd_where)
  then show ?thesis
    unfolding tables_fair_def using assms(2) assms(4)[OF i] by (auto simp: no_new_free_def)
qed

lemma closed_rows:
  assumes "keyed od_id os" "x \<in> set os" "P x" "od_id x = i" "\<And>y. P y \<Longrightarrow> od_status (f y) \<noteq> OPEN"
    "\<And>y. od_id (f y) = od_id y" "r \<in> set (upd_where P f os)" "od_id r = i"
  shows "od_status r \<noteq> OPEN"
proof -
  from assms(7) obtain y where y: "y \<in> set os" "r = (if P y then f y else y)" by (auto simp: upd_where_def)
  then have "od_id y = i" using assms(6,8) by (auto split: if_splits)
  then have "y = x" using keyed_unique[OF assms(1) y(1) assms(2)] assms(4) by simp
  then show ?thesis using y(2) assms(3,5) by simp
qed

lemma upd_where_tables:
  assumes "r \<in> set (upd_where P f os)" "\<And>y. od_tableId (f y) = od_tableId y" "\<And>y. od_id (f y) = od_id y"
    "od_status r = OPEN" "\<And>y. P y \<Longrightarrow> od_status y = OPEN"
  shows "\<exists>y \<in> set os. od_id y = od_id r \<and> od_tableId y = od_tableId r \<and> od_status y = OPEN"
  using assms by (auto simp: upd_where_def split: if_splits)

text \<open>The handlers that close an order free its table last.\<close>

lemma close_release_fair:
  assumes "releaseTableIfIdle rt tb i s1 = Inr s2" "db_tables s1 = db_tables s" "db_tables t = db_tables s2"
    "db_orders t = upd_where P f os" "db_orders s1 = os \<or> db_orders s1 = upd_where P f os"
    "keyed od_id os" "x \<in> set os" "P x" "od_id x = i" "\<And>y. P y \<Longrightarrow> od_status (f y) \<noteq> OPEN \<and> od_status y = OPEN"
    "\<And>y. od_id (f y) = od_id y" "\<And>y. od_tableId (f y) = od_tableId y"
  shows "tables_fair s t"
proof (rule release_fair[OF assms(1) no_new_free_same[OF assms(2)] assms(3)], rule ballI, intro impI notI)
  fix j r assume j: "idleTable j i s1" and r: "r \<in> set (db_orders t)" "od_tableId r = Some j" "od_status r = OPEN"
  have ne: "od_id r \<noteq> i"
  proof
    assume e: "od_id r = i"
    have "od_status r \<noteq> OPEN"
      by (rule closed_rows[where P = P and f = f and os = os and x = x and i = i,
            OF assms(6,7,8,9) conjunct1[OF assms(10)] assms(11) r(1)[unfolded assms(4)] e])
    then show False using r(3) by simp
  qed
  have "r \<in> set os" using r(1,3) assms(10) by (auto simp: assms(4) upd_where_def split: if_splits)
  moreover have "r \<in> set (upd_where P f os)" using r(1) assms(4) by simp
  ultimately show False using j r(2,3) ne assms(5) by (auto simp: idleTable_def)
qed

lemma withdraw_fair:
  assumes "withdrawWrite rt u opts r s = Inr t" "keyed od_id (db_orders s)"
  shows "tables_fair s t"
  using assms(1)
proof (rule withdrawWrite_InrE, goal_cases)
  case (1 s1)
  obtain x where x: "x \<in> set (db_orders s)" "withdrawable (od_id r) (wo_declineIncoming opts) x"
    using 1(1) by (auto simp: count_open)
  show ?case
    by (rule close_release_fair[OF 1(2), where os = "db_orders s" and x = x and P = "withdrawable (od_id r) (wo_declineIncoming opts)"
          and f = "\<lambda>x. x\<lparr>od_status := ORDER_CANCELLED,
              od_cancel := Some \<lparr>ci_reason = trimmedReason (wo_reason opts), ci_at = rt_now rt, ci_by = u,
                                 ci_source = wo_source opts\<rparr>,
              od_acceptance := (if wo_declineIncoming opts then ORDER_REJECTED else od_acceptance x)\<rparr>"])
       (use 1(3) x assms(2) releaseTable_frame[OF 1(2)] in \<open>auto simp: frame emitOrderWithdrawn_def withdrawable_def\<close>)
qed

lemma closeStep_tables:
  assumes "closeStep cfg rt br b u d p n l rows s = Inr (skips, t)"
  obtains st s1 where "releaseTableIfIdle rt (od_tableId (cp_order p)) (od_id (cp_order p)) (s\<lparr>db_stock := st\<rparr>) = Inr s1"
    "db_tables t = db_tables s1"
proof -
  from assms obtain st s1 s2 s3 where
    1: "releaseTableIfIdle rt (od_tableId (cp_order p)) (od_id (cp_order p)) (s\<lparr>db_stock := st\<rparr>) = Inr s1"
    and 2: "earnStep br b p l s1 = Inr s2"
    and 3: "payOpenOrder (od_id (cp_order p)) (paidRow rt d p n l) rows s2 = Inr s3"
    and 4: "fiscalStep rt (od_id (cp_order p)) s3 = Inr t"
    unfolding closeStep_def Let_def paidRow_def[abs_def] by (auto simp: ebind_Inr_iff)
  show ?thesis
    by (rule that[OF 1]) (use earnStep_frame[OF 2] fiscalStep_frame[OF 4] 3 in \<open>simp add: payOpenOrder_Inr frame\<close>)
qed

lemma checkoutTx_fair:
  assumes "checkoutTx cfg rt br b u d p s = Inr (st, skips, t)" "keyed od_id (db_orders s)"
  shows "tables_fair s t"
  using assms(1)
proof (rule checkoutTx_InrE)
  fix n l s1 gift s2
  assume 1: "redeemStep b p s = Inr (n, l, s1)" and 2: "giftStep b (od_id (cp_order p)) d (cp_balance p) s1 = Inr (gift, s2)"
    and 4: "if st_fullyPaid st
     then closeStep cfg rt br b u d p n l (paymentRows (od_id (cp_order p)) u d (st_payments st) gift) s2 = Inr (skips, t)
     else skips = [] \<and> payOpenOrder (od_id (cp_order p)) (lockFigures d p n l)
            (paymentRows (od_id (cp_order p)) u d (st_payments st) gift) s2 = Inr t"
  have same: "db_orders s2 = db_orders s" "db_tables s2 = db_tables s"
    using redeemStep_frame[OF 1] giftStep_frame[OF 2] by simp_all
  show ?thesis
  proof (cases "st_fullyPaid st")
    case False
    then show ?thesis using 4 same by (intro no_new_free_fair no_new_free_same) (simp add: payOpenOrder_Inr frame)
  next
    case True
    then have c: "closeStep cfg rt br b u d p n l (paymentRows (od_id (cp_order p)) u d (st_payments st) gift) s2 = Inr (skips, t)"
      using 4 by simp
    note cf = closeStep_frame[OF c]
    obtain x where x: "x \<in> set (db_orders s)" "openRow (od_id (cp_order p)) x" using cf same by (auto simp: count_open)
    from c show ?thesis
    proof (rule closeStep_tables)
      fix stk s3
      assume r: "releaseTableIfIdle rt (od_tableId (cp_order p)) (od_id (cp_order p)) (s2\<lparr>db_stock := stk\<rparr>) = Inr s3"
        and tt: "db_tables t = db_tables s3"
      show ?thesis
        by (rule close_release_fair[OF r, where os = "db_orders s" and x = x and P = "openRow (od_id (cp_order p))" and
              f = "paidRow rt d p n l"])
           (use cf same x tt assms(2) in \<open>auto simp: openRow_def\<close>)
    qed
  qed
qed

lemma merge_fair:
  assumes "mergeWrite rt (x, y) s = Inr t"
  shows "tables_fair s t"
  using assms
proof (rule mergeWrite_InrE)
  fix s4 assume t: "t = emit [OrderUpdated (od_id x) None, OrderUpdated (od_id y) None] s4"
    and s4: "s4 = mergedState x y s \<or> releaseTableIfIdle rt (od_tableId y) (od_id y) (mergedState x y s) = Inr s4"
  have tm: "db_tables (mergedState x y s) = db_tables s" by (simp add: mergedState_def frame)
  from s4 show ?thesis
  proof
    assume "s4 = mergedState x y s"
    then show ?thesis using tm t by (intro no_new_free_fair no_new_free_same) (simp add: frame)
  next
    assume r: "releaseTableIfIdle rt (od_tableId y) (od_id y) (mergedState x y s) = Inr s4"
    have closed: "od_status z \<noteq> OPEN" if "z \<in> set (db_orders (mergedState x y s))" "od_id z = od_id y" for z
      using that by (auto simp: mergedState_orders upd_where_def split: if_splits)
    show ?thesis
      by (rule release_fair[OF r no_new_free_same[OF tm]])
         (use releaseTable_frame[OF r] closed in \<open>auto simp: t frame idleTable_def\<close>)
  qed
qed

lemma moveCheck_True:
  "moveCheck b r tb s = Inr True \<Longrightarrow> present tb \<and> tb \<noteq> od_tableId r"
  by (auto simp: moveCheck_def split: if_splits option.splits)

lemma edit_fair:
  assumes "updateOrder rt b i d s = Inr (v, t)" "keyed od_id (db_orders s)"
  shows "tables_fair s t"
  using assms(1)
proof (rule updateOrder_InrE)
  fix r moving assume id: "od_id r = i" and m: "moveCheck b r (ud_tableId d) s = Inr moving"
    and w: "updateOrderWrite rt d (r, moving) s = Inr t"
  note ot = conjunct1[OF updateOrderWrite_frame[OF w]]
  from w show ?thesis
  proof (rule updateOrderWrite_InrE)
    fix s3 es assume t: "t = auditRow (if moving then ''order.table_changed'' else ''order.edited'') (od_id r) (emit es s3)"
      and c: "if moving then \<exists>s2. setTable rt (the (ud_tableId d)) OCCUPIED (updOrders (\<lambda>x. od_id x = od_id r) (headerOf d True) s) = Inr s2 \<and>
                      releaseTableIfIdle rt (od_tableId r) (od_id r) s2 = Inr s3
     else s3 = updOrders (\<lambda>x. od_id x = od_id r) (headerOf d False) s"
    show ?thesis
    proof (cases moving)
      case False
      then show ?thesis using c t by (intro no_new_free_fair no_new_free_same) (simp add: frame)
    next
      case True
      then obtain s2 where o: "setTable rt (the (ud_tableId d)) OCCUPIED (updOrders (\<lambda>x. od_id x = od_id r) (headerOf d True) s) = Inr s2"
        and rl: "releaseTableIfIdle rt (od_tableId r) (od_id r) s2 = Inr s3" using c by auto
      have nf: "no_new_free s s2"
        using occupy_no_new_free[OF o] by (simp add: no_new_free_def frame)
      have os2: "db_orders s2 = upd_where (\<lambda>x. od_id x = od_id r) (headerOf d True) (db_orders s)" using o by (simp add: frame)
      have moved: "od_tableId z = ud_tableId d" if "z \<in> set (db_orders s2)" "od_id z = od_id r" for z
        using that by (auto simp: os2 upd_where_def split: if_splits)
      show ?thesis
        by (rule release_fair[OF rl nf])
           (use moveCheck_True[of b r "ud_tableId d" s] m True moved releaseTable_frame[OF rl] in
            \<open>auto simp: t frame idleTable_def\<close>)
    qed
  qed
qed

lemma reject_fair:
  assumes "rejectKot rt b i u inp s = Inr (x, t)" "keyed od_id (db_orders s)"
  shows "tables_fair s t"
  using assms(1)
proof (rule rejectKot_InrE)
  assume "t = s"
  then show ?thesis by (intro no_new_free_fair no_new_free_same) simp
next
  fix k :: kot and r :: order
  let ?w = "trim (rj_reason inp)"
  let ?p = "\<lparr>rp_kot = k, rp_order = r,
         rp_otherLive = list_ex (\<lambda>x. kt_id x \<noteq> i \<and> kt_status x \<notin> {CANCELLED, REJECTED}) (kotsOf (od_id r) s),
         rp_lineIds = map ki_orderItemId (filter (\<lambda>x. ki_kotId x = i) (db_kotItems s))\<rparr>"
  assume "rejectWrite rt u ?w ?p s = Inr t"
  then show ?thesis
  proof (rule rejectWrite_InrE)
    fix s2 es assume t: "t = auditRow ''kot.rejected'' (kt_id (rp_kot ?p)) (emit es s2)"
      and c: "if \<not> rp_otherLive ?p then rejectWithdraw rt u ?w (rp_order ?p) (markRejected rt u ?w (rp_kot ?p) s) = Inr s2
     else if rp_lineIds ?p = [] then s2 = markRejected rt u ?w (rp_kot ?p) s
     else s2 = recomputeTotals (od_id (rp_order ?p)) (deleteLines (\<lambda>i. i \<in> set (rp_lineIds ?p)) (markRejected rt u ?w (rp_kot ?p) s))"
    show ?thesis
    proof (cases "rp_otherLive ?p")
      case True
      then show ?thesis using c t by (intro no_new_free_fair no_new_free_same) (simp add: frame split: if_splits)
    next
      case False
      then have "rejectWithdraw rt u ?w r (markRejected rt u ?w k s) = Inr s2" using c by simp
      then show ?thesis
      proof (rule rejectWithdraw_Inr, goal_cases)
        case 1
        obtain x where x: "x \<in> set (db_orders s)" "od_id x = od_id r" "od_status x = OPEN"
          using 1(1) by (auto simp: count_open frame)
        show ?thesis
          by (rule close_release_fair[OF 1(2), where os = "db_orders s" and x = x and P = "\<lambda>x. od_id x = od_id r \<and> od_status x = OPEN"
                and f = "\<lambda>x. x\<lparr>od_status := ORDER_CANCELLED, od_cancel := Some \<lparr>ci_reason = Some ?w, ci_at = rt_now rt, ci_by = u,
                  ci_source = KITCHEN_REJECTED\<rparr>\<rparr>"])
             (use x assms(2) t releaseTable_frame[OF 1(2)] in \<open>auto simp: frame\<close>)
      qed
    qed
  qed
qed

lemma step_tables_fair:
  assumes "order_step cfg s t" "keyed od_id (db_orders s)"
  shows "tables_fair s t"
  using assms(1)
proof cases
  case (create rt b u d opts v)
  then show ?thesis
  proof (rule createOrder_InrE)
    fix lines delivery r s1
    assume tx: "createOrderTx cfg rt r lines (op_historical opts \<noteq> None) (s\<lparr>db_next := db_next s + 1\<rparr>) = Inr s1"
      and t: "t = (if op_historical opts \<noteq> None then s1 else emit [OrderCreated (od_id r) (acceptanceFor cfg b opts)] s1)"
    from tx have "no_new_free s s1"
    proof (rule createOrderTx_InrE)
      fix s2 assume o: "occupyTable rt (od_tableId r) (op_historical opts \<noteq> None) (s\<lparr>db_next := db_next s + 1,
         db_orders := db_orders (s\<lparr>db_next := db_next s + 1\<rparr>) @ [r],
         db_items := db_items (s\<lparr>db_next := db_next s + 1\<rparr>) @ lineRows rt (od_id r) lines (db_next (s\<lparr>db_next := db_next s + 1\<rparr>)),
         db_next := db_next (s\<lparr>db_next := db_next s + 1\<rparr>) + length lines\<rparr>) = Inr s2"
        and s1: "s1 = (if sendsAtOnce rt r (op_historical opts \<noteq> None)
           then generateKots cfg rt (od_id r) (lineRows rt (od_id r) lines (db_next (s\<lparr>db_next := db_next s + 1\<rparr>))) s2 else s2)"
      from o have "no_new_free s s2"
        by (auto simp: occupyTable_def no_new_free_def frame set_upd_where split: if_splits)
      then show ?thesis by (simp add: s1 no_new_free_def frame)
    qed
    then show ?thesis by (intro no_new_free_fair) (simp add: t no_new_free_def frame)
  qed
next
  case (add rt b i items ao v)
  then show ?thesis by (rule addItems_InrE) (intro no_new_free_fair no_new_free_same, simp add: frame)
next
  case (accept rt b i u v)
  then show ?thesis
    by (rule acceptOrder_InrE)
       (intro no_new_free_fair no_new_free_same, auto simp: acceptWrite_def Let_def frame split: if_splits)
next
  case (withdraw rt b i u wo v)
  then show ?thesis by (rule withdrawOrder_InrE) (use withdraw_fair assms(2) in blast)
next
  case (delete b role ok ids n)
  then show ?thesis
    by (rule deleteFinishedOrders_InrE) (intro no_new_free_fair no_new_free_same, simp add: frame fold_audit)
next
  case (edit rt b i ud v)
  then show ?thesis using edit_fair assms(2) by blast
next
  case (lower b i it q v)
  then show ?thesis
    by (rule updateOrderItem_InrE)
       (intro no_new_free_fair no_new_free_same, auto simp: updateLineWrite_Inr lineEvents_def frame)+
next
  case (remove b i it v)
  then show ?thesis
    by (rule removeOrderItem_InrE) (intro no_new_free_fair no_new_free_same, auto simp: removeLineWrite_Inr lineEvents_def frame)
next
  case (merge rt b i j v)
  then show ?thesis using merge_fair by (auto simp: mergeOrders_def ebind_Inr_iff)
next
  case (move_ticket rt b k st w x)
  then show ?thesis
    by (rule updateKotStatus_InrE) (intro no_new_free_fair no_new_free_same, auto dest: kotWrite_frame)+
next
  case (prioritise b k pr x)
  then show ?thesis by (intro no_new_free_fair no_new_free_same) (auto simp: setKotPriority_Inr frame)
next
  case (reject rt b k u inp x)
  then show ?thesis using reject_fair assms(2) by blast
next
  case (pay rt b i u co cap y)
  then show ?thesis
  proof (cases rule: checkout_InrE)
    case (proceed p)
    from proceed(2) show ?thesis
    proof (cases rule: checkoutWrite_InrE)
      case (committed br st skips s1)
      have "tables_fair s s1" by (rule checkoutTx_fair[OF committed(2) assms(2)])
      then show ?thesis using checkoutDone_frame[OF committed(3)] by (simp add: tables_fair_def)
    qed (simp add: no_new_free_fair no_new_free_same)
  qed (simp add: no_new_free_fair no_new_free_same)
next
  case (give_back rt b i u rd z)
  then show ?thesis
    by (rule refund_InrE) (intro no_new_free_fair no_new_free_same, auto simp: frame dest!: refundTx_frame)
next
  case (release rt n)
  then show ?thesis using releaseAll_frame[of cfg rt "map (\<lambda>r. (r, itemsOf (od_id r) s)) (dueOrders rt s)" s]
    by (intro no_new_free_fair no_new_free_same) (auto simp: releaseDueScheduledOrders_def Let_def)
qed

text \<open>C36: whatever handler of the order service runs, a table that was not available before and is
  afterwards has no open order on it.\<close>

theorem tables_freed_when_idle:
  assumes "order_step cfg s t" "keyed od_id (db_orders s)" "keyed tb_id (db_tables s)"
    "x \<in> set (db_tables s)" "tb_status x \<noteq> AVAILABLE" "y \<in> set (db_tables t)" "tb_id y = tb_id x" "tb_status y = AVAILABLE"
    "r \<in> set (db_orders t)" "od_tableId r = Some (tb_id y)"
  shows "od_status r \<noteq> OPEN"
proof -
  have "\<not> (\<exists>z \<in> set (db_tables s). tb_id z = tb_id y \<and> tb_status z = AVAILABLE)"
    using keyed_unique[OF assms(3) assms(4)] assms(5,7) by metis
  then show ?thesis using step_tables_fair[OF assms(1,2)] assms(6,8,9,10) unfolding tables_fair_def by blast
qed

theorem tables_freed_when_idle_witness:
  "\<exists>t. order_step sample_config sample_db t \<and>
     (\<exists>y \<in> set (db_tables t). tb_id y = ''t1'' \<and> tb_status y = AVAILABLE) \<and>
     (\<exists>r \<in> set (db_orders t). od_tableId r = Some ''t1'' \<and> od_status r \<noteq> OPEN)"
proof -
  have "case withdrawOrder sample_runtime ''b'' ''open1'' ''ann'' sample_withdrawal sample_db of Inl _ \<Rightarrow> False
    | Inr (v, t) \<Rightarrow> list_ex (\<lambda>y. tb_id y = ''t1'' \<and> tb_status y = AVAILABLE) (db_tables t) \<and>
        list_ex (\<lambda>r. od_tableId r = Some ''t1'') (db_orders t)" by code_simp
  then obtain v t where w: "withdrawOrder sample_runtime ''b'' ''open1'' ''ann'' sample_withdrawal sample_db = Inr (v, t)"
    and "list_ex (\<lambda>y. tb_id y = ''t1'' \<and> tb_status y = AVAILABLE) (db_tables t)" "list_ex (\<lambda>r. od_tableId r = Some ''t1'') (db_orders t)"
    by (auto split: sum.splits)
  then obtain y r where y: "y \<in> set (db_tables t)" "tb_id y = ''t1''" "tb_status y = AVAILABLE"
    and r: "r \<in> set (db_orders t)" "od_tableId r = Some ''t1''" by (auto simp: list_ex_iff)
  let ?x = "\<lparr>tb_id = ''t1'', tb_branchId = ''b'', tb_status = OCCUPIED, tb_statusSince = 0\<rparr>"
  have s: "order_step sample_config sample_db t" using w by (rule order_step.withdraw)
  have k: "keyed tb_id (db_tables sample_db)" and x: "?x \<in> set (db_tables sample_db)" by (simp_all add: sample_db_def keyed_def)
  have "od_status r \<noteq> OPEN"
    by (rule tables_freed_when_idle[OF s sample_keyed k x _ y(1) _ y(3) r(1)]) (simp_all add: y r)
  then show ?thesis using s y r by blast
qed

end
