(* ===== verification/Order_Money.thy ===== *)
theory Order_Money
  imports Order_Races
begin

text \<open>
  Money through a checkout, in exact cents: the payment rows a committed checkout writes, what they say
  about the bill over several part-payments, the agreement of the preview with what is charged, and the
  limit on refunds.
\<close>

section \<open>The rows of one settlement\<close>

definition paidCents :: "string \<Rightarrow> db \<Rightarrow> int" where
  "paidCents i s = sum_list (map py_amount (paymentsOf i s))"

text \<open>The entered payments and the balance are small enough for the arithmetic to be exact.\<close>

definition amounts_fit :: "int \<Rightarrow> payment_line list \<Rightarrow> bool" where
  "amounts_fit B pays \<longleftrightarrow> 0 \<le> B \<and> in_range B \<and> length pays \<le> 900 \<and> sum_list (map handed pays) + B \<le> 10 ^ 12 \<and>
     list_all (\<lambda>p. 0 \<le> pl_amount p \<and> in_range (units 100 (pl_amount p)) \<and> in_range (units 100 (or0 (pl_tendered p)))) pays"

lemma fsum_from: "0 \<le> a \<Longrightarrow> \<forall>x \<in> set xs. 0 \<le> x \<Longrightarrow> 0 \<le> foldl fadd a xs"
proof (induction xs arbitrary: a)
  case (Cons x xs)
  have "fl 0 \<le> fl (a + x)" by (rule fl_mono) (use Cons.prems in simp)
  then show ?case using Cons by (simp add: fadd_def)
qed simp

lemma fsum_nonneg: "\<forall>x \<in> set xs. 0 \<le> x \<Longrightarrow> 0 \<le> fsum xs"
  by (simp add: fsum_def fsum_from)

lemma fsub_le: "0 \<le> y \<Longrightarrow> fsub (cents B) y \<le> cents B"
proof -
  assume "0 \<le> y"
  then have "fl (cents B - y) \<le> fl (cents B)" by (intro fl_mono) simp
  then show ?thesis by (simp add: fsub_def)
qed

text \<open>A gift card takes a whole number of cents, at most the balance.\<close>

lemma redeemCard_amount:
  assumes "redeemCard b i c mx s = Inr (a, t)" "0 \<le> mx"
  shows "\<exists>G. a = cents G \<and> 0 \<le> G \<and> a \<le> round2 mx"
proof -
  have "\<exists>x :: gift_card. a = round2 (min (cents (gc_balance x)) mx) \<and> \<not> cents (gc_balance x) \<le> 0"
    using assms(1) by (auto simp: redeemCard_def debit_def debitQuote_def ebind_Inr_iff split: option.splits if_splits)
  then obtain x :: gift_card where a: "a = round2 (min (cents (gc_balance x)) mx)" "\<not> cents (gc_balance x) \<le> 0" by blast
  have "0 \<le> min (cents (gc_balance x)) mx" using a(2) assms(2) by simp
  then have "0 \<le> units 100 (min (cents (gc_balance x)) mx)" using units_mono[of 0 _ 100] by fastforce
  then show ?thesis using a(1) dec_mono[OF units_mono[of "min (cents (gc_balance x)) mx" mx 100], of 100]
    by (auto simp: round2_cents intro!: exI[of _ "units 100 (min (cents (gc_balance x)) mx)"])
qed

lemma giftStep_amount:
  assumes "giftStep b i d (cents B) s = Inr (a, t)" "amounts_fit B (co_payments d)"
  obtains G where "a = cents G" "0 \<le> G" "G \<le> B"
proof -
  let ?paid = "round2 (fsum (map pl_amount (co_payments d)))"
  let ?rest = "round2 (fsub (cents B) ?paid)"
  have B: "0 \<le> B" "in_range B" using assms(2) by (auto simp: amounts_fit_def)
  show ?thesis
  proof (cases "present (co_giftCardCode d) \<and> 0 < ?rest")
    case False
    then show ?thesis using that[of 0] assms(1) B(1) by (auto simp: giftStep_def Let_def split: if_splits)
  next
    case True
    then obtain gs where r: "redeemCard b i (the (co_giftCardCode d)) ?rest (db_gifts s) = Inr (a, gs)"
      using assms(1) by (auto simp: giftStep_def Let_def ebind_Inr_iff)
    obtain G where G: "a = cents G" "0 \<le> G" "a \<le> round2 ?rest" using redeemCard_amount[OF r] True by auto
    have "0 \<le> fsum (map pl_amount (co_payments d))"
      using assms(2) by (intro fsum_nonneg) (auto simp: amounts_fit_def list_all_iff)
    then have p: "0 \<le> ?paid" using round2_mono[of 0] by fastforce
    have le: "?rest \<le> cents B" using round2_mono[OF fsub_le[OF p], of B] B by simp
    then have "round2 ?rest \<le> cents B" using round2_mono[OF le] B by simp
    then have a: "a \<le> cents B" using G(3) by simp
    have "units 100 a \<le> units 100 (cents B)" by (rule units_mono[OF a])
    moreover have "a = cents (min G B)"
      using a G(1) dec_mono[of B G 100] by (auto simp: min_def)
    ultimately show ?thesis using that[of "min G B"] G(2) B(1) by auto
  qed
qed

section \<open>A committed checkout\<close>

lemma sp_column:
  assumes "line_ok l"
  shows "to_column 100 (sp_amount l) = amt l"
proof -
  have "in_range (amt l)" "sp_amount l = cents (amt l)" using line_ok_range[OF assms] assms by (auto simp: line_ok_def)
  then show ?thesis by simp
qed

lemma chg_column:
  assumes "line_ok l"
  shows "(case map_option (to_column 100) (sp_changeGiven l) of None \<Rightarrow> 0 | Some c \<Rightarrow> c) = chg l"
proof (cases "sp_changeGiven l")
  case (Some c)
  then have "c = cents (chg l)" using assms by (simp add: line_ok_def)
  then show ?thesis using Some line_ok_range[OF assms] by simp
qed (simp add: chg_def)

text \<open>The rows written hold exactly what was settled.\<close>

definition changeOf :: "payment \<Rightarrow> int" where
  "changeOf p = (case py_changeGiven p of None \<Rightarrow> 0 | Some c \<Rightarrow> c)"

lemma paymentRow_sel:
  "line_ok l \<Longrightarrow> py_amount (paymentRow i u k l) = amt l \<and> changeOf (paymentRow i u k l) = chg l \<and>
     py_orderId (paymentRow i u k l) = i"
  using sp_column chg_column by (simp add: paymentRow_def changeOf_def)

lemma paymentRow_sums:
  assumes "\<forall>l \<in> set ls. line_ok l \<and> 0 < amt l"
  shows "sum_list (map py_amount (map (paymentRow i u k) ls)) = sum_list (map amt ls)"
    "sum_list (map changeOf (map (paymentRow i u k) ls)) = sum_list (map chg ls)"
    "\<forall>x \<in> set (map (paymentRow i u k) ls). py_orderId x = i \<and> 0 < py_amount x"
  using assms by (induction ls) (simp_all add: paymentRow_sel)

lemma paymentRows_sums:
  assumes "\<forall>l \<in> set ls. line_ok l \<and> 0 < amt l" "in_range G" "0 \<le> G"
  shows "sum_list (map py_amount (paymentRows i u d ls (cents G))) = sum_list (map amt ls) + G \<and>
    sum_list (map changeOf (paymentRows i u d ls (cents G))) = sum_list (map chg ls) \<and>
    (\<forall>x \<in> set (paymentRows i u d ls (cents G)). py_orderId x = i \<and> 0 < py_amount x)"
proof -
  define rows where "rows = (case ls of [] \<Rightarrow> []
                  | q # qs \<Rightarrow> paymentRow i u (co_requestId d) q # map (paymentRow i u None) qs)"
  have r: "sum_list (map py_amount rows) = sum_list (map amt ls) \<and> sum_list (map changeOf rows) = sum_list (map chg ls) \<and>
    (\<forall>x \<in> set rows. py_orderId x = i \<and> 0 < py_amount x)"
  proof (cases ls)
    case (Cons q qs)
    then show ?thesis using paymentRow_sums[of qs i u None] paymentRow_sel[of q] assms(1) by (simp add: rows_def)
  qed (simp add: rows_def)
  show ?thesis using r assms(2,3)
    by (auto simp: paymentRows_def rows_def[symmetric] Let_def paymentRow_def changeOf_def)
qed

lemma settlePayments_lines: "settlePayments bal pays g ap = Inr st \<Longrightarrow> \<exists>ls. mapE normaliseLine pays = Inr ls"
  by (auto simp: settlePayments_def Let_def ebind_Inr_iff)

lemma settlePayments_exact:
  assumes "settlePayments (cents B) pays (Some (cents G)) ap = Inr st" "amounts_fit B pays" "0 \<le> G" "G \<le> B"
  shows "settlement_ok B G ap st"
proof -
  obtain ls where ls: "mapE normaliseLine pays = Inr ls" using settlePayments_lines[OF assms(1)] by blast
  have r: "in_range B" "in_range G" using assms(2-4) by (auto simp: amounts_fit_def in_range_def)
  have ok: "settle_ok (cents B) pays (Some (cents G))"
    using assms(2-4) r by (auto simp: settle_ok_def amounts_fit_def list_all_iff)
  show ?thesis
  proof (cases "B < non_cash pays + G")
    case True
    then show ?thesis using settlePayments_cases(1)[OF ok ls, of ap] r assms(1) by simp
  next
    case False
    then show ?thesis using settlePayments_cases(2-4)[OF ok ls, of ap] r assms(1)
      by (cases ap) (fastforce simp: not_less)+
  qed
qed

lemma checkoutTx_money:
  assumes "checkoutTx cfg rt br b u d p s = Inr (st, skips, t)" "cp_balance p = cents B" "amounts_fit B (co_payments d)"
  obtains new P where "db_payments t = db_payments s @ new"
    "\<forall>x \<in> set new. py_orderId x = od_id (cp_order p) \<and> 0 < py_amount x"
    "sum_list (map py_amount new) = P" "P \<le> B" "st_paidNow st = cents P" "st_balanceAfter st = cents (B - P)"
    "st_changeDue st = cents (sum_list (map changeOf new))" "st_fullyPaid st \<longleftrightarrow> P = B"
    "\<not> st_fullyPaid st \<longrightarrow> co_allowPartial d \<and> 0 < P" "0 \<le> P"
  using assms(1)
proof (rule checkoutTx_frame, goal_cases)
  case (1 n l gift)
  from 1(13) obtain s1 s2 where "giftStep b (od_id (cp_order p)) d (cents B) s1 = Inr (gift, s2)"
    unfolding assms(2) by blast
  then obtain G where G: "gift = cents G" "0 \<le> G" "G \<le> B" using assms(3) by (rule giftStep_amount)
  have ok: "settlement_ok B G (co_allowPartial d) st"
    using settlePayments_exact[OF _ assms(3) G(2,3)] 1(5) assms(2) G(1) by simp
  have rG: "in_range G" using G assms(3) by (auto simp: amounts_fit_def in_range_def)
  let ?new = "paymentRows (od_id (cp_order p)) u d (st_payments st) gift"
  have lines: "\<forall>l \<in> set (st_payments st). line_ok l \<and> 0 < amt l" using ok by (simp add: settlement_ok_def Let_def)
  note s = paymentRows_sums[OF lines rG G(2), of "od_id (cp_order p)" u d]
  have "0 \<le> sum_list (map amt (st_payments st))" using sum_amt_nonneg[of "st_payments st"] lines by blast
  then show ?case using that[of ?new "sum_list (map amt (st_payments st)) + G"] 1(4) s ok G(1,2)
    by (simp add: settlement_ok_def Let_def)
qed

section \<open>What is due\<close>

text \<open>The total of a bill in cents: the stored one once a payment was taken, the computed one before.\<close>

definition dueCents :: "checkout_plan \<Rightarrow> int" where
  "dueCents p = (if rs_locked (cp_resolved p) then od_totalAmount (cp_order p)
                 else units 100 (bill_totalDue (rs_bill (cp_resolved p))))"

lemma paidSoFar_cents:
  assumes "sum_ok (map py_amount ps)"
  shows "paidSoFar ps = cents (sum_list (map py_amount ps))"
  using round2_fsum_cents[OF assms] by (simp add: paidSoFar_def comp_def)

lemma computeBill_due: "\<exists>n. bill_totalDue (computeBill i) = cents n"
  by (simp add: computeBill_def Let_def round2_cents) blast

lemma resolveBill_Inr:
  assumes "resolveBill cfg rt b v a c s = Inr x"
  shows "rs_paid x = paidSoFar (ov_payments v) \<and> (rs_locked x \<longleftrightarrow> ov_payments v \<noteq> []) \<and>
    (rs_locked x \<longrightarrow> rs_bill x = storedBill (ov_order v)) \<and>
    (\<not> rs_locked x \<longrightarrow> (\<exists>i. rs_bill x = computeBill i))"
  using assms by (auto simp: resolveBill_def Let_def ebind_Inr_iff split: option.splits if_splits)

lemma checkoutRead_resolved:
  assumes "checkoutRead cfg rt b i d cap s = Inr (Proceed p)"
  obtains v c where "getOrder b i s = Inr v" "ov_order v = cp_order p" "ov_payments v = paymentsOf i s"
    "resolveBill cfg rt b v (co_adj d) c s = Inr (cp_resolved p)"
    "cp_balance p = round2 (fsub (bill_totalDue (rs_bill (cp_resolved p))) (rs_paid (cp_resolved p)))"
    "effectiveCustomer b (cp_order p) d s = Inr c"
  using assms that
  by (auto simp: checkoutRead_def Let_def ebind_Inr_iff getOrder_def split: option.splits if_splits)

lemma checkoutRead_due:
  assumes "checkoutRead cfg rt b i d cap s = Inr (Proceed p)"
    and "sum_ok (map py_amount (paymentsOf i s))" "0 \<le> dueCents p" "dueCents p < 10 ^ 12"
    "in_range (dueCents p - paidCents i s)"
  shows "cp_balance p = cents (dueCents p - paidCents i s) \<and>
    to_column 100 (bill_totalDue (rs_bill (cp_resolved p))) = dueCents p \<and>
    (rs_locked (cp_resolved p) \<longleftrightarrow> paymentsOf i s \<noteq> [])"
  using assms(1)
proof (rule checkoutRead_resolved, goal_cases)
  case (1 v c)
  let ?x = "cp_resolved p"
  note x = resolveBill_Inr[OF 1(4)]
  have due: "bill_totalDue (rs_bill ?x) = cents (dueCents p)"
  proof (cases "rs_locked ?x")
    case True
    then show ?thesis using x 1(2) by (simp add: storedBill_def dueCents_def)
  next
    case False
    then obtain j where "rs_bill ?x = computeBill j" using x by blast
    then obtain n where "bill_totalDue (rs_bill ?x) = cents n" using computeBill_due by metis
    moreover have "in_range n" using False assms(3,4) calculation by (intro in_range_of_units) (simp add: dueCents_def)
    ultimately show ?thesis using False by (simp add: dueCents_def)
  qed
  have paid: "rs_paid ?x = cents (paidCents i s)"
    using x 1(3) paidSoFar_cents[OF assms(2)] by (simp add: paidCents_def)
  have "in_range (paidCents i s)" "in_range (dueCents p)"
    using sum_ok_range[OF assms(2)] assms(3,4) by (auto simp: paidCents_def in_range_def)
  note r = this
  have "cp_balance p = cents (dueCents p - paidCents i s)"
    unfolding 1(5) due paid by (rule round2_fsub_cents[OF r(2,1) assms(5)])
  then show ?case using 1(3) x due r(2) by simp
qed

section \<open>Several payments on one bill\<close>

lemma lockFigures_total:
  "od_totalAmount (lockFigures d p n l r) =
     (if rs_locked (cp_resolved p) then od_totalAmount r else to_column 100 (bill_totalDue (rs_bill (cp_resolved p))))"
  "od_id (lockFigures d p n l r) = od_id r" "od_status (lockFigures d p n l r) = od_status r"
  by (simp_all add: lockFigures_def Let_def)

lemma paymentsOf_append: "db_payments t = db_payments s @ new \<Longrightarrow> \<forall>x \<in> set new. py_orderId x = i \<Longrightarrow>
  paymentsOf j t = paymentsOf j s @ (if j = i then new else [])"
  by (auto simp: paymentsOf_def filter_empty_conv filter_id_conv)

section \<open>Properties\<close>


text \<open>A bill of 0.50, of which 0.20 are paid with a coin of 0.50.\<close>

definition coin_db :: db where
  "coin_db = sample_db\<lparr>db_orders := [sample_order ''c1'' ''260101-0009'' OPEN NOT_REQUIRED None 50],
     db_items := [sample_line ''i9'' ''c1'' ''tea'' 1 50], db_kots := [], db_kotItems := [], db_payments := []\<rparr>"

definition coin_pay :: checkout_dto where
  "coin_pay = \<lparr>co_adj = \<lparr>ba_discountPercent = None, ba_discountFlat = None, ba_tipAmount = None,
       ba_loyaltyPointsToRedeem = None, ba_couponCode = None\<rparr>, co_discountReason = None, co_customerId = None,
     co_giftCardCode = None, co_payments = [\<lparr>pl_method = CASH, pl_amount = cents 20, pl_tendered = Some (cents 50), pl_reference = None\<rparr>],
     co_allowPartial = True, co_requestId = None\<rparr>"

definition coin_order :: order where "coin_order = sample_order ''c1'' ''260101-0009'' OPEN NOT_REQUIRED None 50"

definition coin_bill :: bill where
  "coin_bill = \<lparr>bill_subtotal = cents 50, bill_discountAmount = 0, bill_discountPercent = 0, bill_taxAmount = 0,
     bill_loyaltyDiscountAmount = 0, bill_tipAmount = 0, bill_deliveryFee = 0, bill_totalDue = cents 50\<rparr>"

definition coin_resolved :: resolved_bill where
  "coin_resolved = \<lparr>rs_bill = coin_bill, rs_locked = False, rs_paid = 0, rs_auto = noDiscount, rs_points = 0\<rparr>"

definition coin_plan :: checkout_plan where
  "coin_plan = \<lparr>cp_order = coin_order, cp_items = [sample_line ''i9'' ''c1'' ''tea'' 1 50], cp_customerId = None,
     cp_resolved = coin_resolved, cp_balance = cents 50, cp_entry = None\<rparr>"

lemma coin_computeBill: "computeBill (billInput br coin_order (co_adj coin_pay) [\<lparr>lineTotal = cents 50, taxAmount = 0\<rparr>] 0 0) = coin_bill"
  by (simp add: coin_bill_def coin_order_def computeBill_def billInput_def computeOrderTotals_def Let_def sample_order_def
      coin_pay_def fsum_def in_range_def min_def max_def fmul_def fdiv_def fsub_def fadd_def discountPercentOf_def)

lemma coin_resolve:
  "resolveBill sample_config sample_runtime ''b'' \<lparr>ov_order = coin_order, ov_items = [sample_line ''i9'' ''c1'' ''tea'' 1 50],
     ov_kots = ks, ov_payments = []\<rparr> (co_adj coin_pay) None coin_db = Inr coin_resolved"
proof -
  have a: "branchOf sample_config ''b'' = Some sample_branch" by code_simp
  have b: "resolveCheckoutDiscount (rt_dayMinute sample_runtime) (cf_promotions sample_config) (db_coupons coin_db) ''b''
      (cents 50) None (rt_now sample_runtime) = Inr noDiscount"
    by (simp add: resolveCheckoutDiscount_def sample_config_def noDiscount_def sample_runtime_def)
  have c: "pointsToRedeem coin_order (co_adj coin_pay) coin_db = 0" "ba_couponCode (co_adj coin_pay) = None"
    by code_simp+
  have d: "paidSoFar [] = 0" by (simp add: paidSoFar_def fsum_def)
  have e: "round2 (fsum (map lineTotal [\<lparr>lineTotal = cents 50, taxAmount = 0\<rparr>])) = cents 50"
    by (simp add: fsum_def in_range_def)
  have f: "storedLine (sample_line ''i9'' ''c1'' ''tea'' 1 50) = \<lparr>lineTotal = cents 50, taxAmount = 0\<rparr>" by code_simp
  show ?thesis
    by (simp add: resolveBill_def Let_def a c d f e[simplified] coin_computeBill b)
      (simp add: coin_resolved_def noDiscount_def coin_computeBill)
qed

lemma coin_read: "checkoutRead sample_config sample_runtime ''b'' ''c1'' coin_pay False coin_db = Inr (Proceed coin_plan)"
proof -
  have v: "getOrder ''b'' ''c1'' coin_db = Inr \<lparr>ov_order = coin_order, ov_items = [sample_line ''i9'' ''c1'' ''tea'' 1 50],
     ov_kots = [], ov_payments = []\<rparr>" "branchOf sample_config ''b'' = Some sample_branch"
    "effectiveCustomer ''b'' coin_order coin_pay coin_db = Inr None" "isReplay coin_pay [] = False"
    "od_status coin_order = OPEN" "od_acceptance coin_order = NOT_REQUIRED" "manualDiscountEntry 0 0 = None" by code_simp+
  have g: "guardDiscount sample_branch coin_pay coin_resolved False = Inr ()"
    by (simp add: guardDiscount_def coin_resolved_def assertManualDiscountAllowed_def manualDiscountEntry_def coin_pay_def Let_def)
  show ?thesis
    by (simp add: checkoutRead_def Let_def v coin_resolve g)
      (simp add: coin_plan_def coin_resolved_def coin_bill_def manualDiscountEntry_def coin_pay_def fsub_def in_range_def)
qed

lemma coin_commit:
  "\<exists>st t. checkoutTx sample_config sample_runtime sample_branch ''b'' ''ann'' coin_pay coin_plan coin_db = Inr (st, [], t) \<and>
     paidCents ''c1'' t = 20"
proof -
  have a: "mapE normaliseLine (co_payments coin_pay) = Inr [\<lparr>sp_method = CASH, sp_amount = cents 20, sp_tendered = Some (cents 50),
      sp_changeGiven = Some (cents 30), sp_reference = None\<rparr>]"
    by (simp add: coin_pay_def normaliseLine_def Let_def in_range_def round2_fsub_cents)
  have f: "amounts_fit 50 (co_payments coin_pay)" by (simp add: amounts_fit_def coin_pay_def in_range_def handed_def)
  have ok: "settle_ok (cents 50) (co_payments coin_pay) (Some 0)"
    using f by (simp add: settle_ok_def amounts_fit_def list_all_iff in_range_def)
  have n: "non_cash (co_payments coin_pay) = 0" "sum_list (map (\<lambda>p. units 100 (pl_amount p)) (co_payments coin_pay)) = 20"
    by (simp_all add: non_cash_def coin_pay_def in_range_def)
  obtain st where st: "settlePayments (cents 50) (co_payments coin_pay) (Some 0) True = Inr st" "settlement_ok 50 0 True st"
    "st_payments st = [\<lparr>sp_method = CASH, sp_amount = cents 20, sp_tendered = Some (cents 50),
      sp_changeGiven = Some (cents 30), sp_reference = None\<rparr>]"
    using settlePayments_cases(4)[OF ok a, of True] n by (auto simp: in_range_def)
  have p: "\<not> st_fullyPaid st" using st(2,3) by (simp add: settlement_ok_def Let_def amt_def in_range_def)
  have g: "redeemStep ''b'' coin_plan coin_db = Inr (0, 0, coin_db)"
    by (simp add: redeemStep_def Let_def coin_plan_def coin_resolved_def noDiscount_def)
  have h: "giftStep ''b'' (od_id (cp_order coin_plan)) coin_pay (cp_balance coin_plan) coin_db = Inr (0, coin_db)"
    by (simp add: giftStep_def Let_def coin_pay_def present_def)
  let ?rows = "paymentRows (od_id (cp_order coin_plan)) ''ann'' coin_pay (st_payments st) 0"
  let ?t = "updOrders (openRow (od_id (cp_order coin_plan))) (lockFigures coin_pay coin_plan 0 0) (coin_db\<lparr>db_payments := ?rows\<rparr>)"
  have e: "db_payments coin_db = []" "0 < count_where (openRow (od_id (cp_order coin_plan))) (db_orders coin_db)" by code_simp+
  have q: "payOpenOrder (od_id (cp_order coin_plan)) (lockFigures coin_pay coin_plan 0 0) ?rows coin_db = Inr ?t"
    using e by (simp add: payOpenOrder_def list_ex_iff)
  have "checkoutTx sample_config sample_runtime sample_branch ''b'' ''ann'' coin_pay coin_plan coin_db = Inr (st, [], ?t)"
    using st(1) p q by (simp add: checkoutTx_def Let_def g h) (simp add: coin_plan_def coin_pay_def)
  moreover have "paidCents ''c1'' ?t = 20"
    by (simp add: paidCents_def paymentsOf_def updOrders_def paymentRows_def st(3) Let_def paymentRow_def coin_plan_def
        coin_order_def sample_order_def in_range_def)
  ultimately show ?thesis by blast
qed


section \<open>The preview\<close>

lemma resolveBill_customer:
  assumes "resolveBill cfg rt b v a c s = Inr x" "present c'"
  shows "resolveBill cfg rt b v a c' s = Inr x"
  using assms by (auto simp: resolveBill_def Let_def ebind_Inr_iff split: option.splits if_splits)

lemma resolveBill_points:
  assumes "resolveBill cfg rt b v a c s = Inr x" "rs_locked x \<or> rs_points x \<le> 0"
  shows "resolveBill cfg rt b v a c' s = Inr x"
  using assms by (auto simp: resolveBill_def Let_def ebind_Inr_iff split: option.splits if_splits)

lemma effectiveCustomer_Inr:
  "effectiveCustomer b r d s = Inr c \<Longrightarrow> present (od_customerId r) \<or> \<not> present (co_customerId d) \<Longrightarrow> c = od_customerId r"
  by (auto simp: effectiveCustomer_def split: if_splits)

lemma checkoutRead_entry:
  "checkoutRead cfg rt b i d cap s = Inr (Proceed p) \<Longrightarrow>
   cp_entry p = manualDiscountEntry (or0 (ba_discountPercent (co_adj d))) (or0 (ba_discountFlat (co_adj d)))"
  by (auto simp: checkoutRead_def Let_def ebind_Inr_iff getOrder_def split: option.splits if_splits)

text \<open>What the preview shows agrees with the plan of the checkout.\<close>

definition preview_agrees :: "bill_preview \<Rightarrow> checkout_plan \<Rightarrow> bool" where
  "preview_agrees q p \<longleftrightarrow> bp_status q = OPEN \<and> bp_bill q = rs_bill (cp_resolved p) \<and> bp_locked q = rs_locked (cp_resolved p) \<and>
     bp_amountPaid q = rs_paid (cp_resolved p) \<and> bp_balanceDue q = max (cp_balance p) 0 \<and>
     (\<not> bp_locked q \<longrightarrow> bp_discountEntry q = cp_entry p \<and> bp_couponCode q = cd_couponCode (rs_auto (cp_resolved p)) \<and>
        bp_promotionName q = cd_promotionName (rs_auto (cp_resolved p)))"

text \<open>The order row holds the figures the preview shows.\<close>

definition preview_stored :: "bill_preview \<Rightarrow> order \<Rightarrow> bool" where
  "preview_stored q r \<longleftrightarrow>
     (if bp_locked q then bp_bill q = storedBill r
      else od_discountAmount r = to_column 100 (bill_discountAmount (bp_bill q)) \<and>
        od_taxAmount r = to_column 100 (bill_taxAmount (bp_bill q)) \<and> od_tipAmount r = to_column 100 (bill_tipAmount (bp_bill q)) \<and>
        od_totalAmount r = to_column 100 (bill_totalDue (bp_bill q)) \<and>
        od_couponCode r = bp_couponCode q \<and> od_promotionName r = bp_promotionName q \<and>
        od_discountEntry r = map_option (\<lambda>(ty, v). (ty, to_column 100 v)) (bp_discountEntry q))"

lemma previewBill_agrees:
  assumes "checkoutRead cfg rt b i d cap s = Inr (Proceed p)"
    and "present (od_customerId (cp_order p)) \<or> \<not> present (co_customerId d) \<or> rs_locked (cp_resolved p) \<or> rs_points (cp_resolved p) \<le> 0"
  obtains q where "previewBill cfg rt b i (co_adj d) s = Inr q" "preview_agrees q p"
  using assms(1)
proof (rule checkoutRead_resolved, goal_cases)
  case (1 v c)
  have "resolveBill cfg rt b v (co_adj d) (od_customerId (cp_order p)) s = Inr (cp_resolved p)"
    using assms(2) effectiveCustomer_Inr[OF 1(7)] 1(5) resolveBill_points[OF 1(5)] by blast
  then show ?case using 1(1)[of _] 1(2-6) checkoutRead_Proceed[OF assms(1)] checkoutRead_entry[OF assms(1)]
    by (simp add: previewBill_def Let_def preview_agrees_def)
qed

lemma resolveBill_nobody:
  assumes "resolveBill cfg rt b v a c s = Inr x" "\<not> rs_locked x" "0 < rs_points x" "\<not> present c'"
  shows "resolveBill cfg rt b v a c' s = Inl (BadRequest ''Cannot redeem loyalty points without a customer on the order'')"
  using assms by (auto simp: resolveBill_def Let_def ebind_Inr_iff split: option.splits if_splits)

lemma lockFigures_stored:
  assumes "preview_agrees q p" "rs_locked (cp_resolved p) \<Longrightarrow> rs_bill (cp_resolved p) = storedBill r"
  shows "preview_stored q (lockFigures d p n l r) \<and>
     preview_stored q ((lockFigures d p n l r)\<lparr>od_status := st, od_billedAt := ba\<rparr>)"
  using assms by (auto simp: preview_stored_def preview_agrees_def lockFigures_def Let_def storedBill_def)

text \<open>C38: the bill the preview shows is the bill the checkout charges. For a checkout that would go through on
  the state read, the preview of the same adjustments either has the same figures, discount, coupon, amount
  paid and balance, and once the transaction has committed the order row holds exactly these figures; or it
  is refused, and then only because points are redeemed for a customer first named at the till.\<close>

theorem preview_is_charge:
  assumes "checkoutRead cfg rt b i d cap s = Inr (Proceed p)" "checkoutTx cfg rt br b u d p s = Inr (st, skips, t)"
    and "keyed od_id (db_orders s)"
  shows "case previewBill cfg rt b i (co_adj d) s of
       Inr q \<Rightarrow> preview_agrees q p \<and> (\<forall>r \<in> set (db_orders t). od_id r = i \<longrightarrow> preview_stored q r)
     | Inl e \<Rightarrow> e = BadRequest ''Cannot redeem loyalty points without a customer on the order'' \<and>
         \<not> present (od_customerId (cp_order p)) \<and> present (co_customerId d) \<and> 0 < rs_points (cp_resolved p)"
proof (cases "present (od_customerId (cp_order p)) \<or> \<not> present (co_customerId d) \<or> rs_locked (cp_resolved p) \<or>
    rs_points (cp_resolved p) \<le> 0")
  case False
  obtain v c where v: "getOrder b i s = Inr v" "ov_order v = cp_order p"
    "resolveBill cfg rt b v (co_adj d) c s = Inr (cp_resolved p)"
    by (rule checkoutRead_resolved[OF assms(1)])
  have "resolveBill cfg rt b v (co_adj d) (od_customerId (cp_order p)) s =
      Inl (BadRequest ''Cannot redeem loyalty points without a customer on the order'')"
    by (rule resolveBill_nobody[OF v(3)]) (use False in auto)
  then show ?thesis using False v checkoutRead_Proceed[OF assms(1)] by (simp add: previewBill_def Let_def)
next
  case True
  then obtain q where q: "previewBill cfg rt b i (co_adj d) s = Inr q" "preview_agrees q p"
    by (rule previewBill_agrees[OF assms(1)])
  note read = checkoutRead_Proceed[OF assms(1)]
  have own: "x = cp_order p" if "x \<in> set (db_orders s)" "od_id x = i" for x
    using keyed_unique[OF assms(3) that(1)] that(2) findOrder_row read by metis
  have same: "rs_bill (cp_resolved p) = storedBill (cp_order p)" if "rs_locked (cp_resolved p)"
    using assms(1) by (rule checkoutRead_resolved) (use resolveBill_Inr that in metis)
  have "preview_stored q r" if r: "r \<in> set (db_orders t)" "od_id r = i" for r
    using assms(2)
  proof (rule checkoutTx_frame, goal_cases)
    case (1 n l gift)
    have t: "db_orders t = upd_where (openRow i) (if st_fullyPaid st then paidRow rt d p n l else lockFigures d p n l) (db_orders s)"
      using 1(2) read by simp
    from r(1)[unfolded t set_upd_where] obtain x where
      x: "x \<in> set (db_orders s)" "r = (if openRow i x then (if st_fullyPaid st then paidRow rt d p n l else lockFigures d p n l) x else x)"
      by auto
    then have "od_id x = i" using r(2) by (auto simp: lockFigures_total split: if_splits)
    then have e: "x = cp_order p" using own x(1) by blast
    show ?case using x(2) read lockFigures_stored[OF q(2) same, where d = d and n = n and l = l and st = PAID and ba = "Some (rt_now rt)"]
      by (simp add: e openRow_def paidRow_def split: if_splits)
  qed
  then show ?thesis using q by simp
qed

theorem preview_is_charge_witness:
  "\<exists>q st t. previewBill sample_config sample_runtime ''b'' ''c1'' (co_adj coin_pay) coin_db = Inr q \<and>
     checkoutTx sample_config sample_runtime sample_branch ''b'' ''ann'' coin_pay coin_plan coin_db = Inr (st, [], t) \<and>
     bp_balanceDue q = cents 50 \<and> (\<forall>r \<in> set (db_orders t). od_id r = ''c1'' \<longrightarrow> preview_stored q r)"
proof -
  obtain st t where c: "checkoutTx sample_config sample_runtime sample_branch ''b'' ''ann'' coin_pay coin_plan coin_db = Inr (st, [], t)"
    using coin_commit by blast
  have k: "keyed od_id (db_orders coin_db)" "\<not> present (co_customerId coin_pay)" by code_simp+
  have m: "max (cp_balance coin_plan) 0 = cents 50" by (simp add: coin_plan_def max_def in_range_def)
  show ?thesis
    using preview_is_charge[OF coin_read c k(1)] c k(2) m
    by (cases "previewBill sample_config sample_runtime ''b'' ''c1'' (co_adj coin_pay) coin_db")
      (auto simp: preview_agrees_def)
qed

section \<open>Refunds\<close>

text \<open>
  One refund: the transaction on the paid order as it was read at any time before (refunds do not change
  order rows), then the event and the audit row.
\<close>

inductive refund_step :: "config \<Rightarrow> db \<Rightarrow> db \<Rightarrow> bool" for cfg where
  "refundSchema d \<Longrightarrow> r \<in> set (db_orders s) \<Longrightarrow> od_status r = PAID \<Longrightarrow> refundTx cfg rt b u d r s = Inr (row, s1) \<Longrightarrow>
   refund_step cfg s (auditRow ''order.refunded'' (od_id r) (emit [OrderUpdated (od_id r) None] s1))"

inductive_cases refund_stepE: "refund_step cfg s t"

lemma refund_is_step: "refund cfg rt b i u d s = Inr (row, t) \<Longrightarrow> refundSchema d \<Longrightarrow> refund_step cfg s t"
proof (erule refund_InrE)
  fix r s1
  assume a: "refundSchema d" "findOrder b i s = Some r" "od_status r = PAID" "refundTx cfg rt b u d r s = Inr (row, s1)"
    "t = auditRow ''order.refunded'' i (emit [OrderUpdated i None] s1)"
  have r: "r \<in> set (db_orders s)" "od_id r = i" using findOrder_row[OF a(2)] by auto
  show "refund_step cfg s t" using refund_step.intros[OF a(1) r(1) a(3,4)] a(5) r(2) by simp
qed

definition refundsOf :: "string \<Rightarrow> db \<Rightarrow> refund_row list" where
  "refundsOf i s = filter (\<lambda>x. rf_orderId x = i) (db_refunds s)"

definition refundedCents :: "string \<Rightarrow> db \<Rightarrow> int" where
  "refundedCents i s = sum_list (map rf_amount (refundsOf i s))"

text \<open>No order has given back more than its total, no line more than its quantity.\<close>

definition refunds_ok :: "db \<Rightarrow> bool" where
  "refunds_ok s \<longleftrightarrow> (\<forall>x \<in> set (db_refunds s). 0 \<le> rf_amount x) \<and>
     (\<forall>r \<in> set (db_orders s). refundedCents (od_id r) s \<le> od_totalAmount r) \<and>
     (\<forall>it \<in> set (db_items s). returnedSoFar (oi_id it) s \<le> oi_quantity it)"

lemma alreadyRefunded_cents:
  assumes "sum_ok (map rf_amount (refundsOf i s))"
  shows "alreadyRefunded i s = cents (refundedCents i s)"
  using round2_fsum_cents[OF assms] by (simp add: alreadyRefunded_def refundedCents_def refundsOf_def comp_def)

lemma refundable_cents:
  assumes "sum_ok (map rf_amount (refundsOf (od_id r) s))" "in_range (od_totalAmount r)"
    "in_range (od_totalAmount r - refundedCents (od_id r) s)"
  shows "refundable r s = cents (od_totalAmount r - refundedCents (od_id r) s)"
  using assms(2,3) sum_ok_range[OF assms(1)]
  by (simp add: refundable_def alreadyRefunded_cents[OF assms(1)] refundedCents_def round2_fsub_cents)

lemma refundTx_amount:
  assumes "refundTx cfg rt b u d r s = Inr (row, t)" "refundSchema d"
    "sum_ok (map rf_amount (refundsOf (od_id r) s))" "in_range (od_totalAmount r)"
    "in_range (od_totalAmount r - refundedCents (od_id r) s)"
  shows "0 \<le> rf_amount row \<and> refundedCents (od_id r) s + rf_amount row \<le> od_totalAmount r"
proof -
  note f = refundTx_frame[OF assms(1)]
  have pos: "0 < rd_refundAmount d" using assms(2) by (simp add: refundSchema_def)
  have "rd_refundAmount d \<le> cents (od_totalAmount r - refundedCents (od_id r) s)"
    using f refundable_cents[OF assms(3-5)] by simp
  then have "to_column 100 (rd_refundAmount d) \<le> to_column 100 (cents (od_totalAmount r - refundedCents (od_id r) s))"
    using pos by (intro to_column_mono) auto
  then show ?thesis using f pos assms(5) by simp
qed

lemma returnItem_Inr:
  assumes "returnItem items rid x (ls, s) = Inr (ls', t)"
  shows "\<exists>i \<in> set items. oi_id i = ri_orderItemId x \<and> ri_quantity x \<le> oi_quantity i - returnedSoFar (oi_id i) s \<and>
     t = s\<lparr>db_stockReturns := db_stockReturns s @ [\<lparr>sr_orderItemId = oi_id i, sr_refundId = rid, sr_quantity = ri_quantity x\<rparr>]\<rparr>"
  using assms by (auto simp: returnItem_def Let_def dest!: find_SomeD split: option.splits if_splits)

lemma returned_snoc:
  "returnedSoFar j (s\<lparr>db_stockReturns := db_stockReturns s @ [\<lparr>sr_orderItemId = i, sr_refundId = rid, sr_quantity = q\<rparr>]\<rparr>) =
   returnedSoFar j s + (if j = i then q else 0)"
  by (simp add: returnedSoFar_def)

lemma returnItem_ok:
  assumes "returnItem items rid x (ls, s) = Inr (ls', t)" "set items \<subseteq> set (db_items s)" "keyed oi_id (db_items s)"
    and "\<forall>it \<in> set (db_items s). returnedSoFar (oi_id it) s \<le> oi_quantity it"
  shows "db_items t = db_items s \<and> (\<forall>it \<in> set (db_items t). returnedSoFar (oi_id it) t \<le> oi_quantity it)"
proof -
  obtain i where i: "i \<in> set items" "ri_quantity x \<le> oi_quantity i - returnedSoFar (oi_id i) s"
    "t = s\<lparr>db_stockReturns := db_stockReturns s @ [\<lparr>sr_orderItemId = oi_id i, sr_refundId = rid, sr_quantity = ri_quantity x\<rparr>]\<rparr>"
    using returnItem_Inr[OF assms(1)] by blast
  have "it = i" if "it \<in> set (db_items s)" "oi_id it = oi_id i" for it
    using keyed_unique[OF assms(3) that(1)] i(1) assms(2) that(2) by blast
  then have "returnedSoFar (oi_id it) t \<le> oi_quantity it" if "it \<in> set (db_items s)" for it
  proof (cases "oi_id it = oi_id i")
    case True
    then have "it = i" using \<open>\<And>it. it \<in> set (db_items s) \<Longrightarrow> oi_id it = oi_id i \<Longrightarrow> it = i\<close> that by blast
    then show ?thesis using i(2) by (simp add: i(3) returned_snoc)
  next
    case False
    then show ?thesis using assms(4) that by (simp add: i(3) returned_snoc)
  qed
  then show ?thesis by (simp add: i(3))
qed

lemma returnItems_ok:
  assumes "foldE (returnItem items rid) rets (ls, s) = Inr (ls', t)" "set items \<subseteq> set (db_items s)" "keyed oi_id (db_items s)"
    and "\<forall>it \<in> set (db_items s). returnedSoFar (oi_id it) s \<le> oi_quantity it"
  shows "\<forall>it \<in> set (db_items t). returnedSoFar (oi_id it) t \<le> oi_quantity it"
proof -
  have "case (ls', t) of (_, t) \<Rightarrow> db_items t = db_items s \<and> (\<forall>it \<in> set (db_items t). returnedSoFar (oi_id it) t \<le> oi_quantity it)"
  proof (rule foldE_invariant[OF assms(1)], goal_cases)
    case 1
    then show ?case using assms(4) by simp
  next
    case (2 x y z)
    then show ?case using returnItem_ok[of items rid x "fst y" "snd y" "fst z" "snd z"] assms(2,3)
      by (cases y; cases z) simp
  qed
  then show ?thesis by simp
qed

lemma returnedSoFar_cong: "db_stockReturns t = db_stockReturns s \<Longrightarrow> returnedSoFar j t = returnedSoFar j s"
  by (simp add: returnedSoFar_def)

lemma refundTx_returns:
  assumes "refundTx cfg rt b u d r s = Inr (row, t)" "keyed oi_id (db_items s)"
    and "\<forall>it \<in> set (db_items s). returnedSoFar (oi_id it) s \<le> oi_quantity it"
  shows "\<forall>it \<in> set (db_items t). returnedSoFar (oi_id it) t \<le> oi_quantity it"
proof -
  have "\<exists>s3 s4 rid. returnStep cfg b u (od_id r) rid (rd_returnedItems d) s3 = Inr s4 \<and> creditWallet r d s4 = Inr t \<and>
      db_items s3 = db_items s \<and> db_stockReturns s3 = db_stockReturns s"
    using assms(1) by (auto simp: refundTx_def freshId_def fiscalEnv_def ebind_Inr_iff Let_def split: if_splits)
      (intro exI conjI, assumption, assumption, simp_all)
  then obtain s3 s4 rid where s3: "db_items s3 = db_items s" "db_stockReturns s3 = db_stockReturns s"
    and s4: "returnStep cfg b u (od_id r) rid (rd_returnedItems d) s3 = Inr s4" and t: "creditWallet r d s4 = Inr t" by blast
  have "\<forall>it \<in> set (db_items s4). returnedSoFar (oi_id it) s4 \<le> oi_quantity it"
  proof (cases "rd_returnedItems d = []")
    case True
    then show ?thesis using s4 assms(3) s3 returnedSoFar_cong[OF s3(2)] by (simp add: returnStep_def)
  next
    case False
    then obtain ls s5 st where f: "foldE (returnItem (itemsOf (od_id r) s3) rid) (rd_returnedItems d) ([], s3) = Inr (ls, s5)"
      "s4 = s5\<lparr>db_stock := st\<rparr>" using s4 by (auto simp: returnStep_def ebind_Inr_iff)
    have "\<forall>it \<in> set (db_items s5). returnedSoFar (oi_id it) s5 \<le> oi_quantity it"
      by (rule returnItems_ok[OF f(1)]) (use assms(2,3) s3 returnedSoFar_cong[OF s3(2)] in \<open>auto simp: itemsOf_def\<close>)
    then show ?thesis by (simp add: f(2) returnedSoFar_def)
  qed
  then show ?thesis using creditWallet_frame[OF t] returnedSoFar_cong[of t s4] by simp
qed

lemma refundsOf_snoc: "db_refunds t = db_refunds s @ [row] \<Longrightarrow>
  refundsOf i t = refundsOf i s @ (if rf_orderId row = i then [row] else [])"
  by (simp add: refundsOf_def)

lemma refunds_ok_sum:
  assumes "refunds_ok s" "r \<in> set (db_orders s)" "od_totalAmount r \<le> 10 ^ 12" "length (refundsOf (od_id r) s) \<le> 1000"
  shows "sum_ok (map rf_amount (refundsOf (od_id r) s)) \<and> 0 \<le> refundedCents (od_id r) s \<and>
    refundedCents (od_id r) s \<le> od_totalAmount r"
proof -
  have nn: "\<forall>n \<in> set (map rf_amount (refundsOf (od_id r) s)). 0 \<le> n" using assms(1) by (auto simp: refunds_ok_def refundsOf_def)
  moreover have le: "refundedCents (od_id r) s \<le> od_totalAmount r" using assms(1,2) by (simp add: refunds_ok_def)
  ultimately show ?thesis using assms(3,4) sum_ok_nonneg[of "map rf_amount (refundsOf (od_id r) s)"]
      sum_list_nonneg[of "map rf_amount (refundsOf (od_id r) s)"] by (auto simp: refundedCents_def)
qed

lemma refund_step_ok:
  assumes "refund_step cfg s t" "refunds_ok s" "keyed od_id (db_orders s)" "keyed oi_id (db_items s)"
    and "\<forall>r \<in> set (db_orders s). od_totalAmount r \<le> 10 ^ 12 \<and> length (refundsOf (od_id r) s) \<le> 1000"
  shows "refunds_ok t"
  using assms(1)
proof (rule refund_stepE)
  fix d r rt b u row s1
  assume a: "t = auditRow ''order.refunded'' (od_id r) (emit [OrderUpdated (od_id r) None] s1)" "refundSchema d"
    "r \<in> set (db_orders s)" "refundTx cfg rt b u d r s = Inr (row, s1)"
  note f = refundTx_frame[OF a(4)] and so = refunds_ok_sum[OF assms(2) a(3)]
  have lim: "od_totalAmount r \<le> 10 ^ 12" "length (refundsOf (od_id r) s) \<le> 1000" using assms(5) a(3) by auto
  note so = so[OF lim]
  have "in_range (od_totalAmount r)" "in_range (od_totalAmount r - refundedCents (od_id r) s)"
    using so lim(1) by (auto simp: in_range_def)
  then have row: "0 \<le> rf_amount row" "refundedCents (od_id r) s + rf_amount row \<le> od_totalAmount r"
    using refundTx_amount[OF a(4,2)] so by auto
  have ref: "refundsOf i t = refundsOf i s @ (if od_id r = i then [row] else [])" for i
    using refundsOf_snoc[of t s row i] f a(1) by (simp add: frame)
  have "refundedCents (od_id x) t \<le> od_totalAmount x" if "x \<in> set (db_orders s)" for x
  proof (cases "od_id x = od_id r")
    case True
    then have "x = r" using keyed_unique[OF assms(3) that a(3)] by simp
    then show ?thesis using row(2) by (simp add: refundedCents_def ref)
  next
    case False
    then show ?thesis using assms(2) that by (auto simp: refundedCents_def ref refunds_ok_def)
  qed
  moreover have "\<forall>it \<in> set (db_items s1). returnedSoFar (oi_id it) s1 \<le> oi_quantity it"
    by (rule refundTx_returns[OF a(4) assms(4)]) (use assms(2) in \<open>simp add: refunds_ok_def\<close>)
  then have "\<forall>it \<in> set (db_items t). returnedSoFar (oi_id it) t \<le> oi_quantity it"
    using returnedSoFar_cong[of t s1] by (simp add: a(1) frame)
  moreover have "\<forall>x \<in> set (db_refunds t). 0 \<le> rf_amount x" "db_orders t = db_orders s"
    using f a(1) row(1) assms(2) by (auto simp: frame refunds_ok_def)
  ultimately show ?thesis by (simp add: refunds_ok_def)
qed

lemma refund_step_frame:
  assumes "refund_step cfg s t"
  shows "db_orders t = db_orders s \<and> db_items t = db_items s \<and> db_payments t = db_payments s \<and> prefix (db_refunds s) (db_refunds t)"
  using assms by (rule refund_stepE) (use refundTx_frame in \<open>simp add: frame\<close>)

lemma refund_run_frame:
  assumes "(refund_step cfg)\<^sup>*\<^sup>* s t"
  shows "db_orders t = db_orders s \<and> db_items t = db_items s \<and> db_payments t = db_payments s \<and> prefix (db_refunds s) (db_refunds t)"
  using assms by (induction rule: rtranclp_induct) (use refund_step_frame prefix_order.trans in force)+

lemma refundsOf_prefix: "prefix (db_refunds s) (db_refunds t) \<Longrightarrow> length (refundsOf i s) \<le> length (refundsOf i t)"
  by (auto simp: refundsOf_def prefix_def)

text \<open>C39: however many refunds are made, each on the order as it was read at some earlier time, what an order
  gave back never exceeds its total, in exact cents, and no sold line has more units returned than were
  sold; the orders, their lines and their payments are not touched. The bound of 1000 refunds of one order
  is the range in which the sum of doubles is exact.\<close>

theorem refunds_bounded:
  assumes "(refund_step cfg)\<^sup>*\<^sup>* s t" "refunds_ok s" "keyed od_id (db_orders s)" "keyed oi_id (db_items s)"
    and "\<forall>r \<in> set (db_orders s). od_totalAmount r \<le> 10 ^ 12 \<and> length (refundsOf (od_id r) t) \<le> 1000"
  shows "refunds_ok t \<and> db_orders t = db_orders s \<and> db_items t = db_items s \<and> db_payments t = db_payments s \<and>
     (\<forall>r \<in> set (db_orders t). 0 \<le> refundedCents (od_id r) t \<and> refundedCents (od_id r) t \<le> od_totalAmount r)"
proof -
  from assms(1,5) have ok: "refunds_ok t"
  proof (induction rule: rtranclp_induct)
    case (step u v)
    note f = refund_run_frame[OF step(1)] and g = refund_step_frame[OF step(2)]
    have le: "\<forall>r \<in> set (db_orders s). od_totalAmount r \<le> 10 ^ 12 \<and> length (refundsOf (od_id r) u) \<le> 1000"
      using step(4) refundsOf_prefix[of u v] g by (meson order.trans)
    show ?case by (rule refund_step_ok[OF step(2) step(3)[OF le]]) (use f le assms(3,4) in simp_all)
  qed (rule assms(2))
  have "0 \<le> refundedCents i t" for i using ok by (auto simp: refundedCents_def refunds_ok_def refundsOf_def intro!: sum_list_nonneg)
  then show ?thesis using ok refund_run_frame[OF assms(1)] by (simp add: refunds_ok_def)
qed

text \<open>A refund of 0.30 on a sale of 0.50.\<close>

definition coin_refund :: refund_dto where
  "coin_refund = \<lparr>rd_refundAmount = cents 30, rd_method = CASH, rd_returnedItems = []\<rparr>"

definition coin_sale :: db where
  "coin_sale = coin_db\<lparr>db_orders := [sample_order ''c1'' ''260101-0009'' PAID NOT_REQUIRED None 50],
     db_fiscal := \<lparr>vf_branches = [\<lparr>vb_id = ''b'', vb_restaurantId = ''r'', vb_country = ''IN'', vb_taxRegime = INDIA_GST, vb_taxId = None,
       vb_currency = ''INR'', vb_legalName = None, vb_name = ''B''\<rparr>], vf_settingsRows = [], vf_records = []\<rparr>\<rparr>"

lemma coin_refund_run:
  "\<exists>t. refundTx sample_config sample_runtime ''b'' ''ann'' coin_refund (sample_order ''c1'' ''260101-0009'' PAID NOT_REQUIRED None 50)
     coin_sale = Inr (\<lparr>rf_id = ''id0'', rf_orderId = ''c1'', rf_amount = 30, rf_method = CASH, rf_createdById = ''ann''\<rparr>, t)"
proof -
  let ?r = "sample_order ''c1'' ''260101-0009'' PAID NOT_REQUIRED None 50"
  have o: "od_id ?r = ''c1''" "od_totalAmount ?r = 50" "od_branchId ?r = ''b''" by (simp_all add: sample_order_def)
  have z: "refundsOf ''c1'' coin_sale = []" by (simp add: refundsOf_def coin_sale_def coin_db_def sample_db_def)
  have a: "refundable ?r coin_sale = cents 50"
    using refundable_cents[of ?r coin_sale] by (simp add: o z sum_ok_def in_range_def refundedCents_def)
  have b: "count_where (\<lambda>x. od_id x = ''c1'') (db_orders coin_sale) \<noteq> 0" "rt_ids sample_runtime 0 = ''id0''" "db_next coin_sale = 0"
    "db_fiscal coin_sale = \<lparr>vf_branches = [\<lparr>vb_id = ''b'', vb_restaurantId = ''r'', vb_country = ''IN'', vb_taxRegime = INDIA_GST,
       vb_taxId = None, vb_currency = ''INR'', vb_legalName = None, vb_name = ''B''\<rparr>], vf_settingsRows = [], vf_records = []\<rparr>" by code_simp+
  have c: "recordRefund e (fiscalSale ?r s) i a (db_fiscal coin_sale) = Inr (None, db_fiscal coin_sale)" for e s i a
    by (simp add: recordRefund_def fiscalSale_def o b(4) findBranch_def settingsOf_def)
  show ?thesis
    using a b(1) by (simp add: refundTx_def Let_def o freshId_def fiscalEnv_def c[unfolded b(4)] b returnStep_def creditWallet_def coin_refund_def in_range_def)
qed

theorem refunds_bounded_witness:
  "\<exists>t. refund_step sample_config coin_sale t \<and> refundedCents ''c1'' t = 30 \<and> refundedCents ''c1'' t \<le> 50 \<and>
     db_orders t = db_orders coin_sale"
proof -
  let ?r = "sample_order ''c1'' ''260101-0009'' PAID NOT_REQUIRED None 50"
  obtain s1 where c: "refundTx sample_config sample_runtime ''b'' ''ann'' coin_refund ?r coin_sale =
      Inr (\<lparr>rf_id = ''id0'', rf_orderId = ''c1'', rf_amount = 30, rf_method = CASH, rf_createdById = ''ann''\<rparr>, s1)"
    using coin_refund_run by blast
  have o: "db_orders coin_sale = [?r]" "od_id ?r = ''c1''" "od_status ?r = PAID" "od_totalAmount ?r = 50" "db_refunds coin_sale = []"
    by (simp_all add: sample_order_def coin_sale_def coin_db_def sample_db_def)
  let ?t = "auditRow ''order.refunded'' (od_id ?r) (emit [OrderUpdated (od_id ?r) None] s1)"
  have st: "refund_step sample_config coin_sale ?t"
    by (rule refund_step.intros[OF _ _ _ c]) (simp_all add: o refundSchema_def coin_refund_def in_range_def)
  have ref: "db_refunds s1 = [\<lparr>rf_id = ''id0'', rf_orderId = ''c1'', rf_amount = 30, rf_method = CASH, rf_createdById = ''ann''\<rparr>]"
    using refundTx_frame[OF c] o(5) by simp
  have k: "keyed od_id (db_orders coin_sale)" "keyed oi_id (db_items coin_sale)" by code_simp+
  have "db_stockReturns coin_sale = []" "db_items coin_sale = [sample_line ''i9'' ''c1'' ''tea'' 1 50]" by code_simp+
  then have ok: "refunds_ok coin_sale"
    by (simp add: refunds_ok_def o refundedCents_def refundsOf_def returnedSoFar_def) (simp add: sample_line_def)
  have "\<forall>r \<in> set (db_orders coin_sale). od_totalAmount r \<le> 10 ^ 12 \<and> length (refundsOf (od_id r) ?t) \<le> 1000"
    by (simp add: o refundsOf_def frame ref)
  note R = refunds_bounded[OF r_into_rtranclp[of "refund_step sample_config", OF st] ok k this]
  then have eq: "db_orders ?t = [?r]" using o(1) by simp
  have "refundedCents (od_id ?r) ?t \<le> od_totalAmount ?r" using R unfolding eq by simp
  then show ?thesis using st ref eq o by (intro exI[of _ ?t]) (simp add: refundedCents_def refundsOf_def frame)
qed

end
