(* ===== verification/Order_Schedule.thy ===== *)
theory Order_Schedule
  imports Order_Kitchen
begin

text \<open>
  Scheduled orders reach the kitchen: what a run of \<open>releaseDueScheduledOrders\<close> does, whatever orders are
  due, and that a second run has nothing left to do.
\<close>

text \<open>Every line of the order is on one of its tickets.\<close>

definition ticketed :: "string \<Rightarrow> order_item list \<Rightarrow> db \<Rightarrow> bool" where
  "ticketed i items s \<longleftrightarrow> (\<forall>l \<in> set items. \<exists>k \<in> set (kotsOf i s). \<exists>e \<in> set (db_kotItems s).
     ki_kotId e = kt_id k \<and> ki_orderItemId e = oi_id l)"

lemma generateKots_kots:
  "kotsOf j (generateKots cfg rt i items s) = kotsOf j s @
     (if j = i then kotRows rt i (itemsByStation cfg items) (db_next s) (length (kotsOf i s) + 1) else [])"
proof -
  have k: "db_kots (generateKots cfg rt i items s) =
      db_kots s @ kotRows rt i (itemsByStation cfg items) (db_next s) (length (kotsOf i s) + 1)"
    by (simp add: generateKots_state Let_def)
  have o: "\<forall>k \<in> set (kotRows rt i gs n q). kt_orderId k = i" for gs n q using kotRows_order by blast
  show ?thesis unfolding kotsOf_def k filter_append using o by (auto simp: filter_empty_conv filter_id_conv)
qed

lemma generateKots_items:
  "db_kotItems (generateKots cfg rt i items s) = db_kotItems s @ kotItemRows rt (itemsByStation cfg items) (db_next s)"
  by (simp add: generateKots_state Let_def)

lemma generateKots_ticketed: "ticketed i items (generateKots cfg rt i items s)"
  unfolding ticketed_def
proof
  let ?gs = "itemsByStation cfg items"
  let ?rows = "kotRows rt i ?gs (db_next s) (length (kotsOf i s) + 1)"
  fix l assume "l \<in> set items"
  then have "l \<in> set (concat (map snd ?gs))" using itemsByStation_mset[of cfg items] by (metis set_mset_mset)
  then have "oi_id l \<in> set (map ki_orderItemId (kotItemRows rt ?gs (db_next s)))" unfolding kotItemRows_items by auto
  then obtain e where e: "e \<in> set (kotItemRows rt ?gs (db_next s))" "ki_orderItemId e = oi_id l" by auto
  from kotItemRows_ticket[OF e(1), of i "length (kotsOf i s) + 1"] obtain k where "k \<in> set ?rows" "kt_id k = ki_kotId e" by blast
  then show "\<exists>k \<in> set (kotsOf i (generateKots cfg rt i items s)). \<exists>e \<in> set (db_kotItems (generateKots cfg rt i items s)).
     ki_kotId e = kt_id k \<and> ki_orderItemId e = oi_id l"
    using e by (intro bexI[of _ k] bexI[of _ e]) (simp_all add: generateKots_kots generateKots_items)
qed

lemma generateKots_nonempty: "items \<noteq> [] \<Longrightarrow> kotsOf i (generateKots cfg rt i items s) \<noteq> []"
  using generateKots_ticketed[of i items cfg rt s] by (cases items) (auto simp: ticketed_def)

text \<open>Releasing a list of orders with different identifiers, one after the other.\<close>

lemma releaseOne_sel:
  "kotsOf j (releaseOne cfg rt d s) = kotsOf j (generateKots cfg rt (od_id (fst d)) (snd d) s)"
  "db_kotItems (releaseOne cfg rt d s) = db_kotItems (generateKots cfg rt (od_id (fst d)) (snd d) s)"
  "ticketed j items (releaseOne cfg rt d s) = ticketed j items (generateKots cfg rt (od_id (fst d)) (snd d) s)"
  by (cases d; simp add: releaseOne_def kotsOf_def ticketed_def frame)+

lemma ticketed_mono:
  "ticketed i items s \<Longrightarrow> set (kotsOf i s) \<subseteq> set (kotsOf i t) \<Longrightarrow> set (db_kotItems s) \<subseteq> set (db_kotItems t) \<Longrightarrow> ticketed i items t"
  unfolding ticketed_def by blast

lemma releaseAll_tickets:
  assumes "distinct (map (\<lambda>d. od_id (fst d)) ds)"
  shows "(\<forall>d \<in> set ds. ticketed (od_id (fst d)) (snd d) (fold (releaseOne cfg rt) ds s) \<and>
       (snd d \<noteq> [] \<longrightarrow> kotsOf (od_id (fst d)) (fold (releaseOne cfg rt) ds s) \<noteq> [])) \<and>
     (\<forall>j. set (kotsOf j s) \<subseteq> set (kotsOf j (fold (releaseOne cfg rt) ds s))) \<and>
     (\<forall>j. j \<notin> (\<lambda>d. od_id (fst d)) ` set ds \<longrightarrow> kotsOf j (fold (releaseOne cfg rt) ds s) = kotsOf j s) \<and>
     set (db_kotItems s) \<subseteq> set (db_kotItems (fold (releaseOne cfg rt) ds s))"
  using assms
proof (induction ds arbitrary: s)
  case (Cons d ds)
  let ?s = "releaseOne cfg rt d s"
  let ?t = "fold (releaseOne cfg rt) ds ?s"
  have IH: "(\<forall>d \<in> set ds. ticketed (od_id (fst d)) (snd d) ?t \<and> (snd d \<noteq> [] \<longrightarrow> kotsOf (od_id (fst d)) ?t \<noteq> []))"
    "set (kotsOf j ?s) \<subseteq> set (kotsOf j ?t)" "j \<notin> (\<lambda>d. od_id (fst d)) ` set ds \<Longrightarrow> kotsOf j ?t = kotsOf j ?s"
    "set (db_kotItems ?s) \<subseteq> set (db_kotItems ?t)" for j using Cons.IH[of ?s] Cons.prems by auto
  have st: "set (kotsOf j s) \<subseteq> set (kotsOf j ?s)" "j \<noteq> od_id (fst d) \<Longrightarrow> kotsOf j ?s = kotsOf j s"
    "set (db_kotItems s) \<subseteq> set (db_kotItems ?s)" for j
    by (simp_all add: releaseOne_sel generateKots_kots generateKots_items)
  have "ticketed (od_id (fst d)) (snd d) ?s" by (simp add: releaseOne_sel generateKots_ticketed)
  then have "ticketed (od_id (fst d)) (snd d) ?t" using IH(2,4) by (rule ticketed_mono)
  moreover have "snd d \<noteq> [] \<longrightarrow> kotsOf (od_id (fst d)) ?t \<noteq> []"
    using IH(2)[of "od_id (fst d)"] generateKots_nonempty[of "snd d" "od_id (fst d)" cfg rt s] by (auto simp: releaseOne_sel)
  ultimately show ?case using IH st by (auto simp: subset_iff)
qed simp

text \<open>C40: a scheduled order reaches the kitchen. A run of the release job at a moment not more than the lead
  time before the order's own puts every line of every open, accepted order that has no ticket yet on a
  ticket, and counts these orders; no other order gets a ticket, and no order changes. An order with lines
  is released once: it is due for no later run, at whatever time.\<close>

theorem scheduled_orders_sent:
  assumes "releaseDueScheduledOrders cfg rt s = (n, t)" "keyed od_id (db_orders s)"
  shows "n = length (dueOrders rt s) \<and> db_orders t = db_orders s \<and>
     (\<forall>r \<in> set (db_orders s). \<forall>T. od_status r = OPEN \<and> od_acceptance r \<in> {NOT_REQUIRED, ORDER_ACCEPTED} \<and>
        od_scheduledFor r = Some T \<and> T - SCHEDULE_LEAD_MS \<le> rt_now rt \<and> kotsOf (od_id r) s = [] \<longrightarrow>
        ticketed (od_id r) (itemsOf (od_id r) s) t) \<and>
     (\<forall>r \<in> set (db_orders s). r \<notin> set (dueOrders rt s) \<longrightarrow> kotsOf (od_id r) t = kotsOf (od_id r) s) \<and>
     (\<forall>r \<in> set (dueOrders rt s). \<forall>rt'. itemsOf (od_id r) s \<noteq> [] \<longrightarrow> r \<notin> set (dueOrders rt' t))"
proof -
  let ?ds = "map (\<lambda>r. (r, itemsOf (od_id r) s)) (dueOrders rt s)"
  have n: "n = length (dueOrders rt s)" and t: "t = fold (releaseOne cfg rt) ?ds s"
    using assms(1) by (simp_all add: releaseDueScheduledOrders_def Let_def)
  have "keyed od_id (dueOrders rt s)" using assms(2) by (simp add: dueOrders_def keyed_filter)
  then have "distinct (map (\<lambda>d. od_id (fst d)) ?ds)" by (simp add: keyed_def comp_def)
  note all = releaseAll_tickets[OF this, of cfg rt s, folded t]
  have ids: "(\<lambda>d. od_id (fst d)) ` set ?ds = od_id ` set (dueOrders rt s)" by (auto simp: image_iff)
  have sub: "set (dueOrders rt s) \<subseteq> set (db_orders s)" by (auto simp: dueOrders_def)
  have sent: "ticketed (od_id r) (itemsOf (od_id r) s) t \<and> (itemsOf (od_id r) s \<noteq> [] \<longrightarrow> kotsOf (od_id r) t \<noteq> [])"
    if "r \<in> set (dueOrders rt s)" for r using all that by auto
  have due: "r \<in> set (dueOrders rt s)" if "r \<in> set (db_orders s)" "od_status r = OPEN \<and> od_acceptance r \<in> {NOT_REQUIRED, ORDER_ACCEPTED} \<and>
        od_scheduledFor r = Some T \<and> T - SCHEDULE_LEAD_MS \<le> rt_now rt \<and> kotsOf (od_id r) s = []" for r T
    using that by (auto simp: dueOrders_def)
  have other: "kotsOf (od_id r) t = kotsOf (od_id r) s" if r: "r \<in> set (db_orders s)" "r \<notin> set (dueOrders rt s)" for r
  proof -
    have "od_id r \<notin> od_id ` set (dueOrders rt s)" using r sub keyed_unique[OF assms(2) r(1)] by (auto simp: subset_iff)
    then show ?thesis using all unfolding ids by blast
  qed
  have "r \<notin> set (dueOrders rt' t)" if "r \<in> set (dueOrders rt s)" "itemsOf (od_id r) s \<noteq> []" for r rt'
    using sent[OF that(1)] that(2) by (simp add: dueOrders_def)
  moreover have "db_orders t = db_orders s" using releaseAll_frame unfolding t by blast
  ultimately show ?thesis using n sent due other by blast
qed

text \<open>An order for 13:00 (in milliseconds from a sample now), released 20 minutes before.\<close>

definition lunch_db :: db where
  "lunch_db = sample_db\<lparr>db_orders := [(sample_order ''web2'' ''260101-0005'' OPEN ORDER_ACCEPTED None 10000)\<lparr>od_scheduledFor := Some 2200000\<rparr>],
     db_items := [sample_line ''i7'' ''web2'' ''tea'' 1 10000], db_kots := [], db_kotItems := []\<rparr>"

theorem scheduled_orders_sent_witness:
  "fst (releaseDueScheduledOrders sample_config sample_runtime lunch_db) = 1 \<and>
   ticketed ''web2'' [sample_line ''i7'' ''web2'' ''tea'' 1 10000] (snd (releaseDueScheduledOrders sample_config sample_runtime lunch_db))"
proof -
  let ?r = "(sample_order ''web2'' ''260101-0005'' OPEN ORDER_ACCEPTED None 10000)\<lparr>od_scheduledFor := Some 2200000\<rparr>"
  have o: "db_orders lunch_db = [?r]" "itemsOf ''web2'' lunch_db = [sample_line ''i7'' ''web2'' ''tea'' 1 10000]" "kotsOf ''web2'' lunch_db = []"
    by (simp_all add: lunch_db_def itemsOf_def kotsOf_def sample_line_def)
  have r: "od_id ?r = ''web2''" "od_status ?r = OPEN" "od_acceptance ?r = ORDER_ACCEPTED" "od_scheduledFor ?r = Some 2200000"
    "rt_now sample_runtime = 1000000" by (simp_all add: sample_order_def sample_runtime_def)
  have "dueOrders sample_runtime lunch_db = [?r]" by (simp add: dueOrders_def o r SCHEDULE_LEAD_MS_def)
  moreover have k: "keyed od_id (db_orders lunch_db)" by (simp add: o keyed_def)
  ultimately show ?thesis
    using scheduled_orders_sent[OF surjective_pairing k, of sample_config sample_runtime]
    by (simp add: o r SCHEDULE_LEAD_MS_def)
qed

end
