(* ===== verification/Net_Guard.thy ===== *)
theory Net_Guard
  imports Prelude "HOL-Library.Word"
begin

text \<open>
  The guard on webhook targets, \<open>modules/webhooks/net-guard.ts\<close>: which addresses are refused as private
  and what a configured URL resolves to. \<open>isIP\<close> is the function of \<open>node:net\<close>; the platform's URL parser
  and its name lookup are arguments.
\<close>

unbundle bit_operations_syntax

section \<open>Strings of the guard\<close>

definition to_lower :: "string \<Rightarrow> string" where
  "to_lower s = map (\<lambda>c. if 65 \<le> (of_char c :: nat) \<and> (of_char c :: nat) \<le> 90
                         then char_of ((of_char c :: nat) + 32) else c) s"

definition starts_with :: "string \<Rightarrow> string \<Rightarrow> bool" where
  "starts_with p s \<longleftrightarrow> take (length p) s = p"

section \<open>\<open>isIP\<close>\<close>

definition octet :: "string \<Rightarrow> bool" where
  "octet p \<longleftrightarrow> p \<noteq> [] \<and> length p \<le> 3 \<and> list_all is_digit p \<and> (1 < length p \<longrightarrow> hd p \<noteq> CHR ''0'') \<and> str_nat p \<le> 255"

definition isIPv4 :: "string \<Rightarrow> bool" where
  "isIPv4 s \<longleftrightarrow> length (split_on CHR ''.'' s) = 4 \<and> list_all octet (split_on CHR ''.'' s)"

definition hex_digit :: "char \<Rightarrow> bool" where
  "hex_digit c \<longleftrightarrow> is_digit c \<or> (97 \<le> (of_char c :: nat) \<and> (of_char c :: nat) \<le> 102) \<or> (65 \<le> (of_char c :: nat) \<and> (of_char c :: nat) \<le> 70)"

definition hex_group :: "string \<Rightarrow> bool" where
  "hex_group p \<longleftrightarrow> p \<noteq> [] \<and> length p \<le> 4 \<and> list_all hex_digit p"

text \<open>The number of 16-bit groups a list of pieces stands for; a dotted quad may close it and counts twice.\<close>

fun group_count :: "string list \<Rightarrow> nat option" where
  "group_count [] = Some 0"
| "group_count [p] = (if hex_group p then Some 1 else if isIPv4 p then Some 2 else None)"
| "group_count (p # q # ps) = (if hex_group p then map_option Suc (group_count (q # ps)) else None)"

fun cut_double_colon :: "string \<Rightarrow> (string \<times> string) option" where
  "cut_double_colon (x # y # s) = (if x = CHR '':'' \<and> y = CHR '':'' then Some ([], s)
     else map_option (\<lambda>(l, r). (x # l, r)) (cut_double_colon (y # s)))"
| "cut_double_colon s = None"

definition pieces :: "string \<Rightarrow> string list" where
  "pieces s = (if s = [] then [] else split_on CHR '':'' s)"

definition zone_char :: "char \<Rightarrow> bool" where
  "zone_char c \<longleftrightarrow> is_digit c \<or> (97 \<le> (of_char c :: nat) \<and> (of_char c :: nat) \<le> 122) \<or>
     (65 \<le> (of_char c :: nat) \<and> (of_char c :: nat) \<le> 90) \<or> c \<in> set ''-.:''"

definition isIPv6 :: "string \<Rightarrow> bool" where
  "isIPv6 s =
     (let body = takeWhile (\<lambda>c. c \<noteq> CHR ''%'') s; zone = dropWhile (\<lambda>c. c \<noteq> CHR ''%'') s in
      (zone = [] \<or> (1 < length zone \<and> list_all zone_char (tl zone))) \<and>
      (case cut_double_colon body of
         None \<Rightarrow> group_count (split_on CHR '':'' body) = Some 8
       | Some (l, r) \<Rightarrow> list_all hex_group (pieces l) \<and>
           (case group_count (pieces r) of None \<Rightarrow> False | Some n \<Rightarrow> length (pieces l) + n \<le> 7)))"

definition isIP :: "string \<Rightarrow> nat" where
  "isIP s = (if isIPv4 s then 4 else if isIPv6 s then 6 else 0)"

section \<open>Private addresses\<close>

definition ipv4ToInt :: "string \<Rightarrow> nat" where
  "ipv4ToInt ip = foldl (\<lambda>acc p. acc * 256 + str_nat p) 0 (split_on CHR ''.'' ip)"

definition V4_BLOCKED :: "(string \<times> nat) list" where
  "V4_BLOCKED = [(''0.0.0.0'', 8), (''10.0.0.0'', 8), (''100.64.0.0'', 10), (''127.0.0.0'', 8),
     (''169.254.0.0'', 16), (''172.16.0.0'', 12), (''192.0.0.0'', 24), (''192.168.0.0'', 16),
     (''198.18.0.0'', 15), (''224.0.0.0'', 4), (''240.0.0.0'', 4)]"

text \<open>One entry of the table: a 32-bit comparison under the mask of the entry.\<close>

definition v4Matches :: "nat \<Rightarrow> string \<times> nat \<Rightarrow> bool" where
  "v4Matches n e = (let m = (if snd e = 0 then 0 else push_bit (32 - snd e) (- 1 :: 32 word))
     in (word_of_nat n AND m) = (word_of_nat (ipv4ToInt (fst e)) AND m))"

text \<open>The digits-and-dots text behind \<open>::ffff:\<close>, when the address has that form.\<close>

definition mappedV4 :: "string \<Rightarrow> string option" where
  "mappedV4 s = (if starts_with ''::ffff:'' s \<and> length (split_on CHR ''.'' (drop 7 s)) = 4 \<and>
        list_all (\<lambda>p. p \<noteq> [] \<and> list_all is_digit p) (split_on CHR ''.'' (drop 7 s))
      then Some (drop 7 s) else None)"

lemma mappedV4_shorter: "mappedV4 (to_lower s) = Some m \<Longrightarrow> length m < length s"
  by (cases s) (auto simp: mappedV4_def starts_with_def to_lower_def split: if_splits)

function isPrivateAddress :: "string \<Rightarrow> bool" where
  "isPrivateAddress ip =
     (if isIP ip = 4 then list_ex (v4Matches (ipv4ToInt ip)) V4_BLOCKED
      else if isIP ip = 6 then
        (let lower = to_lower ip in
         case mappedV4 lower of
           Some m \<Rightarrow> isPrivateAddress m
         | None \<Rightarrow>
             lower = ''::'' \<or> lower = ''::1'' \<or> starts_with ''fc'' lower \<or> starts_with ''fd'' lower \<or>
             starts_with ''fe8'' lower \<or> starts_with ''fe9'' lower \<or> starts_with ''fea'' lower \<or>
             starts_with ''feb'' lower \<or> starts_with ''ff'' lower)
      else True)"
  by pat_completeness auto
termination by (relation "measure length") (auto simp: mappedV4_shorter)

declare isPrivateAddress.simps [simp del]

section \<open>Resolving a target\<close>

record url =
  ul_protocol :: string
  ul_hostname :: string
  ul_username :: string
  ul_password :: string

record net_options =
  no_allowPrivate :: bool
  no_allowInsecure :: bool

record resolved_target =
  rg_url :: url
  rg_address :: string
  rg_family :: nat

definition netOptionsFromEnv :: "(string \<Rightarrow> string option) \<Rightarrow> net_options" where
  "netOptionsFromEnv env =
     \<lparr>no_allowPrivate = (env ''WEBHOOKS_ALLOW_PRIVATE'' = Some ''true''),
      no_allowInsecure = (env ''WEBHOOKS_ALLOW_INSECURE'' = Some ''true'')\<rparr>"

text \<open>\<open>hostname.replace(/^\[|\]$/g, '')\<close>\<close>

definition unbracket :: "string \<Rightarrow> string" where
  "unbracket h = (let a = (if h \<noteq> [] \<and> hd h = CHR ''['' then tl h else h)
     in if a \<noteq> [] \<and> last a = CHR '']'' then butlast a else a)"

definition resolveWebhookTarget ::
  "(string \<Rightarrow> url option) \<Rightarrow> (string \<Rightarrow> (string \<times> nat) list option) \<Rightarrow> string \<Rightarrow> net_options \<Rightarrow> string + resolved_target" where
  "resolveWebhookTarget parseUrl resolve raw opts =
     (case parseUrl raw of
        None \<Rightarrow> Inl ''That is not a valid URL''
      | Some u \<Rightarrow>
          if ul_protocol u \<noteq> ''https:'' \<and> \<not> (no_allowInsecure opts \<and> ul_protocol u = ''http:'')
          then Inl ''Webhook URLs must use https''
          else if ul_username u \<noteq> [] \<or> ul_password u \<noteq> []
          then Inl ''Put credentials in the signature secret, not the URL''
          else
            (let host = unbracket (ul_hostname u) in
             case (if isIP host \<noteq> 0 then Some [(host, isIP host)] else resolve host) of
               None \<Rightarrow> Inl ''Could not resolve that host''
             | Some [] \<Rightarrow> Inl ''Could not resolve that host''
             | Some (a # as) \<Rightarrow>
                 if \<not> no_allowPrivate opts \<and> list_ex (\<lambda>x. isPrivateAddress (fst x)) (a # as)
                 then Inl ''That address points to a private or internal network''
                 else Inr \<lparr>rg_url = u, rg_address = fst a, rg_family = (if snd a = 6 then 6 else 4)\<rparr>))"


section \<open>What the guard keeps out\<close>

definition dotted :: "nat \<Rightarrow> nat \<Rightarrow> nat \<Rightarrow> nat \<Rightarrow> string" where
  "dotted a b c d = nat_str a @ ''.'' @ nat_str b @ ''.'' @ nat_str c @ ''.'' @ nat_str d"

text \<open>Addresses that are not on the public internet: RFC 1122, 1918, 2544, 3927, 5737, 5771, 6598.\<close>

definition reserved_v4 :: "nat \<Rightarrow> nat \<Rightarrow> nat \<Rightarrow> bool" where
  "reserved_v4 a b c \<longleftrightarrow> a = 0 \<or> a = 10 \<or> (a = 100 \<and> 64 \<le> b \<and> b < 128) \<or> a = 127 \<or>
     (a = 169 \<and> b = 254) \<or> (a = 172 \<and> 16 \<le> b \<and> b < 32) \<or> (a = 192 \<and> b = 0 \<and> c = 0) \<or>
     (a = 192 \<and> b = 168) \<or> (a = 198 \<and> (b = 18 \<or> b = 19)) \<or> 224 \<le> a"

lemma digit_chars:
  "digit 0 = CHR ''0''" "digit 1 = CHR ''1''" "digit 2 = CHR ''2''" "digit 3 = CHR ''3''" "digit 7 = CHR ''7''"
  by code_simp+

lemma nat_str_no_dot: "CHR ''.'' \<notin> set (nat_str n)"
  using nat_str_digits[of "CHR ''.''" n] by (auto simp: is_digit_def)

lemma split_dotted: "split_on CHR ''.'' (dotted a b c d) = [nat_str a, nat_str b, nat_str c, nat_str d]"
  by (simp add: dotted_def split_on_sep split_on_plain nat_str_no_dot)

lemma nat_str_nonempty: "nat_str n \<noteq> []"
  by (subst nat_str.simps) simp

lemma nat_str_head: "0 < n \<Longrightarrow> hd (nat_str n) \<noteq> digit 0"
proof (induction n rule: nat_str.induct)
  case (1 n)
  show ?case
  proof (cases "n < 10")
    case True
    then show ?thesis using 1(2) digit_inj[of n 0] by (subst nat_str.simps) simp
  next
    case False
    then show ?thesis using 1 by (subst nat_str.simps) (simp add: nat_str_nonempty hd_append)
  qed
qed

lemma octet_nat_str: "n < 256 \<Longrightarrow> octet (nat_str n)"
proof -
  assume n: "n < 256"
  have "hd (nat_str n) \<noteq> CHR ''0''" if "1 < length (nat_str n)"
  proof (cases "n = 0")
    case True
    have "nat_str 0 = [digit 0]" by (subst nat_str.simps) simp
    with that True show ?thesis by simp
  next
    case False
    then show ?thesis using nat_str_head[of n] by (simp add: digit_chars)
  qed
  then show ?thesis using n length_nat_str[of 3 n]
    by (auto simp: octet_def nat_str_nonempty list_all_iff nat_str_digits)
qed

lemma isIP_dotted: "a < 256 \<Longrightarrow> b < 256 \<Longrightarrow> c < 256 \<Longrightarrow> d < 256 \<Longrightarrow> isIP (dotted a b c d) = 4"
  by (simp add: isIP_def isIPv4_def split_dotted octet_nat_str)

lemma ipv4ToInt_dotted: "ipv4ToInt (dotted a b c d) = a * 2 ^ 24 + b * 2 ^ 16 + c * 2 ^ 8 + d"
  by (simp add: ipv4ToInt_def split_dotted)

text \<open>Two words agree under a prefix mask exactly when they agree above the masked-out bits.\<close>

lemma prefix_mask:
  fixes v w :: "32 word"
  shows "(v AND NOT (mask k)) = (w AND NOT (mask k)) \<longleftrightarrow> unat v div 2 ^ k = unat w div 2 ^ k"
proof -
  have "(v AND NOT (mask k)) = push_bit k (drop_bit k v)" for v :: "32 word"
    by (rule bit_word_eqI) (auto simp: bit_simps)
  moreover have "drop_bit k (push_bit k (drop_bit k v)) = drop_bit k v" for v :: "32 word"
    by (rule bit_word_eqI) (auto simp: bit_simps dest: bit_imp_le_length)
  ultimately have "(v AND NOT (mask k)) = (w AND NOT (mask k)) \<longleftrightarrow> drop_bit k v = drop_bit k w" by metis
  also have "\<dots> \<longleftrightarrow> unat v div 2 ^ k = unat w div 2 ^ k"
    by (simp only: word_unat_eq_iff unat_drop_bit_eq) (simp only: drop_bit_eq_div)
  finally show ?thesis .
qed

lemma v4Matches_div:
  "0 < bits \<Longrightarrow> n < 2 ^ 32 \<Longrightarrow> ipv4ToInt base < 2 ^ 32 \<Longrightarrow>
   v4Matches n (base, bits) \<longleftrightarrow> n div 2 ^ (32 - bits) = ipv4ToInt base div 2 ^ (32 - bits)"
  by (simp add: v4Matches_def Let_def prefix_mask unat_of_nat)


lemma octets_div:
  assumes "b < 256" "c < 256" "d < (256::nat)"
  shows "(a * 2 ^ 24 + b * 2 ^ 16 + c * 2 ^ 8 + d) div 2 ^ 24 = a"
    "(a * 2 ^ 24 + b * 2 ^ 16 + c * 2 ^ 8 + d) div 2 ^ 16 = a * 256 + b"
    "(a * 2 ^ 24 + b * 2 ^ 16 + c * 2 ^ 8 + d) div 2 ^ 8 = (a * 256 + b) * 256 + c"
  using assms by (intro div_nat_eqI; simp)+

lemma quad_div:
  fixes a b c d :: nat
  assumes "b < 256" "c < 256" "d < (256::nat)"
  defines "n \<equiv> a * 2 ^ 24 + b * 2 ^ 16 + c * 2 ^ 8 + d"
  shows "n div 2 ^ 24 = a" "n div 2 ^ 16 = a * 256 + b" "n div 2 ^ 8 = (a * 256 + b) * 256 + c"
    "n div 2 ^ 22 = (a * 256 + b) div 64" "n div 2 ^ 20 = (a * 256 + b) div 16"
    "n div 2 ^ 17 = (a * 256 + b) div 2" "n div 2 ^ 28 = a div 16"
proof -
  note o = octets_div[OF assms(1-3), of a, folded n_def]
  show "n div 2 ^ 24 = a" "n div 2 ^ 16 = a * 256 + b" "n div 2 ^ 8 = (a * 256 + b) * 256 + c" by (fact o)+
  have p: "n div 2 ^ (i + j) = n div 2 ^ i div 2 ^ j" for i j by (simp add: power_add div_mult2_eq)
  show "n div 2 ^ 22 = (a * 256 + b) div 64" using p[of 16 6] unfolding o by simp
  show "n div 2 ^ 20 = (a * 256 + b) div 16" using p[of 16 4] unfolding o by simp
  show "n div 2 ^ 17 = (a * 256 + b) div 2" using p[of 16 1] unfolding o by simp
  show "n div 2 ^ 28 = a div 16" using p[of 24 4] unfolding o by simp
qed

lemma blocked_bases:
  "ipv4ToInt ''0.0.0.0'' = 0" "ipv4ToInt ''10.0.0.0'' = 10 * 2 ^ 24" "ipv4ToInt ''100.64.0.0'' = 401 * 2 ^ 22"
  "ipv4ToInt ''127.0.0.0'' = 127 * 2 ^ 24" "ipv4ToInt ''169.254.0.0'' = 43518 * 2 ^ 16"
  "ipv4ToInt ''172.16.0.0'' = 2753 * 2 ^ 20" "ipv4ToInt ''192.0.0.0'' = 12582912 * 2 ^ 8"
  "ipv4ToInt ''192.168.0.0'' = 49320 * 2 ^ 16" "ipv4ToInt ''198.18.0.0'' = 25353 * 2 ^ 17"
  "ipv4ToInt ''224.0.0.0'' = 14 * 2 ^ 28" "ipv4ToInt ''240.0.0.0'' = 15 * 2 ^ 28"
  by (simp_all add: ipv4ToInt_def str_nat_def digit_val_def)

lemma div_between: "0 < k \<Longrightarrow> x div k = v \<longleftrightarrow> v * k \<le> x \<and> x < v * k + k" for x k v :: nat
  by (metis add.commute div_nat_eqI div_times_less_eq_dividend dividend_less_div_times mult.commute mult_Suc)

lemma blocked_divs:
  assumes "b < 256" "c < (256::nat)" "a < 256"
  shows "(a * 256 + b) div 64 = 401 \<longleftrightarrow> a = 100 \<and> 64 \<le> b \<and> b < 128"
    "a * 256 + b = 43518 \<longleftrightarrow> a = 169 \<and> b = 254"
    "(a * 256 + b) div 16 = 2753 \<longleftrightarrow> a = 172 \<and> 16 \<le> b \<and> b < 32"
    "(a * 256 + b) * 256 + c = 12582912 \<longleftrightarrow> a = 192 \<and> b = 0 \<and> c = 0"
    "a * 256 + b = 49320 \<longleftrightarrow> a = 192 \<and> b = 168"
    "(a * 256 + b) div 2 = 25353 \<longleftrightarrow> a = 198 \<and> (b = 18 \<or> b = 19)"
    "a div 16 = 14 \<or> a div 16 = 15 \<longleftrightarrow> 224 \<le> a"
proof -
  show "(a * 256 + b) div 64 = 401 \<longleftrightarrow> a = 100 \<and> 64 \<le> b \<and> b < 128" using assms by (cases a "100::nat" rule: linorder_cases) (auto simp: div_between)
  show "a * 256 + b = 43518 \<longleftrightarrow> a = 169 \<and> b = 254" using assms by (cases a "169::nat" rule: linorder_cases) auto
  show "(a * 256 + b) div 16 = 2753 \<longleftrightarrow> a = 172 \<and> 16 \<le> b \<and> b < 32" using assms by (cases a "172::nat" rule: linorder_cases) (auto simp: div_between)
  show "(a * 256 + b) * 256 + c = 12582912 \<longleftrightarrow> a = 192 \<and> b = 0 \<and> c = 0" using assms by (cases a "192::nat" rule: linorder_cases) auto
  show "a * 256 + b = 49320 \<longleftrightarrow> a = 192 \<and> b = 168" using assms by (cases a "192::nat" rule: linorder_cases) auto
  show "(a * 256 + b) div 2 = 25353 \<longleftrightarrow> a = 198 \<and> (b = 18 \<or> b = 19)" using assms by (cases a "198::nat" rule: linorder_cases) (auto simp: div_between)
  show "a div 16 = 14 \<or> a div 16 = 15 \<longleftrightarrow> 224 \<le> a" using assms by (auto simp: div_between)
qed

lemma v4Matches_table:
  assumes "n < 2 ^ 32" "ipv4ToInt base = v * 2 ^ (32 - bits)" "0 < bits" "v < 2 ^ bits" "bits \<le> 32"
  shows "v4Matches n (base, bits) \<longleftrightarrow> n div 2 ^ (32 - bits) = v"
proof -
  have "v * 2 ^ (32 - bits) < 2 ^ bits * 2 ^ (32 - bits)" using assms(4) by simp
  then have "v * 2 ^ (32 - bits) < 2 ^ 32" using assms(5) by (simp flip: power_add)
  then show ?thesis using v4Matches_div[OF assms(3,1), of base] assms(2) by simp
qed

lemma blocked_table:
  assumes "n < 2 ^ 32"
  shows "list_ex (v4Matches n) V4_BLOCKED \<longleftrightarrow> n div 2 ^ 24 = 0 \<or> n div 2 ^ 24 = 10 \<or> n div 2 ^ 22 = 401 \<or>
      n div 2 ^ 24 = 127 \<or> n div 2 ^ 16 = 43518 \<or> n div 2 ^ 20 = 2753 \<or> n div 2 ^ 8 = 12582912 \<or>
      n div 2 ^ 16 = 49320 \<or> n div 2 ^ 17 = 25353 \<or> n div 2 ^ 28 = 14 \<or> n div 2 ^ 28 = 15"
proof -
  note m = v4Matches_table[OF assms]
  have "list_ex (v4Matches n) V4_BLOCKED \<longleftrightarrow> v4Matches n (''0.0.0.0'', 8) \<or> v4Matches n (''10.0.0.0'', 8) \<or>
      v4Matches n (''100.64.0.0'', 10) \<or> v4Matches n (''127.0.0.0'', 8) \<or> v4Matches n (''169.254.0.0'', 16) \<or>
      v4Matches n (''172.16.0.0'', 12) \<or> v4Matches n (''192.0.0.0'', 24) \<or> v4Matches n (''192.168.0.0'', 16) \<or>
      v4Matches n (''198.18.0.0'', 15) \<or> v4Matches n (''224.0.0.0'', 4) \<or> v4Matches n (''240.0.0.0'', 4)"
    by (simp add: V4_BLOCKED_def)
  moreover have
    "v4Matches n (''0.0.0.0'', 8) \<longleftrightarrow> n div 2 ^ 24 = 0"
    "v4Matches n (''10.0.0.0'', 8) \<longleftrightarrow> n div 2 ^ 24 = 10"
    "v4Matches n (''100.64.0.0'', 10) \<longleftrightarrow> n div 2 ^ 22 = 401"
    "v4Matches n (''127.0.0.0'', 8) \<longleftrightarrow> n div 2 ^ 24 = 127"
    "v4Matches n (''169.254.0.0'', 16) \<longleftrightarrow> n div 2 ^ 16 = 43518"
    "v4Matches n (''172.16.0.0'', 12) \<longleftrightarrow> n div 2 ^ 20 = 2753"
    "v4Matches n (''192.0.0.0'', 24) \<longleftrightarrow> n div 2 ^ 8 = 12582912"
    "v4Matches n (''192.168.0.0'', 16) \<longleftrightarrow> n div 2 ^ 16 = 49320"
    "v4Matches n (''198.18.0.0'', 15) \<longleftrightarrow> n div 2 ^ 17 = 25353"
    "v4Matches n (''224.0.0.0'', 4) \<longleftrightarrow> n div 2 ^ 28 = 14"
    "v4Matches n (''240.0.0.0'', 4) \<longleftrightarrow> n div 2 ^ 28 = 15"
    subgoal using m[of "''0.0.0.0''" 0 8] by (simp add: blocked_bases)
    subgoal using m[of "''10.0.0.0''" 10 8] by (simp add: blocked_bases)
    subgoal using m[of "''100.64.0.0''" 401 10] by (simp add: blocked_bases)
    subgoal using m[of "''127.0.0.0''" 127 8] by (simp add: blocked_bases)
    subgoal using m[of "''169.254.0.0''" 43518 16] by (simp add: blocked_bases)
    subgoal using m[of "''172.16.0.0''" 2753 12] by (simp add: blocked_bases)
    subgoal using m[of "''192.0.0.0''" 12582912 24] by (simp add: blocked_bases)
    subgoal using m[of "''192.168.0.0''" 49320 16] by (simp add: blocked_bases)
    subgoal using m[of "''198.18.0.0''" 25353 15] by (simp add: blocked_bases)
    subgoal using m[of "''224.0.0.0''" 14 4] by (simp add: blocked_bases)
    subgoal using m[of "''240.0.0.0''" 15 4] by (simp add: blocked_bases)
    done
  ultimately show ?thesis by (simp only:)
qed

text \<open>The table of blocked ranges is exactly the reserved addresses.\<close>

lemma private_dotted:
  assumes "a < 256" "b < 256" "c < 256" "d < 256"
  shows "isPrivateAddress (dotted a b c d) \<longleftrightarrow> reserved_v4 a b c"
proof -
  let ?n = "a * 2 ^ 24 + b * 2 ^ 16 + c * 2 ^ 8 + d"
  have n: "?n < 2 ^ 32" using assms by simp
  have "isPrivateAddress (dotted a b c d) \<longleftrightarrow> list_ex (v4Matches ?n) V4_BLOCKED"
    using isIP_dotted[OF assms] by (subst isPrivateAddress.simps) (simp add: ipv4ToInt_dotted)
  also have "\<dots> \<longleftrightarrow> reserved_v4 a b c"
    by (simp only: blocked_table[OF n] quad_div[OF assms(2-4), of a] reserved_v4_def blocked_divs[OF assms(2,3,1)])
  finally show ?thesis .
qed

lemma resolveWebhookTarget_Inr:
  assumes "resolveWebhookTarget parseUrl resolve raw opts = Inr t"
  shows "parseUrl raw = Some (rg_url t)"
    "ul_protocol (rg_url t) = ''https:'' \<or> (no_allowInsecure opts \<and> ul_protocol (rg_url t) = ''http:'')"
    "ul_username (rg_url t) = [] \<and> ul_password (rg_url t) = []"
    "no_allowPrivate opts \<or> \<not> isPrivateAddress (rg_address t)"
  using assms by (auto simp: resolveWebhookTarget_def Let_def split: option.splits list.splits if_splits)


definition hook_url :: url where
  "hook_url = \<lparr>ul_protocol = ''https:'', ul_hostname = ''till.example'', ul_username = [], ul_password = []\<rparr>"


text \<open>
  The guard reads an IPv4-mapped address only in its dotted spelling. In hexadecimal, which is how a URL
  parser prints it, the loopback address passes.
\<close>

lemma mapped_loopback_passes:
  "isPrivateAddress ''::ffff:127.0.0.1''" "\<not> isPrivateAddress ''::ffff:7f00:1''"
proof -
  have a: "dotted 127 0 0 1 = ''127.0.0.1''" by (simp add: dotted_def nat_str.simps digit_chars[simplified])
  have b: "isPrivateAddress ''127.0.0.1''" using private_dotted[of 127 0 0 1] unfolding a by (simp add: reserved_v4_def)
  have c: "isIP ''::ffff:127.0.0.1'' = 6" "isIP ''::ffff:7f00:1'' = 6" by code_simp+
  have d: "to_lower ''::ffff:127.0.0.1'' = ''::ffff:127.0.0.1''" "mappedV4 ''::ffff:127.0.0.1'' = Some ''127.0.0.1''"
    "to_lower ''::ffff:7f00:1'' = ''::ffff:7f00:1''" "mappedV4 ''::ffff:7f00:1'' = None" by code_simp+
  show "isPrivateAddress ''::ffff:127.0.0.1''" using b c d by (subst isPrivateAddress.simps) simp
  show "\<not> isPrivateAddress ''::ffff:7f00:1''" using c d by (subst isPrivateAddress.simps) (simp add: starts_with_def)
qed

end
