(* ===== verification/Webhooks.thy ===== *)
theory Webhooks
  imports Net_Guard
begin

text \<open>
  Outgoing webhooks, \<open>modules/webhooks/webhooks.service.ts\<close> and \<open>signing.ts\<close>: endpoints and their
  management, queued deliveries, the worker that attempts them (claim, send, record the outcome) with its
  retry schedule, and the nightly clean-up. Times are milliseconds. What leaves the process is a field of
  \<open>wh_env\<close>: opening the sealed secret, the URL parser, the name lookup, the digest, the JSON printer, the
  request itself and the time it takes. The HTTP client code of \<open>post\<close> is not modelled.
\<close>

section \<open>Rows\<close>

datatype webhook_status = WH_PENDING | WH_SUCCESS | WH_FAILED

definition WEBHOOK_EVENTS :: "string list" where
  "WEBHOOK_EVENTS = [''order.created'', ''order.paid'', ''order.cancelled'', ''reservation.created'',
     ''delivery.updated'', ''campaign.message'']"

record webhook_endpoint =
  we_id :: string
  we_restaurantId :: string
  we_url :: string
  we_secret :: string
  we_events :: "string list"
  we_description :: "string option"
  we_isActive :: bool
  we_createdAt :: nat

text \<open>The payload: the event, its time, the branch (when emitted for one) and the data as JSON text.\<close>

record webhook_payload =
  wp_event :: string
  wp_createdAt :: nat
  wp_branchId :: "string option"
  wp_data :: string

record webhook_delivery =
  wd_id :: string
  wd_endpointId :: string
  wd_event :: string
  wd_payload :: webhook_payload
  wd_status :: webhook_status
  wd_attempts :: nat
  wd_lastStatusCode :: "nat option"
  wd_lastError :: "string option"
  wd_nextAttemptAt :: nat
  wd_createdAt :: nat
  wd_deliveredAt :: "nat option"

record webhook_db =
  wh_branches :: "(string \<times> string) list"
  wh_endpoints :: "webhook_endpoint list"
  wh_deliveries :: "webhook_delivery list"
  wh_next :: nat

record wh_env =
  ev_ids :: "nat \<Rightarrow> string"
  ev_openSecret :: "string \<Rightarrow> string + string"
  ev_parseUrl :: "string \<Rightarrow> url option"
  ev_resolve :: "string \<Rightarrow> (string \<times> nat) list option"
  ev_net :: net_options
  ev_hmac :: "string \<Rightarrow> string \<Rightarrow> string"
  ev_stringify :: "webhook_payload \<Rightarrow> string"
  ev_post :: "resolved_target \<Rightarrow> string \<Rightarrow> (string \<times> string) list \<Rightarrow> string + nat"
  ev_took :: nat

section \<open>Signing and the retry schedule\<close>

definition signPayload :: "(string \<Rightarrow> string \<Rightarrow> string) \<Rightarrow> string \<Rightarrow> string \<Rightarrow> nat \<Rightarrow> string" where
  "signPayload hmac secret body nowSeconds =
     ''t='' @ nat_str nowSeconds @ '',v1='' @ hmac secret (nat_str nowSeconds @ ''.'' @ body)"

definition BACKOFF_MS :: "nat list" where
  "BACKOFF_MS = [60000, 5 * 60000, 30 * 60000, 2 * 3600000, 12 * 3600000]"

definition MAX_ATTEMPTS :: nat where
  "MAX_ATTEMPTS = length BACKOFF_MS + 1"

definition WH_BATCH :: nat where "WH_BATCH = 20"

definition CLAIM_MS :: nat where "CLAIM_MS = 2 * 60000"

section \<open>Emitting\<close>

definition listening :: "string \<Rightarrow> string \<Rightarrow> webhook_endpoint \<Rightarrow> bool" where
  "listening restaurantId event e \<longleftrightarrow> we_restaurantId e = restaurantId \<and> we_isActive e \<and> event \<in> set (we_events e)"

text \<open>A new delivery row with the defaults of its table.\<close>

definition newDelivery :: "(nat \<Rightarrow> string) \<Rightarrow> nat \<Rightarrow> nat \<Rightarrow> string \<Rightarrow> string \<Rightarrow> webhook_payload \<Rightarrow> webhook_delivery" where
  "newDelivery ids n now endpointId event payload =
     \<lparr>wd_id = ids n, wd_endpointId = endpointId, wd_event = event, wd_payload = payload, wd_status = WH_PENDING,
      wd_attempts = 0, wd_lastStatusCode = None, wd_lastError = None, wd_nextAttemptAt = now,
      wd_createdAt = now, wd_deliveredAt = None\<rparr>"

definition emitTo :: "(nat \<Rightarrow> string) \<Rightarrow> nat \<Rightarrow> string \<Rightarrow> string \<Rightarrow> string option \<Rightarrow> string \<Rightarrow> webhook_db \<Rightarrow> webhook_db" where
  "emitTo ids now restaurantId event branchId data s =
     (let es = filter (listening restaurantId event) (wh_endpoints s);
          p = \<lparr>wp_event = event, wp_createdAt = now, wp_branchId = branchId, wp_data = data\<rparr> in
      if es = [] then s
      else s\<lparr>wh_deliveries := wh_deliveries s @
               map (\<lambda>(i, e). newDelivery ids (wh_next s + i) now (we_id e) event p) (enumerate 0 es),
             wh_next := wh_next s + length es\<rparr>)"

definition emitForBranch :: "(nat \<Rightarrow> string) \<Rightarrow> nat \<Rightarrow> string \<Rightarrow> string \<Rightarrow> string \<Rightarrow> webhook_db \<Rightarrow> webhook_db" where
  "emitForBranch ids now branchId event data s =
     (case map_of (wh_branches s) branchId of
        None \<Rightarrow> s
      | Some restaurantId \<Rightarrow> emitTo ids now restaurantId event (Some branchId) data s)"

definition hasSubscriber :: "string \<Rightarrow> string \<Rightarrow> webhook_db \<Rightarrow> bool" where
  "hasSubscriber branchId event s =
     (case map_of (wh_branches s) branchId of
        None \<Rightarrow> False
      | Some restaurantId \<Rightarrow> 0 < count_where (listening restaurantId event) (wh_endpoints s))"

section \<open>Endpoints\<close>

text \<open>The listing shows everything but the secret, newest first.\<close>

definition listEndpoints :: "string \<Rightarrow> webhook_db \<Rightarrow> (string \<times> string \<times> string list \<times> string option \<times> bool \<times> nat) list" where
  "listEndpoints restaurantId s =
     map (\<lambda>e. (we_id e, we_url e, we_events e, we_description e, we_isActive e, we_createdAt e))
       (rev (sort_key we_createdAt (filter (\<lambda>e. we_restaurantId e = restaurantId) (wh_endpoints s))))"

fun join_with :: "string \<Rightarrow> string list \<Rightarrow> string" where
  "join_with sep [] = []"
| "join_with sep [x] = x"
| "join_with sep (x # y # xs) = x @ sep @ join_with sep (y # xs)"

definition validateEvents :: "string list \<Rightarrow> string list res" where
  "validateEvents events =
     (let unknown = filter (\<lambda>e. e \<notin> set WEBHOOK_EVENTS) events in
      if events = [] \<or> unknown \<noteq> []
      then Inl (BadRequest (if unknown \<noteq> [] then ''Unknown event: '' @ join_with '', '' unknown
                            else ''Choose at least one event''))
      else Inr (uniq events))"

definition assertUrl :: "wh_env \<Rightarrow> string \<Rightarrow> unit res" where
  "assertUrl env u =
     (case resolveWebhookTarget (ev_parseUrl env) (ev_resolve env) u (ev_net env) of
        Inl m \<Rightarrow> Inl (BadRequest m) | Inr _ \<Rightarrow> Inr ())"

text \<open>The secret is sealed before it is stored; the random secret and the sealing are arguments.\<close>

definition createEndpoint ::
  "wh_env \<Rightarrow> (string \<Rightarrow> string) \<Rightarrow> string \<Rightarrow> nat \<Rightarrow> string \<Rightarrow> string \<Rightarrow> string list \<Rightarrow> string option \<Rightarrow>
   webhook_db \<Rightarrow> (webhook_endpoint \<times> webhook_db) res" where
  "createEndpoint env seal secret now restaurantId u events description s =
     ebind (validateEvents events) (\<lambda>evs.
     ebind (assertUrl env u) (\<lambda>_.
       (let row = \<lparr>we_id = ev_ids env (wh_next s), we_restaurantId = restaurantId, we_url = u,
                   we_secret = seal (''whsec_'' @ secret), we_events = evs, we_description = description,
                   we_isActive = True, we_createdAt = now\<rparr>
        in Inr (row, s\<lparr>wh_endpoints := wh_endpoints s @ [row], wh_next := wh_next s + 1\<rparr>))))"

definition getEndpoint :: "string \<Rightarrow> string \<Rightarrow> webhook_db \<Rightarrow> webhook_endpoint res" where
  "getEndpoint restaurantId i s =
     (case find (\<lambda>e. we_id e = i \<and> we_restaurantId e = restaurantId) (wh_endpoints s) of
        None \<Rightarrow> Inl (NotFound ''Webhook not found'') | Some e \<Rightarrow> Inr e)"

definition setEndpointActive :: "string \<Rightarrow> string \<Rightarrow> bool \<Rightarrow> webhook_db \<Rightarrow> webhook_db res" where
  "setEndpointActive restaurantId i b s =
     ebind (getEndpoint restaurantId i s) (\<lambda>_.
       Inr (s\<lparr>wh_endpoints := upd_where (\<lambda>e. we_id e = i) (\<lambda>e. e\<lparr>we_isActive := b\<rparr>) (wh_endpoints s)\<rparr>))"

text \<open>Deleting an endpoint deletes its deliveries with it (the cascade of the schema).\<close>

definition removeEndpoint :: "string \<Rightarrow> string \<Rightarrow> webhook_db \<Rightarrow> webhook_db res" where
  "removeEndpoint restaurantId i s =
     ebind (getEndpoint restaurantId i s) (\<lambda>_.
       Inr (s\<lparr>wh_endpoints := del_where (\<lambda>e. we_id e = i) (wh_endpoints s),
              wh_deliveries := del_where (\<lambda>d. wd_endpointId d = i) (wh_deliveries s)\<rparr>))"

definition deliveriesOf :: "string \<Rightarrow> string \<Rightarrow> webhook_db \<Rightarrow> webhook_delivery list res" where
  "deliveriesOf restaurantId i s =
     ebind (getEndpoint restaurantId i s) (\<lambda>_.
       Inr (take 50 (rev (sort_key wd_createdAt (filter (\<lambda>d. wd_endpointId d = i) (wh_deliveries s))))))"

section \<open>Attempting a delivery\<close>

definition dueAt :: "nat \<Rightarrow> webhook_delivery \<Rightarrow> bool" where
  "dueAt now d \<longleftrightarrow> wd_status d = WH_PENDING \<and> wd_nextAttemptAt d \<le> now"

text \<open>The claim: one conditional update, so of two overlapping workers one goes on.\<close>

definition claimDelivery :: "nat \<Rightarrow> string \<Rightarrow> webhook_db \<Rightarrow> (bool \<times> webhook_db)" where
  "claimDelivery now i s =
     (0 < count_where (\<lambda>d. wd_id d = i \<and> dueAt now d) (wh_deliveries s),
      s\<lparr>wh_deliveries := upd_where (\<lambda>d. wd_id d = i \<and> dueAt now d)
          (\<lambda>d. d\<lparr>wd_nextAttemptAt := now + CLAIM_MS, wd_attempts := wd_attempts d + 1\<rparr>) (wh_deliveries s)\<rparr>)"

text \<open>Sending: the status code received, if any, and the error, if any.\<close>

definition sendDelivery :: "wh_env \<Rightarrow> nat \<Rightarrow> webhook_endpoint \<Rightarrow> webhook_delivery \<Rightarrow> nat option \<times> string option" where
  "sendDelivery env now e d =
     (let body = ev_stringify env (wd_payload d) in
      if \<not> we_isActive e \<and> wd_event d \<noteq> ''test'' then (None, Some ''Endpoint is disabled'')
      else
        (case ev_openSecret env (we_secret e) of
           Inl m \<Rightarrow> (None, Some m)
         | Inr secret \<Rightarrow>
             (case resolveWebhookTarget (ev_parseUrl env) (ev_resolve env) (we_url e) (ev_net env) of
                Inl m \<Rightarrow> (None, Some m)
              | Inr target \<Rightarrow>
                  (case ev_post env target body
                      [(''X-OrderRestro-Event'', wd_event d), (''X-OrderRestro-Delivery'', wd_id d),
                       (''X-OrderRestro-Signature'', signPayload (ev_hmac env) secret body (now div 1000))] of
                     Inl m \<Rightarrow> (None, Some m)
                   | Inr code \<Rightarrow>
                       (Some code,
                        if code < 200 \<or> 300 \<le> code
                        then Some (''Receiver answered HTTP '' @ nat_str code) else None)))))"

text \<open>The outcome on the row; \<open>if (!error)\<close> takes the empty message for no error.\<close>

definition backoffAfter :: "nat \<Rightarrow> nat" where
  "backoffAfter attempts = (if 0 < attempts \<and> attempts - 1 < length BACKOFF_MS then BACKOFF_MS ! (attempts - 1)
     else last BACKOFF_MS)"

definition outcomeOn :: "nat \<Rightarrow> nat \<Rightarrow> nat option \<times> string option \<Rightarrow> webhook_delivery \<Rightarrow> webhook_delivery" where
  "outcomeOn now attempts r d =
     (case snd r of
        Some (c # m) \<Rightarrow>
          d\<lparr>wd_status := (if MAX_ATTEMPTS \<le> attempts then WH_FAILED else WH_PENDING),
            wd_lastStatusCode := fst r, wd_lastError := Some (take 300 (c # m)),
            wd_nextAttemptAt := now + backoffAfter attempts\<rparr>
      | _ \<Rightarrow>
          d\<lparr>wd_status := WH_SUCCESS, wd_lastStatusCode := fst r, wd_lastError := None,
            wd_deliveredAt := Some now\<rparr>)"

definition attemptDelivery :: "wh_env \<Rightarrow> nat \<Rightarrow> string \<Rightarrow> webhook_db \<Rightarrow> webhook_db" where
  "attemptDelivery env now i s =
     (case claimDelivery now i s of (claimed, s1) \<Rightarrow>
        if \<not> claimed then s1
        else
          (case find (\<lambda>d. wd_id d = i) (wh_deliveries s1) of
             None \<Rightarrow> s1
           | Some d \<Rightarrow>
               (case find (\<lambda>e. we_id e = wd_endpointId d) (wh_endpoints s1) of
                  None \<Rightarrow> s1
                | Some e \<Rightarrow>
                    s1\<lparr>wh_deliveries := upd_where (\<lambda>x. wd_id x = i)
                         (outcomeOn (now + ev_took env) (wd_attempts d) (sendDelivery env now e d)) (wh_deliveries s1)\<rparr>)))"

definition testPayload :: "nat \<Rightarrow> webhook_payload" where
  "testPayload now = \<lparr>wp_event = ''test'', wp_createdAt = now, wp_branchId = None,
     wp_data = ''{\"message\":\"Hello from OrderRestro\"}''\<rparr>"

definition sendTest :: "wh_env \<Rightarrow> nat \<Rightarrow> string \<Rightarrow> string \<Rightarrow> webhook_db \<Rightarrow> webhook_db res" where
  "sendTest env now restaurantId i s =
     ebind (getEndpoint restaurantId i s) (\<lambda>e.
       (let row = newDelivery (ev_ids env) (wh_next s) now (we_id e) ''test'' (testPayload now)
        in Inr (attemptDelivery env now (wd_id row)
                 (s\<lparr>wh_deliveries := wh_deliveries s @ [row], wh_next := wh_next s + 1\<rparr>))))"

text \<open>One run of the worker. The attempts of a batch concern different rows; they are taken in order.\<close>

definition dueBatch :: "nat \<Rightarrow> webhook_db \<Rightarrow> webhook_delivery list" where
  "dueBatch now s = take WH_BATCH (sort_key wd_nextAttemptAt (filter (dueAt now) (wh_deliveries s)))"

definition tick :: "(string \<Rightarrow> wh_env) \<Rightarrow> nat \<Rightarrow> webhook_db \<Rightarrow> webhook_db" where
  "tick env now s = fold (\<lambda>i. attemptDelivery (env i) now i) (map wd_id (dueBatch now s)) s"

text \<open>The nightly clean-up of finished deliveries older than 30 days.\<close>

definition cleanupDeliveries :: "nat \<Rightarrow> webhook_db \<Rightarrow> webhook_db" where
  "cleanupDeliveries now s =
     s\<lparr>wh_deliveries := del_where (\<lambda>d. wd_status d \<noteq> WH_PENDING \<and> wd_createdAt d + 30 * 86400000 < now) (wh_deliveries s)\<rparr>"


section \<open>Reachable states\<close>

text \<open>Every operation, as a step of the store. The identifiers come from one generator.\<close>

inductive wh_step :: "(nat \<Rightarrow> string) \<Rightarrow> webhook_db \<Rightarrow> webhook_db \<Rightarrow> bool" for ids where
  emit: "wh_step ids s (emitTo ids now restaurantId event branchId data s)"
| emitBranch: "wh_step ids s (emitForBranch ids now branchId event data s)"
| create: "createEndpoint env seal secret now restaurantId u events description s = Inr (row, t) \<Longrightarrow>
    ev_ids env = ids \<Longrightarrow> wh_step ids s t"
| active: "setEndpointActive restaurantId i b s = Inr t \<Longrightarrow> wh_step ids s t"
| remove: "removeEndpoint restaurantId i s = Inr t \<Longrightarrow> wh_step ids s t"
| test: "sendTest env now restaurantId i s = Inr t \<Longrightarrow> ev_ids env = ids \<Longrightarrow> wh_step ids s t"
| attempt: "wh_step ids s (attemptDelivery env now i s)"
| worker: "wh_step ids s (tick envs now s)"
| cleanup: "wh_step ids s (cleanupDeliveries now s)"

definition freshStore :: "(string \<times> string) list \<Rightarrow> webhook_db" where
  "freshStore bs = \<lparr>wh_branches = bs, wh_endpoints = [], wh_deliveries = [], wh_next = 0\<rparr>"

definition wh_reachable :: "(nat \<Rightarrow> string) \<Rightarrow> webhook_db \<Rightarrow> bool" where
  "wh_reachable ids s \<longleftrightarrow> (\<exists>bs. (wh_step ids)\<^sup>*\<^sup>* (freshStore bs) s)"

text \<open>
  What holds of every row: a pending delivery has attempts left, a delivered one was answered with a
  success code (or failed without a message, which the code takes for success), a failed one has used
  them all.
\<close>

definition delivery_ok :: "webhook_delivery \<Rightarrow> bool" where
  "delivery_ok d \<longleftrightarrow>
     (case wd_status d of
        WH_PENDING \<Rightarrow> wd_attempts d < MAX_ATTEMPTS
      | WH_SUCCESS \<Rightarrow> 1 \<le> wd_attempts d \<and> wd_attempts d \<le> MAX_ATTEMPTS \<and>
          (case wd_lastStatusCode d of None \<Rightarrow> True | Some c \<Rightarrow> 200 \<le> c \<and> c < 300)
      | WH_FAILED \<Rightarrow> wd_attempts d = MAX_ATTEMPTS)"

definition wh_ok :: "(nat \<Rightarrow> string) \<Rightarrow> webhook_db \<Rightarrow> bool" where
  "wh_ok ids s \<longleftrightarrow>
     keyed wd_id (wh_deliveries s) \<and> keyed we_id (wh_endpoints s) \<and>
     (\<forall>d \<in> set (wh_deliveries s). delivery_ok d \<and> wd_id d \<in> ids ` {..<wh_next s} \<and>
        wd_endpointId d \<in> we_id ` set (wh_endpoints s)) \<and>
     (\<forall>e \<in> set (wh_endpoints s). we_id e \<in> ids ` {..<wh_next s})"

lemma wh_okD:
  "wh_ok ids s \<Longrightarrow> keyed wd_id (wh_deliveries s)"
  "wh_ok ids s \<Longrightarrow> d \<in> set (wh_deliveries s) \<Longrightarrow> delivery_ok d"
  "wh_ok ids s \<Longrightarrow> d \<in> set (wh_deliveries s) \<Longrightarrow> wd_endpointId d \<in> we_id ` set (wh_endpoints s)"
  by (auto simp: wh_ok_def)

lemma wh_okI:
  assumes "keyed wd_id (wh_deliveries s)" "keyed we_id (wh_endpoints s)"
    "\<And>d. d \<in> set (wh_deliveries s) \<Longrightarrow> delivery_ok d"
    "\<And>d. d \<in> set (wh_deliveries s) \<Longrightarrow> wd_id d \<in> ids ` {..<wh_next s}"
    "\<And>d. d \<in> set (wh_deliveries s) \<Longrightarrow> wd_endpointId d \<in> we_id ` set (wh_endpoints s)"
    "\<And>e. e \<in> set (wh_endpoints s) \<Longrightarrow> we_id e \<in> ids ` {..<wh_next s}"
  shows "wh_ok ids s"
  using assms unfolding wh_ok_def by blast

lemma wh_ok_endpoint_ids:
  assumes "map we_id es = map we_id (wh_endpoints s)"
  shows "wh_ok ids (s\<lparr>wh_endpoints := es\<rparr>) = wh_ok ids s"
proof -
  have "we_id ` set es = we_id ` set (wh_endpoints s)" using assms by (metis set_map)
  moreover have "(\<forall>e \<in> set xs. we_id e \<in> A) \<longleftrightarrow> we_id ` set xs \<subseteq> A" for xs :: "webhook_endpoint list" and A by blast
  ultimately show ?thesis using assms by (simp add: wh_ok_def keyed_def)
qed

subsection \<open>One attempt\<close>

text \<open>An attempt as a change of the one row it concerns.\<close>

definition claimedRow :: "nat \<Rightarrow> webhook_delivery \<Rightarrow> webhook_delivery" where
  "claimedRow now d = d\<lparr>wd_nextAttemptAt := now + CLAIM_MS, wd_attempts := wd_attempts d + 1\<rparr>"

definition attemptedRow :: "wh_env \<Rightarrow> nat \<Rightarrow> webhook_endpoint list \<Rightarrow> webhook_delivery \<Rightarrow> webhook_delivery" where
  "attemptedRow env now es d =
     (let d1 = claimedRow now d in
      case find (\<lambda>e. we_id e = wd_endpointId d1) es of
        None \<Rightarrow> d1
      | Some e \<Rightarrow> outcomeOn (now + ev_took env) (wd_attempts d1) (sendDelivery env now e d1) d1)"

lemma outcomeOn_same [simp]:
  "wd_id (outcomeOn t k r d) = wd_id d" "wd_endpointId (outcomeOn t k r d) = wd_endpointId d"
  "wd_attempts (outcomeOn t k r d) = wd_attempts d"
  by (simp_all add: outcomeOn_def split: option.split list.split)

lemma claimedRow_same [simp]:
  "wd_id (claimedRow now d) = wd_id d" "wd_endpointId (claimedRow now d) = wd_endpointId d"
  "wd_attempts (claimedRow now d) = wd_attempts d + 1" "wd_status (claimedRow now d) = wd_status d"
  by (simp_all add: claimedRow_def)

lemma attemptedRow_same [simp]:
  "wd_id (attemptedRow env now es d) = wd_id d" "wd_endpointId (attemptedRow env now es d) = wd_endpointId d"
  "wd_attempts (attemptedRow env now es d) = wd_attempts d + 1"
  by (simp_all add: attemptedRow_def Let_def split: option.split)

text \<open>The sender reports a code outside the success range only together with a message.\<close>

lemma sendDelivery_code:
  "sendDelivery env now e d = (c, m) \<Longrightarrow> m = None \<or> m = Some [] \<Longrightarrow> case c of None \<Rightarrow> True | Some k \<Rightarrow> 200 \<le> k \<and> k < 300"
  by (auto simp: sendDelivery_def Let_def split: sum.splits if_splits)

lemma outcomeOn_ok:
  assumes "wd_status d = WH_PENDING" "wd_attempts d = k" "1 \<le> k" "k \<le> MAX_ATTEMPTS"
  shows "delivery_ok (outcomeOn t k (sendDelivery env now e d') d)"
proof (cases "sendDelivery env now e d'")
  case (Pair c m)
  then show ?thesis using assms sendDelivery_code[OF Pair]
    by (auto simp: outcomeOn_def delivery_ok_def split: option.splits list.splits)
qed

lemma attemptedRow_ok:
  assumes "delivery_ok d" "wd_status d = WH_PENDING" "wd_endpointId d \<in> we_id ` set es"
  shows "delivery_ok (attemptedRow env now es d)"
proof -
  from assms(3) obtain e where "find (\<lambda>e. we_id e = wd_endpointId d) es = Some e"
    by (cases "find (\<lambda>e. we_id e = wd_endpointId d) es") (auto simp: find_None_iff_ball)
  then show ?thesis using assms(1,2) outcomeOn_ok[of "claimedRow now d"]
    by (simp add: attemptedRow_def Let_def delivery_ok_def)
qed


lemma dueAt_pending: "dueAt now d \<Longrightarrow> wd_status d = WH_PENDING"
  by (simp add: dueAt_def)

text \<open>With unique identifiers the attempt changes the one due row with its identifier.\<close>

lemma attemptDelivery_eq:
  assumes "keyed wd_id (wh_deliveries s)"
  shows "attemptDelivery env now i s = s\<lparr>wh_deliveries :=
     upd_where (\<lambda>d. wd_id d = i \<and> dueAt now d) (attemptedRow env now (wh_endpoints s)) (wh_deliveries s)\<rparr>"
proof (cases "\<exists>d \<in> set (wh_deliveries s). wd_id d = i \<and> dueAt now d")
  case False
  then have "claimDelivery now i s = (False, s)"
    unfolding claimDelivery_def using upd_where_none[of "wh_deliveries s" "\<lambda>d. wd_id d = i \<and> dueAt now d"]
    by (simp add: count_where_def filter_empty_conv)
  moreover have "upd_where (\<lambda>d. wd_id d = i \<and> dueAt now d) f (wh_deliveries s) = wh_deliveries s" for f
    using False by (intro upd_where_none) auto
  ultimately show ?thesis by (simp add: attemptDelivery_def)
next
  case True
  let ?P = "\<lambda>d. wd_id d = i \<and> dueAt now d" and ?rs = "wh_deliveries s"
  let ?rs1 = "upd_where ?P (claimedRow now) ?rs"
  obtain d where d: "d \<in> set ?rs" "wd_id d = i" "dueAt now d" using True by auto
  have only: "x = d" if "x \<in> set ?rs" "wd_id x = i" for x using keyed_unique[OF assms that(1) d(1)] that d by simp
  have claim: "claimDelivery now i s = (True, s\<lparr>wh_deliveries := ?rs1\<rparr>)"
    using d by (auto simp: claimDelivery_def claimedRow_def[abs_def] count_where_def filter_empty_conv)
  have found: "find (\<lambda>d. wd_id d = i) ?rs1 = Some (claimedRow now d)"
  proof -
    have "find (\<lambda>x. wd_id x = i) ?rs = Some d" using keyed_find[OF assms d(1)] d(2) by simp
    moreover have "find (\<lambda>x. wd_id x = i) (upd_where ?P (claimedRow now) ?rs) =
        map_option (\<lambda>r. if ?P r then claimedRow now r else r) (find (\<lambda>x. wd_id x = i) ?rs)"
      by (rule find_upd_where) simp
    ultimately show ?thesis using d by simp
  qed
  have due: "dueAt now x" if "x \<in> set ?rs" "wd_id x = i" for x using only[OF that] d(3) by simp
  have upd: "upd_where (\<lambda>x. wd_id x = i) f ?rs1 = upd_where ?P (\<lambda>x. f (claimedRow now x)) ?rs" for f
    unfolding upd_where_def map_map o_def using due by (intro map_cong) simp_all
  have one: "upd_where ?P f ?rs = upd_where ?P g ?rs" if "f d = g d" for f g :: "webhook_delivery \<Rightarrow> webhook_delivery"
  proof -
    have "f x = g x" if "x \<in> set ?rs" "wd_id x = i" for x using only[OF that] \<open>f d = g d\<close> by simp
    then show ?thesis unfolding upd_where_def by (intro map_cong) simp_all
  qed
  show ?thesis
  proof (cases "find (\<lambda>e. we_id e = wd_endpointId d) (wh_endpoints s)")
    case None
    then have "attemptDelivery env now i s = s\<lparr>wh_deliveries := ?rs1\<rparr>"
      by (simp add: attemptDelivery_def claim found)
    also have "?rs1 = upd_where ?P (attemptedRow env now (wh_endpoints s)) ?rs"
      using None by (intro one) (simp add: attemptedRow_def Let_def)
    finally show ?thesis .
  next
    case (Some e)
    let ?f = "outcomeOn (now + ev_took env) (wd_attempts (claimedRow now d)) (sendDelivery env now e (claimedRow now d))"
    from Some have "attemptDelivery env now i s = s\<lparr>wh_deliveries := upd_where (\<lambda>x. wd_id x = i) ?f ?rs1\<rparr>"
      by (simp add: attemptDelivery_def claim found)
    also have "upd_where (\<lambda>x. wd_id x = i) ?f ?rs1 = upd_where ?P (attemptedRow env now (wh_endpoints s)) ?rs"
      unfolding upd using Some by (intro one) (simp add: attemptedRow_def Let_def)
    finally show ?thesis .
  qed
qed

lemma attemptDelivery_ok:
  assumes "wh_ok ids s" shows "wh_ok ids (attemptDelivery env now i s)"
proof -
  note eq = attemptDelivery_eq[OF wh_okD(1)[OF assms], of env now i]
  have "delivery_ok (attemptedRow env now (wh_endpoints s) d)" if "d \<in> set (wh_deliveries s)" "dueAt now d" for d
    using attemptedRow_ok wh_okD(2,3)[OF assms that(1)] dueAt_pending[OF that(2)] by blast
  then show ?thesis using assms unfolding eq wh_ok_def by (auto simp: row_simps)
qed

lemma tick_fold_ok: "wh_ok ids s \<Longrightarrow> wh_ok ids (fold (\<lambda>i. attemptDelivery (env i) now i) is s)"
  by (induction "is" arbitrary: s) (simp_all add: attemptDelivery_ok)

lemma tick_ok: "wh_ok ids s \<Longrightarrow> wh_ok ids (tick env now s)"
  by (simp add: tick_def tick_fold_ok)

subsection \<open>The invariant\<close>

lemma fresh_id: "inj ids \<Longrightarrow> x \<in> ids ` {..<n} \<Longrightarrow> x \<noteq> ids (n + k :: nat)"
  by (auto simp: inj_eq)

lemma ids_mono: "x \<in> ids ` {..<n} \<Longrightarrow> n \<le> m \<Longrightarrow> x \<in> ids ` {..<m::nat}"
  by auto

lemma newDelivery_sel [simp]:
  "wd_id (newDelivery ids n now e ev p) = ids n" "wd_endpointId (newDelivery ids n now e ev p) = e"
  "delivery_ok (newDelivery ids n now e ev p)"
  by (simp_all add: newDelivery_def delivery_ok_def MAX_ATTEMPTS_def)

lemma add_deliveries_ok:
  assumes "wh_ok ids s" "inj ids" "set es \<subseteq> we_id ` set (wh_endpoints s)"
  shows "wh_ok ids (s\<lparr>wh_deliveries := wh_deliveries s @
      map (\<lambda>(i, e). newDelivery ids (wh_next s + i) now e event (p e)) (enumerate 0 es),
      wh_next := wh_next s + length es\<rparr>)"
proof -
  define new where "new = map (\<lambda>(i, e). newDelivery ids (wh_next s + i) now e event (p e)) (enumerate 0 es)"
  define t where "t = s\<lparr>wh_deliveries := wh_deliveries s @ new, wh_next := wh_next s + length es\<rparr>"
  have sel: "wh_deliveries t = wh_deliveries s @ new" "wh_endpoints t = wh_endpoints s"
    "wh_next t = wh_next s + length es" by (simp_all add: t_def)
  have new_ids: "map wd_id new = map (\<lambda>i. ids (wh_next s + i)) [0..<length es]"
    unfolding new_def by (rule nth_equalityI) (auto simp: nth_enumerate_eq)
  have new: "delivery_ok d" "wd_id d \<in> ids ` {wh_next s..<wh_next s + length es}" "wd_endpointId d \<in> set es"
    if "d \<in> set new" for d using that by (auto simp: new_def in_set_enumerate_eq)
  have old: "wd_id d \<in> ids ` {..<wh_next s}" if "d \<in> set (wh_deliveries s)" for d
    using that assms(1) by (simp add: wh_ok_def)
  have "distinct (map wd_id new)" unfolding new_ids by (auto simp: distinct_map inj_eq[OF assms(2)] intro: inj_onI)
  moreover have "wd_id d \<noteq> wd_id d'" if "d \<in> set (wh_deliveries s)" "d' \<in> set new" for d d'
    using old[OF that(1)] new(2)[OF that(2)] assms(2) by (auto simp: inj_eq)
  ultimately have k: "keyed wd_id (wh_deliveries s @ new)"
    using wh_okD(1)[OF assms(1)] unfolding keyed_def map_append distinct_append set_map by blast
  have sub: "ids ` {..<wh_next s} \<subseteq> ids ` {..<wh_next s + length es}"
    "ids ` {wh_next s..<wh_next s + length es} \<subseteq> ids ` {..<wh_next s + length es}" by auto
  have "wh_ok ids t"
  proof (rule wh_okI, unfold sel)
    show "keyed we_id (wh_endpoints s)" using assms(1) by (simp add: wh_ok_def)
  next
    fix e assume "e \<in> set (wh_endpoints s)"
    then have "we_id e \<in> ids ` {..<wh_next s}" using assms(1) by (simp add: wh_ok_def)
    then show "we_id e \<in> ids ` {..<wh_next s + length es}" using sub(1) by (rule set_rev_mp)
  next
    fix d assume "d \<in> set (wh_deliveries s @ new)"
    then consider "d \<in> set (wh_deliveries s)" | "d \<in> set new" by auto
    then show "delivery_ok d" "wd_endpointId d \<in> we_id ` set (wh_endpoints s)" "wd_id d \<in> ids ` {..<wh_next s + length es}"
      by (cases; use wh_okD(2,3)[OF assms(1)] old new assms(3) sub in blast)+
  qed (fact k)
  then show ?thesis by (simp only: t_def new_def)
qed

lemma emitTo_ok:
  assumes "wh_ok ids s" "inj ids" shows "wh_ok ids (emitTo ids now r ev b dt s)"
proof -
  let ?es = "filter (listening r ev) (wh_endpoints s)"
  let ?p = "\<lparr>wp_event = ev, wp_createdAt = now, wp_branchId = b, wp_data = dt\<rparr>"
  have "map (\<lambda>(i, e). newDelivery ids (wh_next s + i) now (we_id e) ev ?p) (enumerate 0 ?es) =
      map (\<lambda>(i, e). newDelivery ids (wh_next s + i) now e ev ?p) (enumerate 0 (map we_id ?es))"
    by (rule nth_equalityI) (auto simp: nth_enumerate_eq)
  then show ?thesis
    using add_deliveries_ok[OF assms, of "map we_id ?es" now ev "\<lambda>_. ?p"] assms(1)
    by (auto simp: emitTo_def Let_def image_image)
qed

lemma wh_step_ok:
  assumes "wh_step ids s t" "wh_ok ids s" "inj ids" shows "wh_ok ids t"
  using assms
proof (induction rule: wh_step.induct)
  case (emitBranch s now branchId event data)
  then show ?case by (auto simp: emitForBranch_def emitTo_ok split: option.split)
next
  case (create env seal secret now restaurantId u events description s row t)
  then have r: "we_id row = ids (wh_next s)"
    and t: "t = s\<lparr>wh_endpoints := wh_endpoints s @ [row], wh_next := wh_next s + 1\<rparr>"
    by (auto simp: createEndpoint_def ebind_Inr_iff Let_def)
  have "we_id e \<noteq> ids (wh_next s)" if "e \<in> set (wh_endpoints s)" for e
    using fresh_id[OF create(4), of "we_id e" "wh_next s" 0] create(3) that by (simp add: wh_ok_def)
  then have k: "keyed we_id (wh_endpoints s @ [row])" using create(3) r by (auto simp: row_simps wh_ok_def)
  have sel: "wh_endpoints t = wh_endpoints s @ [row]" "wh_deliveries t = wh_deliveries s" "wh_next t = wh_next s + 1"
    by (simp_all add: t)
  have sub: "ids ` {..<wh_next s} \<subseteq> ids ` {..<wh_next s + 1}" "ids (wh_next s) \<in> ids ` {..<wh_next s + 1}" by auto
  show ?case
  proof (rule wh_okI, unfold sel)
    fix e assume "e \<in> set (wh_endpoints s @ [row])"
    then consider "e \<in> set (wh_endpoints s)" | "e = row" by auto
    then show "we_id e \<in> ids ` {..<wh_next s + 1}"
    proof cases
      case 1
      then have "we_id e \<in> ids ` {..<wh_next s}" using create(3) by (simp only: wh_ok_def)
      then show ?thesis using sub(1) by (rule set_rev_mp)
    next
      case 2
      then show ?thesis using r sub(2) by (simp only:)
    qed
  next
    fix d assume "d \<in> set (wh_deliveries s)"
    then show "delivery_ok d" "wd_id d \<in> ids ` {..<wh_next s + 1}" "wd_endpointId d \<in> we_id ` set (wh_endpoints s @ [row])"
      using wh_okD(2,3)[OF create(3)] create(3) sub(1) unfolding wh_ok_def set_append by blast+
  qed (use create(3) k in \<open>simp_all add: wh_ok_def\<close>)
next
  case (active restaurantId i b s t)
  let ?es = "upd_where (\<lambda>e. we_id e = i) (\<lambda>e. e\<lparr>we_isActive := b\<rparr>) (wh_endpoints s)"
  have "map we_id ?es = map we_id (wh_endpoints s)" by (rule map_upd_where) simp
  moreover have "t = s\<lparr>wh_endpoints := ?es\<rparr>" using active(1) by (auto simp: setEndpointActive_def ebind_Inr_iff)
  ultimately show ?case using active(2) by (simp only: wh_ok_endpoint_ids)
next
  case (remove restaurantId i s t)
  then have t: "t = s\<lparr>wh_endpoints := del_where (\<lambda>e. we_id e = i) (wh_endpoints s),
      wh_deliveries := del_where (\<lambda>d. wd_endpointId d = i) (wh_deliveries s)\<rparr>"
    by (auto simp: removeEndpoint_def ebind_Inr_iff)
  have "wd_endpointId d \<in> we_id ` set (del_where (\<lambda>e. we_id e = i) (wh_endpoints s))"
    if "d \<in> set (wh_deliveries s)" "wd_endpointId d \<noteq> i" for d
    using wh_okD(3)[OF remove(2) that(1)] that(2) by (auto simp: del_where_def)
  then show ?case using remove(2) unfolding t by (simp add: wh_ok_def keyed_del_where) (simp add: del_where_def)
next
  case (test env now restaurantId i s t)
  then obtain e where e: "getEndpoint restaurantId i s = Inr e" by (auto simp: sendTest_def ebind_Inr_iff)
  then have "we_id e \<in> we_id ` set (wh_endpoints s)"
    by (auto simp: getEndpoint_def split: option.splits dest: find_SomeD)
  then have "wh_ok ids (s\<lparr>wh_deliveries := wh_deliveries s @ [newDelivery ids (wh_next s) now (we_id e) ''test'' (testPayload now)],
      wh_next := wh_next s + 1\<rparr>)"
    using add_deliveries_ok[OF test(3,4), of "[we_id e]" now "''test''" "\<lambda>_. testPayload now"] by simp
  then show ?case using test(1,2) e attemptDelivery_ok by (auto simp: sendTest_def Let_def)
next
  case (cleanup s now)
  then show ?case by (auto simp: cleanupDeliveries_def wh_ok_def del_where_def keyed_filter)
qed (simp_all add: emitTo_ok attemptDelivery_ok tick_ok)

lemma wh_reachable_ok: "wh_reachable ids s \<Longrightarrow> inj ids \<Longrightarrow> wh_ok ids s"
proof -
  assume i: "inj ids" and "wh_reachable ids s"
  then obtain bs where "(wh_step ids)\<^sup>*\<^sup>* (freshStore bs) s" by (auto simp: wh_reachable_def)
  then show ?thesis
    by (induction rule: rtranclp_induct) (simp add: freshStore_def wh_ok_def keyed_def, metis wh_step_ok i)
qed


section \<open>Deliveries settle\<close>

text \<open>The attempts the pending deliveries still have: every attempt uses one up.\<close>

definition attemptsLeft :: "webhook_delivery \<Rightarrow> nat" where
  "attemptsLeft d = (if wd_status d = WH_PENDING then MAX_ATTEMPTS - wd_attempts d else 0)"

definition workLeft :: "webhook_db \<Rightarrow> nat" where
  "workLeft s = sum_list (map attemptsLeft (wh_deliveries s))"

lemma attemptedRow_less:
  assumes "delivery_ok d" "wd_status d = WH_PENDING"
  shows "attemptsLeft (attemptedRow env now es d) < attemptsLeft d"
  using assms by (auto simp: attemptsLeft_def delivery_ok_def)

lemma sum_list_upd_where_le:
  fixes g :: "'a \<Rightarrow> nat"
  assumes "\<And>r. r \<in> set rs \<Longrightarrow> P r \<Longrightarrow> g (f r) < g r"
  shows "sum_list (map g (upd_where P f rs)) \<le> sum_list (map g rs)"
    "\<exists>r \<in> set rs. P r \<Longrightarrow> sum_list (map g (upd_where P f rs)) < sum_list (map g rs)"
proof -
  show le: "sum_list (map g (upd_where P f rs)) \<le> sum_list (map g rs)"
    using assms by (induction rs) (fastforce simp: row_simps)+
  show "sum_list (map g (upd_where P f rs)) < sum_list (map g rs)" if "\<exists>r \<in> set rs. P r"
    using assms that
  proof (induction rs)
    case (Cons r rs)
    have "sum_list (map g (upd_where P f rs)) \<le> sum_list (map g rs)"
      using Cons.prems(1) by (induction rs) (fastforce simp: row_simps)+
    with Cons show ?case by (cases "P r") (fastforce simp: row_simps)+
  qed simp
qed

lemma attemptDelivery_work:
  assumes "wh_ok ids s"
  shows "workLeft (attemptDelivery env now i s) \<le> workLeft s"
    "\<exists>d \<in> set (wh_deliveries s). wd_id d = i \<and> dueAt now d \<Longrightarrow> workLeft (attemptDelivery env now i s) < workLeft s"
proof -
  let ?P = "\<lambda>d. wd_id d = i \<and> dueAt now d" and ?f = "attemptedRow env now (wh_endpoints s)"
  have r: "attemptsLeft (attemptedRow env now (wh_endpoints s) d) < attemptsLeft d"
    if "d \<in> set (wh_deliveries s)" "wd_id d = i \<and> dueAt now d" for d
    using attemptedRow_less wh_okD(2)[OF assms that(1)] dueAt_pending that(2) by blast
  show "workLeft (attemptDelivery env now i s) \<le> workLeft s"
    unfolding workLeft_def attemptDelivery_eq[OF wh_okD(1)[OF assms]]
    using sum_list_upd_where_le(1)[of "wh_deliveries s" ?P attemptsLeft ?f] r by simp
  show "workLeft (attemptDelivery env now i s) < workLeft s"
    if "\<exists>d \<in> set (wh_deliveries s). wd_id d = i \<and> dueAt now d"
    unfolding workLeft_def attemptDelivery_eq[OF wh_okD(1)[OF assms]]
    using sum_list_upd_where_le(2)[of "wh_deliveries s" ?P attemptsLeft ?f] r that by simp
qed

lemma tick_fold_work:
  "wh_ok ids s \<Longrightarrow> workLeft (fold (\<lambda>i. attemptDelivery (env i) now i) is s) \<le> workLeft s"
proof (induction "is" arbitrary: s)
  case (Cons i js)
  then show ?case using attemptDelivery_work(1)[OF Cons.prems, of "env i" now i]
      Cons.IH[OF attemptDelivery_ok[OF Cons.prems, of "env i" now i]] by simp
qed simp

text \<open>A run of the worker with nothing due changes nothing; with something due it uses attempts up.\<close>

lemma tick_idle: "\<not> (\<exists>d \<in> set (wh_deliveries s). dueAt now d) \<Longrightarrow> tick env now s = s"
  by (simp add: tick_def dueBatch_def filter_empty_conv)

lemma tick_progress:
  assumes "wh_ok ids s" "\<exists>d \<in> set (wh_deliveries s). dueAt now d"
  shows "workLeft (tick env now s) < workLeft s"
proof -
  have "sort_key wd_nextAttemptAt (filter (dueAt now) (wh_deliveries s)) \<noteq> []"
    using assms(2) by (metis (no_types, lifting) empty_filter_conv set_empty set_sort)
  then obtain d ds where b: "dueBatch now s = d # ds" unfolding dueBatch_def WH_BATCH_def
    by (cases "sort_key wd_nextAttemptAt (filter (dueAt now) (wh_deliveries s))") auto
  then have "d \<in> set (sort_key wd_nextAttemptAt (filter (dueAt now) (wh_deliveries s)))"
    unfolding dueBatch_def by (metis in_set_takeD list.set_intros(1))
  then have "workLeft (attemptDelivery (env (wd_id d)) now (wd_id d) s) < workLeft s"
    by (intro attemptDelivery_work(2)[OF assms(1)]) auto
  moreover have "workLeft (tick env now s) \<le> workLeft (attemptDelivery (env (wd_id d)) now (wd_id d) s)"
    unfolding tick_def b using tick_fold_work[OF attemptDelivery_ok[OF assms(1)]] by simp
  ultimately show ?thesis by simp
qed

text \<open>The worker run again and again: run \<open>k\<close> happens at time \<open>clock k\<close> in the environment \<open>env k\<close>.\<close>

fun ticks :: "(nat \<Rightarrow> string \<Rightarrow> wh_env) \<Rightarrow> (nat \<Rightarrow> nat) \<Rightarrow> nat \<Rightarrow> webhook_db \<Rightarrow> webhook_db" where
  "ticks env clock 0 s = s"
| "ticks env clock (Suc k) s = tick (env k) (clock k) (ticks env clock k s)"

lemma ticks_ok: "wh_ok ids s \<Longrightarrow> wh_ok ids (ticks env clock k s)"
  by (induction k) (simp_all add: tick_ok)

lemma ticks_same_or_less:
  assumes "wh_ok ids s"
  shows "ticks env clock (n + k) s = ticks env clock n s \<or> workLeft (ticks env clock (n + k) s) < workLeft (ticks env clock n s)"
proof (induction k)
  case (Suc k)
  let ?u = "ticks env clock (n + k) s"
  have "tick (env (n + k)) (clock (n + k)) ?u = ?u \<or> workLeft (tick (env (n + k)) (clock (n + k)) ?u) < workLeft ?u"
    using tick_idle tick_progress[OF ticks_ok[OF assms]] by blast
  with Suc show ?case by auto
qed simp

lemma attemptedRow_ids: "map wd_id (wh_deliveries (attemptDelivery env now i s)) = map wd_id (wh_deliveries s)"
  if "keyed wd_id (wh_deliveries s)"
  unfolding attemptDelivery_eq[OF that] by (simp add: map_upd_where)

lemma tick_ids: "wh_ok ids s \<Longrightarrow> map wd_id (wh_deliveries (tick env now s)) = map wd_id (wh_deliveries s)"
proof -
  have "wh_ok ids s \<Longrightarrow> map wd_id (wh_deliveries (fold (\<lambda>i. attemptDelivery (env i) now i) js s)) = map wd_id (wh_deliveries s)" for js
  proof (induction js arbitrary: s)
    case (Cons i js)
    then show ?case using attemptedRow_ids[OF wh_okD(1)[OF Cons.prems]] attemptDelivery_ok[OF Cons.prems] by simp
  qed simp
  then show "wh_ok ids s \<Longrightarrow> ?thesis" by (simp add: tick_def)
qed

lemma ticks_less:
  assumes "wh_ok ids s" "\<And>n x. \<exists>m \<ge> n. x \<le> clock m" "d \<in> set (wh_deliveries (ticks env clock n s))" "wd_status d = WH_PENDING"
  shows "\<exists>m. workLeft (ticks env clock m s) < workLeft (ticks env clock n s)"
proof -
  obtain m where m: "n \<le> m" "wd_nextAttemptAt d \<le> clock m" using assms(2) by blast
  have step: "ticks env clock m s = ticks env clock n s \<or> workLeft (ticks env clock m s) < workLeft (ticks env clock n s)"
    using ticks_same_or_less[OF assms(1), of env clock n "m - n"] m(1) by simp
  moreover have "workLeft (ticks env clock (Suc m) s) < workLeft (ticks env clock n s)" if "ticks env clock m s = ticks env clock n s"
    using tick_progress[OF ticks_ok[OF assms(1)], of env clock n "clock m"] assms(3,4) m(2) that by (auto simp: dueAt_def)
  ultimately show ?thesis by blast
qed

text \<open>
  C3: however receivers, names and secrets behave, and whatever led to the state, once no new deliveries
  are added the worker settles every one of them: after finitely many runs at times that keep going on,
  each delivery is marked as delivered, on a success status unless the failure had no message, or has
  failed with all six attempts used, and none was attempted more often.
\<close>

theorem deliveries_settle:
  assumes "wh_reachable ids s" "inj ids" "\<And>n x. \<exists>m \<ge> n. x \<le> clock m"
  shows "\<exists>n. map wd_id (wh_deliveries (ticks env clock n s)) = map wd_id (wh_deliveries s) \<and>
    (\<forall>d \<in> set (wh_deliveries (ticks env clock n s)).
       (wd_status d = WH_SUCCESS \<and> 1 \<le> wd_attempts d \<and> wd_attempts d \<le> 6 \<and>
          (case wd_lastStatusCode d of None \<Rightarrow> True | Some c \<Rightarrow> 200 \<le> c \<and> c < 300)) \<or>
       (wd_status d = WH_FAILED \<and> wd_attempts d = 6))"
proof -
  note ok = wh_reachable_ok[OF assms(1,2)]
  define n where "n = (ARG_MIN (\<lambda>n. workLeft (ticks env clock n s)) n. True)"
  have least: "workLeft (ticks env clock n s) \<le> workLeft (ticks env clock m s)" for m
    unfolding n_def by (rule arg_min_nat_le) simp
  have okn: "wh_ok ids (ticks env clock n s)" using ticks_ok[OF ok] .
  have settled: "wd_status d \<noteq> WH_PENDING" if "d \<in> set (wh_deliveries (ticks env clock n s))" for d
    using ticks_less[OF ok assms(3) that] least by (meson leD)
  have same: "map wd_id (wh_deliveries (ticks env clock k s)) = map wd_id (wh_deliveries s)" for k
    by (induction k) (simp_all add: tick_ids[OF ticks_ok[OF ok]])
  have "(wd_status d = WH_SUCCESS \<and> 1 \<le> wd_attempts d \<and> wd_attempts d \<le> 6 \<and>
          (case wd_lastStatusCode d of None \<Rightarrow> True | Some c \<Rightarrow> 200 \<le> c \<and> c < 300)) \<or>
       (wd_status d = WH_FAILED \<and> wd_attempts d = 6)" if "d \<in> set (wh_deliveries (ticks env clock n s))" for d
    using wh_okD(2)[OF okn that] settled[OF that]
    by (cases "wd_status d") (auto simp: delivery_ok_def MAX_ATTEMPTS_def BACKOFF_MS_def)
  with same show ?thesis by blast
qed


text \<open>A receiver that refuses one delivery and takes the other.\<close>

definition hookEnv :: wh_env where
  "hookEnv = \<lparr>ev_ids = (\<lambda>n. replicate n CHR ''x''), ev_openSecret = Inr, ev_parseUrl = (\<lambda>_. Some hook_url),
     ev_resolve = (\<lambda>_. Some [(''203.0.113.7'', 4)]),
     ev_net = \<lparr>no_allowPrivate = True, no_allowInsecure = False\<rparr>, ev_hmac = (\<lambda>k m. ''mac''),
     ev_stringify = wp_data,
     ev_post = (\<lambda>t body hs. if body = ''refuse'' then Inr 503 else Inr 200), ev_took = 40\<rparr>"

definition hookRow :: webhook_endpoint where
  "hookRow = \<lparr>we_id = [], we_restaurantId = ''r1'', we_url = ''https://till.example/'', we_secret = ''whsec_k'',
     we_events = [''order.paid''], we_description = None, we_isActive = True, we_createdAt = 5\<rparr>"

definition hookStore :: webhook_db where
  "hookStore = emitForBranch (\<lambda>n. replicate n CHR ''x'') 20 ''b1'' ''order.paid'' ''refuse''
     (emitForBranch (\<lambda>n. replicate n CHR ''x'') 10 ''b1'' ''order.paid'' ''take''
       (freshStore [(''b1'', ''r1'')]\<lparr>wh_endpoints := [hookRow], wh_next := 1\<rparr>))"

lemma hookStore_reachable: "wh_reachable (\<lambda>n. replicate n CHR ''x'') hookStore"
proof -
  let ?s = "freshStore [(''b1'', ''r1'')]"
  have h: "isIP ''till.example'' = 0" by code_simp
  have u: "assertUrl hookEnv ''https://till.example/'' = Inr ()"
    by (simp add: assertUrl_def resolveWebhookTarget_def hookEnv_def hook_url_def unbracket_def h)
  have "validateEvents [''order.paid''] = Inr [''order.paid'']" by code_simp
  then have "createEndpoint hookEnv (\<lambda>x. x) ''k'' 5 ''r1'' ''https://till.example/'' [''order.paid''] None ?s =
      Inr (hookRow, ?s\<lparr>wh_endpoints := [hookRow], wh_next := 1\<rparr>)"
    by (simp add: createEndpoint_def u freshStore_def hookRow_def Let_def) (simp add: hookEnv_def)
  then have "wh_step (\<lambda>n. replicate n CHR ''x'') ?s (?s\<lparr>wh_endpoints := [hookRow], wh_next := 1\<rparr>)"
    by (rule wh_step.create) (simp add: hookEnv_def)
  then have "(wh_step (\<lambda>n. replicate n CHR ''x''))\<^sup>*\<^sup>* ?s hookStore" unfolding hookStore_def
    by (rule rtranclp.rtrancl_into_rtrancl[OF rtranclp.rtrancl_into_rtrancl[OF r_into_rtranclp]])
      (rule wh_step.emitBranch)+
  then show ?thesis unfolding wh_reachable_def by blast
qed

lemma deliveries_settle_witness:
  "\<exists>n. map wd_id (wh_deliveries (ticks (\<lambda>_ _. hookEnv) (\<lambda>k. 60000 * k) n hookStore)) = [''x'', ''xx''] \<and>
    (\<forall>d \<in> set (wh_deliveries (ticks (\<lambda>_ _. hookEnv) (\<lambda>k. 60000 * k) n hookStore)). wd_status d \<noteq> WH_PENDING)"
proof -
  have c: "\<exists>m \<ge> n. x \<le> 60000 * m" for n x :: nat by (intro exI[of _ "max n x"]) auto
  have i: "inj (\<lambda>n. replicate n CHR ''x'')" by (auto intro: injI)
  have ids: "map wd_id (wh_deliveries hookStore) = [''x'', ''xx'']"
    by (simp add: hookStore_def emitForBranch_def emitTo_def freshStore_def hookRow_def listening_def newDelivery_def Let_def eval_nat_numeral)
  from deliveries_settle[OF hookStore_reachable i c, of "\<lambda>_ _. hookEnv"] show ?thesis
    unfolding ids
  proof (elim exE conjE, intro exI conjI ballI)
    fix n d
    assume "\<forall>d \<in> set (wh_deliveries (ticks (\<lambda>_ _. hookEnv) ((*) 60000) n hookStore)).
       (wd_status d = WH_SUCCESS \<and> 1 \<le> wd_attempts d \<and> wd_attempts d \<le> 6 \<and>
          (case wd_lastStatusCode d of None \<Rightarrow> True | Some c \<Rightarrow> 200 \<le> c \<and> c < 300)) \<or>
       (wd_status d = WH_FAILED \<and> wd_attempts d = 6)"
      and "d \<in> set (wh_deliveries (ticks (\<lambda>_ _. hookEnv) ((*) 60000) n hookStore))"
    then show "wd_status d \<noteq> WH_PENDING" by fastforce
  qed
qed

text \<open>A failure whose message is empty counts as a delivery: the receiver got nothing, the row says success.\<close>

lemma blank_failure_is_success: "wd_status (outcomeOn t k (None, Some []) d) = WH_SUCCESS"
  by (simp add: outcomeOn_def)

text \<open>After a claim no other worker claims the delivery for two minutes, unless its outcome is recorded first.\<close>

lemma claim_excludes:
  assumes "later < now + CLAIM_MS" "\<And>d. d \<in> set (wh_deliveries s) \<Longrightarrow> wd_id d = i \<Longrightarrow> dueAt now d"
  shows "\<not> fst (claimDelivery later i (snd (claimDelivery now i s)))"
proof -
  have "\<not> (wd_id d = i \<and> dueAt later d)" if d: "d \<in> set (wh_deliveries (snd (claimDelivery now i s)))" for d
  proof -
    from d obtain r where "r \<in> set (wh_deliveries s)"
      "d = (if wd_id r = i \<and> dueAt now r then claimedRow now r else r)"
      by (auto simp: claimDelivery_def upd_where_def claimedRow_def)
    then show ?thesis using assms by (auto simp: claimedRow_def dueAt_def split: if_splits)
  qed
  then show ?thesis by (subst claimDelivery_def) (auto simp: count_where_def filter_empty_conv)
qed

end
