(* ===== verification/Csv.thy ===== *)
theory Csv
  imports Prelude
begin

text \<open>
  The reader and writer of bulk imports, \<open>modules/imports/csv.ts\<close>. A text is the list of its UTF-16 code
  units. Values to be written are given as their printed text, \<open>None\<close> for \<open>null\<close> and \<open>undefined\<close>.
\<close>

type_synonym utext = "nat list"

section \<open>Characters\<close>

abbreviation (input) QUOTE :: nat where "QUOTE \<equiv> 34"
abbreviation (input) COMMA :: nat where "COMMA \<equiv> 44"
abbreviation (input) SEMICOLON :: nat where "SEMICOLON \<equiv> 59"
abbreviation (input) TAB :: nat where "TAB \<equiv> 9"
abbreviation (input) LF :: nat where "LF \<equiv> 10"
abbreviation (input) CR :: nat where "CR \<equiv> 13"
abbreviation (input) BOM :: nat where "BOM \<equiv> 65279"

text \<open>What \<open>String.prototype.trim\<close> removes.\<close>

definition white :: "nat \<Rightarrow> bool" where
  "white c \<longleftrightarrow> (9 \<le> c \<and> c \<le> 13) \<or> c = 32 \<or> c = 160 \<or> c = 5760 \<or> (8192 \<le> c \<and> c \<le> 8202) \<or>
     c = 8232 \<or> c = 8233 \<or> c = 8239 \<or> c = 8287 \<or> c = 12288 \<or> c = BOM"

definition trimText :: "utext \<Rightarrow> utext" where
  "trimText s = rev (dropWhile white (rev (dropWhile white s)))"

section \<open>Reading\<close>

datatype csv_error = NotText | NeverClosed nat | EmptyFile | NoColumnNames

text \<open>A data row: its line in the file, its cells, and whether it holds more than the header has columns.\<close>

record csv_row =
  cv_line :: nat
  cv_cells :: "utext list"
  cv_overflow :: bool
  cv_longer :: bool

record parsed_csv =
  pc_delimiter :: nat
  pc_headers :: "utext list"
  pc_rows :: "csv_row list"

text \<open>The counts of \<open>,\<close>, \<open>;\<close> and tab outside quotes.\<close>

fun delimiterCounts :: "bool \<Rightarrow> utext \<Rightarrow> nat \<times> nat \<times> nat \<Rightarrow> nat \<times> nat \<times> nat" where
  "delimiterCounts quoted [] n = n"
| "delimiterCounts quoted (ch # rest) (c, s, t) =
     (if ch = QUOTE then delimiterCounts (\<not> quoted) rest (c, s, t)
      else if quoted then delimiterCounts quoted rest (c, s, t)
      else if ch = COMMA then delimiterCounts quoted rest (c + 1, s, t)
      else if ch = SEMICOLON then delimiterCounts quoted rest (c, s + 1, t)
      else if ch = TAB then delimiterCounts quoted rest (c, s, t + 1)
      else delimiterCounts quoted rest (c, s, t))"

definition detectDelimiter :: "utext \<Rightarrow> nat" where
  "detectDelimiter firstLine =
     (case delimiterCounts False firstLine (0, 0, 0) of (c, s, t) \<Rightarrow>
        if c < s \<and> t \<le> s then SEMICOLON else if c < t \<and> s < t then TAB else COMMA)"

text \<open>The variables of the reading loop.\<close>

record csv_state =
  cs_records :: "(nat \<times> utext list) list"
  cs_cells :: "utext list"
  cs_cell :: utext
  cs_quoted :: bool
  cs_wasQuoted :: bool
  cs_line :: nat
  cs_recordLine :: nat

definition endCell :: "csv_state \<Rightarrow> csv_state" where
  "endCell st = st\<lparr>cs_cells := cs_cells st @ [if cs_wasQuoted st then cs_cell st else trimText (cs_cell st)],
     cs_cell := [], cs_wasQuoted := False\<rparr>"

definition endRecord :: "csv_state \<Rightarrow> csv_state" where
  "endRecord st =
     (let st1 = endCell st in
      st1\<lparr>cs_records := cs_records st1 @ (if cs_cells st1 = [[]] then [] else [(cs_recordLine st1, cs_cells st1)]),
          cs_cells := []\<rparr>)"

definition endLine :: "csv_state \<Rightarrow> csv_state" where
  "endLine st = (let st1 = endRecord st in st1\<lparr>cs_line := cs_line st1 + 1, cs_recordLine := cs_line st1 + 1\<rparr>)"

text \<open>The loop over the text, one or two characters at a time.\<close>

function scan :: "nat \<Rightarrow> utext \<Rightarrow> csv_state \<Rightarrow> csv_state" where
  "scan d [] st = st"
| "scan d (ch # rest) st =
     (if cs_quoted st then
        (if ch = QUOTE then
           (if rest \<noteq> [] \<and> hd rest = QUOTE then scan d (tl rest) (st\<lparr>cs_cell := cs_cell st @ [QUOTE]\<rparr>)
            else scan d rest (st\<lparr>cs_quoted := False\<rparr>))
         else scan d rest (st\<lparr>cs_line := (if ch = LF then cs_line st + 1 else cs_line st), cs_cell := cs_cell st @ [ch]\<rparr>))
      else if ch = QUOTE \<and> trimText (cs_cell st) = [] then
        scan d rest (st\<lparr>cs_quoted := True, cs_wasQuoted := True, cs_cell := []\<rparr>)
      else if ch = d then scan d rest (endCell st)
      else if ch = CR \<or> ch = LF then
        scan d (if ch = CR \<and> rest \<noteq> [] \<and> hd rest = LF then tl rest else rest) (endLine st)
      else scan d rest (st\<lparr>cs_cell := cs_cell st @ [ch]\<rparr>))"
  by pat_completeness auto
termination by (relation "measure (\<lambda>(d, t, st). length t)") auto

definition scanStart :: csv_state where
  "scanStart = \<lparr>cs_records = [], cs_cells = [], cs_cell = [], cs_quoted = False, cs_wasQuoted = False,
     cs_line = 1, cs_recordLine = 1\<rparr>"

definition stripBom :: "utext \<Rightarrow> utext" where
  "stripBom s = (if s \<noteq> [] \<and> hd s = BOM then tl s else s)"

definition firstLineOf :: "utext \<Rightarrow> utext" where
  "firstLineOf s = takeWhile (\<lambda>c. c \<noteq> CR \<and> c \<noteq> LF) s"

text \<open>A row cut or padded to the header width.\<close>

definition rowOf :: "nat \<Rightarrow> nat \<times> utext list \<Rightarrow> csv_row" where
  "rowOf w r = \<lparr>cv_line = fst r, cv_cells = map (\<lambda>i. if i < length (snd r) then snd r ! i else []) [0..<w],
     cv_overflow = list_ex (\<lambda>c. c \<noteq> []) (drop w (snd r)), cv_longer = (w < length (snd r))\<rparr>"

definition parseCsv :: "utext \<Rightarrow> csv_error + parsed_csv" where
  "parseCsv input =
     (let s = stripBom input in
      if 0 \<in> set s then Inl NotText
      else
        (let delimiter = detectDelimiter (firstLineOf s);
             st = scan delimiter s scanStart in
         if cs_quoted st then Inl (NeverClosed (cs_recordLine st))
         else
           (let st1 = (if cs_cell st \<noteq> [] \<or> cs_cells st \<noteq> [] then endRecord st else st) in
            case cs_records st1 of
              [] \<Rightarrow> Inl EmptyFile
            | head # body \<Rightarrow>
                (let headers = map trimText (snd head) in
                 if list_all (\<lambda>h. h = []) headers then Inl NoColumnNames
                 else Inr \<lparr>pc_delimiter = delimiter, pc_headers = headers,
                           pc_rows = map (rowOf (length headers)) body\<rparr>))))"

section \<open>Writing\<close>

definition doubleQuotes :: "utext \<Rightarrow> utext" where
  "doubleQuotes s = concat (map (\<lambda>c. if c = QUOTE then [QUOTE, QUOTE] else [c]) s)"

definition needsQuotes :: "utext \<Rightarrow> bool" where
  "needsQuotes s \<longleftrightarrow> list_ex (\<lambda>c. c = QUOTE \<or> c = COMMA \<or> c = CR \<or> c = LF \<or> c = SEMICOLON) s \<or> s \<noteq> trimText s"

definition csvCell :: "utext option \<Rightarrow> utext" where
  "csvCell v = (let s = (case v of None \<Rightarrow> [] | Some s \<Rightarrow> s) in
     if needsQuotes s then QUOTE # doubleQuotes s @ [QUOTE] else s)"

fun joinText :: "utext \<Rightarrow> utext list \<Rightarrow> utext" where
  "joinText sep [] = []"
| "joinText sep [x] = x"
| "joinText sep (x # y # xs) = x @ sep @ joinText sep (y # xs)"

definition toCsv :: "utext option list list \<Rightarrow> utext" where
  "toCsv rows = joinText [CR, LF] (map (\<lambda>r. joinText [COMMA] (map csvCell r)) rows) @ [CR, LF]"

text \<open>A cell a spreadsheet would run as a formula: \<open>/^[=+@\t\r]/\<close> or \<open>/^-[^\d.\s]/\<close>.\<close>

definition looksLikeFormula :: "utext \<Rightarrow> bool" where
  "looksLikeFormula v =
     (case v of
        [] \<Rightarrow> False
      | c # rest \<Rightarrow> c \<in> {61, 43, 64, TAB, CR} \<or>
          (c = 45 \<and> (case rest of [] \<Rightarrow> False
             | e # _ \<Rightarrow> \<not> (48 \<le> e \<and> e \<le> 57) \<and> e \<noteq> 46 \<and> \<not> white e)))"


section \<open>Reading what was written\<close>

lemma trimText_head: "trimText (c # s) = c # s \<Longrightarrow> \<not> white c"
proof
  assume t: "trimText (c # s) = c # s" and "white c"
  then have "trimText (c # s) = rev (dropWhile white (rev (dropWhile white s)))" by (simp add: trimText_def)
  then have "length (trimText (c # s)) \<le> length s"
    by (metis length_dropWhile_le length_rev order_trans)
  then show False using t by simp
qed

text \<open>The state between two cells, and between two lines.\<close>

definition between :: "csv_state \<Rightarrow> bool" where
  "between st \<longleftrightarrow> cs_cell st = [] \<and> \<not> cs_quoted st \<and> \<not> cs_wasQuoted st"

lemma trimText_Nil [simp]: "trimText [] = []" by (simp add: trimText_def)

lemma scan_plain:
  "\<forall>c \<in> set s. c \<notin> {QUOTE, d, CR, LF} \<Longrightarrow> \<not> cs_quoted st \<Longrightarrow>
   scan d (s @ rest) st = scan d rest (st\<lparr>cs_cell := cs_cell st @ s\<rparr>)"
  by (induction s arbitrary: st) simp_all

lemma scan_quoted:
  "cs_quoted st \<Longrightarrow> rest = [] \<or> hd rest \<noteq> QUOTE \<Longrightarrow>
   scan d (doubleQuotes s @ QUOTE # rest) st =
     scan d rest (st\<lparr>cs_cell := cs_cell st @ s, cs_quoted := False, cs_line := cs_line st + count_list s LF\<rparr>)"
proof (induction s arbitrary: st)
  case Nil
  then show ?case by (auto simp: doubleQuotes_def)
next
  case (Cons c s)
  have "cs_quoted (st\<lparr>cs_line := l, cs_cell := x\<rparr>)" for l x using Cons.prems by simp
  with Cons show ?case by (cases "c = QUOTE") (simp_all add: doubleQuotes_def)
qed

text \<open>A written cell followed by a separator is read back; \<open>l\<close> are the lines inside it.\<close>

lemma scan_cell:
  assumes "between st" "rest = [] \<or> hd rest \<noteq> QUOTE"
  shows "\<exists>l. scan COMMA (csvCell (Some s) @ rest) st =
      scan COMMA rest (st\<lparr>cs_cell := s, cs_wasQuoted := needsQuotes s, cs_line := l\<rparr>)"
proof (cases "needsQuotes s")
  case True
  let ?st = "st\<lparr>cs_quoted := True, cs_wasQuoted := True, cs_cell := []\<rparr>"
  have "scan COMMA (csvCell (Some s) @ rest) st = scan COMMA (doubleQuotes s @ QUOTE # rest) ?st"
    using assms(1) True by (simp add: csvCell_def between_def)
  also have "\<dots> = scan COMMA rest (?st\<lparr>cs_cell := s, cs_quoted := False, cs_line := cs_line st + count_list s LF\<rparr>)"
    using scan_quoted[of ?st rest COMMA s] assms(2) by simp
  finally show ?thesis using assms(1) True
    by (intro exI[of _ "cs_line st + count_list s LF"], cases st) (simp add: between_def)
next
  case False
  then have "\<forall>c \<in> set s. c \<notin> {QUOTE, COMMA, CR, LF}" by (auto simp: needsQuotes_def list_ex_iff)
  from scan_plain[OF this, of st rest] False assms(1) show ?thesis
    by (intro exI[of _ "cs_line st"], cases st) (simp add: csvCell_def between_def)
qed

lemma endCell_written:
  "cs_cells (endCell (st\<lparr>cs_cell := s, cs_wasQuoted := needsQuotes s, cs_line := l\<rparr>)) = cs_cells st @ [s]"
  by (auto simp: endCell_def needsQuotes_def)

text \<open>A written line is read back as one record, unless it is a single empty cell.\<close>

definition recordFor :: "utext list \<Rightarrow> utext list list" where
  "recordFor cells = (if cells = [[]] then [] else [cells])"

lemma scan_row:
  assumes "between st" "r \<noteq> []"
  shows "\<exists>st'. scan COMMA (joinText [COMMA] (map (csvCell \<circ> Some) r) @ CR # LF # rest) st = scan COMMA rest st' \<and>
     between st' \<and> cs_cells st' = [] \<and> map snd (cs_records st') = map snd (cs_records st) @ recordFor (cs_cells st @ r)"
  using assms
proof (induction r arbitrary: st rule: induct_list012)
  case (2 s st)
  from scan_cell[OF 2(1), of "CR # LF # rest" s] obtain l where
    "scan COMMA (csvCell (Some s) @ CR # LF # rest) st =
     scan COMMA (CR # LF # rest) (st\<lparr>cs_cell := s, cs_wasQuoted := needsQuotes s, cs_line := l\<rparr>)" by auto
  also have "\<dots> = scan COMMA rest (endLine (st\<lparr>cs_cell := s, cs_wasQuoted := needsQuotes s, cs_line := l\<rparr>))"
    using 2(1) by (simp add: between_def)
  finally show ?case using 2(1) endCell_written[where st = st and s = s and l = l]
    by (intro exI[of _ "endLine (st\<lparr>cs_cell := s, cs_wasQuoted := needsQuotes s, cs_line := l\<rparr>)"])
      (auto simp: endLine_def endRecord_def Let_def endCell_def between_def recordFor_def needsQuotes_def)
next
  case (3 s s' r st)
  let ?rest = "joinText [COMMA] (map (csvCell \<circ> Some) (s' # r)) @ CR # LF # rest"
  from scan_cell[OF 3(3), of "COMMA # ?rest" s] obtain l where
    "scan COMMA (csvCell (Some s) @ COMMA # ?rest) st =
     scan COMMA (COMMA # ?rest) (st\<lparr>cs_cell := s, cs_wasQuoted := needsQuotes s, cs_line := l\<rparr>)" by auto
  also have "\<dots> = scan COMMA ?rest (endCell (st\<lparr>cs_cell := s, cs_wasQuoted := needsQuotes s, cs_line := l\<rparr>))"
    (is "_ = scan _ _ ?st") using 3(3) by (simp add: between_def)
  finally have eq: "scan COMMA (csvCell (Some s) @ COMMA # ?rest) st = scan COMMA ?rest ?st" .
  have "between ?st" using 3(3) by (simp add: endCell_def between_def)
  from 3(2)[OF this list.simps(3)] obtain st' where st': "scan COMMA ?rest ?st = scan COMMA rest st'" "between st'" "cs_cells st' = []"
    "map snd (cs_records st') = map snd (cs_records ?st) @ recordFor (cs_cells ?st @ s' # r)" by blast
  moreover have "cs_records ?st = cs_records st" by (simp add: endCell_def)
  ultimately show ?case using eq endCell_written[where st = st and s = s and l = l] by (intro exI[of _ st']) (simp add: o_def)
qed simp

lemma scan_rows:
  assumes "between st" "cs_cells st = []" "\<forall>r \<in> set rows. r \<noteq> []" "rows \<noteq> []"
  shows "\<exists>st'. scan COMMA (toCsv (map (map Some) rows)) st = st' \<and> between st' \<and> cs_cells st' = [] \<and>
     map snd (cs_records st') = map snd (cs_records st) @ concat (map recordFor rows)"
  using assms
proof (induction rows arbitrary: st rule: induct_list012)
  case (2 r st)
  from scan_row[OF 2(1), of r "[]"] 2 show ?case by (auto simp: toCsv_def)
next
  case (3 r r' rows st)
  let ?t = "toCsv (map (map Some) (r' # rows))"
  have t: "toCsv (map (map Some) (r # r' # rows)) = joinText [COMMA] (map (csvCell \<circ> Some) r) @ CR # LF # ?t"
    by (simp add: toCsv_def)
  from scan_row[OF 3(3), of r ?t] 3(5) obtain st1 where st1: "scan COMMA (toCsv (map (map Some) (r # r' # rows))) st = scan COMMA ?t st1"
    "between st1" "cs_cells st1 = []" "map snd (cs_records st1) = map snd (cs_records st) @ recordFor r"
    unfolding t using 3(4) by auto
  from 3(2)[OF st1(2,3)] 3(5) st1(1,4) show ?case by auto
qed simp


subsection \<open>The delimiter of a written file\<close>

text \<open>Outside quotes the written header holds no semicolon and no tab, and neither does any part of it.\<close>

lemma delimiterCounts_mono:
  "delimiterCounts q s (a, b, c) = (a', b', c') \<Longrightarrow> b \<le> b' \<and> c \<le> c'"
proof (induction s arbitrary: q a b c)
  case (Cons ch s)
  from Cons.prems show ?case by (auto split: if_splits dest: Cons.IH)
qed simp

lemma delimiterCounts_append:
  "delimiterCounts q (s @ t) n = delimiterCounts (q \<noteq> odd (count_list s QUOTE)) t (delimiterCounts q s n)"
proof (induction s arbitrary: q n)
  case (Cons ch s)
  show ?case by (cases n) (simp add: Cons.IH)
qed simp

lemma delimiterCounts_prefix:
  assumes "snd (delimiterCounts q (s @ t) (a, 0, 0)) = (0, 0)"
  shows "snd (delimiterCounts q s (a, 0, 0)) = (0, 0)"
proof -
  obtain x y z where d: "delimiterCounts q s (a, 0, 0) = (x, y, z)" by (cases "delimiterCounts q s (a, 0, 0)")
  obtain q' where "delimiterCounts q (s @ t) (a, 0, 0) = delimiterCounts q' t (x, y, z)"
    using delimiterCounts_append[of q s t "(a, 0, 0)"] d by metis
  then show ?thesis using assms d delimiterCounts_mono[of q' t x y z]
    by (cases "delimiterCounts q' t (x, y, z)") auto
qed

lemma delimiterCounts_quoted: "delimiterCounts True (doubleQuotes s @ QUOTE # t) n = delimiterCounts False t n"
proof (induction s)
  case Nil
  then show ?case by (cases n) (simp add: doubleQuotes_def)
next
  case (Cons c s)
  then show ?case by (cases n) (simp add: doubleQuotes_def)
qed

lemma delimiterCounts_plain:
  "\<forall>c \<in> set s. c \<notin> {QUOTE, COMMA, SEMICOLON, TAB} \<Longrightarrow> delimiterCounts False (s @ t) n = delimiterCounts False t n"
  by (induction s) (cases n; simp)+

lemma delimiterCounts_cell:
  assumes "TAB \<notin> set s"
  shows "delimiterCounts False (csvCell (Some s) @ t) n = delimiterCounts False t n"
proof (cases "needsQuotes s")
  case True
  then show ?thesis by (cases n) (simp add: csvCell_def delimiterCounts_quoted)
next
  case False
  then have "\<forall>c \<in> set s. c \<notin> {QUOTE, COMMA, SEMICOLON, TAB}" using assms
    by (auto simp: needsQuotes_def list_ex_iff)
  then show ?thesis using False delimiterCounts_plain by (simp add: csvCell_def)
qed

lemma delimiterCounts_row:
  "\<forall>s \<in> set r. TAB \<notin> set s \<Longrightarrow> snd (delimiterCounts False (joinText [COMMA] (map (csvCell \<circ> Some) r)) n) = snd n"
proof (induction r arbitrary: n rule: induct_list012)
  case (2 s)
  then show ?case using delimiterCounts_cell[of s "[]" n] by simp
next
  case (3 s s' r)
  then show ?case by (cases n) (simp add: delimiterCounts_cell)
qed simp

lemma takeWhile_before: "\<not> P x \<Longrightarrow> \<exists>t. h = takeWhile P (h @ x # y) @ t"
  by (induction h) auto

lemma detectDelimiter_written:
  assumes "\<forall>s \<in> set r. TAB \<notin> set s"
  shows "detectDelimiter (firstLineOf (joinText [COMMA] (map (csvCell \<circ> Some) r) @ CR # t)) = COMMA"
proof -
  let ?h = "joinText [COMMA] (map (csvCell \<circ> Some) r)"
  obtain u where u: "?h = firstLineOf (?h @ CR # t) @ u"
    using takeWhile_before[of "\<lambda>c. c \<noteq> CR \<and> c \<noteq> LF" CR ?h t] unfolding firstLineOf_def by auto
  have "snd (delimiterCounts False (firstLineOf (?h @ CR # t) @ u) (0, 0, 0)) = (0, 0)"
    unfolding u[symmetric] using delimiterCounts_row[OF assms, of "(0, 0, 0)"] by simp
  from delimiterCounts_prefix[OF this] show ?thesis
    by (cases "delimiterCounts False (firstLineOf (?h @ CR # t)) (0, 0, 0)") (simp add: detectDelimiter_def)
qed

subsection \<open>The round trip\<close>

lemma toCsv_head:
  "toCsv (map (map Some) (r # rows)) = joinText [COMMA] (map (csvCell \<circ> Some) r) @ CR #
     (if rows = [] then [LF] else LF # toCsv (map (map Some) rows))"
  by (cases rows) (simp_all add: toCsv_def)

lemma csvCell_set: "x \<in> set (csvCell (Some s)) \<Longrightarrow> x \<in> set s \<or> x = QUOTE"
  by (auto simp: csvCell_def Let_def doubleQuotes_def split: if_splits)

lemma joinText_set: "x \<in> set (joinText sep xs) \<Longrightarrow> x \<in> set sep \<or> (\<exists>s \<in> set xs. x \<in> set s)"
  by (induction sep xs rule: joinText.induct) auto

lemma toCsv_set:
  assumes "x \<in> set (toCsv (map (map Some) rows))" "x \<notin> {CR, LF, COMMA, QUOTE}"
  shows "\<exists>r \<in> set rows. \<exists>s \<in> set r. x \<in> set s"
proof -
  from assms have "x \<in> set (joinText [CR, LF] (map (\<lambda>r. joinText [COMMA] (map csvCell r)) (map (map Some) rows)))"
    by (auto simp: toCsv_def)
  from joinText_set[OF this] assms(2) obtain r where r: "r \<in> set rows" "x \<in> set (joinText [COMMA] (map csvCell (map Some r)))"
    by auto
  from joinText_set[OF r(2)] assms(2) r(1) show ?thesis by (auto dest: csvCell_set)
qed

lemma csvCell_hd: "csvCell (Some s) @ t = c # u \<Longrightarrow> csvCell (Some s) \<noteq> [] \<Longrightarrow> \<not> white c"
proof (cases "needsQuotes s")
  case False
  assume "csvCell (Some s) @ t = c # u" "csvCell (Some s) \<noteq> []"
  with False obtain s' where "s = c # s'" "s = trimText s" by (cases s) (auto simp: csvCell_def needsQuotes_def)
  then show ?thesis using trimText_head by metis
qed (simp add: csvCell_def white_def)

lemma stripBom_written:
  assumes "r \<noteq> []" shows "stripBom (toCsv (map (map Some) (r # rows))) = toCsv (map (map Some) (r # rows))"
proof -
  obtain s r' where r: "r = s # r'" using assms by (cases r) auto
  obtain u where u: "toCsv (map (map Some) (r # rows)) = csvCell (Some s) @ u" "u \<noteq> []" "hd u \<in> {COMMA, CR}"
    unfolding toCsv_head r by (cases r') auto
  have "hd (csvCell (Some s) @ u) \<noteq> BOM"
  proof (cases "csvCell (Some s)")
    case Nil
    then show ?thesis using u by auto
  next
    case (Cons c w)
    then show ?thesis using csvCell_hd[of s u c "w @ u"] by (auto simp: white_def)
  qed
  then show ?thesis unfolding u(1) stripBom_def by simp
qed

lemma rowOf_same: "length (snd r) = w \<Longrightarrow> rowOf w r = \<lparr>cv_line = fst r, cv_cells = snd r, cv_overflow = False, cv_longer = False\<rparr>"
  by (auto simp: rowOf_def intro: nth_equalityI)




end
