(* ===== verification/Payroll.thy ===== *)
theory Payroll
  imports Pricing Order_State
begin

text \<open>
  Staff time and pay: \<open>modules/attendance/attendance.service.ts\<close>, \<open>modules/hr/hr.service.ts\<close> and
  \<open>payroll.calc.ts\<close>, with the request schemas of \<open>packages/types/src/hr.ts\<close>. Instants are milliseconds,
  dates are day numbers counted from 1970-01-01, money columns are cents. The time zone of a branch is an
  argument: the instant at which a local day begins, and the local day of an instant. The tips of a period
  come from the paid orders.
\<close>

section \<open>Dates\<close>

record civil =
  dt_year :: int
  dt_month :: int
  dt_day :: int

definition leapYear :: "int \<Rightarrow> bool" where
  "leapYear y \<longleftrightarrow> y mod 4 = 0 \<and> (y mod 100 \<noteq> 0 \<or> y mod 400 = 0)"

definition monthLength :: "int \<Rightarrow> int \<Rightarrow> int" where
  "monthLength y m = (if m = 2 then (if leapYear y then 29 else 28) else if m \<in> {4, 6, 9, 11} then 30 else 31)"

text \<open>\<open>Date.parse(`${d}T00:00:00Z`) / 86400000\<close>\<close>

definition dayNumber :: "civil \<Rightarrow> int" where
  "dayNumber d =
     (let y = dt_year d - 1 in
      365 * (dt_year d - 1970) + (y div 4 - y div 100 + y div 400 - (1969 div 4 - 1969 div 100 + 1969 div 400)) +
      sum_list (map (\<lambda>m. monthLength (dt_year d) (int m)) [1..<nat (dt_month d)]) + dt_day d - 1)"

definition daysInclusive :: "civil \<Rightarrow> civil \<Rightarrow> int" where
  "daysInclusive start end = dayNumber end - dayNumber start + 1"

definition daysInMonthOf :: "civil \<Rightarrow> int" where
  "daysInMonthOf d = monthLength (dt_year d) (dt_month d)"

section \<open>Payroll arithmetic\<close>

datatype pay_type = MONTHLY | HOURLY

record pay_input =
  pi_userId :: string
  pi_payType :: pay_type
  pi_rate :: num
  pi_hoursWorked :: num
  pi_unpaidLeaveDays :: int

record pay_line_result =
  pl_userId :: string
  pl_hoursWorked :: num
  pl_basePay :: num
  pl_tipShare :: num
  pl_unpaidLeaveDeduction :: num
  pl_netPay :: num

text \<open>The shares of the tip pool; the last recipient takes what is left.\<close>

fun tipShares :: "num \<Rightarrow> num \<Rightarrow> pay_input list \<Rightarrow> num \<Rightarrow> (string \<times> num) list" where
  "tipShares tipPool totalHours [] allocated = []"
| "tipShares tipPool totalHours [p] allocated = [(pi_userId p, round2 (fsub tipPool allocated))]"
| "tipShares tipPool totalHours (p # q # ps) allocated =
     (let share = round2 (fdiv (fmul tipPool (pi_hoursWorked p)) totalHours)
      in (pi_userId p, share) # tipShares tipPool totalHours (q # ps) (round2 (fadd allocated share)))"

definition totalHoursOf :: "pay_input list \<Rightarrow> num" where
  "totalHoursOf staff = fsum (map pi_hoursWorked staff)"

definition tipsOf :: "num \<Rightarrow> pay_input list \<Rightarrow> (string \<times> num) list" where
  "tipsOf tipPool staff =
     (if 0 < tipPool \<and> 0 < totalHoursOf staff
      then tipShares tipPool (totalHoursOf staff) (filter (\<lambda>p. 0 < pi_hoursWorked p) staff) 0 else [])"

definition payLine :: "int \<Rightarrow> int \<Rightarrow> (string \<times> num) list \<Rightarrow> pay_input \<Rightarrow> pay_line_result" where
  "payLine periodDays monthDays tips p =
     (let hourly = (pi_payType p = HOURLY);
          basePay = (if hourly then round2 (fmul (pi_rate p) (pi_hoursWorked p))
                     else round2 (fdiv (fmul (pi_rate p) (of_int periodDays)) (of_int monthDays)));
          deduction = (if hourly then 0
                       else round2 (fmul (fdiv (pi_rate p) (of_int monthDays)) (of_int (pi_unpaidLeaveDays p))));
          tipShare = (case map_of (rev tips) (pi_userId p) of None \<Rightarrow> 0 | Some t \<Rightarrow> t)
      in \<lparr>pl_userId = pi_userId p, pl_hoursWorked = round2 (pi_hoursWorked p), pl_basePay = basePay,
          pl_tipShare = tipShare, pl_unpaidLeaveDeduction = deduction,
          pl_netPay = round2 (fadd (fsub basePay deduction) tipShare)\<rparr>)"

definition computePayroll :: "civil \<Rightarrow> civil \<Rightarrow> num \<Rightarrow> pay_input list \<Rightarrow> pay_line_result list" where
  "computePayroll periodStart periodEnd tipPool staff =
     map (payLine (daysInclusive periodStart periodEnd) (daysInMonthOf periodStart) (tipsOf tipPool staff)) staff"

record adjustments =
  aj_allowances :: num
  aj_bonus :: num
  aj_advanceRecovery :: num
  aj_otherDeductions :: num

text \<open>Net pay with the adjustments; deductions beyond the pay are refused (a \<open>RangeError\<close>).\<close>

definition netWithAdjustments :: "num \<Rightarrow> num \<Rightarrow> num \<Rightarrow> adjustments \<Rightarrow> string + num" where
  "netWithAdjustments basePay tipShare unpaidLeaveDeduction a =
     (let earned = round2 (fadd (fadd (fadd basePay tipShare) (aj_allowances a)) (aj_bonus a));
          deducted = round2 (fadd (fadd unpaidLeaveDeduction (aj_advanceRecovery a)) (aj_otherDeductions a));
          net = round2 (fsub earned deducted)
      in if net < 0 then Inl ''Deductions are more than the pay'' else Inr net)"

section \<open>Rows\<close>

record attendance =
  at_id :: string
  at_userId :: string
  at_branchId :: string
  at_clockInAt :: int
  at_clockOutAt :: "int option"
  at_note :: "string option"

record shift =
  sh_id :: string
  sh_branchId :: string
  sh_userId :: string
  sh_startsAt :: int
  sh_endsAt :: int
  sh_note :: "string option"

datatype leave_type = ANNUAL | SICK | UNPAID | OTHER_LEAVE
datatype leave_status = LEAVE_PENDING | LEAVE_APPROVED | LEAVE_REJECTED

record leave_request =
  lv_id :: string
  lv_branchId :: string
  lv_userId :: string
  lv_type :: leave_type
  lv_startDate :: int
  lv_endDate :: int
  lv_reason :: "string option"
  lv_status :: leave_status
  lv_decidedBy :: "(string \<times> int) option"

record staff_pay =
  sp_userId :: string
  sp_payType :: pay_type
  sp_rate :: int

datatype payroll_status = DRAFT | FINALIZED | RUN_PAID

record payroll_run =
  pr_id :: string
  pr_branchId :: string
  pr_periodStart :: int
  pr_periodEnd :: int
  pr_status :: payroll_status
  pr_tipPool :: int
  pr_totalNet :: int
  pr_finalizedAt :: "int option"
  pr_paid :: "(int \<times> string \<times> string \<times> string option) option"

record payroll_line =
  pn_runId :: string
  pn_userId :: string
  pn_hoursWorked :: int
  pn_basePay :: int
  pn_tipShare :: int
  pn_unpaidLeaveDeduction :: int
  pn_allowances :: int
  pn_bonus :: int
  pn_advanceRecovery :: int
  pn_otherDeductions :: int
  pn_adjustmentNote :: "string option"
  pn_netPay :: int

record hr_db =
  hr_staff :: "(string \<times> string) list"
  hr_attendance :: "attendance list"
  hr_shifts :: "shift list"
  hr_leave :: "leave_request list"
  hr_pay :: "staff_pay list"
  hr_runs :: "payroll_run list"
  hr_lines :: "payroll_line list"

text \<open>The time zone of a branch.\<close>

record zone =
  zn_dayStart :: "int \<Rightarrow> int"
  zn_localDay :: "int \<Rightarrow> int"

definition zonedRange :: "zone \<Rightarrow> int \<Rightarrow> int \<Rightarrow> int \<times> int" where
  "zonedRange z a b = (zn_dayStart z a, zn_dayStart z (b + 1))"

definition DAY_MS :: int where "DAY_MS = 86400000"

definition assertStaffInBranch :: "string \<Rightarrow> string \<Rightarrow> hr_db \<Rightarrow> unit res" where
  "assertStaffInBranch branchId userId s =
     (if (branchId, userId) \<in> set (hr_staff s) then Inr ()
      else Inl (BadRequest ''That staff member is not in this branch''))"

section \<open>Attendance\<close>

definition openShift :: "string \<Rightarrow> hr_db \<Rightarrow> attendance option" where
  "openShift userId s = find (\<lambda>a. at_userId a = userId \<and> at_clockOutAt a = None) (hr_attendance s)"

definition clockIn :: "string \<Rightarrow> int \<Rightarrow> string \<Rightarrow> string \<Rightarrow> string option \<Rightarrow> hr_db \<Rightarrow> hr_db res" where
  "clockIn newId now userId branchId note s =
     (if openShift userId s \<noteq> None then Inl (BadRequest ''Already clocked in'')
      else Inr (s\<lparr>hr_attendance := hr_attendance s @ [\<lparr>at_id = newId, at_userId = userId, at_branchId = branchId,
                   at_clockInAt = now, at_clockOutAt = None, at_note = note\<rparr>]\<rparr>))"

text \<open>\<open>current\<close> reads the latest open shift; an empty note leaves the note as it was.\<close>

definition clockOut :: "int \<Rightarrow> string \<Rightarrow> string option \<Rightarrow> hr_db \<Rightarrow> hr_db res" where
  "clockOut now userId note s =
     (case sort_key (\<lambda>a. - at_clockInAt a) (filter (\<lambda>a. at_userId a = userId \<and> at_clockOutAt a = None) (hr_attendance s)) of
        [] \<Rightarrow> Inl (BadRequest ''Not clocked in'')
      | a # _ \<Rightarrow> Inr (s\<lparr>hr_attendance := upd_where (\<lambda>r. at_id r = at_id a)
          (\<lambda>r. r\<lparr>at_clockOutAt := Some now,
                 at_note := (if note \<noteq> None \<and> note \<noteq> Some '''' then note else at_note r)\<rparr>) (hr_attendance s)\<rparr>))"

text \<open>
  A correction: a missing field keeps its value, \<open>Some None\<close> clears the clock-out.
\<close>

record correction =
  co_clockInAt :: "int option"
  co_clockOutAt :: "int option option"
  co_note :: "string option"

definition checkTimes :: "int \<Rightarrow> int \<Rightarrow> int option \<Rightarrow> unit res" where
  "checkTimes now cin cout =
     (if now + 60000 < cin then Inl (BadRequest ''Clock-in cannot be in the future'')
      else case cout of
             None \<Rightarrow> Inr ()
           | Some e \<Rightarrow>
               if now + 60000 < e then Inl (BadRequest ''Clock-out cannot be in the future'')
               else if e \<le> cin then Inl (BadRequest ''Clock-out must be after clock-in'')
               else if 24 * 3600000 < e - cin then Inl (BadRequest ''A shift cannot be longer than 24 hours'')
               else Inr ())"

definition overlapsOther :: "int \<Rightarrow> attendance \<Rightarrow> int \<Rightarrow> int option \<Rightarrow> hr_db \<Rightarrow> bool" where
  "overlapsOther now rec cin cout s =
     list_ex (\<lambda>a. at_userId a = at_userId rec \<and> at_id a \<noteq> at_id rec \<and>
        at_clockInAt a < (case cout of None \<Rightarrow> now + 24 * 3600000 | Some e \<Rightarrow> e) \<and>
        (case at_clockOutAt a of None \<Rightarrow> True | Some e \<Rightarrow> cin < e)) (hr_attendance s)"

text \<open>Whether the old or the new times touch an approved payroll run of the branch.\<close>

definition touchesApproved :: "attendance \<Rightarrow> int \<Rightarrow> int option \<Rightarrow> hr_db \<Rightarrow> bool" where
  "touchesApproved rec cin cout s =
     (let days = [at_clockInAt rec, case at_clockOutAt rec of None \<Rightarrow> at_clockInAt rec | Some e \<Rightarrow> e,
                  cin, case cout of None \<Rightarrow> cin | Some e \<Rightarrow> e];
          lo = foldr min days (at_clockInAt rec); hi = foldr max days (at_clockInAt rec)
      in list_ex (\<lambda>r. pr_branchId r = at_branchId rec \<and> pr_status r \<in> {FINALIZED, RUN_PAID} \<and>
           pr_periodStart r * DAY_MS \<le> hi \<and> lo - 24 * 3600000 \<le> pr_periodEnd r * DAY_MS) (hr_runs s))"

definition correct :: "int \<Rightarrow> string list \<Rightarrow> string \<Rightarrow> correction \<Rightarrow> hr_db \<Rightarrow> hr_db res" where
  "correct now branches i d s =
     (case find (\<lambda>a. at_id a = i \<and> at_branchId a \<in> set branches) (hr_attendance s) of
        None \<Rightarrow> Inl (NotFound ''Attendance record not found'')
      | Some rec \<Rightarrow>
          (let cin = (case co_clockInAt d of None \<Rightarrow> at_clockInAt rec | Some t \<Rightarrow> t);
               cout = (case co_clockOutAt d of None \<Rightarrow> at_clockOutAt rec | Some t \<Rightarrow> t)
           in ebind (checkTimes now cin cout) (\<lambda>_.
              if overlapsOther now rec cin cout s
              then Inl (BadRequest ''This overlaps another shift of the same person'')
              else if touchesApproved rec cin cout s
              then Inl (BadRequest ''This falls inside a payroll run that is already finalized - it cannot be changed'')
              else Inr (s\<lparr>hr_attendance := upd_where (\<lambda>a. at_id a = i)
                 (\<lambda>a. a\<lparr>at_clockInAt := cin, at_clockOutAt := cout,
                        at_note := (case co_note d of None \<Rightarrow> at_note a | Some n \<Rightarrow> Some n)\<rparr>) (hr_attendance s)\<rparr>))))"


section \<open>Shifts and leave\<close>

text \<open>Listings are sorted and cut as the queries do; the time range is a half-open range of instants.\<close>

definition listShifts :: "zone \<Rightarrow> string \<Rightarrow> int option \<Rightarrow> int option \<Rightarrow> string option \<Rightarrow> hr_db \<Rightarrow> shift list" where
  "listShifts z branchId from to userId s =
     take 500 (sort_key sh_startsAt (filter (\<lambda>x. sh_branchId x = branchId \<and>
       (case userId of None \<Rightarrow> True | Some u \<Rightarrow> u = '''' \<or> sh_userId x = u) \<and>
       (case from of None \<Rightarrow> True | Some a \<Rightarrow> zn_dayStart z a \<le> sh_startsAt x) \<and>
       (case to of None \<Rightarrow> True | Some b \<Rightarrow> sh_startsAt x < zn_dayStart z (b + 1))) (hr_shifts s)))"

definition createShift :: "zone \<Rightarrow> string \<Rightarrow> string \<Rightarrow> string \<Rightarrow> int \<Rightarrow> int \<Rightarrow> string option \<Rightarrow> hr_db \<Rightarrow> hr_db res" where
  "createShift z newId branchId userId startsAt endsAt note s =
     ebind (assertStaffInBranch branchId userId s) (\<lambda>_.
       if list_ex (\<lambda>x. sh_userId x = userId \<and> sh_startsAt x < endsAt \<and> startsAt < sh_endsAt x) (hr_shifts s)
       then Inl (BadRequest ''That person already has a shift at this time'')
       else if list_ex (\<lambda>l. lv_userId l = userId \<and> lv_status l = LEAVE_APPROVED \<and>
                lv_startDate l \<le> zn_localDay z endsAt \<and> zn_localDay z startsAt \<le> lv_endDate l) (hr_leave s)
       then Inl (BadRequest ''That person has approved leave on this day'')
       else Inr (s\<lparr>hr_shifts := hr_shifts s @ [\<lparr>sh_id = newId, sh_branchId = branchId, sh_userId = userId,
                    sh_startsAt = startsAt, sh_endsAt = endsAt, sh_note = note\<rparr>]\<rparr>))"

definition deleteShift :: "string \<Rightarrow> string \<Rightarrow> hr_db \<Rightarrow> hr_db res" where
  "deleteShift branchId i s =
     (if find (\<lambda>x. sh_id x = i \<and> sh_branchId x = branchId) (hr_shifts s) = None then Inl (NotFound ''Shift not found'')
      else Inr (s\<lparr>hr_shifts := del_where (\<lambda>x. sh_id x = i) (hr_shifts s)\<rparr>))"

definition requestLeave :: "string \<Rightarrow> string \<Rightarrow> string \<Rightarrow> leave_type \<Rightarrow> int \<Rightarrow> int \<Rightarrow> string option \<Rightarrow> hr_db \<Rightarrow> hr_db res" where
  "requestLeave newId branchId userId type startDate endDate reason s =
     ebind (assertStaffInBranch branchId userId s) (\<lambda>_.
       Inr (s\<lparr>hr_leave := hr_leave s @ [\<lparr>lv_id = newId, lv_branchId = branchId, lv_userId = userId, lv_type = type,
          lv_startDate = startDate, lv_endDate = endDate, lv_reason = reason, lv_status = LEAVE_PENDING,
          lv_decidedBy = None\<rparr>]\<rparr>))"

definition decideLeave :: "int \<Rightarrow> string \<Rightarrow> string \<Rightarrow> string \<Rightarrow> bool \<Rightarrow> hr_db \<Rightarrow> hr_db res" where
  "decideLeave now branchId i deciderId approve s =
     (case find (\<lambda>l. lv_id l = i \<and> lv_branchId l = branchId) (hr_leave s) of
        None \<Rightarrow> Inl (NotFound ''Leave request not found'')
      | Some l \<Rightarrow>
          if lv_status l \<noteq> LEAVE_PENDING then Inl (BadRequest ''Already decided'')
          else Inr (s\<lparr>hr_leave := upd_where (\<lambda>x. lv_id x = i)
             (\<lambda>x. x\<lparr>lv_status := (if approve then LEAVE_APPROVED else LEAVE_REJECTED),
                    lv_decidedBy := Some (deciderId, now)\<rparr>) (hr_leave s)\<rparr>))"

definition setPay :: "string \<Rightarrow> string \<Rightarrow> pay_type \<Rightarrow> num \<Rightarrow> hr_db \<Rightarrow> hr_db res" where
  "setPay branchId userId payType rate s =
     ebind (assertStaffInBranch branchId userId s) (\<lambda>_.
       let row = \<lparr>sp_userId = userId, sp_payType = payType, sp_rate = to_column 100 rate\<rparr> in
       Inr (s\<lparr>hr_pay := (if find (\<lambda>p. sp_userId p = userId) (hr_pay s) = None then hr_pay s @ [row]
                         else upd_where (\<lambda>p. sp_userId p = userId) (\<lambda>_. row) (hr_pay s))\<rparr>))"

section \<open>Payroll runs\<close>

definition getRun :: "string \<Rightarrow> string \<Rightarrow> hr_db \<Rightarrow> payroll_run res" where
  "getRun branchId i s =
     (case find (\<lambda>r. pr_id r = i \<and> pr_branchId r = branchId) (hr_runs s) of
        None \<Rightarrow> Inl (NotFound ''Payroll run not found'') | Some r \<Rightarrow> Inr r)"

definition linesOfRun :: "string \<Rightarrow> hr_db \<Rightarrow> payroll_line list" where
  "linesOfRun i s = filter (\<lambda>l. pn_runId l = i) (hr_lines s)"

definition covers :: "string \<Rightarrow> int \<Rightarrow> int \<Rightarrow> payroll_run \<Rightarrow> bool" where
  "covers branchId a b r \<longleftrightarrow> pr_branchId r = branchId \<and> pr_periodStart r \<le> b \<and> a \<le> pr_periodEnd r"

text \<open>Hours clocked inside the period, per person.\<close>

definition hoursIn :: "int \<times> int \<Rightarrow> attendance list \<Rightarrow> string \<Rightarrow> num" where
  "hoursIn z recs u =
     foldl (\<lambda>h a. let st = max (at_clockInAt a) (fst z); en = min (the (at_clockOutAt a)) (snd z)
        in if st < en then fadd h (fdiv (of_int (en - st)) 3600000) else h) 0
       (filter (\<lambda>a. at_userId a = u) recs)"

definition unpaidDaysIn :: "int \<Rightarrow> int \<Rightarrow> leave_request list \<Rightarrow> string \<Rightarrow> int" where
  "unpaidDaysIn a b leaves u =
     sum_list (map (\<lambda>l. let st = max (lv_startDate l) a; en = min (lv_endDate l) b in if st \<le> en then en - st + 1 else 0)
       (filter (\<lambda>l. lv_userId l = u) leaves))"

definition tipsPaid :: "string \<Rightarrow> int \<times> int \<Rightarrow> order list \<Rightarrow> int" where
  "tipsPaid branchId z orders =
     sum_list (map od_tipAmount (filter (\<lambda>r. od_branchId r = branchId \<and> od_status r = PAID \<and>
       (case od_billedAt r of None \<Rightarrow> False | Some t \<Rightarrow> fst z \<le> t \<and> t < snd z)) orders))"

text \<open>The first half of \<open>createRun\<close>: everything read and computed before the lock is taken.\<close>

definition createRunRead :: "zone \<Rightarrow> string \<Rightarrow> civil \<Rightarrow> civil \<Rightarrow> order list \<Rightarrow> hr_db \<Rightarrow> (num \<times> pay_line_result list) res" where
  "createRunRead z branchId periodStart periodEnd orders s =
     (let a = dayNumber periodStart; b = dayNumber periodEnd; zoned = zonedRange z a b in
      if list_ex (covers branchId a b) (hr_runs s)
      then Inl (BadRequest ''A payroll run already covers part of this period'')
      else
        (let staff = filter (\<lambda>p. (branchId, sp_userId p) \<in> set (hr_staff s)) (hr_pay s) in
         if staff = [] then Inl (BadRequest ''Set a pay rate for at least one staff member first'')
         else
           (let recs = filter (\<lambda>x. at_branchId x = branchId \<and> at_clockInAt x < snd zoned \<and>
                         (case at_clockOutAt x of None \<Rightarrow> False | Some e \<Rightarrow> fst zoned < e)) (hr_attendance s);
                leaves = filter (\<lambda>l. lv_branchId l = branchId \<and> lv_status l = LEAVE_APPROVED \<and> lv_type l = UNPAID \<and>
                         lv_startDate l \<le> b \<and> a \<le> lv_endDate l) (hr_leave s);
                tipPool = round2 (cents (tipsPaid branchId zoned orders))
            in Inr (tipPool, computePayroll periodStart periodEnd tipPool
                 (map (\<lambda>p. \<lparr>pi_userId = sp_userId p, pi_payType = sp_payType p, pi_rate = cents (sp_rate p),
                            pi_hoursWorked = hoursIn zoned recs (sp_userId p),
                            pi_unpaidLeaveDays = unpaidDaysIn a b leaves (sp_userId p)\<rparr>) staff)))))"

definition lineOf :: "string \<Rightarrow> pay_line_result \<Rightarrow> payroll_line" where
  "lineOf runId l =
     \<lparr>pn_runId = runId, pn_userId = pl_userId l, pn_hoursWorked = to_column 100 (pl_hoursWorked l),
      pn_basePay = to_column 100 (pl_basePay l), pn_tipShare = to_column 100 (pl_tipShare l),
      pn_unpaidLeaveDeduction = to_column 100 (pl_unpaidLeaveDeduction l), pn_allowances = 0, pn_bonus = 0,
      pn_advanceRecovery = 0, pn_otherDeductions = 0, pn_adjustmentNote = None, pn_netPay = to_column 100 (pl_netPay l)\<rparr>"

text \<open>The second half, under the lock of the branch: the period is checked again, then the run is written.\<close>

definition createRunWrite :: "string \<Rightarrow> string \<Rightarrow> int \<Rightarrow> int \<Rightarrow> num \<Rightarrow> pay_line_result list \<Rightarrow> hr_db \<Rightarrow> hr_db res" where
  "createRunWrite newId branchId a b tipPool lines s =
     (if list_ex (covers branchId a b) (hr_runs s)
      then Inl (BadRequest ''A payroll run already covers part of this period'')
      else Inr (s\<lparr>hr_runs := hr_runs s @ [\<lparr>pr_id = newId, pr_branchId = branchId, pr_periodStart = a, pr_periodEnd = b,
              pr_status = DRAFT, pr_tipPool = to_column 100 tipPool,
              pr_totalNet = to_column 100 (round2 (fsum (map pl_netPay lines))),
              pr_finalizedAt = None, pr_paid = None\<rparr>],
            hr_lines := hr_lines s @ map (lineOf newId) lines\<rparr>))"

definition createRun :: "zone \<Rightarrow> string \<Rightarrow> string \<Rightarrow> civil \<Rightarrow> civil \<Rightarrow> order list \<Rightarrow> hr_db \<Rightarrow> hr_db res" where
  "createRun z newId branchId periodStart periodEnd orders s =
     ebind (createRunRead z branchId periodStart periodEnd orders s) (\<lambda>(tipPool, lines).
       createRunWrite newId branchId (dayNumber periodStart) (dayNumber periodEnd) tipPool lines s)"

record line_adjust =
  la_allowances :: "num option"
  la_bonus :: "num option"
  la_advanceRecovery :: "num option"
  la_otherDeductions :: "num option"
  la_adjustmentNote :: "string option"

definition orStored :: "num option \<Rightarrow> int \<Rightarrow> num" where
  "orStored v c = (case v of None \<Rightarrow> cents c | Some x \<Rightarrow> x)"

definition adjustLine :: "string \<Rightarrow> string \<Rightarrow> string \<Rightarrow> line_adjust \<Rightarrow> hr_db \<Rightarrow> hr_db res" where
  "adjustLine branchId runId userId d s =
     ebind (getRun branchId runId s) (\<lambda>run.
       if pr_status run \<noteq> DRAFT then Inl (BadRequest ''Only a draft payroll can be adjusted'')
       else
         (case find (\<lambda>l. pn_runId l = runId \<and> pn_userId l = userId) (hr_lines s) of
            None \<Rightarrow> Inl (NotFound ''That person is not on this run'')
          | Some l \<Rightarrow>
              (let adj = \<lparr>aj_allowances = orStored (la_allowances d) (pn_allowances l),
                          aj_bonus = orStored (la_bonus d) (pn_bonus l),
                          aj_advanceRecovery = orStored (la_advanceRecovery d) (pn_advanceRecovery l),
                          aj_otherDeductions = orStored (la_otherDeductions d) (pn_otherDeductions l)\<rparr> in
               case netWithAdjustments (cents (pn_basePay l)) (cents (pn_tipShare l)) (cents (pn_unpaidLeaveDeduction l)) adj of
                 Inl m \<Rightarrow> Inl (BadRequest m)
               | Inr net \<Rightarrow>
                   (let s1 = s\<lparr>hr_lines := upd_where (\<lambda>x. pn_runId x = runId \<and> pn_userId x = userId)
                          (\<lambda>x. x\<lparr>pn_allowances := to_column 100 (aj_allowances adj), pn_bonus := to_column 100 (aj_bonus adj),
                                 pn_advanceRecovery := to_column 100 (aj_advanceRecovery adj),
                                 pn_otherDeductions := to_column 100 (aj_otherDeductions adj),
                                 pn_netPay := to_column 100 net,
                                 pn_adjustmentNote := (case la_adjustmentNote d of None \<Rightarrow> pn_adjustmentNote x
                                    | Some n \<Rightarrow> if n = '''' then None else Some n)\<rparr>) (hr_lines s)\<rparr>
                    in Inr (s1\<lparr>hr_runs := upd_where (\<lambda>r. pr_id r = runId)
                          (\<lambda>r. r\<lparr>pr_totalNet := to_column 100 (round2 (cents (sum_list (map pn_netPay (linesOfRun runId s1)))))\<rparr>)
                          (hr_runs s1)\<rparr>)))))"

text \<open>\<open>FINALIZED\<close> to \<open>PAID\<close> by a guarded update.\<close>

definition payRun :: "int \<Rightarrow> string \<Rightarrow> string \<Rightarrow> string \<Rightarrow> string \<Rightarrow> string option \<Rightarrow> hr_db \<Rightarrow> hr_db res" where
  "payRun now branchId i userId payMethod reference s =
     (let P = (\<lambda>r. pr_id r = i \<and> pr_branchId r = branchId \<and> pr_status r = FINALIZED) in
      if count_where P (hr_runs s) = 0
      then ebind (getRun branchId i s) (\<lambda>r.
             Inl (BadRequest (if pr_status r = RUN_PAID then ''This payroll was already paid''
                              else ''Finalize the payroll before paying it'')))
      else Inr (s\<lparr>hr_runs := upd_where P (\<lambda>r. r\<lparr>pr_status := RUN_PAID,
             pr_paid := Some (now, userId, payMethod, if reference = Some '''' then None else reference)\<rparr>) (hr_runs s)\<rparr>))"

text \<open>The read of \<open>finalizeRun\<close> and its update, which does not look at the status again.\<close>

definition finalizeRead :: "string \<Rightarrow> string \<Rightarrow> hr_db \<Rightarrow> unit res" where
  "finalizeRead branchId i s =
     ebind (getRun branchId i s) (\<lambda>run.
       if pr_status run \<noteq> DRAFT then Inl (BadRequest ''Already finalized'') else Inr ())"

definition finalizeWrite :: "int \<Rightarrow> string \<Rightarrow> hr_db \<Rightarrow> hr_db" where
  "finalizeWrite now i s = s\<lparr>hr_runs := upd_where (\<lambda>r. pr_id r = i)
     (\<lambda>r. r\<lparr>pr_status := FINALIZED, pr_finalizedAt := Some now\<rparr>) (hr_runs s)\<rparr>"

definition finalizeRun :: "int \<Rightarrow> string \<Rightarrow> string \<Rightarrow> hr_db \<Rightarrow> hr_db res" where
  "finalizeRun now branchId i s = ebind (finalizeRead branchId i s) (\<lambda>_. Inr (finalizeWrite now i s))"

definition deleteRun :: "string \<Rightarrow> string \<Rightarrow> hr_db \<Rightarrow> hr_db res" where
  "deleteRun branchId i s =
     ebind (getRun branchId i s) (\<lambda>run.
       if pr_status run \<noteq> DRAFT then Inl (BadRequest ''A finalized payroll run cannot be deleted'')
       else Inr (s\<lparr>hr_runs := del_where (\<lambda>r. pr_id r = i) (hr_runs s),
                   hr_lines := del_where (\<lambda>l. pn_runId l = i) (hr_lines s)\<rparr>))"


section \<open>Tips\<close>

text \<open>A float sum of non-negative numbers is at least each of them.\<close>

lemma foldl_fadd_ge:
  "\<forall>x \<in> set xs. 0 \<le> x \<Longrightarrow> fl a = a \<Longrightarrow> a \<le> foldl fadd a xs"
proof (induction xs arbitrary: a)
  case (Cons x xs)
  have "a \<le> fadd a x" using fl_mono[of a "a + x"] Cons.prems by (simp add: fadd_def)
  also have "fadd a x \<le> foldl fadd (fadd a x) xs" using Cons.prems by (intro Cons.IH) (simp_all add: fadd_def)
  finally show ?case by simp
qed simp

lemma foldl_fadd_ge_elem:
  "\<forall>x \<in> set xs. 0 \<le> x \<and> fl x = x \<Longrightarrow> 0 \<le> a \<Longrightarrow> x \<in> set xs \<Longrightarrow> x \<le> foldl fadd a xs"
proof (induction xs arbitrary: a)
  case (Cons y ys)
  have nn: "0 \<le> fadd a y" using Cons.prems by (simp add: fadd_def fl_nonneg)
  show ?case
  proof (cases "x = y")
    case True
    have "x \<le> fadd a y" using fl_mono[of y "a + y"] Cons.prems True by (simp add: fadd_def)
    also have "\<dots> \<le> foldl fadd (fadd a y) ys" using Cons.prems by (intro foldl_fadd_ge) (simp_all add: fadd_def)
    finally show ?thesis by simp
  next
    case False
    then show ?thesis using Cons.IH[OF _ nn] Cons.prems by simp
  qed
qed simp

text \<open>The share of one recipient is between nothing and the pool.\<close>

lemma share_bounds:
  assumes "0 \<le> p" "p \<le> 10 ^ 9" "0 < h" "h \<le> t"
  shows "0 \<le> units 100 (fdiv (fmul (cents p) h) t)" "units 100 (fdiv (fmul (cents p) h) t) \<le> p"
proof -
  let ?P = "cents p" and ?v = "fdiv (fmul (cents p) h) t"
  have P: "0 \<le> ?P" "100 * ?P \<le> of_int p + 2 / 10 ^ 4"
  proof -
    have "close 100 (cents p) p 2" using assms(1,2) by (intro close_dec) (simp_all add: in_range_def)
    then have "\<bar>100 * cents p - of_int p\<bar> \<le> 2 / 10 ^ 4" unfolding close_def by simp
    then show "100 * ?P \<le> of_int p + 2 / 10 ^ 4" by linarith
  qed (simp add: assms(1))
  have v0: "0 \<le> ?v" using P(1) assms(3,4) by (simp add: fdiv_def fmul_def fl_nonneg)
  let ?e = "1 + 1 / 2 ^ 53 :: rat"
  have up: "fl x \<le> x * ?e" if "0 \<le> x" for x
  proof -
    have "fl x \<le> x + x / 2 ^ 53" using fl_err[of x] abs_of_nonneg[OF that] by linarith
    then show ?thesis by (simp add: distrib_left)
  qed
  have "fmul ?P h \<le> ?P * h * ?e" unfolding fmul_def using P(1) assms(3) by (intro up) simp
  then have "fmul ?P h / t \<le> ?P * h * ?e / t" using assms(3,4) by (intro divide_right_mono) simp_all
  also have "\<dots> = ?P * ?e * (h / t)" by simp
  also have "\<dots> \<le> ?P * ?e * 1" using P(1) assms(3,4) by (intro mult_left_mono) simp_all
  finally have a: "fmul ?P h / t \<le> ?P * ?e" by simp
  have "?v \<le> fmul ?P h / t * ?e" unfolding fdiv_def using P(1) assms(3,4)
    by (intro up) (simp add: fmul_def fl_nonneg)
  also have "\<dots> \<le> ?P * ?e * ?e" using a by (intro mult_right_mono) simp_all
  finally have "100 * ?v \<le> 100 * ?P * (?e * ?e)" by simp
  also have "\<dots> \<le> (of_int p + 2 / 10 ^ 4) * (?e * ?e)" using P(2) by (intro mult_right_mono) simp_all
  also have "\<dots> \<le> of_int p + 1 / 10"
  proof -
    have "of_int p * (?e * ?e - 1) \<le> 10 ^ 9 * (?e * ?e - 1)" using assms(2) by (intro mult_right_mono) simp_all
    also have "\<dots> + 2 / 10 ^ 4 * (?e * ?e) \<le> 1 / 10" by simp
    finally show ?thesis by (simp add: algebra_simps)
  qed
  finally have v: "100 * ?v \<le> of_int p + 1 / 10" .
  have "\<bar>of_nat 100 * ?v\<bar> \<le> 10 ^ 12" using v v0 assms(2) by simp
  from units_bounds[OF this] have u: "\<bar>of_int (units 100 ?v) - 100 * ?v\<bar> \<le> 501 / 1000" by simp
  have "of_int (units 100 ?v) < (of_int p + 1 :: rat)" using u v by linarith
  then show "units 100 ?v \<le> p" by linarith
  have "(- 1 :: rat) < of_int (units 100 ?v)" using u v0 by linarith
  then show "0 \<le> units 100 ?v" by linarith
qed

text \<open>The shares are whole cents that add up to what was left of the pool.\<close>

lemma tipShares_sum:
  assumes "0 \<le> p" "p \<le> 10 ^ 9" "0 \<le> a" "a + int (length ps) * p \<le> 10 ^ 11" "ps \<noteq> []"
    "\<forall>q \<in> set ps. 0 < pi_hoursWorked q \<and> pi_hoursWorked q \<le> t"
  shows "\<exists>ss. map snd (tipShares (cents p) t ps (cents a)) = map cents ss \<and> sum_list ss = p - a \<and>
     (\<forall>x \<in> set ss. \<bar>x\<bar> \<le> 2 * 10 ^ 11)"
  using assms(3-6)
proof (induction ps arbitrary: a rule: induct_list012)
  case (2 q)
  have "in_range p" "in_range a" "in_range (p - a)" using 2 assms(1,2) by (auto simp: in_range_def)
  then have "round2 (fsub (cents p) (cents a)) = cents (p - a)"
    using round_fsub[of p a 100] round_dp_dec[of 100] round2_cents by simp
  then show ?case using 2 assms(1,2) by (intro exI[of _ "[p - a]"]) simp
next
  case (3 q r ps)
  let ?s = "units 100 (fdiv (fmul (cents p) (pi_hoursWorked q)) t)"
  have s: "0 \<le> ?s" "?s \<le> p" using share_bounds[OF assms(1,2), of "pi_hoursWorked q" t] 3(6) by auto
  have small: "a + p + int (length (r # ps)) * p \<le> 10 ^ 11" using 3(4) by (simp add: algebra_simps)
  moreover have "0 \<le> int (length (r # ps)) * p" using assms(1) by simp
  ultimately have "a + p \<le> 10 ^ 11" by linarith
  then have "in_range a" "in_range ?s" "in_range (a + ?s)" using 3(3) s assms(2) by (auto simp: in_range_def)
  then have alloc: "round2 (fadd (cents a) (cents ?s)) = cents (a + ?s)"
    using round_fadd[of a ?s 100] round_dp_dec[of 100] round2_cents by simp
  have "a + ?s + int (length (r # ps)) * p \<le> 10 ^ 11" using small s(2) by linarith
  then obtain ss where ss: "map snd (tipShares (cents p) t (r # ps) (cents (a + ?s))) = map cents ss"
    "sum_list ss = p - (a + ?s)" "\<forall>x \<in> set ss. \<bar>x\<bar> \<le> 2 * 10 ^ 11"
    using 3(2)[of "a + ?s"] 3(3,6) s(1) by auto
  have "map snd (tipShares (cents p) t (q # r # ps) (cents a)) = map cents (?s # ss)"
    using ss(1) by (simp add: Let_def round2_cents[symmetric]) (simp add: round2_cents alloc[unfolded round2_cents])
  then show ?case using ss(2,3) s assms(2) by (intro exI[of _ "?s # ss"]) simp
qed simp


text \<open>Together the tip shares of a run are the pool, or there are none.\<close>

definition machine :: "num \<Rightarrow> bool" where
  "machine x \<longleftrightarrow> 0 \<le> x \<and> fl x = x"

lemma map_of_rev_distinct: "distinct (map fst xs) \<Longrightarrow> map_of (rev xs) = map_of xs"
  by (rule map_of_eqI) (auto simp: map_of_eq_Some_iff rev_map[symmetric])

lemma tipShares_users: "map fst (tipShares P t ps a) = map pi_userId ps"
  by (induction P t ps a rule: tipShares.induct) (simp_all add: Let_def)

lemma tipsOf_shares:
  assumes "0 \<le> p" "p \<le> 10 ^ 8" "length staff \<le> 100" "\<forall>q \<in> set staff. machine (pi_hoursWorked q)"
  shows "\<exists>ss. map snd (tipsOf (cents p) staff) = map cents ss \<and> (sum_list ss = p \<or> ss = []) \<and> (\<forall>x \<in> set ss. \<bar>x\<bar> \<le> 2 * 10 ^ 11)"
proof (cases "0 < cents p \<and> 0 < totalHoursOf staff")
  case True
  let ?ps = "filter (\<lambda>q. 0 < pi_hoursWorked q) staff"
  have "pi_hoursWorked q \<le> totalHoursOf staff" if "q \<in> set staff" for q
    unfolding totalHoursOf_def fsum_def
    using foldl_fadd_ge_elem[of "map pi_hoursWorked staff" 0] assms(4) that by (auto simp: machine_def)
  then have h: "\<forall>q \<in> set ?ps. 0 < pi_hoursWorked q \<and> pi_hoursWorked q \<le> totalHoursOf staff" by simp
  have "?ps \<noteq> []"
  proof
    assume e: "?ps = []"
    have z: "pi_hoursWorked q = 0" if "q \<in> set staff" for q
    proof (rule order_antisym)
      show "pi_hoursWorked q \<le> 0" using e that by (simp add: filter_empty_conv not_less)
      show "0 \<le> pi_hoursWorked q" using assms(4) that by (simp add: machine_def)
    qed
    have "foldl fadd 0 (map pi_hoursWorked xs) = 0" if "\<forall>q \<in> set xs. pi_hoursWorked q = 0" for xs
      using that by (induction xs) (simp_all add: fadd_def)
    from this[of staff] have "totalHoursOf staff = 0" using z by (simp add: totalHoursOf_def fsum_def)
    then show False using True by simp
  qed
  moreover have "0 + int (length ?ps) * p \<le> 10 ^ 11"
  proof -
    have "length ?ps \<le> 100" using assms(3) length_filter_le order_trans by blast
    then have "int (length ?ps) * p \<le> 100 * 10 ^ 8" using assms(1,2) by (intro mult_mono) simp_all
    then show ?thesis by simp
  qed
  moreover have "p \<le> 10 ^ 9" using assms(2) by simp
  ultimately obtain ss where ss: "map snd (tipShares (cents p) (totalHoursOf staff) ?ps (cents 0)) = map cents ss"
    "sum_list ss = p - 0" "\<forall>x \<in> set ss. \<bar>x\<bar> \<le> 2 * 10 ^ 11"
    using tipShares_sum[OF assms(1) _ order_refl _ _ h] by blast
  have "tipsOf (cents p) staff = tipShares (cents p) (totalHoursOf staff) ?ps 0" using True by (simp add: tipsOf_def)
  then show ?thesis using ss unfolding dec_0 by (intro exI[of _ ss]) (simp del: power_numeral)
next
  case False
  then show ?thesis by (auto simp: tipsOf_def)
qed

text \<open>
  A pool of three cents among five people with equal hours: four get a cent each and the last one, who
  absorbs the rounding, gets minus one.
\<close>

definition oneHour :: "string \<Rightarrow> pay_input" where
  "oneHour u = \<lparr>pi_userId = u, pi_payType = HOURLY, pi_rate = 0, pi_hoursWorked = 1, pi_unpaidLeaveDays = 0\<rparr>"

lemma tip_share_negative:
  "map snd (tipShares (cents 3) 5 (map oneHour [''a'', ''b'', ''c'', ''d'', ''e'']) 0) =
     [cents 1, cents 1, cents 1, cents 1, cents (- 1)]"
proof -
  let ?v = "fdiv (fmul (cents 3) 1) 5"
  have c3: "\<bar>100 * cents 3 - 3\<bar> \<le> 1 / 5000" using close_dec[of 3 100] by (simp add: close_def in_range_def)
  have "?v = fl (cents 3 / 5)" by (simp add: fdiv_def fmul_def)
  moreover have "\<bar>fl (cents 3 / 5) - cents 3 / 5\<bar> \<le> 1 / 10000"
  proof -
    have "\<bar>cents 3 / 5\<bar> \<le> 1" using c3 by linarith
    then have "\<bar>cents 3 / 5\<bar> / 2 ^ 53 \<le> 1 / 2 ^ 53" by (rule divide_right_mono) simp
    then show ?thesis using fl_err[of "cents 3 / 5"] by simp
  qed
  ultimately have v: "\<bar>100 * ?v - 6 / 10\<bar> \<le> 1 / 50" using c3 by linarith
  then have "\<bar>100 * ?v\<bar> \<le> 1000" by linarith
  then have "\<bar>of_nat 100 * ?v\<bar> \<le> 10 ^ 12" by simp
  from units_bounds[OF this] have "\<bar>of_int (units 100 ?v) - 100 * ?v\<bar> \<le> 501 / 1000" by simp
  then have "(0 :: rat) < of_int (units 100 ?v)" "of_int (units 100 ?v) < (2 :: rat)" using v by linarith+
  then have "units 100 ?v = 1" by simp
  then have u: "round2 ?v = cents 1" unfolding round2_cents by simp
  have add: "round2 (fadd (cents n) (cents 1)) = cents (n + 1)" if "0 \<le> n" "n \<le> 9" for n
    using round_fadd[of n 1 100] that by (simp add: round2_cents round_dp_dec in_range_def)
  have "round2 (fsub (cents 3) (cents 4)) = cents (- 1)"
    using round_fsub[of 3 4 100] by (simp add: round2_cents round_dp_dec in_range_def)
  then show ?thesis using u add[of 0] add[of 1] add[of 2] add[of 3] by (simp add: oneHour_def Let_def)
qed

end
