(* ===== verification/Payroll_Books.thy ===== *)
theory Payroll_Books
  imports Payroll
begin

text \<open>
  The payroll runs of a branch over any use of the service: periods never overlap, totals and net figures
  add up to the cent, tips add up to the pool, and approved runs stay as approved.
\<close>

section \<open>Hours and figures\<close>

lemma foldl_machine:
  "(\<And>h a. machine h \<Longrightarrow> machine (f h a)) \<Longrightarrow> machine h \<Longrightarrow> machine (foldl f h xs)"
  by (induction xs arbitrary: h) simp_all

lemma hoursIn_machine: "machine (hoursIn z recs u)"
proof -
  have f: "machine (fadd h (fdiv (of_int n) 3600000))" if "machine h" "0 < n" for h n
  proof -
    have "0 \<le> fdiv (of_int n) 3600000" unfolding fdiv_def using that(2) by (intro fl_nonneg) simp
    then show ?thesis using that(1) by (auto simp: machine_def fadd_def intro!: fl_nonneg)
  qed
  show ?thesis unfolding hoursIn_def
  proof (intro foldl_machine, goal_cases)
    case (1 h a)
    then show ?case using f[OF 1] by (simp add: Let_def del: of_int_diff)
  qed (simp add: machine_def)
qed

text \<open>The figures of a computed line are whole cents; these are the cents.\<close>

definition moderate :: "pay_line_result list \<Rightarrow> bool" where
  "moderate ls \<longleftrightarrow> length ls \<le> 100 \<and> (\<forall>l \<in> set ls. \<bar>units 100 (pl_basePay l)\<bar> \<le> 10 ^ 8 \<and>
     \<bar>units 100 (pl_unpaidLeaveDeduction l)\<bar> \<le> 10 ^ 8 \<and> \<bar>units 100 (pl_tipShare l)\<bar> \<le> 10 ^ 8)"

definition whole :: "pay_line_result \<Rightarrow> bool" where
  "whole l \<longleftrightarrow> pl_basePay l = cents (units 100 (pl_basePay l)) \<and>
     pl_unpaidLeaveDeduction l = cents (units 100 (pl_unpaidLeaveDeduction l)) \<and>
     pl_tipShare l = cents (units 100 (pl_tipShare l)) \<and>
     pl_netPay l = round2 (fadd (fsub (pl_basePay l) (pl_unpaidLeaveDeduction l)) (pl_tipShare l))"

lemma units_cents: "in_range n \<Longrightarrow> units 100 (cents n) = n"
  by simp

lemma sums_exact:
  assumes "\<bar>b\<bar> + sum_list (map abs ns) \<le> 10 ^ 12" "length ns \<le> 100"
  shows "round2 (foldl fadd (cents b) (map cents ns)) = cents (b + sum_list ns)"
proof -
  have nn: "0 \<le> sum_list (map abs ns)" by (rule sum_list_nonneg) auto
  have r: "in_range b" "in_range (b + sum_list ns)"
    using assms(1) nn sum_list_abs[of ns] by (auto simp: in_range_def)
  have "close 100 (foldl fadd (cents b) (map cents ns)) (b + sum_list ns) (2 + 4 * of_nat (length ns))"
    using assms by (intro foldl_fadd_close close_dec r(1)) simp_all
  then have "close 100 (foldl fadd (cents b) (map cents ns)) (b + sum_list ns) 4000"
    by (rule close_mono) (use assms(2) in simp)
  from round_dp_close[OF this r(2)] show ?thesis by (simp add: round2_cents round_dp_dec)
qed

lemma net_exact:
  assumes "\<bar>b\<bar> \<le> 10 ^ 9" "\<bar>d\<bar> \<le> 10 ^ 9" "\<bar>t\<bar> \<le> 10 ^ 9"
  shows "round2 (fadd (fsub (cents b) (cents d)) (cents t)) = cents (b - d + t)"
proof -
  have "fsub (cents b) (cents d) = fadd (cents b) (cents (- d))" by (simp add: fsub_def fadd_def dec_minus)
  moreover have "b - d + t = b + sum_list [- d, t]" by simp
  ultimately show ?thesis using sums_exact[of b "[- d, t]"] assms by (simp only: foldl.simps list.map) simp
qed

lemma tipShares_round: "x \<in> set (tipShares P t ps a) \<Longrightarrow> \<exists>n. snd x = cents n"
  by (induction P t ps a rule: tipShares.induct) (auto simp: Let_def round2_cents)

lemma payLine_cents:
  "\<exists>b d t. pl_basePay (payLine n m (tipsOf P staff) p) = cents b \<and> pl_unpaidLeaveDeduction (payLine n m (tipsOf P staff) p) = cents d \<and>
     pl_tipShare (payLine n m (tipsOf P staff) p) = cents t"
proof -
  have "\<exists>t. (case map_of (rev (tipsOf P staff)) (pi_userId p) of None \<Rightarrow> 0 | Some t \<Rightarrow> t) = cents t"
  proof (cases "map_of (rev (tipsOf P staff)) (pi_userId p)")
    case None
    then show ?thesis by (intro exI[of _ 0]) simp
  next
    case (Some t)
    then have "(pi_userId p, t) \<in> set (tipsOf P staff)" by (auto dest: map_of_SomeD)
    then show ?thesis using Some tipShares_round by (fastforce simp: tipsOf_def split: if_splits)
  qed
  moreover have "\<exists>d. (0 :: num) = cents d" using dec_0[of 100] by metis
  ultimately show ?thesis by (auto simp: payLine_def Let_def round2_cents)
qed

definition lineFigures :: "payroll_line \<Rightarrow> bool" where
  "lineFigures l \<longleftrightarrow> \<bar>pn_basePay l\<bar> \<le> 10 ^ 8 \<and> \<bar>pn_tipShare l\<bar> \<le> 10 ^ 8 \<and> \<bar>pn_unpaidLeaveDeduction l\<bar> \<le> 10 ^ 8 \<and>
     0 \<le> pn_allowances l \<and> pn_allowances l \<le> 10 ^ 9 \<and> 0 \<le> pn_bonus l \<and> pn_bonus l \<le> 10 ^ 9 \<and>
     0 \<le> pn_advanceRecovery l \<and> pn_advanceRecovery l \<le> 10 ^ 9 \<and> 0 \<le> pn_otherDeductions l \<and> pn_otherDeductions l \<le> 10 ^ 9 \<and>
     pn_netPay l = pn_basePay l + pn_tipShare l + pn_allowances l + pn_bonus l -
       (pn_unpaidLeaveDeduction l + pn_advanceRecovery l + pn_otherDeductions l)"

lemma lineOf_figures:
  assumes "l \<in> set (computePayroll a b P staff)" "moderate (computePayroll a b P staff)"
  shows "lineFigures (lineOf i l)" "pl_netPay l = cents (pn_netPay (lineOf i l))"
    "pl_tipShare l = cents (pn_tipShare (lineOf i l))"
proof -
  from assms(1) obtain p where p: "l = payLine (daysInclusive a b) (daysInMonthOf a) (tipsOf P staff) p"
    by (auto simp: computePayroll_def)
  from payLine_cents[of "daysInclusive a b" "daysInMonthOf a" P staff p] obtain x d t where
    f: "pl_basePay l = cents x" "pl_unpaidLeaveDeduction l = cents d" "pl_tipShare l = cents t" unfolding p by blast
  have u: "\<bar>units 100 (cents x)\<bar> \<le> 10 ^ 8" "\<bar>units 100 (cents d)\<bar> \<le> 10 ^ 8" "\<bar>units 100 (cents t)\<bar> \<le> 10 ^ 8"
    using assms f by (auto simp: moderate_def)
  have r: "in_range x" "in_range d" "in_range t" using u by (auto intro!: in_range_of_units)
  have v: "\<bar>x\<bar> \<le> 10 ^ 8" "\<bar>d\<bar> \<le> 10 ^ 8" "\<bar>t\<bar> \<le> 10 ^ 8" using u r by (simp_all add: units_cents)
  have "pl_netPay l = round2 (fadd (fsub (cents x) (cents d)) (cents t))"
    using f unfolding p by (simp add: payLine_def Let_def)
  also have "\<dots> = cents (x - d + t)" using v by (intro net_exact) simp_all
  finally have n: "pl_netPay l = cents (x - d + t)" .
  have "in_range (x - d + t)" using v by (simp add: in_range_def abs_le_iff)
  then show "lineFigures (lineOf i l)" "pl_netPay l = cents (pn_netPay (lineOf i l))"
    "pl_tipShare l = cents (pn_tipShare (lineOf i l))"
    using r v by (simp_all add: lineFigures_def lineOf_def f n)
qed


section \<open>Steps\<close>

text \<open>An adjustment in whole cents, within the limits of its schema.\<close>

definition wholeCents :: "num option \<Rightarrow> bool" where
  "wholeCents v \<longleftrightarrow> (\<forall>x. v = Some x \<longrightarrow> (\<exists>n. x = cents n \<and> 0 \<le> n \<and> n \<le> 10 ^ 9))"

definition adjustSchema :: "line_adjust \<Rightarrow> bool" where
  "adjustSchema d \<longleftrightarrow> wholeCents (la_allowances d) \<and> wholeCents (la_bonus d) \<and>
     wholeCents (la_advanceRecovery d) \<and> wholeCents (la_otherDeductions d)"

text \<open>
  The operations on payroll runs, and everything else the service does. What \<open>createRun\<close> computed may come
  from an older state than the one it is written to; new rows have new identifiers.
\<close>

inductive hr_step :: "hr_db \<Rightarrow> hr_db \<Rightarrow> bool" where
  create: "createRunRead z br ps pe orders s0 = Inr (tipPool, ls) \<Longrightarrow> keyed sp_userId (hr_pay s0) \<Longrightarrow> moderate ls \<Longrightarrow>
    0 \<le> tipsPaid br (zonedRange z (dayNumber ps) (dayNumber pe)) orders \<Longrightarrow>
    tipsPaid br (zonedRange z (dayNumber ps) (dayNumber pe)) orders \<le> 10 ^ 8 \<Longrightarrow>
    dayNumber ps \<le> dayNumber pe \<Longrightarrow> newId \<notin> pr_id ` set (hr_runs s) \<Longrightarrow>
    createRunWrite newId br (dayNumber ps) (dayNumber pe) tipPool ls s = Inr t \<Longrightarrow> hr_step s t"
| adjust: "adjustLine br i u d s = Inr t \<Longrightarrow> adjustSchema d \<Longrightarrow> hr_step s t"
| finalize: "finalizeRun now br i s = Inr t \<Longrightarrow> hr_step s t"
| pay: "payRun now br i u meth ref s = Inr t \<Longrightarrow> hr_step s t"
| delete: "deleteRun br i s = Inr t \<Longrightarrow> hr_step s t"
| other: "hr_runs t = hr_runs s \<Longrightarrow> hr_lines t = hr_lines s \<Longrightarrow> hr_step s t"

text \<open>Everything that is not about runs is an \<open>other\<close> step.\<close>

lemma other_steps:
  "clockIn i now u b n s = Inr t \<Longrightarrow> hr_step s t"
  "clockOut now u n s = Inr t \<Longrightarrow> hr_step s t"
  "correct now bs i c s = Inr t \<Longrightarrow> hr_step s t"
  "createShift z i b u x y n s = Inr t \<Longrightarrow> hr_step s t"
  "deleteShift b i s = Inr t \<Longrightarrow> hr_step s t"
  "requestLeave i b u ty x y n s = Inr t \<Longrightarrow> hr_step s t"
  "decideLeave now b i u ap s = Inr t \<Longrightarrow> hr_step s t"
  "setPay b u pt r s = Inr t \<Longrightarrow> hr_step s t"
  by (auto intro!: hr_step.other simp: clockIn_def clockOut_def correct_def createShift_def deleteShift_def requestLeave_def
      decideLeave_def setPay_def ebind_Inr_iff Let_def split: if_splits option.splits list.splits)

section \<open>The books\<close>

definition apart :: "payroll_run \<Rightarrow> payroll_run \<Rightarrow> bool" where
  "apart r q \<longleftrightarrow> pr_branchId r \<noteq> pr_branchId q \<or> pr_periodEnd r < pr_periodStart q \<or> pr_periodEnd q < pr_periodStart r"

definition run_ok :: "payroll_line list \<Rightarrow> payroll_run \<Rightarrow> bool" where
  "run_ok ls r \<longleftrightarrow>
     (let mine = filter (\<lambda>l. pn_runId l = pr_id r) ls in
      length mine \<le> 100 \<and> pr_totalNet r = sum_list (map pn_netPay mine) \<and>
      (sum_list (map pn_tipShare mine) = pr_tipPool r \<or> sum_list (map pn_tipShare mine) = 0))"

definition books_ok :: "payroll_run list \<Rightarrow> payroll_line list \<Rightarrow> bool" where
  "books_ok rs ls \<longleftrightarrow>
     keyed pr_id rs \<and> keyed (\<lambda>l. (pn_runId l, pn_userId l)) ls \<and>
     (\<forall>r \<in> set rs. pr_periodStart r \<le> pr_periodEnd r \<and> run_ok ls r \<and>
        (\<forall>q \<in> set rs. pr_id q \<noteq> pr_id r \<longrightarrow> apart r q)) \<and>
     (\<forall>l \<in> set ls. lineFigures l \<and> pn_runId l \<in> pr_id ` set rs)"

lemma books_okD:
  "books_ok rs ls \<Longrightarrow> keyed pr_id rs"
  "books_ok rs ls \<Longrightarrow> keyed (\<lambda>l. (pn_runId l, pn_userId l)) ls"
  "books_ok rs ls \<Longrightarrow> r \<in> set rs \<Longrightarrow> run_ok ls r"
  "books_ok rs ls \<Longrightarrow> r \<in> set rs \<Longrightarrow> pr_periodStart r \<le> pr_periodEnd r"
  "books_ok rs ls \<Longrightarrow> r \<in> set rs \<Longrightarrow> q \<in> set rs \<Longrightarrow> pr_id q \<noteq> pr_id r \<Longrightarrow> apart r q"
  "books_ok rs ls \<Longrightarrow> l \<in> set ls \<Longrightarrow> lineFigures l"
  "books_ok rs ls \<Longrightarrow> l \<in> set ls \<Longrightarrow> pn_runId l \<in> pr_id ` set rs"
  unfolding books_ok_def by blast+

lemma books_okI:
  assumes "keyed pr_id rs" "keyed (\<lambda>l. (pn_runId l, pn_userId l)) ls"
    "\<And>r. r \<in> set rs \<Longrightarrow> pr_periodStart r \<le> pr_periodEnd r"
    "\<And>r. r \<in> set rs \<Longrightarrow> run_ok ls r"
    "\<And>r q. r \<in> set rs \<Longrightarrow> q \<in> set rs \<Longrightarrow> pr_id q \<noteq> pr_id r \<Longrightarrow> apart r q"
    "\<And>l. l \<in> set ls \<Longrightarrow> lineFigures l"
    "\<And>l. l \<in> set ls \<Longrightarrow> pn_runId l \<in> pr_id ` set rs"
  shows "books_ok rs ls"
  using assms unfolding books_ok_def by blast

text \<open>Changing only the status of runs keeps the books.\<close>

lemma books_ok_status:
  assumes "books_ok rs ls" "\<And>r. pr_id (f r) = pr_id r \<and> pr_branchId (f r) = pr_branchId r \<and> pr_periodStart (f r) = pr_periodStart r \<and>
     pr_periodEnd (f r) = pr_periodEnd r \<and> pr_totalNet (f r) = pr_totalNet r \<and> pr_tipPool (f r) = pr_tipPool r"
  shows "books_ok (upd_where P f rs) ls"
proof -
  have m: "map pr_id (upd_where P f rs) = map pr_id rs" using assms(2) by (intro map_upd_where) simp
  then have ids: "pr_id ` set (upd_where P f rs) = pr_id ` set rs" by (metis set_map)
  have from_old: "\<exists>q \<in> set rs. pr_id r = pr_id q \<and> pr_branchId r = pr_branchId q \<and> pr_periodStart r = pr_periodStart q \<and>
      pr_periodEnd r = pr_periodEnd q \<and> pr_totalNet r = pr_totalNet q \<and> pr_tipPool r = pr_tipPool q"
    if "r \<in> set (upd_where P f rs)" for r using that assms(2) unfolding set_upd_where by fastforce
  show ?thesis
  proof (rule books_okI)
    show "keyed pr_id (upd_where P f rs)" using books_okD(1)[OF assms(1)] by (simp add: keyed_def m)
  next
    fix r q assume r: "r \<in> set (upd_where P f rs)" and q: "q \<in> set (upd_where P f rs)" "pr_id q \<noteq> pr_id r"
    from from_old[OF r] from_old[OF q(1)] q(2) books_okD(5)[OF assms(1)] show "apart r q"
      unfolding apart_def by metis
  next
    fix r assume r: "r \<in> set (upd_where P f rs)"
    from from_old[OF this] obtain q where q: "q \<in> set rs" "pr_id r = pr_id q" "pr_periodStart r = pr_periodStart q"
      "pr_periodEnd r = pr_periodEnd q" "pr_totalNet r = pr_totalNet q" "pr_tipPool r = pr_tipPool q" by blast
    from books_okD(3,4)[OF assms(1) q(1)] show "pr_periodStart r \<le> pr_periodEnd r" "run_ok ls r"
      unfolding run_ok_def q(2-6) by simp_all
  next
    fix l assume "l \<in> set ls"
    then show "lineFigures l" "pn_runId l \<in> pr_id ` set (upd_where P f rs)"
      using books_okD(6,7)[OF assms(1)] unfolding ids by blast+
  qed (fact books_okD(2)[OF assms(1)])
qed

lemma books_ok_delete:
  assumes "books_ok rs ls"
  shows "books_ok (del_where (\<lambda>r. pr_id r = i) rs) (del_where (\<lambda>l. pn_runId l = i) ls)"
proof (rule books_okI)
  fix r assume "r \<in> set (del_where (\<lambda>r. pr_id r = i) rs)"
  then have r: "r \<in> set rs" "pr_id r \<noteq> i" by (simp_all add: del_where_def)
  have "filter (\<lambda>l. pn_runId l = pr_id r) (del_where (\<lambda>l. pn_runId l = i) ls) =
      filter (\<lambda>l. pn_runId l = pr_id r) ls"
    using r(2) unfolding del_where_def by (induction ls) auto
  with books_okD(3)[OF assms r(1)] show "run_ok (del_where (\<lambda>l. pn_runId l = i) ls) r"
    by (simp add: run_ok_def)
  show "pr_periodStart r \<le> pr_periodEnd r" using books_okD(4)[OF assms r(1)] .
next
  fix l assume "l \<in> set (del_where (\<lambda>l. pn_runId l = i) ls)"
  then have l: "l \<in> set ls" "pn_runId l \<noteq> i" by (simp_all add: del_where_def)
  show "lineFigures l" using books_okD(6)[OF assms l(1)] .
  show "pn_runId l \<in> pr_id ` set (del_where (\<lambda>r. pr_id r = i) rs)"
    using books_okD(7)[OF assms l(1)] l(2) by (auto simp: del_where_def)
qed (use assms in \<open>auto simp: del_where_def keyed_filter books_okD\<close>)


section \<open>A new run\<close>

lemma createRunRead_Inr:
  assumes "createRunRead z br ps pe orders s = Inr (tipPool, ls)" "keyed sp_userId (hr_pay s)"
  obtains staff where "ls = computePayroll ps pe tipPool staff" "distinct (map pi_userId staff)"
    "\<forall>q \<in> set staff. machine (pi_hoursWorked q)"
    "tipPool = round2 (cents (tipsPaid br (zonedRange z (dayNumber ps) (dayNumber pe)) orders))"
proof -
  let ?pay = "filter (\<lambda>p. (br, sp_userId p) \<in> set (hr_staff s)) (hr_pay s)"
  let ?a = "dayNumber ps" and ?b = "dayNumber pe"
  let ?z = "zonedRange z ?a ?b"
  let ?recs = "filter (\<lambda>x. at_branchId x = br \<and> at_clockInAt x < snd ?z \<and>
    (case at_clockOutAt x of None \<Rightarrow> False | Some e \<Rightarrow> fst ?z < e)) (hr_attendance s)"
  let ?leaves = "filter (\<lambda>l. lv_branchId l = br \<and> lv_status l = LEAVE_APPROVED \<and> lv_type l = UNPAID \<and>
    lv_startDate l \<le> ?b \<and> ?a \<le> lv_endDate l) (hr_leave s)"
  define f where "f = (\<lambda>p :: staff_pay. \<lparr>pi_userId = sp_userId p, pi_payType = sp_payType p, pi_rate = cents (sp_rate p),
    pi_hoursWorked = hoursIn ?z ?recs (sp_userId p), pi_unpaidLeaveDays = unpaidDaysIn ?a ?b ?leaves (sp_userId p)\<rparr>)"
  have t: "tipPool = round2 (cents (tipsPaid br ?z orders))" and ls: "ls = computePayroll ps pe tipPool (map f ?pay)"
    using assms(1) unfolding createRunRead_def Let_def f_def by (auto split: if_splits)
  have f: "pi_userId (f p) = sp_userId p \<and> machine (pi_hoursWorked (f p))" for p by (simp add: f_def hoursIn_machine)
  have "map pi_userId (map f ?pay) = map sp_userId ?pay" using f by simp
  moreover have "distinct (map sp_userId ?pay)" using assms(2) by (simp add: keyed_def distinct_map_filter)
  ultimately have d: "distinct (map pi_userId (map f ?pay))" by (simp only:)
  show thesis by (rule that[OF ls d _ t]) (use f in simp)
qed

lemma lookup_sum:
  fixes g :: "'v \<Rightarrow> int"
  assumes "distinct (map k xs)" "map fst as = map k (filter Q xs)"
  shows "sum_list (map (\<lambda>p. case map_of as (k p) of None \<Rightarrow> 0 | Some v \<Rightarrow> g v) xs) = sum_list (map (g \<circ> snd) as)"
  using assms
proof (induction xs arbitrary: as)
  case (Cons x xs)
  show ?case
  proof (cases "Q x")
    case True
    with Cons.prems(2) obtain v as' where as: "as = (k x, v) # as'" "map fst as' = map k (filter Q xs)" by (cases as) auto
    have ne: "k p \<noteq> k x" if "p \<in> set xs" for p using Cons.prems(1) that by (metis distinct.simps(2) image_eqI list.set_map list.simps(9))
    have e: "map (\<lambda>p. case map_of as (k p) of None \<Rightarrow> 0 | Some v \<Rightarrow> g v) xs =
        map (\<lambda>p. case map_of as' (k p) of None \<Rightarrow> 0 | Some v \<Rightarrow> g v) xs"
      using ne as(1) by (intro map_cong) simp_all
    have "sum_list (map (\<lambda>p. case map_of as (k p) of None \<Rightarrow> 0 | Some v \<Rightarrow> g v) (x # xs)) =
        g v + sum_list (map (\<lambda>p. case map_of as' (k p) of None \<Rightarrow> 0 | Some v \<Rightarrow> g v) xs)"
      unfolding list.map e by (simp add: as(1))
    then show ?thesis using Cons.IH[of as'] Cons.prems(1) as by simp
  next
    case False
    have "map_of as (k x) = None"
    proof -
      have "k x \<notin> fst ` set as" using Cons.prems False by (metis filter.simps(2) distinct.simps(2) filter_is_subset image_mono list.set_map list.simps(9) subsetD)
      then show ?thesis by (simp add: map_of_eq_None_iff)
    qed
    then show ?thesis using Cons.IH[of as] Cons.prems False by simp
  qed
qed simp

text \<open>The tips on the lines of a new run.\<close>

lemma line_tips:
  assumes "distinct (map pi_userId staff)" "\<forall>q \<in> set staff. machine (pi_hoursWorked q)" "length staff \<le> 100"
    "0 \<le> p" "p \<le> 10 ^ 8"
  shows "(let t = sum_list (map (pn_tipShare \<circ> lineOf i) (computePayroll a b (cents p) staff)) in t = p \<or> t = 0)"
proof -
  from tipsOf_shares[OF assms(4,5,3,2)] obtain ss where ss: "map snd (tipsOf (cents p) staff) = map cents ss"
    "sum_list ss = p \<or> ss = []" "\<forall>x \<in> set ss. \<bar>x\<bar> \<le> 2 * 10 ^ 11" by blast
  have users: "map fst (tipsOf (cents p) staff) = map pi_userId
      (filter (\<lambda>q. 0 < pi_hoursWorked q \<and> 0 < cents p \<and> 0 < totalHoursOf staff) staff)"
    by (simp add: tipsOf_def tipShares_users filter_empty_conv)
  then have "distinct (map fst (tipsOf (cents p) staff))" using assms(1) by (simp add: distinct_map_filter)
  then have look: "map_of (rev (tipsOf (cents p) staff)) = map_of (tipsOf (cents p) staff)" by (rule map_of_rev_distinct)
  have "sum_list (map (pn_tipShare \<circ> lineOf i) (computePayroll a b (cents p) staff)) =
      sum_list (map (\<lambda>q. case map_of (tipsOf (cents p) staff) (pi_userId q) of None \<Rightarrow> 0 | Some v \<Rightarrow> to_column 100 v) staff)"
    unfolding computePayroll_def map_map using to_column_dec[of 0 100]
    by (intro arg_cong[where f = sum_list] map_cong refl)
      (simp add: lineOf_def payLine_def Let_def look split: option.split)
  also have "\<dots> = sum_list (map (to_column 100 \<circ> snd) (tipsOf (cents p) staff))"
    by (rule lookup_sum[OF assms(1) users])
  also have "\<dots> = sum_list (map (to_column 100) (map cents ss))" unfolding ss(1)[symmetric] by (simp add: o_def)
  also have "\<dots> = sum_list ss"
  proof -
    have "map (to_column 100 \<circ> cents) ss = map id ss"
    proof (rule map_cong)
      fix x assume "x \<in> set ss"
      then have "in_range x" using ss(3) by (force simp: in_range_def)
      then show "(to_column 100 \<circ> cents) x = id x" by simp
    qed simp
    then show ?thesis by simp
  qed
  finally show ?thesis using ss(2) by (auto simp: Let_def)
qed

lemma books_ok_create:
  assumes "books_ok rs ls" "createRunRead z br ps pe orders s0 = Inr (tipPool, new)" "keyed sp_userId (hr_pay s0)" "moderate new"
    "0 \<le> tipsPaid br (zonedRange z (dayNumber ps) (dayNumber pe)) orders"
    "tipsPaid br (zonedRange z (dayNumber ps) (dayNumber pe)) orders \<le> 10 ^ 8"
    "dayNumber ps \<le> dayNumber pe" "i \<notin> pr_id ` set rs" "\<not> list_ex (covers br (dayNumber ps) (dayNumber pe)) rs"
  shows "books_ok (rs @ [\<lparr>pr_id = i, pr_branchId = br, pr_periodStart = dayNumber ps, pr_periodEnd = dayNumber pe,
      pr_status = DRAFT, pr_tipPool = to_column 100 tipPool, pr_totalNet = to_column 100 (round2 (fsum (map pl_netPay new))),
      pr_finalizedAt = None, pr_paid = None\<rparr>]) (ls @ map (lineOf i) new)" (is "books_ok (rs @ [?r]) (ls @ ?new)")
proof -
  let ?p = "tipsPaid br (zonedRange z (dayNumber ps) (dayNumber pe)) orders"
  from createRunRead_Inr[OF assms(2,3)] obtain staff where new: "new = computePayroll ps pe tipPool staff"
    and staff: "distinct (map pi_userId staff)" "\<forall>q \<in> set staff. machine (pi_hoursWorked q)"
    and pool: "tipPool = round2 (cents ?p)" by metis
  have p: "in_range ?p" using assms(5,6) by (simp add: in_range_def)
  then have tip: "tipPool = cents ?p" unfolding pool by (rule round2_of_cents)
  have len: "length staff \<le> 100" using assms(4) unfolding new by (simp add: moderate_def computePayroll_def)
  have figs: "lineFigures (lineOf i l)" "pl_netPay l = cents (pn_netPay (lineOf i l))" if "l \<in> set new" for l
    using lineOf_figures[of l ps pe tipPool staff i] that assms(4) unfolding new by auto
  have run: "pn_runId x = i" if "x \<in> set ?new" for x using that by (auto simp: lineOf_def)
  have old: "pn_runId l \<noteq> i" if "l \<in> set ls" for l using books_okD(7)[OF assms(1) that] assms(8) by auto
  have "filter (\<lambda>l. pn_runId l = i) ls = []" using old by (auto simp: filter_empty_conv)
  moreover have "filter (\<lambda>l. pn_runId l = i) ?new = ?new" by (rule filter_True) (use run in blast)
  ultimately have mine: "filter (\<lambda>l. pn_runId l = i) (ls @ ?new) = ?new" by simp
  have others: "filter (\<lambda>l. pn_runId l = pr_id r) (ls @ ?new) = filter (\<lambda>l. pn_runId l = pr_id r) ls" if "r \<in> set rs" for r
  proof -
    have "pr_id r \<noteq> i" using assms(8) that by auto
    then have "filter (\<lambda>l. pn_runId l = pr_id r) ?new = []" unfolding filter_empty_conv using run by metis
    then show ?thesis by simp
  qed
  have nets: "map pl_netPay new = map cents (map (pn_netPay \<circ> lineOf i) new)" using figs(2) by simp
  have small: "\<bar>pn_netPay (lineOf i l)\<bar> \<le> 10 ^ 10" if "l \<in> set new" for l
    using figs(1)[OF that] by (auto simp: lineFigures_def abs_le_iff)
  have "sum_list (map abs (map (pn_netPay \<circ> lineOf i) new)) \<le> int (length new) * 10 ^ 10"
    using small by (induction new) fastforce+
  also have "\<dots> \<le> 100 * 10 ^ 10" using len unfolding new by (simp add: computePayroll_def)
  finally have so: "sum_ok (map (pn_netPay \<circ> lineOf i) new)" using len unfolding new by (simp add: sum_ok_def computePayroll_def)
  have "round2 (fsum (map pl_netPay new)) = cents (sum_list (map (pn_netPay \<circ> lineOf i) new))"
    unfolding nets using round_fsum[OF so, of 100] by (simp add: round2_cents round_dp_dec)
  then have total: "to_column 100 (round2 (fsum (map pl_netPay new))) = sum_list (map pn_netPay ?new)"
    using sum_ok_range[OF so] by simp
  have tips: "sum_list (map pn_tipShare ?new) = ?p \<or> sum_list (map pn_tipShare ?new) = 0"
    using line_tips[OF staff len assms(5,6), of i ps pe] unfolding new tip by (simp add: Let_def)
  have users: "map pl_userId new = map pi_userId staff"
    unfolding new by (simp add: computePayroll_def payLine_def Let_def)
  show ?thesis
  proof (rule books_okI)
    show "keyed pr_id (rs @ [?r])" using books_okD(1)[OF assms(1)] assms(8) by (simp add: keyed_snoc)
  next
    have "map (\<lambda>l. (pn_runId l, pn_userId l)) ?new = map (Pair i) (map pl_userId new)" by (simp add: lineOf_def)
    moreover have "distinct (map (Pair i) (map pl_userId new))" unfolding users using staff(1)
      by (subst distinct_map) (simp add: inj_on_def)
    ultimately have "distinct (map (\<lambda>l. (pn_runId l, pn_userId l)) ?new)" by (simp only:)
    moreover have "(pn_runId l, pn_userId l) \<noteq> (pn_runId x, pn_userId x)" if "l \<in> set ls" "x \<in> set ?new" for l x
      using old[OF that(1)] run[OF that(2)] by simp
    ultimately show "keyed (\<lambda>l. (pn_runId l, pn_userId l)) (ls @ ?new)"
      using books_okD(2)[OF assms(1)] unfolding keyed_def map_append distinct_append set_map by blast
  next
    fix r assume "r \<in> set (rs @ [?r])"
    then consider "r \<in> set rs" | "r = ?r" by auto
    then show "run_ok (ls @ ?new) r"
    proof cases
      case 1
      then show ?thesis using books_okD(3)[OF assms(1) 1] by (simp only: run_ok_def others)
    next
      case 2
      have "length new \<le> 100" using len unfolding new by (simp add: computePayroll_def)
      moreover have "pr_tipPool ?r = ?p" using tip p by simp
      ultimately show ?thesis unfolding 2 run_ok_def Let_def using mine total tips by simp
    qed
    then show "pr_periodStart r \<le> pr_periodEnd r" using \<open>r \<in> set (rs @ [?r])\<close> books_okD(4)[OF assms(1)] assms(7) by auto
  next
    fix r q assume r: "r \<in> set (rs @ [?r])" and q: "q \<in> set (rs @ [?r])" "pr_id q \<noteq> pr_id r"
    have "apart x ?r \<and> apart ?r x" if "x \<in> set rs" for x
      using assms(9) that by (auto simp: apart_def covers_def list_ex_iff not_le)
    then show "apart r q" using r q books_okD(5)[OF assms(1)] by auto
  next
    fix l assume "l \<in> set (ls @ ?new)"
    then consider "l \<in> set ls" | x where "x \<in> set new" "l = lineOf i x" by auto
    then show "lineFigures l" by cases (simp_all add: books_okD(6)[OF assms(1)] figs(1))
    from \<open>l \<in> set (ls @ ?new)\<close> consider "l \<in> set ls" | "pn_runId l = i" unfolding set_append using run by blast
    then show "pn_runId l \<in> pr_id ` set (rs @ [?r])" by cases (use books_okD(7)[OF assms(1)] in auto)
  qed
qed


section \<open>An adjusted line\<close>

lemma orStored_cents:
  assumes "wholeCents v" "0 \<le> c" "c \<le> 10 ^ 9"
  obtains n where "orStored v c = cents n" "0 \<le> n" "n \<le> 10 ^ 9"
  using assms by (cases v) (auto simp: orStored_def wholeCents_def)

lemma netWithAdjustments_exact:
  assumes "\<bar>b\<bar> \<le> 10 ^ 8" "\<bar>t\<bar> \<le> 10 ^ 8" "\<bar>u\<bar> \<le> 10 ^ 8" "0 \<le> w" "w \<le> 10 ^ 9" "0 \<le> x" "x \<le> 10 ^ 9"
    "0 \<le> y" "y \<le> 10 ^ 9" "0 \<le> v" "v \<le> 10 ^ 9"
    "netWithAdjustments (cents b) (cents t) (cents u)
       \<lparr>aj_allowances = cents w, aj_bonus = cents x, aj_advanceRecovery = cents y, aj_otherDeductions = cents v\<rparr> = Inr net"
  shows "net = cents (b + t + w + x - (u + y + v))"
proof -
  have e: "round2 (fadd (fadd (fadd (cents b) (cents t)) (cents w)) (cents x)) = cents (b + t + w + x)"
    using sums_exact[of b "[t, w, x]"] assms(1-7) by (simp add: add.assoc)
  have d: "round2 (fadd (fadd (cents u) (cents y)) (cents v)) = cents (u + y + v)"
    using sums_exact[of u "[y, v]"] assms(3,8-11) by (simp add: add.assoc)
  have r: "in_range (b + t + w + x)" "in_range (u + y + v)" "in_range (b + t + w + x - (u + y + v))"
    using assms(1-11) by (simp_all add: in_range_def abs_le_iff)
  have "round2 (fsub (cents (b + t + w + x)) (cents (u + y + v))) = cents (b + t + w + x - (u + y + v))"
    using round_fsum round_fsub[OF r, of 100] by (simp add: round2_cents round_dp_dec)
  then show ?thesis using assms(12) by (simp add: netWithAdjustments_def Let_def e d split: if_splits)
qed

lemma sum_upd_one:
  fixes f :: "'a \<Rightarrow> int"
  shows "(\<And>x. P x \<Longrightarrow> f (g x) = f x) \<Longrightarrow> sum_list (map f (upd_where P g xs)) = sum_list (map f xs)"
  by (simp add: map_upd_where)

text \<open>Replacing the lines of a run by lines with proper figures, the total following.\<close>

lemma books_ok_relined:
  assumes ok: "books_ok rs ls"
    and g: "\<And>l. l \<in> set ls \<Longrightarrow> P l \<Longrightarrow> lineFigures (g l) \<and> pn_runId (g l) = pn_runId l \<and> pn_userId (g l) = pn_userId l \<and>
      pn_tipShare (g l) = pn_tipShare l"
    and P: "\<And>l. P l \<Longrightarrow> pn_runId l = i"
  defines "ls' \<equiv> upd_where P g ls"
  shows "books_ok (upd_where (\<lambda>r. pr_id r = i)
      (\<lambda>r. r\<lparr>pr_totalNet := sum_list (map pn_netPay (filter (\<lambda>l. pn_runId l = i) ls'))\<rparr>) rs) ls'"
    (is "books_ok ?rs ls'")
proof -
  let ?h = "\<lambda>l. if P l then g l else l"
  have lines: "ls' = map ?h ls" by (simp add: ls'_def upd_where_def)
  have same: "pn_runId (?h l) = pn_runId l \<and> pn_userId (?h l) = pn_userId l \<and> pn_tipShare (?h l) = pn_tipShare l"
    if "l \<in> set ls" for l using g[OF that] by simp
  have mine: "filter (\<lambda>l. pn_runId l = j) ls' = map ?h (filter (\<lambda>l. pn_runId l = j) ls)" for j
    unfolding lines using same by (induction ls) simp_all
  have ids: "map pr_id ?rs = map pr_id rs" by (rule map_upd_where) simp
  then have idset: "pr_id ` set ?rs = pr_id ` set rs" by (metis set_map)
  have prior: "\<exists>q \<in> set rs. pr_id r = pr_id q \<and> pr_branchId r = pr_branchId q \<and> pr_periodStart r = pr_periodStart q \<and>
      pr_periodEnd r = pr_periodEnd q \<and> pr_tipPool r = pr_tipPool q \<and>
      pr_totalNet r = (if pr_id q = i then sum_list (map pn_netPay (filter (\<lambda>l. pn_runId l = i) ls')) else pr_totalNet q)"
    if "r \<in> set ?rs" for r using that unfolding set_upd_where by fastforce
  show ?thesis
  proof (rule books_okI)
    show "keyed pr_id ?rs" using books_okD(1)[OF ok] by (simp add: keyed_def ids)
  next
    have "map (\<lambda>l. (pn_runId l, pn_userId l)) ls' = map (\<lambda>l. (pn_runId l, pn_userId l)) ls"
      unfolding lines map_map by (rule map_cong) (use same in auto)
    then show "keyed (\<lambda>l. (pn_runId l, pn_userId l)) ls'" using books_okD(2)[OF ok] by (simp only: keyed_def)
  next
    fix r assume r: "r \<in> set ?rs"
    from prior[OF r] obtain q where q: "q \<in> set rs" "pr_id r = pr_id q" "pr_periodStart r = pr_periodStart q"
      "pr_periodEnd r = pr_periodEnd q" "pr_tipPool r = pr_tipPool q"
      "pr_totalNet r = (if pr_id q = i then sum_list (map pn_netPay (filter (\<lambda>l. pn_runId l = i) ls')) else pr_totalNet q)" by blast
    from books_okD(4)[OF ok q(1)] show "pr_periodStart r \<le> pr_periodEnd r" unfolding q(3,4) .
    have tip: "map pn_tipShare (filter (\<lambda>l. pn_runId l = pr_id q) ls') = map pn_tipShare (filter (\<lambda>l. pn_runId l = pr_id q) ls)"
      unfolding mine map_map by (rule map_cong) (use same in auto)
    have net: "pr_totalNet r = sum_list (map pn_netPay (filter (\<lambda>l. pn_runId l = pr_id q) ls'))"
    proof (cases "pr_id q = i")
      case False
      have "map ?h (filter (\<lambda>l. pn_runId l = pr_id q) ls) = map id (filter (\<lambda>l. pn_runId l = pr_id q) ls)"
        by (rule map_cong) (use P False in auto)
      then show ?thesis using q(6) False books_okD(3)[OF ok q(1)] unfolding mine by (simp add: run_ok_def Let_def)
    qed (use q(6) in simp)
    have "length (filter (\<lambda>l. pn_runId l = pr_id q) ls') = length (filter (\<lambda>l. pn_runId l = pr_id q) ls)" unfolding mine by simp
    then show "run_ok ls' r" using books_okD(3)[OF ok q(1)] net tip unfolding run_ok_def Let_def q(2,5) by simp
  next
    fix r q assume r: "r \<in> set ?rs" and q: "q \<in> set ?rs" "pr_id q \<noteq> pr_id r"
    from prior[OF r] prior[OF q(1)] q(2) books_okD(5)[OF ok] show "apart r q" unfolding apart_def by metis
  next
    fix l assume "l \<in> set ls'"
    then obtain k where k: "k \<in> set ls" "l = ?h k" unfolding lines by auto
    then show "lineFigures l" using g books_okD(6)[OF ok k(1)] by (cases "P k") auto
    show "pn_runId l \<in> pr_id ` set ?rs" unfolding idset using k same[OF k(1)] books_okD(7)[OF ok k(1)] by simp
  qed
qed


section \<open>Every step keeps the books\<close>

lemma getRun_Inr: "getRun br i s = Inr r \<Longrightarrow> r \<in> set (hr_runs s) \<and> pr_id r = i \<and> pr_branchId r = br"
  by (auto simp: getRun_def split: option.splits dest: find_SomeD)

lemma adjustLine_Inr:
  assumes "adjustLine br i u d s = Inr t" "books_ok (hr_runs s) (hr_lines s)" "adjustSchema d"
  obtains g where "t = s\<lparr>hr_lines := upd_where (\<lambda>x. pn_runId x = i \<and> pn_userId x = u) g (hr_lines s),
      hr_runs := upd_where (\<lambda>r. pr_id r = i) (\<lambda>r. r\<lparr>pr_totalNet := to_column 100 (round2 (cents (sum_list (map pn_netPay
        (filter (\<lambda>l. pn_runId l = i) (upd_where (\<lambda>x. pn_runId x = i \<and> pn_userId x = u) g (hr_lines s)))))))\<rparr>) (hr_runs s)\<rparr>"
    "\<And>l. l \<in> set (hr_lines s) \<Longrightarrow> pn_runId l = i \<and> pn_userId l = u \<Longrightarrow> lineFigures (g l) \<and> pn_runId (g l) = pn_runId l \<and>
       pn_userId (g l) = pn_userId l \<and> pn_tipShare (g l) = pn_tipShare l"
    "\<exists>r \<in> set (hr_runs s). pr_id r = i \<and> pr_status r = DRAFT"
proof -
  from assms(1) obtain run where run: "getRun br i s = Inr run" "pr_status run = DRAFT"
    by (auto simp: adjustLine_def ebind_Inr_iff split: if_splits)
  from assms(1) run obtain l where l: "find (\<lambda>l. pn_runId l = i \<and> pn_userId l = u) (hr_lines s) = Some l"
    by (auto simp: adjustLine_def split: option.splits)
  from find_SomeD[OF l] have lin: "l \<in> set (hr_lines s)" "pn_runId l = i" "pn_userId l = u" by auto
  note fig = books_okD(6)[OF assms(2) lin(1), unfolded lineFigures_def]
  obtain w where w: "orStored (la_allowances d) (pn_allowances l) = cents w" "0 \<le> w" "w \<le> 10 ^ 9"
    using orStored_cents[of "la_allowances d" "pn_allowances l"] assms(3) fig by (metis adjustSchema_def)
  obtain x where x: "orStored (la_bonus d) (pn_bonus l) = cents x" "0 \<le> x" "x \<le> 10 ^ 9"
    using orStored_cents[of "la_bonus d" "pn_bonus l"] assms(3) fig by (metis adjustSchema_def)
  obtain y where y: "orStored (la_advanceRecovery d) (pn_advanceRecovery l) = cents y" "0 \<le> y" "y \<le> 10 ^ 9"
    using orStored_cents[of "la_advanceRecovery d" "pn_advanceRecovery l"] assms(3) fig by (metis adjustSchema_def)
  obtain v where v: "orStored (la_otherDeductions d) (pn_otherDeductions l) = cents v" "0 \<le> v" "v \<le> 10 ^ 9"
    using orStored_cents[of "la_otherDeductions d" "pn_otherDeductions l"] assms(3) fig by (metis adjustSchema_def)
  obtain net where net: "netWithAdjustments (cents (pn_basePay l)) (cents (pn_tipShare l)) (cents (pn_unpaidLeaveDeduction l))
      \<lparr>aj_allowances = cents w, aj_bonus = cents x, aj_advanceRecovery = cents y, aj_otherDeductions = cents v\<rparr> = Inr net"
    using assms(1) run l by (auto simp: adjustLine_def Let_def w(1) x(1) y(1) v(1) split: sum.splits)
  define g where "g = (\<lambda>k :: payroll_line. k\<lparr>pn_allowances := to_column 100 (cents w), pn_bonus := to_column 100 (cents x),
     pn_advanceRecovery := to_column 100 (cents y), pn_otherDeductions := to_column 100 (cents v), pn_netPay := to_column 100 net,
     pn_adjustmentNote := (case la_adjustmentNote d of None \<Rightarrow> pn_adjustmentNote k | Some n \<Rightarrow> if n = '''' then None else Some n)\<rparr>)"
  let ?n = "pn_basePay l + pn_tipShare l + w + x - (pn_unpaidLeaveDeduction l + y + v)"
  have n: "net = cents ?n"
    by (rule netWithAdjustments_exact[OF _ _ _ w(2,3) x(2,3) y(2,3) v(2,3) net]) (use fig in simp_all)
  have rng: "in_range w" "in_range x" "in_range y" "in_range v" "in_range ?n"
    using w(2,3) x(2,3) y(2,3) v(2,3) fig by (simp_all add: in_range_def abs_le_iff)
  have "lineFigures (g l)" using fig w(2,3) x(2,3) y(2,3) v(2,3)
    by (simp add: lineFigures_def g_def n to_column_dec[OF rng(1)] to_column_dec[OF rng(2)] to_column_dec[OF rng(3)]
        to_column_dec[OF rng(4)] to_column_dec[OF rng(5)])
  moreover have "k = l" if "k \<in> set (hr_lines s)" "pn_runId k = i \<and> pn_userId k = u" for k
    using keyed_unique[OF books_okD(2)[OF assms(2)] that(1) lin(1)] that(2) lin by simp
  ultimately have "lineFigures (g k) \<and> pn_runId (g k) = pn_runId k \<and> pn_userId (g k) = pn_userId k \<and> pn_tipShare (g k) = pn_tipShare k"
    if "k \<in> set (hr_lines s)" "pn_runId k = i \<and> pn_userId k = u" for k
    using that by (auto simp: g_def)
  moreover have "t = s\<lparr>hr_lines := upd_where (\<lambda>x. pn_runId x = i \<and> pn_userId x = u) g (hr_lines s),
      hr_runs := upd_where (\<lambda>r. pr_id r = i) (\<lambda>r. r\<lparr>pr_totalNet := to_column 100 (round2 (cents (sum_list (map pn_netPay
        (filter (\<lambda>l. pn_runId l = i) (upd_where (\<lambda>x. pn_runId x = i \<and> pn_userId x = u) g (hr_lines s)))))))\<rparr>) (hr_runs s)\<rparr>"
    using assms(1) run l net by (simp add: adjustLine_def Let_def w(1) x(1) y(1) v(1) g_def[symmetric] linesOfRun_def)
  ultimately show thesis using that getRun_Inr[OF run(1)] run(2) by blast
qed

lemma lines_total_range:
  assumes "\<forall>l \<in> set ls. lineFigures l" "length ls \<le> 100"
  shows "in_range (sum_list (map pn_netPay ls))"
proof -
  have "\<bar>pn_netPay l\<bar> \<le> 10 ^ 10" if "l \<in> set ls" for l
    using assms(1) that by (auto simp: lineFigures_def abs_le_iff)
  then have "sum_list (map abs (map pn_netPay ls)) \<le> int (length ls) * 10 ^ 10"
    by (induction ls) fastforce+
  also have "\<dots> \<le> 10 ^ 12" using assms(2) by simp
  finally show ?thesis using sum_list_abs[of "map pn_netPay ls"] by (simp add: in_range_def)
qed

lemma hr_step_ok:
  assumes "hr_step s t" "books_ok (hr_runs s) (hr_lines s)"
  shows "books_ok (hr_runs t) (hr_lines t)"
  using assms
proof (induction rule: hr_step.induct)
  case (create z br ps pe orders s0 tipPool ls newId s t)
  from create(8) have f: "\<not> list_ex (covers br (dayNumber ps) (dayNumber pe)) (hr_runs s)"
    by (auto simp: createRunWrite_def split: if_splits)
  from books_ok_create[OF create(9,1-7) f] create(8) f show ?case by (auto simp: createRunWrite_def)
next
  case (adjust br i u d s t)
  from adjustLine_Inr[OF adjust(1,3,2)] obtain g where
    t: "t = s\<lparr>hr_lines := upd_where (\<lambda>x. pn_runId x = i \<and> pn_userId x = u) g (hr_lines s),
      hr_runs := upd_where (\<lambda>r. pr_id r = i) (\<lambda>r. r\<lparr>pr_totalNet := to_column 100 (round2 (cents (sum_list (map pn_netPay
        (filter (\<lambda>l. pn_runId l = i) (upd_where (\<lambda>x. pn_runId x = i \<and> pn_userId x = u) g (hr_lines s)))))))\<rparr>) (hr_runs s)\<rparr>"
    and g: "\<And>l. l \<in> set (hr_lines s) \<Longrightarrow> pn_runId l = i \<and> pn_userId l = u \<Longrightarrow> lineFigures (g l) \<and> pn_runId (g l) = pn_runId l \<and>
       pn_userId (g l) = pn_userId l \<and> pn_tipShare (g l) = pn_tipShare l"
    and r: "\<exists>r \<in> set (hr_runs s). pr_id r = i \<and> pr_status r = DRAFT" by blast
  let ?ls = "upd_where (\<lambda>x. pn_runId x = i \<and> pn_userId x = u) g (hr_lines s)"
  let ?mine = "filter (\<lambda>l. pn_runId l = i) ?ls"
  have ok: "books_ok (upd_where (\<lambda>r. pr_id r = i) (\<lambda>r. r\<lparr>pr_totalNet := sum_list (map pn_netPay ?mine)\<rparr>) (hr_runs s)) ?ls"
    by (rule books_ok_relined[OF adjust(3) g]) simp_all
  from r obtain q where "q \<in> set (upd_where (\<lambda>r. pr_id r = i) (\<lambda>r. r\<lparr>pr_totalNet := sum_list (map pn_netPay ?mine)\<rparr>) (hr_runs s))" "pr_id q = i"
    unfolding set_upd_where by force
  from books_okD(3)[OF ok this(1)] this(2) have "length ?mine \<le> 100" by (simp add: run_ok_def Let_def)
  then have "in_range (sum_list (map pn_netPay ?mine))" using books_okD(6)[OF ok] by (intro lines_total_range) auto
  then have "to_column 100 (round2 (cents (sum_list (map pn_netPay ?mine)))) = sum_list (map pn_netPay ?mine)"
    by (simp add: round2_of_cents)
  then show ?case using ok unfolding t by simp
next
  case (finalize now br i s t)
  then have "t = finalizeWrite now i s" by (auto simp: finalizeRun_def ebind_Inr_iff)
  then show ?case using books_ok_status[OF finalize(2)] by (simp add: finalizeWrite_def)
next
  case (pay now br i u meth ref s t)
  have "t = s\<lparr>hr_runs := upd_where (\<lambda>r. pr_id r = i \<and> pr_branchId r = br \<and> pr_status r = FINALIZED)
      (\<lambda>r. r\<lparr>pr_status := RUN_PAID, pr_paid := Some (now, u, meth, if ref = Some '''' then None else ref)\<rparr>) (hr_runs s)\<rparr>"
    using pay(1) by (auto simp: payRun_def Let_def ebind_Inr_iff split: if_splits)
  then show ?case using books_ok_status[OF pay(2)] by simp
next
  case (delete br i s t)
  then have "t = s\<lparr>hr_runs := del_where (\<lambda>r. pr_id r = i) (hr_runs s), hr_lines := del_where (\<lambda>l. pn_runId l = i) (hr_lines s)\<rparr>"
    by (auto simp: deleteRun_def ebind_Inr_iff split: if_splits)
  then show ?case using books_ok_delete[OF delete(2)] by simp
qed simp


section \<open>Approved runs stay as approved\<close>

definition carried :: "payroll_run \<Rightarrow> payroll_run \<Rightarrow> bool" where
  "carried r q \<longleftrightarrow> q = r \<or> pr_status r = FINALIZED \<and> pr_status q = RUN_PAID \<and>
     (\<exists>p. q = r\<lparr>pr_status := RUN_PAID, pr_paid := p\<rparr>)"

lemma carried_trans: "carried r q \<Longrightarrow> carried q u \<Longrightarrow> carried r u"
  by (auto simp: carried_def)

lemma carried_approved: "carried r q \<Longrightarrow> pr_status r \<noteq> DRAFT \<Longrightarrow> pr_status q \<noteq> DRAFT \<and> pr_id q = pr_id r"
  by (auto simp: carried_def)

lemma filter_upd_other:
  "(\<And>l. P l \<Longrightarrow> pn_runId l = i) \<Longrightarrow> (\<And>l. l \<in> set ls \<Longrightarrow> P l \<Longrightarrow> pn_runId (g l) = i) \<Longrightarrow> i \<noteq> j \<Longrightarrow>
   filter (\<lambda>l. pn_runId l = j) (upd_where P g ls) = filter (\<lambda>l. pn_runId l = j) ls"
  by (rule filter_upd_where_other) auto

lemma hr_step_carried:
  assumes "hr_step s t" "books_ok (hr_runs s) (hr_lines s)" "r \<in> set (hr_runs s)" "pr_status r \<noteq> DRAFT"
  shows "(\<exists>q \<in> set (hr_runs t). carried r q) \<and> linesOfRun (pr_id r) t = linesOfRun (pr_id r) s"
  using assms
proof (induction rule: hr_step.induct)
  case (create z br ps pe orders s0 tipPool ls newId s t)
  then have "pr_id r \<noteq> newId" by auto
  then show ?case using create(8,10)
    by (auto simp: createRunWrite_def carried_def linesOfRun_def lineOf_def filter_empty_conv split: if_splits)
next
  case (adjust br i u d s t)
  from adjustLine_Inr[OF adjust(1,3,2)] obtain g where
    t: "t = s\<lparr>hr_lines := upd_where (\<lambda>x. pn_runId x = i \<and> pn_userId x = u) g (hr_lines s),
      hr_runs := upd_where (\<lambda>r. pr_id r = i) (\<lambda>r. r\<lparr>pr_totalNet := to_column 100 (round2 (cents (sum_list (map pn_netPay
        (filter (\<lambda>l. pn_runId l = i) (upd_where (\<lambda>x. pn_runId x = i \<and> pn_userId x = u) g (hr_lines s)))))))\<rparr>) (hr_runs s)\<rparr>"
    and g: "\<And>l. l \<in> set (hr_lines s) \<Longrightarrow> pn_runId l = i \<and> pn_userId l = u \<Longrightarrow> lineFigures (g l) \<and> pn_runId (g l) = pn_runId l \<and>
       pn_userId (g l) = pn_userId l \<and> pn_tipShare (g l) = pn_tipShare l"
    and d: "\<exists>r \<in> set (hr_runs s). pr_id r = i \<and> pr_status r = DRAFT" by blast
  have ne: "pr_id r \<noteq> i" using d adjust(4,5) keyed_unique[OF books_okD(1)[OF adjust(3)]] by metis
  then have "r \<in> set (hr_runs t)" using adjust(4) unfolding t by (simp add: set_upd_where)
  moreover have "linesOfRun (pr_id r) t = linesOfRun (pr_id r) s"
    unfolding t linesOfRun_def using filter_upd_other[of "\<lambda>x. pn_runId x = i \<and> pn_userId x = u" i "hr_lines s" g "pr_id r"] g ne by simp
  ultimately show ?case by (auto simp: carried_def)
next
  case (finalize now br i s t)
  then obtain run where run: "getRun br i s = Inr run" "pr_status run = DRAFT" "t = finalizeWrite now i s"
    by (auto simp: finalizeRun_def finalizeRead_def ebind_Inr_iff split: if_splits)
  have "pr_id r \<noteq> i" using getRun_Inr[OF run(1)] run(2) finalize(3,4) keyed_unique[OF books_okD(1)[OF finalize(2)]] by metis
  then show ?case using finalize(3) unfolding run(3)
    by (intro conjI bexI[of _ r]) (simp_all add: finalizeWrite_def set_upd_where carried_def linesOfRun_def)
next
  case (pay now br i u meth ref s t)
  let ?P = "\<lambda>r. pr_id r = i \<and> pr_branchId r = br \<and> pr_status r = FINALIZED"
  let ?f = "\<lambda>r. r\<lparr>pr_status := RUN_PAID, pr_paid := Some (now, u, meth, if ref = Some '''' then None else ref)\<rparr>"
  have t: "t = s\<lparr>hr_runs := upd_where ?P ?f (hr_runs s)\<rparr>"
    using pay(1) by (auto simp: payRun_def Let_def ebind_Inr_iff split: if_splits)
  have "(if ?P r then ?f r else r) \<in> set (hr_runs t)" using pay(3) unfolding t by (auto simp: set_upd_where)
  moreover have "carried r (if ?P r then ?f r else r)" by (auto simp: carried_def)
  moreover have "linesOfRun (pr_id r) t = linesOfRun (pr_id r) s" unfolding t by (simp add: linesOfRun_def)
  ultimately show ?case by (intro conjI bexI[of _ "if ?P r then ?f r else r"])
next
  case (delete br i s t)
  then obtain run where run: "getRun br i s = Inr run" "pr_status run = DRAFT"
    "t = s\<lparr>hr_runs := del_where (\<lambda>r. pr_id r = i) (hr_runs s), hr_lines := del_where (\<lambda>l. pn_runId l = i) (hr_lines s)\<rparr>"
    by (auto simp: deleteRun_def ebind_Inr_iff split: if_splits)
  have ne: "pr_id r \<noteq> i" using getRun_Inr[OF run(1)] run(2) delete(3,4) keyed_unique[OF books_okD(1)[OF delete(2)]] by metis
  have "filter (\<lambda>l. pn_runId l = pr_id r) (del_where (\<lambda>l. pn_runId l = i) ls) = filter (\<lambda>l. pn_runId l = pr_id r) ls" for ls
    unfolding del_where_def using ne by (induction ls) auto
  then show ?case using delete(3) ne unfolding run(3)
    by (intro conjI bexI[of _ r]) (simp_all add: del_where_def carried_def linesOfRun_def)
qed (auto simp: carried_def linesOfRun_def)

lemma hr_steps_ok: "hr_step\<^sup>*\<^sup>* s t \<Longrightarrow> books_ok (hr_runs s) (hr_lines s) \<Longrightarrow> books_ok (hr_runs t) (hr_lines t)"
  by (induction rule: rtranclp_induct) (use hr_step_ok in blast)+

lemma hr_steps_carried:
  "hr_step\<^sup>*\<^sup>* s t \<Longrightarrow> books_ok (hr_runs s) (hr_lines s) \<Longrightarrow> r \<in> set (hr_runs s) \<Longrightarrow> pr_status r \<noteq> DRAFT \<Longrightarrow>
   (\<exists>q \<in> set (hr_runs t). carried r q) \<and> linesOfRun (pr_id r) t = linesOfRun (pr_id r) s"
proof (induction rule: rtranclp_induct)
  case (step t u)
  then obtain q where q: "q \<in> set (hr_runs t)" "carried r q" by auto
  note a = carried_approved[OF q(2) step.prems(3)]
  from hr_step_carried[OF step.hyps(2) hr_steps_ok[OF step.hyps(1) step.prems(1)] q(1)] a
  obtain x where "x \<in> set (hr_runs u)" "carried q x" "linesOfRun (pr_id r) u = linesOfRun (pr_id r) t" by auto
  then show ?case using carried_trans[OF q(2)] step.IH[OF step.prems] by auto
qed (auto simp: carried_def)



text \<open>One person at 10.00 an hour, two clocked hours, tips of 0.30 on one paid order.\<close>

definition crewZone :: zone where
  "crewZone = \<lparr>zn_dayStart = (\<lambda>d. d * DAY_MS), zn_localDay = (\<lambda>t. t div DAY_MS)\<rparr>"

definition crewStore :: hr_db where
  "crewStore = \<lparr>hr_staff = [(''b'', ''u'')], hr_attendance = [], hr_shifts = [], hr_leave = [],
     hr_pay = [\<lparr>sp_userId = ''u'', sp_payType = HOURLY, sp_rate = 0\<rparr>], hr_runs = [], hr_lines = []\<rparr>"

definition crewDay :: civil where "crewDay = \<lparr>dt_year = 1970, dt_month = 1, dt_day = 2\<rparr>"


text \<open>
  The update of \<open>finalizeRun\<close> does not look at the status again. When an approval read its draft before
  another approval and the payment went through, its late update makes the paid run payable a second time.
\<close>

lemma run_paid_twice:
  fixes r :: payroll_run
  assumes "pr_status r = DRAFT" "hr_runs s = [r]" "i = pr_id r" "br = pr_branchId r"
  shows "\<exists>s1 s2 t. finalizeRead br i s = Inr () \<and> finalizeRun n1 br i s = Inr s1 \<and> payRun n2 br i u m ref s1 = Inr s2 \<and>
     payRun n4 br i u m ref (finalizeWrite n3 i s2) = Inr t"
  using assms by (simp add: finalizeRead_def finalizeRun_def getRun_def finalizeWrite_def payRun_def Let_def upd_where_def count_where_def)

end
