(* ===== verification/Gateways.thy ===== *)
theory Gateways
  imports Order_Intake Net_Guard
begin

text \<open>
  Payment gateways: amounts in minor units (\<open>payment-gateways/money.ts\<close>), what each provider's answer means
  (\<open>payment-gateways/adapters\<close>), whose webhooks are believed, and the connections of a restaurant
  (\<open>payment-gateways.service.ts\<close>). The HTTP calls, the digests, JSON parsing and the sealing of credentials
  are arguments. Display texts, notes and the country list are left out.
\<close>

section \<open>Minor units\<close>

definition ZERO_DECIMAL :: "string list" where
  "ZERO_DECIMAL = [''JPY'', ''KRW'', ''VND'', ''CLP'', ''ISK'', ''UGX'', ''XAF'', ''XOF'']"

definition THREE_DECIMAL :: "string list" where
  "THREE_DECIMAL = [''BHD'', ''JOD'', ''KWD'', ''OMR'', ''TND'']"

definition currencyExponent :: "string \<Rightarrow> nat" where
  "currencyExponent currency =
     (let c = to_upper currency in if c \<in> set ZERO_DECIMAL then 0 else if c \<in> set THREE_DECIMAL then 3 else 2)"

definition toMinor :: "num \<Rightarrow> string \<Rightarrow> int" where
  "toMinor money currency =
     (let hundredths = js_round (fmul money 100); exp = currencyExponent currency in
      if exp = 2 then hundredths
      else if exp = 0 then js_round (fdiv (of_int hundredths) 100)
      else hundredths * 10)"

definition fromMinor :: "int \<Rightarrow> string \<Rightarrow> num" where
  "fromMinor minor currency = fdiv (of_int minor) (10 ^ currencyExponent currency)"

lemma hundredths_of_cents: "in_range n \<Longrightarrow> js_round (fmul (cents n) 100) = n"
proof -
  assume n: "in_range n"
  then have "close 100 (cents n) n 2" by (rule close_dec) simp
  then have "close 1 (cents n * 100) n 2" by (simp add: close_def mult.commute)
  then have "close 1 (fmul (cents n) 100) n (2 + 2)" unfolding fmul_def by (rule close_fl) (use n in simp_all)
  then have "\<bar>fmul (cents n) 100 - of_int n\<bar> \<le> 4 / 10 ^ 4" by (simp only: close_def) simp
  then have "\<bar>fmul (cents n) 100 - of_int n\<bar> < 1 / 2" by (rule le_less_trans) simp
  then show ?thesis unfolding js_round_def by (intro floor_unique) linarith+
qed

lemma toMinor_cents:
  "in_range n \<Longrightarrow> currencyExponent c = 2 \<Longrightarrow> toMinor (cents n) c = n"
  "in_range n \<Longrightarrow> currencyExponent c = 3 \<Longrightarrow> toMinor (cents n) c = 10 * n"
  "in_range n \<Longrightarrow> currencyExponent c = 0 \<Longrightarrow> toMinor (cents n) c = js_round (cents n)"
  by (simp_all add: toMinor_def hundredths_of_cents Let_def) (simp add: dec_def fdiv_def)

text \<open>Where money has hundredths, what is charged and booked back is the amount of the bill.\<close>

lemma fromMinor_toMinor:
  assumes "in_range n" "currencyExponent c \<noteq> 0"
  shows "fromMinor (toMinor (cents n) c) c = cents n"
proof -
  have "currencyExponent c = 2 \<or> currencyExponent c = 3"
    using assms(2) by (auto simp: currencyExponent_def Let_def split: if_splits)
  then show ?thesis
  proof
    assume e: "currencyExponent c = 2"
    show ?thesis unfolding toMinor_cents(1)[OF assms(1) e] fromMinor_def e by (simp add: fdiv_def dec_def)
  next
    assume e: "currencyExponent c = 3"
    show ?thesis unfolding toMinor_cents(2)[OF assms(1) e] fromMinor_def e by (simp add: fdiv_def dec_def)
  qed
qed

text \<open>In a currency without decimals a bill of 100.50 is charged and booked back as 101.\<close>

lemma yen_rounds_up: "toMinor (cents 10050) ''JPY'' = 101" "cents 10050 < fromMinor 101 ''JPY''"
proof -
  have e: "currencyExponent ''JPY'' = 0" by code_simp
  have c: "cents 10050 = 201 / 2" by code_simp
  have "js_round (201 / 2) = 101" by (simp add: js_round_def)
  then have "js_round (cents 10050) = 101" by (simp only: c)
  with c show "toMinor (cents 10050) ''JPY'' = 101" "cents 10050 < fromMinor 101 ''JPY''"
    using toMinor_cents(3)[OF _ e, of 10050] e by (simp_all add: in_range_def fromMinor_def fdiv_def)
qed

section \<open>Adapters\<close>

datatype gw_mode = GW_TEST | GW_LIVE

type_synonym credentials = "(string \<times> string) list"

text \<open>\<open>GatewayError\<close> with its HTTP status, if there was an answer, or any other exception.\<close>

datatype gateway_error = GatewayError string "int option" | OtherError

record gateway_field =
  gf_key :: string
  gf_required :: bool
  gf_validate :: "string \<Rightarrow> gw_mode \<Rightarrow> string option"

record adapter =
  ad_key :: string
  ad_name :: string
  ad_fields :: "gateway_field list"
  ad_requiresCustomerPhone :: bool
  ad_refunds :: bool

datatype remote_state = REMOTE_PAID | REMOTE_PENDING | REMOTE_FAILED | REMOTE_EXPIRED

record remote_status =
  rm_state :: remote_state
  rm_paidMinor :: int
  rm_requestedMinor :: int
  rm_currency :: string
  rm_reference :: "string option"
  rm_providerPaymentId :: "string option"

fun contains :: "string \<Rightarrow> string \<Rightarrow> bool" where
  "contains p [] = (p = [])"
| "contains p (c # s) = (starts_with p (c # s) \<or> contains p s)"

definition plainField :: "string \<Rightarrow> gateway_field" where
  "plainField k = \<lparr>gf_key = k, gf_required = True, gf_validate = (\<lambda>_ _. None)\<rparr>"

definition stripeKey :: "string \<Rightarrow> gw_mode \<Rightarrow> string option" where
  "stripeKey v mode =
     (if \<not> list_ex (\<lambda>p. starts_with p v) [''sk_test_'', ''sk_live_'', ''rk_test_'', ''rk_live_'']
      then Some ''Use a Stripe secret or restricted key (starts with sk_ or rk_)''
      else if \<not> contains (if mode = GW_TEST then ''_test_'' else ''_live_'') v
      then Some (if mode = GW_TEST then ''This is not a test-mode key'' else ''This is not a live-mode key'')
      else None)"

definition stripeAdapter :: adapter where
  "stripeAdapter = \<lparr>ad_key = ''stripe'', ad_name = ''Stripe'',
     ad_fields = [\<lparr>gf_key = ''secretKey'', gf_required = True, gf_validate = stripeKey\<rparr>,
       \<lparr>gf_key = ''webhookSecret'', gf_required = True,
        gf_validate = (\<lambda>v _. if starts_with ''whsec_'' v then None else Some ''A signing secret starts with whsec_'')\<rparr>],
     ad_requiresCustomerPhone = False, ad_refunds = True\<rparr>"

definition razorpayAdapter :: adapter where
  "razorpayAdapter = \<lparr>ad_key = ''razorpay'', ad_name = ''Razorpay'',
     ad_fields = [\<lparr>gf_key = ''keyId'', gf_required = True,
         gf_validate = (\<lambda>v mode. if starts_with (if mode = GW_TEST then ''rzp_test_'' else ''rzp_live_'') v then None
           else Some (if mode = GW_TEST then ''This is not a test-mode key id'' else ''This is not a live-mode key id''))\<rparr>,
       plainField ''keySecret'', plainField ''webhookSecret''],
     ad_requiresCustomerPhone = False, ad_refunds = True\<rparr>"

definition cashfreeAdapter :: adapter where
  "cashfreeAdapter = \<lparr>ad_key = ''cashfree'', ad_name = ''Cashfree Payments'',
     ad_fields = [plainField ''clientId'', plainField ''clientSecret''],
     ad_requiresCustomerPhone = True, ad_refunds = False\<rparr>"

definition ADAPTERS :: "adapter list" where
  "ADAPTERS = [razorpayAdapter, stripeAdapter, cashfreeAdapter]"

definition getAdapter :: "string option \<Rightarrow> adapter option" where
  "getAdapter key = (case key of None \<Rightarrow> None | Some k \<Rightarrow> find (\<lambda>a. ad_key a = k) ADAPTERS)"

section \<open>What a provider's answer means\<close>

record stripe_session =
  ss_status :: string
  ss_payment_status :: string
  ss_amount_total :: "int option"
  ss_currency :: "string option"
  ss_client_reference_id :: "string option"
  ss_payment_intent :: "string option"

definition stripeStatus :: "stripe_session \<Rightarrow> remote_status" where
  "stripeStatus s =
     (let total = (case ss_amount_total s of None \<Rightarrow> 0 | Some t \<Rightarrow> t); paid = (ss_payment_status s = ''paid'') in
      \<lparr>rm_state = (if paid then REMOTE_PAID else if ss_status s = ''expired'' then REMOTE_EXPIRED else REMOTE_PENDING),
       rm_paidMinor = (if paid then total else 0), rm_requestedMinor = total,
       rm_currency = to_upper (case ss_currency s of None \<Rightarrow> '''' | Some c \<Rightarrow> c),
       rm_reference = ss_client_reference_id s, rm_providerPaymentId = ss_payment_intent s\<rparr>)"

record rzp_link =
  rl_status :: string
  rl_amount :: int
  rl_amount_paid :: "int option"
  rl_currency :: "string option"
  rl_reference_id :: "string option"
  rl_payments :: "string option list"

text \<open>The first payment of the link that has an identifier.\<close>

definition razorpayStatus :: "rzp_link \<Rightarrow> remote_status" where
  "razorpayStatus l =
     \<lparr>rm_state = (if rl_status l = ''paid'' then REMOTE_PAID
                  else if rl_status l = ''expired'' \<or> rl_status l = ''cancelled'' then REMOTE_EXPIRED else REMOTE_PENDING),
      rm_paidMinor = (case rl_amount_paid l of None \<Rightarrow> 0 | Some a \<Rightarrow> a), rm_requestedMinor = rl_amount l,
      rm_currency = to_upper (case rl_currency l of None \<Rightarrow> '''' | Some c \<Rightarrow> c), rm_reference = rl_reference_id l,
      rm_providerPaymentId = (case find present (rl_payments l) of None \<Rightarrow> None | Some p \<Rightarrow> p)\<rparr>"

record cf_link =
  cl_link_id :: string
  cl_link_status :: string
  cl_link_amount :: num
  cl_link_amount_paid :: "num option"
  cl_link_currency :: string

definition cashfreeStatus :: "cf_link \<Rightarrow> remote_status" where
  "cashfreeStatus l =
     (let status = to_upper (cl_link_status l) in
      \<lparr>rm_state = (if status = ''PAID'' then REMOTE_PAID
                   else if status = ''EXPIRED'' \<or> status = ''CANCELLED'' then REMOTE_EXPIRED else REMOTE_PENDING),
       rm_paidMinor = toMinor (or0 (cl_link_amount_paid l)) (cl_link_currency l),
       rm_requestedMinor = toMinor (cl_link_amount l) (cl_link_currency l),
       rm_currency = to_upper (cl_link_currency l), rm_reference = Some (cl_link_id l), rm_providerPaymentId = None\<rparr>)"

text \<open>The answers of one provider to the calls of one request.\<close>

datatype status_answer = StripeSession stripe_session | RazorpayLink rzp_link | CashfreeLink cf_link

definition statusOf :: "status_answer \<Rightarrow> remote_status" where
  "statusOf a = (case a of StripeSession s \<Rightarrow> stripeStatus s | RazorpayLink l \<Rightarrow> razorpayStatus l | CashfreeLink l \<Rightarrow> cashfreeStatus l)"

record create_input =
  cq_amountMinor :: int
  cq_currency :: string
  cq_reference :: string
  cq_customerPhone :: "string option"

text \<open>The identifier and address of the checkout page in the answer.\<close>

definition createdLink ::
  "adapter \<Rightarrow> create_input \<Rightarrow> (gateway_error + string option \<times> string option) \<Rightarrow> gateway_error + string \<times> string" where
  "createdLink a i answer =
     (if ad_key a = ''cashfree'' \<and> \<not> present (cq_customerPhone i)
      then Inl (GatewayError ''Cashfree needs the customer phone number'' None)
      else ebind answer (\<lambda>(ref, url).
        if \<not> present url \<or> (ad_key a \<noteq> ''cashfree'' \<and> \<not> present ref)
        then Inl (GatewayError (if ad_key a = ''stripe'' then ''Stripe returned no checkout URL''
               else if ad_key a = ''razorpay'' then ''Razorpay returned no payment link''
               else ''Cashfree returned no payment link'') None)
        else Inr (case ref of None \<Rightarrow> cq_reference i | Some r \<Rightarrow> r, the url)))"

text \<open>A refund the provider answers as failed is a definite rejection.\<close>

definition refundSent :: "adapter \<Rightarrow> (gateway_error + string \<times> string) \<Rightarrow> gateway_error + string" where
  "refundSent a answer = ebind answer (\<lambda>(i, status).
     if status = ''failed'' \<or> (ad_key a = ''stripe'' \<and> status = ''canceled'')
     then Inl (GatewayError (ad_name a @ '' could not refund this payment'' @ (if ad_key a = ''stripe'' then '' ('' @ status @ '')'' else '''')) (Some 400)) else Inr i)"

text \<open>\<open>gatewayFetch\<close>: any answer that is not a success is an error with its status; no answer has none.\<close>

datatype 'a http_answer = Unreachable | Answered int 'a

definition gatewayFetch :: "'a http_answer \<Rightarrow> gateway_error + 'a" where
  "gatewayFetch r = (case r of
     Unreachable \<Rightarrow> Inl (GatewayError ''The payment provider could not be reached'' None)
   | Answered status body \<Rightarrow>
       if 200 \<le> status \<and> status \<le> 299 then Inr body
       else Inl (GatewayError ''The provider answered with an error'' (Some status)))"

section \<open>Whose webhooks are believed\<close>

text \<open>The digests of the runtime, and what the bodies say: the event of a JSON body, and the link a Cashfree
  delivery names.\<close>

record webhook_env =
  we_hmacHex :: "string \<Rightarrow> string \<Rightarrow> string"
  we_hmacBase64 :: "string \<Rightarrow> string \<Rightarrow> string"
  we_sha256 :: "string \<Rightarrow> string"
  we_stripeEvent :: "string \<Rightarrow> (string option \<times> string option \<times> (string option \<times> string option) option) option"
  we_rzpEvent :: "string \<Rightarrow> (string option \<times> string option) option"
  we_linkId :: "string \<Rightarrow> string option"
  we_number :: "string \<Rightarrow> rat option"

record verified_webhook =
  vw_eventId :: string
  vw_providerRef :: "string option"

definition TOLERANCE_SECONDS :: rat where "TOLERANCE_SECONDS = 300"

definition credential :: "credentials \<Rightarrow> string \<Rightarrow> string option" where
  "credential cs k = (case map_of cs k of None \<Rightarrow> None | Some v \<Rightarrow> if v = '''' then None else Some v)"

definition headerValue :: "(string \<times> string) list \<Rightarrow> string \<Rightarrow> string option" where
  "headerValue hs k = (case map_of hs k of None \<Rightarrow> None | Some v \<Rightarrow> if v = '''' then None else Some v)"

text \<open>The parts of a Stripe signature header: the last timestamp and every \<open>v1\<close> signature.\<close>

definition headerPart :: "string \<Rightarrow> (string \<times> string) option" where
  "headerPart part =
     (let k = takeWhile (\<lambda>c. c \<noteq> CHR ''='') part in
      if k = part then None else Some (trim k, trim (drop (length k + 1) part)))"

definition signatureParts :: "string \<Rightarrow> string \<times> string list" where
  "signatureParts header =
     (let ps = List.map_filter headerPart (split_on (CHR '','') header) in
      (case rev (filter (\<lambda>p. fst p = ''t'') ps) of [] \<Rightarrow> '''' | p # _ \<Rightarrow> snd p,
       map snd (filter (\<lambda>p. fst p = ''v1'') ps)))"

definition stripeWebhook :: "webhook_env \<Rightarrow> rat \<Rightarrow> credentials \<Rightarrow> (string \<times> string) list \<Rightarrow> string \<Rightarrow> verified_webhook option" where
  "stripeWebhook e nowSeconds cs hs body =
     (case (credential cs ''webhookSecret'', headerValue hs ''stripe-signature'') of
        (Some secret, Some header) \<Rightarrow>
          (let (t, v1) = signatureParts header in
           case we_number e t of
             None \<Rightarrow> None
           | Some ts \<Rightarrow>
               if ts = 0 \<or> v1 = [] then None
               else if TOLERANCE_SECONDS < \<bar>nowSeconds - ts\<bar> then None
               else if we_hmacHex e secret (t @ ''.'' @ body) \<notin> set v1 then None
               else (case we_stripeEvent e body of
                   None \<Rightarrow> None
                 | Some (i, ty, obj) \<Rightarrow> Some \<lparr>vw_eventId = (case i of None \<Rightarrow> we_sha256 e body | Some x \<Rightarrow> x),
                     vw_providerRef = (case (ty, obj) of
                         (Some y, Some (oid, Some kind)) \<Rightarrow>
                           if starts_with ''checkout.session.'' y \<and> kind = ''checkout.session'' \<and> present oid then oid else None
                       | _ \<Rightarrow> None)\<rparr>))
      | _ \<Rightarrow> None)"

definition razorpayWebhook :: "webhook_env \<Rightarrow> credentials \<Rightarrow> (string \<times> string) list \<Rightarrow> string \<Rightarrow> verified_webhook option" where
  "razorpayWebhook e cs hs body =
     (case (credential cs ''webhookSecret'', headerValue hs ''x-razorpay-signature'') of
        (Some secret, Some sig) \<Rightarrow>
          if sig \<noteq> we_hmacHex e secret body then None
          else (case we_rzpEvent e body of
              None \<Rightarrow> None
            | Some (event, link) \<Rightarrow> Some \<lparr>
                vw_eventId = (case map_of hs ''x-razorpay-event-id'' of None \<Rightarrow> we_sha256 e body | Some x \<Rightarrow> x),
                vw_providerRef = (case event of None \<Rightarrow> None
                  | Some y \<Rightarrow> if starts_with ''payment_link.'' y then link else None)\<rparr>)
      | _ \<Rightarrow> None)"

definition cashfreeWebhook :: "webhook_env \<Rightarrow> credentials \<Rightarrow> (string \<times> string) list \<Rightarrow> string \<Rightarrow> verified_webhook option" where
  "cashfreeWebhook e cs hs body =
     (case (credential cs ''clientSecret'', headerValue hs ''x-webhook-signature'', headerValue hs ''x-webhook-timestamp'') of
        (Some secret, Some sig, Some ts) \<Rightarrow>
          if sig \<noteq> we_hmacBase64 e secret (ts @ body) then None
          else Some \<lparr>vw_eventId = we_sha256 e (ts @ body), vw_providerRef = we_linkId e body\<rparr>
      | _ \<Rightarrow> None)"

definition verifyWebhook ::
  "webhook_env \<Rightarrow> adapter \<Rightarrow> rat \<Rightarrow> credentials \<Rightarrow> (string \<times> string) list \<Rightarrow> string \<Rightarrow> verified_webhook option" where
  "verifyWebhook e a nowSeconds cs hs body =
     (if ad_key a = ''stripe'' then stripeWebhook e nowSeconds cs hs body
      else if ad_key a = ''razorpay'' then razorpayWebhook e cs hs body
      else cashfreeWebhook e cs hs body)"

section \<open>The connections of a restaurant\<close>

record catalog_entry =
  ce_id :: string
  ce_restaurantId :: "string option"
  ce_key :: string
  ce_adapter :: "string option"
  ce_active :: bool

record connection =
  cn_id :: string
  cn_restaurantId :: string
  cn_provider :: string
  cn_country :: string
  cn_enabled :: bool
  cn_mode :: gw_mode
  cn_liveConfirmedAt :: "int option"
  cn_liveConfirmedById :: "string option"
  cn_testCredentialsEnc :: "string option"
  cn_liveCredentialsEnc :: "string option"
  cn_testKeys :: "string list"
  cn_liveKeys :: "string list"
  cn_lastTestOk :: "bool option"

text \<open>Sealing and opening the credentials of one provider and mode.\<close>

record secret_box =
  sb_seal :: "string \<Rightarrow> credentials \<Rightarrow> string"
  sb_unseal :: "string \<Rightarrow> string \<Rightarrow> credentials option"

definition LIVE_PHRASE :: string where "LIVE_PHRASE = ''ENABLE LIVE PAYMENTS''"

definition modeName :: "gw_mode \<Rightarrow> string" where
  "modeName m = (if m = GW_TEST then ''TEST'' else ''LIVE'')"

definition credCtx :: "string \<Rightarrow> string \<Rightarrow> gw_mode \<Rightarrow> string" where
  "credCtx rid provider mode = rid @ '':gw:'' @ provider @ '':'' @ modeName mode"

definition encOf :: "gw_mode \<Rightarrow> connection \<Rightarrow> string option" where
  "encOf m c = (if m = GW_TEST then cn_testCredentialsEnc c else cn_liveCredentialsEnc c)"

definition keysIn :: "gw_mode \<Rightarrow> connection \<Rightarrow> string list" where
  "keysIn m c = (if m = GW_TEST then cn_testKeys c else cn_liveKeys c)"

definition setSecrets :: "gw_mode \<Rightarrow> string option \<Rightarrow> string list \<Rightarrow> connection \<Rightarrow> connection" where
  "setSecrets m sealed keys c =
     (if m = GW_TEST then c\<lparr>cn_testCredentialsEnc := sealed, cn_testKeys := keys, cn_lastTestOk := None\<rparr>
      else c\<lparr>cn_liveCredentialsEnc := sealed, cn_liveKeys := keys, cn_lastTestOk := None\<rparr>)"

text \<open>The row \<open>findFirst\<close> takes when a restaurant and the built-in list both have the provider: descending
  order puts a missing restaurant first.\<close>

definition providerRow :: "string \<Rightarrow> string \<Rightarrow> catalog_entry list \<Rightarrow> catalog_entry option" where
  "providerRow restaurantId key entries =
     (let here = filter (\<lambda>e. ce_key e = key) entries in
      case find (\<lambda>e. ce_restaurantId e = None) here of
        Some e \<Rightarrow> Some e
      | None \<Rightarrow> find (\<lambda>e. ce_restaurantId e = Some restaurantId) here)"

definition entry :: "string \<Rightarrow> string \<Rightarrow> catalog_entry list \<Rightarrow> catalog_entry res" where
  "entry restaurantId key entries =
     (case providerRow restaurantId key (filter ce_active entries) of
        None \<Rightarrow> Inl (NotFound ''Unknown payment provider'') | Some e \<Rightarrow> Inr e)"

definition adapterFor :: "catalog_entry \<Rightarrow> adapter res" where
  "adapterFor e = (case getAdapter (ce_adapter e) of
     None \<Rightarrow> Inl (BadRequest ''not integrated with OrderRestro yet, so credentials cannot be saved for it.'') | Some a \<Rightarrow> Inr a)"

definition complete :: "adapter \<Rightarrow> string list \<Rightarrow> bool" where
  "complete a keys \<longleftrightarrow> list_all (\<lambda>f. gf_required f \<longrightarrow> gf_key f \<in> set keys) (ad_fields a)"

definition ofProvider :: "string \<Rightarrow> string \<Rightarrow> connection \<Rightarrow> bool" where
  "ofProvider restaurantId provider c \<longleftrightarrow> cn_restaurantId c = restaurantId \<and> cn_provider c = provider"

definition credentialsOf :: "secret_box \<Rightarrow> string \<Rightarrow> connection \<Rightarrow> gw_mode \<Rightarrow> credentials res" where
  "credentialsOf sb restaurantId c mode =
     (case encOf mode c of
        None \<Rightarrow> Inr []
      | Some sealed \<Rightarrow>
          if sealed = '''' then Inr []
          else (case sb_unseal sb (credCtx restaurantId (cn_provider c) mode) sealed of
              None \<Rightarrow> Inl (BadRequest ''Stored payment credentials could not be read (was the encryption key changed?). Re-enter them.'')
            | Some cs \<Rightarrow> Inr cs))"

text \<open>Assignment to a key of an object: in place, or at the end.\<close>

fun assign :: "string \<Rightarrow> string \<Rightarrow> credentials \<Rightarrow> credentials" where
  "assign k v [] = [(k, v)]"
| "assign k v ((k', w) # cs) = (if k' = k then (k, v) # cs else (k', w) # assign k v cs)"

fun checkFields :: "adapter \<Rightarrow> gw_mode \<Rightarrow> credentials \<Rightarrow> string list \<Rightarrow> string list res" where
  "checkFields a mode [] errors = Inr errors"
| "checkFields a mode ((k, v) # rest) errors =
     (case find (\<lambda>f. gf_key f = k) (ad_fields a) of
        None \<Rightarrow> Inl (BadRequest ''Unknown field'')
      | Some f \<Rightarrow>
          if trim v = '''' then checkFields a mode rest errors
          else checkFields a mode rest (case gf_validate f (trim v) mode of None \<Rightarrow> errors | Some msg \<Rightarrow> errors @ [msg]))"

record credentials_input =
  cr_country :: string
  cr_mode :: gw_mode
  cr_credentials :: credentials

definition saveCredentials ::
  "secret_box \<Rightarrow> catalog_entry list \<Rightarrow> string \<Rightarrow> string \<Rightarrow> string \<Rightarrow> credentials_input \<Rightarrow> connection list \<Rightarrow> connection list res" where
  "saveCredentials sb entries newId restaurantId providerKey inp cs =
     ebind (entry restaurantId providerKey entries) (\<lambda>e.
     ebind (adapterFor e) (\<lambda>a.
     ebind (checkFields a (cr_mode inp) (cr_credentials inp) []) (\<lambda>errors.
     if errors \<noteq> [] then Inl (BadRequest ''Invalid credentials'')
     else
       ebind (case find (ofProvider restaurantId providerKey) cs of
                None \<Rightarrow> Inr [] | Some c \<Rightarrow> credentialsOf sb restaurantId c (cr_mode inp)) (\<lambda>old.
       let merged = fold (\<lambda>(k, v) m. if trim v = '''' then m else assign k (trim v) m) (cr_credentials inp) old;
           put = (\<lambda>c. (setSecrets (cr_mode inp) (Some (sb_seal sb (credCtx restaurantId providerKey (cr_mode inp)) merged))
                         (map fst merged) c)\<lparr>cn_country := to_upper (cr_country inp)\<rparr>)
       in if 0 < count_where (ofProvider restaurantId providerKey) cs
          then Inr (upd_where (ofProvider restaurantId providerKey) put cs)
          else Inr (cs @ [put \<lparr>cn_id = newId, cn_restaurantId = restaurantId, cn_provider = providerKey, cn_country = '''',
                    cn_enabled = False, cn_mode = GW_TEST, cn_liveConfirmedAt = None, cn_liveConfirmedById = None,
                    cn_testCredentialsEnc = None, cn_liveCredentialsEnc = None, cn_testKeys = [], cn_liveKeys = [],
                    cn_lastTestOk = None\<rparr>])))))"

definition requireConnection :: "string \<Rightarrow> string \<Rightarrow> connection list \<Rightarrow> connection res" where
  "requireConnection restaurantId providerKey cs =
     (case find (ofProvider restaurantId providerKey) cs of
        None \<Rightarrow> Inl (NotFound ''This gateway is not set up yet'') | Some c \<Rightarrow> Inr c)"

text \<open>Removing the keys of the mode in use switches collection off; removing the live keys goes back to test mode.\<close>

definition withoutSecrets :: "gw_mode \<Rightarrow> bool \<Rightarrow> connection \<Rightarrow> connection" where
  "withoutSecrets mode wasActiveMode c =
     (let c1 = setSecrets mode None [] c; c2 = (if wasActiveMode then c1\<lparr>cn_enabled := False\<rparr> else c1)
      in if mode = GW_LIVE then c2\<lparr>cn_mode := GW_TEST, cn_liveConfirmedAt := None, cn_liveConfirmedById := None\<rparr> else c2)"

definition removeCredentials ::
  "catalog_entry list \<Rightarrow> string \<Rightarrow> string \<Rightarrow> gw_mode \<Rightarrow> connection list \<Rightarrow> connection list res" where
  "removeCredentials entries restaurantId providerKey mode cs =
     ebind (entry restaurantId providerKey entries) (\<lambda>_.
     ebind (requireConnection restaurantId providerKey cs) (\<lambda>c.
     Inr (upd_where (\<lambda>x. cn_id x = cn_id c) (withoutSecrets mode (cn_mode c = mode)) cs)))"

definition removeConnection :: "string \<Rightarrow> string \<Rightarrow> connection list \<Rightarrow> connection list" where
  "removeConnection restaurantId providerKey cs = del_where (ofProvider restaurantId providerKey) cs"

text \<open>The provider's verdict on the credentials is an argument: whether it accepted them.\<close>

definition testConnection ::
  "secret_box \<Rightarrow> catalog_entry list \<Rightarrow> bool \<Rightarrow> string \<Rightarrow> string \<Rightarrow> gw_mode option \<Rightarrow> connection list \<Rightarrow> (bool \<times> connection list) res" where
  "testConnection sb entries accepted restaurantId providerKey mode cs =
     ebind (entry restaurantId providerKey entries) (\<lambda>e.
     ebind (adapterFor e) (\<lambda>a.
     ebind (requireConnection restaurantId providerKey cs) (\<lambda>c.
     let m = (case mode of None \<Rightarrow> cn_mode c | Some m \<Rightarrow> m) in
     if \<not> complete a (keysIn m c) then Inl (BadRequest ''Enter all required credentials first'')
     else ebind (credentialsOf sb restaurantId c m) (\<lambda>_.
       Inr (accepted, upd_where (\<lambda>x. cn_id x = cn_id c) (\<lambda>x. x\<lparr>cn_lastTestOk := Some accepted\<rparr>) cs)))))"

definition setMode ::
  "secret_box \<Rightarrow> catalog_entry list \<Rightarrow> bool \<Rightarrow> int \<Rightarrow> string \<Rightarrow> string \<Rightarrow> string \<Rightarrow> gw_mode \<Rightarrow> string option \<Rightarrow> connection list
   \<Rightarrow> connection list res" where
  "setMode sb entries accepted now restaurantId userId providerKey mode confirm cs =
     ebind (entry restaurantId providerKey entries) (\<lambda>e.
     ebind (adapterFor e) (\<lambda>a.
     ebind (requireConnection restaurantId providerKey cs) (\<lambda>c.
     if mode = GW_LIVE \<and> \<not> complete a (cn_liveKeys c)
     then Inl (BadRequest ''Enter all Live credentials before switching to Live mode'')
     else if mode = GW_LIVE \<and> confirm \<noteq> Some LIVE_PHRASE
     then Inl (BadRequest ''Type the phrase to confirm. Live mode charges real money.'')
     else ebind (if mode = GW_LIVE then credentialsOf sb restaurantId c GW_LIVE else Inr []) (\<lambda>_.
       if mode = GW_LIVE \<and> \<not> accepted then Inl (BadRequest ''Live credentials were not accepted'')
       else Inr (upd_where (\<lambda>x. cn_id x = cn_id c)
              (\<lambda>x. if mode = GW_LIVE
                   then x\<lparr>cn_mode := mode, cn_liveConfirmedAt := Some now, cn_liveConfirmedById := Some userId\<rparr>
                   else x\<lparr>cn_mode := mode\<rparr>) cs)))))"

text \<open>One gateway at a time: the others are switched off in one update before this one is switched on.\<close>

definition switchOthersOff :: "string \<Rightarrow> string \<Rightarrow> connection list \<Rightarrow> connection list" where
  "switchOthersOff restaurantId i cs =
     upd_where (\<lambda>x. cn_restaurantId x = restaurantId \<and> cn_id x \<noteq> i) (\<lambda>x. x\<lparr>cn_enabled := False\<rparr>) cs"

definition setEnabled ::
  "catalog_entry list \<Rightarrow> string \<Rightarrow> string \<Rightarrow> bool \<Rightarrow> connection list \<Rightarrow> connection list res" where
  "setEnabled entries restaurantId providerKey enabled cs =
     ebind (entry restaurantId providerKey entries) (\<lambda>e.
     ebind (adapterFor e) (\<lambda>a.
     ebind (requireConnection restaurantId providerKey cs) (\<lambda>c.
     if enabled \<and> \<not> complete a (keysIn (cn_mode c) c)
     then Inl (BadRequest ''Enter all required credentials first'')
     else
       (let cs1 = (if enabled then switchOthersOff restaurantId (cn_id c) cs else cs)
        in Inr (upd_where (\<lambda>x. cn_id x = cn_id c) (\<lambda>x. x\<lparr>cn_enabled := enabled\<rparr>) cs1)))))"

text \<open>The gateway new payments go through; a provider that is not in the catalog any more is an error.\<close>

definition activeGateway :: "catalog_entry list \<Rightarrow> string \<Rightarrow> connection list \<Rightarrow> (connection \<times> adapter) option res" where
  "activeGateway entries restaurantId cs =
     (case find (\<lambda>c. cn_restaurantId c = restaurantId \<and> cn_enabled c) cs of
        None \<Rightarrow> Inr None
      | Some c \<Rightarrow> ebind (entry restaurantId (cn_provider c) entries) (\<lambda>e.
          Inr (map_option (\<lambda>a. (c, a)) (getAdapter (ce_adapter e)))))"

section \<open>The catalog\<close>

text \<open>The built-in rows are refreshed at every start; whether a row is offered is never changed after it is made.
  Names, countries and notes of the rows are left out.\<close>

record builtin_entry =
  be_key :: string
  be_adapter :: "string option"
  be_active :: "bool option"

definition seedEntry :: "string \<Rightarrow> builtin_entry \<Rightarrow> catalog_entry list \<Rightarrow> catalog_entry list" where
  "seedEntry newId b es =
     (case find (\<lambda>e. ce_restaurantId e = None \<and> ce_key e = be_key b) es of
        Some x \<Rightarrow> upd_where (\<lambda>e. ce_id e = ce_id x) (\<lambda>e. e\<lparr>ce_adapter := be_adapter b\<rparr>) es
      | None \<Rightarrow> es @ [\<lparr>ce_id = newId, ce_restaurantId = None, ce_key = be_key b, ce_adapter = be_adapter b,
                       ce_active = (case be_active b of None \<Rightarrow> True | Some x \<Rightarrow> x)\<rparr>])"

fun onModuleInit :: "(string \<times> builtin_entry) list \<Rightarrow> catalog_entry list \<Rightarrow> catalog_entry list" where
  "onModuleInit [] es = es"
| "onModuleInit ((newId, b) # bs) es = onModuleInit bs (seedEntry newId b es)"

record custom_input =
  cu_key :: string
  cu_adapter :: "string option"

definition upsertCustomEntry :: "string \<Rightarrow> string \<Rightarrow> custom_input \<Rightarrow> catalog_entry list \<Rightarrow> catalog_entry list res" where
  "upsertCustomEntry newId restaurantId inp es =
     (if present (cu_adapter inp) \<and> getAdapter (cu_adapter inp) = None then Inl (BadRequest ''Unknown adapter'')
      else
        (let key = to_lower (cu_key inp) in
         case find (\<lambda>e. ce_restaurantId e = Some restaurantId \<and> ce_key e = key) es of
           Some x \<Rightarrow> Inr (upd_where (\<lambda>e. ce_id e = ce_id x) (\<lambda>e. e\<lparr>ce_adapter := cu_adapter inp\<rparr>) es)
         | None \<Rightarrow> Inr (es @ [\<lparr>ce_id = newId, ce_restaurantId = Some restaurantId, ce_key = key, ce_adapter = cu_adapter inp,
                             ce_active = True\<rparr>])))"

definition deleteCustomEntry :: "string \<Rightarrow> string \<Rightarrow> catalog_entry list \<Rightarrow> catalog_entry list res" where
  "deleteCustomEntry restaurantId key es =
     (let mine = (\<lambda>e. ce_restaurantId e = Some restaurantId \<and> ce_key e = key) in
      if count_where mine es = 0 then Inl (NotFound ''Custom provider not found'') else Inr (del_where mine es))"

lemma upd_where_image: "e \<in> set es \<Longrightarrow> (if P e then f e else e) \<in> set (upd_where P f es)"
  by (auto simp: upd_where_def)

lemma seedEntry_active: "e \<in> set es \<Longrightarrow> \<exists>x \<in> set (seedEntry newId b es). ce_id x = ce_id e \<and> ce_active x = ce_active e"
proof (cases "find (\<lambda>e. ce_restaurantId e = None \<and> ce_key e = be_key b) es")
  case (Some y)
  assume "e \<in> set es"
  from upd_where_image[OF this, of "\<lambda>e. ce_id e = ce_id y" "\<lambda>e. e\<lparr>ce_adapter := be_adapter b\<rparr>"] Some
  show ?thesis by (intro bexI[of _ "if ce_id e = ce_id y then e\<lparr>ce_adapter := be_adapter b\<rparr> else e"]) (auto simp: seedEntry_def)
qed (auto simp: seedEntry_def)

lemma seed_keeps_active:
  "e \<in> set es \<Longrightarrow> \<exists>x \<in> set (onModuleInit bs es). ce_id x = ce_id e \<and> ce_active x = ce_active e"
proof (induction bs es arbitrary: e rule: onModuleInit.induct)
  case (2 newId b bs es)
  from seedEntry_active[OF 2(2), of newId b] obtain x where
    "x \<in> set (seedEntry newId b es)" "ce_id x = ce_id e" "ce_active x = ce_active e" by blast
  with 2(1)[of x] show ?case by simp
qed auto

section \<open>What the connections keep\<close>

text \<open>Any use of the settings by any user: every operation, with any answer of the provider.\<close>

inductive gateway_change :: "connection list \<Rightarrow> connection list \<Rightarrow> bool" where
  saved: "saveCredentials sb es i r p inp cs = Inr ds \<Longrightarrow> i \<notin> cn_id ` set cs \<Longrightarrow> gateway_change cs ds"
| cleared: "removeCredentials es r p m cs = Inr ds \<Longrightarrow> gateway_change cs ds"
| removed: "removeConnection r p cs = ds \<Longrightarrow> gateway_change cs ds"
| tested: "testConnection sb es ok r p m cs = Inr (x, ds) \<Longrightarrow> gateway_change cs ds"
| moded: "setMode sb es ok now r u p m cf cs = Inr ds \<Longrightarrow> gateway_change cs ds"
| switched: "setEnabled es r p on cs = Inr ds \<Longrightarrow> gateway_change cs ds"

text \<open>Distinct rows, one row per provider, one enabled row per restaurant, and no live mode without a confirmation.\<close>

definition gateways_ok :: "connection list \<Rightarrow> bool" where
  "gateways_ok cs \<longleftrightarrow> keyed cn_id cs \<and> keyed (\<lambda>c. (cn_restaurantId c, cn_provider c)) cs \<and>
     (\<forall>c \<in> set cs. \<forall>d \<in> set cs. cn_enabled c \<and> cn_enabled d \<and> cn_restaurantId c = cn_restaurantId d \<longrightarrow> c = d) \<and>
     (\<forall>c \<in> set cs. cn_mode c = GW_LIVE \<longrightarrow> cn_liveConfirmedAt c \<noteq> None \<and> cn_liveConfirmedById c \<noteq> None)"

lemma setSecrets_sel [simp]:
  "cn_id (setSecrets m s k c) = cn_id c" "cn_restaurantId (setSecrets m s k c) = cn_restaurantId c"
  "cn_provider (setSecrets m s k c) = cn_provider c" "cn_enabled (setSecrets m s k c) = cn_enabled c"
  "cn_mode (setSecrets m s k c) = cn_mode c" "cn_liveConfirmedAt (setSecrets m s k c) = cn_liveConfirmedAt c"
  "cn_liveConfirmedById (setSecrets m s k c) = cn_liveConfirmedById c"
  by (simp_all add: setSecrets_def)

lemma withoutSecrets_sel [simp]:
  "cn_id (withoutSecrets m w c) = cn_id c" "cn_restaurantId (withoutSecrets m w c) = cn_restaurantId c"
  "cn_provider (withoutSecrets m w c) = cn_provider c"
  by (simp_all add: withoutSecrets_def Let_def)

lemma withoutSecrets_live:
  "(cn_enabled (withoutSecrets m w c) \<longrightarrow> cn_enabled c) \<and>
   (cn_mode (withoutSecrets m w c) = GW_LIVE \<longrightarrow> cn_mode c = GW_LIVE \<and>
      cn_liveConfirmedAt (withoutSecrets m w c) = cn_liveConfirmedAt c \<and>
      cn_liveConfirmedById (withoutSecrets m w c) = cn_liveConfirmedById c)"
  by (simp add: withoutSecrets_def Let_def)

text \<open>Changes that enable nothing and confirm what they make live.\<close>

lemma gateways_ok_upd:
  assumes "gateways_ok cs"
    "\<And>c. P c \<Longrightarrow> c \<in> set cs \<Longrightarrow> cn_id (f c) = cn_id c \<and> cn_restaurantId (f c) = cn_restaurantId c \<and> cn_provider (f c) = cn_provider c \<and>
       (cn_enabled (f c) \<longrightarrow> cn_enabled c) \<and>
       (cn_mode (f c) = GW_LIVE \<longrightarrow> cn_liveConfirmedAt (f c) \<noteq> None \<and> cn_liveConfirmedById (f c) \<noteq> None)"
  shows "gateways_ok (upd_where P f cs)"
proof -
  define g where "g = (\<lambda>c. if P c then f c else c)"
  have g: "cn_id (g c) = cn_id c \<and> cn_restaurantId (g c) = cn_restaurantId c \<and> cn_provider (g c) = cn_provider c \<and>
       (cn_enabled (g c) \<longrightarrow> cn_enabled c) \<and>
       (cn_mode (g c) = GW_LIVE \<longrightarrow> cn_liveConfirmedAt (g c) \<noteq> None \<and> cn_liveConfirmedById (g c) \<noteq> None)"
    if "c \<in> set cs" for c using that assms unfolding gateways_ok_def g_def by auto
  have u: "upd_where P f cs = map g cs" by (simp add: upd_where_def g_def)
  have "map cn_id (map g cs) = map cn_id cs"
    "map (\<lambda>c. (cn_restaurantId c, cn_provider c)) (map g cs) = map (\<lambda>c. (cn_restaurantId c, cn_provider c)) cs"
    using g by simp_all
  then have k: "keyed cn_id (map g cs) \<and> keyed (\<lambda>c. (cn_restaurantId c, cn_provider c)) (map g cs)"
    using assms(1) by (simp only: gateways_ok_def keyed_def)
  have one: "g c = g d" if "c \<in> set cs" "d \<in> set cs" "cn_enabled (g c)" "cn_enabled (g d)"
    "cn_restaurantId (g c) = cn_restaurantId (g d)" for c d
  proof -
    have "c = d" using assms(1) that g[OF that(1)] g[OF that(2)] unfolding gateways_ok_def by simp
    then show ?thesis by simp
  qed
  show ?thesis unfolding gateways_ok_def u
  proof (intro conjI ballI impI)
    fix x y assume "x \<in> set (map g cs)" "y \<in> set (map g cs)"
      and xy: "cn_enabled x \<and> cn_enabled y \<and> cn_restaurantId x = cn_restaurantId y"
    then obtain c d where "c \<in> set cs" "d \<in> set cs" "x = g c" "y = g d" by auto
    then show "x = y" using one xy by blast
  qed (use k g in auto)
qed

lemma ok_live: "gateways_ok cs \<Longrightarrow> c \<in> set cs \<Longrightarrow> cn_mode c = GW_LIVE \<Longrightarrow>
    cn_liveConfirmedAt c \<noteq> None \<and> cn_liveConfirmedById c \<noteq> None"
  unfolding gateways_ok_def by blast

lemma entryD: "requireConnection r p cs = Inr c \<Longrightarrow> c \<in> set cs \<and> cn_restaurantId c = r \<and> cn_provider c = p"
  by (auto simp: requireConnection_def ofProvider_def dest: find_SomeD split: option.splits)

lemma save_ok:
  assumes "saveCredentials sb es i r p inp cs = Inr ds" "i \<notin> cn_id ` set cs" "gateways_ok cs"
  shows "gateways_ok ds"
proof -
  from assms(1) obtain s k where ds: "ds =
      (if 0 < count_where (ofProvider r p) cs
       then upd_where (ofProvider r p) (\<lambda>c. (setSecrets (cr_mode inp) s k c)\<lparr>cn_country := to_upper (cr_country inp)\<rparr>) cs
       else cs @ [(\<lambda>c. (setSecrets (cr_mode inp) s k c)\<lparr>cn_country := to_upper (cr_country inp)\<rparr>) \<lparr>cn_id = i, cn_restaurantId = r, cn_provider = p, cn_country = '''',
                    cn_enabled = False, cn_mode = GW_TEST, cn_liveConfirmedAt = None, cn_liveConfirmedById = None,
                    cn_testCredentialsEnc = None, cn_liveCredentialsEnc = None, cn_testKeys = [], cn_liveKeys = [],
                    cn_lastTestOk = None\<rparr>])"
    unfolding saveCredentials_def Let_def by (elim ebind_InrE) (auto elim!: ebind_InrE split: if_splits)
  show ?thesis
  proof (cases "0 < count_where (ofProvider r p) cs")
    case True
    then have "ds = upd_where (ofProvider r p) (\<lambda>c. (setSecrets (cr_mode inp) s k c)\<lparr>cn_country := to_upper (cr_country inp)\<rparr>) cs"
      by (simp add: ds)
    then show ?thesis by (simp only:, intro gateways_ok_upd[OF assms(3)]) (use ok_live[OF assms(3)] in simp)
  next
    case False
    then have "\<forall>c \<in> set cs. \<not> ofProvider r p c" by (auto simp: count_where_def filter_empty_conv)
    then show ?thesis using assms(2,3) False by (auto simp: ds gateways_ok_def row_simps ofProvider_def)
  qed
qed

lemma switch_ok:
  assumes "gateways_ok cs" "c \<in> set cs"
  shows "gateways_ok (upd_where (\<lambda>x. cn_id x = cn_id c) (\<lambda>x. x\<lparr>cn_enabled := True\<rparr>) (switchOthersOff (cn_restaurantId c) (cn_id c) cs))"
proof -
  let ?o = "switchOthersOff (cn_restaurantId c) (cn_id c) cs"
  let ?t = "upd_where (\<lambda>x. cn_id x = cn_id c) (\<lambda>x. x\<lparr>cn_enabled := True\<rparr>) ?o"
  have o: "gateways_ok ?o" unfolding switchOthersOff_def
    by (rule gateways_ok_upd[OF assms(1)]) (use ok_live[OF assms(1)] in simp)
  have off: "x \<in> set ?o \<Longrightarrow> cn_enabled x \<Longrightarrow> cn_restaurantId x = cn_restaurantId c \<Longrightarrow> cn_id x = cn_id c" for x
    by (auto simp: switchOthersOff_def set_upd_where)
  have same: "x \<in> set ?o \<Longrightarrow> cn_id x = cn_id c \<Longrightarrow> x = c" for x
    using assms keyed_unique[of cn_id cs x c] by (auto simp: switchOthersOff_def set_upd_where gateways_ok_def)
  have k: "keyed cn_id ?t \<and> keyed (\<lambda>c. (cn_restaurantId c, cn_provider c)) ?t"
    using o by (simp add: gateways_ok_def keyed_upd_where)
  have t: "x = c\<lparr>cn_enabled := True\<rparr> \<or> x \<in> set ?o \<and> cn_id x \<noteq> cn_id c" if "x \<in> set ?t" for x
    using that same by (auto simp: set_upd_where)
  show ?thesis unfolding gateways_ok_def
  proof (intro conjI ballI impI)
    fix x y assume xy: "x \<in> set ?t" "y \<in> set ?t" "cn_enabled x \<and> cn_enabled y \<and> cn_restaurantId x = cn_restaurantId y"
    have one: "a = d" if "a \<in> set ?o" "d \<in> set ?o" "cn_enabled a" "cn_enabled d" "cn_restaurantId a = cn_restaurantId d" for a d
      using o that unfolding gateways_ok_def by simp
    have c: "cn_restaurantId a \<noteq> cn_restaurantId c" if "a \<in> set ?o \<and> cn_id a \<noteq> cn_id c" "cn_enabled a" for a
      using off that by blast
    from t[OF xy(1)] t[OF xy(2)] show "x = y"
      using one[of x y] c[of x] c[of y] xy(3) by (elim disjE) simp_all
  next
    fix x assume x: "x \<in> set ?t" "cn_mode x = GW_LIVE"
    from t[OF x(1)] have "cn_liveConfirmedAt x \<noteq> None \<and> cn_liveConfirmedById x \<noteq> None"
    proof
      assume "x = c\<lparr>cn_enabled := True\<rparr>"
      then show ?thesis using ok_live[OF assms] x(2) by simp
    qed (use ok_live[OF o] x(2) in blast)
    then show "cn_liveConfirmedAt x \<noteq> None" "cn_liveConfirmedById x \<noteq> None" by simp_all
  qed (use k in auto)
qed

lemma change_ok: "gateway_change cs ds \<Longrightarrow> gateways_ok cs \<Longrightarrow> gateways_ok ds"
proof (induction rule: gateway_change.induct)
  case (saved sb es i r p inp cs ds)
  then show ?case by (rule save_ok)
next
  case (cleared es r p m cs ds)
  then obtain c :: connection where "ds = upd_where (\<lambda>x. cn_id x = cn_id c) (withoutSecrets m (cn_mode c = m)) cs"
    by (auto simp: removeCredentials_def ebind_Inr_iff)
  then show ?case
  proof (simp only:, intro gateways_ok_upd[OF cleared(2)])
    fix d :: connection
    assume "d \<in> set cs"
    with withoutSecrets_live[of m "cn_mode c = m" d] ok_live[OF cleared(2), of d]
    show "cn_id (withoutSecrets m (cn_mode c = m) d) = cn_id d \<and>
        cn_restaurantId (withoutSecrets m (cn_mode c = m) d) = cn_restaurantId d \<and>
        cn_provider (withoutSecrets m (cn_mode c = m) d) = cn_provider d \<and>
        (cn_enabled (withoutSecrets m (cn_mode c = m) d) \<longrightarrow> cn_enabled d) \<and>
        (cn_mode (withoutSecrets m (cn_mode c = m) d) = GW_LIVE \<longrightarrow>
          cn_liveConfirmedAt (withoutSecrets m (cn_mode c = m) d) \<noteq> None \<and>
          cn_liveConfirmedById (withoutSecrets m (cn_mode c = m) d) \<noteq> None)" by simp
  qed
next
  case (removed r p cs ds)
  then show ?case by (auto simp: removeConnection_def gateways_ok_def del_where_def)
next
  case (tested sb es ok r p m cs x ds)
  then obtain c :: connection where "ds = upd_where (\<lambda>x. cn_id x = cn_id c) (\<lambda>x. x\<lparr>cn_lastTestOk := Some ok\<rparr>) cs"
    by (auto simp: testConnection_def ebind_Inr_iff Let_def split: if_splits)
  then show ?case by (simp only:, intro gateways_ok_upd[OF tested(2)]) (use ok_live[OF tested(2)] in simp)
next
  case (moded sb es ok now r u p m cf cs ds)
  then obtain c :: connection where "ds = upd_where (\<lambda>x. cn_id x = cn_id c)
      (\<lambda>x. if m = GW_LIVE then x\<lparr>cn_mode := m, cn_liveConfirmedAt := Some now, cn_liveConfirmedById := Some u\<rparr>
           else x\<lparr>cn_mode := m\<rparr>) cs"
    by (auto simp: setMode_def ebind_Inr_iff split: if_splits)
  then show ?case by (simp only:, intro gateways_ok_upd[OF moded(2)]) simp
next
  case (switched es r p on cs ds)
  then obtain c where c: "requireConnection r p cs = Inr c"
    and ds: "ds = upd_where (\<lambda>x. cn_id x = cn_id c) (\<lambda>x. x\<lparr>cn_enabled := on\<rparr>) (if on then switchOthersOff r (cn_id c) cs else cs)"
    by (auto simp: setEnabled_def ebind_Inr_iff Let_def split: if_splits)
  show ?case
  proof (cases on)
    case True
    then show ?thesis using switch_ok[OF switched(2), of c] entryD[OF c] ds by auto
  next
    case False
    then have "ds = upd_where (\<lambda>x. cn_id x = cn_id c) (\<lambda>x. x\<lparr>cn_enabled := False\<rparr>) cs" using ds by simp
    then show ?thesis by (simp only:, intro gateways_ok_upd[OF switched(2)]) (use ok_live[OF switched(2)] in simp)
  qed
qed

lemma changes_ok: "gateway_change\<^sup>*\<^sup>* cs ds \<Longrightarrow> gateways_ok cs \<Longrightarrow> gateways_ok ds"
  by (induction rule: rtranclp_induct) (auto intro: change_ok)

text \<open>Each operation is several statements: of two gateways switched on at once, both can stay on.\<close>

definition sample_connection :: "string \<Rightarrow> connection" where
  "sample_connection p = \<lparr>cn_id = p, cn_restaurantId = ''r'', cn_provider = p, cn_country = ''IN'', cn_enabled = False,
     cn_mode = GW_TEST, cn_liveConfirmedAt = None, cn_liveConfirmedById = None, cn_testCredentialsEnc = None,
     cn_liveCredentialsEnc = None, cn_testKeys = [], cn_liveKeys = [], cn_lastTestOk = None\<rparr>"

lemma both_switched_on:
  "let cs = [sample_connection ''stripe'', sample_connection ''razorpay''];
       on = (\<lambda>p. upd_where (\<lambda>x. cn_id x = p) (\<lambda>x. x\<lparr>cn_enabled := True\<rparr>)) in
   map cn_enabled (on ''razorpay'' (on ''stripe'' (switchOthersOff ''r'' ''razorpay'' (switchOthersOff ''r'' ''stripe'' cs))))
     = [True, True]"
  by code_simp

text \<open>The built-in row of a provider hides the restaurant's own.\<close>

lemma builtin_row_wins:
  "e \<in> set entries \<Longrightarrow> ce_restaurantId e = None \<Longrightarrow> ce_key e = k \<Longrightarrow>
   \<exists>b. providerRow r k entries = Some b \<and> ce_restaurantId b = None"
  by (auto simp: providerRow_def Let_def find_None_iff dest: find_SomeD split: option.splits)

end
