(* ===== verification/Order_Integrity.thy ===== *)
theory Order_Integrity
  imports Order_History Order_Bills
begin

text \<open>
  The relations between the rows of the order service, which the foreign keys and the unique constraint on
  request identifiers ask for, and some that no constraint states: money is taken only on orders that are
  open or paid, and given back only on paid ones. Every handler keeps them.
\<close>

section \<open>Well-formed rows\<close>

text \<open>Lines and tickets belong to an order of the set; a line on a ticket is a line of the ticket's order;
  a returned line and its refund belong to the same order.\<close>

definition linked :: "string set \<Rightarrow> db \<Rightarrow> bool" where
  "linked ids s \<longleftrightarrow>
     (\<forall>i \<in> set (db_items s). oi_orderId i \<in> ids) \<and> (\<forall>k \<in> set (db_kots s). kt_orderId k \<in> ids) \<and>
     (\<forall>x \<in> set (db_kotItems s). \<exists>k \<in> set (db_kots s). \<exists>i \<in> set (db_items s).
        kt_id k = ki_kotId x \<and> oi_id i = ki_orderItemId x \<and> kt_orderId k = oi_orderId i)"

definition keysOf :: "payment list \<Rightarrow> (string \<times> string) list" where
  "keysOf ps = map (\<lambda>p. (py_orderId p, the (py_clientRequestId p))) (filter (\<lambda>p. py_clientRequestId p \<noteq> None) ps)"

definition paid_ok :: "db \<Rightarrow> bool" where
  "paid_ok s \<longleftrightarrow> distinct (keysOf (db_payments s)) \<and>
     (\<forall>p \<in> set (db_payments s). \<exists>r \<in> set (db_orders s). od_id r = py_orderId p \<and> od_status r \<noteq> ORDER_CANCELLED) \<and>
     (\<forall>p \<in> set (db_refunds s). \<exists>r \<in> set (db_orders s). od_id r = rf_orderId p \<and> od_status r = PAID)"

definition returns_ok :: "db \<Rightarrow> bool" where
  "returns_ok s \<longleftrightarrow> (\<forall>x \<in> set (db_stockReturns s). \<exists>i \<in> set (db_items s). \<exists>f \<in> set (db_refunds s).
     oi_id i = sr_orderItemId x \<and> rf_id f = sr_refundId x \<and> oi_orderId i = rf_orderId f)"

definition db_ok :: "db \<Rightarrow> bool" where
  "db_ok s \<longleftrightarrow> keyed od_id (db_orders s) \<and> linked (od_id ` set (db_orders s)) s \<and> paid_ok s \<and> returns_ok s"

lemma db_ok_keyed: "db_ok s \<Longrightarrow> keyed od_id (db_orders s)" by (simp add: db_ok_def)

section \<open>Changes that keep them\<close>

lemma linked_same:
  "linked ids s \<Longrightarrow> db_items t = db_items s \<Longrightarrow> db_kots t = db_kots s \<Longrightarrow> db_kotItems t = db_kotItems s \<Longrightarrow> linked ids t"
  by (simp add: linked_def)

lemma linked_more: "linked ids s \<Longrightarrow> ids \<subseteq> ids' \<Longrightarrow> linked ids' s"
  unfolding linked_def by blast

lemma all2_left: "list_all2 R xs ys \<Longrightarrow> x \<in> set xs \<Longrightarrow> \<exists>y \<in> set ys. R x y"
  by (induction rule: list_all2_induct) auto

lemma all2_right: "list_all2 R xs ys \<Longrightarrow> y \<in> set ys \<Longrightarrow> \<exists>x \<in> set xs. R x y"
  by (induction rule: list_all2_induct) auto

text \<open>Tickets and their lines changed in place, in fields no relation is about.\<close>

lemma linked_upd:
  assumes "linked ids s" "db_items t = db_items s" "map kt_id (db_kots t) = map kt_id (db_kots s)"
    "map kt_orderId (db_kots t) = map kt_orderId (db_kots s)"
    "map ki_kotId (db_kotItems t) = map ki_kotId (db_kotItems s)"
    "map ki_orderItemId (db_kotItems t) = map ki_orderItemId (db_kotItems s)"
  shows "linked ids t"
proof -
  have k: "list_all2 (\<lambda>k k'. kt_id k' = kt_id k \<and> kt_orderId k' = kt_orderId k) (db_kots s) (db_kots t)"
    using assms(3,4) by (simp add: list_all2_conv_all_nth list_eq_iff_nth_eq)
  have x: "list_all2 (\<lambda>x x'. ki_kotId x' = ki_kotId x \<and> ki_orderItemId x' = ki_orderItemId x) (db_kotItems s) (db_kotItems t)"
    using assms(5,6) by (simp add: list_all2_conv_all_nth list_eq_iff_nth_eq)
  show ?thesis unfolding linked_def assms(2)
  proof (intro conjI ballI)
    fix i assume "i \<in> set (db_items s)" then show "oi_orderId i \<in> ids" using assms(1) by (simp add: linked_def)
  next
    fix k' assume "k' \<in> set (db_kots t)"
    then obtain c where "c \<in> set (db_kots s)" "kt_orderId k' = kt_orderId c" using all2_right[OF k] by blast
    then show "kt_orderId k' \<in> ids" using assms(1) by (simp add: linked_def)
  next
    fix x' assume "x' \<in> set (db_kotItems t)"
    then obtain y where y: "y \<in> set (db_kotItems s)" "ki_kotId x' = ki_kotId y" "ki_orderItemId x' = ki_orderItemId y"
      using all2_right[OF x] by blast
    then obtain c i where c: "c \<in> set (db_kots s)" "i \<in> set (db_items s)" "kt_id c = ki_kotId y" "oi_id i = ki_orderItemId y"
      "kt_orderId c = oi_orderId i" using assms(1) unfolding linked_def by blast
    then obtain c' where "c' \<in> set (db_kots t)" "kt_id c' = kt_id c" "kt_orderId c' = kt_orderId c"
      using all2_left[OF k] by blast
    with y(2,3) c show "\<exists>k \<in> set (db_kots t). \<exists>i \<in> set (db_items s). kt_id k = ki_kotId x' \<and> oi_id i = ki_orderItemId x' \<and>
      kt_orderId k = oi_orderId i" by (intro bexI[of _ c'] bexI[of _ i]) simp_all
  qed
qed

text \<open>New lines, and new tickets for lines of their order.\<close>

lemma linked_lines:
  "linked ids s \<Longrightarrow> \<forall>i \<in> set new. oi_orderId i \<in> ids \<Longrightarrow> linked ids (s\<lparr>db_items := db_items s @ new, db_next := n\<rparr>)"
  unfolding linked_def by fastforce

lemma kotItemRows_ticket_order:
  "x \<in> set (kotItemRows rt gs n) \<Longrightarrow>
   \<exists>k \<in> set (kotRows rt o' gs n seq). kt_id k = ki_kotId x \<and> kt_orderId k = o'"
proof (induction gs arbitrary: n seq)
  case (Cons g gs)
  show ?case
  proof (cases "x \<in> set (kotItemRows rt gs (n + 1))")
    case True
    from Cons.IH[OF this, of "seq + 1"] show ?thesis by auto
  next
    case False
    then show ?thesis using Cons.prems by (auto simp: kotRow_def)
  qed
qed simp

lemma kotItemRows_line:
  "x \<in> set (kotItemRows rt gs n) \<Longrightarrow> \<exists>g \<in> set gs. \<exists>i \<in> set (snd g). ki_orderItemId x = oi_id i"
  by (induction gs arbitrary: n) auto

lemma linked_generate:
  assumes "linked ids s" "o' \<in> ids" "\<forall>i \<in> set items. i \<in> set (db_items s) \<and> oi_orderId i = o'"
  shows "linked ids (generateKots cfg rt o' items s)"
proof -
  let ?gs = "itemsByStation cfg items"
  let ?rows = "kotRows rt o' ?gs (db_next s) (length (kotsOf o' s) + 1)"
  have o: "\<forall>k \<in> set ?rows. kt_orderId k = o'"
  proof -
    have "k \<in> set (kotRows rt o' gs n seq) \<Longrightarrow> kt_orderId k = o'" for k gs n seq
      by (induction gs arbitrary: n seq) (auto simp: kotRow_def)
    then show ?thesis by blast
  qed
  have "\<exists>k \<in> set ?rows. \<exists>i \<in> set (db_items s). kt_id k = ki_kotId x \<and> oi_id i = ki_orderItemId x \<and> kt_orderId k = oi_orderId i"
    if x: "x \<in> set (kotItemRows rt ?gs (db_next s))" for x
  proof -
    from kotItemRows_ticket_order[OF x, of o' "length (kotsOf o' s) + 1"]
    obtain k where k: "k \<in> set ?rows" "kt_id k = ki_kotId x" "kt_orderId k = o'" by blast
    from kotItemRows_line[OF x] obtain st ls i where g: "(st, ls) \<in> set ?gs" "i \<in> set ls" "ki_orderItemId x = oi_id i" by auto
    then have "i \<in> set items" using itemsByStation_groups(2)[of st ls cfg items] by auto
    then show ?thesis using k g(3) assms(3) by (intro bexI[of _ k] bexI[of _ i]) auto
  qed
  then show ?thesis using assms(1,2) o
    unfolding linked_def by (auto simp: generateKots_state Let_def) blast+
qed

lemma linked_delete: "linked ids s \<Longrightarrow> linked ids (deleteLines P s)"
  unfolding linked_def by (auto simp: frame del_where_def) metis

text \<open>Orders changed in place: a finished order stays as it is, an open one is cancelled only without payments.\<close>

definition tame_change :: "db \<Rightarrow> order list \<Rightarrow> bool" where
  "tame_change s = list_all2 (\<lambda>r r'. r' = r \<or> od_status r = OPEN \<and> od_id r' = od_id r \<and>
     (od_status r' = ORDER_CANCELLED \<longrightarrow> paymentsOf (od_id r) s = [])) (db_orders s)"

lemma tame_ids: "tame_change s rs \<Longrightarrow> map od_id rs = map od_id (db_orders s)"
  unfolding tame_change_def by (induction rule: list_all2_induct) auto

lemma tame_refl [simp]: "tame_change s (db_orders s)"
  by (simp add: tame_change_def list_all2_same)

lemma tame_upd [simp]:
  "tame_change s (upd_where P f (db_orders s)) \<longleftrightarrow> (\<forall>r \<in> set (db_orders s). P r \<longrightarrow> f r = r \<or> od_status r = OPEN \<and>
     od_id (f r) = od_id r \<and> (od_status (f r) = ORDER_CANCELLED \<longrightarrow> paymentsOf (od_id r) s = []))"
  by (simp add: tame_change_def upd_where_def list_all2_map2 list_all2_same)

lemma paymentsOf_none: "paymentsOf i s = [] \<Longrightarrow> p \<in> set (db_payments s) \<Longrightarrow> py_orderId p \<noteq> i"
  by (auto simp: paymentsOf_def filter_empty_conv)

lemma paid_ok_tame:
  assumes "paid_ok s" "tame_change s (db_orders t)" "db_payments t = db_payments s" "db_refunds t = db_refunds s"
  shows "paid_ok t"
proof -
  note c = all2_left[OF assms(2)[unfolded tame_change_def]]
  have "\<exists>r \<in> set (db_orders t). od_id r = py_orderId p \<and> od_status r \<noteq> ORDER_CANCELLED" if p: "p \<in> set (db_payments s)" for p
  proof -
    obtain r where "r \<in> set (db_orders s)" "od_id r = py_orderId p" "od_status r \<noteq> ORDER_CANCELLED"
      using assms(1) p unfolding paid_ok_def by blast
    with c[OF this(1)] paymentsOf_none[OF _ p] show ?thesis by metis
  qed
  moreover have "\<exists>r \<in> set (db_orders t). od_id r = rf_orderId p \<and> od_status r = PAID" if p: "p \<in> set (db_refunds s)" for p
  proof -
    obtain r where "r \<in> set (db_orders s)" "od_id r = rf_orderId p" "od_status r = PAID"
      using assms(1) p unfolding paid_ok_def by blast
    with c[OF this(1)] show ?thesis by auto
  qed
  ultimately show ?thesis using assms(1,3,4) by (simp add: paid_ok_def)
qed

text \<open>A step that changes the orders tamely and leaves the rest of the bills alone, but for their tickets.\<close>

lemma db_ok_tame:
  assumes "db_ok s" "tame_change s (db_orders t)" "linked (od_id ` set (db_orders s)) s \<Longrightarrow> linked (od_id ` set (db_orders s)) t"
    "db_payments t = db_payments s" "db_refunds t = db_refunds s" "returns_ok s \<Longrightarrow> returns_ok t"
  shows "db_ok t"
proof -
  have i: "od_id ` set (db_orders t) = od_id ` set (db_orders s)"
    using tame_ids[OF assms(2)] by (metis list.set_map)
  show ?thesis using assms tame_ids[OF assms(2)] paid_ok_tame[of s t]
    unfolding db_ok_def i by (simp add: keyed_def)
qed

lemma returns_same:
  "returns_ok s \<Longrightarrow> db_items t = db_items s \<Longrightarrow> db_refunds t = db_refunds s \<Longrightarrow> db_stockReturns t = db_stockReturns s \<Longrightarrow> returns_ok t"
  by (simp add: returns_ok_def)

lemma returns_delete: "returns_ok s \<Longrightarrow> returns_ok (deleteLines P s)"
  unfolding returns_ok_def by (auto simp: deleteLines_def del_where_def) metis

lemma returns_lines: "returns_ok s \<Longrightarrow> returns_ok (s\<lparr>db_items := db_items s @ new, db_next := n\<rparr>)"
  unfolding returns_ok_def by fastforce

text \<open>The rows of the order that is read are open.\<close>

lemma open_only:
  "db_ok s \<Longrightarrow> findOrder b i s = Some r \<Longrightarrow> od_status r = OPEN \<Longrightarrow> x \<in> set (db_orders s) \<Longrightarrow> od_id x = i \<Longrightarrow> od_status x = OPEN"
  using findOrder_only db_ok_keyed by blast

lemma known_order: "findOrder b i s = Some r \<Longrightarrow> i \<in> od_id ` set (db_orders s)"
  using findOrder_row by blast

section \<open>The handlers\<close>

lemma addItems_ok:
  assumes "addItems cfg rt b i items opts s = Inr (v, t)" "db_ok s"
  shows "db_ok t"
  using assms(1)
proof (rule addItems_InrE, goal_cases)
  case (1 lines r)
  let ?s1 = "s\<lparr>db_items := db_items s @ lineRows rt i lines (db_next s), db_next := db_next s + length lines\<rparr>"
  let ?tot = "computeOrderTotals (map storedLine (itemsOf i s @ lineRows rt i lines (db_next s))) 0 0"
  have "linked (od_id ` set (db_orders s)) t" if l: "linked (od_id ` set (db_orders s)) s"
  proof -
    have "linked (od_id ` set (db_orders s)) ?s1"
      using l known_order[OF 1(2)] by (intro linked_lines) (auto dest: lineRows_order)
    then have "linked (od_id ` set (db_orders s)) (setTotals i ?tot ?s1)"
      by (rule linked_same) (simp_all add: frame)
    then have "linked (od_id ` set (db_orders s)) (generateKots cfg rt i (lineRows rt i lines (db_next s)) (setTotals i ?tot ?s1))"
      by (rule linked_generate[OF _ known_order[OF 1(2)]]) (auto simp: frame dest: lineRows_order)
    then show ?thesis unfolding 1(5) by (rule linked_same) (simp_all add: frame)
  qed
  moreover have "returns_ok t" if "returns_ok s"
    using returns_lines[OF that, where new = "lineRows rt i lines (db_next s)" and n = "db_next s + length lines"]
    by (rule returns_same) (simp_all add: 1(5) frame)
  ultimately show ?case using assms(2)
    by (intro db_ok_tame[OF assms(2)]) (auto simp: 1(5) frame setTotals_upd open_only[OF assms(2) 1(2,3)])
qed

lemma createOrder_ok:
  assumes "createOrder cfg rt b u d opts s = Inr (v, t)" "db_ok s"
  shows "db_ok t"
  using assms(1)
proof (rule createOrder_InrE)
  fix lines delivery and r :: order and s1
  let ?new = "lineRows rt (od_id r) lines (db_next s + 1)"
  let ?ids = "od_id ` set (db_orders s @ [r])"
  assume tx: "createOrderTx cfg rt r lines (op_historical opts \<noteq> None) (s\<lparr>db_next := db_next s + 1\<rparr>) = Inr s1"
    and t: "t = (if op_historical opts \<noteq> None then s1 else emit [OrderCreated (od_id r) (acceptanceFor cfg b opts)] s1)"
  from tx obtain s2 where n: "od_id r \<notin> od_id ` set (db_orders s)"
    and s2: "occupyTable rt (od_tableId r) (op_historical opts \<noteq> None) (s\<lparr>db_orders := db_orders s @ [r],
       db_items := db_items s @ ?new, db_next := db_next s + 1 + length lines\<rparr>) = Inr s2"
    and s1: "s1 = (if sendsAtOnce rt r (op_historical opts \<noteq> None) then generateKots cfg rt (od_id r) ?new s2 else s2)"
    by (rule createOrderTx_InrE) simp
  note f = occupyTable_frame[OF s2, simplified]
  have "linked ?ids (s\<lparr>db_items := db_items s @ ?new, db_next := 0\<rparr>)"
  proof (rule linked_lines)
    show "linked ?ids s" using assms(2) unfolding db_ok_def by (elim conjE, elim linked_more) auto
  qed (auto dest: lineRows_order)
  then have l2: "linked ?ids s2" by (rule linked_same) (simp_all add: f)
  moreover have "linked ?ids (generateKots cfg rt (od_id r) ?new s2)"
    by (rule linked_generate[OF l2]) (auto simp: f dest: lineRows_order)
  ultimately have "linked ?ids s1" unfolding s1 by simp
  then have "linked ?ids t" by (rule linked_same) (auto simp: t frame)
  moreover have "returns_ok (s\<lparr>db_items := db_items s @ ?new, db_next := 0\<rparr>)"
    using assms(2) by (intro returns_lines) (simp add: db_ok_def)
  then have "returns_ok t" by (rule returns_same) (auto simp: t s1 f frame)
  moreover have "paid_ok t" using assms(2) unfolding paid_ok_def db_ok_def by (auto simp: t s1 f frame)
  ultimately show ?thesis using assms(2) n
    by (auto simp: db_ok_def t s1 f frame row_simps)
qed

lemma acceptOrder_ok:
  assumes "acceptOrder cfg rt b i u s = Inr (v, t)" "db_ok s"
  shows "db_ok t"
  using assms(1)
proof (rule acceptOrder_InrE, goal_cases)
  case (1 r)
  let ?s1 = "updOrders (waiting i) (\<lambda>r. r\<lparr>od_acceptance := ORDER_ACCEPTED, od_acceptedBy := Some (u, rt_now rt)\<rparr>) s"
  let ?s2 = "if isDeferred rt (od_scheduledFor r) then ?s1 else generateKots cfg rt i (itemsOf i s) ?s1"
  have t: "t = auditRow ''order.accepted'' i (emit [OrderUpdated i None, KotUpdated i] ?s2)"
    using 1(4,5) by (simp add: acceptWrite_def Let_def split: if_splits)
  have "linked (od_id ` set (db_orders s)) t" if l: "linked (od_id ` set (db_orders s)) s"
  proof -
    have l1: "linked (od_id ` set (db_orders s)) ?s1" using l by (rule linked_same) (simp_all add: frame)
    have "linked (od_id ` set (db_orders s)) ?s2"
      using linked_generate[OF l1 known_order[OF 1(1)], of "itemsOf i s" cfg rt] l1 by (auto simp: frame itemsOf_def)
    then show ?thesis by (rule linked_same) (simp_all add: t frame)
  qed
  then show ?case
    by (intro db_ok_tame[OF assms(2)]) (auto simp: t frame waiting_def elim: returns_same)
qed

text \<open>Tickets changed in place.\<close>

lemma linked_kitchen:
  assumes "linked ids s" "db_items t = db_items s" "db_kots t = upd_where P f (db_kots s)"
    "db_kotItems t = upd_where Q g (db_kotItems s)" "\<And>k. kt_id (f k) = kt_id k \<and> kt_orderId (f k) = kt_orderId k"
    "\<And>x. ki_kotId (g x) = ki_kotId x \<and> ki_orderItemId (g x) = ki_orderItemId x"
  shows "linked ids t"
  using assms by (intro linked_upd[OF assms(1)]) (simp_all add: row_simps)

lemma upd_nothing: "upd_where (\<lambda>_. False) f rs = rs"
  by (simp add: upd_where_none)

lemma cancelKitchen_linked: "linked ids s \<Longrightarrow> linked ids (cancelKitchen i s)"
  unfolding cancelKitchen_def Let_def
  by (rule linked_kitchen[where f = "\<lambda>k. k\<lparr>kt_status := CANCELLED\<rparr>" and g = "\<lambda>x. x\<lparr>ki_status := CANCELLED\<rparr>"])
     (simp_all add: frame)

lemma releaseTable_kitchen:
  assumes "releaseTableIfIdle rt tb e s = Inr t" "linked ids s"
  shows "linked ids t"
  using assms(2) by (rule linked_same) (use releaseTable_frame[OF assms(1)] in blast)+

lemma withdrawRead_unpaid: "withdrawRead b i opts s = Inr r \<Longrightarrow> paymentsOf i s = []"
  by (auto simp: withdrawRead_def Let_def split: option.splits if_splits)

lemma withdrawOrder_ok:
  assumes "withdrawOrder rt b i u opts s = Inr (v, t)" "db_ok s"
  shows "db_ok t"
  using assms(1)
proof (rule withdrawOrder_InrE, goal_cases)
  case (1 r)
  from 1(5) show ?case
  proof (rule withdrawWrite_InrE, goal_cases)
    case (1 s1)
    note f = releaseTable_frame[OF 1(2)]
    have "linked ids t" if "linked ids s" for ids
    proof -
      have "linked ids s1"
        by (rule releaseTable_kitchen[OF 1(2)], rule cancelKitchen_linked, rule linked_same[OF that]) (simp_all add: frame)
      then show ?thesis by (rule linked_same) (simp_all add: 1(3) frame emitOrderWithdrawn_def)
    qed
    then show ?case using withdrawRead_unpaid[OF \<open>withdrawRead b i opts s = Inr r\<close>] \<open>od_id r = i\<close> f
      by (intro db_ok_tame[OF assms(2)])
         (auto simp: 1(3) frame emitOrderWithdrawn_def withdrawable_def elim: returns_same)
  qed
qed

lemma updateOrderWrite_kotItems: "updateOrderWrite rt d (r, m) s = Inr t \<Longrightarrow> db_kotItems t = db_kotItems s"
proof (rule updateOrderWrite_InrE, assumption, goal_cases)
  case (1 s3 es)
  then show ?case by (cases m) (auto simp: frame dest!: releaseTable_frame)
qed

lemma updateOrder_ok:
  assumes "updateOrder rt b i d s = Inr (v, t)" "db_ok s"
  shows "db_ok t"
  using assms(1)
proof (rule updateOrder_InrE, goal_cases)
  case (1 r moving)
  note f = updateOrderWrite_frame[OF 1(6)] updateOrderWrite_kotItems[OF 1(6)]
  show ?case
    by (intro db_ok_tame[OF assms(2)])
       (use f open_only[OF assms(2) 1(1,2)] 1(4) in \<open>auto elim: linked_same returns_same\<close>)
qed

text \<open>Lines changed in place, in fields no relation is about.\<close>

lemma upd_items:
  assumes "\<And>x. oi_id (f x) = oi_id x \<and> oi_orderId (f x) = oi_orderId x"
  shows linked_upd_items: "linked ids s \<Longrightarrow> linked ids (s\<lparr>db_items := upd_where P f (db_items s)\<rparr>)"
    and returns_upd_items: "returns_ok s \<Longrightarrow> returns_ok (s\<lparr>db_items := upd_where P f (db_items s)\<rparr>)"
proof -
  let ?is = "upd_where P f (db_items s)"
  have m: "\<exists>y \<in> set ?is. oi_id y = oi_id x \<and> oi_orderId y = oi_orderId x" if "x \<in> set (db_items s)" for x
    using that assms by (intro bexI[of _ "if P x then f x else x"]) (simp_all add: upd_where_def)
  have o: "\<forall>y \<in> set ?is. oi_orderId y \<in> oi_orderId ` set (db_items s)" using assms by (auto simp: set_upd_where)
  show "linked ids (s\<lparr>db_items := ?is\<rparr>)" if l: "linked ids s"
    unfolding linked_def
  proof (intro conjI ballI)
    fix x assume "x \<in> set (db_kotItems (s\<lparr>db_items := ?is\<rparr>))"
    then obtain k i where k: "k \<in> set (db_kots s)" "i \<in> set (db_items s)" "kt_id k = ki_kotId x" "oi_id i = ki_orderItemId x"
      "kt_orderId k = oi_orderId i" using l unfolding linked_def by auto
    obtain y where "y \<in> set ?is" "oi_id y = oi_id i" "oi_orderId y = oi_orderId i" using m[OF k(2)] by blast
    then show "\<exists>k \<in> set (db_kots (s\<lparr>db_items := ?is\<rparr>)). \<exists>i \<in> set (db_items (s\<lparr>db_items := ?is\<rparr>)).
        kt_id k = ki_kotId x \<and> oi_id i = ki_orderItemId x \<and> kt_orderId k = oi_orderId i"
      using k by (intro bexI[of _ k] bexI[of _ y]) simp_all
  qed (use l o in \<open>auto simp: linked_def\<close>)
  show "returns_ok (s\<lparr>db_items := ?is\<rparr>)" if l: "returns_ok s"
    unfolding returns_ok_def
  proof (intro ballI)
    fix x assume "x \<in> set (db_stockReturns (s\<lparr>db_items := ?is\<rparr>))"
    then obtain i g where k: "i \<in> set (db_items s)" "g \<in> set (db_refunds s)" "oi_id i = sr_orderItemId x" "rf_id g = sr_refundId x"
      "oi_orderId i = rf_orderId g" using l unfolding returns_ok_def by auto
    obtain y where "y \<in> set ?is" "oi_id y = oi_id i" "oi_orderId y = oi_orderId i" using m[OF k(1)] by blast
    then show "\<exists>i \<in> set (db_items (s\<lparr>db_items := ?is\<rparr>)). \<exists>f \<in> set (db_refunds (s\<lparr>db_items := ?is\<rparr>)).
        oi_id i = sr_orderItemId x \<and> rf_id f = sr_refundId x \<and> oi_orderId i = rf_orderId f"
      using k by (intro bexI[of _ y] bexI[of _ g]) simp_all
  qed
qed

lemma updateOrderItem_ok:
  assumes "updateOrderItem b i it q s = Inr (v, t)" "db_ok s"
  shows "db_ok t"
  using assms(1)
proof (rule updateOrderItem_InrE, goal_cases)
  case (2 l r s1)
  let ?f = "\<lambda>x. x\<lparr>oi_quantity := q, oi_lineTotal := to_column 100 (round2 (fmul (fdiv (cents (oi_lineTotal l)) (of_int (oi_quantity l))) (of_int q)))\<rparr>"
  let ?s1 = "s\<lparr>db_items := upd_where (\<lambda>x. oi_id x = oi_id l) ?f (db_items s)\<rparr>"
  have t: "t = lineEvents ''order.item_changed'' i (recomputeTotals i ?s1)" using 2(6,7) by (simp add: updateLineWrite_Inr)
  have "linked ids t" if "linked ids s" for ids
  proof -
    have "linked ids ?s1" by (rule linked_upd_items[OF _ that]) simp
    then show ?thesis by (rule linked_same) (simp_all add: t frame lineEvents_def)
  qed
  moreover have "returns_ok t" if "returns_ok s"
  proof -
    have "returns_ok ?s1" by (rule returns_upd_items[OF _ that]) simp
    then show ?thesis by (rule returns_same) (simp_all add: t frame lineEvents_def)
  qed
  ultimately show ?case
    by (intro db_ok_tame[OF assms(2)])
       (auto simp: t frame lineEvents_def recomputeTotals_orders open_only[OF assms(2) 2(2,3)])
qed (use assms(2) in simp)

lemma removeOrderItem_db_ok:
  assumes "removeOrderItem b i it s = Inr (v, t)" "db_ok s"
  shows "db_ok t"
  using assms(1)
proof (rule removeOrderItem_InrE, goal_cases)
  case (1 l r s1)
  let ?d = "deleteLines (\<lambda>x. x = it) s"
  have t: "t = lineEvents ''order.item_removed'' i
      (recomputeTotals i (updKots (emptyKot i ?d) (\<lambda>k. k\<lparr>kt_status := CANCELLED\<rparr>) ?d))"
    using 1(6,7) by (simp add: removeLineWrite_Inr)
  have "linked ids t" if "linked ids s" for ids
  proof -
    have "linked ids (updKots (emptyKot i ?d) (\<lambda>k. k\<lparr>kt_status := CANCELLED\<rparr>) ?d)"
      by (rule linked_upd[OF linked_delete[OF that]]) (simp_all add: frame row_simps)
    then show ?thesis by (rule linked_same) (simp_all add: t frame lineEvents_def)
  qed
  moreover have "returns_ok t" if "returns_ok s"
    using returns_delete[OF that] by (rule returns_same) (simp_all add: t frame lineEvents_def)
  ultimately show ?case
    by (intro db_ok_tame[OF assms(2)])
       (auto simp: t frame lineEvents_def recomputeTotals_orders open_only[OF assms(2) 1(2,3)])
qed

lemma updateKotStatus_ok:
  assumes "updateKotStatus rt b i st u s = Inr (k', t)" "db_ok s"
  shows "db_ok t"
  using assms(1)
proof (rule updateKotStatus_InrE, goal_cases)
  case (2 k)
  note f = kotWrite_frame[OF 2(4)]
  have x: "db_kotItems t = upd_where (\<lambda>x. ki_kotId x = kt_id k) (\<lambda>x. x\<lparr>ki_status := st\<rparr>) (db_kotItems s)"
    using 2(4) by (auto simp: kotWrite_def Let_def frame split: if_splits option.splits)
  have "linked ids t" if "linked ids s" for ids
    using that by (rule linked_kitchen[OF _ _ _ x, where f = "stampKot rt st u"]) (use f in \<open>simp_all add: stampKot_def\<close>)
  then show ?case using f by (intro db_ok_tame[OF assms(2)]) (auto elim: returns_same)
qed (use assms(2) in simp)

lemma setKotPriority_ok:
  assumes "setKotPriority b i p s = Inr (k', t)" "db_ok s"
  shows "db_ok t"
proof -
  have t: "t = emit [KotUpdated i] (updKots (\<lambda>x. kt_id x = i) (\<lambda>x. x\<lparr>kt_isPriority := p\<rparr>) s)"
    using assms(1) by (auto simp: setKotPriority_Inr)
  have "linked ids t" if "linked ids s" for ids
    by (rule linked_upd[OF that]) (simp_all add: t frame row_simps)
  then show ?thesis by (intro db_ok_tame[OF assms(2)]) (auto simp: t frame elim: returns_same)
qed

lemma markRejected_linked: "linked ids s \<Longrightarrow> linked ids (markRejected rt u w k s)"
  unfolding markRejected_def by (rule linked_upd) (simp_all add: frame row_simps)

lemma rejectKot_ok:
  assumes "rejectKot rt b i u inp s = Inr (k', t)" "db_ok s"
  shows "db_ok t"
  using assms(1)
proof (rule rejectKot_InrE, goal_cases)
  case (2 k r)
  let ?m = "markRejected rt u (trim (rj_reason inp)) k s"
  have opn: "x \<in> set (db_orders s) \<Longrightarrow> od_id x = od_id r \<Longrightarrow> od_status x = OPEN" for x
    using keyed_unique[OF db_ok_keyed[OF assms(2)]] 2(2,3) by (metis find_SomeD)
  have m: "returns_ok ?m" "\<And>ids. linked ids s \<Longrightarrow> linked ids ?m" if "returns_ok s"
    using that by (auto simp: frame markRejected_linked elim: returns_same)
  from 2(6) show ?case
  proof (rule rejectWrite_InrE, goal_cases)
    case (1 s2 es)
    consider (all) "rejectWithdraw rt u (trim (rj_reason inp)) r ?m = Inr s2" | (none) "s2 = ?m"
      | (some) P where "s2 = recomputeTotals (od_id r) (deleteLines P ?m)"
      using 1(2) by (auto split: if_splits)
    then show ?case
    proof cases
      case all
      then show ?thesis
      proof (rule rejectWithdraw_Inr, goal_cases)
        case x: 1
        note f = releaseTable_frame[OF x(2)]
        have "linked ids t" if "linked ids s" for ids
        proof -
          have "linked ids s2"
            by (rule releaseTable_kitchen[OF x(2)], rule linked_same[OF markRejected_linked[OF that]]) (simp_all add: frame)
          then show ?thesis by (rule linked_same) (simp_all add: 1(1) frame)
        qed
        then show ?thesis using f 2(5)
          by (intro db_ok_tame[OF assms(2)]) (auto simp: 1(1) frame elim: returns_same)
      qed
    next
      case none
      have "linked ids t" if "linked ids s" for ids
        using markRejected_linked[OF that] by (rule linked_same) (simp_all add: 1(1) frame none)
      then show ?thesis by (intro db_ok_tame[OF assms(2)]) (auto simp: 1(1) frame none elim: returns_same)
    next
      case some
      have "linked ids t" if "linked ids s" for ids
        using linked_delete[OF markRejected_linked[OF that]] by (rule linked_same) (simp_all add: 1(1) frame some)
      moreover have "returns_ok t" if "returns_ok s"
        using returns_delete[OF m(1)[OF that]] by (rule returns_same) (simp_all add: 1(1) frame some)
      ultimately show ?thesis
        by (intro db_ok_tame[OF assms(2)]) (auto simp: 1(1) frame some recomputeTotals_orders opn)
    qed
  qed
qed (use assms(2) in simp)

text \<open>Merging: the lines and tickets of the source become those of the target.\<close>

lemma merged_linked:
  assumes "linked ids s" "x \<in> ids" "db_items t = upd_where (\<lambda>i. oi_orderId i = y) (\<lambda>i. i\<lparr>oi_orderId := x\<rparr>) (db_items s)"
    "db_kots t = upd_where (\<lambda>k. kt_orderId k = y) (\<lambda>k. k\<lparr>kt_orderId := x\<rparr>) (db_kots s)" "db_kotItems t = db_kotItems s"
  shows "linked ids t"
proof -
  let ?i = "\<lambda>i. if oi_orderId i = y then i\<lparr>oi_orderId := x\<rparr> else i"
  let ?k = "\<lambda>k. if kt_orderId k = y then k\<lparr>kt_orderId := x\<rparr> else k"
  have "\<exists>k \<in> set (db_kots t). \<exists>i \<in> set (db_items t). kt_id k = ki_kotId z \<and> oi_id i = ki_orderItemId z \<and> kt_orderId k = oi_orderId i"
    if z: "z \<in> set (db_kotItems t)" for z
  proof -
    obtain k i where "k \<in> set (db_kots s)" "i \<in> set (db_items s)" "kt_id k = ki_kotId z" "oi_id i = ki_orderItemId z"
      "kt_orderId k = oi_orderId i" using assms(1) z unfolding linked_def assms(5) by blast
    then show ?thesis by (intro bexI[of _ "?k k"] bexI[of _ "?i i"]) (auto simp: assms(3,4) upd_where_def)
  qed
  then show ?thesis using assms(1,2) unfolding linked_def by (auto simp: assms(3,4) set_upd_where)
qed

lemma mergeOrders_ok:
  assumes "mergeOrders rt b i j s = Inr (v, t)" "db_ok s"
  shows "db_ok t"
proof -
  from assms(1) obtain x y where rd: "mergeRead b i j s = Inr (x, y)" and w: "mergeWrite rt (x, y) s = Inr t"
    by (auto simp: mergeOrders_def ebind_Inr_iff)
  then have o: "i \<noteq> j" "findOrder b i s = Some x" "findOrder b j s = Some y" "od_status x = OPEN" "od_status y = OPEN"
    "paymentsOf j s = []" by (auto simp: mergeRead_Inr)
  have ids: "od_id x = i" "od_id y = j" using findOrder_row o by blast+
  note f = mergeWrite_frame[OF w]
  note mo = mergedState_orders[of x y s, unfolded ids]
  have opn: "r \<in> set (db_orders s) \<Longrightarrow> od_id r = i \<or> od_id r = j \<Longrightarrow> od_status r = OPEN" for r
    using open_only[OF assms(2) o(2,4)] open_only[OF assms(2) o(3,5)] by blast
  have "tame_change s (db_orders t)"
    using f opn o(6) by (auto simp: mo tame_change_def upd_where_def list_all2_map2 list_all2_same recomputeTotals_orders frame)
  moreover have "linked ids t" if "linked ids s" "i \<in> ids" for ids
    by (rule merged_linked[OF that, of _ j]) (use f in \<open>simp_all add: mergedState_def frame ids\<close>)
  moreover have "returns_ok t" if ret: "returns_ok s"
    unfolding returns_ok_def
  proof
    fix z :: stock_return
    assume "z \<in> set (db_stockReturns t)"
    then have "z \<in> set (db_stockReturns s)" using f by simp
    then obtain l g where l: "l \<in> set (db_items s)" "g \<in> set (db_refunds s)" "oi_id l = sr_orderItemId z"
      "rf_id g = sr_refundId z" "oi_orderId l = rf_orderId g" using ret unfolding returns_ok_def by blast
    obtain r where r: "r \<in> set (db_orders s)" "od_id r = rf_orderId g" "od_status r = PAID"
      using assms(2) l(2) unfolding db_ok_def paid_ok_def by blast
    then have "oi_orderId l \<noteq> j" using opn[OF r(1)] l(5) by auto
    then have "l \<in> set (db_items t)" using f l(1) by (simp add: mergedState_def frame ids set_upd_where)
    then show "\<exists>i \<in> set (db_items t). \<exists>f \<in> set (db_refunds t).
        oi_id i = sr_orderItemId z \<and> rf_id f = sr_refundId z \<and> oi_orderId i = rf_orderId f"
      using l f by (intro bexI[of _ l] bexI[of _ g]) simp_all
  qed
  ultimately show ?thesis using known_order[OF o(2)] f by (intro db_ok_tame[OF assms(2)]) auto
qed

text \<open>Paying: the new rows are of an open order, and at most one of them has a key, a new one.\<close>

lemma keysOf_append: "keysOf (ps @ qs) = keysOf ps @ keysOf qs"
  by (simp add: keysOf_def)

lemma keysOf_plain: "keysOf (map (paymentRow i u None) ps) = []"
  by (simp add: keysOf_def paymentRow_def filter_empty_conv)

lemma paymentRows_order: "p \<in> set (paymentRows i u d ps g) \<Longrightarrow> py_orderId p = i"
  by (auto simp: paymentRows_def paymentRow_def Let_def split: list.splits if_splits)

lemma paymentRows_keys: "length (keysOf (paymentRows i u d ps g)) \<le> 1"
proof -
  have "keysOf (paymentRow i u k q # qs) = (case k of None \<Rightarrow> [] | Some x \<Rightarrow> [(i, x)]) @ keysOf qs" for k q qs
    by (auto simp: keysOf_def paymentRow_def split: option.splits)
  then show ?thesis
    by (cases ps) (auto simp: paymentRows_def Let_def keysOf_plain keysOf_append keysOf_plain[of i u "[]", simplified]
        split: option.splits)
qed

lemma short_distinct: "length xs \<le> 1 \<Longrightarrow> distinct xs"
  by (cases xs) auto

lemma keys_apart:
  assumes "\<not> list_ex (\<lambda>a. list_ex (paymentClash a) ps) rows"
  shows "set (keysOf ps) \<inter> set (keysOf rows) = {}"
  using assms by (fastforce simp: keysOf_def list_ex_iff paymentClash_def)

lemma checkoutTx_clash:
  assumes "checkoutTx cfg rt br b u d p s = Inr (st, skips, t)"
  obtains n l gift where
    "0 < count_where (openRow (od_id (cp_order p))) (db_orders s)"
    "\<not> list_ex (\<lambda>a. list_ex (paymentClash a) (db_payments s)) (paymentRows (od_id (cp_order p)) u d (st_payments st) gift)"
    "db_orders t = upd_where (openRow (od_id (cp_order p)))
       (if st_fullyPaid st then paidRow rt d p n l else lockFigures d p n l) (db_orders s)"
    "db_payments t = db_payments s @ paymentRows (od_id (cp_order p)) u d (st_payments st) gift"
    "db_items t = db_items s" "db_kots t = db_kots s" "db_refunds t = db_refunds s" "db_stockReturns t = db_stockReturns s"
    "db_kotItems t = db_kotItems s"
    "settlePayments (cp_balance p) (co_payments d) (Some gift) (co_allowPartial d) = Inr st"
    "\<exists>s1 s2. giftStep b (od_id (cp_order p)) d (cp_balance p) s1 = Inr (gift, s2)"
  using assms
proof (rule checkoutTx_InrE, goal_cases)
  case (1 n l s1 gift s2)
  note f = redeemStep_frame[OF 1(2)] giftStep_frame[OF 1(3)]
  have g: "\<exists>s1 s2. giftStep b (od_id (cp_order p)) d (cp_balance p) s1 = Inr (gift, s2)" using 1(3) by blast
  show ?case
  proof (cases "st_fullyPaid st")
    case True
    then show ?thesis using f closeStep_frame[of cfg rt br b u d p n l _ s2 skips t] 1(4,5)
      by (intro 1(1)[of gift n l]) (simp_all add: g)
  next
    case False
    then show ?thesis using f 1(4,5)
      by (intro 1(1)[of gift n l]) (simp_all add: payOpenOrder_Inr frame g)
  qed
qed

lemma count_where_ex: "0 < count_where P rs \<longleftrightarrow> (\<exists>r \<in> set rs. P r)"
  by (auto simp: count_where_def filter_empty_conv)

lemma checkoutWrite_ok:
  assumes "checkoutWrite cfg rt b i u d p s = Inr (x, t)" "db_ok s"
  shows "db_ok t"
  using assms(1)
proof (cases rule: checkoutWrite_InrE)
  case (committed br st skips s1)
  note g = checkoutDone_frame[OF committed(3)]
  let ?i = "od_id (cp_order p)"
  from committed(2) show ?thesis
  proof (rule checkoutTx_clash, goal_cases)
    case (1 n l gift)
    let ?rows = "paymentRows ?i u d (st_payments st) gift"
    let ?f = "if st_fullyPaid st then paidRow rt d p n l else lockFigures d p n l"
    have sel: "od_id (?f r) = od_id r" "od_status r = OPEN \<Longrightarrow> od_status (?f r) \<noteq> ORDER_CANCELLED" for r by auto
    let ?m = "s\<lparr>db_orders := db_orders t\<rparr>"
    have m: "db_ok ?m"
      by (intro db_ok_tame[OF assms(2)]) (use sel in \<open>auto simp: g 1(3) openRow_def elim: linked_same returns_same\<close>)
    obtain r where "r \<in> set (db_orders s)" "openRow ?i r" using 1(1) by (auto simp: count_where_ex)
    then have "?f r \<in> set (db_orders t)" "od_id (?f r) = ?i" "od_status (?f r) \<noteq> ORDER_CANCELLED"
      using sel by (auto simp: g 1(3) set_upd_where openRow_def)
    then have "\<forall>q \<in> set ?rows. \<exists>r \<in> set (db_orders t). od_id r = py_orderId q \<and> od_status r \<noteq> ORDER_CANCELLED"
      by (intro ballI bexI[of _ "?f r"]) (auto dest: paymentRows_order)
    moreover have "distinct (keysOf (db_payments s @ ?rows))"
      using assms(2) keys_apart[OF 1(2)] short_distinct[OF paymentRows_keys]
      by (auto simp: keysOf_append db_ok_def paid_ok_def)
    ultimately have "paid_ok t" using m 1(4,7) g by (auto simp: db_ok_def paid_ok_def)
    moreover have "linked ids t" if "linked ids ?m" for ids using that by (rule linked_same) (simp_all add: g 1)
    moreover have "returns_ok t" if "returns_ok ?m" using that by (rule returns_same) (simp_all add: g 1)
    ultimately show ?thesis using m by (simp add: db_ok_def)
  qed
qed (use assms(2) in simp)

lemma checkout_ok: "checkout cfg rt b i u d cap s = Inr (x, t) \<Longrightarrow> db_ok s \<Longrightarrow> db_ok t"
  by (erule checkout_InrE) (auto intro: checkoutWrite_ok)

text \<open>Refunds: of a paid order, with the returned lines its own.\<close>

lemma returnItems_rows:
  assumes "foldE (returnItem items rid) rets (ls, s) = Inr (ls', t)"
  shows "\<forall>x \<in> set (db_stockReturns t). x \<in> set (db_stockReturns s) \<or>
    sr_refundId x = rid \<and> sr_orderItemId x \<in> oi_id ` set items"
  using assms
proof (induction rets arbitrary: ls s)
  case (Cons r rets)
  then obtain ls1 s1 where 1: "returnItem items rid r (ls, s) = Inr (ls1, s1)"
    and 2: "foldE (returnItem items rid) rets (ls1, s1) = Inr (ls', t)" by (auto simp: ebind_Inr_iff)
  from 1 obtain i where "find (\<lambda>i. oi_id i = ri_orderItemId r) items = Some i"
    "s1 = s\<lparr>db_stockReturns := db_stockReturns s @ [\<lparr>sr_orderItemId = oi_id i, sr_refundId = rid, sr_quantity = ri_quantity r\<rparr>]\<rparr>"
    by (auto simp: returnItem_def split: option.splits if_splits)
  moreover from find_SomeD[OF this(1)] have "ri_orderItemId r \<in> oi_id ` set items" "oi_id i = ri_orderItemId r"
    by (metis image_eqI, blast)
  ultimately show ?case using Cons.IH[OF 2] by auto
qed simp

lemma returnStep_rows:
  assumes "returnStep cfg b u i rid rets s = Inr t"
  shows "db_kotItems t = db_kotItems s \<and> (\<forall>x \<in> set (db_stockReturns t). x \<in> set (db_stockReturns s) \<or>
    sr_refundId x = rid \<and> sr_orderItemId x \<in> oi_id ` set (itemsOf i s))"
proof (cases "rets = []")
  case False
  with assms obtain ls s1 st where "foldE (returnItem (itemsOf i s) rid) rets ([], s) = Inr (ls, s1)" "t = s1\<lparr>db_stock := st\<rparr>"
    by (auto simp: returnStep_def ebind_Inr_iff)
  with returnItems_rows[of "itemsOf i s" rid rets "[]" s ls s1] returnItems_frame[of "itemsOf i s" rid rets "[]" s ls s1]
  show ?thesis by auto
qed (use assms in \<open>simp add: returnStep_def\<close>)

lemma creditWallet_kotItems: "creditWallet r d s = Inr t \<Longrightarrow> db_kotItems t = db_kotItems s"
  by (auto simp: creditWallet_def split: if_splits)

lemma refundTx_rows:
  assumes "refundTx cfg rt b u d r s = Inr (row, t)"
  shows "db_kotItems t = db_kotItems s \<and> (\<forall>x \<in> set (db_stockReturns t). x \<in> set (db_stockReturns s) \<or>
    sr_refundId x = rf_id row \<and> sr_orderItemId x \<in> oi_id ` set (itemsOf (od_id r) s))"
proof -
  let ?row = "\<lparr>rf_id = rt_ids rt (db_next s), rf_orderId = od_id r, rf_amount = to_column 100 (rd_refundAmount d),
    rf_method = rd_method d, rf_createdById = u\<rparr>"
  from assms obtain vf s4 where
    s4: "returnStep cfg b u (od_id r) (rt_ids rt (db_next s)) (rd_returnedItems d)
       (s\<lparr>db_refunds := db_refunds s @ [?row], db_next := Suc (Suc (db_next s)), db_fiscal := vf\<rparr>) = Inr s4"
    and t: "creditWallet r d s4 = Inr t" and row: "row = ?row"
    by (auto simp: refundTx_def freshId_def fiscalEnv_def ebind_Inr_iff Let_def split: if_splits)
  show ?thesis
    using returnStep_rows[OF s4] creditWallet_frame[OF t] creditWallet_kotItems[OF t]
    by (auto simp: row itemsOf_def)
qed

lemma refund_ok:
  assumes "refund cfg rt b i u d s = Inr (row, t)" "db_ok s"
  shows "db_ok t"
  using assms(1)
proof (rule refund_InrE, goal_cases)
  case (1 r s1)
  note f = refundTx_frame[OF 1(3)] and x = refundTx_rows[OF 1(3)]
  have r: "r \<in> set (db_orders s)" using findOrder_row[OF 1(1)] by blast
  have "linked ids t" if "linked ids s" for ids
    using that by (rule linked_same) (simp_all add: 1(4) frame f x)
  moreover have "paid_ok t" using assms(2) r 1(2) f by (auto simp: db_ok_def paid_ok_def 1(4) frame)
  moreover have "returns_ok t"
    unfolding returns_ok_def
  proof
    fix z :: stock_return
    assume "z \<in> set (db_stockReturns t)"
    then consider "z \<in> set (db_stockReturns s)" | "sr_refundId z = rf_id row" "sr_orderItemId z \<in> oi_id ` set (itemsOf (od_id r) s)"
      using x by (auto simp: 1(4) frame)
    then show "\<exists>i \<in> set (db_items t). \<exists>f \<in> set (db_refunds t).
        oi_id i = sr_orderItemId z \<and> rf_id f = sr_refundId z \<and> oi_orderId i = rf_orderId f"
    proof cases
      case old: 1
      then obtain l g where "l \<in> set (db_items s)" "g \<in> set (db_refunds s)" "oi_id l = sr_orderItemId z"
        "rf_id g = sr_refundId z" "oi_orderId l = rf_orderId g"
        using assms(2) unfolding db_ok_def returns_ok_def by blast
      then show ?thesis using f by (intro bexI[of _ l] bexI[of _ g]) (simp_all add: 1(4) frame)
    next
      case 2
      then show ?thesis using f by (auto simp: 1(4) frame itemsOf_def)
    qed
  qed
  ultimately show ?case using assms(2) f by (auto simp: db_ok_def 1(4) frame)
qed

text \<open>The scheduled orders that are sent, and the deletion of finished orders with all their rows.\<close>

lemma releaseAll_linked:
  assumes "linked ids s" "\<forall>(r, is) \<in> set ds. od_id r \<in> ids \<and> (\<forall>i \<in> set is. i \<in> set (db_items s) \<and> oi_orderId i = od_id r)"
  shows "linked ids (fold (releaseOne cfg rt) ds s)"
  using assms
proof (induction ds arbitrary: s)
  case (Cons d ds)
  obtain r "is" where d: "d = (r, is)" by (cases d)
  have "linked ids (generateKots cfg rt (od_id r) is s)" using Cons.prems d by (intro linked_generate) auto
  then have "linked ids (releaseOne cfg rt d s)" by (rule linked_same) (simp_all add: d releaseOne_def frame)
  moreover have "db_items (releaseOne cfg rt d s) = db_items s" by (simp add: d releaseOne_def frame)
  ultimately show ?case using Cons.prems(2) by (simp add: Cons.IH)
qed simp

lemma releaseDue_ok:
  assumes "releaseDueScheduledOrders cfg rt s = (n, t)" "db_ok s"
  shows "db_ok t"
proof -
  let ?ds = "map (\<lambda>r. (r, itemsOf (od_id r) s)) (dueOrders rt s)"
  have t: "t = fold (releaseOne cfg rt) ?ds s"
    using assms(1) by (simp add: releaseDueScheduledOrders_def Let_def)
  note f = releaseAll_frame[of cfg rt ?ds s, folded t]
  have "linked (od_id ` set (db_orders s)) t" if "linked (od_id ` set (db_orders s)) s"
    unfolding t using that by (rule releaseAll_linked) (auto simp: dueOrders_def itemsOf_def)
  then show ?thesis using f by (intro db_ok_tame[OF assms(2)]) (auto elim: returns_same)
qed

lemma keysOf_filter: "distinct (keysOf ps) \<Longrightarrow> distinct (keysOf (filter P ps))"
  using distinct_map_filter[of "\<lambda>p. (py_orderId p, the (py_clientRequestId p))" "filter (\<lambda>p. py_clientRequestId p \<noteq> None) ps" P]
  by (simp add: keysOf_def conj_commute)

definition gone :: "db \<Rightarrow> string list \<Rightarrow> string \<Rightarrow> string \<Rightarrow> bool" where
  "gone s ids b i \<longleftrightarrow> (\<exists>r \<in> set (db_orders s). od_id r = i \<and> od_id r \<in> set ids \<and> od_branchId r = b)"

lemma deleted_rows:
  "db_items (deleteOrders ids b s) = filter (\<lambda>i. \<not> gone s ids b (oi_orderId i)) (db_items s)"
  "db_kots (deleteOrders ids b s) = filter (\<lambda>k. \<not> gone s ids b (kt_orderId k)) (db_kots s)"
  "db_payments (deleteOrders ids b s) = filter (\<lambda>p. \<not> gone s ids b (py_orderId p)) (db_payments s)"
  "db_refunds (deleteOrders ids b s) = filter (\<lambda>p. \<not> gone s ids b (rf_orderId p)) (db_refunds s)"
  by (simp_all add: deleteOrders_def Let_def del_where_def list_ex_iff gone_def)

lemma deleted_links:
  "z \<in> set (db_kotItems (deleteOrders ids b s)) \<longleftrightarrow> z \<in> set (db_kotItems s) \<and>
     \<not> (\<exists>k \<in> set (db_kots s). kt_id k = ki_kotId z \<and> gone s ids b (kt_orderId k)) \<and>
     \<not> (\<exists>i \<in> set (db_items s). oi_id i = ki_orderItemId z \<and> gone s ids b (oi_orderId i))"
  "w \<in> set (db_stockReturns (deleteOrders ids b s)) \<longleftrightarrow> w \<in> set (db_stockReturns s) \<and>
     \<not> (\<exists>i \<in> set (db_items s). oi_id i = sr_orderItemId w \<and> gone s ids b (oi_orderId i)) \<and>
     \<not> (\<exists>f \<in> set (db_refunds s). rf_id f = sr_refundId w \<and> gone s ids b (rf_orderId f))"
  by (auto simp: deleteOrders_def Let_def del_where_def list_ex_iff gone_def)

lemma not_gone: "r \<in> set (db_orders s) \<Longrightarrow> od_id r = i \<Longrightarrow> \<not> gone s ids b i \<Longrightarrow> r \<in> set (db_orders (deleteOrders ids b s))"
  by (auto simp: frame del_where_def gone_def)

lemma delete_linked:
  assumes "db_ok s"
  shows "linked (od_id ` set (db_orders (deleteOrders ids b s))) (deleteOrders ids b s)"
  unfolding linked_def
proof (intro conjI ballI)
  fix z assume "z \<in> set (db_kotItems (deleteOrders ids b s))"
  then have z: "z \<in> set (db_kotItems s)" "\<forall>k \<in> set (db_kots s). kt_id k = ki_kotId z \<longrightarrow> \<not> gone s ids b (kt_orderId k)"
    unfolding deleted_links by blast+
  then obtain k i where k: "k \<in> set (db_kots s)" "i \<in> set (db_items s)" "kt_id k = ki_kotId z" "oi_id i = ki_orderItemId z"
    "kt_orderId k = oi_orderId i" using assms unfolding db_ok_def linked_def by blast
  then have "\<not> gone s ids b (kt_orderId k)" using z(2) by blast
  then have "k \<in> set (db_kots (deleteOrders ids b s))" "i \<in> set (db_items (deleteOrders ids b s))" using k by (auto simp: deleted_rows)
  then show "\<exists>k \<in> set (db_kots (deleteOrders ids b s)). \<exists>i \<in> set (db_items (deleteOrders ids b s)). kt_id k = ki_kotId z \<and> oi_id i = ki_orderItemId z \<and>
    kt_orderId k = oi_orderId i" using k by blast
next
  fix i assume "i \<in> set (db_items (deleteOrders ids b s))"
  then have "i \<in> set (db_items s)" "\<not> gone s ids b (oi_orderId i)" by (auto simp: deleted_rows)
  moreover from this(1) obtain r where "r \<in> set (db_orders s)" "od_id r = oi_orderId i"
    using assms unfolding db_ok_def linked_def by fastforce
  ultimately show "oi_orderId i \<in> od_id ` set (db_orders (deleteOrders ids b s))" using not_gone by (metis image_eqI)
next
  fix k assume "k \<in> set (db_kots (deleteOrders ids b s))"
  then have "k \<in> set (db_kots s)" "\<not> gone s ids b (kt_orderId k)" by (auto simp: deleted_rows)
  moreover from this(1) obtain r where "r \<in> set (db_orders s)" "od_id r = kt_orderId k"
    using assms unfolding db_ok_def linked_def by fastforce
  ultimately show "kt_orderId k \<in> od_id ` set (db_orders (deleteOrders ids b s))" using not_gone by (metis image_eqI)
qed

lemma delete_paid:
  assumes "db_ok s"
  shows "paid_ok (deleteOrders ids b s)"
  unfolding paid_ok_def
proof (intro conjI ballI)
  show "distinct (keysOf (db_payments (deleteOrders ids b s)))" using assms by (simp add: deleted_rows keysOf_filter db_ok_def paid_ok_def)
next
  fix p assume "p \<in> set (db_payments (deleteOrders ids b s))"
  then have p: "p \<in> set (db_payments s)" "\<not> gone s ids b (py_orderId p)" by (auto simp: deleted_rows)
  then obtain r where "r \<in> set (db_orders s)" "od_id r = py_orderId p" "od_status r \<noteq> ORDER_CANCELLED"
    using assms unfolding db_ok_def paid_ok_def by blast
  then show "\<exists>r \<in> set (db_orders (deleteOrders ids b s)). od_id r = py_orderId p \<and> od_status r \<noteq> ORDER_CANCELLED"
    using not_gone[OF _ _ p(2)] by blast
next
  fix p assume "p \<in> set (db_refunds (deleteOrders ids b s))"
  then have p: "p \<in> set (db_refunds s)" "\<not> gone s ids b (rf_orderId p)" by (auto simp: deleted_rows)
  then obtain r where "r \<in> set (db_orders s)" "od_id r = rf_orderId p" "od_status r = PAID"
    using assms unfolding db_ok_def paid_ok_def by blast
  then show "\<exists>r \<in> set (db_orders (deleteOrders ids b s)). od_id r = rf_orderId p \<and> od_status r = PAID"
    using not_gone[OF _ _ p(2)] by blast
qed

lemma delete_returns:
  assumes "db_ok s"
  shows "returns_ok (deleteOrders ids b s)"
  unfolding returns_ok_def
proof
  fix z assume "z \<in> set (db_stockReturns (deleteOrders ids b s))"
  then have z: "z \<in> set (db_stockReturns s)" "\<forall>i \<in> set (db_items s). oi_id i = sr_orderItemId z \<longrightarrow> \<not> gone s ids b (oi_orderId i)"
    unfolding deleted_links by blast+
  then obtain i f where k: "i \<in> set (db_items s)" "f \<in> set (db_refunds s)" "oi_id i = sr_orderItemId z" "rf_id f = sr_refundId z"
    "oi_orderId i = rf_orderId f" using assms unfolding db_ok_def returns_ok_def by blast
  then have "\<not> gone s ids b (oi_orderId i)" using z(2) by blast
  then have "i \<in> set (db_items (deleteOrders ids b s))" "f \<in> set (db_refunds (deleteOrders ids b s))" using k by (auto simp: deleted_rows)
  then show "\<exists>i \<in> set (db_items (deleteOrders ids b s)). \<exists>f \<in> set (db_refunds (deleteOrders ids b s)). oi_id i = sr_orderItemId z \<and> rf_id f = sr_refundId z \<and>
    oi_orderId i = rf_orderId f" using k by blast
qed

lemma delete_ok:
  assumes "deleteFinishedOrders b role ok ids s = Inr (n, t)" "db_ok s"
  shows "db_ok t"
  using assms(1)
proof (rule deleteFinishedOrders_InrE, goal_cases)
  case 1
  let ?a = "s\<lparr>db_audit := db_audit s @ map (\<lambda>r. (''order.deleted'', od_id r))
     (filter (\<lambda>r. od_id r \<in> set ids \<and> od_branchId r = b) (db_orders s))\<rparr>"
  have a: "db_ok ?a" using assms(2) by (simp add: db_ok_def linked_def paid_ok_def returns_ok_def)
  have "keyed od_id (db_orders (deleteOrders (uniq ids) b ?a))"
    unfolding deleteOrders_frame(1) by (rule keyed_del_where) (rule db_ok_keyed[OF a])
  then have "db_ok (deleteOrders (uniq ids) b ?a)"
    unfolding db_ok_def by (intro conjI delete_linked[OF a] delete_paid[OF a] delete_returns[OF a])
  then show ?case
    by (simp add: 1(5) fold_audit db_ok_def linked_def paid_ok_def returns_ok_def frame)
qed

section \<open>Any run\<close>

lemma step_ok: "order_step cfg s t \<Longrightarrow> db_ok s \<Longrightarrow> db_ok t"
  by (erule order_stepE)
     (blast intro: createOrder_ok addItems_ok acceptOrder_ok withdrawOrder_ok delete_ok updateOrder_ok updateOrderItem_ok
       removeOrderItem_db_ok mergeOrders_ok updateKotStatus_ok setKotPriority_ok rejectKot_ok checkout_ok refund_ok releaseDue_ok)+

lemma run_ok: "(order_step cfg)\<^sup>*\<^sup>* s t \<Longrightarrow> db_ok s \<Longrightarrow> db_ok t"
  by (induction rule: rtranclp_induct) (auto intro: step_ok)


lemma sample_ok: "db_ok sample_db"
  unfolding db_ok_def linked_def paid_ok_def returns_ok_def keysOf_def keyed_def by code_simp


section \<open>Payments stay\<close>

lemma createOrder_payments:
  assumes "createOrder cfg rt b u d opts s = Inr (v, t)"
  shows "db_payments t = db_payments s"
  using assms
proof (rule createOrder_InrE)
  fix lines delivery and r :: order and s1
  assume tx: "createOrderTx cfg rt r lines (op_historical opts \<noteq> None) (s\<lparr>db_next := db_next s + 1\<rparr>) = Inr s1"
    and t: "t = (if op_historical opts \<noteq> None then s1 else emit [OrderCreated (od_id r) (acceptanceFor cfg b opts)] s1)"
  from tx show ?thesis
    by (rule createOrderTx_InrE) (auto simp: t frame dest!: occupyTable_frame)
qed

lemma acceptOrder_payments: "acceptOrder cfg rt b i u s = Inr (v, t) \<Longrightarrow> db_payments t = db_payments s"
  by (erule acceptOrder_InrE) (auto simp: acceptWrite_def Let_def frame split: if_splits)

lemma withdrawOrder_payments: "withdrawOrder rt b i u opts s = Inr (v, t) \<Longrightarrow> db_payments t = db_payments s"
  by (erule withdrawOrder_InrE, erule withdrawWrite_InrE)
     (auto simp: frame emitOrderWithdrawn_def dest!: releaseTable_frame)

lemma rejectKot_payments:
  assumes "rejectKot rt b i u inp s = Inr (k', t)"
  shows "db_payments t = db_payments s"
  using assms
proof (rule rejectKot_InrE, goal_cases)
  case (2 k r)
  from 2(6) show ?case
    by (rule rejectWrite_InrE)
       (auto simp: frame split: if_splits elim!: rejectWithdraw_Inr dest!: releaseTable_frame)
qed simp

lemma checkoutWrite_payments:
  assumes "checkoutWrite cfg rt b i u d p s = Inr (x, t)"
  shows "\<exists>new. db_payments t = db_payments s @ new"
  using assms
proof (cases rule: checkoutWrite_InrE)
  case (committed br st skips s1)
  from committed(2) show ?thesis
    by (rule checkoutTx_clash) (use checkoutDone_frame[OF committed(3)] in auto)
qed simp

text \<open>No handler takes a payment away, but for the deletion of its order, which leaves an event.\<close>

definition goneOrder :: "db \<Rightarrow> string \<Rightarrow> bool" where
  "goneOrder s i \<longleftrightarrow> (\<exists>ids. OrderDeleted ids \<in> set (db_events s) \<and> i \<in> set ids)"

lemma payment_stays:
  assumes "order_step cfg s t" "q \<in> set (db_payments s)"
  shows "q \<in> set (db_payments t) \<or> goneOrder t (py_orderId q)"
  using assms(1)
proof cases
  case (delete b role ok ids n)
  then show ?thesis
  proof (rule deleteFinishedOrders_InrE, goal_cases)
    case 1
    show ?case using assms(2)
      by (auto simp: 1(5) frame fold_audit deleted_rows gone_def goneOrder_def)
  qed
next
  case (pay rt b i u co cap y)
  then show ?thesis using assms(2) by (auto elim!: checkout_InrE dest!: checkoutWrite_payments)
next
  case (release rt n)
  then show ?thesis using assms(2) releaseAll_frame[of cfg rt "map (\<lambda>r. (r, itemsOf (od_id r) s)) (dueOrders rt s)" s]
    by (auto simp: releaseDueScheduledOrders_def Let_def)
next
  case (give_back rt b i u rd z)
  then show ?thesis using assms(2) by (auto elim!: refund_InrE simp: frame dest!: refundTx_frame)
next
  case (edit rt b i ud v)
  then show ?thesis using assms(2) by (auto elim!: updateOrder_InrE dest!: updateOrderWrite_frame)
next
  case (merge rt b i j v)
  then show ?thesis using assms(2) by (auto simp: mergeOrders_def ebind_Inr_iff dest!: mergeWrite_frame)
next
  case (move_ticket rt b k st w x)
  then show ?thesis using assms(2) by (auto elim!: updateKotStatus_InrE dest!: kotWrite_frame)
next
  case (lower b i it q v)
  then show ?thesis using assms(2) by (auto elim!: updateOrderItem_InrE simp: updateLineWrite_Inr lineEvents_def frame)
next
  case (remove b i it v)
  then show ?thesis using assms(2) by (auto elim!: removeOrderItem_InrE simp: removeLineWrite_Inr lineEvents_def frame)
next
  case (add rt b i items ao v)
  then show ?thesis using assms(2) by (auto elim!: addItems_InrE simp: frame)
qed (use assms(2) in \<open>auto simp: setKotPriority_Inr frame dest!: createOrder_payments acceptOrder_payments withdrawOrder_payments
  rejectKot_payments\<close>)

end
