(* ===== verification/Online_Payments.thy ===== *)
theory Online_Payments
  imports Gateways Order_Integrity
begin

text \<open>
  Payments taken through a gateway (\<open>payment-gateways/gateway-payments.service.ts\<close>): the link made for a
  bill, its confirmation with the provider, webhooks, and refunds sent back. Every handler is written as the
  database statements it makes between the calls to the provider, so that they can be interleaved; the
  handler is the one after the other. Notes, log lines and the listings are left out.
\<close>

section \<open>Rows\<close>

datatype gp_status = GP_CREATED | GP_SUCCEEDED | GP_FAILED | GP_EXPIRED | GP_NEEDS_REVIEW

record gateway_payment =
  gp_id :: string
  gp_restaurantId :: string
  gp_branchId :: string
  gp_orderId :: string
  gp_provider :: string
  gp_mode :: gw_mode
  gp_amountMinor :: int
  gp_currency :: string
  gp_status :: gp_status
  gp_providerRef :: "string option"
  gp_providerPaymentId :: "string option"
  gp_checkoutUrl :: "string option"
  gp_createdById :: string
  gp_appliedAt :: "int option"
  gp_createdAt :: int

datatype gr_status = GR_PENDING | GR_SUCCEEDED | GR_FAILED | GR_NEEDS_REVIEW

record gateway_refund =
  gr_id :: string
  gr_restaurantId :: string
  gr_gatewayPaymentId :: string
  gr_orderId :: string
  gr_amountMinor :: int
  gr_currency :: string
  gr_status :: gr_status
  gr_providerRefundId :: "string option"
  gr_refundId :: "string option"

text \<open>The settings of the restaurants, which no payment changes, and the state: the orders, the payments and
  refunds, the webhook events acted on, and the times of the last look at a payment (in memory).\<close>

record gateway_config =
  gx_orders :: config
  gx_restaurantOf :: "(string \<times> string) list"
  gx_currencies :: "(string \<times> string) list"
  gx_entries :: "catalog_entry list"
  gx_box :: secret_box

record gateway_state =
  gw_orders :: db
  gw_connections :: "connection list"
  gw_payments :: "gateway_payment list"
  gw_refunds :: "gateway_refund list"
  gw_events :: "(string \<times> gw_mode \<times> string) list"
  gw_lastFetch :: "(string \<times> int) list"

definition findPayment :: "string \<Rightarrow> gateway_state \<Rightarrow> gateway_payment option" where
  "findPayment i s = find (\<lambda>p. gp_id p = i) (gw_payments s)"

definition updPayment :: "string \<Rightarrow> (gateway_payment \<Rightarrow> gateway_payment) \<Rightarrow> gateway_state \<Rightarrow> gateway_state" where
  "updPayment i f s = s\<lparr>gw_payments := upd_where (\<lambda>p. gp_id p = i) f (gw_payments s)\<rparr>"

definition updRefund :: "string \<Rightarrow> (gateway_refund \<Rightarrow> gateway_refund) \<Rightarrow> gateway_state \<Rightarrow> gateway_state" where
  "updRefund i f s = s\<lparr>gw_refunds := upd_where (\<lambda>r. gr_id r = i) f (gw_refunds s)\<rparr>"

section \<open>Making a link\<close>

definition REUSE_WINDOW_MS :: int where "REUSE_WINDOW_MS = 30 * 60000"
definition MIN_REFRESH_GAP_MS :: int where "MIN_REFRESH_GAP_MS = 2000"

definition noAdjust :: bill_adjust where
  "noAdjust = \<lparr>ba_discountPercent = None, ba_discountFlat = None, ba_tipAmount = None, ba_loyaltyPointsToRedeem = None,
     ba_couponCode = None\<rparr>"

record link_input =
  li_customerPhone :: "string option"
  li_customerName :: "string option"

text \<open>The checks, the amount of the bill, and an open link for the same bill when there is one.\<close>

definition reusable :: "runtime \<Rightarrow> string \<Rightarrow> connection \<Rightarrow> int \<Rightarrow> string \<Rightarrow> gateway_payment \<Rightarrow> bool" where
  "reusable rt orderId c minor currency p \<longleftrightarrow> gp_orderId p = orderId \<and> gp_provider p = cn_provider c \<and> gp_mode p = cn_mode c \<and>
     gp_status p = GP_CREATED \<and> gp_amountMinor p = minor \<and> gp_currency p = currency \<and> gp_checkoutUrl p \<noteq> None \<and>
     rt_now rt - REUSE_WINDOW_MS < gp_createdAt p"

definition latest :: "gateway_payment list \<Rightarrow> gateway_payment option" where
  "latest ps = fold (\<lambda>p best. case best of None \<Rightarrow> Some p | Some b \<Rightarrow> if gp_createdAt b < gp_createdAt p then Some p else Some b) ps None"

record link_plan =
  lp_connection :: connection
  lp_adapter :: adapter
  lp_amountMinor :: int
  lp_currency :: string

definition linkRead ::
  "gateway_config \<Rightarrow> runtime \<Rightarrow> string \<Rightarrow> string \<Rightarrow> string \<Rightarrow> link_input \<Rightarrow> gateway_state \<Rightarrow> (gateway_payment + link_plan) res" where
  "linkRead gx rt restaurantId branchId orderId inp s =
     (if map_of (gx_restaurantOf gx) branchId \<noteq> Some restaurantId then Inl (NotFound ''Branch not found'')
      else ebind (activeGateway (gx_entries gx) restaurantId (gw_connections s)) (\<lambda>active.
      case active of
        None \<Rightarrow> Inl (BadRequest ''No online payment gateway is switched on. Set one up in Settings - Payment gateways.'')
      | Some (c, a) \<Rightarrow>
          if \<not> complete a (keysIn (cn_mode c) c) then Inl (BadRequest ''The credentials are incomplete'')
          else case findOrder branchId orderId (gw_orders s) of
            None \<Rightarrow> Inl (NotFound ''Order not found'')
          | Some r \<Rightarrow>
              if od_status r \<noteq> OPEN then Inl (BadRequest ''Order is not open for payment'')
              else if od_acceptance r = PENDING then Inl (Conflict ''Accept this order before taking payment'')
              else ebind (previewBill (gx_orders gx) rt branchId orderId noAdjust (gw_orders s)) (\<lambda>bill.
                if \<not> 0 < bp_balanceDue bill then Inl (BadRequest ''Nothing is due on this order'')
                else case map_of (gx_currencies gx) restaurantId of
                  None \<Rightarrow> Inl RecordMissing
                | Some cur \<Rightarrow>
                    let currency = to_upper cur; minor = toMinor (bp_balanceDue bill) currency in
                    if minor \<le> 0 then Inl (BadRequest ''Nothing is due on this order'')
                    else if ad_requiresCustomerPhone a \<and> \<not> present (li_customerPhone inp)
                    then Inl (BadRequest (ad_name a @ '' needs the customer phone number''))
                    else case latest (filter (reusable rt orderId c minor currency) (gw_payments s)) of
                      Some p \<Rightarrow> Inr (Inl p)
                    | None \<Rightarrow> Inr (Inr \<lparr>lp_connection = c, lp_adapter = a, lp_amountMinor = minor, lp_currency = currency\<rparr>))))"

text \<open>The row, before the provider is asked.\<close>

definition linkRow :: "runtime \<Rightarrow> string \<Rightarrow> string \<Rightarrow> string \<Rightarrow> string \<Rightarrow> link_plan \<Rightarrow> gateway_state \<Rightarrow> (gateway_payment \<times> gateway_state) res" where
  "linkRow rt restaurantId branchId orderId userId lp s =
     (let (i, os) = freshId rt (gw_orders s);
          p = \<lparr>gp_id = i, gp_restaurantId = restaurantId, gp_branchId = branchId, gp_orderId = orderId,
               gp_provider = cn_provider (lp_connection lp), gp_mode = cn_mode (lp_connection lp),
               gp_amountMinor = lp_amountMinor lp, gp_currency = lp_currency lp, gp_status = GP_CREATED,
               gp_providerRef = None, gp_providerPaymentId = None, gp_checkoutUrl = None, gp_createdById = userId,
               gp_appliedAt = None, gp_createdAt = rt_now rt\<rparr>
      in if findPayment i s \<noteq> None then Inl UniqueViolation
         else Inr (p, s\<lparr>gw_orders := os, gw_payments := gw_payments s @ [p]\<rparr>))"

text \<open>What the provider answered: the link, or the row is marked failed.\<close>

definition linkDone :: "string \<Rightarrow> (gateway_error + string \<times> string) \<Rightarrow> gateway_state \<Rightarrow> (exn + unit) \<times> gateway_state" where
  "linkDone i answer s =
     (case answer of
        Inr (ref, url) \<Rightarrow> (Inr (), updPayment i (\<lambda>p. p\<lparr>gp_providerRef := Some ref, gp_checkoutUrl := Some url\<rparr>) s)
      | Inl e \<Rightarrow> (Inl (BadRequest (case e of GatewayError m _ \<Rightarrow> m | OtherError \<Rightarrow> ''Could not create the payment link'')),
                  updPayment i (\<lambda>p. p\<lparr>gp_status := GP_FAILED\<rparr>) s))"

definition createLink ::
  "gateway_config \<Rightarrow> runtime \<Rightarrow> (credentials \<Rightarrow> create_input \<Rightarrow> gateway_error + string option \<times> string option)
   \<Rightarrow> string \<Rightarrow> string \<Rightarrow> string \<Rightarrow> string \<Rightarrow> link_input \<Rightarrow> gateway_state \<Rightarrow> (exn + gateway_payment option) \<times> gateway_state" where
  "createLink gx rt provider restaurantId branchId orderId userId inp s =
     (case linkRead gx rt restaurantId branchId orderId inp s of
        Inl e \<Rightarrow> (Inl e, s)
      | Inr (Inl p) \<Rightarrow> (Inr (Some p), s)
      | Inr (Inr lp) \<Rightarrow>
          (case linkRow rt restaurantId branchId orderId userId lp s of
             Inl e \<Rightarrow> (Inl e, s)
           | Inr (p, s1) \<Rightarrow>
               let req = \<lparr>cq_amountMinor = gp_amountMinor p, cq_currency = gp_currency p, cq_reference = gp_id p,
                          cq_customerPhone = li_customerPhone inp\<rparr>;
                   answer = (case credentialsOf (gx_box gx) restaurantId (lp_connection lp) (gp_mode p) of
                       Inl _ \<Rightarrow> Inl OtherError | Inr cs \<Rightarrow> createdLink (lp_adapter lp) req (provider cs req));
                   (result, s2) = linkDone (gp_id p) answer s1
               in (ebind result (\<lambda>_. Inr (findPayment (gp_id p) s2)), s2)))"

section \<open>Confirming with the provider\<close>

definition setFetch :: "string \<Rightarrow> int \<Rightarrow> (string \<times> int) list \<Rightarrow> (string \<times> int) list" where
  "setFetch i now m =
     (let m1 = (if i \<in> fst ` set m then map (\<lambda>(k, v). if k = i then (k, now) else (k, v)) m else m @ [(i, now)])
      in if 5000 < length m1 then [] else m1)"

text \<open>The row, and whether the provider is to be asked about it now.\<close>

definition refreshRead ::
  "runtime \<Rightarrow> string \<Rightarrow> (string \<times> string option) option \<Rightarrow> gateway_state \<Rightarrow> (gateway_payment \<times> bool \<times> gateway_state) res" where
  "refreshRead rt i scope s =
     (case find (\<lambda>p. gp_id p = i \<and> (case scope of None \<Rightarrow> True
          | Some (rid, b) \<Rightarrow> gp_restaurantId p = rid \<and> (present b \<longrightarrow> Some (gp_branchId p) = b))) (gw_payments s) of
        None \<Rightarrow> Inl (NotFound ''Payment not found'')
      | Some p \<Rightarrow>
          if \<not> present (gp_providerRef p) \<or> gp_status p \<notin> {GP_CREATED, GP_NEEDS_REVIEW} then Inr (p, False, s)
          else if rt_now rt - (case map_of (gw_lastFetch s) i of None \<Rightarrow> 0 | Some t \<Rightarrow> t) < MIN_REFRESH_GAP_MS
          then Inr (p, False, s)
          else Inr (p, True, s\<lparr>gw_lastFetch := setFetch i (rt_now rt) (gw_lastFetch s)\<rparr>))"

text \<open>Whom to ask: no connection, no adapter, unreadable credentials or no answer leave the payment as it is.\<close>

definition remoteOf ::
  "gateway_config \<Rightarrow> (adapter \<Rightarrow> credentials \<Rightarrow> string \<Rightarrow> gateway_error + status_answer) \<Rightarrow> gateway_payment \<Rightarrow> gateway_state
   \<Rightarrow> remote_status option" where
  "remoteOf gx provider p s =
     (case (find (ofProvider (gp_restaurantId p) (gp_provider p)) (gw_connections s),
            case providerRow (gp_restaurantId p) (gp_provider p) (gx_entries gx) of None \<Rightarrow> None | Some e \<Rightarrow> getAdapter (ce_adapter e)) of
        (Some c, Some a) \<Rightarrow>
          (case credentialsOf (gx_box gx) (gp_restaurantId p) c (gp_mode p) of
             Inl _ \<Rightarrow> None
           | Inr cs \<Rightarrow> (case provider a cs (the (gp_providerRef p)) of Inl _ \<Rightarrow> None | Inr x \<Rightarrow> Some (statusOf x)))
      | _ \<Rightarrow> None)"

definition mismatch :: "gateway_payment \<Rightarrow> remote_status \<Rightarrow> bool" where
  "mismatch p r \<longleftrightarrow> rm_currency r \<noteq> gp_currency p \<or> rm_paidMinor r \<noteq> gp_amountMinor p \<or>
     (rm_reference r \<noteq> None \<and> rm_reference r \<noteq> Some (gp_id p))"

text \<open>The claim: only one caller sets \<open>appliedAt\<close>.\<close>

definition claimable :: "string \<Rightarrow> gateway_payment \<Rightarrow> bool" where
  "claimable i p \<longleftrightarrow> gp_id p = i \<and> gp_appliedAt p = None \<and> gp_status p \<in> {GP_CREATED, GP_NEEDS_REVIEW}"

definition claimPayment :: "runtime \<Rightarrow> string \<Rightarrow> string option \<Rightarrow> gateway_state \<Rightarrow> (bool \<times> gateway_state)" where
  "claimPayment rt i pid s =
     (if count_where (claimable i) (gw_payments s) = 0 then (False, s)
      else (True, s\<lparr>gw_payments := upd_where (claimable i)
              (\<lambda>p. p\<lparr>gp_appliedAt := Some (rt_now rt), gp_providerPaymentId := pid\<rparr>) (gw_payments s)\<rparr>))"

text \<open>What is done with the provider's answer on the row read before; whether the order is to be settled.\<close>

definition refreshAct :: "runtime \<Rightarrow> gateway_payment \<Rightarrow> remote_status \<Rightarrow> gateway_state \<Rightarrow> bool \<times> gateway_state" where
  "refreshAct rt p r s =
     (if rm_state r = REMOTE_EXPIRED then (False, updPayment (gp_id p) (\<lambda>x. x\<lparr>gp_status := GP_EXPIRED\<rparr>) s)
      else if rm_state r \<noteq> REMOTE_PAID then (False, s)
      else if mismatch p r
      then (False, updPayment (gp_id p) (\<lambda>x. x\<lparr>gp_status := GP_NEEDS_REVIEW,
              gp_providerPaymentId := (case rm_providerPaymentId r of None \<Rightarrow> gp_providerPaymentId p | Some y \<Rightarrow> Some y)\<rparr>) s)
      else if gp_mode p = GW_TEST
      then (False, updPayment (gp_id p) (\<lambda>x. x\<lparr>gp_status := GP_SUCCEEDED, gp_providerPaymentId := rm_providerPaymentId r\<rparr>) s)
      else claimPayment rt (gp_id p) (rm_providerPaymentId r) s)"

text \<open>The payment as a request to the till: the amount taken, with the payment's identifier as its key.\<close>

definition bookingOf :: "gateway_payment \<Rightarrow> string option \<Rightarrow> checkout_dto" where
  "bookingOf p pid = \<lparr>co_adj = noAdjust, co_discountReason = None, co_customerId = None, co_giftCardCode = None,
     co_payments = [\<lparr>pl_method = OTHER, pl_amount = fromMinor (gp_amountMinor p) (gp_currency p), pl_tendered = None,
       pl_reference = Some (take 120 (gp_provider p @ '':'' @
         (case pid of Some x \<Rightarrow> x | None \<Rightarrow> (case gp_providerRef p of Some x \<Rightarrow> x | None \<Rightarrow> ''null''))))\<rparr>],
     co_allowPartial = True, co_requestId = Some (gp_id p)\<rparr>"

text \<open>The end: settled, or the claim is released and the payment flagged.\<close>

definition bookedMark :: "string \<Rightarrow> bool \<Rightarrow> gateway_state \<Rightarrow> gateway_state" where
  "bookedMark i ok s = updPayment i
     (\<lambda>p. if ok then p\<lparr>gp_status := GP_SUCCEEDED\<rparr> else p\<lparr>gp_status := GP_NEEDS_REVIEW, gp_appliedAt := None\<rparr>) s"

definition settleOrder :: "gateway_config \<Rightarrow> runtime \<Rightarrow> gateway_payment \<Rightarrow> string option \<Rightarrow> gateway_state \<Rightarrow> gateway_state" where
  "settleOrder gx rt p pid s =
     (case checkout (gx_orders gx) rt (gp_branchId p) (gp_orderId p) (gp_createdById p) (bookingOf p pid) False (gw_orders s) of
        Inr (v, os) \<Rightarrow> bookedMark (gp_id p) True (s\<lparr>gw_orders := os\<rparr>)
      | Inl e \<Rightarrow> bookedMark (gp_id p) False s)"

definition refresh ::
  "gateway_config \<Rightarrow> runtime \<Rightarrow> (adapter \<Rightarrow> credentials \<Rightarrow> string \<Rightarrow> gateway_error + status_answer)
   \<Rightarrow> string \<Rightarrow> (string \<times> string option) option \<Rightarrow> gateway_state \<Rightarrow> (gateway_payment option \<times> gateway_state) res" where
  "refresh gx rt provider i scope s =
     ebind (refreshRead rt i scope s) (\<lambda>(p, ask, s1).
     if \<not> ask then Inr (Some p, s1)
     else case remoteOf gx provider p s1 of
       None \<Rightarrow> Inr (Some p, s1)
     | Some r \<Rightarrow>
         let (go, s2) = refreshAct rt p r s1;
             s3 = (if go then settleOrder gx rt p (rm_providerPaymentId r) s2 else s2)
         in Inr (findPayment i s3, s3))"

text \<open>Everything the return page learns.\<close>

definition publicStatus ::
  "gateway_config \<Rightarrow> runtime \<Rightarrow> (adapter \<Rightarrow> credentials \<Rightarrow> string \<Rightarrow> gateway_error + status_answer)
   \<Rightarrow> string \<Rightarrow> gateway_state \<Rightarrow> ((gp_status \<times> bool) \<times> gateway_state) res" where
  "publicStatus gx rt provider i s =
     (case refresh gx rt provider i None s of
        Inr (Some p, t) \<Rightarrow> Inr ((gp_status p, gp_mode p = GW_TEST), t)
      | _ \<Rightarrow> Inl (NotFound ''Payment not found''))"

section \<open>Webhooks\<close>

text \<open>\<open>Inr None\<close>: refused. A known event is answered as a duplicate; a new one makes the payment it names be
  looked up now, and is recorded only after that.\<close>

definition webhook ::
  "gateway_config \<Rightarrow> runtime \<Rightarrow> webhook_env \<Rightarrow> (adapter \<Rightarrow> credentials \<Rightarrow> string \<Rightarrow> gateway_error + status_answer)
   \<Rightarrow> string \<Rightarrow> string \<Rightarrow> gw_mode \<Rightarrow> (string \<times> string) list \<Rightarrow> string \<Rightarrow> gateway_state \<Rightarrow> (bool option \<times> gateway_state) res" where
  "webhook gx rt we provider restaurantId key mode headers rawBody s =
     (case (find (ofProvider restaurantId key) (gw_connections s),
            case providerRow restaurantId key (gx_entries gx) of None \<Rightarrow> None | Some e \<Rightarrow> getAdapter (ce_adapter e)) of
        (Some c, Some a) \<Rightarrow>
          (case credentialsOf (gx_box gx) restaurantId c mode of
             Inl _ \<Rightarrow> Inr (None, s)
           | Inr cs \<Rightarrow>
               (case verifyWebhook we a (of_int (rt_now rt) / 1000) cs headers rawBody of
                  None \<Rightarrow> Inr (None, s)
                | Some v \<Rightarrow>
                    if (key, mode, vw_eventId v) \<in> set (gw_events s) then Inr (Some True, s)
                    else
                      (case (if present (vw_providerRef v)
                             then find (\<lambda>p. gp_restaurantId p = restaurantId \<and> gp_provider p = key \<and> gp_mode p = mode \<and>
                                    gp_providerRef p = vw_providerRef v) (gw_payments s) else None) of
                         None \<Rightarrow> Inr (Some False, s\<lparr>gw_events := gw_events s @ [(key, mode, vw_eventId v)]\<rparr>)
                       | Some p \<Rightarrow>
                           ebind (refresh gx rt provider (gp_id p) None
                               (s\<lparr>gw_lastFetch := filter (\<lambda>(k, t). k \<noteq> gp_id p) (gw_lastFetch s)\<rparr>)) (\<lambda>(x, s1).
                           Inr (Some False, s1\<lparr>gw_events := gw_events s1 @ [(key, mode, vw_eventId v)]\<rparr>)))))
      | _ \<Rightarrow> Inr (None, s))"

section \<open>Refunds\<close>

definition heldStatus :: "gr_status \<Rightarrow> bool" where
  "heldStatus st \<longleftrightarrow> st \<in> {GR_PENDING, GR_SUCCEEDED, GR_NEEDS_REVIEW}"

text \<open>What the books of the order still allow: the refunds are summed by the database, exactly.\<close>

definition localLeft :: "order \<Rightarrow> db \<Rightarrow> num" where
  "localLeft r s = round2 (fsub (cents (od_totalAmount r))
     (cents (sum_list (map rf_amount (filter (\<lambda>f. rf_orderId f = od_id r) (db_refunds s))))))"

text \<open>What the refunds of a payment hold of it.\<close>

definition heldOf :: "string \<Rightarrow> gateway_state \<Rightarrow> int" where
  "heldOf i s = sum_list (map gr_amountMinor (filter (\<lambda>r. gr_gatewayPaymentId r = i \<and> heldStatus (gr_status r)) (gw_refunds s)))"

record gateway_refund_input =
  ri_amount :: num
  ri_returnedItems :: "returned_item list"

record refund_plan =
  fp_payment :: gateway_payment
  fp_adapter :: adapter
  fp_connection :: connection
  fp_amountMinor :: int

definition gatewayRefundRead ::
  "gateway_config \<Rightarrow> string \<Rightarrow> string \<Rightarrow> string \<Rightarrow> gateway_refund_input \<Rightarrow> gateway_state \<Rightarrow> refund_plan res" where
  "gatewayRefundRead gx restaurantId branchId paymentId inp s =
     (case find (\<lambda>p. gp_id p = paymentId \<and> gp_restaurantId p = restaurantId \<and> gp_branchId p = branchId) (gw_payments s) of
        None \<Rightarrow> Inl (NotFound ''Payment not found'')
      | Some p \<Rightarrow>
          if gp_mode p = GW_TEST
          then Inl (BadRequest ''A test payment moved no money, so there is nothing to refund'')
          else if gp_status p \<noteq> GP_SUCCEEDED \<or> gp_appliedAt p = None \<or> \<not> present (gp_providerPaymentId p)
          then Inl (BadRequest ''Only a confirmed, settled online payment can be refunded this way'')
          else case (find (ofProvider restaurantId (gp_provider p)) (gw_connections s),
                case providerRow restaurantId (gp_provider p) (gx_entries gx) of None \<Rightarrow> None | Some e \<Rightarrow> getAdapter (ce_adapter e)) of
            (Some c, Some a) \<Rightarrow>
              if \<not> ad_refunds a then Inl (BadRequest ''refunds cannot be sent from OrderRestro'')
              else
                (let minor = toMinor (ri_amount inp) (gp_currency p) in
                 if minor \<le> 0 then Inl (BadRequest ''Enter an amount to refund'')
                 else case findOrder branchId (gp_orderId p) (gw_orders s) of
                   None \<Rightarrow> Inl (BadRequest ''Only a paid order can be refunded'')
                 | Some r \<Rightarrow>
                     if od_status r \<noteq> PAID then Inl (BadRequest ''Only a paid order can be refunded'')
                     else if localLeft r (gw_orders s) < ri_amount inp
                     then Inl (BadRequest ''Only the rest remains refundable on this order'')
                     else Inr \<lparr>fp_payment = p, fp_adapter = a, fp_connection = c, fp_amountMinor = minor\<rparr>)
          | _ \<Rightarrow> Inl (BadRequest ''refunds cannot be sent from OrderRestro''))"

text \<open>The reservation, in one transaction that first locks the payment's row.\<close>

definition reserveRefund :: "runtime \<Rightarrow> string \<Rightarrow> refund_plan \<Rightarrow> gateway_state \<Rightarrow> (gateway_refund \<times> gateway_state) res" where
  "reserveRefund rt restaurantId fp s =
     (let p = fp_payment fp; (i, os) = freshId rt (gw_orders s);
          row = \<lparr>gr_id = i, gr_restaurantId = restaurantId, gr_gatewayPaymentId = gp_id p, gr_orderId = gp_orderId p,
                 gr_amountMinor = fp_amountMinor fp, gr_currency = gp_currency p, gr_status = GR_PENDING,
                 gr_providerRefundId = None, gr_refundId = None\<rparr>
      in if gp_amountMinor p - heldOf (gp_id p) s < fp_amountMinor fp
         then Inl (BadRequest ''Only the rest of this payment can still be refunded'')
         else if 0 < count_where (\<lambda>r. gr_id r = i) (gw_refunds s) then Inl UniqueViolation
         else Inr (row, s\<lparr>gw_orders := os, gw_refunds := gw_refunds s @ [row]\<rparr>))"

text \<open>An error without an HTTP status leaves it open whether the money moved.\<close>

definition refundRefused :: "gateway_error \<Rightarrow> gr_status" where
  "refundRefused e = (case e of GatewayError _ (Some _) \<Rightarrow> GR_FAILED | _ \<Rightarrow> GR_NEEDS_REVIEW)"

definition refundRecorded :: "string \<Rightarrow> string \<Rightarrow> (exn + string) \<Rightarrow> gateway_state \<Rightarrow> gateway_state" where
  "refundRecorded i providerRefundId localId s = updRefund i
     (\<lambda>r. case localId of
        Inr x \<Rightarrow> r\<lparr>gr_status := GR_SUCCEEDED, gr_providerRefundId := Some providerRefundId, gr_refundId := Some x\<rparr>
      | Inl e \<Rightarrow> r\<lparr>gr_status := GR_NEEDS_REVIEW, gr_providerRefundId := Some providerRefundId\<rparr>) s"

definition localRefund :: "gateway_refund_input \<Rightarrow> refund_dto" where
  "localRefund inp = \<lparr>rd_refundAmount = ri_amount inp, rd_method = OTHER, rd_returnedItems = ri_returnedItems inp\<rparr>"

definition recordLocally ::
  "gateway_config \<Rightarrow> runtime \<Rightarrow> string \<Rightarrow> string \<Rightarrow> string \<Rightarrow> gateway_refund_input \<Rightarrow> gateway_state \<Rightarrow> (exn + string) \<times> gateway_state" where
  "recordLocally gx rt branchId orderId userId inp s =
     (case refund (gx_orders gx) rt branchId orderId userId (localRefund inp) (gw_orders s) of
        Inl e \<Rightarrow> (Inl e, s) | Inr (row, os) \<Rightarrow> (Inr (rf_id row), s\<lparr>gw_orders := os\<rparr>))"

definition gatewayRefund ::
  "gateway_config \<Rightarrow> runtime \<Rightarrow> (adapter \<Rightarrow> credentials \<Rightarrow> gateway_refund \<Rightarrow> gateway_error + string \<times> string)
   \<Rightarrow> string \<Rightarrow> string \<Rightarrow> string \<Rightarrow> string \<Rightarrow> gateway_refund_input \<Rightarrow> gateway_state \<Rightarrow> (exn + string) \<times> gateway_state" where
  "gatewayRefund gx rt provider restaurantId branchId paymentId userId inp s =
     (case gatewayRefundRead gx restaurantId branchId paymentId inp s of
        Inl e \<Rightarrow> (Inl e, s)
      | Inr fp \<Rightarrow>
          (case reserveRefund rt restaurantId fp s of
             Inl e \<Rightarrow> (Inl e, s)
           | Inr (row, s1) \<Rightarrow>
               (case (case credentialsOf (gx_box gx) restaurantId (fp_connection fp) (gp_mode (fp_payment fp)) of
                        Inl _ \<Rightarrow> Inl OtherError
                      | Inr cs \<Rightarrow> refundSent (fp_adapter fp) (provider (fp_adapter fp) cs row)) of
                  Inl e \<Rightarrow> (Inl (BadRequest (case e of GatewayError m (Some _) \<Rightarrow> m
                             | _ \<Rightarrow> ''The provider did not answer. Check the provider dashboard before trying again; no refund was recorded here.'')),
                           updRefund (gr_id row) (\<lambda>r. r\<lparr>gr_status := refundRefused e\<rparr>) s1)
                | Inr pid \<Rightarrow>
                    let (local, s2) = recordLocally gx rt branchId (gr_orderId row) userId inp s1;
                        s3 = refundRecorded (gr_id row) pid local s2
                    in (case local of Inr _ \<Rightarrow> Inr pid
                        | Inl _ \<Rightarrow> Inl (Conflict ''The refund was sent but could not be recorded here. It is flagged for review.''), s3))))"

text \<open>What can still be given back of a payment.\<close>

definition refundableMinor :: "gateway_state \<Rightarrow> gateway_payment \<Rightarrow> int" where
  "refundableMinor s p =
     (if gp_status p = GP_SUCCEEDED \<and> gp_mode p = GW_LIVE \<and> gp_appliedAt p \<noteq> None
      then gp_amountMinor p - heldOf (gp_id p) s else 0)"

section \<open>What the handlers leave open\<close>

text \<open>An answer of the provider's server with any status, also 502 or 503, counts as a definite refusal: the
  amount is free again, although a refund may have been made.\<close>

lemma server_error_is_refusal:
  "gatewayFetch (Answered 503 body) = Inl e \<Longrightarrow> refundRefused e = GR_FAILED \<and> \<not> heldStatus (refundRefused e)"
  by (auto simp: gatewayFetch_def refundRefused_def heldStatus_def)

text \<open>A claim that a stopped process left behind is never taken up again: no later look settles the payment.\<close>

lemma lost_claim:
  assumes "keyed gp_id (gw_payments s)" "p \<in> set (gw_payments s)" "gp_appliedAt p = Some n"
  shows "claimPayment rt (gp_id p) pid s = (False, s)"
proof -
  have "\<not> claimable (gp_id p) x" if "x \<in> set (gw_payments s)" for x
    using keyed_unique[OF assms(1) that assms(2)] assms(3) by (auto simp: claimable_def)
  then show ?thesis by (simp add: claimPayment_def count_where_def filter_empty_conv)
qed

end
