(* ===== verification/Online_Settlement.thy ===== *)
theory Online_Settlement
  imports Online_Payments
begin

text \<open>
  Online payments under any interleaving: webhooks, the return page, staff looking at a payment, refunds, the
  handlers of the order service and stops of the process, each taken statement by statement, with any answer
  of the provider. A confirmed live payment is booked on its order exactly once, for exactly its amount.
  Refunds take part in the runs; what they keep is the subject of \<open>Online_Refunds\<close>.
\<close>

section \<open>Requests under way\<close>

text \<open>What a request holds between two statements: the provider's answer on the row it read, the claim of a
  payment, the plan of its checkout, the outcome still to be written; and the same for a refund.\<close>

datatype gw_task =
    Answered gateway_payment remote_status
  | Claimed gateway_payment "string option"
  | Planned gateway_payment "string option" checkout_plan
  | Settled string bool
  | Refunding string refund_plan
  | Reserved gateway_refund gateway_refund_input
  | Sent gateway_refund string gateway_refund_input
  | Recorded gateway_refund string "exn + string"

text \<open>The unique value that the checkout of a payment may find taken is the key of the payment.\<close>

definition onlyKeyTaken :: "gateway_config \<Rightarrow> runtime \<Rightarrow> gateway_payment \<Rightarrow> string option \<Rightarrow> checkout_plan \<Rightarrow> db \<Rightarrow> bool" where
  "onlyKeyTaken gx rt p pid cp os \<longleftrightarrow>
     (\<forall>br. branchOf (gx_orders gx) (gp_branchId p) = Some br \<longrightarrow>
        checkoutTx (gx_orders gx) rt br (gp_branchId p) (gp_createdById p) (bookingOf p pid) cp os = Inl UniqueViolation \<longrightarrow>
        isReplay (bookingOf p pid) (paymentsOf (gp_orderId p) os))"

text \<open>What a request does next; none when it is over.\<close>

inductive task_step :: "gateway_config \<Rightarrow> gw_task \<times> gateway_state \<Rightarrow> gw_task list \<times> gateway_state \<Rightarrow> bool" for gx where
  act: "refreshAct rt p r s = (go, t) \<Longrightarrow>
    task_step gx (Answered p r, s) (if go then [Claimed p (rm_providerPaymentId r)] else [], t)"
| plan: "checkoutRead (gx_orders gx) rt (gp_branchId p) (gp_orderId p) (bookingOf p pid) False (gw_orders s) = Inr (Proceed cp) \<Longrightarrow>
    task_step gx (Claimed p pid, s) ([Planned p pid cp], s)"
| replay: "checkoutRead (gx_orders gx) rt (gp_branchId p) (gp_orderId p) (bookingOf p pid) False (gw_orders s) = Inr Replay \<Longrightarrow>
    checkoutResult (gp_branchId p) (gp_orderId p) (gw_orders s) = Inr v \<Longrightarrow>
    task_step gx (Claimed p pid, s) ([Settled (gp_id p) True], s)"
| unread: "checkoutRead (gx_orders gx) rt (gp_branchId p) (gp_orderId p) (bookingOf p pid) False (gw_orders s) = Inl e \<Longrightarrow>
    task_step gx (Claimed p pid, s) ([Settled (gp_id p) False], s)"
| noresult: "checkoutResult (gp_branchId p) (gp_orderId p) (gw_orders s) = Inl e \<Longrightarrow>
    task_step gx (Claimed p pid, s) ([Settled (gp_id p) False], s)"
| pay: "onlyKeyTaken gx rt p pid cp (gw_orders s) \<Longrightarrow>
    checkoutWrite (gx_orders gx) rt (gp_branchId p) (gp_orderId p) (gp_createdById p) (bookingOf p pid) cp (gw_orders s) = Inr (v, os) \<Longrightarrow>
    task_step gx (Planned p pid cp, s) ([Settled (gp_id p) True], s\<lparr>gw_orders := os\<rparr>)"
| unpaid: "checkoutWrite (gx_orders gx) rt (gp_branchId p) (gp_orderId p) (gp_createdById p) (bookingOf p pid) cp (gw_orders s) = Inl e \<Longrightarrow>
    task_step gx (Planned p pid cp, s) ([Settled (gp_id p) False], s)"
| mark: "task_step gx (Settled i ok, s) ([], bookedMark i ok s)"
| reserve: "reserveRefund rt rid fp s = Inr (row, t) \<Longrightarrow> task_step gx (Refunding rid fp, s) ([Reserved row inp], t)"
| full: "reserveRefund rt rid fp s = Inl e \<Longrightarrow> task_step gx (Refunding rid fp, s) ([], s)"
| sent: "task_step gx (Reserved row inp, s) ([Sent row pid inp], s)"
| refused: "task_step gx (Reserved row inp, s) ([], updRefund (gr_id row) (\<lambda>r. r\<lparr>gr_status := refundRefused e\<rparr>) s)"
| booked: "recordLocally gx rt b (gr_orderId row) u inp s = (local, t) \<Longrightarrow>
    task_step gx (Sent row pid inp, s) ([Recorded row pid local], t)"
| noted: "task_step gx (Recorded row pid local, s) ([], refundRecorded (gr_id row) pid local s)"

text \<open>
  Keys of requests: those of gateway payments are the identifiers the server makes, \<open>gpId\<close>, which no other
  request uses as its own.
\<close>

definition foreign :: "(string \<Rightarrow> bool) \<Rightarrow> db \<Rightarrow> db \<Rightarrow> bool" where
  "foreign gpId s t \<longleftrightarrow> (\<forall>q \<in> set (db_payments t). q \<in> set (db_payments s) \<or> (\<forall>k. py_clientRequestId q = Some k \<longrightarrow> \<not> gpId k))"

text \<open>
  All that happens: new links and their answers, a look at a payment with any answer of the provider, a step of
  any request under way, a request that stops there, new refunds, changed settings, and the order service.
\<close>

inductive gw_step ::
  "gateway_config \<Rightarrow> (string \<Rightarrow> bool) \<Rightarrow> gateway_state \<times> gw_task list \<Rightarrow> gateway_state \<times> gw_task list \<Rightarrow> bool" for gx gpId where
  link: "linkRead gx rt0 rid b o' inp s0 = Inr (Inr lp) \<Longrightarrow> linkRow rt rid b o' u lp s = Inr (p, t) \<Longrightarrow> gpId (gp_id p) \<Longrightarrow> gw_step gx gpId (s, ts) (t, ts)"
| linked: "linkDone i answer s = (x, t) \<Longrightarrow> gw_step gx gpId (s, ts) (t, ts)"
| look: "refreshRead rt i scope s = Inr (p, True, t) \<Longrightarrow> gw_step gx gpId (s, ts) (t, Answered p r # ts)"
| run: "task_step gx (w, s) (next', t) \<Longrightarrow>
    gw_step gx gpId (s, as @ w # bs) (t, as @ next' @ bs)"
| stop: "gw_step gx gpId (s, as @ w # bs) (s, as @ bs)"
| refund: "gatewayRefundRead gx rid b i inp s = Inr fp \<Longrightarrow> gw_step gx gpId (s, ts) (s, Refunding rid fp # ts)"
| settings: "gateway_change (gw_connections s) cs \<Longrightarrow> gw_step gx gpId (s, ts) (s\<lparr>gw_connections := cs\<rparr>, ts)"
| orders: "order_step (gx_orders gx) (gw_orders s) os \<Longrightarrow> foreign gpId (gw_orders s) os \<Longrightarrow>
    gw_step gx gpId (s, ts) (s\<lparr>gw_orders := os\<rparr>, ts)"

inductive_cases task_stepE: "task_step gx (w, s) u"
inductive_cases gw_stepE: "gw_step gx gpId (s, ts) (t, us)"

section \<open>Booked once\<close>

definition same_payment :: "gateway_payment \<Rightarrow> gateway_payment \<Rightarrow> bool" where
  "same_payment p x \<longleftrightarrow> gp_id x = gp_id p \<and> gp_orderId x = gp_orderId p \<and> gp_mode x = gp_mode p \<and>
     gp_amountMinor x = gp_amountMinor p \<and> gp_currency x = gp_currency p"

definition known :: "gateway_state \<Rightarrow> gateway_payment \<Rightarrow> bool" where
  "known s p \<longleftrightarrow> (\<exists>x \<in> set (gw_payments s). same_payment p x)"

definition bookedAmount :: "gateway_payment \<Rightarrow> int" where
  "bookedAmount p = to_column 100 (round2 (fromMinor (gp_amountMinor p) (gp_currency p)))"

definition bookedFor :: "gateway_payment \<Rightarrow> payment \<Rightarrow> bool" where
  "bookedFor p q \<longleftrightarrow> py_orderId q = gp_orderId p \<and> py_clientRequestId q = Some (gp_id p)"

definition booked_ok :: "gateway_state \<Rightarrow> gateway_payment \<Rightarrow> bool" where
  "booked_ok s p \<longleftrightarrow> goneOrder (gw_orders s) (gp_orderId p) \<or> (\<exists>q \<in> set (db_payments (gw_orders s)). bookedFor p q)"

text \<open>Rows with the key of a gateway payment come from it: a live payment, on its order, for its amount.\<close>

definition rows_from :: "(string \<Rightarrow> bool) \<Rightarrow> gateway_state \<Rightarrow> bool" where
  "rows_from gpId s \<longleftrightarrow> (\<forall>q \<in> set (db_payments (gw_orders s)). \<forall>k. py_clientRequestId q = Some k \<longrightarrow> gpId k \<longrightarrow>
     (\<exists>p \<in> set (gw_payments s). gp_id p = k \<and> gp_mode p = GW_LIVE \<and> gp_orderId p = py_orderId q \<and>
        py_method q = OTHER \<and> py_amount q = bookedAmount p))"

definition pays_ok :: "(string \<Rightarrow> bool) \<Rightarrow> gateway_state \<Rightarrow> bool" where
  "pays_ok gpId s \<longleftrightarrow> db_ok (gw_orders s) \<and> keyed gp_id (gw_payments s) \<and> (\<forall>p \<in> set (gw_payments s). gpId (gp_id p)) \<and>
     rows_from gpId s \<and> (\<forall>p \<in> set (gw_payments s). gp_status p = GP_SUCCEEDED \<and> gp_mode p = GW_LIVE \<longrightarrow> booked_ok s p)"

fun task_ok :: "gateway_state \<Rightarrow> gw_task \<Rightarrow> bool" where
  "task_ok s (Answered p r) = known s p"
| "task_ok s (Claimed p pid) = (known s p \<and> gp_mode p = GW_LIVE)"
| "task_ok s (Planned p pid cp) = (known s p \<and> gp_mode p = GW_LIVE \<and> od_id (cp_order cp) = gp_orderId p)"
| "task_ok s (Settled i ok) = (\<exists>p \<in> set (gw_payments s). gp_id p = i \<and> (ok \<longrightarrow> booked_ok s p))"
| "task_ok s w = True"

definition all_ok :: "(string \<Rightarrow> bool) \<Rightarrow> gateway_state \<times> gw_task list \<Rightarrow> bool" where
  "all_ok gpId c \<longleftrightarrow> pays_ok gpId (fst c) \<and> (\<forall>w \<in> set (snd c). task_ok (fst c) w)"

text \<open>A change of the orders that only adds foreign rows, and takes none away but with its order.\<close>

definition quiet :: "(string \<Rightarrow> bool) \<Rightarrow> db \<Rightarrow> db \<Rightarrow> bool" where
  "quiet gpId s t \<longleftrightarrow> (db_ok s \<longrightarrow> db_ok t) \<and> set (db_events s) \<subseteq> set (db_events t) \<and> foreign gpId s t \<and>
     (\<forall>q \<in> set (db_payments s). q \<in> set (db_payments t) \<or> goneOrder t (py_orderId q))"

lemma booked_mono:
  assumes "booked_ok s p" "set (db_events (gw_orders s)) \<subseteq> set (db_events (gw_orders t))"
    "\<forall>q \<in> set (db_payments (gw_orders s)). q \<in> set (db_payments (gw_orders t)) \<or> goneOrder (gw_orders t) (py_orderId q)"
  shows "booked_ok t p"
proof -
  consider "goneOrder (gw_orders s) (gp_orderId p)" | q where "q \<in> set (db_payments (gw_orders s))" "bookedFor p q"
    using assms(1) unfolding booked_ok_def by blast
  then show ?thesis
  proof cases
    case 1
    then show ?thesis using assms(2) unfolding booked_ok_def goneOrder_def by blast
  next
    case 2
    then show ?thesis using assms(3) unfolding booked_ok_def bookedFor_def by metis
  qed
qed

lemma task_mono:
  assumes "task_ok s w" "gw_payments t = gw_payments s" "\<And>p. booked_ok s p \<Longrightarrow> booked_ok t p"
  shows "task_ok t w"
  using assms by (cases w) (auto simp: known_def)

lemma quiet_ok:
  assumes "all_ok gpId (s, ts)" "quiet gpId (gw_orders s) os"
    "gw_orders t = os" "gw_payments t = gw_payments s"
  shows "all_ok gpId (t, ts)"
proof -
  have b: "booked_ok s p \<Longrightarrow> booked_ok t p" for p
    using booked_mono[of s p t] assms(2,3) unfolding quiet_def by simp
  have "rows_from gpId t" using assms unfolding all_ok_def pays_ok_def rows_from_def quiet_def foreign_def by (metis fst_conv)
  then show ?thesis
    using assms b task_mono[of s _ t] unfolding all_ok_def pays_ok_def quiet_def by simp
qed

text \<open>A change of the payment rows that leaves what they are about, and calls none settled that is not booked.\<close>

lemma rows_ok:
  assumes "all_ok gpId (s, ts)" "gw_orders t = gw_orders s" "list_all2 same_payment (gw_payments s) (gw_payments t)"
    "\<And>p. p \<in> set (gw_payments t) \<Longrightarrow> gp_status p = GP_SUCCEEDED \<Longrightarrow> gp_mode p = GW_LIVE \<Longrightarrow> booked_ok t p"
  shows "all_ok gpId (t, ts)"
  using assms(1) unfolding all_ok_def fst_conv snd_conv
proof (intro conjI ballI; elim conjE)
  assume p: "pays_ok gpId s"
  have ids: "map gp_id (gw_payments t) = map gp_id (gw_payments s)"
    using assms(3) by (induction rule: list_all2_induct) (auto simp: same_payment_def)
  have "rows_from gpId t"
    unfolding rows_from_def assms(2)
  proof (intro ballI allI impI)
    fix q k assume "q \<in> set (db_payments (gw_orders s))" "py_clientRequestId q = Some k" "gpId k"
    then obtain p where p: "p \<in> set (gw_payments s)" "gp_id p = k" "gp_mode p = GW_LIVE" "gp_orderId p = py_orderId q"
      "py_method q = OTHER" "py_amount q = bookedAmount p" using p unfolding pays_ok_def rows_from_def by blast
    obtain x where "x \<in> set (gw_payments t)" "same_payment p x" using all2_left[OF assms(3) p(1)] by blast
    then show "\<exists>p \<in> set (gw_payments t). gp_id p = k \<and> gp_mode p = GW_LIVE \<and> gp_orderId p = py_orderId q \<and>
        py_method q = OTHER \<and> py_amount q = bookedAmount p"
      using p by (intro bexI[of _ x]) (simp_all add: same_payment_def bookedAmount_def)
  qed
  moreover have "gpId (gp_id x)" if x: "x \<in> set (gw_payments t)" for x
    using all2_right[OF assms(3) x] p by (auto simp: pays_ok_def same_payment_def)
  ultimately show "pays_ok gpId t" using p assms(2,4) ids by (simp add: pays_ok_def keyed_def)
next
  fix w assume w: "w \<in> set ts" and ok: "\<forall>w \<in> set ts. task_ok s w"
  have k: "known s p \<Longrightarrow> known t p" for p
    using all2_left[OF assms(3)] unfolding known_def same_payment_def by metis
  have b: "booked_ok t x" if "booked_ok s p" "same_payment p x" for p x
    using that unfolding booked_ok_def bookedFor_def same_payment_def assms(2) by simp
  have i: "\<exists>x \<in> set (gw_payments t). gp_id x = gp_id p \<and> (ok' \<longrightarrow> booked_ok t x)"
    if "p \<in> set (gw_payments s)" "ok' \<longrightarrow> booked_ok s p" for p ok'
    using all2_left[OF assms(3) that(1)] that(2) b unfolding same_payment_def by metis
  from bspec[OF ok w] show "task_ok t w"
    by (cases w) (use k i in auto)
qed

text \<open>One update of the rows of a payment.\<close>

lemma same_payment_refl [simp]: "same_payment p p" by (simp add: same_payment_def)

lemma upd_frozen:
  "(\<And>x. P x \<Longrightarrow> same_payment x (f x)) \<Longrightarrow> list_all2 same_payment ps (upd_where P f ps)"
  by (simp add: upd_where_def list_all2_map2 list_all2_same)

lemma booked_same: "gw_orders t = gw_orders s \<Longrightarrow> same_payment p x \<Longrightarrow> booked_ok t x = booked_ok s p"
  by (simp add: booked_ok_def bookedFor_def same_payment_def)

lemma upd_ok:
  assumes "all_ok gpId (s, ts)" "\<And>x. P x \<Longrightarrow> same_payment x (f x)"
    "\<And>x. x \<in> set (gw_payments s) \<Longrightarrow> P x \<Longrightarrow> gp_status (f x) = GP_SUCCEEDED \<Longrightarrow> gp_mode x = GW_LIVE \<Longrightarrow>
       gp_status x \<noteq> GP_SUCCEEDED \<Longrightarrow> booked_ok s x"
  shows "all_ok gpId (s\<lparr>gw_payments := upd_where P f (gw_payments s)\<rparr>, ts)"
proof (rule rows_ok[OF assms(1)])
  let ?t = "s\<lparr>gw_payments := upd_where P f (gw_payments s)\<rparr>"
  show "list_all2 same_payment (gw_payments s) (gw_payments ?t)" using upd_frozen assms(2) by simp
  fix p assume p: "p \<in> set (gw_payments ?t)" "gp_status p = GP_SUCCEEDED" "gp_mode p = GW_LIVE"
  then obtain x where x: "x \<in> set (gw_payments s)" "same_payment x p" "p = (if P x then f x else x)"
    using assms(2) by (auto simp: set_upd_where)
  have "booked_ok s x"
  proof (cases "gp_status x = GP_SUCCEEDED")
    case True
    then show ?thesis using assms(1) x p(3) unfolding all_ok_def pays_ok_def same_payment_def by simp
  next
    case False
    then show ?thesis using assms(3) x p by (auto simp: same_payment_def split: if_splits)
  qed
  then show "booked_ok ?t p" using booked_same[of ?t s x p] x(2) by simp
qed simp

lemma claim_ok:
  assumes "claimPayment rt i pid s = (go, t)" "all_ok gpId (s, ts)"
  shows "all_ok gpId (t, ts)"
proof (cases go)
  case True
  then have "t = s\<lparr>gw_payments := upd_where (claimable i)
              (\<lambda>p. p\<lparr>gp_appliedAt := Some (rt_now rt), gp_providerPaymentId := pid\<rparr>) (gw_payments s)\<rparr>"
    using assms(1) by (auto simp: claimPayment_def split: if_splits)
  then show ?thesis by (simp only:, intro upd_ok[OF assms(2)]) (simp_all add: same_payment_def)
qed (use assms in \<open>auto simp: claimPayment_def split: if_splits\<close>)

lemma claim_known:
  assumes "claimPayment rt i pid s = (go, t)" "known s p"
  shows "known t p"
proof -
  let ?f = "\<lambda>p. p\<lparr>gp_appliedAt := Some (rt_now rt), gp_providerPaymentId := pid\<rparr>"
  obtain x where x: "x \<in> set (gw_payments s)" "same_payment p x" using assms(2) unfolding known_def by blast
  then have y: "same_payment p (if claimable i x then ?f x else x)" by (simp add: same_payment_def)
  have "t = s \<or> gw_payments t = upd_where (claimable i) ?f (gw_payments s)"
    using assms(1) by (auto simp: claimPayment_def split: if_splits)
  then show ?thesis
  proof
    assume t: "gw_payments t = upd_where (claimable i) ?f (gw_payments s)"
    show ?thesis unfolding known_def t upd_where_def using x(1) y by (intro bexI[of _ "if claimable i x then ?f x else x"]) auto
  qed (use assms(2) in simp)
qed

lemma known_only:
  "all_ok gpId (s, ts) \<Longrightarrow> known s p \<Longrightarrow> x \<in> set (gw_payments s) \<Longrightarrow> gp_id x = gp_id p \<Longrightarrow> same_payment p x"
proof -
  assume a: "all_ok gpId (s, ts)" "known s p" "x \<in> set (gw_payments s)" "gp_id x = gp_id p"
  then obtain y where y: "y \<in> set (gw_payments s)" "same_payment p y" unfolding known_def by blast
  then have "x = y" using a keyed_unique[of gp_id "gw_payments s" x y] by (simp add: all_ok_def pays_ok_def same_payment_def)
  with y show ?thesis by simp
qed

lemma upd_known_ok:
  assumes "all_ok gpId (s, ts)" "known s p" "\<And>x. same_payment x (f x)"
    "gp_mode p = GW_TEST \<or> (\<forall>x. gp_status (f x) \<noteq> GP_SUCCEEDED)"
  shows "all_ok gpId (updPayment (gp_id p) f s, ts)"
  unfolding updPayment_def
  by (rule upd_ok[OF assms(1)]) (use assms(3,4) known_only[OF assms(1,2)] in \<open>auto simp: same_payment_def\<close>)

lemma act_ok:
  assumes "refreshAct rt p r s = (go, t)" "all_ok gpId (s, ts)" "known s p"
  shows "all_ok gpId (t, ts) \<and> (go \<longrightarrow> known t p \<and> gp_mode p = GW_LIVE)"
proof (cases "rm_state r = REMOTE_PAID \<and> \<not> mismatch p r \<and> gp_mode p \<noteq> GW_TEST")
  case True
  then have c: "claimPayment rt (gp_id p) (rm_providerPaymentId r) s = (go, t)" "gp_mode p = GW_LIVE"
    using assms(1) by (cases "gp_mode p"; simp add: refreshAct_def)+
  show ?thesis using claim_ok[OF c(1) assms(2)] claim_known[OF c(1) assms(3)] c(2) by simp
next
  case False
  note u = upd_known_ok[OF assms(2,3)]
  have "\<not> go" using assms(1) False by (auto simp: refreshAct_def split: if_splits)
  moreover have "all_ok gpId (t, ts)"
  proof (cases "rm_state r = REMOTE_EXPIRED")
    case True
    then have "t = updPayment (gp_id p) (\<lambda>x. x\<lparr>gp_status := GP_EXPIRED\<rparr>) s" using assms(1) by (simp add: refreshAct_def)
    then show ?thesis by (simp only:, intro u) (simp_all add: same_payment_def)
  next
    case e: False
    show ?thesis
    proof (cases "rm_state r = REMOTE_PAID")
      case True
      with e False assms(1) have "t = (if mismatch p r
          then updPayment (gp_id p) (\<lambda>x. x\<lparr>gp_status := GP_NEEDS_REVIEW,
              gp_providerPaymentId := (case rm_providerPaymentId r of None \<Rightarrow> gp_providerPaymentId p | Some y \<Rightarrow> Some y)\<rparr>) s
          else updPayment (gp_id p) (\<lambda>x. x\<lparr>gp_status := GP_SUCCEEDED, gp_providerPaymentId := rm_providerPaymentId r\<rparr>) s)"
        by (auto simp: refreshAct_def)
      moreover have "mismatch p r \<or> gp_mode p = GW_TEST" using True False by simp
      ultimately show ?thesis by (cases "mismatch p r"; simp only: if_True if_False simp_thms; intro u) (simp_all add: same_payment_def)
    next
      case False
      then have "t = s" using e assms(1) by (simp add: refreshAct_def)
      then show ?thesis using assms(2) by simp
    qed
  qed
  ultimately show ?thesis by simp
qed

text \<open>The single row a checkout of a gateway payment writes.\<close>

lemma booking_settled:
  assumes "settlePayments bal (co_payments (bookingOf p pid)) (Some 0) al = Inr st"
  shows "\<exists>l. st_payments st = [l] \<and> sp_method l = OTHER \<and> sp_amount l = round2 (fromMinor (gp_amountMinor p) (gp_currency p))"
proof -
  let ?a = "round2 (fromMinor (gp_amountMinor p) (gp_currency p))"
  obtain line where line: "co_payments (bookingOf p pid) = [line]" "pl_method line = OTHER" "pl_tendered line = None"
      "round2 (pl_amount line) = ?a" by (simp add: bookingOf_def)
  define l where "l = \<lparr>sp_method = OTHER, sp_amount = ?a, sp_tendered = None, sp_changeGiven = None, sp_reference = pl_reference line\<rparr>"
  have n: "normaliseLine line = (if 0 < ?a then Inr l else Inl (BadRequest ''Each payment must be more than zero''))"
    using line by (simp add: normaliseLine_def Let_def l_def)
  have m: "sp_method l = OTHER" by (simp add: l_def)
  have "settleKept (round2 bal) (round2 0) al [l] = Inr st" "0 < ?a"
    using assms by (auto simp: settlePayments_def line(1) n m Let_def split: if_splits)
  then show ?thesis by (auto simp: settleKept_def Let_def l_def split: if_splits)
qed

lemma booking_rows:
  assumes "settlePayments bal (co_payments (bookingOf p pid)) (Some 0) al = Inr st"
  shows "\<exists>q. paymentRows (gp_orderId p) u (bookingOf p pid) (st_payments st) 0 = [q] \<and> bookedFor p q \<and>
    py_method q = OTHER \<and> py_amount q = bookedAmount p"
  using booking_settled[OF assms]
  by (auto simp: paymentRows_def paymentRow_def bookedFor_def bookedAmount_def bookingOf_def)

lemma replay_booked:
  "isReplay (bookingOf p pid) (paymentsOf (gp_orderId p) os) \<Longrightarrow> \<exists>q \<in> set (db_payments os). bookedFor p q"
  by (auto simp: isReplay_def list_ex_iff paymentsOf_def bookedFor_def bookingOf_def)

lemma pay_ok:
  assumes "checkoutWrite (gx_orders gx) rt (gp_branchId p) (gp_orderId p) u (bookingOf p pid) cp (gw_orders s) = Inr (v, os)"
    "u = gp_createdById p" "onlyKeyTaken gx rt p pid cp (gw_orders s)" "all_ok gpId (s, ts)" "known s p" "gp_mode p = GW_LIVE"
    "od_id (cp_order cp) = gp_orderId p"
  shows "all_ok gpId (s\<lparr>gw_orders := os\<rparr>, ts) \<and> booked_ok (s\<lparr>gw_orders := os\<rparr>) p"
  using assms(1)
proof (cases rule: checkoutWrite_InrE)
  case replayed
  then have "\<exists>q \<in> set (db_payments os). bookedFor p q"
    using assms(2,3) replay_booked unfolding onlyKeyTaken_def by blast
  then show ?thesis using assms(4) replayed(1) by (auto simp: booked_ok_def)
next
  case (committed br st skips s1)
  from committed(2) obtain n l gift where tx:
    "db_payments s1 = db_payments (gw_orders s) @ paymentRows (gp_orderId p) u (bookingOf p pid) (st_payments st) gift"
    "settlePayments (cp_balance cp) (co_payments (bookingOf p pid)) (Some gift) (co_allowPartial (bookingOf p pid)) = Inr st"
    "db_events s1 = db_events (gw_orders s)"
    and g: "\<exists>s1 s2. giftStep (gp_branchId p) (gp_orderId p) (bookingOf p pid) (cp_balance cp) s1 = Inr (gift, s2)"
    by (rule checkoutTx_frame) (use assms(7) in auto)
  have "gift = 0" using g by (auto simp: giftStep_def bookingOf_def present_def)
  then obtain q where q: "db_payments os = db_payments (gw_orders s) @ [q]" "bookedFor p q" "py_method q = OTHER"
      "py_amount q = bookedAmount p"
    using booking_rows[of "cp_balance cp" p pid _ st u] tx checkoutDone_frame[OF committed(3)] by auto
  have ev: "set (db_events (gw_orders s)) \<subseteq> set (db_events os)"
    using checkoutDone_frame[OF committed(3)] tx(3) set_mono_prefix by metis
  let ?t = "s\<lparr>gw_orders := os\<rparr>"
  obtain x where x: "x \<in> set (gw_payments s)" "same_payment p x" using assms(5) by (auto simp: known_def)
  have b: "booked_ok s y \<Longrightarrow> booked_ok ?t y" for y
    by (rule booked_mono) (use ev q(1) in auto)
  have "rows_from gpId ?t"
    unfolding rows_from_def
  proof (intro ballI allI impI)
    fix y k assume y: "y \<in> set (db_payments (gw_orders ?t))" "py_clientRequestId y = Some k" "gpId k"
    show "\<exists>p \<in> set (gw_payments ?t). gp_id p = k \<and> gp_mode p = GW_LIVE \<and> gp_orderId p = py_orderId y \<and>
        py_method y = OTHER \<and> py_amount y = bookedAmount p"
    proof (cases "y = q")
      case True
      then show ?thesis using x q y(2) assms(6)
        by (intro bexI[of _ x]) (auto simp: same_payment_def bookedFor_def bookedAmount_def)
    next
      case False
      then show ?thesis using assms(4) y q(1) unfolding all_ok_def pays_ok_def rows_from_def by simp
    qed
  qed
  moreover have "db_ok os" using checkoutWrite_ok[OF assms(1)] assms(4) by (simp add: all_ok_def pays_ok_def)
  ultimately have "all_ok gpId (?t, ts)"
    using assms(4) b task_mono[of s _ ?t] unfolding all_ok_def pays_ok_def by simp
  moreover have "booked_ok ?t p" using q by (auto simp: booked_ok_def)
  ultimately show ?thesis by simp
qed

lemma bookedMark_ok:
  assumes "all_ok gpId (s, ts)" "task_ok s (Settled i ok)"
  shows "all_ok gpId (bookedMark i ok s, ts)"
proof -
  obtain p where p: "p \<in> set (gw_payments s)" "gp_id p = i" "ok \<longrightarrow> booked_ok s p" using assms(2) by auto
  have only: "x = p" if "x \<in> set (gw_payments s)" "gp_id x = i" for x
    using that p keyed_unique[of gp_id "gw_payments s" x p] assms(1) by (simp add: all_ok_def pays_ok_def)
  show ?thesis unfolding bookedMark_def updPayment_def
  proof (rule upd_ok[OF assms(1)])
    fix x :: gateway_payment
    assume "gp_id x = i"
    then show "same_payment x (if ok then x\<lparr>gp_status := GP_SUCCEEDED\<rparr> else x\<lparr>gp_status := GP_NEEDS_REVIEW, gp_appliedAt := None\<rparr>)"
      by (simp add: same_payment_def)
  next
    fix x :: gateway_payment
    assume "x \<in> set (gw_payments s)" "gp_id x = i"
      "gp_status (if ok then x\<lparr>gp_status := GP_SUCCEEDED\<rparr> else x\<lparr>gp_status := GP_NEEDS_REVIEW, gp_appliedAt := None\<rparr>) = GP_SUCCEEDED"
    then show "booked_ok s x" using only p(3) by (auto split: if_splits)
  qed
qed

lemma refunds_only: "all_ok gpId (s, ts) \<Longrightarrow> gw_orders t = gw_orders s \<Longrightarrow> gw_payments t = gw_payments s \<Longrightarrow> all_ok gpId (t, ts)"
  by (rule rows_ok) (auto simp: list_all2_same all_ok_def pays_ok_def booked_ok_def)

text \<open>A step of the counter for new identifiers changes no row.\<close>

lemma next_quiet: "quiet gpId os (os\<lparr>db_next := n\<rparr>)"
  by (simp add: quiet_def foreign_def db_ok_def linked_def paid_ok_def returns_ok_def)

lemma refund_quiet:
  assumes "Order_Refunds.refund cfg rt b i u d os = Inr (row, os')" "db_ok os"
  shows "quiet gpId os os'"
proof -
  have "set (db_events os) \<subseteq> set (db_events os')"
    using refund_advances[OF assms(1) db_ok_keyed[OF assms(2)]] by (simp add: advances_def set_mono_prefix)
  moreover have "db_payments os' = db_payments os"
    using assms(1) by (auto elim!: refund_InrE simp: frame dest!: refundTx_frame)
  ultimately show ?thesis using refund_ok[OF assms] by (simp add: quiet_def foreign_def)
qed

lemma orders_quiet: "order_step cfg os os' \<Longrightarrow> foreign gpId os os' \<Longrightarrow> db_ok os \<Longrightarrow> quiet gpId os os'"
  using payment_stays step_ok step_forward[of cfg os os'] set_mono_prefix
  unfolding quiet_def forward_def by (metis db_ok_keyed)

lemma task_step_ok:
  assumes "task_step gx (w, s) (next', t)" "all_ok gpId (s, ts)" "task_ok s w"
  shows "all_ok gpId (t, ts) \<and> (\<forall>x \<in> set next'. task_ok t x)"
  using assms(1)
proof cases
  case (act rt p r go)
  then show ?thesis using act_ok[OF _ assms(2)] assms(3) by auto
next
  case (plan rt p pid cp)
  then show ?thesis using assms checkoutRead_Proceed by auto
next
  case (replay rt p pid v)
  have "\<exists>q \<in> set (db_payments (gw_orders s)). bookedFor p q"
    using replay(4) by (intro replay_booked[of p pid])
      (auto simp: checkoutRead_def ebind_Inr_iff Let_def getOrder_def split: option.splits if_splits)
  then have "booked_ok s p" by (simp add: booked_ok_def)
  moreover obtain x where "x \<in> set (gw_payments s)" "same_payment p x" using assms(3) replay(1) by (auto simp: known_def)
  ultimately show ?thesis using assms(2) replay(2,3) booked_same[of s s p x] by (auto simp: same_payment_def)
next
  case (pay rt p pid cp v os)
  then have p: "all_ok gpId (t, ts) \<and> booked_ok t p"
    using pay_ok[of gx rt p _ pid cp s v os gpId ts] assms(2,3) by simp
  obtain x where "x \<in> set (gw_payments t)" "same_payment p x" using assms(3) pay(1,3) by (auto simp: known_def)
  then show ?thesis using p pay(2) booked_same[of t t p x] by (auto simp: same_payment_def)
next
  case (mark i ok)
  then show ?thesis using bookedMark_ok[OF assms(2)] assms(3) by simp
next
  case (reserve rt rid fp row inp)
  then have "gw_payments t = gw_payments s" "gw_orders t = (gw_orders s)\<lparr>db_next := db_next (gw_orders s) + 1\<rparr>"
    by (auto simp: reserveRefund_def freshId_def Let_def split: if_splits)
  then show ?thesis using quiet_ok[OF assms(2) next_quiet] reserve(2) by auto
next
  case (booked rt b row u inp local pid)
  show ?thesis
  proof (cases "t = s")
    case False
    then obtain r os where os: "Order_Refunds.refund (gx_orders gx) rt b (gr_orderId row) u (localRefund inp) (gw_orders s) = Inr (r, os)"
      "t = s\<lparr>gw_orders := os\<rparr>" using booked(3) by (auto simp: recordLocally_def split: sum.splits)
    have "quiet gpId (gw_orders s) os" using assms(2) by (intro refund_quiet[OF os(1)]) (simp add: all_ok_def pays_ok_def)
    from quiet_ok[OF assms(2) this, of t] show ?thesis using os(2) booked(2) by simp
  qed (use assms(2) booked(2) in simp)
qed (use assms(2,3) in \<open>auto simp: known_def same_payment_def updRefund_def refundRecorded_def intro: refunds_only\<close>)

lemma all_ok_tasks: "all_ok gpId (s, ts) \<Longrightarrow> set us \<subseteq> set ts \<Longrightarrow> all_ok gpId (s, us)"
  by (auto simp: all_ok_def)

lemma link_ok:
  assumes "linkRow rt rid b o' u lp s = Inr (p, t)" "gpId (gp_id p)" "all_ok gpId (s, ts)"
  shows "all_ok gpId (t, ts)"
proof -
  let ?s = "s\<lparr>gw_orders := (gw_orders s)\<lparr>db_next := db_next (gw_orders s) + 1\<rparr>\<rparr>"
  from assms(1) have t: "t = ?s\<lparr>gw_payments := gw_payments ?s @ [p]\<rparr>" "gp_status p = GP_CREATED" and n: "findPayment (gp_id p) s = None"
    by (auto simp: linkRow_def freshId_def Let_def split: if_splits)
  have s: "all_ok gpId (?s, ts)" using quiet_ok[OF assms(3) next_quiet] by simp
  have new: "gp_id p \<notin> gp_id ` set (gw_payments ?s)" using n by (auto simp: findPayment_def find_None_iff)
  have b: "booked_ok t x = booked_ok ?s x" for x by (simp add: booked_ok_def t)
  have "pays_ok gpId t"
    using s new t(2) assms(2) b unfolding all_ok_def pays_ok_def rows_from_def by (auto simp: t(1) row_simps)
  moreover have "task_ok t w" if "task_ok ?s w" for w
    using that b by (cases w) (auto simp: known_def t(1))
  ultimately show ?thesis using s by (simp add: all_ok_def)
qed

lemma linked_ok: "linkDone i answer s = (x, t) \<Longrightarrow> all_ok gpId (s, ts) \<Longrightarrow> all_ok gpId (t, ts)"
  by (auto simp: linkDone_def updPayment_def same_payment_def split: sum.splits prod.splits intro!: upd_ok)

lemma gw_step_ok: "gw_step gx gpId (s, ts) (t, us) \<Longrightarrow> all_ok gpId (s, ts) \<Longrightarrow> all_ok gpId (t, us)"
proof (erule gw_stepE, goal_cases)
  case (1 rt rid b o' u lp p)
  then show ?case using link_ok by auto
next
  case (2 i answer x)
  then show ?case using linked_ok by auto
next
  case (3 rt i scope p r)
  then have t: "t = s\<lparr>gw_lastFetch := setFetch i (rt_now rt) (gw_lastFetch s)\<rparr>" "p \<in> set (gw_payments s)"
    by (auto simp: refreshRead_def dest: find_SomeD split: option.splits if_splits)
  then have "known t p" by (auto simp: known_def intro!: bexI[of _ p])
  then show ?case using refunds_only[OF 3(1), of t] t 3 by (simp add: all_ok_def)
next
  case (4 w next' as bs)
  then have "all_ok gpId (s, as @ bs)" "task_ok s w" by (auto simp: all_ok_def)
  from task_step_ok[OF 4(4) this] 4(2,3) show ?case by (auto simp: all_ok_def)
next
  case (5 as w bs)
  then show ?case by (auto simp: all_ok_def)
next
  case (6 rid b i inp fp)
  then show ?case by (auto simp: all_ok_def)
next
  case (7 cs)
  then show ?case using refunds_only[of gpId s ts t] by simp
next
  case (8 os)
  then have "quiet gpId (gw_orders s) os" by (intro orders_quiet) (simp_all add: all_ok_def pays_ok_def)
  from quiet_ok[OF 8(1) this, of t] 8 show ?case by simp
qed

lemma gw_run_ok: "(gw_step gx gpId)\<^sup>*\<^sup>* c d \<Longrightarrow> all_ok gpId c \<Longrightarrow> all_ok gpId d"
  by (induction rule: rtranclp_induct) (metis gw_step_ok surj_pair)+

lemma key_once:
  assumes "distinct (keysOf ps)" "q \<in> set ps" "py_clientRequestId q = Some k"
  shows "filter (\<lambda>x. py_orderId x = py_orderId q \<and> py_clientRequestId x = Some k) ps = [q]"
  using assms
proof (induction ps)
  case (Cons a ps)
  have k: "keysOf (a # ps) = (case py_clientRequestId a of None \<Rightarrow> [] | Some k \<Rightarrow> [(py_orderId a, k)]) @ keysOf ps"
    by (auto simp: keysOf_def split: option.splits)
  have in_keys: "(py_orderId x, k) \<in> set (keysOf ps)" if "x \<in> set ps" "py_clientRequestId x = Some k" for x
    using that by (force simp: keysOf_def)
  show ?case
  proof (cases "a = q")
    case True
    then have "(py_orderId q, k) \<notin> set (keysOf ps)" using Cons.prems k by simp
    then have "filter (\<lambda>x. py_orderId x = py_orderId q \<and> py_clientRequestId x = Some k) ps = []"
      using in_keys unfolding filter_empty_conv by metis
    then show ?thesis using True Cons.prems by simp
  next
    case False
    then have q: "q \<in> set ps" using Cons.prems by simp
    then have "\<not> (py_orderId a = py_orderId q \<and> py_clientRequestId a = Some k)"
      using in_keys[OF q] Cons.prems(1,3) k by auto
    moreover have "distinct (keysOf ps)" using Cons.prems(1) k by simp
    ultimately show ?thesis using Cons.IH q Cons.prems(3) by auto
  qed
qed simp


text \<open>A payment whose booking had gone through when the process stopped: looked at again, it is settled, not booked twice.\<close>

definition sample_link :: gateway_payment where
  "sample_link = \<lparr>gp_id = ''gp000001'', gp_restaurantId = ''r'', gp_branchId = ''b'', gp_orderId = ''paid1'',
     gp_provider = ''razorpay'', gp_mode = GW_LIVE, gp_amountMinor = 20000, gp_currency = ''INR'', gp_status = GP_NEEDS_REVIEW,
     gp_providerRef = Some ''plink'', gp_providerPaymentId = None, gp_checkoutUrl = Some ''https://rzp.io/l'',
     gp_createdById = ''ann'', gp_appliedAt = None, gp_createdAt = 900000\<rparr>"

definition sample_booking :: payment where
  "sample_booking = \<lparr>py_orderId = ''paid1'', py_method = OTHER, py_amount = 20000, py_tendered = None, py_changeGiven = None,
     py_reference = Some ''razorpay:pay1'', py_createdById = ''ann'', py_clientRequestId = Some ''gp000001''\<rparr>"

definition sample_gateway :: gateway_state where
  "sample_gateway = \<lparr>gw_orders = sample_db\<lparr>db_payments := [sample_booking]\<rparr>, gw_connections = [],
     gw_payments = [sample_link], gw_refunds = [], gw_events = [], gw_lastFetch = []\<rparr>"

definition sample_gx :: gateway_config where
  "sample_gx = \<lparr>gx_orders = sample_config, gx_restaurantOf = [(''b'', ''r'')], gx_currencies = [(''r'', ''INR'')], gx_entries = [],
     gx_box = \<lparr>sb_seal = (\<lambda>_ _. ''''), sb_unseal = (\<lambda>_ _. None)\<rparr>\<rparr>"

definition sample_remote :: remote_status where
  "sample_remote = \<lparr>rm_state = REMOTE_PAID, rm_paidMinor = 20000, rm_requestedMinor = 20000, rm_currency = ''INR'',
     rm_reference = Some ''gp000001'', rm_providerPaymentId = Some ''pay1''\<rparr>"

definition sampleKey :: "string \<Rightarrow> bool" where "sampleKey k \<longleftrightarrow> take 2 k = ''gp''"

lemma sample_pays_ok: "pays_ok sampleKey sample_gateway"
proof -
  have "db_ok (gw_orders sample_gateway)"
    unfolding db_ok_def linked_def paid_ok_def returns_ok_def keysOf_def keyed_def by code_simp
  moreover have "bookedAmount sample_link = 20000"
  proof -
    have "fromMinor 20000 ''INR'' = cents 20000"
      by (simp add: fromMinor_def fdiv_def dec_def) code_simp
    then show ?thesis by (simp add: bookedAmount_def sample_link_def in_range_def)
  qed
  ultimately show ?thesis
    by (simp add: pays_ok_def rows_from_def sample_gateway_def sample_booking_def keyed_def sampleKey_def)
       (simp add: sample_link_def)
qed

lemma sample_run:
  "(gw_step sample_gx sampleKey)\<^sup>*\<^sup>* (sample_gateway, [])
     (sample_gateway\<lparr>gw_lastFetch := [(''gp000001'', 1000000)], gw_payments := [sample_link\<lparr>gp_status := GP_SUCCEEDED,
        gp_appliedAt := Some 1000000, gp_providerPaymentId := Some ''pay1''\<rparr>]\<rparr>, [])"
proof -
  let ?s0 = "sample_gateway" and ?s1 = "sample_gateway\<lparr>gw_lastFetch := [(''gp000001'', 1000000)]\<rparr>"
  let ?p2 = "sample_link\<lparr>gp_appliedAt := Some 1000000, gp_providerPaymentId := Some ''pay1''\<rparr>"
  let ?s2 = "?s1\<lparr>gw_payments := [?p2]\<rparr>"
  have r: "refreshRead sample_runtime ''gp000001'' None ?s0 = Inr (sample_link, True, ?s1)"
    by (simp add: refreshRead_def sample_gateway_def sample_link_def present_def sample_runtime_def MIN_REFRESH_GAP_MS_def setFetch_def)
  have a: "refreshAct sample_runtime sample_link sample_remote ?s1 = (True, ?s2)"
    by (simp add: refreshAct_def mismatch_def claimPayment_def claimable_def sample_gateway_def sample_link_def sample_remote_def
        count_where_def row_simps sample_runtime_def)
  have f: "findOrder ''b'' ''paid1'' (gw_orders ?s2) = Some (sample_order ''paid1'' ''260101-0001'' PAID NOT_REQUIRED None 20000)"
    by (simp add: findOrder_def sample_gateway_def sample_db_def) (simp add: sample_order_def)
  have q: "isReplay (bookingOf sample_link (Some ''pay1'')) (paymentsOf ''paid1'' (gw_orders ?s2))"
    by (simp add: isReplay_def bookingOf_def present_def paymentsOf_def sample_gateway_def sample_booking_def sample_link_def)
  have c: "checkoutRead (gx_orders sample_gx) sample_runtime (gp_branchId sample_link) (gp_orderId sample_link)
      (bookingOf sample_link (Some ''pay1'')) False (gw_orders ?s2) = Inr Replay"
    using f q by (simp add: checkoutRead_def getOrder_def sample_link_def)
  obtain v where v: "checkoutResult (gp_branchId sample_link) (gp_orderId sample_link) (gw_orders ?s2) = Inr v"
    using f by (simp add: checkoutResult_def getOrder_def sample_link_def Let_def)
  have m: "bookedMark ''gp000001'' True ?s2 =
      ?s1\<lparr>gw_payments := [sample_link\<lparr>gp_status := GP_SUCCEEDED, gp_appliedAt := Some 1000000, gp_providerPaymentId := Some ''pay1''\<rparr>]\<rparr>"
    by (simp add: bookedMark_def updPayment_def row_simps sample_link_def)
  have i: "gp_id sample_link = ''gp000001''" "rm_providerPaymentId sample_remote = Some ''pay1''"
    by (simp_all add: sample_link_def sample_remote_def)
  have "gw_step sample_gx sampleKey (?s0, []) (?s1, [Answered sample_link sample_remote])"
    using gw_step.look[OF r] by simp
  moreover have "gw_step sample_gx sampleKey (?s1, [Answered sample_link sample_remote]) (?s2, [Claimed sample_link (Some ''pay1'')])"
    using gw_step.run[OF task_step.act[OF a, of sample_gx], of sampleKey "[]" "[]"] i by simp
  moreover have "gw_step sample_gx sampleKey (?s2, [Claimed sample_link (Some ''pay1'')]) (?s2, [Settled ''gp000001'' True])"
    using gw_step.run[OF task_step.replay[OF c v], of sampleKey "[]" "[]"] i by simp
  moreover have "gw_step sample_gx sampleKey (?s2, [Settled ''gp000001'' True]) (bookedMark ''gp000001'' True ?s2, [])"
    using gw_step.run[OF task_step.mark[of sample_gx "''gp000001''" True ?s2], of sampleKey "[]" "[]"] by simp
  ultimately show ?thesis unfolding m
    by (intro rtranclp_trans[OF r_into_rtranclp rtranclp_trans[OF r_into_rtranclp rtranclp_trans[OF r_into_rtranclp r_into_rtranclp]]])
       simp_all
qed


end
