(* ===== verification/Online_Refunds.thy ===== *)
theory Online_Refunds
  imports Online_Settlement
begin

text \<open>
  Refunds of online payments under the interleavings of \<open>Online_Settlement\<close>: what the refunds of a payment
  hold of it never exceeds what was paid, and what a provider accepted is never released.
\<close>

section \<open>What holds between the steps\<close>

text \<open>The rows of the refunds under way.\<close>

fun refundOf :: "gw_task \<Rightarrow> gateway_refund list" where
  "refundOf (Reserved row inp) = [row]"
| "refundOf (Sent row pid inp) = [row]"
| "refundOf (Recorded row pid local) = [row]"
| "refundOf w = []"

definition underWay :: "gw_task list \<Rightarrow> gateway_refund list" where
  "underWay ts = concat (map refundOf ts)"

fun planned_ok :: "gateway_state \<Rightarrow> gw_task \<Rightarrow> bool" where
  "planned_ok s (Refunding rid fp) = (0 < fp_amountMinor fp \<and> known s (fp_payment fp))"
| "planned_ok s w = True"

definition refunds_ok :: "gateway_state \<Rightarrow> bool" where
  "refunds_ok s \<longleftrightarrow> keyed gp_id (gw_payments s) \<and> keyed gr_id (gw_refunds s) \<and>
     (\<forall>r \<in> set (gw_refunds s). 0 < gr_amountMinor r \<and> gr_gatewayPaymentId r \<in> gp_id ` set (gw_payments s) \<and>
        (gr_status r = GR_FAILED \<longrightarrow> gr_providerRefundId r = None)) \<and>
     (\<forall>p \<in> set (gw_payments s). heldOf (gp_id p) s \<le> gp_amountMinor p)"

definition refunding_ok :: "gateway_state \<times> gw_task list \<Rightarrow> bool" where
  "refunding_ok c \<longleftrightarrow> refunds_ok (fst c) \<and> distinct (map gr_id (underWay (snd c))) \<and>
     (\<forall>row \<in> set (underWay (snd c)). row \<in> set (gw_refunds (fst c)) \<and> gr_status row = GR_PENDING \<and> gr_providerRefundId row = None) \<and>
     (\<forall>w \<in> set (snd c). planned_ok (fst c) w)"

lemma underWay_simps [simp]: "underWay [] = []" "underWay (w # ts) = refundOf w @ underWay ts"
  "underWay (ts @ us) = underWay ts @ underWay us"
  by (simp_all add: underWay_def)

section \<open>Steps that change no refund\<close>

lemma known_frozen: "list_all2 same_payment (gw_payments s) (gw_payments t) \<Longrightarrow> known s p \<Longrightarrow> known t p"
  using all2_left[of same_payment "gw_payments s" "gw_payments t"] unfolding known_def same_payment_def by metis

lemma planned_frozen:
  "list_all2 same_payment (gw_payments s) (gw_payments t) \<Longrightarrow> planned_ok s w \<Longrightarrow> planned_ok t w"
  using known_frozen by (cases w) auto

lemma frozen_ids: "list_all2 same_payment ps qs \<Longrightarrow> map gp_id qs = map gp_id ps"
  by (induction rule: list_all2_induct) (auto simp: same_payment_def)

lemma refunds_ok_frozen:
  assumes "refunds_ok s" "list_all2 same_payment (gw_payments s) (gw_payments t)" "gw_refunds t = gw_refunds s"
  shows "refunds_ok t"
proof -
  have ids: "gp_id ` set (gw_payments t) = gp_id ` set (gw_payments s)"
    using frozen_ids[OF assms(2)] by (metis image_set)
  have "heldOf (gp_id x) t \<le> gp_amountMinor x" if x: "x \<in> set (gw_payments t)" for x
    using all2_right[OF assms(2) x] assms(1,3) unfolding refunds_ok_def heldOf_def same_payment_def by auto
  then show ?thesis using assms(1,3) ids frozen_ids[OF assms(2)] unfolding refunds_ok_def keyed_def by simp
qed

text \<open>What a step leaves: the refunds, what the payments are about, and no refund begins.\<close>

definition quietly :: "gateway_state \<times> gw_task list \<Rightarrow> gateway_state \<times> gw_task list \<Rightarrow> bool" where
  "quietly c d \<longleftrightarrow> gw_refunds (fst d) = gw_refunds (fst c) \<and>
     list_all2 same_payment (gw_payments (fst c)) (gw_payments (fst d)) \<and>
     (distinct (map gr_id (underWay (snd c))) \<longrightarrow> distinct (map gr_id (underWay (snd d)))) \<and>
     set (underWay (snd d)) \<subseteq> set (underWay (snd c)) \<and>
     (\<forall>w \<in> set (snd d). planned_ok (fst c) w \<or> w \<in> set (snd c))"

lemma quietly_ok: "quietly c d \<Longrightarrow> refunding_ok c \<Longrightarrow> refunding_ok d"
  using refunds_ok_frozen[of "fst c" "fst d"] planned_frozen[of "fst c" "fst d"]
  unfolding quietly_def refunding_ok_def by (auto dest: subsetD)

lemma same_frozen [simp]: "list_all2 same_payment ps ps" by (simp add: list_all2_same)

section \<open>What a refund's steps do\<close>

lemma heldOf_upd:
  assumes "\<And>r. gr_id r = i \<Longrightarrow> r \<in> set (gw_refunds s) \<Longrightarrow>
      gr_amountMinor (f r) = gr_amountMinor r \<and> gr_gatewayPaymentId (f r) = gr_gatewayPaymentId r \<and>
      (heldStatus (gr_status (f r)) \<longrightarrow> heldStatus (gr_status r))"
    "\<And>r. r \<in> set (gw_refunds s) \<Longrightarrow> 0 < gr_amountMinor r"
  shows "heldOf k (updRefund i f s) \<le> heldOf k s"
proof -
  have "sum_list (map gr_amountMinor (filter (\<lambda>r. gr_gatewayPaymentId r = k \<and> heldStatus (gr_status r)) (upd_where (\<lambda>r. gr_id r = i) f rs)))
      \<le> sum_list (map gr_amountMinor (filter (\<lambda>r. gr_gatewayPaymentId r = k \<and> heldStatus (gr_status r)) rs))"
    if "set rs \<subseteq> set (gw_refunds s)" for rs
    using that
  proof (induction rs)
    case (Cons r rs)
    then show ?case using assms(1)[of r] assms(2)[of r] by (auto simp: row_simps)
  qed (simp add: row_simps)
  then show ?thesis by (simp add: heldOf_def updRefund_def)
qed

lemma refunds_ok_upd:
  assumes "refunds_ok s"
    "\<And>r. gr_id r = i \<Longrightarrow> r \<in> set (gw_refunds s) \<Longrightarrow> gr_id (f r) = gr_id r \<and>
      gr_amountMinor (f r) = gr_amountMinor r \<and> gr_gatewayPaymentId (f r) = gr_gatewayPaymentId r \<and>
      (heldStatus (gr_status (f r)) \<longrightarrow> heldStatus (gr_status r)) \<and>
      (gr_status (f r) = GR_FAILED \<longrightarrow> gr_providerRefundId (f r) = None)"
  shows "refunds_ok (updRefund i f s)"
proof -
  have h: "heldOf k (updRefund i f s) \<le> heldOf k s" for k
    by (rule heldOf_upd) (use assms in \<open>auto simp: refunds_ok_def\<close>)
  have "map gr_id (upd_where (\<lambda>r. gr_id r = i) f (gw_refunds s)) = map gr_id (gw_refunds s)"
    using assms(2) by (simp add: upd_where_def)
  then have k: "keyed gr_id (gw_refunds (updRefund i f s))" using assms(1) by (simp add: refunds_ok_def keyed_def updRefund_def)
  have p: "gw_payments (updRefund i f s) = gw_payments s" by (simp add: updRefund_def)
  have "0 < gr_amountMinor r \<and> gr_gatewayPaymentId r \<in> gp_id ` set (gw_payments s) \<and>
      (gr_status r = GR_FAILED \<longrightarrow> gr_providerRefundId r = None)" if "r \<in> set (gw_refunds (updRefund i f s))" for r
    using that assms by (auto simp: updRefund_def set_upd_where refunds_ok_def)
  moreover have "heldOf (gp_id x) (updRefund i f s) \<le> gp_amountMinor x" if "x \<in> set (gw_payments s)" for x
    using h[of "gp_id x"] assms(1) that unfolding refunds_ok_def by fastforce
  ultimately show ?thesis using assms(1) k unfolding refunds_ok_def p by blast
qed

text \<open>The end of a refund: its row, which no other request has, leaves the ones under way.\<close>

lemma finish_ok:
  assumes "refunding_ok (s, as @ w # bs)" "refundOf w = [row]"
    "gr_id (f row) = gr_id row \<and> gr_amountMinor (f row) = gr_amountMinor row \<and>
       gr_gatewayPaymentId (f row) = gr_gatewayPaymentId row \<and> (gr_status (f row) = GR_FAILED \<longrightarrow> gr_providerRefundId (f row) = None)"
  shows "refunding_ok (updRefund (gr_id row) f s, as @ bs)"
proof -
  have u: "set (underWay (as @ w # bs)) = insert row (set (underWay (as @ bs)))"
    "distinct (map gr_id (underWay (as @ w # bs))) \<Longrightarrow> distinct (map gr_id (underWay (as @ bs))) \<and> gr_id row \<notin> gr_id ` set (underWay (as @ bs))"
    using assms(2) by auto
  have s: "refunds_ok s" "row \<in> set (gw_refunds s)" "gr_status row = GR_PENDING"
    using assms(1) u(1) by (auto simp: refunding_ok_def)
  have only: "r = row" if "gr_id r = gr_id row" "r \<in> set (gw_refunds s)" for r
    using s that keyed_unique[of gr_id "gw_refunds s" r row] by (simp add: refunds_ok_def)
  have t: "refunds_ok (updRefund (gr_id row) f s)"
    by (rule refunds_ok_upd[OF s(1)]) (use only assms(3) s(3) in \<open>auto simp: heldStatus_def\<close>)
  have p: "gw_payments (updRefund (gr_id row) f s) = gw_payments s" by (simp add: updRefund_def)
  have stay: "r \<in> set (gw_refunds (updRefund (gr_id row) f s))" if "r \<in> set (gw_refunds s)" "gr_id r \<noteq> gr_id row" for r
    using that by (simp add: updRefund_def set_upd_where)
  have "planned_ok (updRefund (gr_id row) f s) w" if "planned_ok s w" for w
    using planned_frozen[of s _ w] that p by simp
  moreover have "r \<in> set (gw_refunds (updRefund (gr_id row) f s)) \<and> gr_status r = GR_PENDING \<and> gr_providerRefundId r = None"
    if "r \<in> set (underWay (as @ bs))" for r
  proof -
    have "gr_id r \<noteq> gr_id row" using u(2) assms(1) that by (metis refunding_ok_def snd_conv image_eqI)
    then show ?thesis using assms(1) that u(1) stay by (auto simp: refunding_ok_def)
  qed
  ultimately show ?thesis using assms(1) t u(2) unfolding refunding_ok_def fst_conv snd_conv by auto
qed

text \<open>The beginning: the amount fits into what is left of the payment.\<close>

lemma reserve_ok:
  assumes "reserveRefund rt rid fp s = Inr (row, t)" "refunding_ok (s, as @ Refunding rid fp # bs)"
  shows "refunding_ok (t, as @ Reserved row inp # bs)"
proof -
  let ?p = "fp_payment fp"
  have p: "0 < fp_amountMinor fp" "known s ?p" and s: "refunds_ok s" using assms(2) by (auto simp: refunding_ok_def)
  from assms(1) have row: "gr_gatewayPaymentId row = gp_id ?p" "gr_amountMinor row = fp_amountMinor fp" "gr_status row = GR_PENDING"
      "gr_providerRefundId row = None"
    and fits: "heldOf (gp_id ?p) s + fp_amountMinor fp \<le> gp_amountMinor ?p"
    and new: "gr_id row \<notin> gr_id ` set (gw_refunds s)"
    and t: "gw_refunds t = gw_refunds s @ [row]" "gw_payments t = gw_payments s"
    by (auto simp: reserveRefund_def Let_def count_where_def filter_empty_conv split: if_splits prod.splits)
  have held: "heldOf k t = heldOf k s + (if k = gp_id ?p then fp_amountMinor fp else 0)" for k
    using row by (auto simp: heldOf_def t heldStatus_def)
  obtain x where x: "x \<in> set (gw_payments s)" "same_payment ?p x" using p(2) unfolding known_def by blast
  have "heldOf (gp_id y) t \<le> gp_amountMinor y" if y: "y \<in> set (gw_payments s)" for y
  proof (cases "gp_id y = gp_id ?p")
    case True
    then have "y = x" using keyed_unique[of gp_id "gw_payments s" y x] y x s by (simp add: refunds_ok_def same_payment_def)
    then show ?thesis using held True fits x(2) by (simp add: same_payment_def)
  next
    case False
    then show ?thesis using held s y by (simp add: refunds_ok_def)
  qed
  moreover have "gp_id ?p \<in> gp_id ` set (gw_payments s)" using x by (auto simp: same_payment_def image_iff intro!: bexI[of _ x])
  ultimately have "refunds_ok t" using s new row p(1) unfolding refunds_ok_def t by (auto simp: row_simps)
  moreover have "planned_ok t w" if "planned_ok s w" for w using planned_frozen[of s t w] that t(2) by simp
  moreover have "gr_id row \<notin> gr_id ` set (underWay (as @ bs))"
  proof
    assume "gr_id row \<in> gr_id ` set (underWay (as @ bs))"
    then have "gr_id row \<in> gr_id ` set (gw_refunds s)" using assms(2) by (auto simp: refunding_ok_def)
    with new show False by simp
  qed
  ultimately show ?thesis using assms(2) row(3,4) unfolding refunding_ok_def fst_conv snd_conv by (auto simp: t(1))
qed

section \<open>Every step\<close>

lemma updPayment_frozen:
  assumes "\<And>x. same_payment x (f x)"
  shows "gw_refunds (updPayment i f s) = gw_refunds s \<and> list_all2 same_payment (gw_payments s) (gw_payments (updPayment i f s))"
  using upd_frozen[of _ f "gw_payments s"] assms by (simp add: updPayment_def)

lemma claim_frozen:
  "claimPayment rt i pid s = (go, t) \<Longrightarrow> gw_refunds t = gw_refunds s \<and> list_all2 same_payment (gw_payments s) (gw_payments t)"
  by (auto simp: claimPayment_def same_payment_def split: if_splits intro!: upd_frozen)

lemma act_frozen:
  "refreshAct rt p r s = (go, t) \<Longrightarrow> gw_refunds t = gw_refunds s \<and> list_all2 same_payment (gw_payments s) (gw_payments t)"
  using claim_frozen[of rt "gp_id p" _ s go t]
  by (auto simp: refreshAct_def updPayment_def same_payment_def split: if_splits intro!: upd_frozen)

lemma mark_frozen:
  "gw_refunds (bookedMark i ok s) = gw_refunds s \<and> list_all2 same_payment (gw_payments s) (gw_payments (bookedMark i ok s))"
  unfolding bookedMark_def by (rule updPayment_frozen) (simp add: same_payment_def)

lemma quietly_run:
  "gw_refunds t = gw_refunds s \<Longrightarrow> list_all2 same_payment (gw_payments s) (gw_payments t) \<Longrightarrow>
   underWay ns = refundOf w \<Longrightarrow> (\<And>v. v \<in> set ns \<Longrightarrow> planned_ok s v) \<Longrightarrow>
   quietly (s, as @ w # bs) (t, as @ ns @ bs)"
  by (auto simp: quietly_def)

lemma task_refunding:
  assumes "task_step gx (w, s) (ns, t)" "refunding_ok (s, as @ w # bs)"
  shows "refunding_ok (t, as @ ns @ bs)"
  using assms(1)
proof (cases rule: task_step.cases)
  case (act rt p r go)
  then show ?thesis using act_frozen[OF act(3)] by (intro quietly_ok[OF quietly_run assms(2)]) auto
next
  case (mark i ok)
  then show ?thesis using mark_frozen by (intro quietly_ok[OF quietly_run assms(2)]) auto
next
  case (reserve rt rid fp row inp)
  then show ?thesis using reserve_ok[of rt rid fp s row t as bs inp] assms(2) by simp
next
  case (full rt rid fp e)
  then show ?thesis using assms(2) by (auto simp: refunding_ok_def)
next
  case (refused row inp e)
  have "refunding_ok (updRefund (gr_id row) (\<lambda>r. r\<lparr>gr_status := refundRefused e\<rparr>) s, as @ bs)"
  proof (rule finish_ok[of s as w bs row])
    show "refunding_ok (s, as @ w # bs)" "refundOf w = [row]" using assms(2) refused by simp_all
    have "gr_providerRefundId row = None" using assms(2) refused by (simp add: refunding_ok_def)
    then show "gr_id (row\<lparr>gr_status := refundRefused e\<rparr>) = gr_id row \<and> gr_amountMinor (row\<lparr>gr_status := refundRefused e\<rparr>) = gr_amountMinor row \<and>
       gr_gatewayPaymentId (row\<lparr>gr_status := refundRefused e\<rparr>) = gr_gatewayPaymentId row \<and>
       (gr_status (row\<lparr>gr_status := refundRefused e\<rparr>) = GR_FAILED \<longrightarrow> gr_providerRefundId (row\<lparr>gr_status := refundRefused e\<rparr>) = None)" by simp
  qed
  then show ?thesis using refused by simp
next
  case (noted row pid local)
  have "refunding_ok (refundRecorded (gr_id row) pid local s, as @ bs)" unfolding refundRecorded_def
    by (rule finish_ok[OF assms(2), of row]) (use noted in \<open>auto split: sum.splits\<close>)
  then show ?thesis using noted by simp
next
  case (booked rt b row u inp local pid)
  then show ?thesis by (intro quietly_ok[OF quietly_run assms(2)]) (auto simp: recordLocally_def split: sum.splits)
qed (intro quietly_ok[OF quietly_run assms(2)]; simp)+

lemma linkRead_positive: "linkRead gx rt rid b o' inp s = Inr (Inr lp) \<Longrightarrow> 0 < lp_amountMinor lp"
  by (auto simp: linkRead_def Let_def elim!: ebind_InrE split: if_split_asm option.split_asm)

lemma link_refunding:
  assumes "linkRow rt rid b o' u lp s = Inr (p, t)" "0 < lp_amountMinor lp" "refunding_ok (s, ts)"
  shows "refunding_ok (t, ts)"
proof -
  from assms(1) have t: "gw_payments t = gw_payments s @ [p]" "gw_refunds t = gw_refunds s" "gp_amountMinor p = lp_amountMinor lp"
    and n: "findPayment (gp_id p) s = None"
    by (auto simp: linkRow_def freshId_def Let_def split: if_splits)
  have new: "gp_id p \<notin> gp_id ` set (gw_payments s)" using n by (auto simp: findPayment_def find_None_iff)
  have s: "refunds_ok s" using assms(3) by (simp add: refunding_ok_def)
  have "filter (\<lambda>r. gr_gatewayPaymentId r = gp_id p \<and> heldStatus (gr_status r)) (gw_refunds s) = []"
    unfolding filter_empty_conv using s new by (metis refunds_ok_def)
  then have "heldOf (gp_id p) t = 0" by (simp add: heldOf_def t(2))
  moreover have "heldOf k t = heldOf k s" for k by (simp add: heldOf_def t(2))
  ultimately have "refunds_ok t" using s new assms(2) t(3) unfolding refunds_ok_def t(1,2) by (auto simp: row_simps)
  moreover have "planned_ok t w" if "planned_ok s w" for w
    using that by (cases w) (auto simp: known_def t(1))
  ultimately show ?thesis using assms(3) by (simp add: refunding_ok_def t(2))
qed

lemma gw_refunding: "gw_step gx gpId (s, ts) (t, us) \<Longrightarrow> refunding_ok (s, ts) \<Longrightarrow> refunding_ok (t, us)"
proof (erule gw_stepE, goal_cases)
  case (1 rt0 rid b o' inp s0 lp rt u p)
  then show ?case using link_refunding linkRead_positive by metis
next
  case (2 i answer x)
  then have "gw_refunds t = gw_refunds s \<and> list_all2 same_payment (gw_payments s) (gw_payments t)"
    by (auto simp: linkDone_def updPayment_def same_payment_def split: sum.splits prod.splits intro!: upd_frozen)
  with 2 show ?case by (intro quietly_ok[OF _ 2(1)]) (simp add: quietly_def)
next
  case (3 rt i scope p r)
  then have "t = s\<lparr>gw_lastFetch := setFetch i (rt_now rt) (gw_lastFetch s)\<rparr>"
    by (auto simp: refreshRead_def split: option.splits if_splits)
  with 3 show ?case by (intro quietly_ok[OF _ 3(1)]) (simp add: quietly_def)
next
  case (4 w next' as bs)
  then show ?case using task_refunding[of gx w s next' t as bs] by simp
next
  case (5 as w bs)
  then show ?case by (intro quietly_ok[OF _ 5(1)]) (auto simp: quietly_def)
next
  case (6 rid b i inp fp)
  then have "planned_ok s (Refunding rid fp)"
    by (auto simp: gatewayRefundRead_def known_def Let_def dest!: find_SomeD split: option.splits if_splits intro: same_payment_refl)
  with 6 show ?case by (intro quietly_ok[OF _ 6(1)]) (auto simp: quietly_def)
next
  case (7 cs)
  then show ?case by (intro quietly_ok[OF _ 7(1)]) (simp add: quietly_def)
next
  case (8 os)
  then show ?case by (intro quietly_ok[OF _ 8(1)]) (simp add: quietly_def)
qed

lemma run_refunding: "(gw_step gx gpId)\<^sup>*\<^sup>* c d \<Longrightarrow> refunding_ok c \<Longrightarrow> refunding_ok d"
  by (induction rule: rtranclp_induct) (metis gw_refunding surj_pair)+

section \<open>Never more than was paid\<close>

text \<open>What the provider is known to have sent back of a payment.\<close>

definition sentBack :: "string \<Rightarrow> gateway_state \<Rightarrow> int" where
  "sentBack i s = sum_list (map gr_amountMinor
     (filter (\<lambda>r. gr_gatewayPaymentId r = i \<and> gr_providerRefundId r \<noteq> None) (gw_refunds s)))"

lemma sum_filter_mono:
  "(\<And>r. r \<in> set rs \<Longrightarrow> P r \<Longrightarrow> Q r) \<Longrightarrow> (\<And>r. r \<in> set rs \<Longrightarrow> 0 \<le> f r) \<Longrightarrow>
   sum_list (map f (filter P rs)) \<le> sum_list (map f (filter Q rs))" for f :: "'a \<Rightarrow> int"
  by (induction rs) (auto simp: add_increasing)

lemma sent_held: "refunds_ok s \<Longrightarrow> sentBack i s \<le> heldOf i s"
  unfolding sentBack_def heldOf_def
proof (rule sum_filter_mono)
  fix r :: gateway_refund
  assume "refunds_ok s" "r \<in> set (gw_refunds s)" "gr_gatewayPaymentId r = i \<and> gr_providerRefundId r \<noteq> None"
  then show "gr_gatewayPaymentId r = i \<and> heldStatus (gr_status r)"
    unfolding refunds_ok_def heldStatus_def by (cases "gr_status r") auto
qed (auto simp: refunds_ok_def less_imp_le)


text \<open>A payment of 200.00: two people send 150.00 and 100.00 back at the same time; the first is accepted by the
  provider and the process stops before it is recorded; the second finds the amount still reserved.\<close>

definition sample_refund_gx :: gateway_config where
  "sample_refund_gx = sample_gx\<lparr>gx_entries := [\<lparr>ce_id = ''c'', ce_restaurantId = None, ce_key = ''razorpay'',
     ce_adapter = Some ''razorpay'', ce_active = True\<rparr>]\<rparr>"

definition sample_paid_link :: gateway_payment where
  "sample_paid_link = sample_link\<lparr>gp_status := GP_SUCCEEDED, gp_appliedAt := Some 1000000, gp_providerPaymentId := Some ''pay1''\<rparr>"

definition sample_refund_state :: gateway_state where
  "sample_refund_state = sample_gateway\<lparr>gw_payments := [sample_paid_link], gw_connections := [sample_connection ''razorpay'']\<rparr>"

definition sample_ask :: "num \<Rightarrow> gateway_refund_input" where
  "sample_ask a = \<lparr>ri_amount = a, ri_returnedItems = []\<rparr>"

definition sample_plan :: "int \<Rightarrow> refund_plan" where
  "sample_plan m = \<lparr>fp_payment = sample_paid_link, fp_adapter = razorpayAdapter, fp_connection = sample_connection ''razorpay'',
     fp_amountMinor = m\<rparr>"

lemma sample_refund_ok: "refunds_ok sample_refund_state"
  by (simp add: refunds_ok_def sample_refund_state_def sample_gateway_def keyed_def heldOf_def)
     (simp add: sample_paid_link_def sample_link_def)

lemma sample_refund_read:
  assumes "toMinor n ''INR'' = m" "0 < m" "n \<le> 200"
  shows "gatewayRefundRead sample_refund_gx ''r'' ''b'' ''gp000001'' (sample_ask n) sample_refund_state = Inr (sample_plan m)"
proof -
  let ?o = "sample_order ''paid1'' ''260101-0001'' PAID NOT_REQUIRED None 20000"
  have f: "findOrder ''b'' ''paid1'' sample_db = Some ?o"
    by (simp add: findOrder_def sample_db_def) (simp add: sample_order_def)
  have "round2 (cents 20000) = 200" using cents_whole[of 200] round2_of_cents[of 20000] by (simp add: in_range_def)
  then have l: "localLeft ?o (sample_db\<lparr>db_payments := x\<rparr>) = 200" for x
    by (simp add: localLeft_def sample_db_def) (simp add: sample_order_def)
  have a: "getAdapter (Some ''razorpay'') = Some razorpayAdapter" "ad_refunds razorpayAdapter"
    by (simp_all add: getAdapter_def ADAPTERS_def razorpayAdapter_def)
  have s: "od_status ?o = PAID" by (simp add: sample_order_def)
  show ?thesis using f l a s assms
    by (simp add: gatewayRefundRead_def sample_refund_state_def sample_refund_gx_def sample_gx_def sample_gateway_def sample_plan_def
        sample_ask_def providerRow_def ofProvider_def sample_connection_def sample_paid_link_def sample_link_def present_def findOrder_def Let_def)
qed


end
