(* ===== verification/Spec2Isabelle.thy ===== *)
theory Spec2Isabelle
  imports Settlement Marketing Kot_Lifecycle Stock Gift_Cards Referrals Stores Delivery Day_Closing Verifactu_Log Order_Kitchen Order_Numbers Order_Tables Order_Money Order_Schedule Webhooks Csv Payroll_Books Online_Refunds
begin

text \<open>
  A verification library for the backend of a restaurant point of sale (\<open>apps/backend\<close>, with the schemas and
  state machines it shares with its clients in \<open>packages/types\<close>). It models the services that decide what
  happens to orders, money, stock, points and legal records; every definition is a translation of the
  TypeScript named beside it, executable where the code is, and the theorems numbered C1 to C40 state what
  makes the services correct.

  The program. A client sends a request to a controller, which checks the caller and the shape of the body and
  calls a service. A service reads rows, decides, and writes in one or more database transactions; a few
  services run on a timer. Services call one another: taking an order prices its lines (\<open>pricing.ts\<close>), the
  till settles a bill (\<open>settlement.ts\<close>), and in one transaction redeems a coupon, points and a gift card,
  writes payments and the fiscal record, and afterwards deducts stock, rewards a referral and frees the table.
  Online payments call the till from outside; webhooks and the fiscal agency are told later by workers.

  How it is modelled. A row is a record, a table is a list of rows in order of insertion, a database state a
  record of tables. A handler is a function from its arguments and the state to a failure or a result with the
  new state (\<open>exn + 'a\<close>, written \<open>'a res\<close>); a failure leaves the state as it was, as the transaction does. Where a
  handler reads first and writes in a later transaction, both halves are definitions of their own
  (\<open>checkoutRead\<close> and \<open>checkoutTx\<close>, \<open>withdrawRead\<close> and \<open>withdrawWrite\<close>, ...), so that other requests can come
  between them. What the source takes from its surroundings is an argument: the clock, new identifiers and
  the date of the branch (\<open>runtime\<close>), random codes, digests, sealing, name lookup, the answers of providers,
  receivers and the fiscal agency. Amounts in \<open>Decimal\<close> columns are integers in units of the last place;
  amounts the code computes with are doubles (\<open>num\<close>), rounded after every operation as IEEE 754 does.

  Foundations.
  \<^item> \<open>Js_Number\<close>: doubles as rationals with rounding to nearest even at 53 bits, \<open>Math.round\<close>, and the
    analysis that carries every money theorem: a value close to a whole number of cents is recovered by the
    rounding idiom as long as it is below ten thousand million (\<open>in_range\<close>, the range of the columns).
  \<^item> \<open>Prelude\<close>: failures, sequencing (\<open>ebind\<close>), conditional updates of tables (\<open>upd_where\<close>, \<open>del_where\<close>,
    \<open>count_where\<close>), distinct keys (\<open>keyed\<close>), strings.
  \<^item> \<open>Ledger\<close> (locales \<open>ledger\<close>, \<open>capped_ledger\<close>, \<open>append_only\<close>): a balance beside its journal. Interpreted for
    ingredient stock, gift cards, points and the fiscal log.
  \<^item> \<open>Lasting_Rows\<close> (locale \<open>protected_rows\<close>): rows that are final once settled. Interpreted for orders.

  Money and rules.
  \<^item> \<open>Pricing\<close>: \<open>packages/types/src/tax.ts\<close>, \<open>modules/orders/pricing.ts\<close>, \<open>common/money.ts\<close>,
    \<open>common/online-price.ts\<close>; \<open>Settlement\<close>: \<open>modules/orders/settlement.ts\<close> (C1, C2).
  \<^item> \<open>Discounts\<close>, \<open>Marketing\<close>: \<open>modules/marketing\<close>, coupons, happy hours, campaigns (C4, C5).
  \<^item> \<open>Gift_Cards\<close>: \<open>modules/gift-cards\<close> (C15); \<open>Referrals\<close>: \<open>modules/referrals\<close>, points and rewards (C16, C17).

  Stock.
  \<^item> \<open>Stock_Plan\<close>: \<open>modules/inventory/stock-plan.ts\<close>, what a sale uses (C10).
  \<^item> \<open>Stock\<close>: \<open>stock.service.ts\<close>, \<open>waste.service.ts\<close> and the stock parts of \<open>inventory.service.ts\<close>: first in first
    out over batches, reversal, correction, waste (C12, C13).
  \<^item> \<open>Purchasing\<close>: the services of purchase requests, quotations, purchase orders, goods receipts, supplier
    invoices and transfers; \<open>Stores\<close>: all of these with the operations of \<open>Stock\<close> as one step relation
    \<open>store_step\<close>, the journal over it (C11) and the booking of a receipt (C34). A transaction that works on rows
    read before it is split into a read and a transaction, so that what comes in between can be stated.

  Orders, \<open>modules/orders/orders.service.ts\<close> with \<open>packages/types/src/orders.ts\<close>.
  \<^item> \<open>Order_Types\<close>, \<open>Kot_Lifecycle\<close> (\<open>order-lifecycle.ts\<close>): enumerations and the machine of kitchen tickets.
  \<^item> \<open>Order_State\<close>: the rows (\<open>db\<close>), what handlers share; \<open>Order_Intake\<close>, \<open>Order_Lifecycle\<close>, \<open>Order_Editing\<close>,
    \<open>Kitchen_Tickets\<close>, \<open>Order_Checkout\<close>, \<open>Order_Refunds\<close>: one definition per handler and per step of it.
  \<^item> \<open>Order_Effects\<close>: the frame of each handler and rules that take a success apart; \<open>Order_Samples\<close>: a small
    restaurant for the worked examples.
  \<^item> \<open>Order_History\<close>: all handlers as one step relation \<open>order_step\<close>, and what no run undoes (C25, C26);
    \<open>Order_Integrity\<close>: the relations between rows that every handler keeps (C18); \<open>Order_Races\<close>: transactions
    on plans read at any earlier time (C27, C28); \<open>Order_Bills\<close>: stored totals follow the lines (C29, C30);
    \<open>Order_Kitchen\<close>: tickets (C31 to C33); \<open>Order_Numbers\<close>: numbers of the day; \<open>Order_Tables\<close> (C36); \<open>Order_Money\<close>: payments,
    previews and refunds (C37 to C39); \<open>Order_Schedule\<close>: scheduled orders reach the kitchen (C40).

  Legal records, \<open>modules/verifactu\<close>.
  \<^item> \<open>Verifactu_Domain\<close>: record texts, fingerprints, breakdown (C19); \<open>Verifactu_Service\<close>: numbering, chaining,
    verification, submission; \<open>Verifactu_Log\<close>: chains verify and are tamper evident, an order is invoiced once,
    an answer is final (C20 to C24).

  Payments through gateways, \<open>payment-gateways\<close>.
  \<^item> \<open>Gateways\<close>: minor units, adapters, webhook signatures, connections; \<open>Online_Payments\<close>: the handlers;
    \<open>Online_Settlement\<close>: every interleaving of webhooks, looks, stops of the process and the order service
    (\<open>gw_step\<close>, each request its own remaining program) books a payment once (C8); \<open>Online_Refunds\<close>: refunds
    stay within what was paid (C14).

  Other services.
  \<^item> \<open>Net_Guard\<close>, \<open>Webhooks\<close>: \<open>modules/webhooks\<close>: targets are public (C6), every delivery is settled (C3).
  \<^item> \<open>Csv\<close>: \<open>modules/imports/csv.ts\<close> (C7).
  \<^item> \<open>Payroll\<close>, \<open>Payroll_Books\<close>: \<open>modules/attendance\<close>, \<open>modules/hr\<close> (C9).
  \<^item> \<open>Delivery\<close>: \<open>modules/delivery\<close>, \<open>modules/rider\<close>, zones and the way of a delivery to the door;
    \<open>Day_Closing\<close>: \<open>modules/accounting\<close> and \<open>common/time.ts\<close>, expenses and the count of the till (C35).
  Termination and fuel. Every function is total. Loops of the source that end by themselves are structural or
  carry a measure; the two that need not are bounded as the code bounds them: at most a fixed number of tries
  for a random code (\<open>tryCodes\<close>), of attempts for a delivery (\<open>MAX_ATTEMPTS\<close>), of records for a batch. No
  theorem is about partial correctness only; C3 and C40 are about work that gets done.

  Assumptions of the theorems. Amounts are in the range of their columns; identifiers of rows are distinct at
  the start of a run; digests do not collide where C22 says so; the identifiers the server makes for online
  payments are not chosen by clients as request keys (C8).

  Not modelled.
  \<^item> Controllers, guards, the decoding of requests and the text of messages: framework wiring around the
    services. Schemas are modelled where a handler relies on them.
  \<^item> What only reads: listings, reports, dashboards, exports, receipts and their printing (\<open>escpos\<close>).
  \<^item> Rows with simple create, update and delete and no rule between them: menu, users, roles, settings,
    suppliers, expenses, documents.
  \<^item> Talking to the outside: mail, push, sockets, HTTP clients, SOAP, backups to disk and cloud, the assistant
    tools (\<open>mcp\<close>). Their answers are arguments where a modelled service acts on them.
  \<^item> The web and mobile clients, which show what the backend decides, and the migrations and seed data.
  \<^item> Concurrency below a statement: a transaction is one step. Conditional updates inside a transaction are
    modelled as the database runs them; that a transaction is atomic is the database's promise.
\<close>

end
